(* ===== verification/Prelude.thy ===== *)
theory Prelude
  imports Main "HOL-Library.Sublist" "HOL-Library.List_Lexorder" "HOL-Library.Char_ord"
begin

text \<open>
  What every component shares: the error values of the program, the state-and-error
  actions in which its statements are written, the association of times and stored
  timestamps, and lemmas on lists used by several components.
\<close>

section \<open>Hint collections\<close>

named_theorems act_simps \<open>unfolding of state-and-error actions\<close>
named_theorems pres_intros \<open>an action keeps an invariant of the state\<close>

section \<open>Errors\<close>

text \<open>
  The errors the code tells apart. \<open>ErrNoRows\<close> is sql.ErrNoRows, the three constraint
  errors are the ones store/errors.go recognises (plus CHECK constraints), and \<open>ErrFault\<close>
  is any failure of the database itself: a lost connection, a cancelled context.
\<close>

datatype error =
    ErrNoRows | ErrUnique | ErrForeignKey | ErrCheck | ErrFault
  | ErrTagExists
  | ErrTooLarge string nat
  | ErrMsg string

section \<open>Actions on a state\<close>

text \<open>
  A Go function with an error result that works on some state: it returns an error or a
  value, and the state it leaves behind. The state survives an error, as the database
  does when a later statement of the same function fails.
\<close>

type_synonym ('s, 'a) act = "'s \<Rightarrow> (error + 'a) \<times> 's"

definition ret :: "'a \<Rightarrow> ('s, 'a) act" where
  "ret a s = (Inr a, s)"

definition fail :: "error \<Rightarrow> ('s, 'a) act" where
  "fail e s = (Inl e, s)"

text \<open>\<open>v, err := m; if err != nil { return err }\<close>, followed by the rest.\<close>

definition bindA :: "('s, 'a) act \<Rightarrow> ('a \<Rightarrow> ('s, 'b) act) \<Rightarrow> ('s, 'b) act" where
  "bindA m k s = (case m s of (Inl e, s') \<Rightarrow> (Inl e, s') | (Inr a, s') \<Rightarrow> k a s')"

definition thenA :: "('s, 'a) act \<Rightarrow> ('s, 'b) act \<Rightarrow> ('s, 'b) act" where
  "thenA m n = bindA m (\<lambda>_. n)"

text \<open>Running an action and looking at its error instead of returning it.\<close>

definition attempt :: "('s, 'a) act \<Rightarrow> ('s, error + 'a) act" where
  "attempt m s = (case m s of (r, s') \<Rightarrow> (Inr r, s'))"

text \<open>Running an action whose error is only logged.\<close>

definition logged :: "('s, 'a) act \<Rightarrow> ('s, unit) act" where
  "logged m s = (Inr (), snd (m s))"

fun forA :: "'a list \<Rightarrow> ('a \<Rightarrow> ('s, unit) act) \<Rightarrow> ('s, unit) act" where
  "forA [] f = ret ()"
| "forA (x # xs) f = thenA (f x) (forA xs f)"

fun foldA :: "('a \<Rightarrow> 'b \<Rightarrow> ('s, 'b) act) \<Rightarrow> 'a list \<Rightarrow> 'b \<Rightarrow> ('s, 'b) act" where
  "foldA f [] b = ret b"
| "foldA f (x # xs) b = bindA (f x b) (foldA f xs)"

lemmas act_defs = ret_def fail_def bindA_def thenA_def attempt_def logged_def

lemma bindA_ret [simp, act_simps]: "bindA (ret a) k = k a"
  by (simp add: fun_eq_iff act_defs)

lemma bindA_fail [simp, act_simps]: "bindA (fail e) k = fail e"
  by (simp add: fun_eq_iff act_defs)

lemma ret_run [simp, act_simps]: "ret a s = (Inr a, s)"
  by (simp add: ret_def)

lemma fail_run [simp, act_simps]: "fail e s = (Inl e, s)"
  by (simp add: fail_def)

lemma bindA_Inr [act_simps]: "m s = (Inr a, s') \<Longrightarrow> bindA m k s = k a s'"
  by (simp add: bindA_def)

lemma bindA_Inl [act_simps]: "m s = (Inl e, s') \<Longrightarrow> bindA m k s = (Inl e, s')"
  by (simp add: bindA_def)

text \<open>Inversion of a successful sequence.\<close>

lemma bindA_InrE:
  assumes "bindA m k s = (Inr b, t)"
  obtains a s' where "m s = (Inr a, s')" and "k a s' = (Inr b, t)"
  using assms by (auto simp: bindA_def split: prod.splits sum.splits)

lemma thenA_InrE:
  assumes "thenA m n s = (Inr b, t)"
  obtains a s' where "m s = (Inr a, s')" and "n s' = (Inr b, t)"
  using assms by (auto simp: thenA_def elim: bindA_InrE)

text \<open>Whatever the outcome of a sequence: the first action failed, or the rest ran.\<close>

lemma bindA_cases:
  assumes "\<And>e s'. m s = (Inl e, s') \<Longrightarrow> P (Inl e, s')" and "\<And>a s'. m s = (Inr a, s') \<Longrightarrow> P (k a s')"
  shows "P (bindA m k s)"
  using assms by (auto simp: bindA_def split: prod.splits sum.splits)

text \<open>What holds after each element of a loop that ran through.\<close>

lemma forA_InrI:
  assumes "forA xs f s = (Inr u, s')" and "R [] s"
    and "\<And>ys x s a s'. R ys s \<Longrightarrow> x \<in> set xs \<Longrightarrow> f x s = (Inr a, s') \<Longrightarrow> R (ys @ [x]) s'"
  shows "R xs s'"
proof -
  have "R (ys @ xs) s'" if "forA xs f s = (Inr u, s')" "R ys s"
    "\<And>ys x s a s'. R ys s \<Longrightarrow> x \<in> set xs \<Longrightarrow> f x s = (Inr a, s') \<Longrightarrow> R (ys @ [x]) s'" for ys
    using that
  proof (induction xs arbitrary: s ys)
    case (Cons x xs)
    from Cons.prems(1) obtain a s1 where 1: "f x s = (Inr a, s1)" "forA xs f s1 = (Inr u, s')"
      by (auto elim: thenA_InrE)
    have "R ((ys @ [x]) @ xs) s'"
      by (rule Cons.IH [OF 1(2)]) (use 1 Cons.prems in auto)
    then show ?case by simp
  qed simp
  from this [of "[]"] show ?thesis using assms by simp
qed

lemma foldA_InrI:
  assumes "foldA f xs b s = (Inr c, s')" and "R [] b s"
    and "\<And>ys x b s b' s'. R ys b s \<Longrightarrow> x \<in> set xs \<Longrightarrow> f x b s = (Inr b', s') \<Longrightarrow> R (ys @ [x]) b' s'"
  shows "R xs c s'"
proof -
  have "R (ys @ xs) c s'" if "foldA f xs b s = (Inr c, s')" "R ys b s"
    "\<And>ys x b s b' s'. R ys b s \<Longrightarrow> x \<in> set xs \<Longrightarrow> f x b s = (Inr b', s') \<Longrightarrow> R (ys @ [x]) b' s'" for ys b
    using that
  proof (induction xs arbitrary: s ys b)
    case (Cons x xs)
    from Cons.prems(1) obtain b1 s1 where 1: "f x b s = (Inr b1, s1)" "foldA f xs b1 s1 = (Inr c, s')"
      by (auto elim: bindA_InrE)
    have "R ((ys @ [x]) @ xs) c s'"
      by (rule Cons.IH [OF 1(2)]) (use 1 Cons.prems in auto)
    then show ?case by simp
  qed simp
  from this [of b "[]"] show ?thesis using assms by simp
qed

section \<open>Actions that keep a property of the state\<close>

text \<open>The property holds afterwards whether the action succeeds or fails.\<close>

definition keeps :: "('s \<Rightarrow> bool) \<Rightarrow> ('s, 'a) act \<Rightarrow> bool" where
  "keeps I m \<longleftrightarrow> (\<forall>s. I s \<longrightarrow> I (snd (m s)))"

lemma keepsI: "(\<And>s. I s \<Longrightarrow> I (snd (m s))) \<Longrightarrow> keeps I m"
  by (simp add: keeps_def)

lemma keepsD: "keeps I m \<Longrightarrow> I s \<Longrightarrow> I (snd (m s))"
  by (simp add: keeps_def)

lemma keeps_ret [pres_intros]: "keeps I (ret a)"
  by (simp add: keeps_def)

lemma keeps_fail [pres_intros]: "keeps I (fail e)"
  by (simp add: keeps_def)

lemma keeps_bind [pres_intros]:
  assumes "keeps I m" and "\<And>a. keeps I (k a)"
  shows "keeps I (bindA m k)"
proof (rule keepsI)
  fix s assume "I s"
  then have 1: "I (snd (m s))" using assms(1) by (rule keepsD [rotated])
  show "I (snd (bindA m k s))"
  proof (cases "m s")
    case (Pair r s')
    then show ?thesis using 1 assms(2)
      by (cases r) (auto simp: bindA_def keeps_def)
  qed
qed

lemma keeps_then [pres_intros]: "keeps I m \<Longrightarrow> keeps I n \<Longrightarrow> keeps I (thenA m n)"
  by (simp add: thenA_def keeps_bind)

lemma keeps_attempt [pres_intros]: "keeps I m \<Longrightarrow> keeps I (attempt m)"
  by (simp add: keeps_def attempt_def split: prod.splits)
     (metis snd_conv)

lemma keeps_logged [pres_intros]: "keeps I m \<Longrightarrow> keeps I (logged m)"
  by (simp add: keeps_def logged_def)

lemma keeps_if [pres_intros]: "keeps I m \<Longrightarrow> keeps I n \<Longrightarrow> keeps I (if b then m else n)"
  by simp

lemma keeps_option [pres_intros]:
  "keeps I m \<Longrightarrow> (\<And>x. keeps I (f x)) \<Longrightarrow> keeps I (case v of None \<Rightarrow> m | Some x \<Rightarrow> f x)"
  by (cases v) auto

lemma keeps_sum [pres_intros]:
  "(\<And>e. keeps I (f e)) \<Longrightarrow> (\<And>x. keeps I (g x)) \<Longrightarrow> keeps I (case v of Inl e \<Rightarrow> f e | Inr x \<Rightarrow> g x)"
  by (cases v) auto

lemma keeps_prod [pres_intros]:
  "(\<And>a b. keeps I (f a b)) \<Longrightarrow> keeps I (case v of (a, b) \<Rightarrow> f a b)"
  by (cases v) auto

lemma keeps_let [pres_intros]: "(\<And>x. keeps I (f x)) \<Longrightarrow> keeps I (Let v f)"
  by (simp add: Let_def)

lemma keeps_forA [pres_intros]: "(\<And>x. keeps I (f x)) \<Longrightarrow> keeps I (forA xs f)"
  by (induction xs) (auto intro: pres_intros)

lemma keeps_foldA [pres_intros]: "(\<And>x b. keeps I (f x b)) \<Longrightarrow> keeps I (foldA f xs b)"
  by (induction xs arbitrary: b) (auto intro: pres_intros)

section \<open>Times\<close>

text \<open>
  A time.Time is its number of nanoseconds since 1970. Timestamps are stored as RFC 3339
  text in UTC with whole seconds; such texts have one width and compare as the instants
  do, so a stored timestamp is the number of whole seconds, and formatting is the
  truncation to it.
\<close>

type_synonym time = int
type_synonym stamp = int

definition second :: int where "second = 1000000000"
definition minute :: int where "minute = 60 * second"
definition hour :: int where "hour = 60 * minute"
definition day :: int where "day = 24 * hour"

lemmas time_units = second_def minute_def hour_def day_def

definition rfc3339 :: "time \<Rightarrow> stamp" where
  "rfc3339 t = t div second"

lemma rfc3339_mono: "t \<le> u \<Longrightarrow> rfc3339 t \<le> rfc3339 u"
  by (simp add: rfc3339_def second_def zdiv_mono1)

section \<open>Lists\<close>

lemma filter_map_id: "(\<And>x. x \<in> set xs \<Longrightarrow> P x \<Longrightarrow> f x = x) \<Longrightarrow>
    map (\<lambda>x. if P x then f x else x) xs = xs"
  by (induction xs) auto

lemma map_if_image: "(\<And>x. g (f x) = g x) \<Longrightarrow>
    map g (map (\<lambda>x. if P x then f x else x) xs) = map g xs"
  by (induction xs) auto

lemma filter_map_if:
  "(\<And>x. Q (f x) = Q x) \<Longrightarrow> (\<And>x. Q x \<Longrightarrow> P x \<Longrightarrow> f x = x) \<Longrightarrow>
   filter Q (map (\<lambda>x. if P x then f x else x) xs) = filter Q xs"
  by (induction xs) auto

text \<open>A table of first times: known keys keep theirs, new keys get the given one.\<close>

lemma add_new_key:
  assumes "F = F0 \<union> (\<lambda>k. (k, v)) ` (Y - fst ` F0)"
  shows "(if q \<in> fst ` F then F else insert (q, v) F) = F0 \<union> (\<lambda>k. (k, v)) ` (insert q Y - fst ` F0)"
proof -
  have "fst ` F = fst ` F0 \<union> Y" unfolding assms by (auto simp: image_Un image_image)
  then show ?thesis using assms by (auto simp: insert_Diff_if)
qed

lemma distinct_map_filterI: "distinct (map f xs) \<Longrightarrow> distinct (map f (filter P xs))"
  by (induction xs) auto

lemma distinct_key_eq:
  "distinct (map f xs) \<Longrightarrow> x \<in> set xs \<Longrightarrow> y \<in> set xs \<Longrightarrow> f x = f y \<Longrightarrow> x = y"
  by (metis distinct_map inj_onD)

lemma find_None_iff2: "List.find P xs = None \<longleftrightarrow> (\<forall>x \<in> set xs. \<not> P x)"
  by (induction xs) auto

lemma find_SomeD: "List.find P xs = Some x \<Longrightarrow> x \<in> set xs \<and> P x"
  by (induction xs) (auto split: if_splits)

lemma find_key_Some:
  "distinct (map f xs) \<Longrightarrow> x \<in> set xs \<Longrightarrow> List.find (\<lambda>y. f y = f x) xs = Some x"
  by (induction xs) (auto simp: image_iff)

lemma find_append:
  "List.find P (xs @ ys) = (case List.find P xs of None \<Rightarrow> List.find P ys | Some x \<Rightarrow> Some x)"
  by (induction xs) auto

lemma find_map_same:
  "(\<And>x. P (f x) = P x) \<Longrightarrow> List.find P (map f xs) = map_option f (List.find P xs)"
  by (induction xs) auto

lemma length_filter_key_le1:
  "distinct (map f xs) \<Longrightarrow> length (filter (\<lambda>y. f y = k) xs) \<le> 1"
  by (induction xs) (auto simp: filter_empty_conv image_iff)

text \<open>A loop that overwrites map entries one after the other.\<close>

lemma foldl_upd_notin:
  "k \<notin> set (map f xs) \<Longrightarrow> foldl (\<lambda>m x. m(f x := g x)) m xs k = m k"
  by (induction xs arbitrary: m) auto

end
