(* ===== verification/GoStr.thy ===== *)
theory GoStr
  imports Prelude
begin

text \<open>
  The functions of Go's strings and strconv packages that the program calls, on byte
  strings. Case folding and white space are those of ASCII, the range in which SQLite's
  LOWER and Go's ToLower agree.
\<close>

section \<open>Characters\<close>

definition is_digit :: "char \<Rightarrow> bool" where
  "is_digit c \<longleftrightarrow> CHR ''0'' \<le> c \<and> c \<le> CHR ''9''"

definition is_space :: "char \<Rightarrow> bool" where
  "is_space c \<longleftrightarrow> c = CHR '' '' \<or> (CHR 0x09 \<le> c \<and> c \<le> CHR 0x0D)"

definition lower_char :: "char \<Rightarrow> char" where
  "lower_char c = (if CHR ''A'' \<le> c \<and> c \<le> CHR ''Z'' then char_of (of_char c + (32::nat)) else c)"

definition upper_char :: "char \<Rightarrow> char" where
  "upper_char c = (if CHR ''a'' \<le> c \<and> c \<le> CHR ''z'' then char_of (of_char c - (32::nat)) else c)"

definition to_lower :: "string \<Rightarrow> string" where "to_lower = map lower_char"
definition to_upper :: "string \<Rightarrow> string" where "to_upper = map upper_char"

definition equal_fold :: "string \<Rightarrow> string \<Rightarrow> bool" where
  "equal_fold a b \<longleftrightarrow> to_lower a = to_lower b"

definition digit_val :: "char \<Rightarrow> nat option" where
  "digit_val c = (if is_digit c then Some (of_char c - 48) else None)"

definition hex_val :: "char \<Rightarrow> nat option" where
  "hex_val c =
     (if is_digit c then Some (of_char c - 48)
      else if CHR ''a'' \<le> c \<and> c \<le> CHR ''f'' then Some (of_char c - 87)
      else if CHR ''A'' \<le> c \<and> c \<le> CHR ''F'' then Some (of_char c - 55)
      else None)"

section \<open>Runes\<close>

text \<open>
  \<open>utf8.DecodeRuneInString\<close>: how many bytes the first rune takes; a byte that starts no
  valid encoding is a rune of its own.
\<close>

definition byte_in :: "nat \<Rightarrow> nat \<Rightarrow> nat \<Rightarrow> string \<Rightarrow> bool" where
  "byte_in i lo hi s \<longleftrightarrow> i < length s \<and> lo \<le> of_char (s ! i) \<and> of_char (s ! i) \<le> hi"

definition rune_len :: "string \<Rightarrow> nat" where
  "rune_len s =
     (if byte_in 0 0xC2 0xDF s \<and> byte_in 1 0x80 0xBF s then 2
      else if (byte_in 0 0xE0 0xE0 s \<and> byte_in 1 0xA0 0xBF s \<or> byte_in 0 0xE1 0xEC s \<and> byte_in 1 0x80 0xBF s
               \<or> byte_in 0 0xED 0xED s \<and> byte_in 1 0x80 0x9F s \<or> byte_in 0 0xEE 0xEF s \<and> byte_in 1 0x80 0xBF s)
              \<and> byte_in 2 0x80 0xBF s then 3
      else if (byte_in 0 0xF0 0xF0 s \<and> byte_in 1 0x90 0xBF s \<or> byte_in 0 0xF1 0xF3 s \<and> byte_in 1 0x80 0xBF s
               \<or> byte_in 0 0xF4 0xF4 s \<and> byte_in 1 0x80 0x8F s)
              \<and> byte_in 2 0x80 0xBF s \<and> byte_in 3 0x80 0xBF s then 4
      else 1)"

fun rune_count :: "string \<Rightarrow> nat" where
  "rune_count [] = 0"
| "rune_count (c # s) = 1 + rune_count (drop (rune_len (c # s) - 1) s)"

section \<open>Trimming, cutting and splitting\<close>

definition trim_left :: "(char \<Rightarrow> bool) \<Rightarrow> string \<Rightarrow> string" where
  "trim_left p s = dropWhile p s"

definition trim_right :: "(char \<Rightarrow> bool) \<Rightarrow> string \<Rightarrow> string" where
  "trim_right p s = rev (dropWhile p (rev s))"

definition trim_space :: "string \<Rightarrow> string" where
  "trim_space s = trim_right is_space (trim_left is_space s)"

definition trim_prefix :: "string \<Rightarrow> string \<Rightarrow> string" where
  "trim_prefix p s = (if prefix p s then drop (length p) s else s)"

definition trim_suffix :: "string \<Rightarrow> string \<Rightarrow> string" where
  "trim_suffix p s = (if suffix p s then take (length s - length p) s else s)"

definition cut_prefix :: "string \<Rightarrow> string \<Rightarrow> string option" where
  "cut_prefix p s = (if prefix p s then Some (drop (length p) s) else None)"

text \<open>\<open>strings.Cut\<close> on a one-character separator: before, after, found.\<close>

definition cut :: "char \<Rightarrow> string \<Rightarrow> string \<times> string \<times> bool" where
  "cut c s = (if c \<in> set s
     then (takeWhile (\<lambda>x. x \<noteq> c) s, tl (dropWhile (\<lambda>x. x \<noteq> c) s), True)
     else (s, [], False))"

text \<open>\<open>strings.Split\<close> on a one-character separator.\<close>

fun split_on :: "char \<Rightarrow> string \<Rightarrow> string list" where
  "split_on c [] = [[]]"
| "split_on c (x # xs) =
     (if x = c then [] # split_on c xs
      else (case split_on c xs of [] \<Rightarrow> [[x]] | w # ws \<Rightarrow> (x # w) # ws))"

text \<open>\<open>strings.FieldsFunc\<close> and \<open>strings.Fields\<close>: the maximal runs outside the separators.\<close>

fun fields_aux :: "(char \<Rightarrow> bool) \<Rightarrow> string \<Rightarrow> string \<Rightarrow> string list" where
  "fields_aux p [] w = (if w = [] then [] else [rev w])"
| "fields_aux p (x # xs) w =
     (if p x then (if w = [] then fields_aux p xs [] else rev w # fields_aux p xs [])
      else fields_aux p xs (x # w))"

definition fields_func :: "(char \<Rightarrow> bool) \<Rightarrow> string \<Rightarrow> string list" where
  "fields_func p s = fields_aux p s []"

definition fields :: "string \<Rightarrow> string list" where
  "fields = fields_func is_space"

fun join :: "string \<Rightarrow> string list \<Rightarrow> string" where
  "join sep [] = []"
| "join sep [w] = w"
| "join sep (w # ws) = w @ sep @ join sep ws"

fun contains_str :: "string \<Rightarrow> string \<Rightarrow> bool" where
  "contains_str sub [] \<longleftrightarrow> sub = []"
| "contains_str sub (x # xs) \<longleftrightarrow> prefix sub (x # xs) \<or> contains_str sub xs"

definition replace_char :: "char \<Rightarrow> string \<Rightarrow> string \<Rightarrow> string" where
  "replace_char c r s = concat (map (\<lambda>x. if x = c then r else [x]) s)"

section \<open>Numbers\<close>

function string_of_nat :: "nat \<Rightarrow> string" where
  "string_of_nat n = (if n < 10 then [char_of (48 + n)]
     else string_of_nat (n div 10) @ [char_of (48 + n mod 10)])"
  by pat_completeness auto
termination by (relation "measure id") auto

declare string_of_nat.simps [simp del]

definition string_of_int :: "int \<Rightarrow> string" where
  "string_of_int i = (if i < 0 then ''-'' @ string_of_nat (nat (- i)) else string_of_nat (nat i))"

definition hex_digit :: "nat \<Rightarrow> char" where
  "hex_digit n = (if n < 10 then char_of (48 + n) else char_of (87 + n))"

function hex_of_nat :: "nat \<Rightarrow> string" where
  "hex_of_nat n = (if n < 16 then [hex_digit n] else hex_of_nat (n div 16) @ [hex_digit (n mod 16)])"
  by pat_completeness auto
termination by (relation "measure id") auto

declare hex_of_nat.simps [simp del]

fun parse_base :: "nat \<Rightarrow> (char \<Rightarrow> nat option) \<Rightarrow> nat \<Rightarrow> string \<Rightarrow> nat option" where
  "parse_base b v acc [] = Some acc"
| "parse_base b v acc (c # cs) =
     (case v c of None \<Rightarrow> None | Some d \<Rightarrow> parse_base b v (b * acc + d) cs)"

definition parse_nat :: "string \<Rightarrow> nat option" where
  "parse_nat s = (if s = [] then None else parse_base 10 digit_val 0 s)"

definition parse_hex :: "string \<Rightarrow> nat option" where
  "parse_hex s = (if s = [] then None else parse_base 16 hex_val 0 s)"

text \<open>\<open>strconv.ParseUint(s, 16, bits)\<close>.\<close>

definition parse_uint16 :: "string \<Rightarrow> nat \<Rightarrow> nat option" where
  "parse_uint16 s bits = (case parse_hex s of None \<Rightarrow> None
     | Some n \<Rightarrow> if n < 2 ^ bits then Some n else None)"

text \<open>\<open>strconv.Atoi\<close> and \<open>ParseInt(s, 10, 64)\<close>: an optional sign and digits, within 64 bits.\<close>

definition atoi :: "string \<Rightarrow> int option" where
  "atoi s =
     (let (neg, ds) = (case s of c # cs \<Rightarrow> if c = CHR ''-'' then (True, cs)
                                          else if c = CHR ''+'' then (False, cs) else (False, s)
                               | [] \<Rightarrow> (False, s))
      in case parse_nat ds of None \<Rightarrow> None
         | Some n \<Rightarrow> if neg then (if int n \<le> 2 ^ 63 then Some (- int n) else None)
                     else (if int n < 2 ^ 63 then Some (int n) else None))"

section \<open>Facts\<close>

lemma of_char_le_iff: "(c \<le> d) = ((of_char c :: nat) \<le> of_char d)"
  by (simp add: less_eq_char_def)

lemma digit_val_char_of:
  assumes "d < 10"
  shows "digit_val (char_of (48 + d)) = Some d"
proof -
  have "of_char (char_of (48 + d) :: char) = 48 + d"
    using assms by simp
  then show ?thesis using assms
    by (simp add: digit_val_def is_digit_def of_char_le_iff)
qed

lemma parse_base_append:
  "parse_base b v acc (xs @ ys) =
     (case parse_base b v acc xs of None \<Rightarrow> None | Some a \<Rightarrow> parse_base b v a ys)"
  by (induction xs arbitrary: acc) (auto split: option.splits)

lemma string_of_nat_neq_Nil [simp]: "string_of_nat n \<noteq> []"
  by (subst string_of_nat.simps) simp

lemma parse_base_string_of_nat: "parse_base 10 digit_val 0 (string_of_nat n) = Some n"
proof (induction n rule: string_of_nat.induct)
  case (1 n)
  show ?case
  proof (cases "n < 10")
    case True
    then show ?thesis by (subst string_of_nat.simps) (simp add: digit_val_char_of)
  next
    case False
    then have IH: "parse_base 10 digit_val 0 (string_of_nat (n div 10)) = Some (n div 10)"
      by (rule "1.IH")
    have "string_of_nat n = string_of_nat (n div 10) @ [char_of (48 + n mod 10)]"
      using False by (subst string_of_nat.simps) simp
    then show ?thesis using IH
      by (simp add: parse_base_append digit_val_char_of)
  qed
qed

lemma parse_nat_string_of_nat [simp]: "parse_nat (string_of_nat n) = Some n"
  by (simp add: parse_nat_def parse_base_string_of_nat)

lemma split_on_neq_Nil [simp]: "split_on c s \<noteq> []"
  by (induction c s rule: split_on.induct) (auto split: list.splits)

lemma split_on_no_sep: "c \<notin> set s \<Longrightarrow> split_on c s = [s]"
  by (induction s) auto

lemma split_on_append: "c \<notin> set s \<Longrightarrow> split_on c (s @ c # t) = s # split_on c t"
  by (induction s) auto

lemma split_on_parts: "w \<in> set (split_on c s) \<Longrightarrow> c \<notin> set w"
proof (induction s arbitrary: w)
  case Nil
  then show ?case by simp
next
  case (Cons x xs)
  then show ?case by (cases "split_on c xs") (auto split: if_splits)
qed

lemma digit_chars_range:
  assumes "d < 10"
  shows "of_char (char_of (48 + d) :: char) = (48 + d :: nat)"
  using assms by simp

lemma string_of_nat_chars: "c \<in> set (string_of_nat n) \<Longrightarrow> is_digit c"
proof (induction n arbitrary: c rule: string_of_nat.induct)
  case (1 n)
  have dig: "is_digit (char_of (48 + d))" if "d < 10" for d :: nat
    using that by (simp add: is_digit_def of_char_le_iff digit_chars_range)
  show ?case
  proof (cases "n < 10")
    case True
    then show ?thesis using "1.prems" dig by (subst (asm) string_of_nat.simps) simp
  next
    case False
    then have "c \<in> set (string_of_nat (n div 10)) \<or> c = char_of (48 + n mod 10)"
      using "1.prems" by (subst (asm) string_of_nat.simps) auto
    then show ?thesis using "1.IH" [OF False] dig [of "n mod 10"] by auto
  qed
qed

end
