(* ===== verification/Netip.thy ===== *)
theory Netip
  imports GoStr "HOL-Library.Word"
begin

unbundle bit_operations_syntax

text \<open>
  The part of Go's net/netip the program uses: IPv4 and IPv6 addresses with their
  textual forms, and CIDR prefixes. The zero \<open>netip.Addr\<close>, which is not an address, is
  \<open>None\<close> where the code can meet it.
\<close>

section \<open>Addresses\<close>

type_synonym u32 = "32 word"
type_synonym u128 = "128 word"

datatype addr = V4 u32 | V6 u128 string

fun is4 :: "addr \<Rightarrow> bool" where
  "is4 (V4 _) = True" | "is4 (V6 _ _) = False"

fun bit_len :: "addr \<Rightarrow> nat" where
  "bit_len (V4 _) = 32" | "bit_len (V6 _ _) = 128"

fun addr_num :: "addr \<Rightarrow> nat" where
  "addr_num (V4 a) = unat a" | "addr_num (V6 a _) = unat a"

fun zone :: "addr \<Rightarrow> string" where
  "zone (V4 _) = []" | "zone (V6 _ z) = z"

definition is_4in6 :: "addr \<Rightarrow> bool" where
  "is_4in6 a = (case a of V4 _ \<Rightarrow> False | V6 w _ \<Rightarrow> drop_bit 32 w = 0xFFFF)"

definition unmap :: "addr \<Rightarrow> addr" where
  "unmap a = (case a of V6 w _ \<Rightarrow> if is_4in6 a then V4 (ucast w) else a | _ \<Rightarrow> a)"

fun without_zone :: "addr \<Rightarrow> addr" where
  "without_zone (V4 a) = V4 a" | "without_zone (V6 a _) = V6 a []"

text \<open>\<open>Addr.Next\<close>: \<open>None\<close> is the zero Addr it returns after the last address.\<close>

fun next_addr :: "addr \<Rightarrow> addr option" where
  "next_addr (V4 a) = (if a + 1 = 0 then None else Some (V4 (a + 1)))"
| "next_addr (V6 a z) = (if a + 1 = 0 then None else Some (V6 (a + 1) z))"

text \<open>\<open>Addr.Compare\<close> as a strict order: family, then value, then zone.\<close>

definition addr_less :: "addr \<Rightarrow> addr \<Rightarrow> bool" where
  "addr_less a b \<longleftrightarrow>
     (if bit_len a \<noteq> bit_len b then bit_len a < bit_len b
      else if addr_num a \<noteq> addr_num b then addr_num a < addr_num b
      else zone a < zone b)"

definition addr_le :: "addr \<Rightarrow> addr \<Rightarrow> bool" where
  "addr_le a b \<longleftrightarrow> \<not> addr_less b a"

section \<open>Textual form\<close>

definition octets :: "u32 \<Rightarrow> nat list" where
  "octets a = (let n = unat a in [n div 2 ^ 24 mod 256, n div 2 ^ 16 mod 256, n div 2 ^ 8 mod 256, n mod 256])"

definition of_octets :: "nat list \<Rightarrow> nat" where
  "of_octets os = foldl (\<lambda>acc o'. acc * 256 + o') 0 os"

definition groups :: "u128 \<Rightarrow> nat list" where
  "groups a = (let n = unat a in map (\<lambda>i. n div 2 ^ (16 * (7 - i)) mod 2 ^ 16) [0..<8])"

definition of_groups :: "nat list \<Rightarrow> nat" where
  "of_groups gs = foldl (\<lambda>acc g. acc * 2 ^ 16 + g) 0 gs"

definition v4_string :: "u32 \<Rightarrow> string" where
  "v4_string a = join ''.'' (map string_of_nat (octets a))"

text \<open>The longest run of at least two zero groups, the first of several.\<close>

fun zero_run :: "nat list \<Rightarrow> nat" where
  "zero_run [] = 0"
| "zero_run (g # gs) = (if g = 0 then Suc (zero_run gs) else 0)"

definition best_run :: "nat list \<Rightarrow> (nat \<times> nat) option" where
  "best_run gs = foldl (\<lambda>best i.
      let l = zero_run (drop i gs) in
      if 2 \<le> l \<and> (case best of None \<Rightarrow> True | Some (_, m) \<Rightarrow> m < l) then Some (i, l) else best)
    None [0..<length gs]"

definition v6_string :: "u128 \<Rightarrow> string" where
  "v6_string a = (let gs = groups a in
     case best_run gs of
       None \<Rightarrow> join '':'' (map hex_of_nat gs)
     | Some (i, l) \<Rightarrow> join '':'' (map hex_of_nat (take i gs)) @ ''::'' @
                      join '':'' (map hex_of_nat (drop (i + l) gs)))"

definition zone_suffix :: "string \<Rightarrow> string" where
  "zone_suffix z = (if z = [] then [] else ''%'' @ z)"

definition addr_string :: "addr \<Rightarrow> string" where
  "addr_string a = (case a of
     V4 w \<Rightarrow> v4_string w
   | V6 w z \<Rightarrow> (if is_4in6 a then ''::ffff:'' @ v4_string (ucast w) else v6_string w) @ zone_suffix z)"

section \<open>Parsing\<close>

text \<open>One decimal octet: no sign, no leading zero, at most 255.\<close>

definition parse_octet :: "string \<Rightarrow> nat option" where
  "parse_octet s = (if 1 < length s \<and> hd s = CHR ''0'' then None
     else case parse_nat s of None \<Rightarrow> None | Some n \<Rightarrow> if n \<le> 255 then Some n else None)"

definition parse_v4 :: "string \<Rightarrow> u32 option" where
  "parse_v4 s = (case split_on CHR ''.'' s of
     [a, b, c, d] \<Rightarrow> (case (parse_octet a, parse_octet b, parse_octet c, parse_octet d) of
        (Some w, Some x, Some y, Some z) \<Rightarrow> Some (of_nat (of_octets [w, x, y, z]))
      | _ \<Rightarrow> None)
   | _ \<Rightarrow> None)"

text \<open>
  The loop of \<open>parseIPv6\<close>: the fuel counts the 16-bit groups still to fill, \<open>acc\<close> holds
  the groups read and \<open>ell\<close> how many of them precede the ellipsis.
\<close>

fun parse_groups :: "nat \<Rightarrow> string \<Rightarrow> nat list \<Rightarrow> nat option \<Rightarrow> (nat list \<times> nat option \<times> string) option" where
  "parse_groups 0 s acc ell = Some (acc, ell, s)"
| "parse_groups (Suc k) s acc ell =
     (let h = takeWhile (\<lambda>c. hex_val c \<noteq> None) s; r = drop (length h) s in
      if h = [] \<or> 4 < length h then None
      else if r \<noteq> [] \<and> hd r = CHR ''.'' then
        (if ell = None \<and> length acc \<noteq> 6 then None
         else if 6 < length acc then None
         else case parse_v4 s of None \<Rightarrow> None
              | Some w \<Rightarrow> Some (acc @ [unat w div 2 ^ 16, unat w mod 2 ^ 16], ell, []))
      else (let acc' = acc @ [the (parse_hex h)] in
        case r of
          [] \<Rightarrow> Some (acc', ell, [])
        | c # r' \<Rightarrow>
            if c \<noteq> CHR '':'' \<or> r' = [] then None
            else if hd r' = CHR '':'' then
              (if ell \<noteq> None then None
               else if tl r' = [] then Some (acc', Some (length acc'), [])
               else parse_groups k (tl r') acc' (Some (length acc')))
            else parse_groups k r' acc' ell))"

definition parse_v6_num :: "string \<Rightarrow> u128 option" where
  "parse_v6_num s =
     (if s = ''::'' then Some 0
      else (let (s', e0) = (if prefix ''::'' s then (drop 2 s, Some 0) else (s, None)) in
        case parse_groups 8 s' [] e0 of
          None \<Rightarrow> None
        | Some (gs, ell, rest) \<Rightarrow>
            if rest \<noteq> [] then None
            else if length gs < 8 then
              (case ell of None \<Rightarrow> None
               | Some e \<Rightarrow> Some (of_nat (of_groups (take e gs @ replicate (8 - length gs) 0 @ drop e gs))))
            else if ell \<noteq> None then None
            else Some (of_nat (of_groups gs))))"

definition parse_v6 :: "string \<Rightarrow> addr option" where
  "parse_v6 s = (case cut CHR ''%'' s of (b, z, has) \<Rightarrow>
     if has \<and> z = [] then None
     else map_option (\<lambda>w. V6 w z) (parse_v6_num b))"

text \<open>\<open>ParseAddr\<close> decides the family by the first of \<open>.\<close>, \<open>:\<close> and \<open>%\<close>.\<close>

definition parse_addr :: "string \<Rightarrow> addr option" where
  "parse_addr s = (case List.find (\<lambda>c. c = CHR ''.'' \<or> c = CHR '':'' \<or> c = CHR ''%'') s of
     None \<Rightarrow> None
   | Some c \<Rightarrow> if c = CHR ''.'' then map_option V4 (parse_v4 s)
               else if c = CHR '':'' then parse_v6 s else None)"

section \<open>Prefixes\<close>

record cidr =
  pfx_addr :: addr
  pfx_bits :: nat

definition mk_prefix :: "addr \<Rightarrow> nat \<Rightarrow> cidr" where
  "mk_prefix a b = \<lparr>pfx_addr = without_zone a, pfx_bits = b\<rparr>"

definition host_bits :: "cidr \<Rightarrow> nat" where
  "host_bits p = bit_len (pfx_addr p) - pfx_bits p"

definition valid_prefix :: "cidr \<Rightarrow> bool" where
  "valid_prefix p \<longleftrightarrow> pfx_bits p \<le> bit_len (pfx_addr p) \<and> zone (pfx_addr p) = []"

definition parse_prefix :: "string \<Rightarrow> cidr option" where
  "parse_prefix s =
     (if CHR ''/'' \<notin> set s then None
      else (let b = rev (takeWhile (\<lambda>c. c \<noteq> CHR ''/'') (rev s));
                a = take (length s - length b - 1) s in
        case parse_addr a of None \<Rightarrow> None
        | Some ip \<Rightarrow>
            if zone ip \<noteq> [] then None
            else if 1 < length b \<and> \<not> (CHR ''1'' \<le> hd b \<and> hd b \<le> CHR ''9'') then None
            else (case atoi b of None \<Rightarrow> None
              | Some n \<Rightarrow> if n < 0 \<or> int (bit_len ip) < n then None else Some (mk_prefix ip (nat n)))))"

text \<open>\<open>Prefix.Masked\<close>, \<open>Contains\<close> and \<open>String\<close>.\<close>

definition masked :: "cidr \<Rightarrow> cidr" where
  "masked p = (let h = host_bits p in
     p\<lparr>pfx_addr := (case pfx_addr p of
        V4 a \<Rightarrow> V4 (push_bit h (drop_bit h a))
      | V6 a z \<Rightarrow> V6 (push_bit h (drop_bit h a)) z)\<rparr>)"

definition contains :: "cidr \<Rightarrow> addr \<Rightarrow> bool" where
  "contains p a \<longleftrightarrow> (let h = host_bits p in
     case (pfx_addr p, a) of
       (V4 x, V4 y) \<Rightarrow> drop_bit h (x XOR y) = 0
     | (V6 x _, V6 y z) \<Rightarrow> z = [] \<and> drop_bit h (x XOR y) = 0
     | _ \<Rightarrow> False)"

definition prefix_string :: "cidr \<Rightarrow> string" where
  "prefix_string p = addr_string (pfx_addr p) @ ''/'' @ string_of_nat (pfx_bits p)"

section \<open>Facts about addresses\<close>

lemma addr_num_less: "addr_num a < 2 ^ bit_len a"
  using unsigned_less [of "x :: u32" for x] unsigned_less [of "x :: u128" for x]
  by (cases a) simp_all

lemma xor_eq_0_iff_word: "(x XOR y = 0) = (x = (y :: 'a::len word))"
  by (metis xor.assoc xor.left_neutral xor_self_eq)

lemma drop_bit_eq_iff_div:
  fixes x y :: "'a::len word"
  shows "drop_bit h x = drop_bit h y \<longleftrightarrow> unat x div 2 ^ h = unat y div 2 ^ h"
proof -
  have "unat (drop_bit h z) = unat z div 2 ^ h" for z :: "'a word"
    by (simp only: unat_drop_bit_eq) (simp add: drop_bit_eq_div)
  then show ?thesis by (metis word_unat_eq_iff)
qed

text \<open>Membership in a prefix is agreement of the network part, as numbers.\<close>

lemma contains_iff:
  "contains p a \<longleftrightarrow> is4 (pfx_addr p) = is4 a \<and> zone a = [] \<and>
     addr_num (pfx_addr p) div 2 ^ host_bits p = addr_num a div 2 ^ host_bits p"
  by (cases "pfx_addr p"; cases a)
     (auto simp: contains_def Let_def xor_eq_0_iff_word drop_bit_eq_iff_div)

end
