(* ===== verification/Scan_Sweep.thy ===== *)
theory Scan_Sweep
  imports Netip Complex_Main
begin

text \<open>
  internal/scan/sweep.go, arp.go and ports.go: the addresses of a subnet, one sweep over them
  (the probe of a single address is an argument), the kernel's ARP table, and the port names.
\<close>

section \<open>The addresses of a subnet\<close>

definition MaxSubnetAddresses :: nat where "MaxSubnetAddresses = 65536"

definition CheckSubnetSize :: "string \<Rightarrow> error + unit" where
  "CheckSubnetSize c = (case parse_prefix c of
     None \<Rightarrow> Inl (ErrMsg ''netip.ParsePrefix'')
   | Some p \<Rightarrow> if 16 < bit_len (pfx_addr p) - pfx_bits p
               then Inl (ErrTooLarge c (bit_len (pfx_addr p) - 16)) else Inr ())"

text \<open>
  The loop of AllIPs. It ends: the address grows, and the address after the last one is the zero
  Addr, which no prefix contains.
\<close>

function enum_from :: "cidr \<Rightarrow> addr \<Rightarrow> addr list" where
  "enum_from p a = (if \<not> contains p a then []
     else a # (case next_addr a of None \<Rightarrow> [] | Some b \<Rightarrow> enum_from p b))"
  by pat_completeness auto
termination
proof (relation "measure (\<lambda>(p, a). 2 ^ bit_len a - addr_num a)")
  fix p a b assume "next_addr a = Some b"
  then have "addr_num b = addr_num a + 1 \<and> bit_len b = bit_len a"
    by (cases a) (auto simp: unatSuc add.commute [of _ 1] split: if_splits)
  then show "((p, b), (p, a)) \<in> measure (\<lambda>(p, a). 2 ^ bit_len a - addr_num a)"
    using addr_num_less [of b] by simp
qed simp

declare enum_from.simps [simp del]

definition AllIPs :: "string \<Rightarrow> error + string list" where
  "AllIPs c = (case parse_prefix c of
     None \<Rightarrow> Inl (ErrMsg ''netip.ParsePrefix'')
   | Some p \<Rightarrow> (case CheckSubnetSize c of
       Inl e \<Rightarrow> Inl e
     | Inr _ \<Rightarrow> Inr (map addr_string (enum_from (masked p) (pfx_addr (masked p))))))"

definition HostIPs :: "string \<Rightarrow> error + string list" where
  "HostIPs c = (case AllIPs c of
     Inl e \<Rightarrow> Inl e
   | Inr out \<Rightarrow> (case parse_prefix c of
       None \<Rightarrow> Inr out
     | Some p \<Rightarrow> if is4 (pfx_addr (masked p)) \<and> pfx_bits (masked p) < 31 \<and> 2 \<le> length out
                 then Inr (butlast (tl out)) else Inr out))"

section \<open>A sweep\<close>

record result =
  r_IP :: string
  r_Alive :: bool
  r_RTTms :: rat
  r_Err :: "string option"

text \<open>A probe answers with liveness and round trip, or could not be run.\<close>

type_synonym probe = "string \<Rightarrow> (string + bool \<times> rat)"

definition probe_result :: "probe \<Rightarrow> string \<Rightarrow> result" where
  "probe_result probe ip = (case probe ip of
     Inl e \<Rightarrow> \<lparr>r_IP = ip, r_Alive = False, r_RTTms = 0, r_Err = Some e\<rparr>
   | Inr (alive, rtt) \<Rightarrow> \<lparr>r_IP = ip, r_Alive = alive, r_RTTms = rtt, r_Err = None\<rparr>)"

definition probeFailure :: "result list \<Rightarrow> error option" where
  "probeFailure results =
     (let failed = length (filter (\<lambda>r. r_Err r \<noteq> None) results) in
      if failed * 2 \<le> length results then None
      else Some (ErrMsg (string_of_nat failed @ '' of '' @ string_of_nat (length results) @ '' probes failed: '' @
             hd (List.map_filter r_Err results))))"

text \<open>
  The workers write each result at its address's index, so a sweep that was not cancelled returns
  them in address order whatever the order in which the workers ran.
\<close>

definition write_result :: "probe \<Rightarrow> string list \<Rightarrow> nat \<Rightarrow> result list \<Rightarrow> result list" where
  "write_result probe ips i rs = rs[i := probe_result probe (ips ! i)]"

definition zero_result :: result where
  "zero_result = \<lparr>r_IP = [], r_Alive = False, r_RTTms = 0, r_Err = None\<rparr>"

text \<open>\<open>order\<close> is the order in which the workers finish their jobs.\<close>

definition Sweep :: "probe \<Rightarrow> nat list \<Rightarrow> string \<Rightarrow> error + result list" where
  "Sweep probe order c = (case HostIPs c of
     Inl e \<Rightarrow> Inl e
   | Inr ips \<Rightarrow>
       (let results = fold (write_result probe ips) order (replicate (length ips) zero_result) in
        case probeFailure results of None \<Rightarrow> Inr results | Some e \<Rightarrow> Inl e))"

section \<open>The ARP table\<close>

definition atfCom :: nat where "atfCom = 2"

definition arp_line :: "string \<Rightarrow> (string \<times> string) option" where
  "arp_line l = (let f = GoStr.fields l in
     if length f < 4 then None
     else (let mac = to_lower (f ! 3) in
       case parse_uint16 (trim_prefix ''0x'' (f ! 2)) 32 of
         None \<Rightarrow> None
       | Some fl \<Rightarrow> if fl div atfCom mod 2 = 0 \<or> mac = ''00:00:00:00:00:00'' then None else Some (f ! 0, mac)))"

text \<open>The lines of /proc/net/arp; the first is the header, a later entry of an address wins.\<close>

definition ParseARPTable :: "string list \<Rightarrow> string \<rightharpoonup> string" where
  "ParseARPTable ls = map_of (rev (List.map_filter arp_line (tl ls)))"

section \<open>Ports\<close>

definition CommonPorts :: "int list" where
  "CommonPorts = [21, 22, 23, 25, 53, 80, 110, 143, 443, 445, 554, 587, 631, 993, 995, 1883, 3000, 3306, 3389, 5000,
     5432, 5900, 6443, 8000, 8006, 8080, 8081, 8123, 8443, 9000, 9090, 9100, 32400]"

definition serviceNames :: "(int \<times> string) list" where
  "serviceNames = [(21, ''ftp''), (22, ''ssh''), (23, ''telnet''), (25, ''smtp''), (53, ''dns''), (80, ''http''),
     (110, ''pop3''), (143, ''imap''), (443, ''https''), (445, ''smb''), (554, ''rtsp''), (587, ''smtp-sub''),
     (631, ''ipp''), (993, ''imaps''), (995, ''pop3s''), (1883, ''mqtt''), (3000, ''http-alt''), (3306, ''mysql''),
     (3389, ''rdp''), (5000, ''http-alt''), (5432, ''postgres''), (5900, ''vnc''), (6443, ''kube-api''),
     (8000, ''http-alt''), (8006, ''proxmox''), (8080, ''http-alt''), (8081, ''http-alt''), (8123, ''home-assistant''),
     (8443, ''https-alt''), (9000, ''http-alt''), (9090, ''prometheus''), (9100, ''jetdirect''), (32400, ''plex'')]"

definition ServiceGuess :: "int \<Rightarrow> string" where
  "ServiceGuess port = (case map_of serviceNames port of None \<Rightarrow> [] | Some n \<Rightarrow> n)"

text \<open>\<open>conns\<close> says which connects succeed, \<open>order\<close> in which order the workers append them.\<close>

definition PortScan :: "(int \<Rightarrow> bool) \<Rightarrow> int list \<Rightarrow> int list" where
  "PortScan conns order = sort (filter conns order)"

section \<open>Enumerating a subnet is exact\<close>

text \<open>The \<open>n\<close>-th address of the family of a prefix.\<close>

definition addr_at :: "cidr \<Rightarrow> nat \<Rightarrow> addr" where
  "addr_at p n = (case pfx_addr p of V4 _ \<Rightarrow> V4 (of_nat n) | V6 _ _ \<Rightarrow> V6 (of_nat n) [])"

lemma of_nat_succ_0:
  assumes "n < 2 ^ LENGTH('a::len)"
  shows "(of_nat n + 1 = (0 :: 'a word)) = (n + 1 = 2 ^ LENGTH('a))"
proof -
  have "(of_nat n + 1 = (0 :: 'a word)) = (of_nat (n + 1) = (0 :: 'a word))" by (simp add: add.commute)
  also have "\<dots> = (2 ^ LENGTH('a) dvd n + 1)" by (rule word_of_nat_eq_0_iff)
  also have "\<dots> = (n + 1 = 2 ^ LENGTH('a))" using assms by (auto dest: dvd_imp_le)
  finally show ?thesis .
qed

lemma addr_at_simps:
  assumes "n < 2 ^ bit_len (pfx_addr p)"
  shows "addr_num (addr_at p n) = n" "is4 (addr_at p n) = is4 (pfx_addr p)" "zone (addr_at p n) = []"
    "next_addr (addr_at p n) = (if n + 1 = 2 ^ bit_len (pfx_addr p) then None else Some (addr_at p (n + 1)))"
proof -
  show "addr_num (addr_at p n) = n" "is4 (addr_at p n) = is4 (pfx_addr p)" "zone (addr_at p n) = []"
    using assms by (cases "pfx_addr p"; simp add: addr_at_def unat_of_nat)+
  show "next_addr (addr_at p n) = (if n + 1 = 2 ^ bit_len (pfx_addr p) then None else Some (addr_at p (n + 1)))"
  proof (cases "pfx_addr p")
    case (V4 x)
    then have "(of_nat n + 1 = (0 :: u32)) = (n + 1 = 2 ^ 32)" using assms of_nat_succ_0 [where 'a = 32, of n] by simp
    moreover have "of_nat n + 1 = (of_nat (n + 1) :: u32)" by (simp add: add.commute)
    ultimately show ?thesis unfolding addr_at_def V4 addr.case next_addr.simps bit_len.simps by (simp add: add.commute [of _ 1])
  next
    case (V6 x z)
    then have "(of_nat n + 1 = (0 :: u128)) = (n + 1 = 2 ^ 128)" using assms of_nat_succ_0 [where 'a = 128, of n] by simp
    moreover have "of_nat n + 1 = (of_nat (n + 1) :: u128)" by (simp add: add.commute)
    ultimately show ?thesis unfolding addr_at_def V6 addr.case next_addr.simps bit_len.simps by (simp add: add.commute [of _ 1])
  qed
qed

lemma addr_eqI: "addr_num a = addr_num b \<Longrightarrow> is4 a = is4 b \<Longrightarrow> zone a = zone b \<Longrightarrow> a = b"
  by (cases a; cases b) (simp_all add: word_unat_eq_iff)

text \<open>The numbers of the addresses of a prefix: one block of \<open>2 ^ host_bits\<close>.\<close>

definition block :: "cidr \<Rightarrow> nat" where
  "block p = addr_num (pfx_addr p) div 2 ^ host_bits p"

lemma host_bits_le: "host_bits p \<le> bit_len (pfx_addr p)"
  by (simp add: host_bits_def)

lemma block_end: "(block p + 1) * 2 ^ host_bits p \<le> 2 ^ bit_len (pfx_addr p)"
proof -
  obtain k where k: "bit_len (pfx_addr p) = host_bits p + k" using host_bits_le le_Suc_ex by blast
  have "addr_num (pfx_addr p) < 2 ^ k * 2 ^ host_bits p" using addr_num_less [of "pfx_addr p"] by (simp add: k power_add mult.commute)
  then have "block p < 2 ^ k" by (simp add: block_def less_mult_imp_div_less)
  then have "(block p + 1) * 2 ^ host_bits p \<le> 2 ^ k * 2 ^ host_bits p" by (intro mult_le_mono1) simp
  then show ?thesis by (simp only: k power_add mult.commute)
qed

lemma in_block: "n div 2 ^ h = b \<longleftrightarrow> b * 2 ^ h \<le> n \<and> n < (b + 1) * (2 ^ h :: nat)"
  by (metis Suc_eq_plus1 add.commute div_nat_eqI div_times_less_eq_dividend dividend_less_div_times mult.commute mult_Suc
      zero_less_numeral zero_less_power)

lemma enum_from_block:
  assumes "block p * 2 ^ host_bits p \<le> n" and "n \<le> (block p + 1) * 2 ^ host_bits p" and "n < 2 ^ bit_len (pfx_addr p)"
  shows "enum_from p (addr_at p n) = map (addr_at p) [n..<(block p + 1) * 2 ^ host_bits p]"
  using assms
proof (induction "(block p + 1) * 2 ^ host_bits p - n" arbitrary: n)
  case 0
  then have "\<not> contains p (addr_at p n)"
    using in_block [of n "host_bits p" "block p"] by (simp add: contains_iff addr_at_simps flip: block_def)
  then show ?case using 0 by (simp add: enum_from.simps)
next
  case (Suc k)
  then have lt: "n < (block p + 1) * 2 ^ host_bits p" by simp
  then have c: "contains p (addr_at p n)"
    using in_block [of n "host_bits p" "block p"] Suc.prems by (simp add: contains_iff addr_at_simps flip: block_def)
  have upt: "[n..<(block p + 1) * 2 ^ host_bits p] = n # [n + 1..<(block p + 1) * 2 ^ host_bits p]"
    using lt upt_conv_Cons by simp
  show ?case
  proof (cases "n + 1 = 2 ^ bit_len (pfx_addr p)")
    case True
    then have "[n + 1..<(block p + 1) * 2 ^ host_bits p] = []" using block_end [of p] by simp
    moreover have "next_addr (addr_at p n) = None" using Suc.prems(3) True by (simp add: addr_at_simps)
    ultimately show ?thesis unfolding upt using c by (subst enum_from.simps) simp
  next
    case False
    have "next_addr (addr_at p n) = Some (addr_at p (n + 1))" using Suc.prems(3) False by (simp add: addr_at_simps)
    moreover have "enum_from p (addr_at p (n + 1)) = map (addr_at p) [n + 1..<(block p + 1) * 2 ^ host_bits p]"
      using Suc.hyps(2) Suc.prems False lt by (intro Suc.hyps(1)) auto
    ultimately show ?thesis unfolding upt using c by (subst enum_from.simps) simp
  qed
qed

lemma masked_simps:
  "pfx_bits (masked p) = pfx_bits p" "host_bits (masked p) = host_bits p" "is4 (pfx_addr (masked p)) = is4 (pfx_addr p)"
  "bit_len (pfx_addr (masked p)) = bit_len (pfx_addr p)"
  by (auto simp: masked_def host_bits_def Let_def split: addr.splits)

lemma shift_down: "unat (push_bit h (drop_bit h (x :: 'a::len word))) = unat x div 2 ^ h * 2 ^ h"
proof -
  have "unat (push_bit h (drop_bit h x)) = (unat x div 2 ^ h * 2 ^ h) mod 2 ^ LENGTH('a)"
    by (simp only: unsigned_push_bit_eq unat_drop_bit_eq)
       (simp add: take_bit_eq_mod push_bit_eq_mult drop_bit_eq_div)
  moreover have "unat x div 2 ^ h * 2 ^ h < 2 ^ LENGTH('a)"
    by (meson div_times_less_eq_dividend le_less_trans unsigned_less)
  ultimately show ?thesis by simp
qed

lemma masked_start:
  assumes "zone (pfx_addr p) = []"
  shows "pfx_addr (masked p) = addr_at (masked p) (block p * 2 ^ host_bits p)"
proof (rule addr_eqI)
  have n: "addr_num (pfx_addr (masked p)) = block p * 2 ^ host_bits p"
    by (cases "pfx_addr p") (simp_all add: masked_def block_def Let_def shift_down)
  moreover have "block p * 2 ^ host_bits p < 2 ^ bit_len (pfx_addr (masked p))"
    using addr_num_less [of "pfx_addr (masked p)"] n by simp
  ultimately show "addr_num (pfx_addr (masked p)) = addr_num (addr_at (masked p) (block p * 2 ^ host_bits p))"
    "is4 (pfx_addr (masked p)) = is4 (addr_at (masked p) (block p * 2 ^ host_bits p))"
    "zone (pfx_addr (masked p)) = zone (addr_at (masked p) (block p * 2 ^ host_bits p))"
    using assms by (simp_all add: addr_at_simps) (cases "pfx_addr p"; simp add: masked_def Let_def)
qed

text \<open>The whole loop: the addresses of the block in order.\<close>

lemma enum_masked:
  assumes "zone (pfx_addr p) = []"
  shows "enum_from (masked p) (pfx_addr (masked p)) =
    map (addr_at p) [block p * 2 ^ host_bits p..<(block p + 1) * 2 ^ host_bits p]"
proof -
  have b: "block (masked p) = block p"
    by (cases "pfx_addr p") (simp_all add: block_def masked_simps, simp_all add: masked_def Let_def shift_down)
  have f: "addr_at (masked p) = addr_at p"
    by (cases "pfx_addr p") (simp_all add: fun_eq_iff addr_at_def masked_def Let_def)
  have "block p * 2 ^ host_bits p < (block p + 1) * 2 ^ host_bits p" by simp
  also note block_end
  finally have "enum_from (masked p) (addr_at (masked p) (block p * 2 ^ host_bits p)) =
      map (addr_at (masked p)) [block p * 2 ^ host_bits p..<(block (masked p) + 1) * 2 ^ host_bits (masked p)]"
    by (intro enum_from_block) (simp_all add: masked_simps b)
  then show ?thesis using masked_start [OF assms] by (simp add: masked_simps b f)
qed

lemma without_zone_simps [simp]: "zone (without_zone a) = []" "bit_len (without_zone a) = bit_len a"
  by (cases a; simp)+

lemma parse_prefix_zone: "parse_prefix c = Some p \<Longrightarrow> zone (pfx_addr p) = [] \<and> pfx_bits p \<le> bit_len (pfx_addr p)"
  by (auto simp: parse_prefix_def mk_prefix_def Let_def split: if_splits option.splits)

lemma block_addresses:
  assumes "zone (pfx_addr p) = []"
  shows "set (map (addr_at p) [block p * 2 ^ host_bits p..<(block p + 1) * 2 ^ host_bits p]) = {a. contains p a}"
proof (rule set_eqI)
  fix a
  let ?I = "{block p * 2 ^ host_bits p..<(block p + 1) * 2 ^ host_bits p}"
  have "a \<in> addr_at p ` ?I \<longleftrightarrow> contains p a"
  proof
    assume "a \<in> addr_at p ` ?I"
    then obtain n where n: "a = addr_at p n" "n \<in> ?I" by auto
    then have "n < 2 ^ bit_len (pfx_addr p)" using block_end [of p] by simp
    then show "contains p a" using n in_block [of n "host_bits p" "block p"]
      by (simp add: contains_iff addr_at_simps flip: block_def)
  next
    assume c: "contains p a"
    then have "addr_num a div 2 ^ host_bits p = block p" "zone a = []" "is4 (pfx_addr p) = is4 a"
      by (auto simp: contains_iff block_def)
    moreover from this have "a = addr_at p (addr_num a)"
      using addr_num_less [of a] by (intro addr_eqI) (cases a; cases "pfx_addr p"; simp add: addr_at_simps)+
    ultimately show "a \<in> addr_at p ` ?I" using in_block [of "addr_num a" "host_bits p" "block p"] by auto
  qed
  then show "a \<in> set (map (addr_at p) [block p * 2 ^ host_bits p..<(block p + 1) * 2 ^ host_bits p]) \<longleftrightarrow> a \<in> {a. contains p a}"
    by simp
qed

text \<open>AllIPs in terms of the numbers of the addresses.\<close>

definition block_nums :: "cidr \<Rightarrow> nat list" where
  "block_nums p = [block p * 2 ^ host_bits p..<(block p + 1) * 2 ^ host_bits p]"

lemma AllIPs_eq:
  "AllIPs c = (case parse_prefix c of
     None \<Rightarrow> Inl (ErrMsg ''netip.ParsePrefix'')
   | Some p \<Rightarrow> if 16 < host_bits p then Inl (ErrTooLarge c (bit_len (pfx_addr p) - 16))
              else Inr (map addr_string (map (addr_at p) (block_nums p))))"
  using enum_masked parse_prefix_zone
  by (auto simp: AllIPs_def CheckSubnetSize_def host_bits_def block_nums_def split: option.splits)

lemma block_nums_num: "n \<in> set (block_nums p) \<Longrightarrow> n < 2 ^ bit_len (pfx_addr p)"
  using block_end [of p] by (simp add: block_nums_def)

lemma addr_num_block: "map addr_num (map (addr_at p) (block_nums p)) = block_nums p"
  by (auto intro!: map_idI simp: addr_at_simps block_nums_num)

lemma block_nums_set: "parse_prefix c = Some p \<Longrightarrow> set (map (addr_at p) (block_nums p)) = {a. contains p a}"
  using block_addresses parse_prefix_zone by (simp only: block_nums_def)

lemma block_nums_length: "length (block_nums p) = 2 ^ host_bits p"
  by (simp add: block_nums_def)

text \<open>
  C8: AllIPs lists a subnet exactly: whatever prefix is given, it refuses it unread or as larger
  than the limit, or it terminates with the texts of precisely the addresses the prefix contains,
  each once, in ascending order, \<open>2 ^ host_bits\<close> of them and at most 65536.
\<close>

theorem AllIPs_exact:
  "case AllIPs c of
     Inl e \<Rightarrow> (case parse_prefix c of None \<Rightarrow> True | Some p \<Rightarrow> 16 < host_bits p)
   | Inr ips \<Rightarrow> \<exists>p as. parse_prefix c = Some p \<and> ips = map addr_string as \<and> set as = {a. contains p a} \<and>
       sorted_wrt (<) (map addr_num as) \<and> length as = 2 ^ host_bits p \<and> length as \<le> MaxSubnetAddresses"
proof (cases "parse_prefix c")
  case (Some p)
  show ?thesis
  proof (cases "16 < host_bits p")
    case False
    then have "(2::nat) ^ host_bits p \<le> 2 ^ 16" by (intro power_increasing) simp_all
    then have "length (map (addr_at p) (block_nums p)) \<le> MaxSubnetAddresses"
      by (simp add: MaxSubnetAddresses_def block_nums_length)
    moreover have "sorted_wrt (<) (map addr_num (map (addr_at p) (block_nums p)))"
      unfolding addr_num_block by (simp add: block_nums_def)
    ultimately have "\<exists>q as. parse_prefix c = Some q \<and>
        map addr_string (map (addr_at p) (block_nums p)) = map addr_string as \<and> set as = {a. contains q a} \<and>
        sorted_wrt (<) (map addr_num as) \<and> length as = 2 ^ host_bits q \<and> length as \<le> MaxSubnetAddresses"
      using Some block_nums_set [OF Some] block_nums_length [of p]
      by (intro exI [of _ p] exI [of _ "map (addr_at p) (block_nums p)"]) (simp only: length_map simp_thms)
    then show ?thesis using Some False by (simp only: AllIPs_eq option.case if_False sum.case)
  qed (use Some in \<open>simp add: AllIPs_eq\<close>)
qed (simp add: AllIPs_eq)

text \<open>
  The scan probes every host of a subnet and no other address: of an IPv4 subnet shorter than
  /31 all addresses but the first and the last, of any other subnet all of them.
\<close>

theorem HostIPs_exact:
  "case HostIPs c of
     Inl e \<Rightarrow> (case parse_prefix c of None \<Rightarrow> True | Some p \<Rightarrow> 16 < host_bits p)
   | Inr ips \<Rightarrow> \<exists>p as. parse_prefix c = Some p \<and> ips = map addr_string as \<and> distinct as \<and>
       set as = {a. contains p a} - (if is4 (pfx_addr p) \<and> pfx_bits p < 31
         then {addr_at p (hd (block_nums p)), addr_at p (last (block_nums p))} else {})"
proof (cases "parse_prefix c")
  case (Some p)
  let ?as = "map (addr_at p) (block_nums p)"
  have inj: "distinct ?as"
    using addr_num_block [of p] by (metis block_nums_def distinct_map distinct_upt)
  show ?thesis
  proof (cases "16 < host_bits p")
    case False
    define as where "as = (if is4 (pfx_addr p) \<and> pfx_bits p < 31 then butlast (tl ?as) else ?as)"
    have len: "2 \<le> length (block_nums p)" if "is4 (pfx_addr p) \<and> pfx_bits p < 31"
    proof -
      have "(2::nat) ^ 1 \<le> 2 ^ host_bits p" using that
        by (intro power_increasing) (cases "pfx_addr p"; simp add: host_bits_def)+
      then show ?thesis by (simp add: block_nums_length)
    qed
    have host: "HostIPs c = Inr (map addr_string as)"
      using Some False len by (auto simp: HostIPs_def AllIPs_eq as_def masked_simps map_butlast map_tl)
    have trim: "set (butlast (tl xs)) = set xs - {hd xs, last xs} \<and> distinct (butlast (tl xs))"
      if d: "distinct xs" and l: "2 \<le> length xs" for xs :: "addr list"
    proof -
      obtain y ys where xs: "xs = y # ys" "ys \<noteq> []" using l by (cases xs; cases "tl xs") auto
      then obtain zs z where "ys = zs @ [z]" by (cases ys rule: rev_cases) auto
      then show ?thesis using d xs by auto
    qed
    have "set as = {a. contains p a} - (if is4 (pfx_addr p) \<and> pfx_bits p < 31
         then {addr_at p (hd (block_nums p)), addr_at p (last (block_nums p))} else {}) \<and> distinct as"
    proof (cases "is4 (pfx_addr p) \<and> pfx_bits p < 31")
      case True
      then have "block_nums p \<noteq> []" using len by auto
      then show ?thesis using trim [OF inj] len True block_nums_set [OF Some]
        by (simp add: as_def hd_map last_map)
    next
      case no: False
      then show ?thesis using block_nums_set [OF Some] inj unfolding as_def if_not_P [OF no] by simp
    qed
    then show ?thesis unfolding host sum.case using Some by blast
  qed (use Some in \<open>simp add: HostIPs_def AllIPs_eq\<close>)
qed (simp add: HostIPs_def AllIPs_eq)

section \<open>The order of the workers does not matter\<close>

lemma fold_write_result:
  "set order \<subseteq> {..<length ips} \<Longrightarrow> length rs = length ips \<Longrightarrow>
   fold (write_result probe ips) order rs = map (\<lambda>i. if i \<in> set order then probe_result probe (ips ! i) else rs ! i) [0..<length ips]"
proof (induction order arbitrary: rs)
  case Nil
  then show ?case by (simp only: fold.simps id_apply list.set empty_iff if_False) (metis map_nth)
next
  case (Cons i order)
  then show ?case by (auto simp: write_result_def nth_list_update)
qed

text \<open>
  C9: The concurrent sweep is the probe of each host: in whatever order the workers take and
  finish their jobs, a sweep whose jobs all ran returns one result per host in address order, or
  the failure that most probes could not be run.
\<close>

theorem Sweep_deterministic:
  assumes "HostIPs c = Inr ips" and "set order = {..<length ips}"
  shows "Sweep probe order c = (let rs = map (probe_result probe) ips in
    if 2 * length (filter (\<lambda>r. r_Err r \<noteq> None) rs) \<le> length ips then Inr rs
    else Inl (the (probeFailure rs)))"
proof -
  have "fold (write_result probe ips) order (replicate (length ips) zero_result) =
      map (\<lambda>i. probe_result probe (ips ! i)) [0..<length ips]"
    using fold_write_result [of order ips "replicate (length ips) zero_result" probe] assms(2) by simp
  also have "\<dots> = map (probe_result probe) ips" by (rule nth_equalityI) simp_all
  finally have rs: "fold (write_result probe ips) order (replicate (length ips) zero_result) = map (probe_result probe) ips" .
  show ?thesis unfolding Sweep_def assms(1) sum.case rs Let_def
    by (simp add: probeFailure_def Let_def mult.commute)
qed

lemma Sweep_deterministic_witness:
  "Sweep (\<lambda>ip. Inr (ip = ''10.0.0.2'', 3)) [1, 0] ''10.0.0.0/30'' =
   Inr [\<lparr>r_IP = ''10.0.0.1'', r_Alive = False, r_RTTms = 3, r_Err = None\<rparr>,
        \<lparr>r_IP = ''10.0.0.2'', r_Alive = True, r_RTTms = 3, r_Err = None\<rparr>]"
proof -
  have p: "parse_prefix ''10.0.0.0/30'' = Some \<lparr>pfx_addr = V4 167772160, pfx_bits = 30\<rparr>"
    by (simp add: parse_prefix_def parse_addr_def parse_v4_def parse_octet_def parse_nat_def digit_val_def is_digit_def
        less_eq_char_def less_char_def of_octets_def atoi_def mk_prefix_def)
  have n: "block_nums \<lparr>pfx_addr = V4 167772160, pfx_bits = 30\<rparr> = [167772160, 167772161, 167772162, 167772163]"
    by (simp add: block_nums_def block_def host_bits_def upt_rec)
  have t: "addr_string (V4 167772161) = ''10.0.0.1''" "addr_string (V4 167772162) = ''10.0.0.2''"
    by (simp_all add: addr_string_def v4_string_def octets_def string_of_nat.simps) code_simp+
  have ips: "HostIPs ''10.0.0.0/30'' = Inr [''10.0.0.1'', ''10.0.0.2'']"
    by (simp add: HostIPs_def AllIPs_eq p n addr_at_def t host_bits_def masked_simps)
  have "set [1, 0::nat] = {..<length [''10.0.0.1'', ''10.0.0.2'']}" by auto
  from Sweep_deterministic [OF ips this, of "\<lambda>ip. Inr (ip = ''10.0.0.2'', 3)"] show ?thesis
    by (simp add: probe_result_def)
qed

end
