(* ===== verification/Store_DB.thy ===== *)
theory Store_DB
  imports GoStr Complex_Main
begin

text \<open>
  The database under internal/store: one record per table row, the tables, and the
  statements the store's methods are made of. A table is the list of its rows in rowid
  order, the order in which a SELECT without ORDER BY visits them. The constraints are
  those of the migrations: a statement that would break one fails and changes nothing.
  Each statement may also fail for reasons of its own (\<open>ErrFault\<close>): \<open>faults\<close> says for each
  statement to come whether it does, and after its end no statement fails.
\<close>

section \<open>Rows\<close>

record device =
  dev_ID :: int
  dev_Name :: string
  dev_Kind :: string
  dev_Notes :: string
  dev_Vendor :: string
  dev_Source :: string
  dev_ParentDeviceID :: "int option"
  dev_ProxmoxVMID :: "int option"
  dev_WGPubKey :: "string option"
  dev_Icon :: string
  dev_Reviewed :: bool
  dev_Model :: string
  dev_Function :: string
  dev_UpstreamMissingSince :: "stamp option"

text \<open>The device table has one column the Device struct does not carry.\<close>

record device_row = device +
  dev_AlertOffline :: bool

record iface =
  if_ID :: int
  if_DeviceID :: int
  if_MAC :: "string option"
  if_Hostname :: "string option"

record ip_row =
  ip_ID :: int
  ip_IfaceID :: int
  ip_SubnetID :: int
  ip_IP :: string
  ip_Kind :: string
  ip_Source :: string

record status_row =
  st_IfaceID :: int
  st_Online :: bool
  st_FirstSeen :: "stamp option"
  st_LastSeen :: "stamp option"
  st_LastRTT :: "rat option"
  st_Missed :: int

record avail_row =
  av_IfaceID :: int
  av_Bucket :: stamp
  av_Up :: int
  av_Total :: int

record open_port =
  op_IfaceID :: int
  op_Port :: int
  op_Proto :: string
  op_ServiceGuess :: string
  op_FirstSeen :: stamp
  op_LastSeen :: stamp

record subnet =
  sn_ID :: int
  sn_CIDR :: string
  sn_Name :: string
  sn_VLANID :: "int option"
  sn_Kind :: string
  sn_ScanEnabled :: bool
  sn_ScanIntervalSec :: int
  sn_DHCPStart :: string
  sn_DHCPEnd :: string
  sn_DHCPPoolSource :: string

record tag =
  tag_ID :: int
  tag_Name :: string
  tag_Color :: string

record custom_field =
  cf_DeviceID :: int
  cf_Key :: string
  cf_Value :: string

record link =
  ln_ID :: int
  ln_DeviceID :: int
  ln_Label :: string
  ln_URL :: string

record event =
  ev_ID :: int
  ev_TS :: stamp
  ev_Type :: string
  ev_DeviceID :: "int option"
  ev_Details :: string

record user =
  us_ID :: int
  us_Username :: string
  us_PasswordHash :: string
  us_Role :: string
  us_OIDC :: "(string \<times> string) option"

record session =
  se_TokenHash :: string
  se_UserID :: int
  se_ExpiresAt :: stamp
  se_CreatedAt :: "stamp option"
  se_IP :: "string option"
  se_UserAgent :: "string option"

record integration_status =
  is_Name :: string
  is_LastRun :: stamp
  is_OK :: bool
  is_Detail :: string
  is_ItemCount :: int

record api_token =
  at_ID :: int
  at_UserID :: int
  at_Name :: string
  at_TokenHash :: string
  at_CreatedAt :: stamp
  at_LastUsedAt :: "stamp option"
  at_ExpiresAt :: "stamp option"
  at_Scope :: string

record audit_entry =
  au_ID :: int
  au_At :: stamp
  au_UserID :: "int option"
  au_Username :: string
  au_Action :: string
  au_Target :: string
  au_Detail :: string
  au_IP :: string
  au_Status :: int

record hint =
  hi_DeviceID :: int
  hi_Source :: string
  hi_Field :: string
  hi_Value :: string
  hi_Confidence :: int
  hi_Detail :: string
  hi_SeenAt :: stamp

record autofill_record =
  af_DeviceID :: int
  af_Field :: string
  af_Value :: string
  af_Source :: string
  af_State :: string
  af_UpdatedAt :: stamp

section \<open>Tables and the database\<close>

record tables =
  t_device :: "device_row list"
  t_iface :: "iface list"
  t_ip :: "ip_row list"
  t_status :: "status_row list"
  t_avail :: "avail_row list"
  t_port :: "open_port list"
  t_subnet :: "subnet list"
  t_tag :: "tag list"
  t_device_tag :: "(int \<times> int) list"
  t_field :: "custom_field list"
  t_link :: "link list"
  t_event :: "event list"
  t_user :: "user list"
  t_session :: "session list"
  t_setting :: "(string \<times> string) list"
  t_istatus :: "integration_status list"
  t_token :: "api_token list"
  t_audit :: "audit_entry list"
  t_hint :: "hint list"
  t_autofill :: "autofill_record list"

record db =
  tabs :: tables
  faults :: "bool list"

definition no_tables :: tables where
  "no_tables = \<lparr>t_device = [], t_iface = [], t_ip = [], t_status = [], t_avail = [], t_port = [],
     t_subnet = [], t_tag = [], t_device_tag = [], t_field = [], t_link = [], t_event = [],
     t_user = [], t_session = [], t_setting = [], t_istatus = [], t_token = [], t_audit = [],
     t_hint = [], t_autofill = []\<rparr>"

section \<open>Statements\<close>

text \<open>
  One SQL statement: it may fault, break a constraint, or answer and change the tables.
  The actions work on any extension of the database state, so the components that keep
  state of their own run the store's methods as they are.
\<close>

definition stmt :: "(tables \<Rightarrow> error + ('a \<times> tables)) \<Rightarrow> ('s db_scheme, 'a) act" where
  "stmt f s =
     (let s' = s\<lparr>faults := tl (faults s)\<rparr> in
      if faults s \<noteq> [] \<and> hd (faults s) then (Inl ErrFault, s')
      else (case f (tabs s) of Inl e \<Rightarrow> (Inl e, s') | Inr (a, t) \<Rightarrow> (Inr a, s'\<lparr>tabs := t\<rparr>)))"

definition query :: "(tables \<Rightarrow> 'a) \<Rightarrow> ('s db_scheme, 'a) act" where
  "query f = stmt (\<lambda>t. Inr (f t, t))"

text \<open>A single-row query: no row is \<open>sql.ErrNoRows\<close>.\<close>

definition query_row :: "(tables \<Rightarrow> 'a option) \<Rightarrow> ('s db_scheme, 'a) act" where
  "query_row f = stmt (\<lambda>t. case f t of None \<Rightarrow> Inl ErrNoRows | Some a \<Rightarrow> Inr (a, t))"

text \<open>A statement that cannot break a constraint, with its number of affected rows.\<close>

definition exec :: "(tables \<Rightarrow> nat \<times> tables) \<Rightarrow> ('s db_scheme, nat) act" where
  "exec f = stmt (\<lambda>t. Inr (f t))"

text \<open>
  \<open>withTx\<close>: BEGIN and COMMIT are statements too; any error inside, and a failed COMMIT,
  put the tables back.
\<close>

definition rollback :: "'s db_scheme \<Rightarrow> (error + 'a) \<times> 's db_scheme \<Rightarrow> (error + 'a) \<times> 's db_scheme" where
  "rollback s r = (fst r, snd r\<lparr>tabs := tabs s\<rparr>)"

definition withTx :: "('s db_scheme, 'a) act \<Rightarrow> ('s db_scheme, 'a) act" where
  "withTx fn s =
     (case query (\<lambda>_. ()) s of
        (Inl e, s1) \<Rightarrow> (Inl e, s1)
      | (Inr _, s1) \<Rightarrow>
          (case fn s1 of
             (Inl e, s2) \<Rightarrow> rollback s (Inl e, s2)
           | (Inr a, s2) \<Rightarrow>
               (case query (\<lambda>_. ()) s2 of
                  (Inl e, s3) \<Rightarrow> rollback s (Inl e, s3)
                | (Inr _, s3) \<Rightarrow> (Inr a, s3))))"

section \<open>Rows of one table\<close>

text \<open>UPDATE and DELETE with a condition; the next INTEGER PRIMARY KEY.\<close>

definition upd_where :: "('r \<Rightarrow> bool) \<Rightarrow> ('r \<Rightarrow> 'r) \<Rightarrow> 'r list \<Rightarrow> 'r list" where
  "upd_where P f rows = map (\<lambda>r. if P r then f r else r) rows"

definition del_where :: "('r \<Rightarrow> bool) \<Rightarrow> 'r list \<Rightarrow> 'r list" where
  "del_where P rows = filter (\<lambda>r. \<not> P r) rows"

definition count_where :: "('r \<Rightarrow> bool) \<Rightarrow> 'r list \<Rightarrow> nat" where
  "count_where P rows = length (filter P rows)"

definition next_id :: "int list \<Rightarrow> int" where
  "next_id ids = foldr max ids 0 + 1"

text \<open>ORDER BY key, stable over the rowid order.\<close>

definition order_by :: "('r \<Rightarrow> 'k::linorder) \<Rightarrow> 'r list \<Rightarrow> 'r list" where
  "order_by k rows = sort_key k rows"

section \<open>Laws of statements and transactions\<close>

lemma stmt_InrD:
  assumes "stmt f s = (Inr a, s')"
  shows "\<exists>t. f (tabs s) = Inr (a, t) \<and> s' = s\<lparr>faults := tl (faults s), tabs := t\<rparr>"
  using assms by (auto simp: stmt_def Let_def split: if_splits sum.splits)

lemma keeps_stmt:
  assumes "\<And>t a t'. J t \<Longrightarrow> f t = Inr (a, t') \<Longrightarrow> J t'"
  shows "keeps (\<lambda>s. J (tabs s)) (stmt f)"
  using assms by (auto simp: keeps_def stmt_def Let_def split: sum.splits)

lemma keeps_query [pres_intros]: "keeps (\<lambda>s. J (tabs s)) (query f)"
  unfolding query_def by (rule keeps_stmt) simp

lemma keeps_query_row [pres_intros]: "keeps (\<lambda>s. J (tabs s)) (query_row f)"
  unfolding query_row_def by (rule keeps_stmt) (simp split: option.splits)

lemma keeps_exec:
  assumes "\<And>t. J t \<Longrightarrow> J (snd (f t))"
  shows "keeps (\<lambda>s. J (tabs s)) (exec f)"
  unfolding exec_def
proof (rule keeps_stmt)
  fix t a t' assume "J t" and "Inr (f t) = (Inr (a, t') :: error + nat \<times> tables)"
  then show "J t'" using assms [of t] by (cases "f t") simp
qed

lemma query_tabs [simp]: "tabs (snd (query f s)) = tabs s"
  by (simp add: query_def stmt_def Let_def)

lemma query_row_tabs [simp]: "tabs (snd (query_row f s)) = tabs s"
  by (simp add: query_row_def stmt_def Let_def split: option.splits)

text \<open>A transaction that does not succeed leaves the tables as they were, whatever faults.\<close>

theorem withTx_atomic:
  assumes "fst (withTx fn s) = Inl e"
  shows "tabs (snd (withTx fn s)) = tabs s"
proof (cases "query (\<lambda>_. ()) s")
  case (Pair r s1)
  have s1: "tabs s1 = tabs s" using query_tabs [of "\<lambda>_. ()" s] Pair by simp
  show ?thesis
  proof (cases r)
    case (Inl e1)
    then show ?thesis using Pair s1 by (simp add: withTx_def)
  next
    case (Inr u)
    then show ?thesis using Pair assms
      by (auto simp: withTx_def rollback_def split: prod.splits sum.splits)
  qed
qed

lemma withTx_InrD:
  assumes "withTx fn s = (Inr a, s3)"
  obtains s1 s2 where "tabs s1 = tabs s" and "fn s1 = (Inr a, s2)" and "tabs s3 = tabs s2"
    and "s1 = s\<lparr>faults := tl (faults s)\<rparr>"
proof -
  obtain r s1 where q: "query (\<lambda>_. ()) s = (r, s1)" by (cases "query (\<lambda>_. ()) s")
  then obtain u where r: "r = Inr u" using assms by (cases r) (simp_all add: withTx_def)
  have s1: "tabs s1 = tabs s" using query_tabs [of "\<lambda>_. ()" s] q by simp
  have s1': "s1 = s\<lparr>faults := tl (faults s)\<rparr>"
    using q r by (auto simp: query_def stmt_def Let_def split: if_splits)
  obtain x s2 where f: "fn s1 = (x, s2)" by (cases "fn s1")
  then obtain b where x: "x = Inr b"
    using assms q r by (cases x) (simp_all add: withTx_def rollback_def)
  obtain y s3' where c: "query (\<lambda>_. ()) s2 = (y, s3')" by (cases "query (\<lambda>_. ()) s2")
  then obtain v where y: "y = Inr v"
    using assms q r f x by (cases y) (simp_all add: withTx_def rollback_def)
  have "tabs s3' = tabs s2" using query_tabs [of "\<lambda>_. ()" s2] c by simp
  then show thesis using that [OF s1 _ _ s1'] assms q r f x c y by (simp add: withTx_def)
qed

lemma withTx_InrE:
  assumes "withTx fn s = (Inr a, s3)"
  obtains s1 s2 where "tabs s1 = tabs s" and "fn s1 = (Inr a, s2)" and "tabs s3 = tabs s2"
  using assms by (rule withTx_InrD) (rule that)

lemma withTx_InlD: "withTx fn s = (Inl e, s') \<Longrightarrow> tabs s' = tabs s"
  using withTx_atomic [of fn s e] by simp

lemma withTx_all_or_nothing:
  assumes "\<And>a s'. withTx fn s = (Inr a, s') \<Longrightarrow> Q a s'"
  shows "case withTx fn s of (Inl e, s') \<Rightarrow> tabs s' = tabs s | (Inr a, s') \<Rightarrow> Q a s'"
proof (cases "withTx fn s")
  case (Pair r s')
  then show ?thesis using assms withTx_atomic [of fn s] by (cases r) auto
qed

lemma keeps_withTx [pres_intros]:
  fixes fn :: "('s db_scheme, 'a) act"
  assumes "keeps (\<lambda>s. J (tabs s)) fn"
  shows "keeps (\<lambda>s. J (tabs s)) (withTx fn)"
proof (rule keepsI)
  fix s :: "'s db_scheme" assume J: "J (tabs s)"
  show "J (tabs (snd (withTx fn s)))"
  proof (cases "fst (withTx fn s)")
    case (Inl e)
    then show ?thesis using J withTx_atomic [of fn s e] by simp
  next
    case (Inr a)
    then have "withTx fn s = (Inr a, snd (withTx fn s))" by (simp add: prod_eq_iff)
    then obtain s1 s2 where *: "tabs s1 = tabs s" "fn s1 = (Inr a, s2)"
      "tabs (snd (withTx fn s)) = tabs s2" by (rule withTx_InrD)
    then have "J (tabs (snd (fn s1)))" using keepsD [OF assms, of s1] J by simp
    then show ?thesis using * by simp
  qed
qed

section \<open>A database that does not fault\<close>

definition calm :: "'s db_scheme \<Rightarrow> bool" where
  "calm s \<longleftrightarrow> faults s = []"

lemma stmt_calm [act_simps]:
  "calm s \<Longrightarrow> stmt f s = (case f (tabs s) of Inl e \<Rightarrow> (Inl e, s) | Inr (a, t) \<Rightarrow> (Inr a, s\<lparr>tabs := t\<rparr>))"
  by (cases s) (auto simp: calm_def stmt_def Let_def split: sum.splits)

lemma query_calm [act_simps]: "calm s \<Longrightarrow> query f s = (Inr (f (tabs s)), s)"
  by (cases s) (simp add: query_def act_simps)

lemma query_row_calm [act_simps]:
  "calm s \<Longrightarrow> query_row f s = (case f (tabs s) of None \<Rightarrow> Inl ErrNoRows | Some a \<Rightarrow> Inr a, s)"
  by (cases s) (auto simp: query_row_def act_simps split: option.splits)

lemma exec_calm [act_simps]:
  "calm s \<Longrightarrow> exec f s = (Inr (fst (f (tabs s))), s\<lparr>tabs := snd (f (tabs s))\<rparr>)"
  by (simp add: exec_def act_simps split: prod.splits)

lemma calm_tabs [simp, act_simps]: "calm (s\<lparr>tabs := t\<rparr>) = calm s"
  by (simp add: calm_def)

lemma withTx_calm [act_simps]:
  "calm s \<Longrightarrow> withTx fn s = (case fn s of
     (Inl e, s2) \<Rightarrow> rollback s (Inl e, s2)
   | (Inr a, s2) \<Rightarrow> (case query (\<lambda>_. ()) s2 of
        (Inl e, s3) \<Rightarrow> rollback s (Inl e, s3) | (Inr _, s3) \<Rightarrow> (Inr a, s3)))"
  by (simp add: withTx_def act_simps)

section \<open>Tables keyed by an integer id\<close>

text \<open>
  The contract every table with an INTEGER PRIMARY KEY gives its users: the id of an
  inserted row is new, a lookup by that id finds the row, and no other lookup changes.
\<close>

lemma next_id_fresh: "i \<in> set ids \<Longrightarrow> i < next_id ids"
  by (induction ids) (auto simp: next_id_def)

locale id_table =
  fixes rid :: "'r \<Rightarrow> int" and with_id :: "int \<Rightarrow> 'r \<Rightarrow> 'r"
  assumes rid_with_id: "rid (with_id i r) = i"
begin

lemma new_id_notin: "next_id (map rid rows) \<notin> set (map rid rows)"
  using next_id_fresh by blast

lemma distinct_insert:
  "distinct (map rid rows) \<Longrightarrow> distinct (map rid (rows @ [with_id (next_id (map rid rows)) r]))"
  using new_id_notin [of rows] by (simp add: rid_with_id)

lemma find_inserted:
  "List.find (\<lambda>x. rid x = next_id (map rid rows)) (rows @ [with_id (next_id (map rid rows)) r])
     = Some (with_id (next_id (map rid rows)) r)"
proof -
  have "\<forall>x \<in> set rows. rid x \<noteq> next_id (map rid rows)"
    using new_id_notin [of rows] by (metis image_eqI list.set_map)
  then have "List.find (\<lambda>x. rid x = next_id (map rid rows)) rows = None"
    by (simp add: find_None_iff2)
  then show ?thesis by (simp add: find_append rid_with_id)
qed

lemma find_other:
  "i \<noteq> next_id (map rid rows) \<Longrightarrow>
   List.find (\<lambda>x. rid x = i) (rows @ [with_id (next_id (map rid rows)) r]) = List.find (\<lambda>x. rid x = i) rows"
  by (simp add: find_append rid_with_id split: option.splits)

lemma distinct_update:
  "(\<And>r. rid (f r) = rid r) \<Longrightarrow> map rid (upd_where P f rows) = map rid rows"
  by (simp add: upd_where_def)

lemma distinct_delete: "distinct (map rid rows) \<Longrightarrow> distinct (map rid (del_where P rows))"
  by (simp add: del_where_def distinct_map_filterI)

end

interpretation dev_table: id_table dev_ID "\<lambda>i. dev_ID_update (\<lambda>_. i)"
  by unfold_locales simp

interpretation iface_table: id_table if_ID "\<lambda>i. if_ID_update (\<lambda>_. i)"
  by unfold_locales simp

interpretation ip_table: id_table ip_ID "\<lambda>i. ip_ID_update (\<lambda>_. i)"
  by unfold_locales simp

interpretation subnet_table: id_table sn_ID "\<lambda>i. sn_ID_update (\<lambda>_. i)"
  by unfold_locales simp

interpretation tag_table: id_table tag_ID "\<lambda>i. tag_ID_update (\<lambda>_. i)"
  by unfold_locales simp

interpretation user_table: id_table us_ID "\<lambda>i. us_ID_update (\<lambda>_. i)"
  by unfold_locales simp

end
