(* ===== verification/Store_Device.thy ===== *)
theory Store_Device
  imports Store_DB "HOL-Library.Product_Lexorder"
begin

text \<open>
  internal/store/device.go: devices, their interfaces and IP assignments. Every method is
  the sequence of statements of the Go method; the statements that can break a constraint
  carry the check of that constraint.
\<close>

section \<open>Constraints of the device, interface and assignment tables\<close>

definition device_kinds :: "string list" where
  "device_kinds = [''computer'', ''switch'', ''router'', ''modem'', ''phone'', ''server'',
     ''printer'', ''iot'', ''vm'', ''lxc'', ''wg-peer'', ''other'']"

definition device_sources :: "string list" where
  "device_sources = [''manual'', ''scan'', ''proxmox'', ''wireguard'', ''pihole'', ''adguard'', ''opnsense'']"

definition dev_ids :: "tables \<Rightarrow> int list" where "dev_ids t = map dev_ID (t_device t)"
definition if_ids :: "tables \<Rightarrow> int list" where "if_ids t = map if_ID (t_iface t)"
definition sn_ids :: "tables \<Rightarrow> int list" where "sn_ids t = map sn_ID (t_subnet t)"

definition device_clash :: "device \<Rightarrow> device_row list \<Rightarrow> bool" where
  "device_clash d rows \<longleftrightarrow>
     (\<exists>r \<in> set rows. (dev_WGPubKey d \<noteq> None \<and> dev_WGPubKey r = dev_WGPubKey d) \<or>
                     (dev_ProxmoxVMID d \<noteq> None \<and> dev_ProxmoxVMID r = dev_ProxmoxVMID d))"

definition parent_ok :: "int option \<Rightarrow> int list \<Rightarrow> bool" where
  "parent_ok p ids \<longleftrightarrow> (case p of None \<Rightarrow> True | Some i \<Rightarrow> i \<in> set ids)"

definition device_check :: "device \<Rightarrow> bool" where
  "device_check d \<longleftrightarrow> dev_Kind d \<in> set device_kinds \<and> dev_Source d \<in> set device_sources"

definition mac_taken :: "string option \<Rightarrow> iface list \<Rightarrow> bool" where
  "mac_taken m rows \<longleftrightarrow> m \<noteq> None \<and> m \<in> if_MAC ` set rows"

section \<open>Devices\<close>

definition scanDevice :: "device_row \<Rightarrow> device" where
  "scanDevice r = device.truncate r"

text \<open>Columns of a new row: reviewed unless a scan found it, never missing, no alert.\<close>

definition new_device_row :: "int \<Rightarrow> device \<Rightarrow> device_row" where
  "new_device_row i d =
     \<lparr>dev_ID = i, dev_Name = dev_Name d, dev_Kind = dev_Kind d, dev_Notes = dev_Notes d,
      dev_Vendor = dev_Vendor d, dev_Source = dev_Source d,
      dev_ParentDeviceID = dev_ParentDeviceID d, dev_ProxmoxVMID = dev_ProxmoxVMID d,
      dev_WGPubKey = dev_WGPubKey d, dev_Icon = dev_Icon d,
      dev_Reviewed = (dev_Source d \<noteq> ''scan''), dev_Model = dev_Model d,
      dev_Function = dev_Function d, dev_UpstreamMissingSince = None, dev_AlertOffline = False\<rparr>"

definition ins_device :: "device \<Rightarrow> tables \<Rightarrow> error + (int \<times> tables)" where
  "ins_device d t =
     (let i = next_id (dev_ids t) in
      if \<not> device_check d then Inl ErrCheck
      else if device_clash d (t_device t) then Inl ErrUnique
      else if \<not> parent_ok (dev_ParentDeviceID d) (i # dev_ids t) then Inl ErrForeignKey
      else Inr (i, t\<lparr>t_device := t_device t @ [new_device_row i d]\<rparr>))"

definition CreateDevice :: "device \<Rightarrow> ('s db_scheme, int) act" where
  "CreateDevice d = stmt (ins_device d)"

definition find_device :: "int \<Rightarrow> tables \<Rightarrow> device_row option" where
  "find_device i t = List.find (\<lambda>r. dev_ID r = i) (t_device t)"

definition GetDevice :: "int \<Rightarrow> ('s db_scheme, device) act" where
  "GetDevice i = query_row (\<lambda>t. map_option scanDevice (find_device i t))"

definition updated_device_row :: "device \<Rightarrow> device_row \<Rightarrow> device_row" where
  "updated_device_row d r =
     r\<lparr>dev_Name := dev_Name d, dev_Kind := dev_Kind d, dev_Notes := dev_Notes d,
       dev_Vendor := dev_Vendor d, dev_Source := dev_Source d,
       dev_ParentDeviceID := dev_ParentDeviceID d, dev_ProxmoxVMID := dev_ProxmoxVMID d,
       dev_WGPubKey := dev_WGPubKey d, dev_Icon := dev_Icon d, dev_Reviewed := True,
       dev_Model := dev_Model d, dev_Function := dev_Function d\<rparr>"

definition UpdateDevice :: "device \<Rightarrow> ('s db_scheme, unit) act" where
  "UpdateDevice d = stmt (\<lambda>t.
     if dev_ID d \<notin> set (dev_ids t) then Inr ((), t)
     else if \<not> device_check d then Inl ErrCheck
     else if device_clash d (del_where (\<lambda>r. dev_ID r = dev_ID d) (t_device t)) then Inl ErrUnique
     else if \<not> parent_ok (dev_ParentDeviceID d) (dev_ids t) then Inl ErrForeignKey
     else Inr ((), t\<lparr>t_device := upd_where (\<lambda>r. dev_ID r = dev_ID d) (updated_device_row d) (t_device t)\<rparr>))"

definition SetDeviceReviewed :: "int \<Rightarrow> bool \<Rightarrow> ('s db_scheme, unit) act" where
  "SetDeviceReviewed i b = thenA (exec (\<lambda>t.
     (count_where (\<lambda>r. dev_ID r = i) (t_device t),
      t\<lparr>t_device := upd_where (\<lambda>r. dev_ID r = i) (\<lambda>r. r\<lparr>dev_Reviewed := b\<rparr>) (t_device t)\<rparr>))) (ret ())"

text \<open>Deleting devices cascades to everything that references them or their interfaces.\<close>

definition cascade_device :: "(device_row \<Rightarrow> bool) \<Rightarrow> tables \<Rightarrow> tables" where
  "cascade_device P t =
     (let gone = map dev_ID (filter P (t_device t));
          ifs = map if_ID (filter (\<lambda>f. if_DeviceID f \<in> set gone) (t_iface t));
          orphan = (\<lambda>p. case p of None \<Rightarrow> None | Some i \<Rightarrow> if i \<in> set gone then None else Some i)
      in t\<lparr>t_device := map (\<lambda>r. r\<lparr>dev_ParentDeviceID := orphan (dev_ParentDeviceID r)\<rparr>)
                         (del_where P (t_device t)),
           t_iface := del_where (\<lambda>f. if_DeviceID f \<in> set gone) (t_iface t),
           t_ip := del_where (\<lambda>a. ip_IfaceID a \<in> set ifs) (t_ip t),
           t_status := del_where (\<lambda>a. st_IfaceID a \<in> set ifs) (t_status t),
           t_avail := del_where (\<lambda>a. av_IfaceID a \<in> set ifs) (t_avail t),
           t_port := del_where (\<lambda>a. op_IfaceID a \<in> set ifs) (t_port t),
           t_device_tag := del_where (\<lambda>x. fst x \<in> set gone) (t_device_tag t),
           t_field := del_where (\<lambda>x. cf_DeviceID x \<in> set gone) (t_field t),
           t_link := del_where (\<lambda>x. ln_DeviceID x \<in> set gone) (t_link t),
           t_event := map (\<lambda>e. e\<lparr>ev_DeviceID := orphan (ev_DeviceID e)\<rparr>) (t_event t),
           t_hint := del_where (\<lambda>x. hi_DeviceID x \<in> set gone) (t_hint t),
           t_autofill := del_where (\<lambda>x. af_DeviceID x \<in> set gone) (t_autofill t)\<rparr>)"

definition del_device :: "(device_row \<Rightarrow> bool) \<Rightarrow> tables \<Rightarrow> nat \<times> tables" where
  "del_device P t = (count_where P (t_device t), cascade_device P t)"

definition DeleteDevice :: "int \<Rightarrow> ('s db_scheme, unit) act" where
  "DeleteDevice i = thenA (exec (del_device (\<lambda>r. dev_ID r = i))) (ret ())"

section \<open>Interfaces\<close>

definition ins_iface :: "int \<Rightarrow> string option \<Rightarrow> string option \<Rightarrow> tables \<Rightarrow> error + (int \<times> tables)" where
  "ins_iface dev mac host t =
     (let i = next_id (if_ids t) in
      if mac_taken mac (t_iface t) then Inl ErrUnique
      else if dev \<notin> set (dev_ids t) then Inl ErrForeignKey
      else Inr (i, t\<lparr>t_iface := t_iface t @ [\<lparr>if_ID = i, if_DeviceID = dev, if_MAC = mac, if_Hostname = host\<rparr>]\<rparr>))"

definition AddIface :: "int \<Rightarrow> string option \<Rightarrow> string option \<Rightarrow> ('s db_scheme, int) act" where
  "AddIface dev mac host = stmt (ins_iface dev mac host)"

definition ListIfaces :: "int \<Rightarrow> ('s db_scheme, iface list) act" where
  "ListIfaces dev = query (\<lambda>t. filter (\<lambda>f. if_DeviceID f = dev) (t_iface t))"

text \<open>\<open>findDeviceID\<close>: no row is an answer, not an error.\<close>

definition findDeviceID :: "(tables \<Rightarrow> int option) \<Rightarrow> ('s db_scheme, int option) act" where
  "findDeviceID q = bindA (attempt (query_row q)) (\<lambda>r. case r of
     Inr i \<Rightarrow> ret (Some i)
   | Inl ErrNoRows \<Rightarrow> ret None
   | Inl e \<Rightarrow> fail e)"

definition is_node :: "device_row \<Rightarrow> bool" where
  "is_node d \<longleftrightarrow> dev_Source d = ''proxmox'' \<and> dev_ProxmoxVMID d = None"

definition node_field :: "tables \<Rightarrow> int \<Rightarrow> string option" where
  "node_field t i = map_option cf_Value
     (List.find (\<lambda>c. cf_DeviceID c = i \<and> cf_Key c = ''proxmox_node'') (t_field t))"

definition FindProxmoxNode :: "string \<Rightarrow> ('s db_scheme, int option) act" where
  "FindProxmoxNode name = findDeviceID (\<lambda>t. map_option dev_ID
     (List.find (\<lambda>d. is_node d \<and> (case node_field t (dev_ID d) of
                        Some v \<Rightarrow> v = name | None \<Rightarrow> dev_Name d = name))
        (order_by dev_ID (t_device t))))"

definition FindProxmoxGuest :: "int \<Rightarrow> ('s db_scheme, int option) act" where
  "FindProxmoxGuest vmid = findDeviceID (\<lambda>t. map_option dev_ID
     (List.find (\<lambda>d. dev_ProxmoxVMID d = Some vmid \<and> dev_Source d = ''proxmox'') (t_device t)))"

definition SetProxmoxGuestParent :: "int \<Rightarrow> int \<Rightarrow> ('s db_scheme, unit) act" where
  "SetProxmoxGuestParent guest node = stmt (\<lambda>t.
     let nodes = map dev_ID (filter is_node (t_device t));
         hit = (\<lambda>d. dev_ID d = guest \<and> (case dev_ParentDeviceID d of None \<Rightarrow> True | Some p \<Rightarrow> p \<in> set nodes))
     in if count_where hit (t_device t) \<noteq> 0 \<and> node \<notin> set (dev_ids t) then Inl ErrForeignKey
        else Inr ((), t\<lparr>t_device := upd_where hit (\<lambda>d. d\<lparr>dev_ParentDeviceID := Some node\<rparr>) (t_device t)\<rparr>))"

definition FindDeviceByWGPubKey :: "string \<Rightarrow> ('s db_scheme, int option) act" where
  "FindDeviceByWGPubKey key = findDeviceID (\<lambda>t. map_option dev_ID
     (List.find (\<lambda>d. dev_WGPubKey d = Some key) (t_device t)))"

text \<open>A lookup that reports a missing row as \<open>None\<close> and any other error as an error.\<close>

definition find_row :: "(tables \<Rightarrow> 'a option) \<Rightarrow> ('s db_scheme, 'a option) act" where
  "find_row q = bindA (attempt (query_row q)) (\<lambda>r. case r of
     Inr a \<Rightarrow> ret (Some a)
   | Inl ErrNoRows \<Rightarrow> ret None
   | Inl e \<Rightarrow> fail e)"

definition iface_by_mac :: "string \<Rightarrow> tables \<Rightarrow> iface option" where
  "iface_by_mac mac t = List.find (\<lambda>f. if_MAC f = Some mac) (t_iface t)"

definition FindIfaceByMAC :: "string \<Rightarrow> ('s db_scheme, iface option) act" where
  "FindIfaceByMAC mac = find_row (iface_by_mac mac)"

definition find_iface :: "int \<Rightarrow> tables \<Rightarrow> iface option" where
  "find_iface i t = List.find (\<lambda>f. if_ID f = i) (t_iface t)"

definition FindIfaceByIP :: "int \<Rightarrow> string \<Rightarrow> ('s db_scheme, iface option) act" where
  "FindIfaceByIP sn ip = find_row (\<lambda>t.
     case List.find (\<lambda>a. ip_SubnetID a = sn \<and> ip_IP a = ip \<and> find_iface (ip_IfaceID a) t \<noteq> None) (t_ip t) of
       None \<Rightarrow> None | Some a \<Rightarrow> find_iface (ip_IfaceID a) t)"

section \<open>Adopting an interface\<close>

text \<open>The device row nothing the user added hangs on (the \<open>empty\<close> condition of the code).\<close>

definition bare_device :: "tables \<Rightarrow> int \<Rightarrow> device_row \<Rightarrow> bool" where
  "bare_device t i d \<longleftrightarrow>
     dev_ID d = i \<and> dev_Notes d = [] \<and> \<not> dev_Reviewed d \<and>
     i \<notin> if_DeviceID ` set (t_iface t) \<and> i \<notin> fst ` set (t_device_tag t) \<and>
     i \<notin> ln_DeviceID ` set (t_link t) \<and> i \<notin> cf_DeviceID ` set (t_field t) \<and>
     Some i \<notin> dev_ParentDeviceID ` set (t_device t)"

definition discovered :: "device_row \<Rightarrow> bool" where
  "discovered d \<longleftrightarrow> dev_Source d \<in> set [''scan'', ''pihole'', ''adguard'', ''opnsense''] \<and> \<not> dev_Reviewed d"

definition move_iface :: "int \<Rightarrow> int \<Rightarrow> int \<Rightarrow> tables \<Rightarrow> error + (nat \<times> tables)" where
  "move_iface i from to t =
     (let ok = map dev_ID (filter (\<lambda>d. dev_ID d = from \<and> discovered d) (t_device t));
          hit = (\<lambda>f. if_ID f = i \<and> if_DeviceID f \<in> set ok);
          n = count_where hit (t_iface t)
      in if n \<noteq> 0 \<and> to \<notin> set (dev_ids t) then Inl ErrForeignKey
         else Inr (n, t\<lparr>t_iface := upd_where hit (\<lambda>f. f\<lparr>if_DeviceID := to\<rparr>) (t_iface t)\<rparr>))"

definition repoint_events :: "int \<Rightarrow> int \<Rightarrow> tables \<Rightarrow> nat \<times> tables" where
  "repoint_events from to t =
     (let hit = (\<lambda>e. ev_DeviceID e = Some from \<and> list_ex (bare_device t from) (t_device t))
      in (count_where hit (t_event t),
          t\<lparr>t_event := upd_where hit (\<lambda>e. e\<lparr>ev_DeviceID := Some to\<rparr>) (t_event t)\<rparr>))"

definition AdoptDiscoveredIface :: "int \<Rightarrow> int \<Rightarrow> ('s db_scheme, bool \<times> bool) act" where
  "AdoptDiscoveredIface i to = withTx (
     bindA (query_row (\<lambda>t. map_option if_DeviceID (find_iface i t))) (\<lambda>from.
     bindA (stmt (move_iface i from to)) (\<lambda>n.
     if n = 0 then ret (False, False)
     else thenA (exec (repoint_events from to))
       (bindA (exec (\<lambda>t. del_device (bare_device t from) t)) (\<lambda>m. ret (True, 0 < m))))))"

section \<open>IP assignments\<close>

definition ins_ip :: "int \<Rightarrow> int \<Rightarrow> string \<Rightarrow> string \<Rightarrow> string \<Rightarrow> tables \<Rightarrow> error + (int \<times> tables)" where
  "ins_ip ifc sn ip kind src t =
     (let i = next_id (map ip_ID (t_ip t)) in
      if kind \<notin> {''static'', ''dhcp''} then Inl ErrCheck
      else if ifc \<notin> set (if_ids t) \<or> sn \<notin> set (sn_ids t) then Inl ErrForeignKey
      else Inr (i, t\<lparr>t_ip := t_ip t @ [\<lparr>ip_ID = i, ip_IfaceID = ifc, ip_SubnetID = sn,
                                        ip_IP = ip, ip_Kind = kind, ip_Source = src\<rparr>]\<rparr>))"

definition AssignIP :: "int \<Rightarrow> int \<Rightarrow> string \<Rightarrow> string \<Rightarrow> ('s db_scheme, int) act" where
  "AssignIP ifc sn ip kind = stmt (ins_ip ifc sn ip kind [])"

definition del_ip :: "(ip_row \<Rightarrow> bool) \<Rightarrow> tables \<Rightarrow> nat \<times> tables" where
  "del_ip P t = (count_where P (t_ip t), t\<lparr>t_ip := del_where P (t_ip t)\<rparr>)"

text \<open>The iface's other DHCP rows in the subnet; other ifaces' DHCP rows of the address.\<close>

definition own_stale :: "int \<Rightarrow> int \<Rightarrow> string \<Rightarrow> ip_row \<Rightarrow> bool" where
  "own_stale ifc sn ip a \<longleftrightarrow>
     ip_IfaceID a = ifc \<and> ip_SubnetID a = sn \<and> ip_IP a \<noteq> ip \<and> ip_Kind a = ''dhcp''"

definition foreign_claim :: "int \<Rightarrow> int \<Rightarrow> string \<Rightarrow> ip_row \<Rightarrow> bool" where
  "foreign_claim ifc sn ip a \<longleftrightarrow>
     ip_IfaceID a \<noteq> ifc \<and> ip_SubnetID a = sn \<and> ip_IP a = ip \<and> ip_Kind a = ''dhcp''"

definition RemoveIfaceIPsInSubnetExcept :: "int \<Rightarrow> int \<Rightarrow> string \<Rightarrow> ('s db_scheme, unit) act" where
  "RemoveIfaceIPsInSubnetExcept ifc sn keep = thenA (exec (del_ip (own_stale ifc sn keep))) (ret ())"

definition ClaimDHCPLease :: "int \<Rightarrow> int \<Rightarrow> string \<Rightarrow> ('s db_scheme, unit) act" where
  "ClaimDHCPLease ifc sn ip = withTx (
     thenA (exec (del_ip (own_stale ifc sn ip)))
     (thenA (exec (del_ip (foreign_claim ifc sn ip))) (ret ())))"

definition find_ip :: "int \<Rightarrow> int \<Rightarrow> string \<Rightarrow> tables \<Rightarrow> int option" where
  "find_ip ifc sn ip t = map_option ip_ID
     (List.find (\<lambda>a. ip_IfaceID a = ifc \<and> ip_SubnetID a = sn \<and> ip_IP a = ip) (t_ip t))"

definition set_ip_kind :: "int \<Rightarrow> string \<Rightarrow> tables \<Rightarrow> error + (unit \<times> tables)" where
  "set_ip_kind i kind t =
     (let hit = (\<lambda>a. ip_ID a = i \<and> \<not> (ip_Kind a = ''static'' \<and> kind = ''dhcp'')) in
      if count_where hit (t_ip t) \<noteq> 0 \<and> kind \<notin> {''static'', ''dhcp''} then Inl ErrCheck
      else Inr ((), t\<lparr>t_ip := upd_where hit (\<lambda>a. a\<lparr>ip_Kind := kind\<rparr>) (t_ip t)\<rparr>))"

definition UpsertIPAssignmentFrom :: "int \<Rightarrow> int \<Rightarrow> string \<Rightarrow> string \<Rightarrow> string \<Rightarrow> ('s db_scheme, unit) act" where
  "UpsertIPAssignmentFrom ifc sn ip kind src =
     bindA (attempt (query_row (find_ip ifc sn ip))) (\<lambda>r. case r of
       Inl ErrNoRows \<Rightarrow> thenA (stmt (ins_ip ifc sn ip kind src)) (ret ())
     | Inl e \<Rightarrow> fail e
     | Inr i \<Rightarrow> stmt (set_ip_kind i kind))"

definition UpsertIPAssignment :: "int \<Rightarrow> int \<Rightarrow> string \<Rightarrow> string \<Rightarrow> ('s db_scheme, unit) act" where
  "UpsertIPAssignment ifc sn ip kind = UpsertIPAssignmentFrom ifc sn ip kind []"

definition no_mac :: "iface \<Rightarrow> bool" where
  "no_mac f \<longleftrightarrow> if_MAC f = None \<or> if_MAC f = Some []"

definition SetIfaceMACIfEmpty :: "int \<Rightarrow> string \<Rightarrow> ('s db_scheme, bool) act" where
  "SetIfaceMACIfEmpty ifc mac = bindA (exec (\<lambda>t.
     let hit = (\<lambda>f. if_ID f = ifc \<and> no_mac f \<and> Some mac \<notin> if_MAC ` set (t_iface t))
     in (count_where hit (t_iface t),
         t\<lparr>t_iface := upd_where hit (\<lambda>f. f\<lparr>if_MAC := Some mac\<rparr>) (t_iface t)\<rparr>)))
     (\<lambda>n. ret (0 < n))"

definition SetIfaceHostnameIfEmpty :: "int \<Rightarrow> string \<Rightarrow> ('s db_scheme, unit) act" where
  "SetIfaceHostnameIfEmpty ifc host = thenA (exec (\<lambda>t.
     let hit = (\<lambda>f. if_ID f = ifc \<and> (if_Hostname f = None \<or> if_Hostname f = Some []))
     in (count_where hit (t_iface t),
         t\<lparr>t_iface := upd_where hit (\<lambda>f. f\<lparr>if_Hostname := Some host\<rparr>) (t_iface t)\<rparr>))) (ret ())"

definition ListIPs :: "int \<Rightarrow> ('s db_scheme, ip_row list) act" where
  "ListIPs ifc = query (\<lambda>t. filter (\<lambda>a. ip_IfaceID a = ifc) (t_ip t))"

section \<open>Lists of devices\<close>

record ip_info =
  ii_IP :: string
  ii_Kind :: string
  ii_SubnetID :: int

record device_view = device +
  dv_IPs :: "ip_info list"
  dv_MACs :: "string list"
  dv_Online :: bool
  dv_LastSeen :: "stamp option"
  dv_TagNames :: "string list"

definition later_stamp :: "stamp option \<Rightarrow> stamp option \<Rightarrow> stamp option" where
  "later_stamp cur new = (case new of None \<Rightarrow> cur
     | Some n \<Rightarrow> (case cur of None \<Rightarrow> Some n | Some c \<Rightarrow> if c < n then Some n else Some c))"

text \<open>The device an interface belongs to, for the joins.\<close>

definition iface_dev :: "tables \<Rightarrow> int \<Rightarrow> int option" where
  "iface_dev t i = map_option if_DeviceID (find_iface i t)"

definition mac_rows :: "tables \<Rightarrow> (int \<times> string) list" where
  "mac_rows t = List.map_filter (\<lambda>f. map_option (Pair (if_DeviceID f)) (if_MAC f))
     (order_by (\<lambda>f. (if_DeviceID f, if_ID f)) (t_iface t))"

definition ip_rows :: "tables \<Rightarrow> (int \<times> ip_info) list" where
  "ip_rows t = List.map_filter (\<lambda>a. map_option (\<lambda>d. (d, \<lparr>ii_IP = ip_IP a, ii_Kind = ip_Kind a, ii_SubnetID = ip_SubnetID a\<rparr>))
       (iface_dev t (ip_IfaceID a)))
     (order_by (\<lambda>a. ((case iface_dev t (ip_IfaceID a) of None \<Rightarrow> 0 | Some d \<Rightarrow> d), ip_IfaceID a, ip_ID a)) (t_ip t))"

definition status_rows :: "tables \<Rightarrow> (int \<times> status_row) list" where
  "status_rows t = List.map_filter (\<lambda>s. map_option (\<lambda>d. (d, s)) (iface_dev t (st_IfaceID s))) (t_status t)"

definition tag_rows :: "tables \<Rightarrow> (int \<times> string) list" where
  "tag_rows t = order_by (\<lambda>x. x) (List.map_filter (\<lambda>(d, g). map_option (\<lambda>x. (d, tag_Name x))
     (List.find (\<lambda>x. tag_ID x = g) (t_tag t))) (t_device_tag t))"

definition of_dev :: "int \<Rightarrow> (int \<times> 'a) list \<Rightarrow> 'a list" where
  "of_dev i rows = map snd (filter (\<lambda>x. fst x = i) rows)"

definition view_of :: "(int \<times> string) list \<Rightarrow> (int \<times> ip_info) list \<Rightarrow> (int \<times> status_row) list \<Rightarrow>
    (int \<times> string) list \<Rightarrow> device \<Rightarrow> device_view" where
  "view_of macs ips sts tags d = device.extend d
     (device_view.fields (of_dev (dev_ID d) ips) (of_dev (dev_ID d) macs)
        (list_ex st_Online (of_dev (dev_ID d) sts))
        (foldl later_stamp None (map st_LastSeen (of_dev (dev_ID d) sts)))
        (of_dev (dev_ID d) tags))"

definition ListDevices :: "('s db_scheme, device_view list) act" where
  "ListDevices =
     bindA (query (\<lambda>t. map scanDevice (order_by dev_Name (t_device t)))) (\<lambda>devs.
     if devs = [] then ret []
     else bindA (query mac_rows) (\<lambda>macs.
          bindA (query ip_rows) (\<lambda>ips.
          bindA (query status_rows) (\<lambda>sts.
          bindA (query tag_rows) (\<lambda>tags.
          ret (map (view_of macs ips sts tags) devs))))))"

record subnet_iface_ip =
  si_IfaceID :: int
  si_DeviceID :: int
  si_IP :: string
  si_MAC :: "string option"
  si_Hostname :: "string option"

definition subnet_iface_ips :: "int \<Rightarrow> tables \<Rightarrow> subnet_iface_ip list" where
  "subnet_iface_ips sn t = List.map_filter (\<lambda>a.
     if ip_SubnetID a = sn
     then map_option (\<lambda>f. \<lparr>si_IfaceID = if_ID f, si_DeviceID = if_DeviceID f, si_IP = ip_IP a,
                           si_MAC = if_MAC f, si_Hostname = if_Hostname f\<rparr>) (find_iface (ip_IfaceID a) t)
     else None) (t_ip t)"

definition ListSubnetIfaceIPs :: "int \<Rightarrow> ('s db_scheme, subnet_iface_ip list) act" where
  "ListSubnetIfaceIPs sn = query (subnet_iface_ips sn)"

definition ifaceOnline :: "int \<Rightarrow> ('s db_scheme, bool \<times> stamp option) act" where
  "ifaceOnline ifc =
     bindA (attempt (query_row (\<lambda>t. map_option (\<lambda>s. (st_Online s, st_LastSeen s))
        (List.find (\<lambda>s. st_IfaceID s = ifc) (t_status t))))) (\<lambda>r. case r of
       Inl ErrNoRows \<Rightarrow> ret (False, None)
     | Inl e \<Rightarrow> fail e
     | Inr v \<Rightarrow> ret v)"

definition ListChildren :: "int \<Rightarrow> ('s db_scheme, device list) act" where
  "ListChildren dev = query (\<lambda>t. map scanDevice
     (order_by dev_Name (filter (\<lambda>d. dev_ParentDeviceID d = Some dev) (t_device t))))"

definition device_tags :: "int \<Rightarrow> tables \<Rightarrow> tag list" where
  "device_tags dev t = order_by tag_Name (filter (\<lambda>g. (dev, tag_ID g) \<in> set (t_device_tag t)) (t_tag t))"

definition DeviceTags :: "int \<Rightarrow> ('s db_scheme, tag list) act" where
  "DeviceTags dev = query (device_tags dev)"

definition deviceTagNames :: "int \<Rightarrow> ('s db_scheme, string list) act" where
  "deviceTagNames dev = query (\<lambda>t. map tag_Name (device_tags dev t))"

definition DeviceNames :: "int list \<Rightarrow> ('s db_scheme, (int \<times> string) list) act" where
  "DeviceNames ids =
     (if ids = [] then ret []
      else query (\<lambda>t. map (\<lambda>d. (dev_ID d, dev_Name d)) (filter (\<lambda>d. dev_ID d \<in> set ids) (t_device t))))"

section \<open>Creating a device with its interface\<close>

definition insertDeviceOn :: "device \<Rightarrow> ('s db_scheme, int) act" where
  "insertDeviceOn d = stmt (ins_device d)"

definition CreateDiscoveredDevice ::
    "device \<Rightarrow> string option \<Rightarrow> string option \<Rightarrow> int \<Rightarrow> string \<Rightarrow> string \<Rightarrow> ('s db_scheme, int \<times> int) act" where
  "CreateDiscoveredDevice d mac host sn ip kind = withTx (
     bindA (insertDeviceOn d) (\<lambda>devID.
     bindA (stmt (ins_iface devID mac host)) (\<lambda>ifID.
     bindA (stmt (ins_ip ifID sn ip kind [])) (\<lambda>_.
     ret (devID, ifID)))))"

definition CreateDeviceWithIface ::
    "device \<Rightarrow> string option \<Rightarrow> int \<Rightarrow> string \<Rightarrow> string \<Rightarrow> ('s db_scheme, int) act" where
  "CreateDeviceWithIface d mac sn ip kind = withTx (
     bindA (insertDeviceOn d) (\<lambda>devID.
     if mac = None \<and> ip = [] then ret devID
     else bindA (stmt (ins_iface devID mac None)) (\<lambda>ifID.
       if ip = [] then ret devID
       else bindA (stmt (ins_ip ifID sn ip kind [])) (\<lambda>_. ret devID))))"

section \<open>Creation is all or nothing\<close>

lemma ins_deviceD:
  assumes "ins_device d t = Inr (i, t')"
  shows "i = next_id (dev_ids t)
    \<and> i \<notin> set (dev_ids t)
    \<and> t' = t\<lparr>t_device := t_device t @ [new_device_row i d]\<rparr>
    \<and> device_check d
    \<and> \<not> device_clash d (t_device t)
    \<and> parent_ok (dev_ParentDeviceID d) (i # dev_ids t)"
  using assms next_id_fresh [of i "dev_ids t"]
  by (auto simp: ins_device_def Let_def split: if_splits)

lemma ins_ifaceD:
  assumes "ins_iface dev mac host t = Inr (i, t')"
  shows "i = next_id (if_ids t)
    \<and> i \<notin> set (if_ids t)
    \<and> \<not> mac_taken mac (t_iface t)
    \<and> dev \<in> set (dev_ids t)
    \<and> t' = t\<lparr>t_iface := t_iface t @ [\<lparr>if_ID = i, if_DeviceID = dev, if_MAC = mac, if_Hostname = host\<rparr>]\<rparr>"
  using assms next_id_fresh [of i "if_ids t"]
  by (auto simp: ins_iface_def Let_def split: if_splits)

lemma ins_ipD:
  assumes "ins_ip ifc sn ip kind src t = Inr (i, t')"
  shows "i = next_id (map ip_ID (t_ip t))
    \<and> i \<notin> ip_ID ` set (t_ip t)
    \<and> kind \<in> {''static'', ''dhcp''}
    \<and> ifc \<in> set (if_ids t)
    \<and> sn \<in> set (sn_ids t)
    \<and> t' = t\<lparr>t_ip := t_ip t @ [\<lparr>ip_ID = i, ip_IfaceID = ifc, ip_SubnetID = sn,
                                    ip_IP = ip, ip_Kind = kind, ip_Source = src\<rparr>]\<rparr>"
  using assms next_id_fresh [of i "map ip_ID (t_ip t)"]
  by (auto simp: ins_ip_def Let_def split: if_splits)

lemma CreateDiscoveredDevice_success:
  fixes s s' :: "'s db_scheme"
  assumes "CreateDiscoveredDevice d mac host sn ip kind s = (Inr (dev, ifc), s')"
  shows "\<exists>aid. tabs s' = (tabs s)
      \<lparr>t_device := t_device (tabs s) @ [new_device_row dev d],
       t_iface := t_iface (tabs s) @ [\<lparr>if_ID = ifc, if_DeviceID = dev, if_MAC = mac, if_Hostname = host\<rparr>],
       t_ip := t_ip (tabs s) @ [\<lparr>ip_ID = aid, ip_IfaceID = ifc, ip_SubnetID = sn,
                                 ip_IP = ip, ip_Kind = kind, ip_Source = []\<rparr>]\<rparr>
    \<and> dev \<notin> set (dev_ids (tabs s)) \<and> ifc \<notin> set (if_ids (tabs s)) \<and> aid \<notin> ip_ID ` set (t_ip (tabs s))
    \<and> sn \<in> set (sn_ids (tabs s)) \<and> \<not> mac_taken mac (t_iface (tabs s))"
proof -
  obtain s1 s2 :: "'s db_scheme" where w1: "tabs s1 = tabs s"
    and run: "bindA (insertDeviceOn d) (\<lambda>devID. bindA (stmt (ins_iface devID mac host)) (\<lambda>ifID.
       bindA (stmt (ins_ip ifID sn ip kind [])) (\<lambda>_. ret (devID, ifID)))) s1 = (Inr (dev, ifc), s2)"
    and w2: "tabs s' = tabs s2"
    using assms unfolding CreateDiscoveredDevice_def by (rule withTx_InrE)
  from run obtain i1 u1 where a: "insertDeviceOn d s1 = (Inr i1, u1)"
    and run: "bindA (stmt (ins_iface i1 mac host)) (\<lambda>ifID.
       bindA (stmt (ins_ip ifID sn ip kind [])) (\<lambda>_. ret (i1, ifID))) u1 = (Inr (dev, ifc), s2)"
    by (rule bindA_InrE)
  from run obtain i2 u2 where b: "stmt (ins_iface i1 mac host) u1 = (Inr i2, u2)"
    and run: "bindA (stmt (ins_ip i2 sn ip kind [])) (\<lambda>_. ret (i1, i2)) u2 = (Inr (dev, ifc), s2)"
    by (rule bindA_InrE)
  from run obtain i3 u3 where c: "stmt (ins_ip i2 sn ip kind []) u2 = (Inr i3, u3)"
    and fin: "ret (i1, i2) u3 = (Inr (dev, ifc), s2)" by (rule bindA_InrE)
  note a' = stmt_InrD [OF a [unfolded insertDeviceOn_def]]
  note b' = stmt_InrD [OF b]
  note c' = stmt_InrD [OF c]
  show ?thesis using a' b' c' fin w1 w2
    by (auto dest!: ins_deviceD ins_ifaceD ins_ipD simp: if_ids_def sn_ids_def)
qed

text \<open>
  C2: Registering a discovered host (device, interface and address) is all or nothing. Whatever
  statement fails, also BEGIN and COMMIT, the tables are as before; on success exactly the three
  rows were added, linked to each other, under ids that were free, and nothing else changed.
\<close>

theorem CreateDiscoveredDevice_all_or_nothing:
  "case CreateDiscoveredDevice d mac host sn ip kind s of
     (Inl e, s') \<Rightarrow> tabs s' = tabs s
   | (Inr (dev, ifc), s') \<Rightarrow>
       dev \<notin> set (dev_ids (tabs s)) \<and> ifc \<notin> set (if_ids (tabs s)) \<and>
       sn \<in> set (sn_ids (tabs s)) \<and> \<not> mac_taken mac (t_iface (tabs s)) \<and>
       (\<exists>aid. aid \<notin> ip_ID ` set (t_ip (tabs s)) \<and> tabs s' = (tabs s)
         \<lparr>t_device := t_device (tabs s) @ [new_device_row dev d],
          t_iface := t_iface (tabs s) @
            [\<lparr>if_ID = ifc, if_DeviceID = dev, if_MAC = mac, if_Hostname = host\<rparr>],
          t_ip := t_ip (tabs s) @ [\<lparr>ip_ID = aid, ip_IfaceID = ifc, ip_SubnetID = sn,
                                    ip_IP = ip, ip_Kind = kind, ip_Source = []\<rparr>]\<rparr>)"
proof -
  have 1: "(case CreateDiscoveredDevice d mac host sn ip kind s of
      (Inl e, s') \<Rightarrow> tabs s' = tabs s
    | (Inr p, s') \<Rightarrow> CreateDiscoveredDevice d mac host sn ip kind s = (Inr (fst p, snd p), s'))"
    unfolding CreateDiscoveredDevice_def by (rule withTx_all_or_nothing) simp
  show ?thesis
  proof (cases "CreateDiscoveredDevice d mac host sn ip kind s")
    case (Pair r s')
    then show ?thesis using 1
      by (cases r) (auto split: prod.splits dest!: CreateDiscoveredDevice_success)
  qed
qed

section \<open>Adopting an interface loses nothing the user has\<close>

lemma del_where_none: "(\<And>x. x \<in> set xs \<Longrightarrow> \<not> P x) \<Longrightarrow> del_where P xs = xs"
  by (induction xs) (auto simp: del_where_def)

definition bare_ids :: "tables \<Rightarrow> int \<Rightarrow> int list" where
  "bare_ids t i = map dev_ID (filter (bare_device t i) (t_device t))"

lemma bare_ids_iff: "x \<in> set (bare_ids t i) \<longleftrightarrow> x = i \<and> (\<exists>d \<in> set (t_device t). bare_device t i d)"
  by (auto simp: bare_ids_def bare_device_def)

lemma bare_unref:
  "f \<in> set (t_iface t) \<Longrightarrow> if_DeviceID f \<notin> set (bare_ids t i)"
  "g \<in> set (t_device_tag t) \<Longrightarrow> fst g \<notin> set (bare_ids t i)"
  "l \<in> set (t_link t) \<Longrightarrow> ln_DeviceID l \<notin> set (bare_ids t i)"
  "c \<in> set (t_field t) \<Longrightarrow> cf_DeviceID c \<notin> set (bare_ids t i)"
  "d \<in> set (t_device t) \<Longrightarrow> dev_ParentDeviceID d = Some p \<Longrightarrow> p \<notin> set (bare_ids t i)"
  unfolding bare_ids_iff bare_device_def by (auto simp: image_iff) metis

lemma bare_ifs: "{f \<in> set (t_iface t). if_DeviceID f \<in> set (bare_ids t i)} = {}"
  using bare_unref(1) by auto

lemma cascade_bare:
  "t_device (cascade_device (bare_device t i) t) = del_where (bare_device t i) (t_device t)"
  "t_iface (cascade_device (bare_device t i) t) = t_iface t"
  "t_ip (cascade_device (bare_device t i) t) = t_ip t"
  "t_status (cascade_device (bare_device t i) t) = t_status t"
  "t_avail (cascade_device (bare_device t i) t) = t_avail t"
  "t_port (cascade_device (bare_device t i) t) = t_port t"
  "t_device_tag (cascade_device (bare_device t i) t) = t_device_tag t"
  "t_field (cascade_device (bare_device t i) t) = t_field t"
  "t_link (cascade_device (bare_device t i) t) = t_link t"
proof -
  show "t_device (cascade_device (bare_device t i) t) = del_where (bare_device t i) (t_device t)"
  proof -
    have "map (\<lambda>r. r\<lparr>dev_ParentDeviceID := (case dev_ParentDeviceID r of None \<Rightarrow> None
        | Some p \<Rightarrow> if p \<in> set (bare_ids t i) then None else Some p)\<rparr>) (del_where (bare_device t i) (t_device t))
      = del_where (bare_device t i) (t_device t)"
      using bare_unref(5) by (intro map_idI) (auto simp: del_where_def split: option.splits)
    then show ?thesis unfolding cascade_device_def Let_def bare_ids_def [symmetric] by simp
  qed
qed (simp_all add: cascade_device_def Let_def bare_ids_def [symmetric] bare_unref del_where_none bare_ifs)

text \<open>What a device's owner sees of the tables: everything but the discovered device's own record.\<close>

definition user_data :: "tables \<Rightarrow> int list \<times> ip_row list \<times> status_row list \<times> avail_row list \<times>
    open_port list \<times> (int \<times> int) list \<times> custom_field list \<times> link list \<times> device_row list" where
  "user_data t = (map if_ID (t_iface t), t_ip t, t_status t, t_avail t, t_port t, t_device_tag t,
     t_field t, t_link t, filter dev_Reviewed (t_device t))"

text \<open>
  C3: Adopting a discovered interface never costs the user anything. Whatever statement fails,
  no interface, address, status, availability, port, tag, field or link row is lost, every device
  a user has reviewed stays exactly as it was, and so does every interface of such a device.
\<close>

theorem AdoptDiscoveredIface_loses_nothing:
  assumes "distinct (dev_ids (tabs s))"
  shows "user_data (tabs (snd (AdoptDiscoveredIface i to s))) = user_data (tabs s) \<and>
    {f \<in> set (t_iface (tabs s)). if_DeviceID f \<in> dev_ID ` {d \<in> set (t_device (tabs s)). dev_Reviewed d}}
      \<subseteq> set (t_iface (tabs (snd (AdoptDiscoveredIface i to s))))"
proof -
  define R where "R = dev_ID ` {d \<in> set (t_device (tabs s)). dev_Reviewed d}"
  define U where "U = user_data (tabs s)"
  define F where "F = {f \<in> set (t_iface (tabs s)). if_DeviceID f \<in> R}"
  define J where "J t \<longleftrightarrow> user_data t = U \<and> F \<subseteq> set (t_iface t) \<and> distinct (dev_ids t) \<and>
    R = dev_ID ` {d \<in> set (t_device t). dev_Reviewed d}" for t
  have mv: "J t'" if "J t" and "move_iface i src to t = Inr (n, t')" for t t' src n
  proof -
    have "if_DeviceID f \<noteq> src" if "f \<in> F" "d \<in> set (t_device t)" "dev_ID d = src" "discovered d" for f d
      using that \<open>J t\<close> unfolding F_def J_def dev_ids_def discovered_def
      by (auto dest: distinct_key_eq)
    then show ?thesis using that
      by (auto simp: J_def move_iface_def Let_def user_data_def upd_where_def dev_ids_def map_if_image
            image_iff split: if_splits)
  qed
  have ev: "J (snd (repoint_events src to t))" if "J t" for t src
    using that by (simp add: J_def repoint_events_def Let_def user_data_def dev_ids_def)
  have dl: "J (snd (del_device (bare_device t src) t))" if "J t" for t src
  proof -
    have "filter dev_Reviewed (del_where (bare_device t src) (t_device t)) = filter dev_Reviewed (t_device t)"
      by (auto simp: del_where_def bare_device_def intro: filter_cong)
    moreover from this have "{d \<in> set (del_where (bare_device t src) (t_device t)). dev_Reviewed d}
      = {d \<in> set (t_device t). dev_Reviewed d}" by (metis filter_set set_filter)
    ultimately show ?thesis using that
      by (simp add: J_def del_device_def user_data_def cascade_bare dev_ids_def del_where_def distinct_map_filterI)
  qed
  have "keeps (\<lambda>s. J (tabs s)) (AdoptDiscoveredIface i to)"
    unfolding AdoptDiscoveredIface_def
    by (intro pres_intros keeps_stmt keeps_exec) (use mv ev dl in auto)
  moreover have "J (tabs s)" using assms by (simp add: J_def U_def F_def R_def)
  ultimately have "J (tabs (snd (AdoptDiscoveredIface i to s)))" by (rule keepsD)
  then show ?thesis unfolding J_def U_def F_def R_def by blast
qed

text \<open>A small network: a reviewed server and a host a scan has found, both with an address.\<close>

definition sample_device :: "int \<Rightarrow> string \<Rightarrow> string \<Rightarrow> bool \<Rightarrow> device_row" where
  "sample_device i name src known =
     \<lparr>dev_ID = i, dev_Name = name, dev_Kind = ''other'', dev_Notes = [], dev_Vendor = [],
      dev_Source = src, dev_ParentDeviceID = None, dev_ProxmoxVMID = None, dev_WGPubKey = None,
      dev_Icon = [], dev_Reviewed = known, dev_Model = [], dev_Function = [],
      dev_UpstreamMissingSince = None, dev_AlertOffline = False\<rparr>"

definition sample_tables :: tables where
  "sample_tables = no_tables
     \<lparr>t_device := [sample_device 1 ''nas'' ''manual'' True, sample_device 2 ''host'' ''scan'' False],
      t_iface := [\<lparr>if_ID = 1, if_DeviceID = 1, if_MAC = Some ''aa'', if_Hostname = None\<rparr>,
                  \<lparr>if_ID = 2, if_DeviceID = 2, if_MAC = None, if_Hostname = None\<rparr>],
      t_subnet := [\<lparr>sn_ID = 1, sn_CIDR = ''10.0.0.0/24'', sn_Name = ''lan'', sn_VLANID = None,
                    sn_Kind = ''lan'', sn_ScanEnabled = True, sn_ScanIntervalSec = 300,
                    sn_DHCPStart = [], sn_DHCPEnd = [], sn_DHCPPoolSource = []\<rparr>],
      t_ip := [\<lparr>ip_ID = 1, ip_IfaceID = 1, ip_SubnetID = 1, ip_IP = ''10.0.0.2'', ip_Kind = ''static'', ip_Source = []\<rparr>,
               \<lparr>ip_ID = 2, ip_IfaceID = 2, ip_SubnetID = 1, ip_IP = ''10.0.0.9'', ip_Kind = ''dhcp'', ip_Source = []\<rparr>]\<rparr>"

definition sample_db :: db where
  "sample_db = \<lparr>tabs = sample_tables, faults = []\<rparr>"

lemmas sample_defs = sample_db_def sample_tables_def sample_device_def no_tables_def

theorem AdoptDiscoveredIface_loses_nothing_witness:
  "fst (AdoptDiscoveredIface 2 1 sample_db) = Inr (True, True) \<and>
   user_data (tabs (snd (AdoptDiscoveredIface 2 1 sample_db))) = user_data (tabs sample_db)"
proof
  show "fst (AdoptDiscoveredIface 2 1 sample_db) = Inr (True, True)" by code_simp
  have "distinct (dev_ids (tabs sample_db))" by code_simp
  then show "user_data (tabs (snd (AdoptDiscoveredIface 2 1 sample_db))) = user_data (tabs sample_db)"
    using AdoptDiscoveredIface_loses_nothing [of sample_db 2 1] by blast
qed

section \<open>Leases and assignments\<close>

text \<open>
  A DHCP lease becomes the truth of its subnet in one step: afterwards the interface has no
  other DHCP address there and no other interface holds the leased one by DHCP, while every
  static address and every other row stays. A fault anywhere leaves the tables as before.
\<close>

theorem ClaimDHCPLease_exclusive:
  "case ClaimDHCPLease ifc sn ip s of
     (Inl e, s') \<Rightarrow> tabs s' = tabs s
   | (Inr _, s') \<Rightarrow>
       filter (\<lambda>a. ip_Kind a = ''dhcp'' \<and> ip_SubnetID a = sn \<and> (ip_IfaceID a = ifc) \<noteq> (ip_IP a = ip))
         (t_ip (tabs s')) = [] \<and>
       filter (\<lambda>a. \<not> (ip_Kind a = ''dhcp'' \<and> ip_SubnetID a = sn \<and> (ip_IfaceID a = ifc) \<noteq> (ip_IP a = ip)))
         (t_ip (tabs s)) = t_ip (tabs s') \<and>
       (tabs s')\<lparr>t_ip := t_ip (tabs s)\<rparr> = tabs s"
  unfolding ClaimDHCPLease_def
proof (rule withTx_all_or_nothing)
  fix a s'
  assume "withTx (thenA (exec (del_ip (own_stale ifc sn ip)))
    (thenA (exec (del_ip (foreign_claim ifc sn ip))) (ret ()))) s = (Inr a, s')"
  then obtain s1 s2 :: "'a db_scheme" where t: "tabs s1 = tabs s" "tabs s' = tabs s2"
    and "thenA (exec (del_ip (own_stale ifc sn ip)))
      (thenA (exec (del_ip (foreign_claim ifc sn ip))) (ret ())) s1 = (Inr a, s2)"
    by (metis (no_types, lifting) withTx_InrE)
  then obtain n m :: nat and u1 u2 :: "'a db_scheme"
    where "exec (del_ip (own_stale ifc sn ip)) s1 = (Inr n, u1)"
      and "exec (del_ip (foreign_claim ifc sn ip)) u1 = (Inr m, u2)" and "s2 = u2"
    by (elim thenA_InrE) auto
  then have "tabs s' = (tabs s)\<lparr>t_ip := del_where (foreign_claim ifc sn ip)
      (del_where (own_stale ifc sn ip) (t_ip (tabs s)))\<rparr>"
    using t by (auto simp: exec_def del_ip_def dest!: stmt_InrD)
  then show "filter (\<lambda>a. ip_Kind a = ''dhcp'' \<and> ip_SubnetID a = sn \<and> (ip_IfaceID a = ifc) \<noteq> (ip_IP a = ip))
         (t_ip (tabs s')) = [] \<and>
       filter (\<lambda>a. \<not> (ip_Kind a = ''dhcp'' \<and> ip_SubnetID a = sn \<and> (ip_IfaceID a = ifc) \<noteq> (ip_IP a = ip)))
         (t_ip (tabs s)) = t_ip (tabs s') \<and>
       (tabs s')\<lparr>t_ip := t_ip (tabs s)\<rparr> = tabs s"
    by (auto simp: del_where_def own_stale_def foreign_claim_def filter_empty_conv intro: filter_cong)
qed

lemma set_ip_kind_static:
  assumes "set_ip_kind i kind t = Inr (u, t')"
  shows "{a \<in> set (t_ip t). ip_Kind a = ''static''} \<subseteq> set (t_ip t')"
proof
  fix a assume a: "a \<in> {a \<in> set (t_ip t). ip_Kind a = ''static''}"
  let ?hit = "\<lambda>a. ip_ID a = i \<and> \<not> (ip_Kind a = ''static'' \<and> kind = ''dhcp'')"
  have t': "t_ip t' = upd_where ?hit (\<lambda>a. a\<lparr>ip_Kind := kind\<rparr>) (t_ip t)"
    and ok: "count_where ?hit (t_ip t) = 0 \<or> kind \<in> {''static'', ''dhcp''}"
    using assms by (auto simp: set_ip_kind_def Let_def split: if_splits)
  have "(if ?hit a then a\<lparr>ip_Kind := kind\<rparr> else a) = a"
    using a ok by (auto simp: count_where_def filter_empty_conv)
  then show "a \<in> set (t_ip t')" using a unfolding t' upd_where_def set_map by (intro image_eqI) auto
qed

text \<open>
  Recording an address never downgrades one the user reserved: every static row is still
  there, unchanged, whatever faults; and when the operation succeeds the interface has the
  address in the subnet.
\<close>

theorem UpsertIPAssignmentFrom_keeps_static:
  "{a \<in> set (t_ip (tabs s)). ip_Kind a = ''static''}
     \<subseteq> set (t_ip (tabs (snd (UpsertIPAssignmentFrom ifc sn ip kind src s)))) \<and>
   (case UpsertIPAssignmentFrom ifc sn ip kind src s of
      (Inl e, s') \<Rightarrow> tabs s' = tabs s
    | (Inr _, s') \<Rightarrow> find_ip ifc sn ip (tabs s') \<noteq> None)"
proof (cases "query_row (find_ip ifc sn ip) s")
  case (Pair r s1)
  have t1: "tabs s1 = tabs s" using query_row_tabs [of "find_ip ifc sn ip" s] Pair by simp
  show ?thesis
  proof (cases r)
    case (Inl e)
    show ?thesis
    proof (cases "e = ErrNoRows")
      case False
      then show ?thesis using Inl Pair t1
        by (cases e) (auto simp: UpsertIPAssignmentFrom_def act_defs)
    next
      case True
      then have run: "UpsertIPAssignmentFrom ifc sn ip kind src s =
          thenA (stmt (ins_ip ifc sn ip kind src)) (ret ()) s1"
        using Inl Pair by (simp add: UpsertIPAssignmentFrom_def bindA_def attempt_def)
      show ?thesis
        unfolding run by (auto simp: act_defs stmt_def Let_def t1 find_ip_def find_append
            dest!: ins_ipD split: sum.splits option.splits)
    qed
  next
    case (Inr i)
    then have run: "UpsertIPAssignmentFrom ifc sn ip kind src s = stmt (set_ip_kind i kind) s1"
      using Pair by (simp add: UpsertIPAssignmentFrom_def bindA_def attempt_def)
    have found: "find_ip ifc sn ip (tabs s) = Some i"
      using Inr Pair by (auto simp: query_row_def stmt_def Let_def split: if_splits option.splits)
    have upd: "find_ip ifc sn ip (t\<lparr>t_ip := upd_where P (\<lambda>a. a\<lparr>ip_Kind := kind\<rparr>) (t_ip t)\<rparr>) = find_ip ifc sn ip t"
      for t P unfolding find_ip_def upd_where_def by (auto simp: find_map_same option.map_comp intro!: option.map_cong)
    have "find_ip ifc sn ip t' = find_ip ifc sn ip (tabs s)" if "set_ip_kind i kind (tabs s) = Inr (u, t')" for u t'
      using that upd by (auto simp: set_ip_kind_def Let_def split: if_splits)
    then show ?thesis unfolding run using found set_ip_kind_static [of i kind "tabs s"]
      by (auto simp: stmt_def Let_def t1 split: sum.splits)
  qed
qed

end
