(* ===== verification/Store_Status.thy ===== *)
theory Store_Status
  imports Store_Device
begin

text \<open>
  internal/store/status.go: the online state and the availability history of interfaces.
  Several sweeps may mark one interface at the same time, so the statements of \<open>MarkSeen\<close> and
  \<open>MarkMissed\<close> are also the steps of a transition relation in which the statements of any
  number of callers interleave.
\<close>

section \<open>Marking an interface seen or missed\<close>

definition seen_insert :: "int \<Rightarrow> rat \<Rightarrow> stamp \<Rightarrow> tables \<Rightarrow> error + (nat \<times> tables)" where
  "seen_insert ifc rtt ts t =
     (if ifc \<in> st_IfaceID ` set (t_status t) then Inr (0, t)
      else if ifc \<notin> set (if_ids t) then Inl ErrForeignKey
      else Inr (1, t\<lparr>t_status := t_status t @ [\<lparr>st_IfaceID = ifc, st_Online = True, st_FirstSeen = Some ts,
             st_LastSeen = Some ts, st_LastRTT = Some rtt, st_Missed = 0\<rparr>]\<rparr>))"

definition upd_status :: "(status_row \<Rightarrow> bool) \<Rightarrow> (status_row \<Rightarrow> status_row) \<Rightarrow> tables \<Rightarrow> nat \<times> tables" where
  "upd_status P f t = (count_where P (t_status t), t\<lparr>t_status := upd_where P f (t_status t)\<rparr>)"

definition seen_flip :: "int \<Rightarrow> rat \<Rightarrow> stamp \<Rightarrow> tables \<Rightarrow> nat \<times> tables" where
  "seen_flip ifc rtt ts = upd_status (\<lambda>r. st_IfaceID r = ifc \<and> \<not> st_Online r)
     (\<lambda>r. r\<lparr>st_Online := True, st_LastSeen := Some ts, st_LastRTT := Some rtt, st_Missed := 0,
            st_FirstSeen := (case st_FirstSeen r of None \<Rightarrow> Some ts | Some f \<Rightarrow> Some f)\<rparr>)"

definition seen_refresh :: "int \<Rightarrow> rat \<Rightarrow> stamp \<Rightarrow> tables \<Rightarrow> nat \<times> tables" where
  "seen_refresh ifc rtt ts = upd_status (\<lambda>r. st_IfaceID r = ifc)
     (\<lambda>r. r\<lparr>st_LastSeen := Some ts, st_LastRTT := Some rtt, st_Missed := 0\<rparr>)"

definition MarkSeen :: "int \<Rightarrow> rat \<Rightarrow> time \<Rightarrow> ('s db_scheme, bool) act" where
  "MarkSeen ifc rtt now =
     (let ts = rfc3339 now in
      bindA (stmt (seen_insert ifc rtt ts)) (\<lambda>n.
      if n = 1 then ret True
      else bindA (exec (seen_flip ifc rtt ts)) (\<lambda>n.
      if n = 1 then ret True
      else thenA (exec (seen_refresh ifc rtt ts)) (ret False))))"

definition miss_count :: "int \<Rightarrow> tables \<Rightarrow> nat \<times> tables" where
  "miss_count ifc = upd_status (\<lambda>r. st_IfaceID r = ifc) (\<lambda>r. r\<lparr>st_Missed := st_Missed r + 1\<rparr>)"

definition miss_flip :: "int \<Rightarrow> int \<Rightarrow> tables \<Rightarrow> nat \<times> tables" where
  "miss_flip ifc offlineAfter = upd_status
     (\<lambda>r. st_IfaceID r = ifc \<and> st_Online r \<and> offlineAfter \<le> st_Missed r) (\<lambda>r. r\<lparr>st_Online := False\<rparr>)"

definition MarkMissed :: "int \<Rightarrow> int \<Rightarrow> ('s db_scheme, bool) act" where
  "MarkMissed ifc offlineAfter =
     bindA (exec (miss_count ifc)) (\<lambda>n.
     if n = 0 then ret False
     else bindA (exec (miss_flip ifc offlineAfter)) (\<lambda>n. ret (n = 1)))"

section \<open>Availability\<close>

text \<open>Buckets are hours; a bucket is named by its start.\<close>

definition RecordAvailability :: "int \<Rightarrow> bool \<Rightarrow> stamp \<Rightarrow> ('s db_scheme, unit) act" where
  "RecordAvailability ifc up bucket = stmt (\<lambda>t.
     let upN = (if up then 1 else 0);
         hit = (\<lambda>r. av_IfaceID r = ifc \<and> av_Bucket r = bucket)
     in if count_where hit (t_avail t) \<noteq> 0
        then Inr ((), t\<lparr>t_avail := upd_where hit (\<lambda>r. r\<lparr>av_Up := av_Up r + upN, av_Total := av_Total r + 1\<rparr>) (t_avail t)\<rparr>)
        else if ifc \<notin> set (if_ids t) then Inl ErrForeignKey
        else Inr ((), t\<lparr>t_avail := t_avail t @ [\<lparr>av_IfaceID = ifc, av_Bucket = bucket, av_Up = upN, av_Total = 1\<rparr>]\<rparr>))"

definition avail_since :: "int \<Rightarrow> stamp \<Rightarrow> tables \<Rightarrow> avail_row list" where
  "avail_since ifc since t = filter (\<lambda>r. av_IfaceID r = ifc \<and> since \<le> av_Bucket r) (t_avail t)"

definition AvailabilityPct :: "int \<Rightarrow> stamp \<Rightarrow> ('s db_scheme, rat) act" where
  "AvailabilityPct ifc since =
     bindA (query (\<lambda>t. (sum_list (map av_Up (avail_since ifc since t)),
                        sum_list (map av_Total (avail_since ifc since t))))) (\<lambda>(up, total).
     if total = 0 then ret 100 else ret (100 * rat_of_int up / rat_of_int total))"

record availability_bucket =
  ab_Start :: stamp
  ab_Up :: rat

definition device_avail :: "int \<Rightarrow> stamp \<Rightarrow> tables \<Rightarrow> avail_row list" where
  "device_avail dev since t =
     filter (\<lambda>r. iface_dev t (av_IfaceID r) = Some dev \<and> since \<le> av_Bucket r \<and> 0 < av_Total r) (t_avail t)"

definition bucket_share :: "avail_row list \<Rightarrow> stamp \<Rightarrow> rat" where
  "bucket_share rows b =
     (let shares = map (\<lambda>r. rat_of_int (av_Up r) / rat_of_int (av_Total r)) (filter (\<lambda>r. av_Bucket r = b) rows)
      in foldl max (hd shares) (tl shares))"

definition DeviceAvailability :: "int \<Rightarrow> stamp \<Rightarrow> ('s db_scheme, availability_bucket list) act" where
  "DeviceAvailability dev since = query (\<lambda>t.
     let rows = device_avail dev since t in
     map (\<lambda>b. \<lparr>ab_Start = b, ab_Up = bucket_share rows b\<rparr>) (sort (remdups (map av_Bucket rows))))"

section \<open>Concurrent sweeps\<close>

text \<open>
  One call of MarkSeen or MarkMissed, by the statement it runs next. A statement that fails
  ends its call with an error.
\<close>

datatype seen_pc = SeenInsert | SeenFlip | SeenRefresh | SeenDone bool | SeenFailed
datatype miss_pc = MissCount | MissFlip | MissDone bool | MissFailed

datatype mark_call = Seen int rat stamp seen_pc | Missed int int miss_pc

fun next_stmt :: "mark_call \<Rightarrow> tables \<Rightarrow> mark_call \<times> tables" where
  "next_stmt (Seen i r ts SeenInsert) t = (case seen_insert i r ts t of
     Inl _ \<Rightarrow> (Seen i r ts SeenFailed, t)
   | Inr (n, t') \<Rightarrow> (Seen i r ts (if n = 1 then SeenDone True else SeenFlip), t'))"
| "next_stmt (Seen i r ts SeenFlip) t =
     (let (n, t') = seen_flip i r ts t in (Seen i r ts (if n = 1 then SeenDone True else SeenRefresh), t'))"
| "next_stmt (Seen i r ts SeenRefresh) t = (Seen i r ts (SeenDone False), snd (seen_refresh i r ts t))"
| "next_stmt (Missed i k MissCount) t =
     (let (n, t') = miss_count i t in (Missed i k (if n = 0 then MissDone False else MissFlip), t'))"
| "next_stmt (Missed i k MissFlip) t =
     (let (n, t') = miss_flip i k t in (Missed i k (MissDone (n = 1)), t'))"
| "next_stmt c t = (c, t)"

fun failed_call :: "mark_call \<Rightarrow> mark_call" where
  "failed_call (Seen i r ts (SeenDone b)) = Seen i r ts (SeenDone b)"
| "failed_call (Seen i r ts _) = Seen i r ts SeenFailed"
| "failed_call (Missed i k (MissDone b)) = Missed i k (MissDone b)"
| "failed_call (Missed i k _) = Missed i k MissFailed"

text \<open>Any call may run its next statement, have it fail, or a new call may begin.\<close>

inductive mark_step :: "mark_call list \<times> tables \<Rightarrow> mark_call list \<times> tables \<Rightarrow> bool" where
  run: "n < length cs \<Longrightarrow> next_stmt (cs ! n) t = (c, t') \<Longrightarrow> mark_step (cs, t) (cs[n := c], t')"
| fault: "n < length cs \<Longrightarrow> mark_step (cs, t) (cs[n := failed_call (cs ! n)], t)"
| begin_seen: "mark_step (cs, t) (cs @ [Seen i r ts SeenInsert], t)"
| begin_missed: "mark_step (cs, t) (cs @ [Missed i k MissCount], t)"

definition status_online :: "int \<Rightarrow> tables \<Rightarrow> bool" where
  "status_online i t \<longleftrightarrow> (\<exists>r \<in> set (t_status t). st_IfaceID r = i \<and> st_Online r)"

fun reported :: "int \<Rightarrow> mark_call \<Rightarrow> int" where
  "reported i (Seen j _ _ (SeenDone b)) = (if i = j \<and> b then 1 else 0)"
| "reported i (Missed j _ (MissDone b)) = (if i = j \<and> b then -1 else 0)"
| "reported _ _ = 0"

section \<open>Every transition is reported exactly once\<close>

definition one_status :: "tables \<Rightarrow> bool" where
  "one_status t \<longleftrightarrow> distinct (map st_IfaceID (t_status t))"

lemma one_statusD:
  assumes "one_status t" and "x \<in> set (t_status t)" and "y \<in> set (t_status t)"
    and "st_IfaceID x = st_IfaceID y"
  shows "x = y"
  using distinct_key_eq [of st_IfaceID "t_status t" x y] assms unfolding one_status_def by blast

lemma count_status:
  "distinct (map st_IfaceID rows) \<Longrightarrow>
   count_where (\<lambda>r. st_IfaceID r = i \<and> Q r) rows = of_bool (\<exists>r \<in> set rows. st_IfaceID r = i \<and> Q r)"
  by (induction rows) (auto simp: count_where_def filter_empty_conv image_iff)

lemma upd_status_ids:
  "(\<And>r. st_IfaceID (f r) = st_IfaceID r) \<Longrightarrow>
   map st_IfaceID (t_status (snd (upd_status P f t))) = map st_IfaceID (t_status t)"
  by (simp add: upd_status_def upd_where_def)

lemma upd_status_online:
  "(\<And>r. st_IfaceID (f r) = st_IfaceID r) \<Longrightarrow>
   status_online i (snd (upd_status P f t)) =
     (\<exists>r \<in> set (t_status t). st_IfaceID r = i \<and> st_Online (if P r then f r else r))"
  by (auto simp: status_online_def upd_status_def upd_where_def split: if_splits)

lemma next_flip:
  assumes "distinct (map st_IfaceID (t_status t))"
  shows "next_stmt (Seen j r ts SeenFlip) t =
    (Seen j r ts (if \<exists>x \<in> set (t_status t). st_IfaceID x = j \<and> \<not> st_Online x then SeenDone True else SeenRefresh),
     snd (seen_flip j r ts t))"
  using count_status [OF assms, of j "\<lambda>x. \<not> st_Online x"]
  by (simp add: seen_flip_def upd_status_def Let_def of_bool_def)

lemma next_miss_flip:
  assumes "distinct (map st_IfaceID (t_status t))"
  shows "next_stmt (Missed j k MissFlip) t =
    (Missed j k (MissDone (\<exists>x \<in> set (t_status t). st_IfaceID x = j \<and> st_Online x \<and> k \<le> st_Missed x)),
     snd (miss_flip j k t))"
  using count_status [OF assms, of j "\<lambda>x. st_Online x \<and> k \<le> st_Missed x"]
  by (simp add: miss_flip_def upd_status_def Let_def of_bool_def)

lemma next_stmt_balance:
  assumes "one_status t" and "next_stmt c t = (c', t')"
  shows "one_status t' \<and> reported i c' - reported i c = of_bool (status_online i t') - of_bool (status_online i t)"
proof (cases "(c, t)" rule: next_stmt.cases)
  case (1 j r ts u)
  then show ?thesis using assms
    by (auto simp: one_status_def seen_insert_def status_online_def split: if_splits)
next
  case (2 j r ts u)
  then have c: "c = Seen j r ts SeenFlip" by simp
  have d: "distinct (map st_IfaceID (t_status t))" using assms(1) by (simp add: one_status_def)
  have t': "t' = snd (seen_flip j r ts t)"
    and c': "c' = Seen j r ts (if \<exists>x \<in> set (t_status t). st_IfaceID x = j \<and> \<not> st_Online x then SeenDone True else SeenRefresh)"
    using assms(2) unfolding c next_flip [OF d] by simp_all
  have on: "status_online i t' = (\<exists>x \<in> set (t_status t). st_IfaceID x = i \<and> (i = j \<or> st_Online x))"
    unfolding t' seen_flip_def by (subst upd_status_online) (auto split: if_splits option.splits)
  have "one_status t'" unfolding t' one_status_def seen_flip_def by (subst upd_status_ids) (simp_all add: d)
  moreover have "\<not> status_online j t" if "\<exists>x \<in> set (t_status t). st_IfaceID x = j \<and> \<not> st_Online x"
    using that one_statusD [OF assms(1)] unfolding status_online_def by blast
  moreover have "status_online j t" if "x \<in> set (t_status t)" "st_IfaceID x = j" "st_Online x" for x
    using that by (auto simp: status_online_def)
  ultimately show ?thesis unfolding c c' on by (cases "i = j") (auto simp: status_online_def)
next
  case (3 j r ts u)
  then have t': "t' = snd (seen_refresh j r ts t)" using assms by simp
  have "status_online i t' = status_online i t"
    unfolding t' seen_refresh_def by (subst upd_status_online) (auto simp: status_online_def split: if_splits)
  moreover have "one_status t'"
    using assms(1) unfolding t' one_status_def seen_refresh_def by (subst upd_status_ids) simp_all
  ultimately show ?thesis using 3 assms by auto
next
  case (4 j k u)
  then have t': "t' = snd (miss_count j t)" using assms by (auto split: prod.splits)
  have "status_online i t' = status_online i t"
    unfolding t' miss_count_def by (subst upd_status_online) (auto simp: status_online_def split: if_splits)
  moreover have "one_status t'"
    using assms(1) unfolding t' one_status_def miss_count_def by (subst upd_status_ids) simp_all
  ultimately show ?thesis using 4 assms by (auto split: prod.splits if_splits)
next
  case (5 j k u)
  then have c: "c = Missed j k MissFlip" by simp
  have d: "distinct (map st_IfaceID (t_status t))" using assms(1) by (simp add: one_status_def)
  let ?Q = "\<lambda>x. st_Online x \<and> k \<le> st_Missed x"
  have t': "t' = snd (miss_flip j k t)"
    and c': "c' = Missed j k (MissDone (\<exists>x \<in> set (t_status t). st_IfaceID x = j \<and> ?Q x))"
    using assms(2) unfolding c next_miss_flip [OF d] by simp_all
  have on: "status_online i t' = (\<exists>x \<in> set (t_status t). st_IfaceID x = i \<and> st_Online x \<and> \<not> (i = j \<and> ?Q x))"
    unfolding t' miss_flip_def by (subst upd_status_online) (auto split: if_splits)
  have "one_status t'" unfolding t' one_status_def miss_flip_def by (subst upd_status_ids) (simp_all add: d)
  moreover have "x = y" if "x \<in> set (t_status t)" "y \<in> set (t_status t)" "st_IfaceID x = st_IfaceID y" for x y
    using one_statusD [OF assms(1)] that .
  ultimately show ?thesis unfolding c c' on by (cases "i = j") (auto simp: status_online_def)
qed (use assms in auto)

lemma failed_reported: "reported i (failed_call c) = reported i c"
  by (cases c rule: failed_call.cases) auto

lemma sum_list_swap:
  "n < length xs \<Longrightarrow> sum_list (map f (xs[n := y])) = sum_list (map f xs) - f (xs ! n) + (f y :: int)"
  by (induction xs arbitrary: n) (auto split: nat.splits)

lemma mark_step_balance:
  assumes "mark_step p q" and "one_status (snd p)"
  shows "one_status (snd q) \<and> sum_list (map (reported i) (fst q)) - sum_list (map (reported i) (fst p))
    = of_bool (status_online i (snd q)) - of_bool (status_online i (snd p))"
  using assms
proof cases
  case (run n cs t c t')
  then show ?thesis using next_stmt_balance [of t "cs ! n" c t' i] assms(2)
    by (simp add: sum_list_swap)
next
  case (fault n cs t)
  then show ?thesis using assms(2) by (simp add: sum_list_swap failed_reported)
qed simp_all

text \<open>
  C1: However the statements of any number of concurrent MarkSeen and MarkMissed calls interleave,
  and whichever of them fail, the online transitions that were reported for an interface, less
  the offline transitions, are exactly the change of its stored state: no transition is
  reported twice and none is missed.
\<close>

theorem marks_report_each_transition_once:
  assumes "mark_step\<^sup>*\<^sup>* ([], t) (cs, t')" and "distinct (map st_IfaceID (t_status t))"
  shows "sum_list (map (reported i) cs) = of_bool (status_online i t') - of_bool (status_online i t)"
proof -
  have "one_status (snd q) \<and> sum_list (map (reported i) (fst q))
      = of_bool (status_online i (snd q)) - of_bool (status_online i t)"
    if "mark_step\<^sup>*\<^sup>* ([], t) q" for q
    using that
  proof (induction rule: rtranclp_induct)
    case base
    then show ?case using assms(2) by (simp add: one_status_def)
  next
    case (step p q)
    then show ?case using mark_step_balance [of p q i] by simp
  qed
  from this [OF assms(1)] show ?thesis by simp
qed

lemma marks_report_each_transition_once_witness:
  "\<exists>cs t'. mark_step\<^sup>*\<^sup>* ([], sample_tables) (cs, t') \<and> status_online 1 t' \<and>
     sum_list (map (reported 1) cs) = of_bool (status_online 1 t') - of_bool (status_online 1 sample_tables)"
proof -
  define c where "c pc = Seen 1 2 50 pc" for pc
  define t' where "t' = snd (next_stmt (c SeenInsert) sample_tables)"
  have n: "next_stmt (c SeenInsert) sample_tables = (c (SeenDone True), t')"
    unfolding t'_def c_def by code_simp
  have "mark_step ([], sample_tables) ([c SeenInsert], sample_tables)"
    using begin_seen [of "[]" sample_tables] by (simp add: c_def)
  moreover have "mark_step ([c SeenInsert], sample_tables) ([c SeenInsert, c SeenInsert], sample_tables)"
    using begin_seen [of "[c SeenInsert]" sample_tables 1 2 50] by (simp add: c_def)
  moreover have "mark_step ([c SeenInsert, c SeenInsert], sample_tables) ([c SeenInsert, c (SeenDone True)], t')"
    using run [of 1 "[c SeenInsert, c SeenInsert]"] n by simp
  ultimately have "mark_step\<^sup>*\<^sup>* ([], sample_tables) ([c SeenInsert, c (SeenDone True)], t')"
    by (meson converse_rtranclp_into_rtranclp rtranclp.rtrancl_refl)
  moreover from this have "sum_list (map (reported 1) [c SeenInsert, c (SeenDone True)])
      = of_bool (status_online 1 t') - of_bool (status_online 1 sample_tables)"
    by (rule marks_report_each_transition_once) code_simp
  moreover have "status_online 1 t'" unfolding t'_def c_def by code_simp
  ultimately show ?thesis by blast
qed

text \<open>A call that is never interrupted runs its steps in one go.\<close>

fun run_call :: "nat \<Rightarrow> mark_call \<Rightarrow> tables \<Rightarrow> mark_call \<times> tables" where
  "run_call 0 c t = (c, t)"
| "run_call (Suc n) c t = (case next_stmt c t of (c', t') \<Rightarrow> run_call n c' t')"

lemma MarkSeen_steps:
  assumes "calm s" and "run_call 3 (Seen i r (rfc3339 now) SeenInsert) (tabs s) = (c, t')"
  shows "MarkSeen i r now s =
    ((case c of Seen _ _ _ (SeenDone b) \<Rightarrow> Inr b | _ \<Rightarrow> Inl ErrForeignKey), s\<lparr>tabs := t'\<rparr>)"
  using assms
  by (auto simp: numeral_3_eq_3 MarkSeen_def Let_def bindA_def thenA_def act_simps seen_insert_def
        split: prod.splits if_splits)

lemma MarkMissed_steps:
  assumes "calm s" and "run_call 2 (Missed i k MissCount) (tabs s) = (c, t')"
  shows "MarkMissed i k s = ((case c of Missed _ _ (MissDone b) \<Rightarrow> Inr b | _ \<Rightarrow> Inl ErrFault), s\<lparr>tabs := t'\<rparr>)"
  using assms
  by (auto simp: numeral_2_eq_2 MarkMissed_def bindA_def act_simps miss_count_def miss_flip_def upd_status_def
        split: prod.splits if_splits)

section \<open>Offline after so many misses in a row\<close>

text \<open>The answers of n consecutive MarkMissed calls.\<close>

fun misses :: "nat \<Rightarrow> int \<Rightarrow> int \<Rightarrow> ('s db_scheme, bool list) act" where
  "misses 0 i k = ret []"
| "misses (Suc n) i k = bindA (MarkMissed i k) (\<lambda>b. bindA (misses n i k) (\<lambda>bs. ret (b # bs)))"

definition status_row_of :: "int \<Rightarrow> tables \<Rightarrow> status_row option" where
  "status_row_of i t = List.find (\<lambda>r. st_IfaceID r = i) (t_status t)"

lemma status_row_upd:
  "(\<And>r. st_IfaceID (f r) = st_IfaceID r) \<Longrightarrow>
   status_row_of i (snd (upd_status P f t)) = map_option (\<lambda>r. if P r then f r else r) (status_row_of i t)"
  unfolding status_row_of_def upd_status_def upd_where_def by (simp add: find_map_same)

lemma count_status_row:
  assumes "one_status t"
  shows "count_where (\<lambda>r. st_IfaceID r = i \<and> Q r) (t_status t)
    = (case status_row_of i t of None \<Rightarrow> 0 | Some r \<Rightarrow> of_bool (Q r))"
proof (cases "status_row_of i t")
  case None
  then have "\<forall>r \<in> set (t_status t). st_IfaceID r \<noteq> i"
    by (simp add: status_row_of_def find_None_iff2)
  then show ?thesis using None by (auto simp: count_where_def filter_empty_conv)
next
  case (Some r)
  then have r: "r \<in> set (t_status t)" "st_IfaceID r = i" by (auto simp: status_row_of_def dest: find_SomeD)
  have "(\<exists>x \<in> set (t_status t). st_IfaceID x = i \<and> Q x) = Q r"
    using r one_statusD [OF assms] by blast
  then show ?thesis using Some count_status [of "t_status t" i Q] assms by (simp add: one_status_def)
qed

lemma MarkMissed_row:
  fixes s :: "'s db_scheme"
  assumes "calm s" and "one_status (tabs s)" and "status_row_of i (tabs s) = Some r"
  shows "\<exists>t. MarkMissed i k s = (Inr (st_Online r \<and> k \<le> st_Missed r + 1), s\<lparr>tabs := t\<rparr>) \<and> one_status t \<and>
    status_row_of i t = Some (r\<lparr>st_Missed := st_Missed r + 1, st_Online := st_Online r \<and> \<not> k \<le> st_Missed r + 1\<rparr>)"
proof -
  define t1 where "t1 = snd (miss_count i (tabs s))"
  define t2 where "t2 = snd (miss_flip i k t1)"
  let ?r1 = "r\<lparr>st_Missed := st_Missed r + 1\<rparr>"
  have n1: "fst (miss_count i (tabs s)) = 1"
    using count_status_row [OF assms(2), of i "\<lambda>_. True"] assms(3) by (simp add: miss_count_def upd_status_def)
  have o1: "one_status t1"
    using assms(2) unfolding t1_def one_status_def miss_count_def by (subst upd_status_ids) simp_all
  have r1: "status_row_of i t1 = Some ?r1"
    unfolding t1_def miss_count_def
    using find_SomeD [of "\<lambda>r. st_IfaceID r = i" "t_status (tabs s)" r] assms(3)
    by (subst status_row_upd) (auto simp: status_row_of_def)
  have n2: "fst (miss_flip i k t1) = of_bool (st_Online r \<and> k \<le> st_Missed r + 1)"
    using count_status_row [OF o1, of i "\<lambda>r. st_Online r \<and> k \<le> st_Missed r"] r1
    by (simp add: miss_flip_def upd_status_def)
  have o2: "one_status t2"
    using o1 unfolding t2_def one_status_def miss_flip_def by (subst upd_status_ids) simp_all
  have r2: "status_row_of i t2 = Some (?r1\<lparr>st_Online := st_Online r \<and> \<not> k \<le> st_Missed r + 1\<rparr>)"
    unfolding t2_def miss_flip_def
    using find_SomeD [of "\<lambda>r. st_IfaceID r = i" "t_status (tabs s)" r] assms(3) r1
    by (subst status_row_upd) (auto simp: status_row_of_def)
  have "MarkMissed i k s = (Inr (st_Online r \<and> k \<le> st_Missed r + 1), s\<lparr>tabs := t2\<rparr>)"
    using assms(1) n1 n2 by (simp add: MarkMissed_def bindA_def act_simps t1_def t2_def)
  then show ?thesis using o2 r2 by (intro exI [of _ t2]) simp
qed

lemma misses_offline:
  assumes "calm s" and "one_status (tabs s)" and "status_row_of i (tabs s) = Some r" and "\<not> st_Online r"
  shows "fst (misses n i k s) = Inr (replicate n False)"
  using assms
proof (induction n arbitrary: s r)
  case (Suc n)
  from MarkMissed_row [OF Suc.prems(1-3), of k] obtain t where
    m: "MarkMissed i k s = (Inr False, s\<lparr>tabs := t\<rparr>)" "one_status t"
      "status_row_of i t = Some (r\<lparr>st_Missed := st_Missed r + 1, st_Online := False\<rparr>)"
    using Suc.prems(4) by auto
  have "fst (misses n i k (s\<lparr>tabs := t\<rparr>)) = Inr (replicate n False)"
    using Suc.IH [of "s\<lparr>tabs := t\<rparr>"] m Suc.prems(1) by simp
  then show ?case using m(1) by (auto simp: bindA_def split: prod.splits sum.splits)
qed simp

text \<open>
  An online interface goes offline on exactly the N-th consecutive missed sweep: of n
  calls of MarkMissed in a row the one after which the counter reaches N reports the
  transition, none before and none after it.
\<close>

theorem offline_on_nth_miss:
  assumes "calm s" and "distinct (map st_IfaceID (t_status (tabs s)))"
    and "status_row_of i (tabs s) = Some r" and "st_Online r" and "st_Missed r < k"
  shows "fst (misses n i k s) = Inr (map (\<lambda>m. st_Missed r + int m + 1 = k) [0..<n])"
  using assms
proof (induction n arbitrary: s r)
  case (Suc n)
  have o: "one_status (tabs s)" using Suc.prems(2) by (simp add: one_status_def)
  from MarkMissed_row [OF Suc.prems(1) o Suc.prems(3), of k] obtain t where
    m: "MarkMissed i k s = (Inr (st_Missed r + 1 = k), s\<lparr>tabs := t\<rparr>)" "one_status t"
      "status_row_of i t = Some (r\<lparr>st_Missed := st_Missed r + 1, st_Online := st_Missed r + 1 \<noteq> k\<rparr>)"
    using Suc.prems(4,5) by (auto simp: order_eq_iff)
  have "fst (misses n i k (s\<lparr>tabs := t\<rparr>)) = Inr (map (\<lambda>j. st_Missed r + int (Suc j) + 1 = k) [0..<n])"
  proof (cases "st_Missed r + 1 = k")
    case True
    then have "map (\<lambda>j. st_Missed r + int (Suc j) + 1 = k) [0..<n] = replicate n False"
      by (auto simp: list_eq_iff_nth_eq)
    then show ?thesis
      using misses_offline [of "s\<lparr>tabs := t\<rparr>" i _ n k] m Suc.prems(1) True by simp
  next
    case False
    then show ?thesis
      using Suc.IH [of "s\<lparr>tabs := t\<rparr>"] m Suc.prems by (simp add: one_status_def algebra_simps)
  qed
  then show ?case using m(1)
    by (auto simp: bindA_def upt_conv_Cons map_Suc_upt [symmetric] simp del: upt_Suc split: prod.splits sum.splits)
qed simp

definition online_db :: db where
  "online_db = sample_db\<lparr>tabs := sample_tables\<lparr>t_status := [\<lparr>st_IfaceID = 1, st_Online = True,
     st_FirstSeen = Some 1, st_LastSeen = Some 1, st_LastRTT = None, st_Missed = 0\<rparr>]\<rparr>\<rparr>"

lemma offline_on_nth_miss_witness:
  "fst (misses 5 1 3 online_db) = Inr [False, False, True, False, False]"
proof -
  have "fst (misses 5 1 3 online_db) = Inr (map (\<lambda>m. 0 + int m + 1 = 3) [0..<5])"
    using offline_on_nth_miss [of online_db 1 "\<lparr>st_IfaceID = 1, st_Online = True,
       st_FirstSeen = Some 1, st_LastSeen = Some 1, st_LastRTT = None, st_Missed = 0\<rparr>" 3 5]
    by (simp add: online_db_def sample_defs calm_def status_row_of_def)
  then show ?thesis by (simp add: upt_rec)
qed

end
