(* ===== verification/Store_Subnet.thy ===== *)
theory Store_Subnet
  imports Store_Status Netip
begin

text \<open>
  internal/store/subnet.go and grid.go: the subnets, the order they are listed in, the DHCP
  pool of a subnet and who may set it, and who occupies its addresses.
\<close>

section \<open>Subnets\<close>

definition InDHCPPool :: "subnet \<Rightarrow> addr \<Rightarrow> bool" where
  "InDHCPPool sn ip = (case (parse_addr (sn_DHCPStart sn), parse_addr (sn_DHCPEnd sn)) of
     (Some lo, Some hi) \<Rightarrow> addr_le lo ip \<and> addr_le ip hi
   | _ \<Rightarrow> False)"

definition subnet_kinds :: "string list" where
  "subnet_kinds = [''lan'', ''wireguard'', ''proxmox-bridge'']"

definition ins_subnet :: "subnet \<Rightarrow> tables \<Rightarrow> error + (int \<times> tables)" where
  "ins_subnet sn t =
     (let i = next_id (sn_ids t) in
      if sn_Kind sn \<notin> set subnet_kinds then Inl ErrCheck
      else if sn_CIDR sn \<in> sn_CIDR ` set (t_subnet t) then Inl ErrUnique
      else Inr (i, t\<lparr>t_subnet := t_subnet t @ [sn\<lparr>sn_ID := i\<rparr>]\<rparr>))"

definition CreateSubnet :: "subnet \<Rightarrow> ('s db_scheme, int) act" where
  "CreateSubnet sn = stmt (ins_subnet sn)"

definition GetSubnet :: "int \<Rightarrow> ('s db_scheme, subnet) act" where
  "GetSubnet i = query_row (\<lambda>t. List.find (\<lambda>s. sn_ID s = i) (t_subnet t))"

text \<open>The order of the list: a strict order that \<open>sort.SliceStable\<close> sorts by.\<close>

definition subnet_key :: "subnet \<Rightarrow> cidr option" where
  "subnet_key sn = map_option masked (parse_prefix (sn_CIDR sn))"

definition subnet_less :: "subnet \<Rightarrow> subnet \<Rightarrow> bool" where
  "subnet_less x y = (case (subnet_key x, subnet_key y) of
     (Some _, None) \<Rightarrow> True
   | (None, Some _) \<Rightarrow> False
   | (None, None) \<Rightarrow> sn_CIDR x < sn_CIDR y
   | (Some a, Some b) \<Rightarrow>
       (if is4 (pfx_addr a) \<noteq> is4 (pfx_addr b) then is4 (pfx_addr a)
        else if pfx_addr a \<noteq> pfx_addr b then addr_less (pfx_addr a) (pfx_addr b)
        else pfx_bits a < pfx_bits b))"

text \<open>Stable sorting by a strict order: an element goes before the first one it is not above.\<close>

fun insert_by :: "('a \<Rightarrow> 'a \<Rightarrow> bool) \<Rightarrow> 'a \<Rightarrow> 'a list \<Rightarrow> 'a list" where
  "insert_by lt x [] = [x]"
| "insert_by lt x (y # ys) = (if lt y x then y # insert_by lt x ys else x # y # ys)"

definition stable_sort :: "('a \<Rightarrow> 'a \<Rightarrow> bool) \<Rightarrow> 'a list \<Rightarrow> 'a list" where
  "stable_sort lt xs = foldr (insert_by lt) xs []"

definition sortSubnets :: "subnet list \<Rightarrow> subnet list" where
  "sortSubnets sns = stable_sort subnet_less sns"

definition ListSubnets :: "('s db_scheme, subnet list) act" where
  "ListSubnets = bindA (query t_subnet) (\<lambda>out. ret (sortSubnets out))"

definition UpdateSubnet :: "subnet \<Rightarrow> ('s db_scheme, unit) act" where
  "UpdateSubnet sn = stmt (\<lambda>t.
     if sn_ID sn \<notin> set (sn_ids t) then Inr ((), t)
     else if sn_Kind sn \<notin> set subnet_kinds then Inl ErrCheck
     else if sn_CIDR sn \<in> sn_CIDR ` set (del_where (\<lambda>s. sn_ID s = sn_ID sn) (t_subnet t)) then Inl ErrUnique
     else Inr ((), t\<lparr>t_subnet := upd_where (\<lambda>s. sn_ID s = sn_ID sn) (\<lambda>_. sn) (t_subnet t)\<rparr>))"

definition pool_hit :: "int \<Rightarrow> string \<Rightarrow> string \<Rightarrow> string \<Rightarrow> subnet \<Rightarrow> bool" where
  "pool_hit i st en src s \<longleftrightarrow> sn_ID s = i \<and> (sn_DHCPPoolSource s = [] \<or> sn_DHCPPoolSource s = src) \<and>
     (sn_DHCPStart s \<noteq> st \<or> sn_DHCPEnd s \<noteq> en \<or> sn_DHCPPoolSource s \<noteq> src)"

definition SetDHCPPoolFrom :: "int \<Rightarrow> string \<Rightarrow> string \<Rightarrow> string \<Rightarrow> ('s db_scheme, bool) act" where
  "SetDHCPPoolFrom i st en src =
     bindA (exec (\<lambda>t. (count_where (pool_hit i st en src) (t_subnet t),
        t\<lparr>t_subnet := upd_where (pool_hit i st en src)
            (\<lambda>s. s\<lparr>sn_DHCPStart := st, sn_DHCPEnd := en, sn_DHCPPoolSource := src\<rparr>) (t_subnet t)\<rparr>)))
     (\<lambda>n. ret (0 < n))"

text \<open>Deleting a subnet cascades to its assignments.\<close>

definition cascade_subnet :: "int \<Rightarrow> tables \<Rightarrow> tables" where
  "cascade_subnet i t = t\<lparr>t_subnet := del_where (\<lambda>s. sn_ID s = i) (t_subnet t),
     t_ip := del_where (\<lambda>a. ip_SubnetID a = i) (t_ip t)\<rparr>"

definition DeleteSubnet :: "int \<Rightarrow> ('s db_scheme, unit) act" where
  "DeleteSubnet i = thenA (exec (\<lambda>t. (count_where (\<lambda>s. sn_ID s = i) (t_subnet t), cascade_subnet i t))) (ret ())"

section \<open>Occupancy\<close>

record occupant =
  oc_DeviceID :: int
  oc_DeviceName :: string
  oc_MAC :: string
  oc_LastSeen :: "stamp option"
  oc_Online :: bool
  oc_EverSeen :: bool
  oc_Count :: nat
  oc_Kind :: string

text \<open>
  The row of the joins for one assignment: the interface and its device; the empty LastSeen
  of the code is \<open>None\<close>.
\<close>

definition join_row :: "tables \<Rightarrow> ip_row \<Rightarrow> (iface \<times> device_row \<times> status_row option) option" where
  "join_row t a = (case find_iface (ip_IfaceID a) t of None \<Rightarrow> None
   | Some f \<Rightarrow> (case find_device (if_DeviceID f) t of None \<Rightarrow> None
     | Some d \<Rightarrow> Some (f, d, status_row_of (if_ID f) t)))"

definition occupant_of :: "ip_row \<Rightarrow> iface \<times> device_row \<times> status_row option \<Rightarrow> occupant" where
  "occupant_of a r = (case r of (f, d, st) \<Rightarrow>
     \<lparr>oc_DeviceID = dev_ID d, oc_DeviceName = dev_Name d,
      oc_MAC = (case if_MAC f of None \<Rightarrow> [] | Some m \<Rightarrow> m),
      oc_LastSeen = (case st of None \<Rightarrow> None | Some x \<Rightarrow> st_LastSeen x),
      oc_Online = (case st of None \<Rightarrow> False | Some x \<Rightarrow> st_Online x),
      oc_EverSeen = (case st of None \<Rightarrow> False | Some x \<Rightarrow> st_FirstSeen x \<noteq> None),
      oc_Count = 0, oc_Kind = ip_Kind a\<rparr>)"

definition occ_rows :: "int \<Rightarrow> tables \<Rightarrow> (string \<times> int \<times> occupant) list" where
  "occ_rows sn t = List.map_filter (\<lambda>a.
     if ip_SubnetID a = sn then map_option (\<lambda>r. (ip_IP a, if_ID (fst r), occupant_of a r)) (join_row t a)
     else None) (t_ip t)"

text \<open>The loop: the first occupant represents the square, the interfaces of an address are a set.\<close>

definition occ_step :: "(string \<rightharpoonup> occupant) \<times> (string \<Rightarrow> int set) \<Rightarrow> string \<times> int \<times> occupant \<Rightarrow>
    (string \<rightharpoonup> occupant) \<times> (string \<Rightarrow> int set)" where
  "occ_step st r = (case (st, r) of ((out, ifs), (ip, i, oc)) \<Rightarrow>
     ((if out ip = None then out(ip \<mapsto> oc) else out), ifs(ip := insert i (ifs ip))))"

definition SubnetOccupancy :: "int \<Rightarrow> ('s db_scheme, string \<rightharpoonup> occupant) act" where
  "SubnetOccupancy sn = bindA (query (occ_rows sn)) (\<lambda>rows.
     case foldl occ_step (Map.empty, \<lambda>_. {}) rows of (out, ifs) \<Rightarrow>
       ret (\<lambda>ip. map_option (\<lambda>oc. oc\<lparr>oc_Count := card (ifs ip)\<rparr>) (out ip)))"

definition SetIPKind :: "int \<Rightarrow> string \<Rightarrow> string \<Rightarrow> ('s db_scheme, unit) act" where
  "SetIPKind sn ip kind = stmt (\<lambda>t.
     let hit = (\<lambda>a. ip_SubnetID a = sn \<and> ip_IP a = ip) in
     if count_where hit (t_ip t) \<noteq> 0 \<and> kind \<notin> {''static'', ''dhcp''} then Inl ErrCheck
     else Inr ((), t\<lparr>t_ip := upd_where hit (\<lambda>a. a\<lparr>ip_Kind := kind, ip_Source := []\<rparr>) (t_ip t)\<rparr>))"

record ip_claim = occupant +
  cl_DeviceKind :: string
  cl_DeviceIcon :: string

definition claim_rows :: "int \<Rightarrow> string \<Rightarrow> tables \<Rightarrow> (int \<times> ip_claim) list" where
  "claim_rows sn ip t = List.map_filter (\<lambda>a.
     if ip_SubnetID a = sn \<and> ip_IP a = ip
     then map_option (\<lambda>r. (if_ID (fst r), occupant.extend (occupant_of a r)
            (ip_claim.fields (dev_Kind (fst (snd r))) (dev_Icon (fst (snd r)))))) (join_row t a)
     else None) (t_ip t)"

definition IPClaims :: "int \<Rightarrow> string \<Rightarrow> ('s db_scheme, ip_claim list) act" where
  "IPClaims sn ip = bindA (query (claim_rows sn ip)) (\<lambda>rows.
     let out = map snd (order_by fst rows) in
     ret (map (\<lambda>c. c\<lparr>oc_Count := length out\<rparr>) out))"

section \<open>Address conflicts\<close>

definition conflict_rows :: "int \<Rightarrow> tables \<Rightarrow> (string \<times> string) list" where
  "conflict_rows sn t =
     (let claims = filter (\<lambda>a. ip_SubnetID a = sn) (t_ip t);
          contested = (\<lambda>ip. 1 < length (remdups (map ip_IfaceID (filter (\<lambda>a. ip_IP a = ip) claims))))
      in order_by (\<lambda>x. x) (List.map_filter (\<lambda>a.
           if contested (ip_IP a) then map_option (\<lambda>r. (ip_IP a, dev_Name (fst (snd r)))) (join_row t a)
           else None) claims))"

text \<open>
  The map from a contested address to the names of its claimants, as an association list
  with each address once; a Go map has no order of its own.
\<close>

definition by_ip :: "(string \<times> string) list \<Rightarrow> (string \<times> string list) list" where
  "by_ip rows = map (\<lambda>ip. (ip, map snd (filter (\<lambda>r. fst r = ip) rows))) (remdups (map fst rows))"

definition ConflictingIPs :: "int \<Rightarrow> ('s db_scheme, (string \<times> string list) list) act" where
  "ConflictingIPs sn = bindA (query (conflict_rows sn)) (\<lambda>rows. ret (by_ip rows))"

section \<open>Offline alerts of a device\<close>

definition SetDeviceAlertOffline :: "int \<Rightarrow> bool \<Rightarrow> ('s db_scheme, unit) act" where
  "SetDeviceAlertOffline i on = thenA (exec (\<lambda>t.
     (count_where (\<lambda>r. dev_ID r = i) (t_device t),
      t\<lparr>t_device := upd_where (\<lambda>r. dev_ID r = i) (\<lambda>r. r\<lparr>dev_AlertOffline := on\<rparr>) (t_device t)\<rparr>))) (ret ())"

definition DeviceAlert :: "int \<Rightarrow> ('s db_scheme, string \<times> bool) act" where
  "DeviceAlert i = query_row (\<lambda>t. map_option (\<lambda>d. (dev_Name d, dev_AlertOffline d)) (find_device i t))"

definition AlertOfflineDeviceIDs :: "('s db_scheme, int list) act" where
  "AlertOfflineDeviceIDs = query (\<lambda>t. map dev_ID (filter dev_AlertOffline (t_device t)))"

section \<open>The subnets are listed in order\<close>

text \<open>Sorting by a strict order that compares a key is sorting by the key.\<close>

lemma insert_by_key: "(\<And>x y. lt x y \<longleftrightarrow> f x < f y) \<Longrightarrow> insert_by lt x xs = insort_key f x xs"
  for f :: "'a \<Rightarrow> 'k::linorder"
  by (induction xs) (auto simp: not_le)

lemma stable_sort_key: "(\<And>x y. lt x y \<longleftrightarrow> f x < f y) \<Longrightarrow> stable_sort lt xs = sort_key f xs"
  for f :: "'a \<Rightarrow> 'k::linorder"
  unfolding stable_sort_def sort_key_def
  by (induction xs) (simp_all add: insert_by_key)

text \<open>
  The intended order: IPv4 before IPv6 before what does not parse; then the network address as
  a number, the shorter prefix first; unparsable CIDRs by their text.
\<close>

definition subnet_rank :: "subnet \<Rightarrow> nat \<times> nat \<times> nat \<times> string" where
  "subnet_rank sn = (case subnet_key sn of
     None \<Rightarrow> (2, 0, 0, sn_CIDR sn)
   | Some p \<Rightarrow> (if is4 (pfx_addr p) then 0 else 1, addr_num (pfx_addr p), pfx_bits p, []))"

lemma subnet_key_zone: "subnet_key sn = Some p \<Longrightarrow> zone (pfx_addr p) = []"
proof -
  have z: "zone (pfx_addr (masked q)) = zone (pfx_addr q)" for q
    by (simp add: masked_def Let_def split: addr.splits)
  have "zone (without_zone a) = []" for a by (cases a) auto
  then show "subnet_key sn = Some p \<Longrightarrow> zone (pfx_addr p) = []"
    by (auto simp: subnet_key_def z parse_prefix_def mk_prefix_def Let_def split: if_splits option.splits)
qed

lemma addr_eq_iff: "a = b \<longleftrightarrow> is4 a = is4 b \<and> addr_num a = addr_num b \<and> zone a = zone b"
  by (cases a; cases b) (auto simp: word_unat_eq_iff)

lemma subnet_less_rank: "subnet_less x y \<longleftrightarrow> subnet_rank x < subnet_rank y"
proof (cases "subnet_key x"; cases "subnet_key y")
  fix p q assume *: "subnet_key x = Some p" "subnet_key y = Some q"
  have "bit_len (pfx_addr p) = bit_len (pfx_addr q)" if "is4 (pfx_addr p) = is4 (pfx_addr q)"
    using that by (cases "pfx_addr p"; cases "pfx_addr q") auto
  then show ?thesis using * subnet_key_zone [OF *(1)] subnet_key_zone [OF *(2)]
    by (auto simp: subnet_less_def subnet_rank_def addr_less_def less_prod_def' addr_eq_iff)
qed (auto simp: subnet_less_def subnet_rank_def less_prod_def')

text \<open>
  The subnet list comes out in the intended order, by network address as a number and not as
  text, with equal entries in the order the database gave them and no entry lost or added.
\<close>

theorem sortSubnets_by_network_address: "sortSubnets sns = sort_key subnet_rank sns"
  unfolding sortSubnets_def by (rule stable_sort_key) (rule subnet_less_rank)

section \<open>A pool the user set is the user's\<close>

text \<open>
  An integration's pool only ever replaces a pool nobody owns or its own: every subnet whose
  pool has another owner is unchanged, other subnets are unchanged, and the answer says whether
  the stored pool changed.
\<close>

theorem SetDHCPPoolFrom_respects_owner:
  "case SetDHCPPoolFrom i st en src s of
     (Inl e, s') \<Rightarrow> tabs s' = tabs s
   | (Inr changed, s') \<Rightarrow>
       (changed \<longleftrightarrow> t_subnet (tabs s') \<noteq> t_subnet (tabs s)) \<and>
       t_subnet (tabs s') = map (\<lambda>sn. if sn_ID sn = i \<and> (sn_DHCPPoolSource sn = [] \<or> sn_DHCPPoolSource sn = src)
         then sn\<lparr>sn_DHCPStart := st, sn_DHCPEnd := en, sn_DHCPPoolSource := src\<rparr> else sn) (t_subnet (tabs s)) \<and>
       (tabs s')\<lparr>t_subnet := t_subnet (tabs s)\<rparr> = tabs s"
proof -
  let ?f = "\<lambda>s. s\<lparr>sn_DHCPStart := st, sn_DHCPEnd := en, sn_DHCPPoolSource := src\<rparr>"
  have noop: "?f sn = sn \<longleftrightarrow> sn_DHCPStart sn = st \<and> sn_DHCPEnd sn = en \<and> sn_DHCPPoolSource sn = src" for sn :: subnet
    by (cases sn) auto
  have upd: "upd_where (pool_hit i st en src) ?f xs =
      map (\<lambda>sn. if sn_ID sn = i \<and> (sn_DHCPPoolSource sn = [] \<or> sn_DHCPPoolSource sn = src) then ?f sn else sn) xs" for xs
    unfolding upd_where_def by (rule map_cong) (auto simp: pool_hit_def noop [symmetric])
  have "(0 < count_where (pool_hit i st en src) xs) = (upd_where (pool_hit i st en src) ?f xs \<noteq> xs)" for xs
  proof -
    have "upd_where (pool_hit i st en src) ?f xs = xs \<longleftrightarrow> (\<forall>sn \<in> set xs. \<not> pool_hit i st en src sn)"
      unfolding upd_where_def by (induction xs) (auto simp: pool_hit_def noop)
    then show ?thesis by (auto simp: count_where_def filter_empty_conv)
  qed
  then show ?thesis
    by (auto simp: SetDHCPPoolFrom_def bindA_def exec_def stmt_def Let_def upd split: if_splits)
qed

end
