(* ===== verification/Store_Account.thy ===== *)
theory Store_Account
  imports Store_Subnet
begin

text \<open>
  internal/store/user.go, oidc.go, apitoken.go and secrets.go: users and their roles, sessions,
  API tokens and settings. The SHA-256 of a token in hexadecimal is the parameter \<open>H\<close> of the
  operations that use it, the AES-GCM cipher and base64 are the fields of \<open>crypter\<close>, and the
  clock reading of an operation is its argument.
\<close>

section \<open>Users\<close>

definition user_roles :: "string list" where "user_roles = [''admin'', ''viewer'']"

definition find_user :: "(user \<Rightarrow> bool) \<Rightarrow> tables \<Rightarrow> user option" where
  "find_user P t = List.find P (t_user t)"

definition ins_user :: "string \<Rightarrow> string \<Rightarrow> string \<Rightarrow> (string \<times> string) option \<Rightarrow> tables \<Rightarrow> error + (int \<times> tables)" where
  "ins_user name h role oidc t =
     (let i = next_id (map us_ID (t_user t)) in
      if role \<notin> set user_roles then Inl ErrCheck
      else if name \<in> us_Username ` set (t_user t) \<or> (oidc \<noteq> None \<and> oidc \<in> us_OIDC ` set (t_user t)) then Inl ErrUnique
      else Inr (i, t\<lparr>t_user := t_user t @ [\<lparr>us_ID = i, us_Username = name, us_PasswordHash = h,
                                            us_Role = role, us_OIDC = oidc\<rparr>]\<rparr>))"

definition CreateUser :: "string \<Rightarrow> string \<Rightarrow> string \<Rightarrow> ('s db_scheme, int) act" where
  "CreateUser name h role = stmt (ins_user name h role None)"

definition GetUserByName :: "string \<Rightarrow> ('s db_scheme, user option) act" where
  "GetUserByName name = find_row (find_user (\<lambda>u. us_Username u = name))"

definition CreateFirstAdmin :: "string \<Rightarrow> string \<Rightarrow> ('s db_scheme, bool) act" where
  "CreateFirstAdmin name h = stmt (\<lambda>t.
     if t_user t \<noteq> [] then Inr (False, t)
     else (case ins_user name h ''admin'' None t of Inl e \<Rightarrow> Inl e | Inr (_, t') \<Rightarrow> Inr (True, t')))"

definition GetUser :: "int \<Rightarrow> ('s db_scheme, user option) act" where
  "GetUser i = find_row (find_user (\<lambda>u. us_ID u = i))"

definition upd_user :: "(user \<Rightarrow> bool) \<Rightarrow> (user \<Rightarrow> user) \<Rightarrow> tables \<Rightarrow> nat \<times> tables" where
  "upd_user P f t = (count_where P (t_user t), t\<lparr>t_user := upd_where P f (t_user t)\<rparr>)"

definition SetPasswordHash :: "int \<Rightarrow> string \<Rightarrow> ('s db_scheme, bool) act" where
  "SetPasswordHash i h = bindA (exec (upd_user (\<lambda>u. us_ID u = i) (\<lambda>u. u\<lparr>us_PasswordHash := h\<rparr>))) (\<lambda>n. ret (n = 1))"

definition CountUsers :: "('s db_scheme, nat) act" where
  "CountUsers = query (\<lambda>t. length (t_user t))"

definition ListUsers :: "('s db_scheme, user list) act" where
  "ListUsers = query (\<lambda>t. order_by us_Username (t_user t))"

text \<open>Deleting users cascades to their sessions and tokens; audit rows keep the name.\<close>

definition cascade_user :: "(user \<Rightarrow> bool) \<Rightarrow> tables \<Rightarrow> tables" where
  "cascade_user P t =
     (let gone = map us_ID (filter P (t_user t)) in
      t\<lparr>t_user := del_where P (t_user t),
        t_session := del_where (\<lambda>s. se_UserID s \<in> set gone) (t_session t),
        t_token := del_where (\<lambda>k. at_UserID k \<in> set gone) (t_token t),
        t_audit := map (\<lambda>a. a\<lparr>au_UserID := (case au_UserID a of None \<Rightarrow> None
           | Some i \<Rightarrow> if i \<in> set gone then None else Some i)\<rparr>) (t_audit t)\<rparr>)"

definition DeleteUser :: "int \<Rightarrow> ('s db_scheme, unit) act" where
  "DeleteUser i = thenA (exec (\<lambda>t. (count_where (\<lambda>u. us_ID u = i) (t_user t), cascade_user (\<lambda>u. us_ID u = i) t))) (ret ())"

definition admins :: "tables \<Rightarrow> user list" where
  "admins t = filter (\<lambda>u. us_Role u = ''admin'') (t_user t)"

text \<open>The condition of the guarded statements: not an admin, or not the only one.\<close>

definition expendable :: "tables \<Rightarrow> user \<Rightarrow> bool" where
  "expendable t u \<longleftrightarrow> us_Role u \<noteq> ''admin'' \<or> 1 < length (admins t)"

definition DeleteUserGuarded :: "int \<Rightarrow> ('s db_scheme, bool) act" where
  "DeleteUserGuarded i = bindA (exec (\<lambda>t.
     let hit = (\<lambda>u. us_ID u = i \<and> expendable t u) in (count_where hit (t_user t), cascade_user hit t)))
     (\<lambda>n. ret (n = 1))"

definition SetUserRoleGuarded :: "int \<Rightarrow> string \<Rightarrow> ('s db_scheme, bool) act" where
  "SetUserRoleGuarded i role = bindA (stmt (\<lambda>t.
     let hit = (\<lambda>u. us_ID u = i \<and> (role = ''admin'' \<or> expendable t u));
         n = count_where hit (t_user t)
     in if n \<noteq> 0 \<and> role \<notin> set user_roles then Inl ErrCheck
        else Inr (n, snd (upd_user hit (\<lambda>u. u\<lparr>us_Role := role\<rparr>) t))))
     (\<lambda>n. ret (n = 1))"

section \<open>OpenID Connect identities\<close>

definition GetUserByOIDC :: "string \<Rightarrow> string \<Rightarrow> ('s db_scheme, user option) act" where
  "GetUserByOIDC issuer subject = find_row (find_user (\<lambda>u. us_OIDC u = Some (issuer, subject)))"

definition CreateOIDCUser :: "string \<Rightarrow> string \<Rightarrow> string \<Rightarrow> string \<Rightarrow> string \<Rightarrow> ('s db_scheme, int) act" where
  "CreateOIDCUser name h role issuer subject = stmt (ins_user name h role (Some (issuer, subject)))"

definition LinkOIDC :: "int \<Rightarrow> string \<Rightarrow> string \<Rightarrow> ('s db_scheme, bool) act" where
  "LinkOIDC i issuer subject = bindA (stmt (\<lambda>t.
     let hit = (\<lambda>u. us_ID u = i); n = count_where hit (t_user t)
     in if n \<noteq> 0 \<and> Some (issuer, subject) \<in> us_OIDC ` set (del_where hit (t_user t)) then Inl ErrUnique
        else Inr (n, snd (upd_user hit (\<lambda>u. u\<lparr>us_OIDC := Some (issuer, subject)\<rparr>) t))))
     (\<lambda>n. ret (n = 1))"

definition OIDCLinked :: "int \<Rightarrow> ('s db_scheme, bool) act" where
  "OIDCLinked i = query (\<lambda>t. 0 < count_where (\<lambda>u. us_ID u = i \<and> us_OIDC u \<noteq> None) (t_user t))"

definition SetSSORole :: "int \<Rightarrow> string \<Rightarrow> ('s db_scheme, unit) act" where
  "SetSSORole i role = stmt (\<lambda>t.
     let hit = (\<lambda>u. us_ID u = i) in
     if count_where hit (t_user t) \<noteq> 0 \<and> role \<notin> set user_roles then Inl ErrCheck
     else Inr ((), snd (upd_user hit (\<lambda>u. u\<lparr>us_Role := role\<rparr>) t)))"

section \<open>Sessions\<close>

record session_meta =
  sm_CreatedAt :: "stamp option"
  sm_IP :: string
  sm_UserAgent :: string

definition no_meta :: session_meta where
  "no_meta = \<lparr>sm_CreatedAt = None, sm_IP = [], sm_UserAgent = []\<rparr>"

record session_row =
  sr_ID :: string
  sr_CreatedAt :: "stamp option"
  sr_ExpiresAt :: stamp
  sr_IP :: "string option"
  sr_UserAgent :: "string option"

definition sessionIDLen :: nat where "sessionIDLen = 16"

definition SessionID :: "(string \<Rightarrow> string) \<Rightarrow> string \<Rightarrow> string" where
  "SessionID H tok = take sessionIDLen (H tok)"

definition nullable :: "string \<Rightarrow> string option" where
  "nullable v = (if v = [] then None else Some v)"

definition CreateSession :: "(string \<Rightarrow> string) \<Rightarrow> string \<Rightarrow> int \<Rightarrow> stamp \<Rightarrow> session_meta \<Rightarrow> ('s db_scheme, unit) act" where
  "CreateSession H tok uid expires m = stmt (\<lambda>t.
     if H tok \<in> se_TokenHash ` set (t_session t) then Inl ErrUnique
     else if uid \<notin> us_ID ` set (t_user t) then Inl ErrForeignKey
     else Inr ((), t\<lparr>t_session := t_session t @ [\<lparr>se_TokenHash = H tok, se_UserID = uid,
            se_ExpiresAt = expires, se_CreatedAt = sm_CreatedAt m, se_IP = nullable (sm_IP m),
            se_UserAgent = nullable (sm_UserAgent m)\<rparr>]\<rparr>))"

definition session_view :: "session \<Rightarrow> session_row" where
  "session_view s = \<lparr>sr_ID = take sessionIDLen (se_TokenHash s), sr_CreatedAt = se_CreatedAt s,
     sr_ExpiresAt = se_ExpiresAt s, sr_IP = se_IP s, sr_UserAgent = se_UserAgent s\<rparr>"

text \<open>ORDER BY created_at DESC NULLS LAST, expires_at DESC.\<close>

definition session_order :: "session \<Rightarrow> nat \<times> int \<times> int" where
  "session_order s = (case se_CreatedAt s of None \<Rightarrow> (1, 0, - se_ExpiresAt s) | Some c \<Rightarrow> (0, - c, - se_ExpiresAt s))"

definition ListSessionsForUser :: "int \<Rightarrow> time \<Rightarrow> ('s db_scheme, session_row list) act" where
  "ListSessionsForUser uid now = query (\<lambda>t. map session_view
     (order_by session_order (filter (\<lambda>s. se_UserID s = uid \<and> rfc3339 now < se_ExpiresAt s) (t_session t))))"

definition del_session :: "(session \<Rightarrow> bool) \<Rightarrow> tables \<Rightarrow> nat \<times> tables" where
  "del_session P t = (count_where P (t_session t), t\<lparr>t_session := del_where P (t_session t)\<rparr>)"

definition DeleteSessionByID :: "int \<Rightarrow> string \<Rightarrow> ('s db_scheme, bool) act" where
  "DeleteSessionByID uid i =
     (if length i \<noteq> sessionIDLen then ret False
      else bindA (exec (del_session (\<lambda>s. se_UserID s = uid \<and> take sessionIDLen (se_TokenHash s) = i)))
             (\<lambda>n. ret (0 < n)))"

definition session_user :: "string \<Rightarrow> stamp \<Rightarrow> tables \<Rightarrow> user option" where
  "session_user h now t =
     (case List.find (\<lambda>s. se_TokenHash s = h \<and> now < se_ExpiresAt s) (t_session t) of
        None \<Rightarrow> None | Some s \<Rightarrow> find_user (\<lambda>u. us_ID u = se_UserID s) t)"

definition GetSession :: "(string \<Rightarrow> string) \<Rightarrow> string \<Rightarrow> time \<Rightarrow> ('s db_scheme, user option) act" where
  "GetSession H tok now = find_row (session_user (H tok) (rfc3339 now))"

definition DeleteSession :: "(string \<Rightarrow> string) \<Rightarrow> string \<Rightarrow> ('s db_scheme, unit) act" where
  "DeleteSession H tok = thenA (exec (del_session (\<lambda>s. se_TokenHash s = H tok))) (ret ())"

definition DeleteSessionsForUser :: "(string \<Rightarrow> string) \<Rightarrow> int \<Rightarrow> string \<Rightarrow> ('s db_scheme, unit) act" where
  "DeleteSessionsForUser H uid keep =
     thenA (exec (del_session (\<lambda>s. se_UserID s = uid \<and> se_TokenHash s \<noteq> H keep))) (ret ())"

section \<open>API tokens\<close>

record token_row =
  tr_ID :: int
  tr_UserID :: int
  tr_Username :: string
  tr_Name :: string
  tr_CreatedAt :: stamp
  tr_LastUsedAt :: "stamp option"
  tr_ExpiresAt :: "stamp option"
  tr_ReadOnly :: bool

definition tokenScope :: "bool \<Rightarrow> string" where
  "tokenScope readOnly = (if readOnly then ''read'' else ''full'')"

definition apiTokenTouchInterval :: int where "apiTokenTouchInterval = minute"

definition CreateAPIToken :: "(string \<Rightarrow> string) \<Rightarrow> int \<Rightarrow> string \<Rightarrow> string \<Rightarrow> stamp option \<Rightarrow> bool \<Rightarrow> time \<Rightarrow> ('s db_scheme, int) act" where
  "CreateAPIToken H uid name tok expires readOnly now = stmt (\<lambda>t.
     let i = next_id (map at_ID (t_token t)) in
     if H tok \<in> at_TokenHash ` set (t_token t) then Inl ErrUnique
     else if uid \<notin> us_ID ` set (t_user t) then Inl ErrForeignKey
     else Inr (i, t\<lparr>t_token := t_token t @ [\<lparr>at_ID = i, at_UserID = uid, at_Name = name,
            at_TokenHash = H tok, at_CreatedAt = rfc3339 now, at_LastUsedAt = None,
            at_ExpiresAt = expires, at_Scope = tokenScope readOnly\<rparr>]\<rparr>))"

definition live_token :: "string \<Rightarrow> stamp \<Rightarrow> api_token \<Rightarrow> bool" where
  "live_token h now k \<longleftrightarrow> at_TokenHash k = h \<and>
     (case at_ExpiresAt k of None \<Rightarrow> True | Some e \<Rightarrow> now < e)"

definition token_user :: "string \<Rightarrow> stamp \<Rightarrow> tables \<Rightarrow> (api_token \<times> user) option" where
  "token_user h now t = (case List.find (live_token h now) (t_token t) of
     None \<Rightarrow> None
   | Some k \<Rightarrow> map_option (Pair k) (find_user (\<lambda>u. us_ID u = at_UserID k) t))"

definition touch_token :: "int \<Rightarrow> stamp \<Rightarrow> stamp \<Rightarrow> tables \<Rightarrow> nat \<times> tables" where
  "touch_token i now stale t =
     (let hit = (\<lambda>k. at_ID k = i \<and> (case at_LastUsedAt k of None \<Rightarrow> True | Some l \<Rightarrow> l \<le> stale)) in
      (count_where hit (t_token t), t\<lparr>t_token := upd_where hit (\<lambda>k. k\<lparr>at_LastUsedAt := Some now\<rparr>) (t_token t)\<rparr>))"

text \<open>The owner of a presented token and whether the token may only read.\<close>

definition GetUserByAPIToken :: "(string \<Rightarrow> string) \<Rightarrow> string \<Rightarrow> time \<Rightarrow> ('s db_scheme, (user \<times> bool) option) act" where
  "GetUserByAPIToken H tok now =
     bindA (find_row (token_user (H tok) (rfc3339 now))) (\<lambda>r. case r of
       None \<Rightarrow> ret None
     | Some (k, u) \<Rightarrow>
         thenA (exec (touch_token (at_ID k) (rfc3339 now) (rfc3339 (now - apiTokenTouchInterval))))
               (ret (Some (u, at_Scope k = ''read''))))"

definition token_view :: "tables \<Rightarrow> api_token \<Rightarrow> token_row option" where
  "token_view t k = map_option (\<lambda>u. \<lparr>tr_ID = at_ID k, tr_UserID = at_UserID k, tr_Username = us_Username u,
     tr_Name = at_Name k, tr_CreatedAt = at_CreatedAt k, tr_LastUsedAt = at_LastUsedAt k,
     tr_ExpiresAt = at_ExpiresAt k, tr_ReadOnly = (at_Scope k = ''read'')\<rparr>)
     (find_user (\<lambda>u. us_ID u = at_UserID k) t)"

definition ListAPITokens :: "int \<Rightarrow> ('s db_scheme, token_row list) act" where
  "ListAPITokens uid = query (\<lambda>t. List.map_filter (token_view t)
     (order_by (\<lambda>k. (- at_CreatedAt k, - at_ID k)) (filter (\<lambda>k. uid \<noteq> 0 \<longrightarrow> at_UserID k = uid) (t_token t))))"

definition DeleteAPIToken :: "int \<Rightarrow> int \<Rightarrow> ('s db_scheme, bool) act" where
  "DeleteAPIToken uid i = bindA (exec (\<lambda>t.
     let hit = (\<lambda>k. at_ID k = i \<and> (uid \<noteq> 0 \<longrightarrow> at_UserID k = uid))
     in (count_where hit (t_token t), t\<lparr>t_token := del_where hit (t_token t)\<rparr>))) (\<lambda>n. ret (0 < n))"

definition PruneExpiredAPITokens :: "time \<Rightarrow> ('s db_scheme, nat) act" where
  "PruneExpiredAPITokens now = exec (\<lambda>t.
     let hit = (\<lambda>k. case at_ExpiresAt k of None \<Rightarrow> False | Some e \<Rightarrow> e \<le> rfc3339 now)
     in (count_where hit (t_token t), t\<lparr>t_token := del_where hit (t_token t)\<rparr>))"

section \<open>Settings and secrets\<close>

record crypter =
  cr_nonce :: nat
  cr_seal :: "string \<Rightarrow> string \<Rightarrow> string \<Rightarrow> string"
  cr_open :: "string \<Rightarrow> string \<Rightarrow> string \<Rightarrow> string option"
  cr_b64 :: "string \<Rightarrow> string"
  cr_unb64 :: "string \<Rightarrow> string option"

definition encPrefix :: string where "encPrefix = ''enc:v1:''"

definition SecretSettings :: "string list" where
  "SecretSettings = [''proxmox_secret'', ''pihole_password'', ''adguard_password'', ''opnsense_secret'',
     ''notify_webhook_auth'', ''notify_ntfy_token'']"

definition isSecretSetting :: "string \<Rightarrow> bool" where
  "isSecretSetting key \<longleftrightarrow> list_ex (\<lambda>k. k = key) SecretSettings"

text \<open>\<open>seal\<close> with the random bytes it read, none when reading them failed.\<close>

definition seal :: "crypter \<Rightarrow> string option \<Rightarrow> string \<Rightarrow> string \<Rightarrow> string option" where
  "seal c rand key v = map_option (\<lambda>nonce. encPrefix @ cr_b64 c (nonce @ cr_seal c nonce v key)) rand"

definition quoted :: "string \<Rightarrow> string" where
  "quoted k = CHR 0x22 # k @ [CHR 0x22]"

definition open_sealed :: "crypter \<Rightarrow> string \<Rightarrow> string \<Rightarrow> error + string" where
  "open_sealed c key stored =
     (case cr_unb64 c (trim_prefix encPrefix stored) of
        None \<Rightarrow> Inl (ErrMsg (''setting '' @ quoted key @ '': illegal base64 data''))
      | Some raw \<Rightarrow>
          if length raw < cr_nonce c then Inl (ErrMsg (''setting '' @ quoted key @ '': encrypted value is truncated''))
          else (case cr_open c (take (cr_nonce c) raw) (drop (cr_nonce c) raw) key of
              None \<Rightarrow> Inl (ErrMsg (''setting '' @ quoted key @ '' cannot be decrypted with the configured key''))
            | Some p \<Rightarrow> Inr p))"

definition find_setting :: "string \<Rightarrow> tables \<Rightarrow> string option" where
  "find_setting key t = map_of (t_setting t) key"

definition rawSetting :: "string \<Rightarrow> ('s db_scheme, string) act" where
  "rawSetting key = bindA (find_row (find_setting key)) (\<lambda>r. ret (case r of None \<Rightarrow> [] | Some v \<Rightarrow> v))"

definition GetSetting :: "crypter option \<Rightarrow> string \<Rightarrow> ('s db_scheme, string) act" where
  "GetSetting cr key = bindA (rawSetting key) (\<lambda>v.
     if \<not> prefix encPrefix v then ret v
     else (case cr of
         None \<Rightarrow> fail (ErrMsg (''setting '' @ quoted key @ '' is encrypted but no secret key is configured (NETIS_SECRET_KEY)''))
       | Some c \<Rightarrow> (case open_sealed c key v of Inl e \<Rightarrow> fail e | Inr p \<Rightarrow> ret p)))"

definition put_setting :: "string \<Rightarrow> string \<Rightarrow> tables \<Rightarrow> nat \<times> tables" where
  "put_setting key v t = (1, t\<lparr>t_setting :=
     (if key \<in> fst ` set (t_setting t) then upd_where (\<lambda>x. fst x = key) (\<lambda>x. (key, v)) (t_setting t)
      else t_setting t @ [(key, v)])\<rparr>)"

definition SetSetting :: "crypter option \<Rightarrow> string option \<Rightarrow> string \<Rightarrow> string \<Rightarrow> ('s db_scheme, unit) act" where
  "SetSetting cr rand key v =
     (case (if v \<noteq> [] \<and> isSecretSetting key then cr else None) of
        None \<Rightarrow> thenA (exec (put_setting key v)) (ret ())
      | Some c \<Rightarrow> (case seal c rand key v of
            None \<Rightarrow> fail (ErrMsg ''rand'')
          | Some w \<Rightarrow> thenA (exec (put_setting key w)) (ret ())))"

text \<open>The random bytes of each seal come from the environment, by setting.\<close>

definition EncryptExistingSecrets :: "crypter option \<Rightarrow> (string \<Rightarrow> string option) \<Rightarrow> ('s db_scheme, nat) act" where
  "EncryptExistingSecrets cr rand =
     (if cr = None then ret 0
      else foldA (\<lambda>key n. bindA (rawSetting key) (\<lambda>raw.
             if raw = [] \<or> prefix encPrefix raw then ret n
             else thenA (SetSetting cr (rand key) key raw) (ret (n + 1)))) SecretSettings 0)"

section \<open>There is always an admin\<close>

text \<open>What the user management of the web interface does to accounts, in any order, with any faults.\<close>

inductive account_step :: "'s db_scheme \<Rightarrow> 's db_scheme \<Rightarrow> bool" where
  "account_step s (snd (CreateUser name h role s))"
| "account_step s (snd (CreateFirstAdmin name h s))"
| "account_step s (snd (CreateOIDCUser name h role issuer subject s))"
| "account_step s (snd (SetPasswordHash i h s))"
| "account_step s (snd (LinkOIDC i issuer subject s))"
| "account_step s (snd (DeleteUserGuarded i s))"
| "account_step s (snd (SetUserRoleGuarded i role s))"
| "account_step s (s\<lparr>faults := fs\<rparr>)"

definition has_admin :: "tables \<Rightarrow> bool" where
  "has_admin t \<longleftrightarrow> distinct (map us_ID (t_user t)) \<and> admins t \<noteq> []"

lemma ins_user_admin: "has_admin t \<Longrightarrow> ins_user name h role oidc t = Inr (i, t') \<Longrightarrow> has_admin t'"
  using user_table.new_id_notin [of "t_user t"]
  by (auto simp: has_admin_def ins_user_def Let_def admins_def split: if_splits)

lemma upd_user_admin:
  assumes "has_admin t" and "\<And>u. us_ID (f u) = us_ID u" and "\<And>u. us_Role (f u) = us_Role u"
  shows "has_admin (snd (upd_user P f t))"
proof -
  have "filter (\<lambda>u. us_Role u = ''admin'') (map g xs) \<noteq> [] \<longleftrightarrow> filter (\<lambda>u. us_Role u = ''admin'') xs \<noteq> []"
    if "\<And>u. us_Role (g u) = us_Role u" for xs and g :: "user \<Rightarrow> user"
    using that by (auto simp: filter_empty_conv)
  moreover have "distinct (map us_ID (upd_where P f (t_user t)))"
    using assms(1,2) by (simp add: has_admin_def user_table.distinct_update)
  ultimately show ?thesis using assms by (simp add: has_admin_def upd_user_def admins_def upd_where_def)
qed

text \<open>With one admin left, an admin is hit by no guarded statement.\<close>

lemma two_admins:
  assumes "distinct (map us_ID (t_user t))" and "1 < length (admins t)"
  shows "\<exists>u \<in> set (t_user t). us_Role u = ''admin'' \<and> us_ID u \<noteq> i"
proof (rule ccontr)
  assume "\<not> ?thesis"
  then have "\<forall>u \<in> set (admins t). us_ID u = i" by (auto simp: admins_def)
  moreover have "distinct (map us_ID (admins t))"
    using assms(1) unfolding admins_def by (rule distinct_map_filterI)
  ultimately have "length (admins t) \<le> 1"
    using length_filter_key_le1 [of us_ID "admins t" i] by (simp add: filter_id_conv)
  then show False using assms(2) by simp
qed

lemma spared_admin:
  assumes "has_admin t"
  shows "\<exists>u \<in> set (t_user t). us_Role u = ''admin'' \<and> \<not> (us_ID u = i \<and> expendable t u)"
proof (cases "1 < length (admins t)")
  case True
  then show ?thesis using two_admins [of t i] assms by (auto simp: has_admin_def)
next
  case False
  moreover obtain u where "u \<in> set (admins t)"
    using assms hd_in_set [of "admins t"] unfolding has_admin_def by blast
  ultimately show ?thesis by (auto simp: admins_def expendable_def)
qed

lemma DeleteUserGuarded_admin: "has_admin t \<Longrightarrow> has_admin (cascade_user (\<lambda>u. us_ID u = i \<and> expendable t u) t)"
  using spared_admin [of t i]
  by (auto simp: has_admin_def cascade_user_def Let_def admins_def del_where_def filter_empty_conv
        intro: distinct_map_filterI)

lemma SetUserRoleGuarded_admin:
  assumes "has_admin t"
  shows "has_admin (snd (upd_user (\<lambda>u. us_ID u = i \<and> (role = ''admin'' \<or> expendable t u)) (\<lambda>u. u\<lparr>us_Role := role\<rparr>) t))"
proof -
  let ?P = "\<lambda>u. us_ID u = i \<and> (role = ''admin'' \<or> expendable t u)"
  obtain u where u: "u \<in> set (t_user t)" "us_Role u = ''admin''" "\<not> (us_ID u = i \<and> expendable t u)"
    using spared_admin [OF assms] by blast
  let ?u = "if ?P u then u\<lparr>us_Role := role\<rparr> else u"
  have "us_Role ?u = ''admin''" using u by auto
  moreover have "?u \<in> set (t_user (snd (upd_user ?P (\<lambda>u. u\<lparr>us_Role := role\<rparr>) t)))"
    using u(1) unfolding upd_user_def upd_where_def by (auto simp: image_iff)
  ultimately have "admins (snd (upd_user ?P (\<lambda>u. u\<lparr>us_Role := role\<rparr>) t)) \<noteq> []"
    unfolding admins_def filter_empty_conv by blast
  moreover have "distinct (map us_ID (upd_where ?P (\<lambda>u. u\<lparr>us_Role := role\<rparr>) (t_user t)))"
    using assms by (subst user_table.distinct_update) (simp_all add: has_admin_def)
  ultimately show ?thesis by (simp add: has_admin_def upd_user_def)
qed

lemma account_step_admin: "account_step s t \<Longrightarrow> has_admin (tabs s) \<Longrightarrow> has_admin (tabs t)"
proof (induction rule: account_step.induct)
  case (1 s name h role)
  show ?case unfolding CreateUser_def
    by (rule keepsD [OF keeps_stmt]) (use ins_user_admin 1 in auto)
next
  case (2 s name h)
  show ?case unfolding CreateFirstAdmin_def
    by (rule keepsD [OF keeps_stmt]) (use 2 ins_user_admin in \<open>auto split: if_splits sum.splits\<close>)
next
  case (3 s name h role issuer subject)
  show ?case unfolding CreateOIDCUser_def
    by (rule keepsD [OF keeps_stmt]) (use ins_user_admin 3 in auto)
next
  case (4 s i h)
  show ?case unfolding SetPasswordHash_def
    by (rule keepsD [where I = "\<lambda>s. has_admin (tabs s)"], intro pres_intros keeps_exec upd_user_admin) (use 4 in auto)
next
  case (5 s i issuer subject)
  show ?case unfolding LinkOIDC_def
    by (rule keepsD [where I = "\<lambda>s. has_admin (tabs s)"], intro pres_intros keeps_stmt)
       (use 5 upd_user_admin in \<open>auto simp: Let_def split: if_splits\<close>)
next
  case (6 s i)
  show ?case unfolding DeleteUserGuarded_def Let_def
    by (rule keepsD [where I = "\<lambda>s. has_admin (tabs s)"], intro pres_intros keeps_exec)
       (use 6 DeleteUserGuarded_admin in auto)
next
  case (7 s i role)
  show ?case unfolding SetUserRoleGuarded_def
    by (rule keepsD [where I = "\<lambda>s. has_admin (tabs s)"], intro pres_intros keeps_stmt)
       (use 7 SetUserRoleGuarded_admin in \<open>auto simp: Let_def split: if_splits\<close>)
qed simp

text \<open>
  Managing accounts never leaves the instance without an admin: from a database with one, any
  sequence of creations, guarded deletions, guarded role changes, password changes and links,
  whichever of their statements fail, ends in a database that has one.
\<close>

theorem guarded_operations_keep_an_admin:
  assumes "account_step\<^sup>*\<^sup>* s t" and "distinct (map us_ID (t_user (tabs s)))" and "admins (tabs s) \<noteq> []"
  shows "admins (tabs t) \<noteq> []"
proof -
  have "has_admin (tabs t)" using assms(1)
  proof (induction rule: rtranclp_induct)
    case base
    then show ?case using assms(2,3) by (simp add: has_admin_def)
  next
    case (step s t)
    then show ?case by (blast intro: account_step_admin)
  qed
  then show ?thesis by (simp add: has_admin_def)
qed

definition sample_user :: "int \<Rightarrow> string \<Rightarrow> string \<Rightarrow> user" where
  "sample_user i name role = \<lparr>us_ID = i, us_Username = name, us_PasswordHash = [], us_Role = role, us_OIDC = None\<rparr>"

definition account_db :: db where
  "account_db = \<lparr>tabs = no_tables\<lparr>t_user := [sample_user 1 ''ann'' ''admin'', sample_user 2 ''bob'' ''admin'']\<rparr>,
     faults = []\<rparr>"

text \<open>Two admins: one is deleted, the other's demotion is then refused.\<close>

lemma guarded_operations_keep_an_admin_witness:
  "fst (DeleteUserGuarded 1 account_db) = Inr True \<and>
   admins (tabs (snd (SetUserRoleGuarded 2 ''viewer'' (snd (DeleteUserGuarded 1 account_db))))) \<noteq> []"
proof
  show "fst (DeleteUserGuarded 1 account_db) = Inr True" by code_simp
  have "account_step account_db (snd (DeleteUserGuarded 1 account_db))" by (rule account_step.intros)
  moreover have "account_step (snd (DeleteUserGuarded 1 account_db))
      (snd (SetUserRoleGuarded 2 ''viewer'' (snd (DeleteUserGuarded 1 account_db))))" by (rule account_step.intros)
  ultimately have "account_step\<^sup>*\<^sup>* account_db
      (snd (SetUserRoleGuarded 2 ''viewer'' (snd (DeleteUserGuarded 1 account_db))))" by simp
  then show "admins (tabs (snd (SetUserRoleGuarded 2 ''viewer'' (snd (DeleteUserGuarded 1 account_db))))) \<noteq> []"
    by (rule guarded_operations_keep_an_admin) code_simp+
qed

section \<open>A password change locks the other sessions out\<close>

text \<open>
  Once a user's other sessions are revoked, no token but the kept one signs in as that user
  at any time, and every session of every other user is still there; a failure changes nothing.
\<close>

theorem DeleteSessionsForUser_locks_out:
  "case DeleteSessionsForUser H uid keep s of
     (Inl e, s') \<Rightarrow> tabs s' = tabs s
   | (Inr _, s') \<Rightarrow>
       {tok. H tok \<noteq> H keep \<and> uid \<in> us_ID ` {u. \<exists>now. session_user (H tok) now (tabs s') = Some u}} = {} \<and>
       filter (\<lambda>r. \<not> (se_UserID r = uid \<and> se_TokenHash r \<noteq> H keep)) (t_session (tabs s)) = t_session (tabs s') \<and>
       (tabs s')\<lparr>t_session := t_session (tabs s)\<rparr> = tabs s"
proof -
  have key: "session_user h now t = Some u \<Longrightarrow> \<exists>r \<in> set (t_session t). se_TokenHash r = h \<and> se_UserID r = us_ID u" for h now t u
    by (force simp: session_user_def find_user_def dest!: find_SomeD split: option.splits)
  have tabs': "tabs s' = (tabs s)\<lparr>t_session := filter (\<lambda>r. \<not> (se_UserID r = uid \<and> se_TokenHash r \<noteq> H keep)) (t_session (tabs s))\<rparr>"
    if "DeleteSessionsForUser H uid keep s = (Inr a, s')" for a s'
    using that by (auto simp: DeleteSessionsForUser_def exec_def del_session_def del_where_def
        elim!: thenA_InrE dest!: stmt_InrD)
  have err: "tabs s' = tabs s" if "DeleteSessionsForUser H uid keep s = (Inl e, s')" for e s'
    using that by (auto simp: DeleteSessionsForUser_def thenA_def bindA_def exec_def stmt_def Let_def
        split: if_splits prod.splits)
  have out: "{tok. H tok \<noteq> H keep \<and> uid \<in> us_ID ` {u. \<exists>now. session_user (H tok) now t = Some u}} = {}"
    if "t_session t = filter (\<lambda>r. \<not> (se_UserID r = uid \<and> se_TokenHash r \<noteq> H keep)) rows" for t rows
    using that by (auto dest!: key)
  show ?thesis
  proof (cases "DeleteSessionsForUser H uid keep s")
    case (Pair r s')
    show ?thesis
    proof (cases r)
      case (Inl e)
      then show ?thesis using Pair err by simp
    next
      case (Inr a)
      then have t: "tabs s' = (tabs s)\<lparr>t_session :=
          filter (\<lambda>r. \<not> (se_UserID r = uid \<and> se_TokenHash r \<noteq> H keep)) (t_session (tabs s))\<rparr>"
        using Pair tabs' by simp
      then show ?thesis using Pair Inr out [of "tabs s'"] by (auto intro: filter_cong)
    qed
  qed
qed

section \<open>What is written to a setting is what is read\<close>

lemma find_put_setting: "find_setting key (snd (put_setting key v t)) = Some v"
proof -
  have "map_of (upd_where (\<lambda>x. fst x = key) (\<lambda>x. (key, v)) xs) key = Some v" if "key \<in> fst ` set xs" for xs
    using that by (induction xs) (auto simp: upd_where_def)
  moreover have "map_of (xs @ [(key, v)]) key = Some v" if "key \<notin> fst ` set xs" for xs
    using that map_of_eq_None_iff [of xs key] by (simp add: map_add_def)
  ultimately show ?thesis by (simp add: find_setting_def put_setting_def)
qed

lemma rawSetting_calm: "calm s \<Longrightarrow> find_setting key (tabs s) = Some v \<Longrightarrow> rawSetting key s = (Inr v, s)"
  by (simp add: rawSetting_def find_row_def bindA_def attempt_def act_simps)

text \<open>
  A setting reads back as it was written, whether it is stored in plaintext or, being a
  credential with a key configured, sealed under its own name; given that the cipher opens what
  it sealed under the same nonce and name, and that base64 decodes what it encoded. A plaintext
  value must not itself begin with the marker of sealed values.
\<close>

theorem setting_roundtrip:
  fixes s :: "'s db_scheme"
  assumes "calm s" and "SetSetting cr rand key v s = (Inr u, s')"
    and "\<And>c. cr = Some c \<Longrightarrow> (\<forall>n p k. length n = cr_nonce c \<longrightarrow> cr_open c n (cr_seal c n p k) k = Some p)
          \<and> (\<forall>x. cr_unb64 c (cr_b64 c x) = Some x) \<and> (\<forall>n. rand = Some n \<longrightarrow> length n = cr_nonce c)"
    and "(cr \<noteq> None \<and> v \<noteq> [] \<and> isSecretSetting key) \<or> \<not> prefix encPrefix v"
  shows "fst (GetSetting cr key s') = Inr v"
proof (cases "if v \<noteq> [] \<and> isSecretSetting key then cr else None")
  case None
  then have s': "s' = s\<lparr>tabs := snd (put_setting key v (tabs s))\<rparr>" and "\<not> prefix encPrefix v"
    using assms by (auto simp: SetSetting_def thenA_def bindA_def act_simps split: if_splits)
  then show ?thesis
    using rawSetting_calm [of s' key v] find_put_setting assms(1) by (simp add: GetSetting_def bindA_def)
next
  case (Some c)
  then have cr: "cr = Some c" by (auto split: if_splits)
  from assms(2) Some obtain n where n: "rand = Some n"
    by (auto simp: SetSetting_def seal_def split: option.splits if_splits)
  define w where "w = cr_b64 c (n @ cr_seal c n v key)"
  have s': "s' = s\<lparr>tabs := snd (put_setting key (encPrefix @ w) (tabs s))\<rparr>"
    using assms(1,2) Some n by (auto simp: SetSetting_def seal_def thenA_def bindA_def act_simps w_def)
  have "open_sealed c key (encPrefix @ w) = Inr v"
    using assms(3) [OF cr] n by (simp add: open_sealed_def trim_prefix_def w_def)
  then show ?thesis
    using rawSetting_calm [of s' key "encPrefix @ w"] find_put_setting assms(1) cr s'
    by (simp add: GetSetting_def bindA_def)
qed

text \<open>A toy cipher with the laws: the name is sealed in front of the value.\<close>

definition toy_crypter :: crypter where
  "toy_crypter = \<lparr>cr_nonce = 2, cr_seal = (\<lambda>n v k. k @ v), cr_open = (\<lambda>n c k. cut_prefix k c),
     cr_b64 = rev, cr_unb64 = (\<lambda>x. Some (rev x))\<rparr>"

lemma setting_roundtrip_witness:
  "fst (GetSetting (Some toy_crypter) ''pihole_password''
     (snd (SetSetting (Some toy_crypter) (Some ''ab'') ''pihole_password'' ''hunter2'' account_db))) = Inr ''hunter2''"
proof (rule setting_roundtrip [where s = account_db and u = "()"])
  show "calm account_db" by (simp add: calm_def account_db_def)
  show "SetSetting (Some toy_crypter) (Some ''ab'') ''pihole_password'' ''hunter2'' account_db
    = (Inr (), snd (SetSetting (Some toy_crypter) (Some ''ab'') ''pihole_password'' ''hunter2'' account_db))"
    by (simp add: SetSetting_def isSecretSetting_def SecretSettings_def seal_def thenA_def bindA_def
        exec_def stmt_def account_db_def Let_def split: prod.splits)
qed (auto simp: toy_crypter_def cut_prefix_def isSecretSetting_def SecretSettings_def)

end
