(* ===== verification/Store_Event.thy ===== *)
theory Store_Event
  imports Store_Account
begin

text \<open>
  internal/store/event.go and audit.go: the event log and the audit log, their filters and
  their pages; and retention.go, which prunes them.
\<close>

section \<open>LIKE patterns\<close>

text \<open>
  The two backends: SQLite's LIKE ignores the case of ASCII letters, Postgres's does not. In a
  pattern \<open>%\<close> is any text, \<open>_\<close> any character, and a backslash makes the next one literal.
\<close>

datatype dialect = SQLite | Postgres

definition like_eq :: "dialect \<Rightarrow> char \<Rightarrow> char \<Rightarrow> bool" where
  "like_eq d a b \<longleftrightarrow> (case d of SQLite \<Rightarrow> lower_char a = lower_char b | Postgres \<Rightarrow> a = b)"

definition backslash :: char where "backslash = CHR 0x5C"

function (sequential) sql_like :: "dialect \<Rightarrow> string \<Rightarrow> string \<Rightarrow> bool" where
  "sql_like d [] s = (s = [])"
| "sql_like d (c # p) s =
     (if c = backslash then
        (case (p, s) of (x # p', y # s') \<Rightarrow> like_eq d x y \<and> sql_like d p' s' | _ \<Rightarrow> False)
      else if c = CHR ''%'' then
        sql_like d p s \<or> (case s of [] \<Rightarrow> False | _ # s' \<Rightarrow> sql_like d (c # p) s')
      else if c = CHR ''_'' then (case s of [] \<Rightarrow> False | _ # s' \<Rightarrow> sql_like d p s')
      else (case s of [] \<Rightarrow> False | y # s' \<Rightarrow> like_eq d c y \<and> sql_like d p s'))"
  by pat_completeness auto
termination by (relation "measure (\<lambda>(d, p, s). length p + length s)") auto

text \<open>\<open>likeEscape\<close>: \<open>strings.NewReplacer\<close> with one-character old strings works by character.\<close>

definition likeEscape :: "string \<Rightarrow> string" where
  "likeEscape s = concat (map (\<lambda>c. if c = backslash \<or> c = CHR ''%'' \<or> c = CHR ''_'' then [backslash, c] else [c]) s)"

section \<open>The event log\<close>

definition event_types :: "string list" where
  "event_types = [''device_new'', ''online'', ''offline'', ''ip_changed'', ''scan_error'', ''ip_conflict'',
     ''sync_recovered'', ''device_missing'', ''device_returned'']"

text \<open>An event with the current name of its device.\<close>

record event_view = event +
  ev_DeviceName :: "string option"

definition event_view_of :: "tables \<Rightarrow> event \<Rightarrow> event_view" where
  "event_view_of t e = event.extend e (event_view.fields
     (case ev_DeviceID e of None \<Rightarrow> None | Some i \<Rightarrow> map_option dev_Name (find_device i t)))"

definition ins_event :: "stamp \<Rightarrow> string \<Rightarrow> int option \<Rightarrow> string \<Rightarrow> tables \<Rightarrow> error + (int \<times> tables)" where
  "ins_event now typ dev details t =
     (let i = next_id (map ev_ID (t_event t)) in
      if typ \<notin> set event_types then Inl ErrCheck
      else if \<not> parent_ok dev (dev_ids t) then Inl ErrForeignKey
      else Inr (i, t\<lparr>t_event := t_event t @ [\<lparr>ev_ID = i, ev_TS = now, ev_Type = typ,
                                              ev_DeviceID = dev, ev_Details = details\<rparr>]\<rparr>))"

text \<open>The timestamp is the database's clock, here an argument.\<close>

definition AddEvent :: "stamp \<Rightarrow> string \<Rightarrow> int option \<Rightarrow> string \<Rightarrow> ('s db_scheme, int) act" where
  "AddEvent now typ dev details = stmt (ins_event now typ dev details)"

definition newest :: "('r \<Rightarrow> int) \<Rightarrow> 'r list \<Rightarrow> 'r list" where
  "newest key rows = order_by (\<lambda>r. - key r) rows"

text \<open>LIMIT n; a negative limit is none.\<close>

definition limit :: "int \<Rightarrow> 'r list \<Rightarrow> 'r list" where
  "limit n rows = (if n < 0 then rows else take (nat n) rows)"

definition ListEvents :: "int \<Rightarrow> ('s db_scheme, event_view list) act" where
  "ListEvents n = query (\<lambda>t. map (event_view_of t) (limit n (newest ev_ID (t_event t))))"

definition ListDeviceEvents :: "int \<Rightarrow> int \<Rightarrow> ('s db_scheme, event_view list) act" where
  "ListDeviceEvents dev n = query (\<lambda>t. map (event_view_of t)
     (limit n (newest ev_ID (filter (\<lambda>e. ev_DeviceID e = Some dev) (t_event t)))))"

record event_filter =
  ef_Type :: string
  ef_DetailPrefixes :: "string list"
  ef_NotDetailPrefixes :: "string list"
  ef_Device :: string
  ef_Since :: "stamp option"
  ef_Until :: "stamp option"
  ef_BeforeID :: int
  ef_Limit :: int

definition event_match :: "dialect \<Rightarrow> event_filter \<Rightarrow> event_view \<Rightarrow> bool" where
  "event_match d f e \<longleftrightarrow>
     (ef_Type f \<noteq> [] \<longrightarrow> ev_Type e = ef_Type f) \<and>
     (ef_DetailPrefixes f \<noteq> [] \<longrightarrow> list_ex (\<lambda>p. sql_like d (likeEscape p @ ''%'') (ev_Details e)) (ef_DetailPrefixes f)) \<and>
     list_all (\<lambda>p. \<not> sql_like d (likeEscape p @ ''%'') (ev_Details e)) (ef_NotDetailPrefixes f) \<and>
     (ef_Device f \<noteq> [] \<longrightarrow> (case ev_DeviceName e of None \<Rightarrow> False
        | Some n \<Rightarrow> sql_like d (''%'' @ likeEscape (to_lower (ef_Device f)) @ ''%'') (to_lower n))) \<and>
     (case ef_Since f of None \<Rightarrow> True | Some s \<Rightarrow> s \<le> ev_TS e) \<and>
     (case ef_Until f of None \<Rightarrow> True | Some u \<Rightarrow> ev_TS e < u)"

text \<open>
  A page of a log, newest first: the rows that match and are older than the cursor, one more
  than the limit fetched to know whether there are more.
\<close>

definition newest_page :: "('r \<Rightarrow> int) \<Rightarrow> ('r \<Rightarrow> bool) \<Rightarrow> int \<Rightarrow> int \<Rightarrow> 'r list \<Rightarrow> 'r list \<times> bool" where
  "newest_page key P before n rows =
     (let k = nat (if n \<le> 0 then 50 else n);
          out = take (k + 1) (newest key (filter (\<lambda>r. P r \<and> (0 < before \<longrightarrow> key r < before)) rows))
      in (take k out, k < length out))"

definition ListEventsFiltered :: "dialect \<Rightarrow> event_filter \<Rightarrow> ('s db_scheme, event_view list \<times> bool) act" where
  "ListEventsFiltered d f = query (\<lambda>t.
     newest_page ev_ID (event_match d f) (ef_BeforeID f) (ef_Limit f) (map (event_view_of t) (t_event t)))"

section \<open>The audit log\<close>

record audit_filter =
  lf_Username :: string
  lf_Action :: string
  lf_BeforeID :: int
  lf_Limit :: int

text \<open>\<open>AddAudit\<close>: the entry's id is the database's, a missing time is now.\<close>

definition AddAudit :: "time \<Rightarrow> time option \<Rightarrow> audit_entry \<Rightarrow> ('s db_scheme, unit) act" where
  "AddAudit now at' e = stmt (\<lambda>t.
     if \<not> parent_ok (au_UserID e) (map us_ID (t_user t)) then Inl ErrForeignKey
     else Inr ((), t\<lparr>t_audit := t_audit t @ [e\<lparr>au_ID := next_id (map au_ID (t_audit t)),
            au_At := rfc3339 (case at' of None \<Rightarrow> now | Some x \<Rightarrow> x)\<rparr>]\<rparr>))"

definition audit_match :: "audit_filter \<Rightarrow> audit_entry \<Rightarrow> bool" where
  "audit_match f e \<longleftrightarrow> (lf_Username f \<noteq> [] \<longrightarrow> au_Username e = lf_Username f) \<and>
     (lf_Action f \<noteq> [] \<longrightarrow> au_Action e = lf_Action f)"

definition ListAudit :: "audit_filter \<Rightarrow> ('s db_scheme, audit_entry list \<times> bool) act" where
  "ListAudit f = query (\<lambda>t. newest_page au_ID (audit_match f) (lf_BeforeID f) (lf_Limit f) (t_audit t))"

definition distinctAudit :: "(audit_entry \<Rightarrow> string) \<Rightarrow> ('s db_scheme, string list) act" where
  "distinctAudit col = query (\<lambda>t. sort (remdups (filter (\<lambda>v. v \<noteq> []) (map col (t_audit t)))))"

definition AuditFacets :: "('s db_scheme, string list \<times> string list) act" where
  "AuditFacets = bindA (distinctAudit au_Username) (\<lambda>us.
     bindA (distinctAudit au_Action) (\<lambda>as. ret (us, as)))"

definition PruneAudit :: "time \<Rightarrow> ('s db_scheme, nat) act" where
  "PruneAudit cutoff = exec (\<lambda>t. (count_where (\<lambda>a. au_At a < rfc3339 cutoff) (t_audit t),
     t\<lparr>t_audit := del_where (\<lambda>a. au_At a < rfc3339 cutoff) (t_audit t)\<rparr>))"

section \<open>Retention\<close>

record retention_result =
  rr_Sessions :: nat
  rr_APITokens :: nat
  rr_Events :: nat
  rr_Availability :: nat

definition Total :: "retention_result \<Rightarrow> nat" where
  "Total r = rr_Sessions r + rr_APITokens r + rr_Events r + rr_Availability r"

definition PruneExpiredSessions :: "time \<Rightarrow> ('s db_scheme, nat) act" where
  "PruneExpiredSessions now = exec (del_session (\<lambda>s. se_ExpiresAt s \<le> rfc3339 now))"

definition PruneEvents :: "time \<Rightarrow> ('s db_scheme, nat) act" where
  "PruneEvents cutoff = exec (\<lambda>t. (count_where (\<lambda>e. ev_TS e < rfc3339 cutoff) (t_event t),
     t\<lparr>t_event := del_where (\<lambda>e. ev_TS e < rfc3339 cutoff) (t_event t)\<rparr>))"

definition PruneAvailability :: "time \<Rightarrow> ('s db_scheme, nat) act" where
  "PruneAvailability cutoff = exec (\<lambda>t. (count_where (\<lambda>a. av_Bucket a < rfc3339 cutoff) (t_avail t),
     t\<lparr>t_avail := del_where (\<lambda>a. av_Bucket a < rfc3339 cutoff) (t_avail t)\<rparr>))"

text \<open>\<open>now.AddDate(0, 0, -n)\<close>: the clock is UTC, where a day is 24 hours.\<close>

definition days_before :: "time \<Rightarrow> int \<Rightarrow> time" where
  "days_before now n = now - n * day"

definition Prune :: "time \<Rightarrow> int \<Rightarrow> int \<Rightarrow> ('s db_scheme, retention_result) act" where
  "Prune now eventDays availabilityDays =
     bindA (PruneExpiredSessions now) (\<lambda>ss.
     bindA (PruneExpiredAPITokens now) (\<lambda>ts.
     bindA (if 0 < eventDays then PruneEvents (days_before now eventDays) else ret 0) (\<lambda>es.
     bindA (if 0 < availabilityDays then PruneAvailability (days_before now availabilityDays) else ret 0) (\<lambda>as.
     ret \<lparr>rr_Sessions = ss, rr_APITokens = ts, rr_Events = es, rr_Availability = as\<rparr>))))"

section \<open>An escaped text matches itself\<close>

lemma backslash_special: "backslash \<noteq> CHR ''%''" "backslash \<noteq> CHR ''_''"
  by (simp_all add: backslash_def)

text \<open>Matching an escaped text consumes exactly that text, up to the backend's equality.\<close>

lemma like_escape_prefix:
  "sql_like d (likeEscape p @ q) s \<longleftrightarrow>
     length p \<le> length s \<and> list_all2 (like_eq d) p (take (length p) s) \<and> sql_like d q (drop (length p) s)"
proof (induction p arbitrary: s)
  case (Cons c p)
  have "sql_like d (likeEscape (c # p) @ q) s =
      (case s of [] \<Rightarrow> False | y # s' \<Rightarrow> like_eq d c y \<and> sql_like d (likeEscape p @ q) s')"
    using backslash_special by (auto simp: likeEscape_def split: list.splits)
  then show ?case using Cons.IH by (auto split: list.splits)
qed (simp add: likeEscape_def)

lemma like_any: "sql_like d ''%'' s"
  by (induction s) (simp_all add: backslash_def)

lemma like_any_then: "sql_like d (CHR ''%'' # p) s \<longleftrightarrow> (\<exists>i \<le> length s. sql_like d p (drop i s))"
proof (induction s)
  case Nil
  then show ?case by (simp add: backslash_def)
next
  case (Cons y s)
  have "sql_like d (CHR ''%'' # p) (y # s) \<longleftrightarrow> sql_like d p (y # s) \<or> sql_like d (CHR ''%'' # p) s"
    by (simp add: backslash_def)
  also have "\<dots> \<longleftrightarrow> (\<exists>i \<le> length (y # s). sql_like d p (drop i (y # s)))"
    unfolding Cons.IH
  proof safe
    show "\<exists>i\<le>length (y # s). sql_like d p (drop i (y # s))" if "sql_like d p (y # s)"
      using that by (intro exI [of _ 0]) simp
    show "\<exists>i\<le>length (y # s). sql_like d p (drop i (y # s))" if "i \<le> length s" "sql_like d p (drop i s)" for i
      using that by (intro exI [of _ "Suc i"]) simp
    fix i assume "i \<le> length (y # s)" "sql_like d p (drop i (y # s))" "\<nexists>i. i \<le> length s \<and> sql_like d p (drop i s)"
    then show "sql_like d p (y # s)" by (cases i) auto
  qed
  finally show ?case .
qed

lemma like_eq_all: "list_all2 (like_eq d) p s \<longleftrightarrow> (case d of SQLite \<Rightarrow> to_lower p = to_lower s | Postgres \<Rightarrow> p = s)"
proof (cases d)
  case SQLite
  then have "like_eq d = (\<lambda>a b. lower_char a = lower_char b)" by (simp add: like_eq_def fun_eq_iff)
  then show ?thesis using SQLite
    by (simp add: to_lower_def list_all2_conv_all_nth list_eq_iff_nth_eq) (metis nth_map)
next
  case Postgres
  then have "like_eq d = (=)" by (simp add: like_eq_def fun_eq_iff)
  then show ?thesis using Postgres by (simp add: list_all2_eq)
qed

text \<open>
  Escaping makes any text literal in a LIKE pattern: the escaped text followed by a percent
  sign matches the strings that begin with that text, and between two percent signs those that
  contain it, whatever wildcards and backslashes it is made of. On SQLite the case of letters
  does not matter, on Postgres it does.
\<close>

theorem likeEscape_literal:
  fixes p s :: string
  defines "lit \<equiv> (\<lambda>d x. case d of SQLite \<Rightarrow> to_lower x | Postgres \<Rightarrow> x)"
  shows "sql_like d (likeEscape p @ ''%'') s = prefix (lit d p) (lit d s) \<and>
         sql_like d (''%'' @ likeEscape p @ ''%'') s = sublist (lit d p) (lit d s)"
proof -
  have len: "length (lit d x) = length x" and drop: "lit d (drop i x) = drop i (lit d x)"
    and take: "lit d (take i x) = take i (lit d x)" for i x
    by (cases d; simp add: lit_def to_lower_def drop_map take_map)+
  have pre: "sql_like d (likeEscape p @ ''%'') u = prefix (lit d p) (lit d u)" for u
  proof -
    have "sql_like d (likeEscape p @ ''%'') u \<longleftrightarrow> length p \<le> length u \<and> lit d p = take (length p) (lit d u)"
      unfolding like_escape_prefix like_eq_all take [symmetric]
      by (cases d) (simp_all add: lit_def like_any del: sql_like.simps)
    also have "\<dots> \<longleftrightarrow> prefix (lit d p) (lit d u)"
      by (metis len prefix_length_le prefix_def append_eq_conv_conj take_is_prefix)
    finally show ?thesis .
  qed
  have "sql_like d (''%'' @ likeEscape p @ ''%'') s \<longleftrightarrow> (\<exists>i \<le> length s. prefix (lit d p) (drop i (lit d s)))"
    using like_any_then [of d "likeEscape p @ ''%''" s] by (simp add: pre drop)
  also have "\<dots> \<longleftrightarrow> sublist (lit d p) (lit d s)"
    unfolding sublist_def
  proof safe
    fix i assume "prefix (lit d p) (drop i (lit d s))"
    then obtain z where "drop i (lit d s) = lit d p @ z" by (auto simp: prefix_def)
    then show "\<exists>ps ss. lit d s = ps @ lit d p @ ss" by (metis append_take_drop_id)
  next
    fix ps ss assume e: "lit d s = ps @ lit d p @ ss"
    then have "length ps \<le> length s" using len [of s] by simp
    then show "\<exists>i\<le>length s. prefix (lit d p) (drop i (lit d s))"
      using e by (intro exI [of _ "length ps"]) simp
  qed
  finally show ?thesis using pre by simp
qed

section \<open>The pages of a log are the log\<close>

text \<open>Paging backwards with the last id of each page as the next cursor.\<close>

fun walk_pages :: "nat \<Rightarrow> ('r \<Rightarrow> int) \<Rightarrow> (int \<Rightarrow> 'r list \<times> bool) \<Rightarrow> int \<Rightarrow> 'r list" where
  "walk_pages 0 key q before = []"
| "walk_pages (Suc k) key q before =
     (case q before of (out, rest) \<Rightarrow> out @ (if rest then walk_pages k key q (key (last out)) else []))"

definition desc :: "('r \<Rightarrow> int) \<Rightarrow> 'r list \<Rightarrow> bool" where
  "desc key xs \<longleftrightarrow> sorted_wrt (\<lambda>a b. key b < key a) xs"

lemma newest_filter: "newest key (filter P xs) = filter P (newest key xs)"
  by (simp add: newest_def order_by_def filter_sort)

lemma newest_desc:
  assumes "distinct (map key rows)"
  shows "desc key (newest key rows)"
proof -
  let ?xs = "newest key rows"
  have "sorted (map (\<lambda>r. - key r) ?xs)" by (simp add: newest_def order_by_def)
  then have "sorted_wrt (\<lambda>a b. key b \<le> key a) ?xs" by (simp add: sorted_map)
  moreover have "distinct (map key ?xs)"
    using assms by (simp add: newest_def order_by_def distinct_map)
  then have "sorted_wrt (\<lambda>a b. key a \<noteq> key b) ?xs"
    by (simp add: distinct_conv_nth sorted_wrt_iff_nth_less)
  ultimately show ?thesis unfolding desc_def sorted_wrt_iff_nth_less by force
qed

lemma desc_after:
  assumes "desc key xs" and "0 < k" and "k < length xs"
  shows "filter (\<lambda>r. key r < key (xs ! (k - 1))) xs = drop k xs"
proof -
  have lt: "key (xs ! j) < key (xs ! i)" if "i < j" "j < length xs" for i j
    using assms(1) that unfolding desc_def sorted_wrt_iff_nth_less by blast
  have "\<not> key (xs ! i) < key (xs ! (k - 1))" if "i < k" for i
  proof (cases "i = k - 1")
    case False
    then have "i < k - 1" "k - 1 < length xs" using that assms(3) by simp_all
    then show ?thesis using lt [of i "k - 1"] by simp
  qed simp
  then have "filter (\<lambda>r. key r < key (xs ! (k - 1))) (take k xs) = []"
    by (auto simp: filter_empty_conv in_set_conv_nth)
  moreover have "filter (\<lambda>r. key r < key (xs ! (k - 1))) (drop k xs) = drop k xs"
    using lt assms(2,3) by (auto simp: filter_id_conv in_set_conv_nth)
  ultimately show ?thesis by (metis append_Nil append_take_drop_id filter_append)
qed

lemma walk_pages_all:
  assumes "distinct (map key rows)" and "\<And>r. r \<in> set rows \<Longrightarrow> 0 < key r"
    and "length (filter (\<lambda>r. P r \<and> (0 < b \<longrightarrow> key r < b)) rows) < k"
  shows "walk_pages k key (\<lambda>b. newest_page key P b n rows) b
    = newest key (filter (\<lambda>r. P r \<and> (0 < b \<longrightarrow> key r < b)) rows)"
  using assms(3)
proof (induction k arbitrary: b)
  case (Suc k)
  define m where "m = nat (if n \<le> 0 then 50 else n)"
  define S where "S = newest key (filter (\<lambda>r. P r \<and> (0 < b \<longrightarrow> key r < b)) rows)"
  have m: "0 < m" by (simp add: m_def)
  have page: "newest_page key P b n rows = (take m S, m < length S)"
    by (simp add: newest_page_def m_def S_def Let_def min_absorb1 less_Suc_eq)
  show ?case
  proof (cases "m < length S")
    case False
    then show ?thesis by (simp add: page S_def [symmetric])
  next
    case True
    let ?c = "key (S ! (m - 1))"
    have last: "last (take m S) = S ! (m - 1)" using True m by (subst last_conv_nth) (auto simp: min_def)
    have mem: "S ! (m - 1) \<in> set (filter (\<lambda>r. P r \<and> (0 < b \<longrightarrow> key r < b)) rows)"
    proof -
      have "m - 1 < length S" using True m by simp
      then have "S ! (m - 1) \<in> set S" by (rule nth_mem)
      also have "set S = set (filter (\<lambda>r. P r \<and> (0 < b \<longrightarrow> key r < b)) rows)"
        unfolding S_def newest_def order_by_def by (rule set_sort)
      finally show ?thesis .
    qed
    then have c: "0 < ?c" "0 < b \<longrightarrow> ?c < b" using assms(2) by auto
    have "filter (\<lambda>r. P r \<and> (0 < ?c \<longrightarrow> key r < ?c)) rows
      = filter (\<lambda>r. key r < ?c) (filter (\<lambda>r. P r \<and> (0 < b \<longrightarrow> key r < b)) rows)"
      using c by (auto intro: filter_cong)
    then have rest: "newest key (filter (\<lambda>r. P r \<and> (0 < ?c \<longrightarrow> key r < ?c)) rows) = drop m S"
      using desc_after [of key S m] m True newest_desc [of key "filter (\<lambda>r. P r \<and> (0 < b \<longrightarrow> key r < b)) rows"]
        distinct_map_filterI [OF assms(1)] by (simp only: newest_filter [symmetric] S_def)
    have len: "length (filter (\<lambda>r. P r \<and> (0 < ?c \<longrightarrow> key r < ?c)) rows) = length S - m"
      using arg_cong [OF rest, of length] by (simp add: newest_def order_by_def)
    have "length S < Suc k" using Suc.prems by (simp add: S_def newest_def order_by_def)
    then have "walk_pages k key (\<lambda>b. newest_page key P b n rows) ?c = drop m S"
      using Suc.IH [of ?c] len rest m True by simp
    then show ?thesis using True last by (simp add: page S_def [symmetric])
  qed
qed simp

definition event_page :: "dialect \<Rightarrow> event_filter \<Rightarrow> 's db_scheme \<Rightarrow> int \<Rightarrow> event_view list \<times> bool" where
  "event_page d f s before =
     (case fst (ListEventsFiltered d (f\<lparr>ef_BeforeID := before\<rparr>) s) of Inr p \<Rightarrow> p | Inl _ \<Rightarrow> ([], False))"

lemma event_match_before: "event_match d (f\<lparr>ef_BeforeID := b\<rparr>) = event_match d f"
  by (simp add: fun_eq_iff event_match_def cong: option.case_cong)

text \<open>
  Paging backwards through the event log, with the last id of a page as the next cursor,
  ends and yields every event the filter matches exactly once, newest first, whatever the
  page size.
\<close>

theorem event_pages_complete:
  fixes s :: "'s db_scheme"
  assumes "calm s" and "distinct (map ev_ID (t_event (tabs s)))" and "\<forall>e \<in> set (t_event (tabs s)). 0 < ev_ID e"
    and "length (t_event (tabs s)) < k"
  shows "walk_pages k ev_ID (event_page d f s) 0 =
    newest ev_ID (filter (event_match d f) (map (event_view_of (tabs s)) (t_event (tabs s))))"
proof -
  let ?rows = "map (event_view_of (tabs s)) (t_event (tabs s))"
  have id: "ev_ID (event_view_of (tabs s) e) = ev_ID e" for e
    by (simp add: event_view_of_def event.extend_def)
  have "event_page d f s = (\<lambda>b. newest_page ev_ID (event_match d f) b (ef_Limit f) ?rows)"
    using assms(1) by (simp add: fun_eq_iff event_page_def ListEventsFiltered_def act_simps event_match_before)
  then have "walk_pages k ev_ID (event_page d f s) 0 =
      newest ev_ID (filter (\<lambda>r. event_match d f r \<and> (0 < (0::int) \<longrightarrow> ev_ID r < 0)) ?rows)"
    using assms(2-4) by (simp only:, intro walk_pages_all)
      (auto simp: id comp_def intro: le_less_trans [OF length_filter_le])
  then show ?thesis by simp
qed

definition event_db :: db where
  "event_db = sample_db\<lparr>tabs := sample_tables\<lparr>t_event :=
     map (\<lambda>i. \<lparr>ev_ID = i, ev_TS = i, ev_Type = ''online'', ev_DeviceID = Some 1, ev_Details = []\<rparr>) [1, 2, 3]\<rparr>\<rparr>"

definition no_filter :: event_filter where
  "no_filter = \<lparr>ef_Type = [], ef_DetailPrefixes = [], ef_NotDetailPrefixes = [], ef_Device = [],
     ef_Since = None, ef_Until = None, ef_BeforeID = 0, ef_Limit = 2\<rparr>"

lemma event_pages_complete_witness:
  "map ev_ID (walk_pages 4 ev_ID (event_page SQLite no_filter event_db) 0) = [3, 2, 1]"
proof -
  have "walk_pages 4 ev_ID (event_page SQLite no_filter event_db) 0 = newest ev_ID
      (filter (event_match SQLite no_filter) (map (event_view_of (tabs event_db)) (t_event (tabs event_db))))"
    by (rule event_pages_complete) (simp_all add: calm_def event_db_def sample_db_def)
  then show ?thesis
    by (simp add: event_db_def newest_def order_by_def no_filter_def event_match_def event_view_of_def event.extend_def)
qed

section \<open>Retention removes what is due and nothing else\<close>

lemma exec_InrD: "exec f s = (Inr n, s') \<Longrightarrow> tabs s' = snd (f (tabs s)) \<and> n = fst (f (tabs s))"
  by (auto simp: exec_def dest!: stmt_InrD)

lemma count_rest: "count_where P xs + length (filter (\<lambda>x. \<not> P x) xs) = length xs"
  unfolding count_where_def by (rule sum_length_filter_compl)

lemma PruneExpiredSessions_D:
  "PruneExpiredSessions now s = (Inr n, s') \<Longrightarrow>
   tabs s' = (tabs s)\<lparr>t_session := filter (\<lambda>x. rfc3339 now < se_ExpiresAt x) (t_session (tabs s))\<rparr> \<and>
   n + length (t_session (tabs s')) = length (t_session (tabs s))"
  using count_rest [of "\<lambda>x. se_ExpiresAt x \<le> rfc3339 now"]
  by (auto simp: PruneExpiredSessions_def del_session_def del_where_def not_le dest!: exec_InrD)

lemma PruneExpiredAPITokens_D:
  assumes "PruneExpiredAPITokens now s = (Inr n, s')"
  shows "tabs s' = (tabs s)\<lparr>t_token :=
      filter (\<lambda>k. case at_ExpiresAt k of None \<Rightarrow> True | Some e \<Rightarrow> rfc3339 now < e) (t_token (tabs s))\<rparr> \<and>
    n + length (t_token (tabs s')) = length (t_token (tabs s))"
proof -
  have "(\<lambda>k. case at_ExpiresAt k of None \<Rightarrow> True | Some e \<Rightarrow> rfc3339 now < e) =
      (\<lambda>k. \<not> (case at_ExpiresAt k of None \<Rightarrow> False | Some e \<Rightarrow> e \<le> rfc3339 now))"
    by (auto simp: fun_eq_iff split: option.splits)
  note e = this
  show ?thesis
    using assms count_rest [of "\<lambda>k. case at_ExpiresAt k of None \<Rightarrow> False | Some e \<Rightarrow> e \<le> rfc3339 now" "t_token (tabs s)"]
    unfolding e by (auto simp: PruneExpiredAPITokens_def Let_def del_where_def dest!: exec_InrD)
qed

lemma PruneEvents_D:
  "(if 0 < ed then PruneEvents (days_before now ed) else ret 0) s = (Inr n, s') \<Longrightarrow>
   tabs s' = (tabs s)\<lparr>t_event := filter (\<lambda>e. ed \<le> 0 \<or> rfc3339 (now - ed * day) \<le> ev_TS e) (t_event (tabs s))\<rparr> \<and>
   n + length (t_event (tabs s')) = length (t_event (tabs s))"
  using count_rest [of "\<lambda>e. ev_TS e < rfc3339 (now - ed * day)"]
  by (auto simp: PruneEvents_def days_before_def del_where_def not_less not_le dest!: exec_InrD split: if_splits)

lemma PruneAvailability_D:
  "(if 0 < ad then PruneAvailability (days_before now ad) else ret 0) s = (Inr n, s') \<Longrightarrow>
   tabs s' = (tabs s)\<lparr>t_avail := filter (\<lambda>e. ad \<le> 0 \<or> rfc3339 (now - ad * day) \<le> av_Bucket e) (t_avail (tabs s))\<rparr> \<and>
   n + length (t_avail (tabs s')) = length (t_avail (tabs s))"
  using count_rest [of "\<lambda>e. av_Bucket e < rfc3339 (now - ad * day)"]
  by (auto simp: PruneAvailability_def days_before_def del_where_def not_less not_le dest!: exec_InrD split: if_splits)

text \<open>
  A retention sweep that succeeds has removed exactly the sessions and tokens that have
  expired, and the events and availability hours older than their horizons; a horizon of zero
  days keeps everything of its kind, and no other table changes.
\<close>

theorem Prune_exact:
  "case Prune now ed ad s of (Inl e, s') \<Rightarrow> True | (Inr r, s') \<Rightarrow>
     tabs s' = (tabs s)
       \<lparr>t_session := filter (\<lambda>x. rfc3339 now < se_ExpiresAt x) (t_session (tabs s)),
        t_token := filter (\<lambda>k. case at_ExpiresAt k of None \<Rightarrow> True | Some e \<Rightarrow> rfc3339 now < e) (t_token (tabs s)),
        t_event := filter (\<lambda>e. ed \<le> 0 \<or> rfc3339 (now - ed * day) \<le> ev_TS e) (t_event (tabs s)),
        t_avail := filter (\<lambda>a. ad \<le> 0 \<or> rfc3339 (now - ad * day) \<le> av_Bucket a) (t_avail (tabs s))\<rparr> \<and>
     Total r + length (t_session (tabs s')) + length (t_token (tabs s')) + length (t_event (tabs s')) + length (t_avail (tabs s'))
       = length (t_session (tabs s)) + length (t_token (tabs s)) + length (t_event (tabs s)) + length (t_avail (tabs s))"
  (is "case ?p of (Inl e, s') \<Rightarrow> True | (Inr r, s') \<Rightarrow> ?Q r s'")
proof (cases ?p)
  case (Pair x s')
  show ?thesis
  proof (cases x)
    case (Inr r)
    have "Prune now ed ad s = (Inr r, s')" using Pair Inr by simp
    then obtain n1 n2 n3 n4 s1 s2 s3 where
      "PruneExpiredSessions now s = (Inr n1, s1)" "PruneExpiredAPITokens now s1 = (Inr n2, s2)"
      "(if 0 < ed then PruneEvents (days_before now ed) else ret 0) s2 = (Inr n3, s3)"
      "(if 0 < ad then PruneAvailability (days_before now ad) else ret 0) s3 = (Inr n4, s')"
      and r: "r = \<lparr>rr_Sessions = n1, rr_APITokens = n2, rr_Events = n3, rr_Availability = n4\<rparr>"
      unfolding Prune_def by (elim bindA_InrE) simp
    note D = PruneExpiredSessions_D [OF this(1)] PruneExpiredAPITokens_D [OF this(2)]
      PruneEvents_D [OF this(3)] PruneAvailability_D [OF this(4)]
    have "length (t_session (tabs s')) = length (t_session (tabs s1))" "length (t_token (tabs s')) = length (t_token (tabs s2))"
      "length (t_event (tabs s')) = length (t_event (tabs s3))" "length (t_token (tabs s1)) = length (t_token (tabs s))"
      "length (t_event (tabs s2)) = length (t_event (tabs s))" "length (t_avail (tabs s3)) = length (t_avail (tabs s))"
      using D by simp_all
    then have "Total r + length (t_session (tabs s')) + length (t_token (tabs s')) + length (t_event (tabs s')) + length (t_avail (tabs s'))
       = length (t_session (tabs s)) + length (t_token (tabs s)) + length (t_event (tabs s)) + length (t_avail (tabs s))"
      using D unfolding Total_def r retention_result.simps by (elim conjE) linarith
    moreover have "tabs s' = (tabs s)
       \<lparr>t_session := filter (\<lambda>x. rfc3339 now < se_ExpiresAt x) (t_session (tabs s)),
        t_token := filter (\<lambda>k. case at_ExpiresAt k of None \<Rightarrow> True | Some e \<Rightarrow> rfc3339 now < e) (t_token (tabs s)),
        t_event := filter (\<lambda>e. ed \<le> 0 \<or> rfc3339 (now - ed * day) \<le> ev_TS e) (t_event (tabs s)),
        t_avail := filter (\<lambda>a. ad \<le> 0 \<or> rfc3339 (now - ad * day) \<le> av_Bucket a) (t_avail (tabs s))\<rparr>"
      using D by simp
    ultimately have "?Q r s'" by blast
    then show ?thesis unfolding Pair Inr prod.case sum.case .
  qed (use Pair in simp)
qed

end
