(* ===== verification/Event_Broker.thy ===== *)
theory Event_Broker
  imports Store_Event "HOL-Library.AList"
begin

text \<open>
  internal/events: the broker, which hands every published message to the subscribers that have
  room for it, and the event service, which records an event before anyone hears of it. In Go a
  send on a closed channel and a second close panic; here they are the outcome None of a step.
\<close>

section \<open>The broker\<close>

type_synonym msg = "string \<times> string"

definition chan_cap :: nat where "chan_cap = 16"

text \<open>
  Channels by number: buffered messages, whether it is closed, and what its reader took out. The
  subscribers are the channels in \<open>subs\<close>.
\<close>

record chan =
  ch_buf :: "msg list"
  ch_closed :: bool
  ch_taken :: "msg list"

record broker =
  chans :: "chan list"
  subs :: "nat list"

definition NewBroker :: broker where
  "NewBroker = \<lparr>chans = [], subs = []\<rparr>"

datatype broker_op = Subscribe | Cancel nat | Publish string string | Receive nat

text \<open>Sending without waiting: a full buffer drops the message, a closed channel panics.\<close>

definition try_send :: "msg \<Rightarrow> nat \<Rightarrow> broker \<Rightarrow> broker option" where
  "try_send m i b =
     (if ch_closed (chans b ! i) then None
      else if chan_cap \<le> length (ch_buf (chans b ! i)) then Some b
      else Some (b\<lparr>chans := (chans b)[i := (chans b ! i)\<lparr>ch_buf := ch_buf (chans b ! i) @ [m]\<rparr>]\<rparr>))"

fun send_all :: "msg \<Rightarrow> nat list \<Rightarrow> broker \<Rightarrow> broker option" where
  "send_all m [] b = Some b"
| "send_all m (i # is) b = (case try_send m i b of None \<Rightarrow> None | Some b' \<Rightarrow> send_all m is b')"

definition close_chan :: "nat \<Rightarrow> broker \<Rightarrow> broker option" where
  "close_chan i b = (if ch_closed (chans b ! i) then None
     else Some (b\<lparr>chans := (chans b)[i := (chans b ! i)\<lparr>ch_closed := True\<rparr>]\<rparr>))"

text \<open>
  The operations, each under the broker's lock. A reader takes the oldest message of its channel,
  if there is one; numbers no channel has do not occur in the program and change nothing.
\<close>

fun broker_step :: "broker_op \<Rightarrow> broker \<Rightarrow> broker option" where
  "broker_step Subscribe b =
     Some (b\<lparr>chans := chans b @ [\<lparr>ch_buf = [], ch_closed = False, ch_taken = []\<rparr>], subs := subs b @ [length (chans b)]\<rparr>)"
| "broker_step (Cancel i) b =
     (if i \<in> set (subs b) then close_chan i (b\<lparr>subs := removeAll i (subs b)\<rparr>) else Some b)"
| "broker_step (Publish topic data) b = send_all (topic, data) (subs b) b"
| "broker_step (Receive i) b =
     (if i < length (chans b) \<and> ch_buf (chans b ! i) \<noteq> []
      then Some (b\<lparr>chans := (chans b)[i := (chans b ! i)\<lparr>ch_buf := tl (ch_buf (chans b ! i)),
             ch_taken := ch_taken (chans b ! i) @ [hd (ch_buf (chans b ! i))]\<rparr>]\<rparr>)
      else Some b)"

fun broker_run :: "broker_op list \<Rightarrow> broker \<Rightarrow> broker option" where
  "broker_run [] b = Some b"
| "broker_run (op # ops) b = (case broker_step op b of None \<Rightarrow> None | Some b' \<Rightarrow> broker_run ops b')"

section \<open>The event service\<close>

text \<open>The service's effects outside the database: published messages and notified events, in order.\<close>

record svc = db +
  published :: "msg list"
  notified :: "(string \<times> int option \<times> string) list"

definition publish :: "string \<Rightarrow> string \<Rightarrow> ('s svc_scheme, unit) act" where
  "publish topic data s = (Inr (), s\<lparr>published := published s @ [(topic, data)]\<rparr>)"

definition notify :: "string \<Rightarrow> int option \<Rightarrow> string \<Rightarrow> ('s svc_scheme, unit) act" where
  "notify typ dev details s = (Inr (), s\<lparr>notified := notified s @ [(typ, dev, details)]\<rparr>)"

definition Emit :: "time \<Rightarrow> string \<Rightarrow> int option \<Rightarrow> string \<Rightarrow> ('s svc_scheme, unit) act" where
  "Emit now typ dev details =
     bindA (attempt (AddEvent (rfc3339 now) typ dev details)) (\<lambda>r. case r of
       Inl _ \<Rightarrow> ret ()
     | Inr _ \<Rightarrow> thenA (publish ''events'' details) (notify typ dev details))"

section \<open>The broker never panics, never blocks and never reorders\<close>

text \<open>
  The invariant against the list of all messages published so far: subscribers are distinct open
  channels, no buffer is over its capacity, and what a channel ever got is a subsequence of what
  was published.
\<close>

definition broker_ok :: "msg list \<Rightarrow> broker \<Rightarrow> bool" where
  "broker_ok sent b \<longleftrightarrow> distinct (subs b) \<and>
     (\<forall>i \<in> set (subs b). i < length (chans b) \<and> \<not> ch_closed (chans b ! i)) \<and>
     (\<forall>c \<in> set (chans b). length (ch_buf c) \<le> chan_cap \<and> subseq (ch_taken c @ ch_buf c) sent)"

lemma broker_ok_upd:
  assumes "broker_ok sent b" and "i < length (chans b)" and "ch_closed c = ch_closed (chans b ! i)"
    and "length (ch_buf c) \<le> chan_cap" and "subseq (ch_taken c @ ch_buf c) sent"
  shows "broker_ok sent (b\<lparr>chans := (chans b)[i := c]\<rparr>)"
  using assms set_update_subset_insert [of "chans b" i c]
  by (fastforce simp: broker_ok_def nth_list_update)

lemma broker_ok_sent: "broker_ok sent b \<Longrightarrow> broker_ok (sent @ [m]) b"
  by (auto simp: broker_ok_def subseq_append_le_same_iff intro: list_emb_append2 subseq_rev_drop_many)

text \<open>One turn of the publishing loop: the channels still to serve have nothing of \<open>m\<close> yet.\<close>

lemma send_all_ok:
  assumes "broker_ok (sent @ [m]) b" and "distinct is" and "set is \<subseteq> set (subs b)"
    and "\<And>i. i \<in> set is \<Longrightarrow> subseq (ch_taken (chans b ! i) @ ch_buf (chans b ! i)) sent"
  shows "\<exists>b'. send_all m is b = Some b' \<and> broker_ok (sent @ [m]) b'"
  using assms
proof (induction "is" arbitrary: b)
  case (Cons i "is")
  let ?c = "(chans b ! i)\<lparr>ch_buf := ch_buf (chans b ! i) @ [m]\<rparr>"
  have i: "i < length (chans b)" "\<not> ch_closed (chans b ! i)" using Cons.prems by (auto simp: broker_ok_def)
  show ?case
  proof (cases "chan_cap \<le> length (ch_buf (chans b ! i))")
    case True
    then show ?thesis using Cons.IH [OF Cons.prems(1)] Cons.prems i by (auto simp: try_send_def)
  next
    case False
    have "subseq ((ch_taken (chans b ! i) @ ch_buf (chans b ! i)) @ [m]) (sent @ [m])"
      using Cons.prems(4) [of i] by (intro list_emb_append_mono) simp_all
    then have "broker_ok (sent @ [m]) (b\<lparr>chans := (chans b)[i := ?c]\<rparr>)"
      using Cons.prems(1) i False by (intro broker_ok_upd) simp_all
    moreover have "(chans b)[i := ?c] ! j = chans b ! j" if "j \<in> set is" for j
      using Cons.prems(2) that by (auto intro: nth_list_update_neq)
    ultimately have "\<exists>b'. send_all m is (b\<lparr>chans := (chans b)[i := ?c]\<rparr>) = Some b' \<and> broker_ok (sent @ [m]) b'"
      using Cons.prems by (intro Cons.IH) auto
    then show ?thesis using i False by (simp add: try_send_def)
  qed
qed simp

definition sent_by :: "broker_op \<Rightarrow> msg list" where
  "sent_by op = (case op of Publish topic data \<Rightarrow> [(topic, data)] | _ \<Rightarrow> [])"

lemma broker_step_ok:
  assumes "broker_ok sent b"
  shows "\<exists>b'. broker_step op b = Some b' \<and> broker_ok (sent @ sent_by op) b'"
proof (cases op)
  case Subscribe
  then show ?thesis using assms by (fastforce simp: broker_ok_def sent_by_def nth_append)
next
  case (Cancel i)
  show ?thesis
  proof (cases "i \<in> set (subs b)")
    case True
    let ?c = "(chans b ! i)\<lparr>ch_closed := True\<rparr>"
    have i: "i < length (chans b)" "\<not> ch_closed (chans b ! i)" using assms True by (auto simp: broker_ok_def)
    have "broker_ok sent (b\<lparr>chans := (chans b)[i := ?c], subs := removeAll i (subs b)\<rparr>)"
      using assms i set_update_subset_insert [of "chans b" i ?c]
      by (fastforce simp: broker_ok_def nth_list_update distinct_removeAll)
    then show ?thesis using Cancel True i by (cases b) (simp add: close_chan_def sent_by_def)
  qed (use assms Cancel in \<open>simp add: sent_by_def\<close>)
next
  case (Publish topic data)
  have "subseq (ch_taken (chans b ! i) @ ch_buf (chans b ! i)) sent" if "i \<in> set (subs b)" for i
    using assms that by (simp add: broker_ok_def)
  then show ?thesis using send_all_ok [OF broker_ok_sent [OF assms], of "subs b"] assms Publish
    by (auto simp: sent_by_def broker_ok_def)
next
  case (Receive i)
  show ?thesis
  proof (cases "i < length (chans b) \<and> ch_buf (chans b ! i) \<noteq> []")
    case True
    let ?c = "(chans b ! i)\<lparr>ch_buf := tl (ch_buf (chans b ! i)), ch_taken := ch_taken (chans b ! i) @ [hd (ch_buf (chans b ! i))]\<rparr>"
    have "length (ch_buf (chans b ! i)) \<le> chan_cap" "subseq (ch_taken (chans b ! i) @ ch_buf (chans b ! i)) sent"
      using assms True by (simp_all add: broker_ok_def)
    then have "broker_ok sent (b\<lparr>chans := (chans b)[i := ?c]\<rparr>)"
      using assms True by (intro broker_ok_upd) simp_all
    then show ?thesis using Receive True by (simp add: sent_by_def)
  qed (use assms Receive in \<open>auto simp: sent_by_def\<close>)
qed

lemma broker_run_ok:
  "broker_ok sent b \<Longrightarrow> \<exists>b'. broker_run ops b = Some b' \<and> broker_ok (sent @ concat (map sent_by ops)) b'"
proof (induction ops arbitrary: sent b)
  case (Cons op ops)
  from broker_step_ok [OF Cons.prems] obtain b1 where
    1: "broker_step op b = Some b1" "broker_ok (sent @ sent_by op) b1" by blast
  from Cons.IH [OF 1(2)] 1(1) show ?case by auto
qed simp

text \<open>
  C10: Whatever subscribers come, go, read or stay idle, in any order, publishing neither panics
  nor blocks: every run of operations ends in a state, never sends on or closes a closed channel,
  holds at most 16 messages per subscriber, and each subscriber has got a subsequence of the
  published messages, in order and none twice.
\<close>

theorem broker_safe:
  "case broker_run ops NewBroker of
     None \<Rightarrow> False
   | Some b \<Rightarrow> list_all (\<lambda>c. length (ch_buf c) \<le> chan_cap \<and>
       subseq (ch_taken c @ ch_buf c) (concat (map sent_by ops))) (chans b)"
proof -
  have "broker_ok [] NewBroker" by (simp add: broker_ok_def NewBroker_def)
  from broker_run_ok [OF this, of ops] show ?thesis by (auto simp: broker_ok_def list_all_iff)
qed

text \<open>
  An event is heard of exactly when it is recorded: if the database takes it, the live page
  gets its details and the notifier the event, each once; if not, neither does.
\<close>

theorem Emit_records_first:
  "case Emit now typ dev details s of (r, s') \<Rightarrow> r = Inr () \<and>
     (if t_event (tabs s') = t_event (tabs s)
      then published s' = published s \<and> notified s' = notified s
      else map ev_Details (t_event (tabs s')) = map ev_Details (t_event (tabs s)) @ [details] \<and>
        published s' = published s @ [(''events'', details)] \<and> notified s' = notified s @ [(typ, dev, details)])"
proof (cases "AddEvent (rfc3339 now) typ dev details s")
  case (Pair r s1)
  show ?thesis
  proof (cases r)
    case (Inl e)
    then have "t_event (tabs s1) = t_event (tabs s) \<and> published s1 = published s \<and> notified s1 = notified s"
      using Pair by (auto simp: AddEvent_def stmt_def Let_def split: if_splits sum.splits)
    then show ?thesis using Pair Inl by (simp add: Emit_def bindA_def attempt_def)
  next
    case (Inr i)
    then have "(\<exists>e. t_event (tabs s1) = t_event (tabs s) @ [e] \<and> ev_Details e = details) \<and>
        published s1 = published s \<and> notified s1 = notified s"
      using Pair by (auto simp: AddEvent_def stmt_def Let_def ins_event_def split: if_splits sum.splits)
    then show ?thesis using Pair Inr
      by (auto simp: Emit_def bindA_def thenA_def attempt_def publish_def notify_def)
  qed
qed

end
