(* ===== verification/Net_Oui.thy ===== *)
theory Net_Oui
  imports GoStr
begin

text \<open>
  internal/macaddr and internal/oui: private (randomised) MAC addresses, the lookup of a MAC's
  maker by its longest registered prefix, and the short vendor name made from a registry entry.
  The regular expressions of the program are values of a small datatype with a matcher.
\<close>

section \<open>Regular expressions\<close>

text \<open>The operators the program's patterns use; a class is a predicate on characters.\<close>

datatype rx = Bol | Eol | Cls "char \<Rightarrow> bool" | Lit string | Seq rx rx | Alt rx rx | Opt rx | Plus "char \<Rightarrow> bool"

text \<open>The positions where a match that starts at \<open>i\<close> can end.\<close>

fun rx_ends :: "rx \<Rightarrow> string \<Rightarrow> nat \<Rightarrow> nat list" where
  "rx_ends Bol s i = (if i = 0 then [i] else [])"
| "rx_ends Eol s i = (if i = length s then [i] else [])"
| "rx_ends (Cls p) s i = (if i < length s \<and> p (s ! i) then [i + 1] else [])"
| "rx_ends (Lit w) s i = (if prefix w (drop i s) then [i + length w] else [])"
| "rx_ends (Seq a b) s i = concat (map (rx_ends b s) (rx_ends a s i))"
| "rx_ends (Alt a b) s i = rx_ends a s i @ rx_ends b s i"
| "rx_ends (Opt a) s i = rx_ends a s i @ [i]"
| "rx_ends (Plus p) s i = [i + 1 ..< i + 1 + length (takeWhile p (drop i s))]"

text \<open>\<open>MatchString\<close>, and where the leftmost match starts.\<close>

definition rx_find :: "rx \<Rightarrow> string \<Rightarrow> nat option" where
  "rx_find r s = List.find (\<lambda>i. rx_ends r s i \<noteq> []) [0..<Suc (length s)]"

definition rx_match :: "rx \<Rightarrow> string \<Rightarrow> bool" where
  "rx_match r s \<longleftrightarrow> rx_find r s \<noteq> None"

definition seqs :: "rx list \<Rightarrow> rx" where
  "seqs rs = foldr Seq rs (Lit [])"

definition alts :: "rx list \<Rightarrow> rx" where
  "alts rs = foldr Alt (butlast rs) (last rs)"

section \<open>Private addresses\<close>

definition stablePrefixes :: "string list" where
  "stablePrefixes = [''52:54:00'', ''02:42:'']"

definition IsPrivate :: "string \<Rightarrow> bool" where
  "IsPrivate mac0 =
     (let mac = to_lower (replace_char CHR ''-'' '':'' mac0) in
      if length mac < 2 then False
      else (case parse_uint16 (take 2 mac) 8 of
              None \<Rightarrow> False
            | Some first \<Rightarrow>
                if first mod 2 \<noteq> 0 \<or> first div 2 mod 2 = 0 then False
                else \<not> list_ex (\<lambda>p. prefix p mac) stablePrefixes))"

definition AnyPrivate :: "string list \<Rightarrow> bool" where
  "AnyPrivate macs = list_ex IsPrivate macs"

section \<open>The registry\<close>

definition extras :: "(string \<times> string) list" where
  "extras = [(''525400'', ''QEMU''), (''00155D'', ''Microsoft Hyper-V'')]"

text \<open>
  The lines of the embedded registry file are data: \<open>reg\<close> maps a prefix to the maker's name. The
  extras are written over it.
\<close>

definition load :: "(string \<rightharpoonup> string) \<Rightarrow> (string \<rightharpoonup> string)" where
  "load reg = foldl (\<lambda>m (k, v). m(k \<mapsto> v)) reg extras"

definition lookup_oui :: "(string \<rightharpoonup> string) \<Rightarrow> string \<Rightarrow> string" where
  "lookup_oui table mac =
     (let hex = to_upper (filter (\<lambda>c. c \<noteq> CHR '':'' \<and> c \<noteq> CHR ''-'' \<and> c \<noteq> CHR ''.'') mac) in
      case List.find (\<lambda>n. \<not> length hex < n \<and> table (take n hex) \<noteq> None) [9, 7, 6] of
        None \<Rightarrow> [] | Some n \<Rightarrow> the (table (take n hex)))"

definition Vendor :: "(string \<rightharpoonup> string) \<Rightarrow> string \<Rightarrow> string" where
  "Vendor reg mac = (if IsPrivate mac then [] else lookup_oui (load reg) mac)"

section \<open>Vendor names\<close>

text \<open>The class of white space in Go's patterns has no vertical tab.\<close>

definition rx_space :: "char \<Rightarrow> bool" where
  "rx_space c \<longleftrightarrow> is_space c \<and> c \<noteq> CHR 0x0B"

definition is_sep :: "char \<Rightarrow> bool" where
  "is_sep c \<longleftrightarrow> rx_space c \<or> c = CHR '','' \<or> c = CHR ''.''"

definition ci :: "string \<Rightarrow> rx" where
  "ci w = seqs (map (\<lambda>c. Cls (\<lambda>x. lower_char x = c)) w)"

text \<open>Words with optional dots between their letters, \<open>s\.?p\.?a\<close>, end without one.\<close>

definition dotted :: "string \<Rightarrow> rx" where
  "dotted w = seqs (concat (map (\<lambda>c. [ci [c], Opt (Lit ''.'')]) (butlast w)) @ [ci [last w]])"

definition legal_forms :: "rx list" where
  "legal_forms = map ci [''inc'', ''incorporated'', ''corp'', ''corporate'', ''corporation'', ''co'', ''company'',
       ''ltd'', ''limited'', ''llc'', ''l.l.c'', ''gmbh'', ''ag''] @ [dotted ''sa'', dotted ''spa'', dotted ''sas'',
       dotted ''bv'', dotted ''nv''] @ map ci [''oy'', ''ab'', ''a/s'', ''kg'', ''plc'', ''pty'', ''pte''] @
       [dotted ''srl'', dotted ''kk''] @ map ci [''sdn'', ''bhd'', ''technologies'', ''technology'', ''electronics'',
       ''international'', ''ind'']"

definition suffix_tail :: rx where
  "suffix_tail = Seq (alts legal_forms) (Seq (Opt (Lit ''.'')) Eol)"

definition suffixRe :: rx where
  "suffixRe = Seq (Plus is_sep) suffix_tail"

text \<open>The loop that strips suffixes; each turn shortens the name, so its length is fuel enough.\<close>

fun strip_suffixes :: "nat \<Rightarrow> string \<Rightarrow> string" where
  "strip_suffixes 0 s = s"
| "strip_suffixes (Suc n) s = (case rx_find suffixRe s of
     None \<Rightarrow> s
   | Some i \<Rightarrow> if i = 0 then s
       else strip_suffixes n (trim_right (\<lambda>c. c \<in> set '' ,.'') (take i s)))"

definition overrides :: "(string \<times> string) list" where
  "overrides = [(''raspberry pi trading'', ''Raspberry Pi''), (''raspberry pi foundation'', ''Raspberry Pi''),
     (''hon hai precision'', ''Foxconn''), (''hon hai precision industry'', ''Foxconn''),
     (''tp-link'', ''TP-Link''), (''tp-link systems'', ''TP-Link''), (''asustek computer'', ''ASUS''),
     (''intel'', ''Intel''), (''hewlett packard'', ''HP''), (''hewlett packard enterprise'', ''HPE''),
     (''ubiquiti networks'', ''Ubiquiti''), (''xiaomi communications'', ''Xiaomi''), (''seiko epson'', ''Epson''),
     (''brother industries'', ''Brother''), (''murata manufacturing'', ''Murata''),
     (''allterco robotics eood'', ''Shelly''),
     (''avm audiovisuelles marketing und computersysteme'', ''AVM''), (''zte'', ''ZTE''),
     (''annapurna labs'', ''Annapurna Labs''), (''motorola mobility llc, a lenovo'', ''Motorola Mobility''),
     (''beijing xiaomi mobile software'', ''Xiaomi''), (''routerboard.com'', ''MikroTik''),
     (''shenzhen gongjin electronics co.,lt'', ''Shenzhen Gongjin Electronics''),
     (''espressif systems (singapore)'', ''Espressif''), (''shelly europe'', ''Shelly'')]"

definition title_word :: "string \<Rightarrow> string" where
  "title_word w = (if 3 < length w then take 1 w @ to_lower (drop 1 w) else w)"

text \<open>Runs of white space replaced by one space.\<close>

fun squeeze :: "string \<Rightarrow> string" where
  "squeeze [] = []"
| "squeeze (c # s) = (if \<not> rx_space c then c # squeeze s
     else if s \<noteq> [] \<and> rx_space (hd s) then squeeze s else CHR '' '' # squeeze s)"

definition Normalize :: "string \<Rightarrow> string" where
  "Normalize name =
     (let s0 = trim_space (squeeze name); s = strip_suffixes (length s0) s0 in
      case map_of overrides (to_lower s) of
        Some v \<Rightarrow> v
      | None \<Rightarrow> if s \<noteq> to_upper s \<or> length s \<le> 4 then s
                else join '' '' (map title_word (split_on CHR '' '' s)))"

section \<open>A name is never normalised away\<close>

lemma rx_find_leftmost:
  assumes "rx_find r s = Some (Suc i)"
  shows "rx_ends r s i = [] \<and> rx_ends r s (Suc i) \<noteq> [] \<and> Suc i \<le> length s"
proof -
  let ?P = "\<lambda>i. rx_ends r s i \<noteq> []"
  have range: "Suc i \<in> set [0..<Suc (length s)]" "?P (Suc i)"
    using find_SomeD [OF assms [unfolded rx_find_def]] by auto
  have "\<not> ?P i"
  proof
    assume "?P i"
    have split: "[0..<Suc (length s)] = [0..<Suc i] @ [Suc i..<Suc (length s)]"
      using range(1) upt_add_eq_append [of 0 "Suc i" "length s - i"] by (simp del: upt_Suc)
    have "List.find ?P [0..<Suc i] \<noteq> None" using \<open>?P i\<close> by (auto simp: find_None_iff2)
    then obtain j where "List.find ?P [0..<Suc i] = Some j" by blast
    moreover from this have "j < Suc i" using find_SomeD by fastforce
    ultimately show False using assms by (simp add: rx_find_def split find_append del: upt_Suc)
  qed
  then show ?thesis using range by auto
qed

lemma suffixRe_extends:
  assumes "rx_ends suffixRe s (Suc i) \<noteq> []" and "i < length s" and "is_sep (s ! i)"
  shows "rx_ends suffixRe s i \<noteq> []"
proof -
  have "takeWhile is_sep (drop i s) = s ! i # takeWhile is_sep (drop (Suc i) s)"
    using assms(2,3) by (metis Cons_nth_drop_Suc takeWhile.simps(2))
  then have "set (rx_ends (Plus is_sep) s (Suc i)) \<subseteq> set (rx_ends (Plus is_sep) s i)" by auto
  then show ?thesis using assms(1) unfolding suffixRe_def rx_ends.simps(5) by auto
qed

lemma trim_right_id: "xs \<noteq> [] \<Longrightarrow> \<not> p (last xs) \<Longrightarrow> trim_right p xs = xs"
  by (cases xs rule: rev_cases) (simp_all add: trim_right_def)

lemma strip_suffixes_nonempty: "s \<noteq> [] \<Longrightarrow> strip_suffixes n s \<noteq> []"
proof (induction n s rule: strip_suffixes.induct)
  case (2 n s)
  show ?case
  proof (cases "rx_find suffixRe s")
    case (Some k)
    show ?thesis
    proof (cases k)
      case (Suc i)
      from rx_find_leftmost Some Suc have lm: "rx_ends suffixRe s i = []" "rx_ends suffixRe s (Suc i) \<noteq> []"
        "Suc i \<le> length s" by auto
      then have "\<not> is_sep (s ! i)" using suffixRe_extends by fastforce
      moreover have "last (take k s) = s ! i" using Suc lm(3) by (simp add: take_Suc_conv_app_nth)
      moreover have ne: "take k s \<noteq> []" using Suc "2.prems" by simp
      ultimately have "trim_right (\<lambda>c. c \<in> set '' ,.'') (take k s) = take k s"
        by (intro trim_right_id) (auto simp: is_sep_def rx_space_def is_space_def)
      then show ?thesis using "2.IH" [OF Some] Some Suc ne by simp
    qed (use Some "2.prems" in simp)
  qed (use "2.prems" in simp)
qed simp

lemma join_length: "map length xs = map length ys \<Longrightarrow> length (join d xs) = length (join d ys)"
proof (induction xs arbitrary: ys rule: induct_list012)
  case (2 x)
  then show ?case by (cases ys) auto
next
  case (3 x y zs)
  then obtain x' y' zs' where ys: "ys = x' # y' # zs'" by (auto simp: Cons_eq_map_conv)
  then show ?case using 3(2) [of "y' # zs'"] 3(3) by simp
qed simp

lemma join_split: "join [c] (split_on c s) = s"
proof (induction s)
  case (Cons x s)
  then show ?case by (cases "split_on c s"; cases "tl (split_on c s)") auto
qed simp

lemma title_join_nonempty: "s \<noteq> [] \<Longrightarrow> join '' '' (map title_word (split_on CHR '' '' s)) \<noteq> []"
proof -
  have "length (join '' '' (map title_word (split_on CHR '' '' s))) = length (join '' '' (split_on CHR '' '' s))"
    by (rule join_length) (auto simp: title_word_def to_lower_def)
  then show "s \<noteq> [] \<Longrightarrow> ?thesis" by (auto simp: join_split)
qed

lemma overrides_nonempty: "map_of overrides k = Some v \<Longrightarrow> v \<noteq> []"
proof -
  have "list_all (\<lambda>(k, v). v \<noteq> []) overrides" by (simp add: overrides_def)
  then show "map_of overrides k = Some v \<Longrightarrow> v \<noteq> []" by (auto simp: list_all_iff dest: map_of_SomeD)
qed

lemma trim_space_Nil: "trim_space s = [] \<longleftrightarrow> list_all is_space s"
proof -
  have "trim_space s = [] \<longleftrightarrow> (\<forall>c \<in> set (dropWhile is_space s). is_space c)"
    by (simp add: trim_space_def trim_right_def trim_left_def)
  also have "\<dots> \<longleftrightarrow> list_all is_space s" by (induction s) auto
  finally show ?thesis .
qed

lemma squeeze_blank: "list_all is_space (squeeze s) = list_all is_space s"
proof (induction s)
  case (Cons c s)
  then show ?case by (auto simp: rx_space_def is_space_def)
qed simp

text \<open>
  Normalize strips legal forms, renames and recases, but never down to nothing: the result
  is empty exactly when the name is blank.
\<close>

theorem Normalize_never_empties: "Normalize name = [] \<longleftrightarrow> list_all is_space name"
proof (cases "trim_space (squeeze name) = []")
  case True
  have "map_of overrides [] = None" by code_simp
  then have "Normalize name = []" unfolding Normalize_def True by (simp add: to_lower_def to_upper_def)
  then show ?thesis using True trim_space_Nil squeeze_blank by simp
next
  case False
  then have "strip_suffixes (length (trim_space (squeeze name))) (trim_space (squeeze name)) \<noteq> []"
    by (rule strip_suffixes_nonempty)
  then have "Normalize name \<noteq> []" using title_join_nonempty overrides_nonempty
    by (auto simp: Normalize_def Let_def split: option.splits)
  then show ?thesis using False trim_space_Nil squeeze_blank by simp
qed

end
