(* ===== verification/Store_Meta.thy ===== *)
theory Store_Meta
  imports Store_Subnet "HOL-Library.AList"
begin

text \<open>
  internal/store/meta.go: tags and their devices, custom fields, links and open ports.
\<close>

section \<open>Tag names\<close>

definition MaxTagName :: nat where "MaxTagName = 64"

definition ValidTagName :: "string \<Rightarrow> string \<times> bool" where
  "ValidTagName name = (let name = trim_space name; n = rune_count name in (name, 1 \<le> n \<and> n \<le> MaxTagName))"

definition TagNamesFit :: "string list \<Rightarrow> bool" where
  "TagNamesFit names \<longleftrightarrow> list_all (\<lambda>n. let n = trim_space n in n = [] \<or> snd (ValidTagName n)) names"

section \<open>Tags\<close>

definition ins_tag :: "string \<Rightarrow> string \<Rightarrow> tables \<Rightarrow> error + (int \<times> tables)" where
  "ins_tag name color t =
     (let i = next_id (map tag_ID (t_tag t)) in
      if name \<in> tag_Name ` set (t_tag t) then Inl ErrUnique
      else Inr (i, t\<lparr>t_tag := t_tag t @ [\<lparr>tag_ID = i, tag_Name = name, tag_Color = color\<rparr>]\<rparr>))"

definition CreateTag :: "string \<Rightarrow> string \<Rightarrow> ('s db_scheme, int) act" where
  "CreateTag name color = stmt (ins_tag name color)"

definition ListTags :: "('s db_scheme, tag list) act" where
  "ListTags = query (\<lambda>t. order_by tag_Name (t_tag t))"

definition ListTagsWithCounts :: "('s db_scheme, (tag \<times> nat) list) act" where
  "ListTagsWithCounts = query (\<lambda>t.
     map (\<lambda>g. (g, count_where (\<lambda>x. snd x = tag_ID g) (t_device_tag t))) (order_by tag_Name (t_tag t)))"

text \<open>\<open>requireRow\<close>: a statement that touched nothing is \<open>sql.ErrNoRows\<close>.\<close>

definition requireRow :: "nat \<Rightarrow> ('s db_scheme, unit) act" where
  "requireRow n = (if n = 0 then fail ErrNoRows else ret ())"

definition upd_tag :: "int \<Rightarrow> (tag \<Rightarrow> tag) \<Rightarrow> tables \<Rightarrow> nat \<times> tables" where
  "upd_tag i f t = (count_where (\<lambda>g. tag_ID g = i) (t_tag t),
     t\<lparr>t_tag := upd_where (\<lambda>g. tag_ID g = i) f (t_tag t)\<rparr>)"

definition SetTagColor :: "int \<Rightarrow> string \<Rightarrow> ('s db_scheme, unit) act" where
  "SetTagColor i color = withTx (bindA (exec (upd_tag i (\<lambda>g. g\<lparr>tag_Color := color\<rparr>))) requireRow)"

text \<open>Tags named so but for case: the exact spelling first, then the oldest.\<close>

definition tag_like :: "string \<Rightarrow> (tag \<Rightarrow> bool) \<Rightarrow> tables \<Rightarrow> int option" where
  "tag_like name P t =
     (case order_by (\<lambda>g. (if tag_Name g = name then 0 else 1 :: nat, tag_ID g))
            (filter (\<lambda>g. to_lower (tag_Name g) = to_lower name \<and> P g) (t_tag t)) of
        [] \<Rightarrow> None | g # _ \<Rightarrow> Some (tag_ID g))"

definition rename_tag :: "int \<Rightarrow> string \<Rightarrow> tables \<Rightarrow> error + (unit \<times> tables)" where
  "rename_tag i name t =
     (if name \<in> tag_Name ` set (del_where (\<lambda>g. tag_ID g = i) (t_tag t)) \<and> i \<in> tag_ID ` set (t_tag t)
      then Inl ErrUnique
      else Inr ((), snd (upd_tag i (\<lambda>g. g\<lparr>tag_Name := name\<rparr>) t)))"

text \<open>INSERT INTO device_tag ... SELECT ... ON CONFLICT DO NOTHING.\<close>

definition join_tags :: "int \<Rightarrow> int \<Rightarrow> tables \<Rightarrow> nat \<times> tables" where
  "join_tags from to t =
     (let new = map (\<lambda>x. (fst x, to)) (filter (\<lambda>x. snd x = from \<and> (fst x, to) \<notin> set (t_device_tag t)) (t_device_tag t))
      in (length new, t\<lparr>t_device_tag := t_device_tag t @ new\<rparr>))"

definition detach_tag :: "int \<Rightarrow> tables \<Rightarrow> nat \<times> tables" where
  "detach_tag i t = (count_where (\<lambda>x. snd x = i) (t_device_tag t),
     t\<lparr>t_device_tag := del_where (\<lambda>x. snd x = i) (t_device_tag t)\<rparr>)"

definition del_tag :: "int \<Rightarrow> tables \<Rightarrow> nat \<times> tables" where
  "del_tag i t = (count_where (\<lambda>g. tag_ID g = i) (t_tag t),
     t\<lparr>t_tag := del_where (\<lambda>g. tag_ID g = i) (t_tag t),
       t_device_tag := del_where (\<lambda>x. snd x = i) (t_device_tag t)\<rparr>)"

definition RenameTag :: "int \<Rightarrow> string \<Rightarrow> bool \<Rightarrow> ('s db_scheme, int) act" where
  "RenameTag i name merge = withTx (
     bindA (query_row (\<lambda>t. map_option tag_Name (List.find (\<lambda>g. tag_ID g = i) (t_tag t)))) (\<lambda>cur.
     if cur = name then ret 0
     else bindA (attempt (query_row (tag_like name (\<lambda>g. tag_ID g \<noteq> i)))) (\<lambda>r. case r of
       Inl ErrNoRows \<Rightarrow> thenA (stmt (rename_tag i name)) (ret 0)
     | Inl e \<Rightarrow> fail e
     | Inr other \<Rightarrow>
         if \<not> merge then fail ErrTagExists
         else thenA (exec (join_tags i other))
             (thenA (exec (detach_tag i))
             (thenA (exec (del_tag i)) (ret other))))))"

definition DeleteTag :: "int \<Rightarrow> ('s db_scheme, unit) act" where
  "DeleteTag i = withTx (thenA (exec (detach_tag i)) (bindA (exec (del_tag i)) requireRow))"

section \<open>The tags of a device\<close>

definition ins_device_tag :: "int \<Rightarrow> int \<Rightarrow> tables \<Rightarrow> error + (nat \<times> tables)" where
  "ins_device_tag dev g t =
     (if (dev, g) \<in> set (t_device_tag t) then Inr (0, t)
      else if dev \<notin> set (dev_ids t) \<or> g \<notin> tag_ID ` set (t_tag t) then Inl ErrForeignKey
      else Inr (1, t\<lparr>t_device_tag := t_device_tag t @ [(dev, g)]\<rparr>))"

definition del_device_tag :: "int \<Rightarrow> int \<Rightarrow> tables \<Rightarrow> nat \<times> tables" where
  "del_device_tag dev g t = (count_where (\<lambda>x. x = (dev, g)) (t_device_tag t),
     t\<lparr>t_device_tag := del_where (\<lambda>x. x = (dev, g)) (t_device_tag t)\<rparr>)"

definition TagDevice :: "int \<Rightarrow> int \<Rightarrow> ('s db_scheme, unit) act" where
  "TagDevice dev g = thenA (stmt (ins_device_tag dev g)) (ret ())"

definition UntagDevice :: "int \<Rightarrow> int \<Rightarrow> ('s db_scheme, unit) act" where
  "UntagDevice dev g = thenA (exec (del_device_tag dev g)) (ret ())"

definition defaultTagColor :: string where "defaultTagColor = []"

text \<open>INSERT INTO tag ... ON CONFLICT(name) DO NOTHING.\<close>

definition ins_tag_new :: "string \<Rightarrow> string \<Rightarrow> tables \<Rightarrow> nat \<times> tables" where
  "ins_tag_new name color t =
     (case ins_tag name color t of Inl _ \<Rightarrow> (0, t) | Inr (_, t') \<Rightarrow> (1, t'))"

definition findOrCreateTagOn :: "string \<Rightarrow> ('s db_scheme, int) act" where
  "findOrCreateTagOn name =
     bindA (attempt (query_row (tag_like name (\<lambda>_. True)))) (\<lambda>r. case r of
       Inr i \<Rightarrow> ret i
     | Inl ErrNoRows \<Rightarrow>
         thenA (exec (ins_tag_new name defaultTagColor))
           (query_row (\<lambda>t. map_option tag_ID (List.find (\<lambda>g. tag_Name g = name) (t_tag t))))
     | Inl e \<Rightarrow> fail e)"

text \<open>
  The Go maps of SetDeviceTags, keyed by lower-case name: what is wanted (the last spelling
  typed) and what is attached. They are association lists, each key once, in the order the
  keys were first set.
\<close>

definition wanted_tags :: "string list \<Rightarrow> (string \<times> string) list" where
  "wanted_tags names = foldl (\<lambda>w n. let n = trim_space n in
     if n = [] then w else AList.update (to_lower n) n w) [] names"

definition have_tags :: "tag list \<Rightarrow> (string \<times> int) list" where
  "have_tags current = foldl (\<lambda>h g. AList.update (to_lower (tag_Name g)) (tag_ID g) h) [] current"

definition SetDeviceTags :: "int \<Rightarrow> string list \<Rightarrow> ('s db_scheme, unit) act" where
  "SetDeviceTags dev names =
     (let want = wanted_tags names in
      bindA (DeviceTags dev) (\<lambda>current.
      let have = have_tags current in
      withTx (
        thenA (forA have (\<lambda>(key, g).
          if map_of want key \<noteq> None then ret ()
          else thenA (exec (del_device_tag dev g)) (ret ())))
        (forA want (\<lambda>(key, name).
          if map_of have key \<noteq> None then ret ()
          else bindA (findOrCreateTagOn name) (\<lambda>g. thenA (stmt (ins_device_tag dev g)) (ret ())))))))"

definition AddDeviceTags :: "int \<Rightarrow> string list \<Rightarrow> ('s db_scheme, unit) act" where
  "AddDeviceTags dev names = withTx (forA names (\<lambda>n.
     let n = trim_space n in
     if n = [] then ret ()
     else bindA (findOrCreateTagOn n) (\<lambda>g. thenA (stmt (ins_device_tag dev g)) (ret ()))))"

section \<open>Custom fields and links\<close>

definition SetCustomField :: "int \<Rightarrow> string \<Rightarrow> string \<Rightarrow> ('s db_scheme, unit) act" where
  "SetCustomField dev key v = stmt (\<lambda>t.
     let hit = (\<lambda>c. cf_DeviceID c = dev \<and> cf_Key c = key) in
     if count_where hit (t_field t) \<noteq> 0
     then Inr ((), t\<lparr>t_field := upd_where hit (\<lambda>c. c\<lparr>cf_Value := v\<rparr>) (t_field t)\<rparr>)
     else if dev \<notin> set (dev_ids t) then Inl ErrForeignKey
     else Inr ((), t\<lparr>t_field := t_field t @ [\<lparr>cf_DeviceID = dev, cf_Key = key, cf_Value = v\<rparr>]\<rparr>))"

definition DeleteCustomField :: "int \<Rightarrow> string \<Rightarrow> ('s db_scheme, unit) act" where
  "DeleteCustomField dev key = thenA (exec (\<lambda>t.
     let hit = (\<lambda>c. cf_DeviceID c = dev \<and> cf_Key c = key)
     in (count_where hit (t_field t), t\<lparr>t_field := del_where hit (t_field t)\<rparr>))) (ret ())"

definition ListCustomFields :: "int \<Rightarrow> ('s db_scheme, custom_field list) act" where
  "ListCustomFields dev = query (\<lambda>t. order_by cf_Key (filter (\<lambda>c. cf_DeviceID c = dev) (t_field t)))"

definition AddLink :: "int \<Rightarrow> string \<Rightarrow> string \<Rightarrow> ('s db_scheme, int) act" where
  "AddLink dev label url = stmt (\<lambda>t.
     let i = next_id (map ln_ID (t_link t)) in
     if dev \<notin> set (dev_ids t) then Inl ErrForeignKey
     else Inr (i, t\<lparr>t_link := t_link t @ [\<lparr>ln_ID = i, ln_DeviceID = dev, ln_Label = label, ln_URL = url\<rparr>]\<rparr>))"

definition DeleteLink :: "int \<Rightarrow> ('s db_scheme, unit) act" where
  "DeleteLink i = thenA (exec (\<lambda>t. (count_where (\<lambda>l. ln_ID l = i) (t_link t),
     t\<lparr>t_link := del_where (\<lambda>l. ln_ID l = i) (t_link t)\<rparr>))) (ret ())"

definition ListLinks :: "int \<Rightarrow> ('s db_scheme, link list) act" where
  "ListLinks dev = query (\<lambda>t. filter (\<lambda>l. ln_DeviceID l = dev) (t_link t))"

section \<open>Open ports\<close>

definition port_key :: "int \<Rightarrow> int \<Rightarrow> string \<Rightarrow> open_port \<Rightarrow> bool" where
  "port_key ifc port proto p \<longleftrightarrow> op_IfaceID p = ifc \<and> op_Port p = port \<and> op_Proto p = proto"

definition upsert_port :: "int \<Rightarrow> int \<Rightarrow> string \<Rightarrow> string \<Rightarrow> stamp \<Rightarrow> tables \<Rightarrow> error + (unit \<times> tables)" where
  "upsert_port ifc port proto guess seenAt t =
     (let hit = port_key ifc port proto in
      if proto \<notin> {''tcp'', ''udp''} then Inl ErrCheck
      else if count_where hit (t_port t) \<noteq> 0
      then Inr ((), t\<lparr>t_port := upd_where hit (\<lambda>p. p\<lparr>op_LastSeen := seenAt, op_ServiceGuess := guess\<rparr>) (t_port t)\<rparr>)
      else if ifc \<notin> set (if_ids t) then Inl ErrForeignKey
      else Inr ((), t\<lparr>t_port := t_port t @ [\<lparr>op_IfaceID = ifc, op_Port = port, op_Proto = proto,
             op_ServiceGuess = guess, op_FirstSeen = seenAt, op_LastSeen = seenAt\<rparr>]\<rparr>))"

definition UpsertOpenPort :: "int \<Rightarrow> int \<Rightarrow> string \<Rightarrow> string \<Rightarrow> stamp \<Rightarrow> ('s db_scheme, unit) act" where
  "UpsertOpenPort ifc port proto guess seenAt = stmt (upsert_port ifc port proto guess seenAt)"

text \<open>A port scan's result: port and service guess of each open port.\<close>

definition ReplaceOpenPorts :: "int \<Rightarrow> string \<Rightarrow> (int \<times> string) list \<Rightarrow> stamp \<Rightarrow> ('s db_scheme, unit) act" where
  "ReplaceOpenPorts ifc proto ports seenAt = withTx (
     thenA (forA ports (\<lambda>(p, g). stmt (upsert_port ifc p proto g seenAt)))
       (thenA (exec (\<lambda>t. let gone = (\<lambda>p. op_IfaceID p = ifc \<and> op_Proto p = proto \<and> op_Port p \<notin> set (map fst ports))
          in (count_where gone (t_port t), t\<lparr>t_port := del_where gone (t_port t)\<rparr>))) (ret ())))"

definition ListOpenPorts :: "int \<Rightarrow> ('s db_scheme, open_port list) act" where
  "ListOpenPorts ifc = query (\<lambda>t. order_by op_Port (filter (\<lambda>p. op_IfaceID p = ifc) (t_port t)))"

section \<open>A port scan's result replaces the previous one\<close>

definition ports_of :: "int \<Rightarrow> string \<Rightarrow> tables \<Rightarrow> open_port set" where
  "ports_of ifc proto t = {p \<in> set (t_port t). op_IfaceID p = ifc \<and> op_Proto p = proto}"

definition first_seen :: "int \<Rightarrow> string \<Rightarrow> tables \<Rightarrow> (int \<times> stamp) set" where
  "first_seen ifc proto t = (\<lambda>p. (op_Port p, op_FirstSeen p)) ` ports_of ifc proto t"

definition other_ports :: "int \<Rightarrow> string \<Rightarrow> tables \<Rightarrow> open_port list" where
  "other_ports ifc proto t = filter (\<lambda>p. \<not> (op_IfaceID p = ifc \<and> op_Proto p = proto)) (t_port t)"

lemma upsert_port_effect:
  assumes "upsert_port ifc q proto g seenAt t = Inr (u, t')"
  shows "other_ports ifc proto t' = other_ports ifc proto t \<and> (\<exists>ps. t' = t\<lparr>t_port := ps\<rparr>) \<and>
    first_seen ifc proto t' = (if q \<in> fst ` first_seen ifc proto t then first_seen ifc proto t
      else insert (q, seenAt) (first_seen ifc proto t))"
proof (cases "count_where (port_key ifc q proto) (t_port t) = 0")
  case True
  then have "q \<notin> fst ` first_seen ifc proto t"
    by (auto simp: count_where_def filter_empty_conv port_key_def first_seen_def ports_of_def)
  moreover define new where "new = \<lparr>op_IfaceID = ifc, op_Port = q, op_Proto = proto,
    op_ServiceGuess = g, op_FirstSeen = seenAt, op_LastSeen = seenAt\<rparr>"
  moreover have t': "t' = t\<lparr>t_port := t_port t @ [new]\<rparr>"
    using assms True by (auto simp: upsert_port_def Let_def new_def split: if_splits)
  moreover have "ports_of ifc proto t' = insert new (ports_of ifc proto t)"
    unfolding t' ports_of_def by (auto simp: new_def)
  ultimately show ?thesis by (simp add: first_seen_def other_ports_def) blast
next
  case False
  then have q: "q \<in> fst ` first_seen ifc proto t"
    by (force simp: count_where_def filter_empty_conv port_key_def first_seen_def ports_of_def)
  let ?f = "\<lambda>p. if port_key ifc q proto p then p\<lparr>op_LastSeen := seenAt, op_ServiceGuess := g\<rparr> else p"
  have t': "t' = t\<lparr>t_port := map ?f (t_port t)\<rparr>"
    using assms False by (auto simp: upsert_port_def Let_def upd_where_def split: if_splits)
  have "other_ports ifc proto t' = other_ports ifc proto t"
    unfolding other_ports_def t' by (simp, rule filter_map_if) (auto simp: port_key_def)
  moreover have "first_seen ifc proto t' = first_seen ifc proto t"
  proof -
    have "ports_of ifc proto t' = ?f ` ports_of ifc proto t"
      unfolding ports_of_def t' by auto
    moreover have "(op_Port (?f p), op_FirstSeen (?f p)) = (op_Port p, op_FirstSeen p)" for p :: open_port
      by simp
    ultimately show ?thesis unfolding first_seen_def by (simp only: image_image)
  qed
  ultimately show ?thesis using q t' by auto
qed

text \<open>
  Replacing an interface's open ports by a scan's result is exact and atomic: the recorded
  ports become the scanned ones, a port that was already known keeps the time it was first
  seen and a new one gets the scan's, and no other interface's or protocol's row changes.
\<close>

theorem ReplaceOpenPorts_exact:
  "case ReplaceOpenPorts ifc proto ports seenAt s of
     (Inl e, s') \<Rightarrow> tabs s' = tabs s
   | (Inr _, s') \<Rightarrow>
       first_seen ifc proto (tabs s') =
         {x \<in> first_seen ifc proto (tabs s). fst x \<in> set (map fst ports)} \<union>
         (\<lambda>q. (q, seenAt)) ` (set (map fst ports) - fst ` first_seen ifc proto (tabs s)) \<and>
       other_ports ifc proto (tabs s') = other_ports ifc proto (tabs s) \<and>
       (tabs s')\<lparr>t_port := t_port (tabs s)\<rparr> = tabs s"
  unfolding ReplaceOpenPorts_def
proof (rule withTx_all_or_nothing, goal_cases)
  case (1 a s')
  let ?gone = "\<lambda>p. op_IfaceID p = ifc \<and> op_Proto p = proto \<and> op_Port p \<notin> set (map fst ports)"
  obtain s1 s2 :: "'a db_scheme" where t: "tabs s1 = tabs s" "tabs s' = tabs s2"
    and run: "thenA (forA ports (\<lambda>(p, g). stmt (upsert_port ifc p proto g seenAt)))
       (thenA (exec (\<lambda>t. let gone = ?gone
          in (count_where gone (t_port t), t\<lparr>t_port := del_where gone (t_port t)\<rparr>))) (ret ())) s1 = (Inr a, s2)"
    using 1 by (metis (no_types, lifting) withTx_InrE)
  from run obtain u n and s3 :: "'a db_scheme"
    where loop: "forA ports (\<lambda>(p, g). stmt (upsert_port ifc p proto g seenAt)) s1 = (Inr u, s3)"
      and del: "exec (\<lambda>t. let gone = ?gone
          in (count_where gone (t_port t), t\<lparr>t_port := del_where gone (t_port t)\<rparr>)) s3 = (Inr n, s2)"
    by (elim thenA_InrE) auto
  define R where "R ys s \<longleftrightarrow> other_ports ifc proto (tabs s) = other_ports ifc proto (tabs s1) \<and>
      (\<exists>ps. tabs s = (tabs s1)\<lparr>t_port := ps\<rparr>) \<and>
      first_seen ifc proto (tabs s) = first_seen ifc proto (tabs s1) \<union>
        (\<lambda>q. (q, seenAt)) ` (fst ` set ys - fst ` first_seen ifc proto (tabs s1))"
    for ys :: "(int \<times> string) list" and s :: "'a db_scheme"
  have R: "R ports s3"
  proof (rule forA_InrI [OF loop])
    show "R [] s1" by (auto simp: R_def intro: exI [of _ "t_port (tabs s1)"])
    fix ys x a and s s' :: "'a db_scheme"
    assume Rs: "R ys s" and st: "(case x of (p, g) \<Rightarrow> stmt (upsert_port ifc p proto g seenAt)) s = (Inr a, s')"
    obtain q g where x: "x = (q, g)" by (cases x)
    from stmt_InrD [of "upsert_port ifc q proto g seenAt" s a s'] st x
    have "upsert_port ifc q proto g seenAt (tabs s) = Inr (a, tabs s')" by auto
    note eff = upsert_port_effect [OF this]
    have "first_seen ifc proto (tabs s') = first_seen ifc proto (tabs s1) \<union>
        (\<lambda>q. (q, seenAt)) ` (insert q (fst ` set ys) - fst ` first_seen ifc proto (tabs s1))"
      using eff add_new_key [of "first_seen ifc proto (tabs s)" "first_seen ifc proto (tabs s1)" seenAt "fst ` set ys" q]
        Rs unfolding R_def by argo
    then show "R (ys @ [x]) s'" using eff Rs x unfolding R_def by auto
  qed
  have s2: "tabs s2 = (tabs s3)\<lparr>t_port := del_where ?gone (t_port (tabs s3))\<rparr>"
    using del by (auto simp: exec_def Let_def dest!: stmt_InrD)
  have "first_seen ifc proto (tabs s2) = {x \<in> first_seen ifc proto (tabs s3). fst x \<in> set (map fst ports)}"
    unfolding s2 first_seen_def ports_of_def by (force simp: del_where_def)
  moreover have "other_ports ifc proto (tabs s2) = other_ports ifc proto (tabs s3)"
    unfolding s2 other_ports_def by (auto simp: del_where_def intro: filter_cong)
  moreover have "first_seen ifc proto (tabs s3) = first_seen ifc proto (tabs s) \<union>
      (\<lambda>q. (q, seenAt)) ` (set (map fst ports) - fst ` first_seen ifc proto (tabs s))"
    and "other_ports ifc proto (tabs s3) = other_ports ifc proto (tabs s)"
    using R t by (simp_all add: R_def)
  moreover have "(tabs s')\<lparr>t_port := t_port (tabs s)\<rparr> = tabs s"
    using R t unfolding s2 R_def by auto
  moreover have "{x \<in> F \<union> (\<lambda>q. (q, seenAt)) ` (P - K). fst x \<in> P} = {x \<in> F. fst x \<in> P} \<union> (\<lambda>q. (q, seenAt)) ` (P - K)"
    for F and P K :: "int set" by auto
  ultimately show ?case unfolding t by simp
qed

section \<open>A device gets exactly the tags asked for\<close>

text \<open>The lower-case names asked for, and those a device has.\<close>

definition asked :: "string list \<Rightarrow> string set" where
  "asked names = {to_lower (trim_space n) |n. n \<in> set names \<and> trim_space n \<noteq> []}"

definition tagged :: "int \<Rightarrow> tables \<Rightarrow> string set" where
  "tagged dev t = {to_lower (tag_Name g) |g. g \<in> set (t_tag t) \<and> (dev, tag_ID g) \<in> set (t_device_tag t)}"

lemma tagged_device_tags: "tagged dev t = (\<lambda>g. to_lower (tag_Name g)) ` set (device_tags dev t)"
  by (auto simp: tagged_def device_tags_def order_by_def)

lemma AList_update_new: "k \<notin> fst ` set al \<Longrightarrow> AList.update k v al = al @ [(k, v)]"
  by (induction al) auto

lemma AList_update_subset: "set (AList.update k v al) \<subseteq> insert (k, v) (set al)"
  by (induction al) auto

text \<open>A map filled from rows with different keys lists the rows.\<close>

lemma foldl_update_distinct:
  assumes "distinct (map key rows)"
  shows "foldl (\<lambda>h r. AList.update (key r) (val r) h) [] rows = map (\<lambda>r. (key r, val r)) rows"
proof -
  have "foldl (\<lambda>h r. AList.update (key r) (val r) h) h0 rows = h0 @ map (\<lambda>r. (key r, val r)) rows"
    if "fst ` set h0 \<inter> key ` set rows = {}" for h0
    using assms that
  proof (induction rows arbitrary: h0)
    case (Cons r rows)
    then have "AList.update (key r) (val r) h0 = h0 @ [(key r, val r)]" by (intro AList_update_new) auto
    then show ?case using Cons.IH [of "h0 @ [(key r, val r)]"] Cons.prems by auto
  qed simp
  from this [of "[]"] show ?thesis by simp
qed

lemma have_tags_distinct:
  assumes "distinct (map (\<lambda>g. to_lower (tag_Name g)) cur)"
  shows "have_tags cur = map (\<lambda>g. (to_lower (tag_Name g), tag_ID g)) cur"
  unfolding have_tags_def by (rule foldl_update_distinct [OF assms])

lemma asked_Nil: "asked [] = {}"
  by (simp add: asked_def)

lemma asked_Cons:
  "asked (m # names) = (if trim_space m = [] then {} else {to_lower (trim_space m)}) \<union> asked names"
  by (auto simp: asked_def)

lemma wanted_tags_keys:
  "fst ` set (wanted_tags names) = asked names" (is ?keys)
  "(k, n) \<in> set (wanted_tags names) \<Longrightarrow> k = to_lower n"
proof -
  let ?add = "\<lambda>w n. let n = trim_space n in if n = [] then w else AList.update (to_lower n) n w"
  have keys: "fst ` set (foldl ?add w names) = fst ` set w \<union> asked names" for w
  proof (induction names arbitrary: w)
    case (Cons m names)
    show ?case unfolding foldl.simps Cons.IH by (simp add: Let_def AList.dom_update asked_Cons)
  qed (simp add: asked_def)
  have low: "\<forall>(k, n) \<in> set (foldl ?add w names). k = to_lower n" if "\<forall>(k, n) \<in> set w. k = to_lower n" for w
    using that
  proof (induction names arbitrary: w)
    case (Cons m names)
    have "set (?add w m) \<subseteq> insert (to_lower (trim_space m), trim_space m) (set w)"
      by (auto simp: Let_def dest: subsetD [OF AList_update_subset])
    then have "\<forall>(k, n) \<in> set (?add w m). k = to_lower n" using Cons.prems by blast
    then show ?case using Cons.IH [of "?add w m"] by simp
  qed simp
  show ?keys using keys [of "[]"] by (simp add: wanted_tags_def)
  show "(k, n) \<in> set (wanted_tags names) \<Longrightarrow> k = to_lower n"
    using low [of "[]"] by (auto simp: wanted_tags_def)
qed

lemma tag_like_Some:
  assumes "tag_like name P t = Some i"
  shows "\<exists>g \<in> set (t_tag t). tag_ID g = i \<and> to_lower (tag_Name g) = to_lower name \<and> P g"
proof -
  let ?gs = "order_by (\<lambda>g. (if tag_Name g = name then 0 else 1 :: nat, tag_ID g))
      (filter (\<lambda>g. to_lower (tag_Name g) = to_lower name \<and> P g) (t_tag t))"
  obtain g gs where g: "?gs = g # gs" "tag_ID g = i"
    using assms by (auto simp: tag_like_def split: list.splits)
  have "g \<in> set ?gs" unfolding g(1) by simp
  then show ?thesis using g(2) by (auto simp: order_by_def)
qed

lemma findOrCreateTagOn_InrD:
  fixes s s' :: "'s db_scheme"
  assumes "findOrCreateTagOn name s = (Inr i, s')"
  shows "(\<exists>g \<in> set (t_tag (tabs s')). tag_ID g = i \<and> to_lower (tag_Name g) = to_lower name) \<and>
    (tabs s' = tabs s \<or> (\<exists>c. tabs s' = (tabs s)\<lparr>t_tag := t_tag (tabs s) @
        [\<lparr>tag_ID = next_id (map tag_ID (t_tag (tabs s))), tag_Name = name, tag_Color = c\<rparr>]\<rparr>))"
proof (cases "query_row (tag_like name (\<lambda>_. True)) s")
  case (Pair r s1)
  have t1: "tabs s1 = tabs s" using query_row_tabs [of "tag_like name (\<lambda>_. True)" s] Pair by simp
  show ?thesis
  proof (cases r)
    case (Inr j)
    then have "tag_like name (\<lambda>_. True) (tabs s) = Some i" and "s' = s1"
      using Pair assms by (auto simp: findOrCreateTagOn_def bindA_def attempt_def query_row_def
          stmt_def Let_def split: if_splits option.splits)
    then show ?thesis using t1 tag_like_Some by fastforce
  next
    case (Inl e)
    then have e: "e = ErrNoRows" using Pair assms
      by (cases e) (auto simp: findOrCreateTagOn_def bindA_def attempt_def)
    then obtain n and s2 :: "'s db_scheme" where a: "exec (ins_tag_new name defaultTagColor) s1 = (Inr n, s2)"
      and b: "query_row (\<lambda>t. map_option tag_ID (List.find (\<lambda>g. tag_Name g = name) (t_tag t))) s2 = (Inr i, s')"
      using Pair assms Inl
      by (auto simp: findOrCreateTagOn_def bindA_def [of "attempt _"] attempt_def elim!: thenA_InrE)
    have "\<exists>g \<in> set (t_tag (tabs s')). tag_ID g = i \<and> to_lower (tag_Name g) = to_lower name"
      using b by (auto simp: query_row_def stmt_def Let_def split: if_splits option.splits dest!: find_SomeD)
    moreover have "tabs s' = tabs s2" using query_row_tabs [of _ s2] b by (metis snd_conv)
    ultimately show ?thesis using a t1
      by (auto simp: exec_def ins_tag_new_def ins_tag_def Let_def dest!: stmt_InrD split: if_splits) metis
  qed
qed

text \<open>The two loops of SetDeviceTags.\<close>

definition detached :: "int \<Rightarrow> string set \<Rightarrow> (string \<times> int) list \<Rightarrow> int \<times> int \<Rightarrow> bool" where
  "detached dev W ys x \<longleftrightarrow> fst x = dev \<and> (\<exists>key. key \<notin> W \<and> (key, snd x) \<in> set ys)"

lemma detached_snoc:
  "detached dev W (ys @ [(key, g)]) = (\<lambda>x. detached dev W ys x \<or> (key \<notin> W \<and> x = (dev, g)))"
  by (auto simp: detached_def fun_eq_iff)

lemma detach_loop:
  fixes s s' :: "'s db_scheme"
  assumes "forA have (\<lambda>(key, g). if key \<in> W then ret () else thenA (exec (del_device_tag dev g)) (ret ())) s = (Inr u, s')"
  shows "tabs s' = (tabs s)\<lparr>t_device_tag := filter (\<lambda>x. \<not> detached dev W have x) (t_device_tag (tabs s))\<rparr>"
proof (rule forA_InrI [OF assms, where R = "\<lambda>ys s'. tabs s' = (tabs s)\<lparr>t_device_tag :=
    filter (\<lambda>x. \<not> detached dev W ys x) (t_device_tag (tabs s))\<rparr>"])
  show "tabs s = (tabs s)\<lparr>t_device_tag := filter (\<lambda>x. \<not> detached dev W [] x) (t_device_tag (tabs s))\<rparr>"
    by (simp add: detached_def)
  fix ys x a and s1 s2 :: "'s db_scheme"
  assume R: "tabs s1 = (tabs s)\<lparr>t_device_tag := filter (\<lambda>x. \<not> detached dev W ys x) (t_device_tag (tabs s))\<rparr>"
    and st: "(case x of (key, g) \<Rightarrow> if key \<in> W then ret () else thenA (exec (del_device_tag dev g)) (ret ())) s1 = (Inr a, s2)"
  obtain key g where x: "x = (key, g)" by (cases x)
  show "tabs s2 = (tabs s)\<lparr>t_device_tag := filter (\<lambda>y. \<not> detached dev W (ys @ [x]) y) (t_device_tag (tabs s))\<rparr>"
  proof (cases "key \<in> W")
    case True
    then show ?thesis using R st x by (simp add: detached_snoc)
  next
    case False
    then obtain n where "exec (del_device_tag dev g) s1 = (Inr n, s2)"
      using st x by (auto elim!: thenA_InrE)
    then have "tabs s2 = (tabs s1)\<lparr>t_device_tag := del_where (\<lambda>x. x = (dev, g)) (t_device_tag (tabs s1))\<rparr>"
      by (auto simp: exec_def del_device_tag_def dest!: stmt_InrD)
    then show ?thesis using R False x by (simp add: detached_snoc del_where_def conj_commute)
  qed
qed

lemma ins_device_tagD:
  assumes "ins_device_tag dev g t = Inr (n, t')"
  shows "t_tag t' = t_tag t \<and> set (t_device_tag t') = insert (dev, g) (set (t_device_tag t)) \<and>
    filter (\<lambda>x. fst x \<noteq> dev) (t_device_tag t') = filter (\<lambda>x. fst x \<noteq> dev) (t_device_tag t)"
  using assms by (auto simp: ins_device_tag_def split: if_splits)

definition others_tags :: "int \<Rightarrow> tables \<Rightarrow> (int \<times> int) list" where
  "others_tags dev t = filter (\<lambda>x. fst x \<noteq> dev) (t_device_tag t)"

lemma attach_one:
  fixes s s' :: "'s db_scheme"
  assumes "bindA (findOrCreateTagOn name) (\<lambda>g. thenA (stmt (ins_device_tag dev g)) (ret ())) s = (Inr u, s')"
    and "distinct (map tag_ID (t_tag (tabs s)))"
  shows "distinct (map tag_ID (t_tag (tabs s'))) \<and> others_tags dev (tabs s') = others_tags dev (tabs s) \<and>
    tagged dev (tabs s') = insert (to_lower name) (tagged dev (tabs s))"
proof -
  obtain i n and s1 :: "'s db_scheme" where a: "findOrCreateTagOn name s = (Inr i, s1)"
    and b: "stmt (ins_device_tag dev i) s1 = (Inr n, s')"
    using assms(1) by (auto elim!: bindA_InrE thenA_InrE)
  have b': "ins_device_tag dev i (tabs s1) = Inr (n, tabs s')" using stmt_InrD [OF b] by auto
  note ins = ins_device_tagD [OF b']
  obtain g where g: "g \<in> set (t_tag (tabs s1))" "tag_ID g = i" "to_lower (tag_Name g) = to_lower name"
    using findOrCreateTagOn_InrD [OF a] by blast
  have d1: "distinct (map tag_ID (t_tag (tabs s1)))"
    and dt: "t_device_tag (tabs s1) = t_device_tag (tabs s)"
    and tg: "t_tag (tabs s1) = t_tag (tabs s) \<or> (\<exists>x. t_tag (tabs s1) = t_tag (tabs s) @ [x] \<and> tag_Name x = name)"
    using findOrCreateTagOn_InrD [OF a] assms(2) tag_table.new_id_notin [of "t_tag (tabs s)"] by auto
  have "tagged dev (tabs s') = insert (to_lower name)
      {to_lower (tag_Name x) |x. x \<in> set (t_tag (tabs s1)) \<and> (dev, tag_ID x) \<in> set (t_device_tag (tabs s))}"
  proof -
    have uniq: "x \<in> set (t_tag (tabs s1)) \<and> tag_ID x = i \<longleftrightarrow> x = g" for x
      using g distinct_key_eq [OF d1, of x g] by auto
    have "tagged dev (tabs s') = {to_lower (tag_Name x) |x. x \<in> set (t_tag (tabs s1)) \<and> tag_ID x = i} \<union>
      {to_lower (tag_Name x) |x. x \<in> set (t_tag (tabs s1)) \<and> (dev, tag_ID x) \<in> set (t_device_tag (tabs s))}"
      using ins dt unfolding tagged_def by auto
    then show ?thesis unfolding uniq using g(3) by simp
  qed
  also have "\<dots> = insert (to_lower name) (tagged dev (tabs s))"
    using tg unfolding tagged_def by auto
  finally show ?thesis using ins d1 dt by (auto simp: others_tags_def)
qed

lemma attach_loop:
  fixes s s' :: "'s db_scheme"
  assumes "forA want (\<lambda>(key, name). if key \<in> H then ret ()
      else bindA (findOrCreateTagOn name) (\<lambda>g. thenA (stmt (ins_device_tag dev g)) (ret ()))) s = (Inr u, s')"
    and "distinct (map tag_ID (t_tag (tabs s)))" and "\<And>key name. (key, name) \<in> set want \<Longrightarrow> key = to_lower name"
  shows "others_tags dev (tabs s') = others_tags dev (tabs s) \<and>
    tagged dev (tabs s') = tagged dev (tabs s) \<union> (fst ` set want - H)"
proof -
  define R where "R ys s' \<longleftrightarrow> distinct (map tag_ID (t_tag (tabs s'))) \<and>
      others_tags dev (tabs s') = others_tags dev (tabs s) \<and>
      tagged dev (tabs s') = tagged dev (tabs s) \<union> (fst ` set ys - H)"
    for ys :: "(string \<times> string) list" and s' :: "'s db_scheme"
  have "R want s'"
  proof (rule forA_InrI [OF assms(1)])
    show "R [] s" using assms(2) by (simp add: R_def)
    fix ys x a and s1 s2 :: "'s db_scheme"
    assume R: "R ys s1" and x: "x \<in> set want"
      and st: "(case x of (key, name) \<Rightarrow> if key \<in> H then ret ()
        else bindA (findOrCreateTagOn name) (\<lambda>g. thenA (stmt (ins_device_tag dev g)) (ret ()))) s1 = (Inr a, s2)"
    obtain key name where k: "x = (key, name)" by (cases x)
    have low: "key = to_lower name" using assms(3) x k by blast
    show "R (ys @ [x]) s2"
    proof (cases "key \<in> H")
      case True
      then show ?thesis using R st k by (auto simp: R_def)
    next
      case False
      then show ?thesis using attach_one [of name dev s1 a s2] R st k low by (auto simp: R_def)
    qed
  qed
  then show ?thesis by (simp add: R_def)
qed

text \<open>The transaction's two loops, once the maps are written as sets.\<close>

definition retag :: "int \<Rightarrow> (string \<times> int) list \<Rightarrow> string list \<Rightarrow> string set \<Rightarrow> ('s db_scheme, unit) act" where
  "retag dev have names H =
    thenA (forA have (\<lambda>(key, g). if key \<in> asked names then ret () else thenA (exec (del_device_tag dev g)) (ret ())))
      (forA (wanted_tags names) (\<lambda>(key, name). if key \<in> H then ret ()
          else bindA (findOrCreateTagOn name) (\<lambda>g. thenA (stmt (ins_device_tag dev g)) (ret ()))))"

lemma have_tags_eq:
  assumes "distinct (map (\<lambda>g. to_lower (tag_Name g)) (device_tags dev t))"
  shows "have_tags (device_tags dev t) = map (\<lambda>g. (to_lower (tag_Name g), tag_ID g)) (device_tags dev t)"
    and "map_of (have_tags (device_tags dev t)) key \<noteq> None \<longleftrightarrow> key \<in> tagged dev t"
  unfolding map_of_eq_None_iff have_tags_distinct [OF assms] tagged_device_tags by (auto simp: image_image)

lemma retag_run:
  fixes s s' :: "'s db_scheme"
  assumes "distinct (map tag_ID (t_tag t))"
    and "distinct (map (\<lambda>g. to_lower (tag_Name g)) (device_tags dev t))"
    and "retag dev (have_tags (device_tags dev t)) names (tagged dev t) s = (Inr u, s')" and "tabs s = t"
  shows "tagged dev (tabs s') = asked names \<and> others_tags dev (tabs s') = others_tags dev t"
proof -
  let ?W = "asked names"
  obtain v and s4 :: "'s db_scheme" where
    l1: "forA (have_tags (device_tags dev t)) (\<lambda>(key, g). if key \<in> ?W then ret ()
        else thenA (exec (del_device_tag dev g)) (ret ())) s = (Inr v, s4)"
    and l2: "forA (wanted_tags names) (\<lambda>(key, name). if key \<in> tagged dev t then ret ()
        else bindA (findOrCreateTagOn name) (\<lambda>g. thenA (stmt (ins_device_tag dev g)) (ret ()))) s4 = (Inr u, s')"
    using assms(3) unfolding retag_def by (rule thenA_InrE)
  have s4: "tabs s4 = t\<lparr>t_device_tag := filter (\<lambda>x. \<not> detached dev ?W (have_tags (device_tags dev t)) x) (t_device_tag t)\<rparr>"
    using detach_loop [OF l1] assms(4) by simp
  have "detached dev ?W (have_tags (device_tags dev t)) (dev, tag_ID x) \<longleftrightarrow> to_lower (tag_Name x) \<notin> ?W"
    if "x \<in> set (t_tag t)" "(dev, tag_ID x) \<in> set (t_device_tag t)" for x
  proof -
    have "x \<in> set (device_tags dev t)" using that by (simp add: device_tags_def order_by_def)
    moreover have "y = x" if "y \<in> set (device_tags dev t)" "tag_ID y = tag_ID x" for y
      using that \<open>x \<in> set (t_tag t)\<close> distinct_key_eq [OF assms(1), of y x]
      by (simp add: device_tags_def order_by_def)
    moreover have "detached dev ?W (have_tags (device_tags dev t)) (dev, tag_ID x) \<longleftrightarrow>
        (\<exists>y \<in> set (device_tags dev t). tag_ID y = tag_ID x \<and> to_lower (tag_Name y) \<notin> ?W)"
      unfolding detached_def have_tags_eq(1) [OF assms(2)] by (simp add: image_iff) metis
    ultimately show ?thesis by blast
  qed
  then have "tagged dev (tabs s4) = tagged dev t \<inter> ?W" unfolding s4 tagged_def by auto
  moreover have "others_tags dev (tabs s4) = others_tags dev t"
    unfolding s4 others_tags_def by (auto simp: detached_def intro: filter_cong)
  moreover have "distinct (map tag_ID (t_tag (tabs s4)))" using assms(1) s4 by simp
  ultimately show ?thesis
    using attach_loop [OF l2 _ wanted_tags_keys(2)] wanted_tags_keys(1) [of names] by auto
qed


definition tag_db :: db where
  "tag_db = sample_db\<lparr>tabs := sample_tables
     \<lparr>t_tag := [\<lparr>tag_ID = 1, tag_Name = ''nas'', tag_Color = []\<rparr>, \<lparr>tag_ID = 2, tag_Name = ''lab'', tag_Color = []\<rparr>,
               \<lparr>tag_ID = 3, tag_Name = ''NAS'', tag_Color = []\<rparr>],
      t_device_tag := [(1, 1), (1, 2), (2, 1), (2, 3)]\<rparr>\<rparr>"


text \<open>
  A device that carries two tags whose names differ only in case keeps one of them when its
  tags are cleared: the map of attached tags holds one tag per lower-case name.
\<close>

theorem SetDeviceTags_case_twins:
  "fst (SetDeviceTags 2 [] tag_db) = Inr () \<and> tagged 2 (tabs (snd (SetDeviceTags 2 [] tag_db))) = {''nas''}"
proof
  show "fst (SetDeviceTags 2 [] tag_db) = Inr ()" by code_simp
  have "device_tags 2 (tabs (snd (SetDeviceTags 2 [] tag_db))) = [\<lparr>tag_ID = 3, tag_Name = ''NAS'', tag_Color = []\<rparr>] \<or>
      device_tags 2 (tabs (snd (SetDeviceTags 2 [] tag_db))) = [\<lparr>tag_ID = 1, tag_Name = ''nas'', tag_Color = []\<rparr>]"
    by code_simp
  moreover have "to_lower ''nas'' = ''nas''" "to_lower ''NAS'' = ''nas''" by code_simp+
  ultimately show "tagged 2 (tabs (snd (SetDeviceTags 2 [] tag_db))) = {''nas''}"
    unfolding tagged_device_tags by auto
qed

end
