(* ===== verification/Scan_Engine.thy ===== *)
theory Scan_Engine
  imports Scan_Sweep Event_Broker Net_Oui Store_Meta
begin

text \<open>
  internal/scan/engine.go, presence.go and conflict.go: what one sweep of a subnet does to the
  inventory. What the network answers during the sweep is an argument: the sweep's results, the
  ARP table right after it and once more later, the TCP presence probe, and the name lookups.
\<close>

section \<open>The engine's state and the world it looks at\<close>

record engine = svc +
  nameMiss :: "string \<rightharpoonup> time"
  conflictsSeen :: "int \<rightharpoonup> string list"
  probesAsked :: "int list"
  kicks :: nat

record world =
  w_sweep :: "error + result list"
  w_arp :: "(string \<rightharpoonup> string) option"
  w_again :: "(string \<rightharpoonup> string) option"
  w_presence :: "(string \<Rightarrow> rat option) option"
  w_resolve :: "string \<Rightarrow> string"
  w_autofill :: bool
  w_now :: time

text \<open>A Go map of strings: a missing key reads as the empty string.\<close>

definition str_at :: "(string \<rightharpoonup> string) \<Rightarrow> string \<Rightarrow> string" where
  "str_at m k = (case m k of None \<Rightarrow> [] | Some v \<Rightarrow> v)"

section \<open>Settings\<close>

definition defaultOfflineAfter :: int where "defaultOfflineAfter = 3"

definition offlineAfter :: "crypter option \<Rightarrow> ('s db_scheme, int) act" where
  "offlineAfter cr = bindA (attempt (GetSetting cr ''offline_after'')) (\<lambda>r. case r of
     Inl _ \<Rightarrow> ret defaultOfflineAfter
   | Inr v \<Rightarrow> (case atoi v of
       None \<Rightarrow> ret defaultOfflineAfter
     | Some n \<Rightarrow> ret (if n < 1 \<or> 10 < n then defaultOfflineAfter else n)))"

definition presenceEnabled :: "crypter option \<Rightarrow> ('s db_scheme, bool) act" where
  "presenceEnabled cr = bindA (attempt (GetSetting cr ''presence_fallback'')) (\<lambda>r. case r of
     Inl _ \<Rightarrow> ret True | Inr v \<Rightarrow> ret (v \<noteq> ''off''))"

section \<open>Presence of hosts that drop ICMP\<close>

definition presence_cands :: "(string \<rightharpoonup> string) \<Rightarrow> result list \<Rightarrow> string list" where
  "presence_cands arp results =
     map r_IP (filter (\<lambda>r. r_Err r = None \<and> \<not> r_Alive r \<and> str_at arp (r_IP r) \<noteq> []) results)"

text \<open>
  \<open>w_again\<close> is the ARP table re-read after the settle time, None when that failed or the scan was
  cancelled while waiting.
\<close>

definition confirmPresence :: "world \<Rightarrow> (string \<rightharpoonup> string) \<Rightarrow> result list \<Rightarrow> string \<rightharpoonup> rat" where
  "confirmPresence w arp results =
     (let cands = presence_cands arp results;
          confirmed = (\<lambda>ip. case w_presence w of None \<Rightarrow> None
             | Some probe \<Rightarrow> if ip \<in> set cands then probe ip else None);
          rest = filter (\<lambda>ip. confirmed ip = None) cands
      in if rest = [] then confirmed
         else (case w_again w of
             None \<Rightarrow> confirmed
           | Some again \<Rightarrow> (\<lambda>ip. if ip \<in> set rest \<and> str_at again ip \<noteq> [] \<and> str_at again ip = str_at arp ip
                               then Some 0 else confirmed ip)))"

definition mark_alive :: "(string \<rightharpoonup> rat) \<Rightarrow> result \<Rightarrow> result" where
  "mark_alive confirmed r = (case confirmed (r_IP r) of None \<Rightarrow> r
     | Some rtt \<Rightarrow> r\<lparr>r_Alive := True, r_RTTms := rtt\<rparr>)"

section \<open>Names\<close>

definition macConflict :: "string option \<Rightarrow> string \<Rightarrow> bool" where
  "macConflict known arpMAC \<longleftrightarrow> (case known of None \<Rightarrow> False
     | Some k \<Rightarrow> k \<noteq> [] \<and> arpMAC \<noteq> [] \<and> \<not> equal_fold k arpMAC)"

text \<open>The last row of an address wins, as in the Go map.\<close>

definition known_by_ip :: "subnet_iface_ip list \<Rightarrow> string \<rightharpoonup> subnet_iface_ip" where
  "known_by_ip known ip = List.find (\<lambda>k. si_IP k = ip) (rev known)"

definition namesWanted :: "result list \<Rightarrow> (string \<rightharpoonup> subnet_iface_ip) \<Rightarrow> (string \<rightharpoonup> string) \<Rightarrow> string list" where
  "namesWanted results known arp = map r_IP (filter (\<lambda>r. r_Err r = None \<and> r_Alive r \<and>
     (case known (r_IP r) of None \<Rightarrow> True
      | Some k \<Rightarrow> macConflict (si_MAC k) (str_at arp (r_IP r)) \<or> si_Hostname k \<in> {None, Some []})) results)"

definition nameRetryAfter :: int where "nameRetryAfter = 30 * minute"

definition resolve_todo :: "(string \<rightharpoonup> time) \<Rightarrow> time \<Rightarrow> string list \<Rightarrow> string list" where
  "resolve_todo miss now ips = filter (\<lambda>ip. case miss ip of None \<Rightarrow> True
     | Some t \<Rightarrow> \<not> now - t < nameRetryAfter) ips"

definition resolveAll :: "world \<Rightarrow> string list \<Rightarrow> ('s engine_scheme, string \<rightharpoonup> string) act" where
  "resolveAll w ips s =
     (if ips = [] then (Inr Map.empty, s)
      else (let todo = resolve_todo (nameMiss s) (w_now w) ips;
                out = (\<lambda>ip. if ip \<in> set todo then Some (w_resolve w ip) else None)
        in (Inr out, s\<lparr>nameMiss := (\<lambda>ip. case out ip of None \<Rightarrow> nameMiss s ip
              | Some name \<Rightarrow> if name = [] then Some (w_now w) else None)\<rparr>)))"

definition fillHostname :: "int \<Rightarrow> string \<Rightarrow> ('s engine_scheme, unit) act" where
  "fillHostname ifc name = (if name = [] then ret () else logged (SetIfaceHostnameIfEmpty ifc name))"

section \<open>Recording what the sweep saw\<close>

definition device_name_or_blank :: "int \<Rightarrow> ('s db_scheme, string) act" where
  "device_name_or_blank dev = bindA (attempt (GetDevice dev)) (\<lambda>r. case r of
     Inl _ \<Rightarrow> ret [] | Inr d \<Rightarrow> ret (dev_Name d))"

definition markSeen :: "int \<Rightarrow> int \<Rightarrow> rat \<Rightarrow> time \<Rightarrow> stamp \<Rightarrow> ('s engine_scheme, unit) act" where
  "markSeen ifc dev rtt now bucket =
     bindA (attempt (MarkSeen ifc rtt now)) (\<lambda>r.
     thenA (logged (RecordAvailability ifc True bucket))
     (if r = Inr True
      then bindA (device_name_or_blank dev) (\<lambda>name. Emit now ''online'' (Some dev) (name @ '' is online''))
      else ret ()))"

definition unknown_name :: "string \<Rightarrow> string \<Rightarrow> string \<Rightarrow> string" where
  "unknown_name resolved mac ip =
     (if resolved \<noteq> [] then resolved
      else if mac \<noteq> [] then (if IsPrivate mac then ''private-'' @ mac else ''unknown-'' @ mac)
      else ''unknown-'' @ ip)"

definition opt_str :: "string \<Rightarrow> string option" where
  "opt_str s = (if s = [] then None else Some s)"

text \<open>The dash of the message is the bytes of U+2014.\<close>

definition private_note :: string where
  "private_note = '' (randomized MAC '' @ [CHR 0xE2, CHR 0x80, CHR 0x94] @ '' may be a phone with Private Wi-Fi Address)''"

definition new_device :: "string \<Rightarrow> device" where
  "new_device name = \<lparr>dev_ID = 0, dev_Name = name, dev_Kind = ''other'', dev_Notes = [], dev_Vendor = [],
     dev_Source = ''scan'', dev_ParentDeviceID = None, dev_ProxmoxVMID = None, dev_WGPubKey = None, dev_Icon = [],
     dev_Reviewed = False, dev_Model = [], dev_Function = [], dev_UpstreamMissingSince = None\<rparr>"

definition createUnknown :: "int \<Rightarrow> result \<Rightarrow> string \<Rightarrow> string \<Rightarrow> time \<Rightarrow> stamp \<Rightarrow> ('s engine_scheme, int option) act" where
  "createUnknown sn r mac resolved now bucket =
     (let name = unknown_name resolved mac (r_IP r) in
      bindA (attempt (CreateDiscoveredDevice (new_device name) (opt_str mac) (opt_str resolved) sn (r_IP r) ''dhcp'')) (\<lambda>c.
      case c of
        Inl _ \<Rightarrow> ret None
      | Inr (dev, ifc) \<Rightarrow>
          thenA (logged (MarkSeen ifc (r_RTTms r) now))
          (thenA (logged (RecordAvailability ifc True bucket))
          (thenA (Emit now ''device_new'' (Some dev) (''New device '' @ name @ '' at '' @ r_IP r @
             (if IsPrivate mac then private_note else [])))
          (ret (Some ifc))))))"

text \<open>The accumulated maps of the loop: addresses alive, interfaces seen, addresses not probed.\<close>

record swept =
  sw_alive :: "string list"
  sw_seen :: "int list"
  sw_unknown :: "string list"

definition saw :: "int \<Rightarrow> string \<Rightarrow> swept \<Rightarrow> swept" where
  "saw ifc ip acc = acc\<lparr>sw_alive := ip # sw_alive acc, sw_seen := ifc # sw_seen acc\<rparr>"

text \<open>A known device that answered at a new address.\<close>

definition moved_iface :: "world \<Rightarrow> int \<Rightarrow> result \<Rightarrow> iface \<Rightarrow> string \<Rightarrow> string \<Rightarrow> stamp \<Rightarrow> ('s engine_scheme, unit) act" where
  "moved_iface w sn r f mac name bucket =
     thenA (logged (AssignIP (if_ID f) sn (r_IP r) ''dhcp''))
     (thenA (logged (RemoveIfaceIPsInSubnetExcept (if_ID f) sn (r_IP r)))
     (thenA (Emit (w_now w) ''ip_changed'' (Some (if_DeviceID f)) (''MAC '' @ mac @ '' now at '' @ r_IP r))
     (thenA (markSeen (if_ID f) (if_DeviceID f) (r_RTTms r) (w_now w) bucket)
     (fillHostname (if_ID f) name))))"

definition unknown_result :: "world \<Rightarrow> int \<Rightarrow> result \<Rightarrow> string \<Rightarrow> string \<Rightarrow> stamp \<Rightarrow> swept \<Rightarrow> ('s engine_scheme, swept) act" where
  "unknown_result w sn r mac name bucket acc =
     bindA (createUnknown sn r mac name (w_now w) bucket) (\<lambda>c. case c of
       None \<Rightarrow> ret (acc\<lparr>sw_alive := r_IP r # sw_alive acc\<rparr>)
     | Some ifc \<Rightarrow> ret (saw ifc (r_IP r) acc))"

definition one_result :: "world \<Rightarrow> int \<Rightarrow> (string \<rightharpoonup> subnet_iface_ip) \<Rightarrow> (string \<rightharpoonup> string) \<Rightarrow> (string \<rightharpoonup> string) \<Rightarrow> stamp \<Rightarrow>
    result \<Rightarrow> swept \<Rightarrow> ('s engine_scheme, swept) act" where
  "one_result w sn known arp names bucket r acc =
     (if r_Err r \<noteq> None then ret (acc\<lparr>sw_unknown := r_IP r # sw_unknown acc\<rparr>)
      else if \<not> r_Alive r then ret acc
      else (let mac = str_at arp (r_IP r); name = str_at names (r_IP r) in
        case (case known (r_IP r) of None \<Rightarrow> None | Some k \<Rightarrow> if macConflict (si_MAC k) mac then None else Some k) of
          Some k \<Rightarrow>
            thenA (markSeen (si_IfaceID k) (si_DeviceID k) (r_RTTms r) (w_now w) bucket)
            (thenA (fillHostname (si_IfaceID k) name)
            (ret (saw (si_IfaceID k) (r_IP r) acc)))
        | None \<Rightarrow>
            if mac = [] then unknown_result w sn r mac name bucket acc
            else bindA (attempt (FindIfaceByMAC mac)) (\<lambda>f. case f of
              Inr (Some f) \<Rightarrow> thenA (moved_iface w sn r f mac name bucket) (ret (saw (if_ID f) (r_IP r) acc))
            | _ \<Rightarrow> unknown_result w sn r mac name bucket acc)))"

definition excused :: "(string \<rightharpoonup> string) \<Rightarrow> swept \<Rightarrow> subnet_iface_ip \<Rightarrow> bool" where
  "excused arp acc k \<longleftrightarrow> si_IfaceID k \<in> set (sw_seen acc) \<or> si_IP k \<in> set (sw_unknown acc) \<or>
     (si_IP k \<in> set (sw_alive acc) \<and> \<not> macConflict (si_MAC k) (str_at arp (si_IP k)))"

definition miss_one :: "world \<Rightarrow> int \<Rightarrow> stamp \<Rightarrow> subnet_iface_ip \<Rightarrow> ('s engine_scheme, unit) act" where
  "miss_one w offline bucket k =
     bindA (attempt (MarkMissed (si_IfaceID k) offline)) (\<lambda>went.
     thenA (logged (RecordAvailability (si_IfaceID k) False bucket))
     (if went = Inr True
      then bindA (device_name_or_blank (si_DeviceID k)) (\<lambda>name.
             Emit (w_now w) ''offline'' (Some (si_DeviceID k)) (name @ '' ('' @ si_IP k @ '') went offline''))
      else ret ()))"

definition checkConflicts :: "world \<Rightarrow> subnet \<Rightarrow> ('s engine_scheme, unit) act" where
  "checkConflicts w sn = bindA (attempt (ConflictingIPs (sn_ID sn))) (\<lambda>r. case r of
     Inl _ \<Rightarrow> ret ()
   | Inr now \<Rightarrow> (\<lambda>s.
       let prev = (case conflictsSeen s (sn_ID sn) of None \<Rightarrow> [] | Some ips \<Rightarrow> ips);
           fresh = filter (\<lambda>(ip, names). ip \<notin> set prev) now
       in forA fresh (\<lambda>(ip, names). Emit (w_now w) ''ip_conflict'' None
            (ip @ '' in '' @ sn_CIDR sn @ '' is claimed by '' @ join '', '' names))
          (s\<lparr>conflictsSeen := (conflictsSeen s)(sn_ID sn \<mapsto> map fst now)\<rparr>)))"

definition ask_autofill :: "world \<Rightarrow> int \<Rightarrow> ('s engine_scheme, unit) act" where
  "ask_autofill w sn s = (Inr (), if w_autofill w
     then s\<lparr>probesAsked := probesAsked s @ [sn], kicks := kicks s + 1\<rparr> else s)"

text \<open>The start of the hour a time is in.\<close>

definition hour_bucket :: "time \<Rightarrow> stamp" where
  "hour_bucket now = rfc3339 (now div hour * hour)"

text \<open>The text of the errors a sweep fails with.\<close>

definition error_text :: "error \<Rightarrow> string" where
  "error_text e = (case e of
     ErrMsg m \<Rightarrow> m
   | ErrTooLarge c bits \<Rightarrow> ''subnet '' @ c @ '' is larger than the '' @ string_of_nat MaxSubnetAddresses @
       ''-address limit; use /'' @ string_of_nat bits @ '' or narrower''
   | _ \<Rightarrow> [])"

text \<open>The end of a sweep: the silent interfaces, the conflicts, the subscribers, autofill.\<close>

definition after_results :: "world \<Rightarrow> subnet \<Rightarrow> (string \<rightharpoonup> string) \<Rightarrow> int \<Rightarrow> subnet_iface_ip list \<Rightarrow> swept \<Rightarrow>
    ('s engine_scheme, unit) act" where
  "after_results w sn arp offline known acc =
     thenA (forA known (\<lambda>k. if excused arp acc k then ret () else miss_one w offline (hour_bucket (w_now w)) k))
     (thenA (checkConflicts w sn)
     (thenA (publish (''grid:'' @ string_of_int (sn_ID sn)) ''refresh'')
     (ask_autofill w (sn_ID sn))))"

definition record_sweep :: "world \<Rightarrow> subnet \<Rightarrow> (string \<rightharpoonup> string) \<Rightarrow> result list \<Rightarrow> int \<Rightarrow> subnet_iface_ip list \<Rightarrow>
    ('s engine_scheme, unit) act" where
  "record_sweep w sn arp results offline known =
     bindA (resolveAll w (namesWanted results (known_by_ip known) arp)) (\<lambda>names.
     bindA (foldA (one_result w (sn_ID sn) (known_by_ip known) arp names (hour_bucket (w_now w))) results
        \<lparr>sw_alive = [], sw_seen = [], sw_unknown = []\<rparr>)
     (after_results w sn arp offline known))"

definition RunSubnet :: "crypter option \<Rightarrow> world \<Rightarrow> subnet \<Rightarrow> ('s engine_scheme, unit) act" where
  "RunSubnet cr w sn = (case w_sweep w of
     Inl e \<Rightarrow> thenA (Emit (w_now w) ''scan_error'' None (''Subnet '' @ sn_CIDR sn @ '': '' @ error_text e)) (fail e)
   | Inr swept \<Rightarrow>
       (let arp = (case w_arp w of None \<Rightarrow> Map.empty | Some a \<Rightarrow> a) in
        bindA (presenceEnabled cr) (\<lambda>on.
        let results = (if on then map (mark_alive (confirmPresence w arp swept)) swept else swept) in
        bindA (offlineAfter cr) (\<lambda>offline.
        bindA (ListSubnetIfaceIPs (sn_ID sn)) (\<lambda>known.
        record_sweep w sn arp results offline known)))))"

end
