(* ===== verification/Scan_Inventory.thy ===== *)
theory Scan_Inventory
  imports Scan_Engine
begin

text \<open>
  What a sweep promises the people who keep the inventory: it only adds what it discovered, never
  takes or rewrites anything, whatever the network answers and wherever the database fails; and a
  known interface that answers is online afterwards.
\<close>

section \<open>A sweep loses nothing\<close>

definition iface_kept :: "iface \<Rightarrow> iface \<Rightarrow> bool" where
  "iface_kept f g \<longleftrightarrow> if_ID g = if_ID f \<and> if_DeviceID g = if_DeviceID f \<and> if_MAC g = if_MAC f \<and>
     (if_Hostname g = if_Hostname f \<or> if_Hostname f \<in> {None, Some []})"

definition static_ips :: "tables \<Rightarrow> ip_row list" where
  "static_ips t = filter (\<lambda>a. ip_Kind a = ''static'') (t_ip t)"

text \<open>The tables a sweep does not write to.\<close>

definition other_tables :: "tables \<Rightarrow> (open_port list \<times> subnet list \<times> tag list \<times> (int \<times> int) list \<times> custom_field list \<times>
    link list \<times> user list) \<times> (session list \<times> (string \<times> string) list \<times> integration_status list \<times> api_token list \<times>
    audit_entry list \<times> hint list \<times> autofill_record list)" where
  "other_tables t = ((t_port t, t_subnet t, t_tag t, t_device_tag t, t_field t, t_link t, t_user t),
     (t_session t, t_setting t, t_istatus t, t_token t, t_audit t, t_hint t, t_autofill t))"

definition nothing_lost :: "tables \<Rightarrow> tables \<Rightarrow> bool" where
  "nothing_lost t t' \<longleftrightarrow>
     (\<exists>ds. t_device t' = t_device t @ ds \<and> list_all (\<lambda>d. dev_Source d = ''scan'' \<and> \<not> dev_Reviewed d) ds) \<and>
     (\<exists>fs new. t_iface t' = fs @ new \<and> list_all2 iface_kept (t_iface t) fs) \<and>
     (\<exists>es. t_event t' = t_event t @ es) \<and>
     static_ips t' = static_ips t \<and> other_tables t' = other_tables t"

lemma iface_kept_refl: "list_all2 iface_kept fs fs"
  by (rule list_all2_refl) (simp add: iface_kept_def)

lemma iface_kept_trans: "iface_kept f g \<Longrightarrow> iface_kept g h \<Longrightarrow> iface_kept f h"
  by (auto simp: iface_kept_def)

lemma nothing_lostI:
  assumes "t_device t' = t_device t @ ds" and "list_all (\<lambda>d. dev_Source d = ''scan'' \<and> \<not> dev_Reviewed d) ds"
    and "t_iface t' = fs @ new" and "list_all2 iface_kept (t_iface t) fs" and "t_event t' = t_event t @ es"
    and "static_ips t' = static_ips t" and "other_tables t' = other_tables t"
  shows "nothing_lost t t'"
  unfolding nothing_lost_def using assms by blast

lemma nothing_lost_refl: "nothing_lost t t"
  by (rule nothing_lostI [where ds = "[]" and fs = "t_iface t" and new = "[]" and es = "[]"]) (simp_all add: iface_kept_refl)

lemma nothing_lost_trans:
  assumes "nothing_lost t u" and "nothing_lost u v"
  shows "nothing_lost t v"
proof -
  obtain ds ds' where d: "t_device u = t_device t @ ds" "t_device v = (t_device t @ ds) @ ds'"
    "list_all (\<lambda>d. dev_Source d = ''scan'' \<and> \<not> dev_Reviewed d) (ds @ ds')"
    using assms by (auto simp: nothing_lost_def)
  obtain fs new gs new' where f: "t_iface u = fs @ new" "list_all2 iface_kept (t_iface t) fs"
    "t_iface v = gs @ new'" "list_all2 iface_kept (fs @ new) gs"
    using assms by (auto simp: nothing_lost_def)
  then obtain gs1 gs2 where g: "gs = gs1 @ gs2" "list_all2 iface_kept fs gs1" by (auto simp: list_all2_append1)
  then have "list_all2 iface_kept (t_iface t) gs1" using f(2) iface_kept_trans list_all2_trans by blast
  then have "\<exists>hs new. t_iface v = hs @ new \<and> list_all2 iface_kept (t_iface t) hs" using f g by auto
  moreover have "\<exists>ds. t_device v = t_device t @ ds \<and> list_all (\<lambda>d. dev_Source d = ''scan'' \<and> \<not> dev_Reviewed d) ds"
    using d by auto
  moreover have "\<exists>es. t_event v = t_event t @ es" using assms by (auto simp: nothing_lost_def)
  ultimately show ?thesis using assms by (simp add: nothing_lost_def)
qed

text \<open>It is enough that each statement loses nothing of the tables it finds.\<close>

abbreviation loses_nothing :: "tables \<Rightarrow> ('s db_scheme, 'a) act \<Rightarrow> bool" where
  "loses_nothing t0 m \<equiv> keeps (\<lambda>s. nothing_lost t0 (tabs s)) m"

lemma loses_nothing_stmt:
  "(\<And>t a t'. f t = Inr (a, t') \<Longrightarrow> nothing_lost t t') \<Longrightarrow> loses_nothing t0 (stmt f)"
  by (rule keeps_stmt [where J = "nothing_lost t0"]) (use nothing_lost_trans in blast)

lemma loses_nothing_exec: "(\<And>t. nothing_lost t (snd (f t))) \<Longrightarrow> loses_nothing t0 (exec f)"
  by (rule keeps_exec [where J = "nothing_lost t0"]) (use nothing_lost_trans in blast)

lemmas loses_nothing_read =
  keeps_query [where J = "nothing_lost t0" for t0] keeps_query_row [where J = "nothing_lost t0" for t0]
  keeps_withTx [where J = "nothing_lost t0" for t0]

text \<open>A statement on the tables a sweep may write to freely.\<close>

lemma nothing_lost_status [simp]: "nothing_lost t (t\<lparr>t_status := x\<rparr>)" "nothing_lost t (t\<lparr>t_avail := y\<rparr>)"
  by (rule nothing_lostI [where ds = "[]" and fs = "t_iface t" and new = "[]" and es = "[]"];
      simp add: iface_kept_refl static_ips_def other_tables_def)+

lemma nothing_lost_ip: "filter (\<lambda>a. ip_Kind a = ''static'') x = static_ips t \<Longrightarrow> nothing_lost t (t\<lparr>t_ip := x\<rparr>)"
  by (rule nothing_lostI [where ds = "[]" and fs = "t_iface t" and new = "[]" and es = "[]"];
      simp add: iface_kept_refl static_ips_def other_tables_def)

lemma nothing_lost_device:
  "dev_Source d = ''scan'' \<Longrightarrow> \<not> dev_Reviewed d \<Longrightarrow> nothing_lost t (t\<lparr>t_device := t_device t @ [d]\<rparr>)"
  by (rule nothing_lostI [where ds = "[d]" and fs = "t_iface t" and new = "[]" and es = "[]"];
      simp add: iface_kept_refl static_ips_def other_tables_def)

lemma nothing_lost_iface: "list_all2 iface_kept (t_iface t) fs \<Longrightarrow> nothing_lost t (t\<lparr>t_iface := fs @ new\<rparr>)"
  by (rule nothing_lostI [where ds = "[]" and fs = fs and new = new and es = "[]"];
      simp add: static_ips_def other_tables_def)

lemma nothing_lost_event: "nothing_lost t (t\<lparr>t_event := t_event t @ [e]\<rparr>)"
  by (rule nothing_lostI [where ds = "[]" and fs = "t_iface t" and new = "[]" and es = "[e]"];
      simp add: iface_kept_refl static_ips_def other_tables_def)

section \<open>The statements of a sweep\<close>

lemma find_row_loses [pres_intros]: "loses_nothing t0 (find_row q)"
  unfolding find_row_def
  by (intro pres_intros loses_nothing_read) (auto intro: pres_intros split: error.splits)

lemma MarkSeen_loses [pres_intros]: "loses_nothing t0 (MarkSeen ifc rtt now)"
  unfolding MarkSeen_def Let_def seen_flip_def seen_refresh_def
  by (intro pres_intros loses_nothing_stmt loses_nothing_exec)
     (auto simp: seen_insert_def upd_status_def nothing_lost_refl split: if_splits)

lemma MarkMissed_loses [pres_intros]: "loses_nothing t0 (MarkMissed ifc n)"
  unfolding MarkMissed_def miss_count_def miss_flip_def
  by (intro pres_intros loses_nothing_exec) (auto simp: upd_status_def)

lemma RecordAvailability_loses [pres_intros]: "loses_nothing t0 (RecordAvailability ifc up b)"
  unfolding RecordAvailability_def
  by (rule loses_nothing_stmt) (auto simp: Let_def split: if_splits)

lemma GetSetting_loses [pres_intros]: "loses_nothing t0 (GetSetting cr key)"
  unfolding GetSetting_def rawSetting_def
  by (intro pres_intros loses_nothing_read)

lemma GetDevice_loses [pres_intros]: "loses_nothing t0 (GetDevice i)"
  unfolding GetDevice_def by (rule loses_nothing_read)

lemma Emit_loses [pres_intros]: "loses_nothing t0 (Emit now typ dev details)"
proof -
  have "loses_nothing t0 (AddEvent ts typ dev details)" for ts and t0 :: tables
    unfolding AddEvent_def by (rule loses_nothing_stmt) (auto simp: ins_event_def Let_def nothing_lost_event split: if_splits)
  moreover have "loses_nothing t0 (publish topic x)" "loses_nothing t0 (notify typ dev x)" for topic x and t0 :: tables
    by (simp_all add: keeps_def publish_def notify_def)
  ultimately show ?thesis unfolding Emit_def by (intro pres_intros)
qed

lemma AssignIP_loses [pres_intros]: "loses_nothing t0 (AssignIP ifc sn ip ''dhcp'')"
  unfolding AssignIP_def
  by (rule loses_nothing_stmt) (auto simp: ins_ip_def Let_def static_ips_def intro!: nothing_lost_ip split: if_splits)

lemma RemoveIfaceIPs_loses [pres_intros]: "loses_nothing t0 (RemoveIfaceIPsInSubnetExcept ifc sn ip)"
  unfolding RemoveIfaceIPsInSubnetExcept_def
  by (intro pres_intros loses_nothing_exec)
     (auto simp: del_ip_def del_where_def static_ips_def own_stale_def intro!: nothing_lost_ip filter_cong)

lemma SetIfaceHostname_loses [pres_intros]: "loses_nothing t0 (SetIfaceHostnameIfEmpty ifc name)"
proof -
  let ?hit = "\<lambda>f. if_ID f = ifc \<and> (if_Hostname f = None \<or> if_Hostname f = Some [])"
  have "list_all2 iface_kept fs (upd_where ?hit (\<lambda>f. f\<lparr>if_Hostname := Some name\<rparr>) fs)" for fs
    by (induction fs) (auto simp: upd_where_def iface_kept_def)
  then have "nothing_lost t (t\<lparr>t_iface := upd_where ?hit (\<lambda>f. f\<lparr>if_Hostname := Some name\<rparr>) (t_iface t)\<rparr>)" for t
    using nothing_lost_iface [of t _ "[]"] by simp
  then show ?thesis unfolding SetIfaceHostnameIfEmpty_def Let_def
    by (intro pres_intros loses_nothing_exec) simp
qed

lemma CreateDiscovered_loses [pres_intros]:
  "loses_nothing t0 (CreateDiscoveredDevice (new_device name) mac host sn ip ''dhcp'')"
proof -
  have "nothing_lost t t'" if "ins_device (new_device name) t = Inr (i, t')" for t t' i
    using that by (auto simp: ins_device_def Let_def new_device_def new_device_row_def intro!: nothing_lost_device split: if_splits)
  moreover have "nothing_lost t t'" if "ins_iface dev mac host t = Inr (i, t')" for t t' i dev
    using that iface_kept_refl by (auto simp: ins_iface_def Let_def intro!: nothing_lost_iface split: if_splits)
  moreover have "nothing_lost t t'" if "ins_ip ifc sn ip ''dhcp'' [] t = Inr (i, t')" for t t' i ifc
    using that by (auto simp: ins_ip_def Let_def static_ips_def intro!: nothing_lost_ip split: if_splits)
  ultimately show ?thesis unfolding CreateDiscoveredDevice_def insertDeviceOn_def
    by (intro pres_intros loses_nothing_read loses_nothing_stmt)
qed

lemma FindIface_loses [pres_intros]: "loses_nothing t0 (FindIfaceByMAC mac)"
  unfolding FindIfaceByMAC_def by (intro pres_intros)

lemma ListSubnetIfaceIPs_loses [pres_intros]: "loses_nothing t0 (ListSubnetIfaceIPs sn)"
  unfolding ListSubnetIfaceIPs_def by (rule loses_nothing_read)

lemma ConflictingIPs_loses [pres_intros]: "loses_nothing t0 (ConflictingIPs sn)"
  unfolding ConflictingIPs_def by (intro pres_intros loses_nothing_read)

section \<open>What the engine asks of the store\<close>

text \<open>
  The operations through which a sweep reaches the inventory, and the contract between them and a
  property of the state: each of them keeps it, \<open>MarkMissed\<close> for the interfaces in \<open>M\<close>, and
  the engine's own fields do not matter to it.
\<close>

locale sweep_store =
  fixes J :: "'s engine_scheme \<Rightarrow> bool" and M :: "int set"
  assumes own: "\<And>s s'. tabs s' = tabs s \<Longrightarrow> faults s' = faults s \<Longrightarrow> J s' = J s"
    and seen: "\<And>ifc rtt now. keeps J (MarkSeen ifc rtt now)"
    and missed: "\<And>ifc n. ifc \<in> M \<Longrightarrow> keeps J (MarkMissed ifc n)"
    and avail: "\<And>ifc up b. keeps J (RecordAvailability ifc up b)"
    and setting: "\<And>cr key. keeps J (GetSetting cr key)"
    and device: "\<And>i. keeps J (GetDevice i)"
    and emit: "\<And>now typ dev details. keeps J (Emit now typ dev details)"
    and assign: "\<And>ifc sn ip. keeps J (AssignIP ifc sn ip ''dhcp'')"
    and drop_ips: "\<And>ifc sn ip. keeps J (RemoveIfaceIPsInSubnetExcept ifc sn ip)"
    and hostname: "\<And>ifc name. keeps J (SetIfaceHostnameIfEmpty ifc name)"
    and discovered: "\<And>name mac host sn ip. keeps J (CreateDiscoveredDevice (new_device name) mac host sn ip ''dhcp'')"
    and by_mac: "\<And>mac. keeps J (FindIfaceByMAC mac)"
    and in_subnet: "\<And>sn. keeps J (ListSubnetIfaceIPs sn)"
    and conflicts: "\<And>sn. keeps J (ConflictingIPs sn)"
begin

lemmas ops = seen avail setting device emit assign drop_ips hostname discovered by_mac in_subnet conflicts

lemma resolveAll_keeps: "keeps J (resolveAll w ips)"
  by (auto simp: keeps_def resolveAll_def Let_def own [where s = s and s' = "s\<lparr>nameMiss := x\<rparr>" for s x])

lemma ask_autofill_keeps: "keeps J (ask_autofill w sn)"
  by (auto simp: keeps_def ask_autofill_def own [where s = s and s' = "s\<lparr>probesAsked := x, kicks := y\<rparr>" for s x y])

lemma publish_keeps: "keeps J (publish topic x)"
  by (auto simp: keeps_def publish_def own [where s = s and s' = "s\<lparr>published := y\<rparr>" for s y])

lemma settings_keep: "keeps J (presenceEnabled cr)" "keeps J (offlineAfter cr)"
  unfolding presenceEnabled_def offlineAfter_def by (intro pres_intros ops)+

lemma fillHostname_keeps: "keeps J (fillHostname ifc name)"
  unfolding fillHostname_def by (intro pres_intros ops)

lemma device_name_keeps: "keeps J (device_name_or_blank dev)"
  unfolding device_name_or_blank_def by (intro pres_intros ops)

lemma markSeen_keeps: "keeps J (markSeen ifc dev rtt now bucket)"
  unfolding markSeen_def by (intro pres_intros ops device_name_keeps)

lemma unknown_result_keeps: "keeps J (unknown_result w sn r mac name bucket acc)"
  unfolding unknown_result_def createUnknown_def by (intro pres_intros ops)

lemma one_result_keeps: "keeps J (one_result w sn known arp names bucket r acc)"
  unfolding one_result_def moved_iface_def
  by (intro pres_intros ops markSeen_keeps fillHostname_keeps unknown_result_keeps)

lemma miss_one_keeps: "si_IfaceID k \<in> M \<Longrightarrow> keeps J (miss_one w offline bucket k)"
  unfolding miss_one_def by (intro pres_intros ops missed device_name_keeps)

lemma checkConflicts_keeps: "keeps J (checkConflicts w sn)"
proof -
  have "keeps J (\<lambda>s. m s (s\<lparr>conflictsSeen := f s\<rparr>))" if "\<And>s. keeps J (m s)"
    for m :: "'s engine_scheme \<Rightarrow> ('s engine_scheme, unit) act" and f
    using that by (auto simp: keeps_def own [where s = s and s' = "s\<lparr>conflictsSeen := x\<rparr>" for s x])
  note own_state = this
  show ?thesis unfolding checkConflicts_def Let_def by (intro pres_intros ops own_state)
qed

lemma misses_keep:
  assumes "\<And>k. k \<in> set known \<Longrightarrow> si_IfaceID k \<in> M \<or> excused arp acc k"
  shows "keeps J (forA known (\<lambda>k. if excused arp acc k then ret () else miss_one w offline bucket k))"
  using assms
proof (induction known)
  case (Cons k known)
  then show ?case using miss_one_keeps [of k] by (auto intro!: pres_intros)
qed (simp add: keeps_ret)

lemma after_results_keeps:
  assumes "\<And>k. k \<in> set known \<Longrightarrow> si_IfaceID k \<in> M \<or> excused arp acc k"
  shows "keeps J (after_results w sn arp offline known acc)"
  unfolding after_results_def
  by (intro pres_intros misses_keep checkConflicts_keeps publish_keeps ask_autofill_keeps) (rule assms)

lemma RunSubnet_keeps:
  assumes "M = UNIV"
  shows "keeps J (RunSubnet cr w sn)"
proof -
  have "keeps J (record_sweep w sn arp results offline known)" for arp results offline known
    unfolding record_sweep_def
    by (intro pres_intros resolveAll_keeps one_result_keeps after_results_keeps) (simp add: assms)
  then show ?thesis
    unfolding RunSubnet_def Let_def by (intro pres_intros ops settings_keep)
qed

end

interpretation kept: sweep_store "\<lambda>s. nothing_lost t0 (tabs s)" UNIV for t0
  by unfold_locales (simp_all, (intro pres_intros)+)

text \<open>
  C11: A sweep loses nothing, whatever the network answers and whichever statements fail: every
  device, event and static address assignment is still there as it was, in its place; every
  interface still belongs to its device with its MAC, and a host name is only filled in where there
  was none; what is added are devices of source scan that wait for review; and no other table is
  touched.
\<close>

theorem RunSubnet_loses_nothing: "nothing_lost (tabs s) (tabs (snd (RunSubnet cr w sn s)))"
  by (rule keepsD [OF kept.RunSubnet_keeps]) (simp_all add: nothing_lost_refl)

end
