(* ===== verification/Scan_Seen.thy ===== *)
theory Scan_Seen
  imports Scan_Inventory
begin

text \<open>
  What a sweep tells of the interfaces it knows: one that answers is online with no misses when the
  sweep ends, and what one that stays silent is charged.
\<close>

section \<open>A database that does not fault stays so\<close>

named_theorems calm_intros \<open>an action leaves a calm database calm\<close>

lemma keeps_conj: "keeps I m \<Longrightarrow> keeps J m \<Longrightarrow> keeps (\<lambda>s. I s \<and> J s) m"
  by (simp add: keeps_def)

lemma calm_stmt [calm_intros]: "keeps calm (stmt f)"
  by (auto simp: keeps_def calm_def stmt_def Let_def split: sum.splits)

lemma calm_query [calm_intros]: "keeps calm (query f)" "keeps calm (query_row g)" "keeps calm (exec h)"
  unfolding query_def query_row_def exec_def by (rule calm_stmt)+

lemma calm_withTx [calm_intros]:
  fixes fn :: "('s db_scheme, 'a) act"
  assumes "keeps calm fn"
  shows "keeps calm (withTx fn)"
proof (rule keepsI)
  fix s :: "'s db_scheme" assume s: "calm s"
  obtain r s2 where f: "fn s = (r, s2)" by (cases "fn s")
  have s2: "calm s2" using keepsD [OF assms s] f by simp
  show "calm (snd (withTx fn s))"
    by (cases r) (simp_all add: withTx_calm [OF s] f query_calm [OF s2] rollback_def s2)
qed

lemma calm_find_row [calm_intros]: "keeps calm (find_row q)"
  unfolding find_row_def
  by (intro pres_intros calm_query) (auto intro: pres_intros split: error.splits)

lemma calm_publish [calm_intros]: "keeps calm (publish topic x)" "keeps calm (notify typ dev x)"
  by (simp_all add: keeps_def publish_def notify_def calm_def)

lemma calm_marks:
  "keeps calm (MarkSeen ifc rtt now)" "keeps calm (MarkMissed ifc n)" "keeps calm (RecordAvailability ifc up b)"
  unfolding MarkSeen_def MarkMissed_def RecordAvailability_def Let_def by (intro calm_intros pres_intros)+

lemma calm_reads:
  "keeps calm (GetDevice i)" "keeps calm (FindIfaceByMAC mac)" "keeps calm (ListSubnetIfaceIPs sn)"
  "keeps calm (ConflictingIPs sn)"
  unfolding GetDevice_def FindIfaceByMAC_def ListSubnetIfaceIPs_def ConflictingIPs_def
  by (intro calm_intros pres_intros)+

lemma calm_setting: "keeps calm (GetSetting cr key)"
  unfolding GetSetting_def rawSetting_def by (intro calm_intros pres_intros)

lemma calm_emit: "keeps calm (Emit now typ dev details)"
  unfolding Emit_def AddEvent_def by (intro calm_intros pres_intros)

lemma calm_addresses:
  "keeps calm (AssignIP ifc sn ip k)" "keeps calm (RemoveIfaceIPsInSubnetExcept ifc sn ip)"
  "keeps calm (SetIfaceHostnameIfEmpty ifc name)" "keeps calm (CreateDiscoveredDevice d m host sn ip k)"
  unfolding AssignIP_def RemoveIfaceIPsInSubnetExcept_def SetIfaceHostnameIfEmpty_def CreateDiscoveredDevice_def
    insertDeviceOn_def Let_def
  by (intro calm_intros pres_intros)+

lemmas calm_store = calm_marks calm_reads calm_setting calm_emit calm_addresses

section \<open>A sweep's loop runs to its end\<close>

text \<open>Actions that never return an error.\<close>

named_theorems total_intros \<open>an action returns no error\<close>

definition total :: "('s, 'a) act \<Rightarrow> bool" where
  "total m \<longleftrightarrow> (\<forall>s. \<exists>a. fst (m s) = Inr a)"

lemma total_ret [total_intros]: "total (ret a)" "total (attempt m)" "total (logged n)"
  by (simp_all add: total_def attempt_def logged_def split: prod.splits)

lemma total_bind [total_intros]:
  assumes "total m" and "\<And>a. total (k a)"
  shows "total (bindA m k)"
  unfolding total_def
proof
  fix s
  obtain a where "fst (m s) = Inr a" using assms(1) by (auto simp: total_def)
  then have "bindA m k s = k a (snd (m s))" by (cases "m s") (simp add: bindA_def)
  then show "\<exists>b. fst (bindA m k s) = Inr b" using assms(2) by (simp add: total_def)
qed

lemma total_then [total_intros]: "total m \<Longrightarrow> total n \<Longrightarrow> total (thenA m n)"
  unfolding thenA_def by (rule total_bind)

lemma total_case [total_intros]:
  "total m \<Longrightarrow> total n \<Longrightarrow> total (if b then m else n)"
  "total m \<Longrightarrow> (\<And>x. total (f x)) \<Longrightarrow> total (case v of None \<Rightarrow> m | Some x \<Rightarrow> f x)"
  "(\<And>e. total (g e)) \<Longrightarrow> (\<And>x. total (f' x)) \<Longrightarrow> total (case w of Inl e \<Rightarrow> g e | Inr x \<Rightarrow> f' x)"
  "(\<And>a b. total (h a b)) \<Longrightarrow> total (case p of (a, b) \<Rightarrow> h a b)"
  by (simp, cases v, auto, cases w, auto, cases p, auto)

lemma total_foldA [total_intros]: "(\<And>x b. total (f x b)) \<Longrightarrow> total (foldA f xs b)"
  by (induction xs arbitrary: b) (auto intro: total_intros)

lemma total_emit [total_intros]: "total (Emit now typ dev details)" "total (publish topic x)"
proof -
  show "total (publish topic x)" by (simp add: total_def publish_def)
  moreover have "total (notify typ dev y)" for y by (simp add: total_def notify_def)
  moreover have "total (publish ''events'' y)" for y by (simp add: total_def publish_def)
  ultimately show "total (Emit now typ dev details)"
    unfolding Emit_def by (intro total_intros)
qed

lemma total_resolveAll [total_intros]: "total (resolveAll w ips)"
  by (simp add: total_def resolveAll_def Let_def)

lemma total_parts [total_intros]:
  "total (fillHostname ifc name)" "total (device_name_or_blank dev)"
  unfolding fillHostname_def device_name_or_blank_def by (intro total_intros)+

lemma total_markSeen [total_intros]: "total (markSeen ifc dev rtt now bucket)"
  unfolding markSeen_def by (intro total_intros)

lemma total_unknown_result [total_intros]: "total (unknown_result w sn r mac name bucket acc)"
  unfolding unknown_result_def createUnknown_def Let_def by (intro total_intros)

lemma total_one_result [total_intros]: "total (one_result w sn known arp names bucket r acc)"
  unfolding one_result_def moved_iface_def Let_def by (intro total_intros)

text \<open>What a successful action's value satisfies.\<close>

named_theorems gives_intros \<open>the values an action may return\<close>

definition gives :: "('a \<Rightarrow> bool) \<Rightarrow> ('s, 'a) act \<Rightarrow> bool" where
  "gives P m \<longleftrightarrow> (\<forall>s a s'. m s = (Inr a, s') \<longrightarrow> P a)"

lemma givesD: "gives P m \<Longrightarrow> m s = (Inr a, s') \<Longrightarrow> P a"
  unfolding gives_def by blast

lemma gives_bind [gives_intros]: "(\<And>a. gives P (k a)) \<Longrightarrow> gives P (bindA m k)"
  unfolding gives_def by (blast elim: bindA_InrE)

lemma gives_then [gives_intros]: "gives P n \<Longrightarrow> gives P (thenA m n)"
  unfolding thenA_def by (rule gives_bind)

lemma gives_case [gives_intros]:
  "gives P m \<Longrightarrow> gives P n \<Longrightarrow> gives P (if b then m else n)"
  "gives P m \<Longrightarrow> (\<And>x. gives P (f x)) \<Longrightarrow> gives P (case v of None \<Rightarrow> m | Some x \<Rightarrow> f x)"
  "(\<And>e. gives P (g e)) \<Longrightarrow> (\<And>x. gives P (f' x)) \<Longrightarrow> gives P (case w of Inl e \<Rightarrow> g e | Inr x \<Rightarrow> f' x)"
  by (simp, cases v, auto, cases w, auto)

text \<open>No result makes the sweep forget an interface it has seen.\<close>

lemma one_result_seen_grows:
  "gives (\<lambda>acc'. set (sw_seen acc) \<subseteq> set (sw_seen acc')) (one_result w sn known arp names bucket r acc)"
proof -
  have r: "gives (\<lambda>acc'. set (sw_seen acc) \<subseteq> set (sw_seen acc')) (ret acc')" if "set (sw_seen acc) \<subseteq> set (sw_seen acc')"
    for acc' using that by (simp add: gives_def)
  show ?thesis unfolding one_result_def unknown_result_def Let_def
    by (intro gives_intros r) (auto simp: saw_def)
qed

section \<open>An interface that is up\<close>

definition online_now :: "int \<Rightarrow> tables \<Rightarrow> bool" where
  "online_now i t = list_ex (\<lambda>r. st_IfaceID r = i \<and> st_Online r \<and> st_Missed r = 0) (t_status t)"

abbreviation stays_up :: "int \<Rightarrow> ('s db_scheme, 'a) act \<Rightarrow> bool" where
  "stays_up i m \<equiv> keeps (\<lambda>s. online_now i (tabs s)) m"

lemma online_nowI:
  "r \<in> set (t_status t) \<Longrightarrow> st_IfaceID r = i \<Longrightarrow> st_Online r \<Longrightarrow> st_Missed r = 0 \<Longrightarrow> online_now i t"
  by (auto simp: online_now_def list_ex_iff)

lemma upd_status_mem:
  "r \<in> set (t_status t) \<Longrightarrow> (if P r then f r else r) \<in> set (t_status (snd (upd_status P f t)))"
  by (auto simp: upd_status_def upd_where_def)

lemma online_now_upd_status:
  assumes "online_now i t" and "\<And>r. st_IfaceID r = i \<Longrightarrow> P r \<Longrightarrow> st_Online r \<Longrightarrow> st_Missed r = 0 \<Longrightarrow>
    st_IfaceID (f r) = i \<and> st_Online (f r) \<and> st_Missed (f r) = 0"
  shows "online_now i (snd (upd_status P f t))"
proof -
  obtain r where "r \<in> set (t_status t)" "st_IfaceID r = i" "st_Online r" "st_Missed r = 0"
    using assms(1) by (auto simp: online_now_def list_ex_iff)
  then show ?thesis using upd_status_mem [of r t P f] assms(2) [of r]
    by (intro online_nowI [where r = "if P r then f r else r"]) simp_all
qed

lemma online_now_same_status: "t_status t' = t_status t @ x \<Longrightarrow> online_now i t \<Longrightarrow> online_now i t'"
  by (simp add: online_now_def)

lemma stays_up_stmt:
  "(\<And>t a t'. f t = Inr (a, t') \<Longrightarrow> \<exists>x. t_status t' = t_status t @ x) \<Longrightarrow> stays_up i (stmt f)"
  by (rule keeps_stmt [where J = "online_now i"]) (use online_now_same_status in blast)

lemma stays_up_exec: "(\<And>t. t_status (snd (f t)) = t_status t) \<Longrightarrow> stays_up i (exec f)"
  by (rule keeps_exec [where J = "online_now i"]) (simp add: online_now_def)

lemma stays_up_read:
  "stays_up i (query f)" "stays_up i (query_row g)"
  by (rule keeps_query [where J = "online_now i"], rule keeps_query_row [where J = "online_now i"])

lemma stays_up_tx: "stays_up i fn \<Longrightarrow> stays_up i (withTx fn)"
  by (rule keeps_withTx [where J = "online_now i"])

lemma stays_up_find_row: "stays_up i (find_row q)"
  unfolding find_row_def
  by (intro pres_intros stays_up_read) (auto intro: pres_intros split: error.splits)

lemma stays_up_seen: "stays_up i (MarkSeen ifc rtt now)"
proof -
  have "stays_up i (exec (seen_flip ifc rtt ts))" "stays_up i (exec (seen_refresh ifc rtt ts))" for ts
    unfolding seen_flip_def seen_refresh_def
    by (rule keeps_exec [where J = "online_now i"], rule online_now_upd_status, assumption, simp)+
  moreover have "stays_up i (stmt (seen_insert ifc rtt ts))" for ts
    by (rule stays_up_stmt) (auto simp: seen_insert_def split: if_splits)
  ultimately show ?thesis unfolding MarkSeen_def Let_def by (intro pres_intros)
qed

lemma stays_up_missed: "ifc \<in> - {i} \<Longrightarrow> stays_up i (MarkMissed ifc n)"
proof -
  assume "ifc \<in> - {i}"
  then have "stays_up i (exec (miss_count ifc))" "stays_up i (exec (miss_flip ifc n))"
    unfolding miss_count_def miss_flip_def
    by (auto intro!: keeps_exec [where J = "online_now i"] online_now_upd_status)
  then show ?thesis unfolding MarkMissed_def by (intro pres_intros)
qed

lemma stays_up_reads:
  "stays_up i (GetSetting cr key)" "stays_up i (GetDevice d)" "stays_up i (FindIfaceByMAC mac)"
  "stays_up i (ListSubnetIfaceIPs sn)" "stays_up i (ConflictingIPs sn)"
  unfolding GetSetting_def rawSetting_def GetDevice_def FindIfaceByMAC_def ListSubnetIfaceIPs_def ConflictingIPs_def
  by (intro pres_intros stays_up_read stays_up_find_row)+

text \<open>Statements on other tables.\<close>

lemma stays_up_inserts:
  "stays_up i (RecordAvailability ifc up b)" "stays_up i (AddEvent ts typ dev details)"
  "stays_up i (stmt (ins_ip ifc sn ip k src))" "stays_up i (stmt (ins_iface owner mac host))"
  "stays_up i (stmt (ins_device d))"
  unfolding RecordAvailability_def AddEvent_def
  by (rule stays_up_stmt; auto simp: ins_event_def ins_ip_def ins_iface_def ins_device_def Let_def split: if_splits)+

lemma stays_up_updates:
  "stays_up i (RemoveIfaceIPsInSubnetExcept ifc sn ip)" "stays_up i (SetIfaceHostnameIfEmpty ifc name)"
  unfolding RemoveIfaceIPsInSubnetExcept_def SetIfaceHostnameIfEmpty_def Let_def
  by (intro pres_intros stays_up_exec; simp add: del_ip_def)+

lemma stays_up_emit: "stays_up i (Emit now typ dev details)"
proof -
  have "stays_up i (publish topic x)" "stays_up i (notify typ dev x)" for topic x
    by (simp_all add: keeps_def publish_def notify_def)
  then show ?thesis unfolding Emit_def by (intro pres_intros stays_up_inserts)
qed

lemma stays_up_discovered: "stays_up i (CreateDiscoveredDevice d mac host sn ip k)"
  unfolding CreateDiscoveredDevice_def insertDeviceOn_def
  by (intro pres_intros stays_up_tx stays_up_inserts)

lemma stays_up_assign: "stays_up i (AssignIP ifc sn ip k)"
  unfolding AssignIP_def by (rule stays_up_inserts)

interpretation up: sweep_store "\<lambda>s. calm s \<and> online_now i (tabs s)" "- {i}" for i
proof unfold_locales
  show "(calm s' \<and> online_now i (tabs s')) = (calm s \<and> online_now i (tabs s))"
    if "tabs s' = tabs s" "faults s' = faults s" for s s' :: "'a engine_scheme"
    using that by (simp add: calm_def)
qed (intro keeps_conj calm_store stays_up_seen stays_up_missed stays_up_reads stays_up_inserts stays_up_updates
       stays_up_emit stays_up_discovered stays_up_assign; assumption?)+

interpretation quiet: sweep_store calm UNIV
proof unfold_locales
  show "calm s' = calm s" if "tabs s' = tabs s" "faults s' = faults s" for s s' :: "'a engine_scheme"
    using that by (simp add: calm_def)
qed (intro calm_store)+

section \<open>Who answers is online\<close>

lemma MarkSeen_online:
  assumes "calm s" and "i \<in> set (if_ids (tabs s))"
  shows "calm (snd (MarkSeen i rtt now s)) \<and> online_now i (tabs (snd (MarkSeen i rtt now s)))"
proof -
  let ?ts = "rfc3339 now" let ?t = "tabs s" let ?off = "\<lambda>r. st_IfaceID r = i \<and> \<not> st_Online r"
  have c: "calm (s\<lparr>tabs := t\<rparr>)" for t using assms(1) by simp
  show ?thesis
  proof (cases "i \<in> st_IfaceID ` set (t_status ?t)")
    case False
    then show ?thesis using assms
      by (simp add: MarkSeen_def Let_def bindA_def act_simps seen_insert_def online_now_def)
  next
    case True
    then have ins: "stmt (seen_insert i rtt ?ts) s = (Inr 0, s)"
      using assms(1) by (simp add: act_simps seen_insert_def)
    obtain r where r: "r \<in> set (t_status ?t)" "st_IfaceID r = i" using True by auto
    have refreshed: "online_now i (snd (seen_refresh i rtt ?ts (snd (seen_flip i rtt ?ts ?t))))"
      using upd_status_mem [OF upd_status_mem [OF r(1)]] r(2) unfolding seen_flip_def seen_refresh_def
      by (rule_tac online_nowI) (assumption, simp_all)
    have flipped: "online_now i (snd (seen_flip i rtt ?ts ?t))" if "count_where ?off (t_status ?t) = 1"
    proof -
      have "filter ?off (t_status ?t) \<noteq> []" using that by (auto simp: count_where_def)
      then obtain x where x: "x \<in> set (t_status ?t)" "?off x" by (auto simp: filter_empty_conv)
      show ?thesis
        using upd_status_mem [OF x(1)] x(2) unfolding seen_flip_def
        by (rule_tac online_nowI) (assumption, simp_all)
    qed
    have n: "fst (seen_flip i rtt ?ts ?t) = count_where ?off (t_status ?t)"
      by (simp add: seen_flip_def upd_status_def)
    show ?thesis using refreshed flipped
      by (simp add: MarkSeen_def Let_def bindA_def thenA_def ins exec_calm [OF assms(1)] exec_calm [OF c] n assms(1))
  qed
qed

text \<open>A state reached on the way stays good when the rest keeps it.\<close>

lemma bindA_then_keeps:
  assumes "J (snd (m s))" and "\<And>a. keeps J (k a)"
  shows "J (snd (bindA m k s))"
  using assms by (cases "m s", cases "fst (m s)") (auto simp: bindA_def keeps_def)

lemma attempt_state: "snd (attempt m s) = snd (m s)"
  by (simp add: attempt_def split: prod.splits)

lemma thenA_then_keeps: "J (snd (m s)) \<Longrightarrow> keeps J n \<Longrightarrow> J (snd (thenA m n s))"
  unfolding thenA_def by (rule bindA_then_keeps)

abbreviation calm_up :: "int \<Rightarrow> 's db_scheme \<Rightarrow> bool" where
  "calm_up i s \<equiv> calm s \<and> online_now i (tabs s)"

lemma markSeen_online:
  assumes "calm s" and "i \<in> set (if_ids (tabs s))"
  shows "calm_up i (snd (markSeen i dev rtt now bucket s))"
proof -
  have "calm_up i (snd (attempt (MarkSeen i rtt now) s))"
    using MarkSeen_online [OF assms] by (simp add: attempt_state)
  then show ?thesis unfolding markSeen_def
    by (rule bindA_then_keeps) (intro pres_intros up.ops up.device_name_keeps)
qed

lemma one_result_sees:
  assumes "r_Err r = None" and "r_Alive r" and "known (r_IP r) = Some k"
    and "\<not> macConflict (si_MAC k) (str_at arp (r_IP r))"
    and "calm s" and "si_IfaceID k \<in> set (if_ids (tabs s))"
    and "one_result w sn known arp names bucket r acc s = (Inr acc', s')"
  shows "calm_up (si_IfaceID k) s' \<and> si_IfaceID k \<in> set (sw_seen acc')"
proof -
  let ?rest = "thenA (fillHostname (si_IfaceID k) (str_at names (r_IP r))) (ret (saw (si_IfaceID k) (r_IP r) acc))"
  have run: "one_result w sn known arp names bucket r acc =
      thenA (markSeen (si_IfaceID k) (si_DeviceID k) (r_RTTms r) (w_now w) bucket) ?rest"
    using assms(1-4) by (simp add: one_result_def Let_def)
  have "calm_up (si_IfaceID k) (snd (thenA (markSeen (si_IfaceID k) (si_DeviceID k) (r_RTTms r) (w_now w) bucket) ?rest s))"
    using markSeen_online [OF assms(5,6)]
    by (rule thenA_then_keeps) (intro pres_intros up.fillHostname_keeps)
  moreover have "si_IfaceID k \<in> set (sw_seen acc')"
    using assms(7) unfolding run by (auto simp: saw_def elim!: thenA_InrE)
  ultimately show ?thesis using assms(7) unfolding run by simp
qed

lemma kept_ids: "list_all2 iface_kept fs gs \<Longrightarrow> map if_ID gs = map if_ID fs"
  by (induction rule: list_all2_induct) (simp_all add: iface_kept_def)

lemma nothing_lost_ids: "nothing_lost t t' \<Longrightarrow> set (if_ids t) \<subseteq> set (if_ids t')"
  using kept_ids by (fastforce simp: nothing_lost_def if_ids_def simp del: set_map)

lemma fold_results_sees:
  assumes "r \<in> set results" and "r_Err r = None" and "r_Alive r" and "known (r_IP r) = Some k"
    and "\<not> macConflict (si_MAC k) (str_at arp (r_IP r))"
    and "calm s" and "si_IfaceID k \<in> set (if_ids (tabs s))"
    and "foldA (one_result w sn known arp names bucket) results acc s = (Inr acc', s')"
  shows "calm_up (si_IfaceID k) s' \<and> si_IfaceID k \<in> set (sw_seen acc')"
proof -
  let ?i = "si_IfaceID k"
  let ?R = "\<lambda>ys acc s. calm s \<and> ?i \<in> set (if_ids (tabs s)) \<and>
    (r \<in> set ys \<longrightarrow> calm_up ?i s \<and> ?i \<in> set (sw_seen acc))"
  have "?R results acc' s'"
    using assms(8)
  proof (rule foldA_InrI [where R = ?R])
    fix ys x acc and s :: "'a engine_scheme" and acc' s'
    assume R: "?R ys acc s" and run: "one_result w sn known arp names bucket x acc s = (Inr acc', s')"
    have "nothing_lost (tabs s) (tabs s')"
      using keepsD [OF kept.one_result_keeps nothing_lost_refl, of s] run by (metis snd_conv)
    then have ids: "?i \<in> set (if_ids (tabs s'))" using nothing_lost_ids R by blast
    have up: "calm_up ?i s'" if "calm_up ?i s" using keepsD [OF up.one_result_keeps that] run by (metis snd_conv)
    have calm: "calm s'" using keepsD [OF quiet.one_result_keeps] R run by (metis snd_conv)
    have seen: "set (sw_seen acc) \<subseteq> set (sw_seen acc')" using givesD [OF one_result_seen_grows run] .
    have now: "calm_up ?i s' \<and> ?i \<in> set (sw_seen acc')" if "x = r"
      by (rule one_result_sees [where known = known and k = k and r = r, OF assms(2-5)])
        (use R run that in blast)+
    show "?R (ys @ [x]) acc' s'" using ids up calm seen now R by auto
  qed (use assms(6,7) in simp)
  then show ?thesis using assms(1) by simp
qed

lemma resolveAll_runs: "\<exists>names s1. resolveAll w ips s = (Inr names, s1) \<and> tabs s1 = tabs s \<and> faults s1 = faults s"
  by (simp add: resolveAll_def Let_def)

lemma record_sweep_sees:
  fixes s :: "'s engine_scheme"
  assumes "r \<in> set results" and "r_Err r = None" and "r_Alive r" and "known_by_ip known (r_IP r) = Some k"
    and "\<not> macConflict (si_MAC k) (str_at arp (r_IP r))"
    and "calm s" and "si_IfaceID k \<in> set (if_ids (tabs s))"
  shows "calm_up (si_IfaceID k) (snd (record_sweep w sn arp results offline known s))"
proof -
  let ?f = "\<lambda>names. one_result w (sn_ID sn) (known_by_ip known) arp names (hour_bucket (w_now w))"
  obtain names s1 where n: "resolveAll w (namesWanted results (known_by_ip known) arp) s = (Inr names, s1)"
    and s1: "tabs s1 = tabs s" "faults s1 = faults s"
    using resolveAll_runs [of w _ s] by metis
  then have s1': "calm s1" "si_IfaceID k \<in> set (if_ids (tabs s1))" using assms by (simp_all add: calm_def)
  let ?acc0 = "\<lparr>sw_alive = [], sw_seen = [], sw_unknown = []\<rparr>"
  have "total (foldA (?f names) results ?acc0)" by (intro total_intros)
  then obtain acc s2 where f: "foldA (?f names) results ?acc0 s1 = (Inr acc, s2)"
    by (metis total_def prod.collapse)
  have s2: "calm_up (si_IfaceID k) s2" "si_IfaceID k \<in> set (sw_seen acc)"
    using fold_results_sees [where known = "known_by_ip known" and k = k and r = r, OF assms(1-5) s1' f] by simp_all
  have "keeps (calm_up (si_IfaceID k)) (after_results w sn arp offline known acc)"
    by (rule up.after_results_keeps) (use s2(2) in \<open>auto simp: excused_def\<close>)
  then have "calm_up (si_IfaceID k) (snd (after_results w sn arp offline known acc s2))"
    using s2(1) by (rule keepsD)
  then show ?thesis by (simp add: record_sweep_def bindA_def n f)
qed

lemma find_row_keeps_tables: "keeps (\<lambda>s. tabs s = t) (find_row q)"
  unfolding find_row_def
  by (intro pres_intros keeps_query_row [where J = "\<lambda>u. u = t"]) (auto intro: pres_intros split: error.splits)

lemma GetSetting_keeps_tables: "keeps (\<lambda>s. tabs s = t) (GetSetting cr key)"
  unfolding GetSetting_def rawSetting_def by (intro pres_intros find_row_keeps_tables)

lemma settings_keep_tables:
  "keeps (\<lambda>s. tabs s = t) (presenceEnabled cr)" "keeps (\<lambda>s. tabs s = t) (offlineAfter cr)"
  unfolding presenceEnabled_def offlineAfter_def by (intro pres_intros GetSetting_keeps_tables)+

lemma settings_total: "total (presenceEnabled cr)" "total (offlineAfter cr)"
  unfolding presenceEnabled_def offlineAfter_def by (intro total_intros)+

lemma mark_alive_keeps:
  "r_IP (mark_alive c r) = r_IP r" "r_Err (mark_alive c r) = r_Err r" "r_Alive r \<Longrightarrow> r_Alive (mark_alive c r)"
  by (simp_all add: mark_alive_def split: option.splits)

lemma setting_runs:
  fixes m :: "('s db_scheme, 'a) act"
  assumes "total m" and "keeps calm m" and "\<And>t. keeps (\<lambda>s. tabs s = t) m" and "calm s"
  obtains a s1 where "m s = (Inr a, s1)" and "calm s1" and "tabs s1 = tabs s"
proof -
  obtain a where "m s = (Inr a, snd (m s))" using assms(1) by (metis total_def prod.collapse)
  moreover have "calm (snd (m s))" using assms(2,4) by (rule keepsD)
  moreover have "tabs (snd (m s)) = tabs s" using keepsD [OF assms(3) refl] .
  ultimately show thesis by (rule that)
qed

lemma map_filter_mem: "x \<in> set (List.map_filter f xs) \<Longrightarrow> \<exists>y \<in> set xs. f y = Some x"
  by (auto simp: map_filter_def)

lemma find_iface_id: "find_iface i t = Some f \<Longrightarrow> if_ID f \<in> set (if_ids t)"
  by (auto simp: find_iface_def if_ids_def dest: find_SomeD)

lemma known_iface_exists:
  assumes "known_by_ip (subnet_iface_ips sn t) ip = Some k"
  shows "si_IfaceID k \<in> set (if_ids t)"
proof -
  have "k \<in> set (subnet_iface_ips sn t)" using find_SomeD [OF assms [unfolded known_by_ip_def]] by simp
  then show ?thesis unfolding subnet_iface_ips_def
    by (auto dest!: map_filter_mem find_iface_id split: if_splits)
qed


text \<open>The sample network with the engine around it, and what a sweep of it may answer.\<close>

definition sample_engine :: "tables \<Rightarrow> engine" where
  "sample_engine t = \<lparr>tabs = t, faults = [], published = [], notified = [], nameMiss = Map.empty,
     conflictsSeen = Map.empty, probesAsked = [], kicks = 0\<rparr>"

definition answer :: "string \<Rightarrow> bool \<Rightarrow> result" where
  "answer ip up = \<lparr>r_IP = ip, r_Alive = up, r_RTTms = (if up then 1 else 0), r_Err = None\<rparr>"

definition sample_world :: "result list \<Rightarrow> world" where
  "sample_world rs = \<lparr>w_sweep = Inr rs, w_arp = None, w_again = None, w_presence = None,
     w_resolve = (\<lambda>_. []), w_autofill = False, w_now = 0\<rparr>"


section \<open>Who stays silent at several addresses\<close>

text \<open>The sample network where the server, online, has three addresses.\<close>

definition three_homed :: tables where
  "three_homed = sample_tables
     \<lparr>t_ip := t_ip sample_tables @
        [\<lparr>ip_ID = 3, ip_IfaceID = 1, ip_SubnetID = 1, ip_IP = ''10.0.0.3'', ip_Kind = ''static'', ip_Source = []\<rparr>,
         \<lparr>ip_ID = 4, ip_IfaceID = 1, ip_SubnetID = 1, ip_IP = ''10.0.0.4'', ip_Kind = ''static'', ip_Source = []\<rparr>],
      t_status := [\<lparr>st_IfaceID = 1, st_Online = True, st_FirstSeen = Some 0, st_LastSeen = Some 0,
        st_LastRTT = Some 1, st_Missed = 0\<rparr>]\<rparr>"

definition silent_world :: world where
  "silent_world = sample_world
     [answer ''10.0.0.2'' False, answer ''10.0.0.3'' False, answer ''10.0.0.4'' False, answer ''10.0.0.9'' False]"

text \<open>
  The closing loop of a sweep goes through addresses, not interfaces: an online interface with
  three addresses that are all silent is charged three misses by one sweep, so that with the default
  allowance of three missed sweeps it goes offline after the first, and the sweep counts three times
  in its availability.
\<close>

theorem silent_once_missed_thrice:
  "let t = tabs (snd (RunSubnet None silent_world (hd (t_subnet sample_tables)) (sample_engine three_homed)))
   in map (\<lambda>r. (st_IfaceID r, st_Online r, st_Missed r)) (t_status t) = [(1, False, 3)] \<and>
      map (\<lambda>r. (av_IfaceID r, av_Up r, av_Total r)) (t_avail t) = [(1, 0, 3), (2, 0, 1)]"
  by code_simp

end
