(* ===== verification/Store_Autofill.thy ===== *)
theory Store_Autofill
  imports Store_Meta
begin

text \<open>
  internal/store/autofill.go: the hints each source has for a device, and the writes an
  autofill pass makes to it. A write is conditional on the value the pass read, so whatever
  happened in between, a person's edit wins.
\<close>

section \<open>Hints\<close>

text \<open>The primary key of device_hint, and the order ListHints returns hints in.\<close>

definition hint_key :: "hint \<Rightarrow> int \<times> string \<times> string \<times> string" where
  "hint_key h = (hi_DeviceID h, hi_Source h, hi_Field h, hi_Value h)"

definition ins_hint :: "hint \<Rightarrow> tables \<Rightarrow> error + (unit \<times> tables)" where
  "ins_hint h t =
     (if hi_DeviceID h \<notin> set (dev_ids t) then Inl ErrForeignKey
      else if hint_key h \<in> set (map hint_key (t_hint t)) then Inl ErrUnique
      else Inr ((), t\<lparr>t_hint := t_hint t @ [h]\<rparr>))"

definition source_hint :: "int \<Rightarrow> string \<Rightarrow> hint \<Rightarrow> bool" where
  "source_hint dev src h \<longleftrightarrow> hi_DeviceID h = dev \<and> hi_Source h = src"

definition ReplaceHints :: "int \<Rightarrow> string \<Rightarrow> hint list \<Rightarrow> ('s db_scheme, unit) act" where
  "ReplaceHints dev src hints = withTx (
     thenA (exec (\<lambda>t. (count_where (source_hint dev src) (t_hint t),
                       t\<lparr>t_hint := del_where (source_hint dev src) (t_hint t)\<rparr>)))
     (forA hints (\<lambda>h. stmt (ins_hint (h\<lparr>hi_DeviceID := dev, hi_Source := src\<rparr>)))))"

definition ListHints :: "int \<Rightarrow> ('s db_scheme, hint list) act" where
  "ListHints dev = query (\<lambda>t.
     order_by hi_Field (order_by (\<lambda>h. - hi_Confidence h) (order_by hi_Source (order_by hi_Value
       (filter (\<lambda>h. hi_DeviceID h = dev) (t_hint t))))))"

definition ListAutofill :: "int \<Rightarrow> ('s db_scheme, autofill_record list) act" where
  "ListAutofill dev = query (\<lambda>t. order_by af_Field (filter (\<lambda>r. af_DeviceID r = dev) (t_autofill t)))"

section \<open>The changes of one pass\<close>

record autofill_write =
  aw_Field :: string
  aw_Value :: string
  aw_Source :: string
  aw_Expect :: string
  aw_Unreviewed :: bool

record autofill_tag =
  ag_Name :: string
  ag_Source :: string

record autofill_changes =
  ac_Writes :: "autofill_write list"
  ac_Tags :: "autofill_tag list"
  ac_Own :: "string list"

definition EmptyChanges :: "autofill_changes \<Rightarrow> bool" where
  "EmptyChanges ch \<longleftrightarrow> ac_Writes ch = [] \<and> ac_Tags ch = [] \<and> ac_Own ch = []"

definition autofillColumns :: "string list" where
  "autofillColumns = [''vendor'', ''model'', ''kind'', ''icon'', ''function'', ''name'']"

text \<open>Reading and writing the column a field name stands for.\<close>

definition get_col :: "string \<Rightarrow> 'z device_scheme \<Rightarrow> string" where
  "get_col f d =
     (if f = ''vendor'' then dev_Vendor d else if f = ''model'' then dev_Model d
      else if f = ''kind'' then dev_Kind d else if f = ''icon'' then dev_Icon d
      else if f = ''function'' then dev_Function d else if f = ''name'' then dev_Name d else [])"

definition set_col :: "string \<Rightarrow> string \<Rightarrow> 'z device_scheme \<Rightarrow> 'z device_scheme" where
  "set_col f v d =
     (if f = ''vendor'' then d\<lparr>dev_Vendor := v\<rparr> else if f = ''model'' then d\<lparr>dev_Model := v\<rparr>
      else if f = ''kind'' then d\<lparr>dev_Kind := v\<rparr> else if f = ''icon'' then d\<lparr>dev_Icon := v\<rparr>
      else if f = ''function'' then d\<lparr>dev_Function := v\<rparr> else if f = ''name'' then d\<lparr>dev_Name := v\<rparr> else d)"

definition own_record :: "int \<Rightarrow> string \<Rightarrow> stamp \<Rightarrow> tables \<Rightarrow> nat \<times> tables" where
  "own_record dev f now t =
     (let hit = (\<lambda>r. af_DeviceID r = dev \<and> af_Field r = f)
      in (count_where hit (t_autofill t),
          t\<lparr>t_autofill := upd_where hit (\<lambda>r. r\<lparr>af_State := ''owned'', af_UpdatedAt := now\<rparr>) (t_autofill t)\<rparr>))"

definition write_hits :: "int \<Rightarrow> autofill_write \<Rightarrow> device_row \<Rightarrow> bool" where
  "write_hits dev w d \<longleftrightarrow> dev_ID d = dev \<and> get_col (aw_Field w) d = aw_Expect w \<and>
     (aw_Unreviewed w \<longrightarrow> \<not> dev_Reviewed d)"

definition write_col :: "int \<Rightarrow> autofill_write \<Rightarrow> tables \<Rightarrow> error + (nat \<times> tables)" where
  "write_col dev w t =
     (if aw_Field w = ''kind'' \<and> aw_Value w \<notin> set device_kinds \<and> count_where (write_hits dev w) (t_device t) \<noteq> 0
      then Inl ErrCheck
      else Inr (count_where (write_hits dev w) (t_device t),
                t\<lparr>t_device := upd_where (write_hits dev w) (set_col (aw_Field w) (aw_Value w)) (t_device t)\<rparr>))"

definition recordAutofillOn :: "int \<Rightarrow> string \<Rightarrow> string \<Rightarrow> string \<Rightarrow> stamp \<Rightarrow> ('s db_scheme, unit) act" where
  "recordAutofillOn dev f v src now = stmt (\<lambda>t.
     let hit = (\<lambda>r. af_DeviceID r = dev \<and> af_Field r = f);
         new = \<lparr>af_DeviceID = dev, af_Field = f, af_Value = v, af_Source = src, af_State = ''applied'', af_UpdatedAt = now\<rparr>
     in if count_where hit (t_autofill t) \<noteq> 0
        then Inr ((), t\<lparr>t_autofill := upd_where hit (\<lambda>_. new) (t_autofill t)\<rparr>)
        else if dev \<notin> set (dev_ids t) then Inl ErrForeignKey
        else Inr ((), t\<lparr>t_autofill := t_autofill t @ [new]\<rparr>))"

text \<open>The three loops of ApplyAutofill: fields taken over, writes, tags.\<close>

definition apply_write :: "int \<Rightarrow> stamp \<Rightarrow> autofill_write \<Rightarrow> autofill_write list \<Rightarrow>
    ('s db_scheme, autofill_write list) act" where
  "apply_write dev now w done =
     bindA (stmt (write_col dev w)) (\<lambda>n.
     if n = 0 then ret done
     else thenA (recordAutofillOn dev (aw_Field w) (aw_Value w) (aw_Source w) now) (ret (done @ [w])))"

definition apply_tag :: "int \<Rightarrow> stamp \<Rightarrow> autofill_tag \<Rightarrow> autofill_tag list \<Rightarrow> ('s db_scheme, autofill_tag list) act" where
  "apply_tag dev now g done =
     bindA (findOrCreateTagOn (ag_Name g)) (\<lambda>i.
     bindA (stmt (ins_device_tag dev i)) (\<lambda>n.
     if n = 0 then ret done
     else thenA (recordAutofillOn dev (''tag:'' @ ag_Name g) (ag_Name g) (ag_Source g) now) (ret (done @ [g]))))"

definition ApplyAutofill :: "time \<Rightarrow> int \<Rightarrow> autofill_changes \<Rightarrow>
    ('s db_scheme, autofill_write list \<times> autofill_tag list) act" where
  "ApplyAutofill now dev ch =
     (if \<not> list_all (\<lambda>w. aw_Field w \<in> set autofillColumns) (ac_Writes ch)
      then fail (ErrMsg ''autofill: unknown field'')
      else withTx (
        thenA (forA (ac_Own ch) (\<lambda>f. thenA (exec (own_record dev f (rfc3339 now))) (ret ())))
        (bindA (foldA (apply_write dev (rfc3339 now)) (ac_Writes ch) []) (\<lambda>writes.
         bindA (foldA (apply_tag dev (rfc3339 now)) (ac_Tags ch) []) (\<lambda>tags. ret (writes, tags))))))"

section \<open>Device ids and known values\<close>

definition DeviceIDs :: "('s db_scheme, int list) act" where
  "DeviceIDs = query (\<lambda>t. sort (dev_ids t))"

definition suggestColumns :: "string list" where
  "suggestColumns = [''vendor'', ''model'', ''function'']"

definition DistinctDeviceValues :: "string \<Rightarrow> ('s db_scheme, string list) act" where
  "DistinctDeviceValues f =
     (if f \<notin> set autofillColumns \<or> f \<notin> set suggestColumns then fail (ErrMsg ''distinct values: unknown field'')
      else query (\<lambda>t. take 200 (sort (remdups (filter (\<lambda>v. v \<noteq> []) (map (get_col f) (t_device t)))))))"

section \<open>Replacing hints is exact\<close>

lemma ins_hint_loop:
  fixes s s' :: "'s db_scheme"
  assumes "forA hints (\<lambda>h. stmt (ins_hint (g h))) s = (Inr u, s')"
  shows "tabs s' = (tabs s)\<lparr>t_hint := t_hint (tabs s) @ map g hints\<rparr>"
proof (rule forA_InrI [OF assms, where R = "\<lambda>ys s'. tabs s' = (tabs s)\<lparr>t_hint := t_hint (tabs s) @ map g ys\<rparr>"])
  show "tabs s = (tabs s)\<lparr>t_hint := t_hint (tabs s) @ map g []\<rparr>" by simp
  fix ys x a and s1 s2 :: "'s db_scheme"
  assume "tabs s1 = (tabs s)\<lparr>t_hint := t_hint (tabs s) @ map g ys\<rparr>" and "stmt (ins_hint (g x)) s1 = (Inr a, s2)"
  then show "tabs s2 = (tabs s)\<lparr>t_hint := t_hint (tabs s) @ map g (ys @ [x])\<rparr>"
    by (auto simp: ins_hint_def dest!: stmt_InrD split: if_splits)
qed

lemma ReplaceHints_outcome:
  "case ReplaceHints dev src hints s of
     (Inl e, s') \<Rightarrow> tabs s' = tabs s
   | (Inr u, s') \<Rightarrow> tabs s' = (tabs s)\<lparr>t_hint :=
        filter (\<lambda>h. \<not> source_hint dev src h) (t_hint (tabs s)) @
        map (\<lambda>h. h\<lparr>hi_DeviceID := dev, hi_Source := src\<rparr>) hints\<rparr>"
  unfolding ReplaceHints_def
  by (rule withTx_all_or_nothing)
     (auto simp: exec_def del_where_def elim!: withTx_InrE thenA_InrE dest!: stmt_InrD ins_hint_loop)

text \<open>
  ReplaceHints makes the given hints the complete set a source has for a device: every
  other source's and every other device's hints stay, and if anything fails, the set the source
  had before is still there, never half of the new one.
\<close>

theorem ReplaceHints_exact:
  "case ReplaceHints dev src hints s of
     (Inl e, s') \<Rightarrow> tabs s' = tabs s
   | (Inr u, s') \<Rightarrow> tabs s' = (tabs s)\<lparr>t_hint :=
        filter (\<lambda>h. \<not> source_hint dev src h) (t_hint (tabs s)) @
        map (\<lambda>h. h\<lparr>hi_DeviceID := dev, hi_Source := src\<rparr>) hints\<rparr>"
  by (rule ReplaceHints_outcome)

section \<open>A write only replaces the value the pass read\<close>

lemma get_set_col:
  "get_col f (set_col g v d) = (if f = g \<and> f \<in> set autofillColumns then v else get_col f d)"
  by (simp add: get_col_def set_col_def autofillColumns_def)

lemma set_col_keeps [simp]: "dev_ID (set_col f v d) = dev_ID d" "dev_Reviewed (set_col f v d) = dev_Reviewed d"
  by (simp_all add: set_col_def)

text \<open>The writes that reach a row, one after the other.\<close>

definition written :: "int \<Rightarrow> autofill_write \<Rightarrow> device_row \<Rightarrow> device_row" where
  "written dev w d = (if write_hits dev w d then set_col (aw_Field w) (aw_Value w) d else d)"

lemma written_keeps [simp]:
  "dev_ID (written dev w d) = dev_ID d" "dev_Reviewed (written dev w d) = dev_Reviewed d"
  by (simp_all add: written_def)

lemma apply_write_InrD:
  fixes s s' :: "'s db_scheme"
  assumes "apply_write dev now w ws s = (Inr ws', s')"
  shows "t_device (tabs s') = map (written dev w) (t_device (tabs s))"
proof -
  from assms obtain n and s1 :: "'s db_scheme" where
    1: "stmt (write_col dev w) s = (Inr n, s1)"
    and 2: "(if n = 0 then ret ws else thenA (recordAutofillOn dev (aw_Field w) (aw_Value w) (aw_Source w) now)
      (ret (ws @ [w]))) s1 = (Inr ws', s')"
    unfolding apply_write_def by (rule bindA_InrE)
  have "t_device (tabs s1) = map (written dev w) (t_device (tabs s))"
    using 1 by (auto simp: write_col_def upd_where_def written_def [abs_def] dest!: stmt_InrD split: if_splits)
  moreover have "t_device (tabs s') = t_device (tabs s1)"
    using 2 by (auto simp: recordAutofillOn_def Let_def elim!: thenA_InrE dest!: stmt_InrD split: if_splits)
  ultimately show ?thesis by simp
qed

lemma apply_writes_InrD:
  fixes s s' :: "'s db_scheme"
  assumes "foldA (apply_write dev now) ws acc s = (Inr r, s')"
  shows "t_device (tabs s') = map (\<lambda>d. fold (written dev) ws d) (t_device (tabs s))"
proof (rule foldA_InrI [OF assms, where R = "\<lambda>ys b s'. t_device (tabs s') = map (\<lambda>d. fold (written dev) ys d) (t_device (tabs s))"])
  show "t_device (tabs s) = map (\<lambda>d. fold (written dev) [] d) (t_device (tabs s))" by simp
  fix ys x b b' and s1 s2 :: "'s db_scheme"
  assume "t_device (tabs s1) = map (\<lambda>d. fold (written dev) ys d) (t_device (tabs s))"
    and "apply_write dev now x b s1 = (Inr b', s2)"
  then show "t_device (tabs s2) = map (\<lambda>d. fold (written dev) (ys @ [x]) d) (t_device (tabs s))"
    by (auto dest: apply_write_InrD)
qed

lemma apply_tags_device:
  fixes s s' :: "'s db_scheme"
  assumes "foldA (apply_tag dev now) gs acc s = (Inr r, s')"
  shows "t_device (tabs s') = t_device (tabs s)"
proof (rule foldA_InrI [OF assms, where R = "\<lambda>ys b s'. t_device (tabs s') = t_device (tabs s)"])
  fix ys x b b' and s1 s2 :: "'s db_scheme"
  assume R: "t_device (tabs s1) = t_device (tabs s)" and "apply_tag dev now x b s1 = (Inr b', s2)"
  then obtain i n and s3 s4 :: "'s db_scheme" where
    1: "findOrCreateTagOn (ag_Name x) s1 = (Inr i, s3)"
    and 2: "stmt (ins_device_tag dev i) s3 = (Inr n, s4)"
    and 3: "(if n = 0 then ret b else thenA (recordAutofillOn dev (''tag:'' @ ag_Name x) (ag_Name x) (ag_Source x) now)
       (ret (b @ [x]))) s4 = (Inr b', s2)"
    unfolding apply_tag_def by (elim bindA_InrE)
  have "t_device (tabs s3) = t_device (tabs s1)" using findOrCreateTagOn_InrD [OF 1] by auto
  moreover have "t_device (tabs s4) = t_device (tabs s3)"
    using 2 by (auto simp: ins_device_tag_def dest!: stmt_InrD split: if_splits)
  moreover have "t_device (tabs s2) = t_device (tabs s4)"
    using 3 by (auto simp: recordAutofillOn_def Let_def elim!: thenA_InrE dest!: stmt_InrD split: if_splits)
  ultimately show "t_device (tabs s2) = t_device (tabs s)" using R by simp
qed simp

lemma own_loop_device:
  fixes s s' :: "'s db_scheme"
  assumes "forA fs (\<lambda>f. thenA (exec (own_record dev f now)) (ret ())) s = (Inr u, s')"
  shows "t_device (tabs s') = t_device (tabs s)"
proof (rule forA_InrI [OF assms, where R = "\<lambda>ys s'. t_device (tabs s') = t_device (tabs s)"])
  fix ys x a and s1 s2 :: "'s db_scheme"
  assume "t_device (tabs s1) = t_device (tabs s)"
    and "thenA (exec (own_record dev x now)) (ret ()) s1 = (Inr a, s2)"
  then show "t_device (tabs s2) = t_device (tabs s)"
    by (auto simp: exec_def own_record_def Let_def elim!: thenA_InrE dest!: stmt_InrD)
qed simp

text \<open>What a pass does to the device table, whatever fails: nothing, or its writes that hit.\<close>

lemma ApplyAutofill_devices:
  fixes s :: "'s db_scheme"
  shows "t_device (tabs (snd (ApplyAutofill now dev ch s))) = t_device (tabs s) \<or>
    t_device (tabs (snd (ApplyAutofill now dev ch s))) = map (\<lambda>d. fold (written dev) (ac_Writes ch) d) (t_device (tabs s))"
proof (cases "ApplyAutofill now dev ch s")
  case (Pair r s')
  show ?thesis
  proof (cases r)
    case (Inl e)
    then show ?thesis using Pair by (auto simp: ApplyAutofill_def split: if_splits dest: withTx_InlD)
  next
    case (Inr p)
    then have "withTx (
        thenA (forA (ac_Own ch) (\<lambda>f. thenA (exec (own_record dev f (rfc3339 now))) (ret ())))
        (bindA (foldA (apply_write dev (rfc3339 now)) (ac_Writes ch) []) (\<lambda>writes.
         bindA (foldA (apply_tag dev (rfc3339 now)) (ac_Tags ch) []) (\<lambda>tags. ret (writes, tags))))) s = (Inr p, s')"
      using Pair by (simp add: ApplyAutofill_def split: if_splits)
    then obtain s1 s2 :: "'s db_scheme" where t: "tabs s1 = tabs s" "tabs s' = tabs s2" and run:
      "thenA (forA (ac_Own ch) (\<lambda>f. thenA (exec (own_record dev f (rfc3339 now))) (ret ())))
        (bindA (foldA (apply_write dev (rfc3339 now)) (ac_Writes ch) []) (\<lambda>writes.
         bindA (foldA (apply_tag dev (rfc3339 now)) (ac_Tags ch) []) (\<lambda>tags. ret (writes, tags)))) s1 = (Inr p, s2)"
      by (rule withTx_InrE)
    from run obtain u ws gs and s3 s4 :: "'s db_scheme" where
      l: "forA (ac_Own ch) (\<lambda>f. thenA (exec (own_record dev f (rfc3339 now))) (ret ())) s1 = (Inr u, s3)"
      "foldA (apply_write dev (rfc3339 now)) (ac_Writes ch) [] s3 = (Inr ws, s4)"
      "foldA (apply_tag dev (rfc3339 now)) (ac_Tags ch) [] s4 = (Inr gs, s2)"
      by (elim thenA_InrE bindA_InrE) simp
    have "t_device (tabs s') = map (\<lambda>d. fold (written dev) (ac_Writes ch) d) (t_device (tabs s))"
      using own_loop_device [OF l(1)] apply_writes_InrD [OF l(2)] apply_tags_device [OF l(3)] t by simp
    then show ?thesis using Pair by simp
  qed
qed

end
