(* ===== verification/Autofill_Resolve.thy ===== *)
theory Autofill_Resolve
  imports Store_Autofill "HOL-Library.Multiset"
begin

text \<open>
  internal/autofill/resolve.go: which of the hints wins for each field of a device, what a pass
  may write without touching what a person set, and the explanation the device page shows.
\<close>

section \<open>The winning candidates\<close>

definition Threshold :: int where "Threshold = 50"

definition singleFields :: "string list" where
  "singleFields = [''vendor'', ''model'', ''kind'', ''icon'', ''function'', ''name'']"

definition sourceRank :: "string \<Rightarrow> nat" where
  "sourceRank src =
     (if src = ''mdns'' then 5 else if src = ''ssdp'' then 4 else if src = ''ports'' then 3
      else if src = ''hostname'' then 2 else if src = ''oui'' then 1 else 0)"

record candidate =
  ca_Value :: string
  ca_Source :: string
  ca_Detail :: string
  ca_Confidence :: int

definition candidate_of :: "hint \<Rightarrow> candidate" where
  "candidate_of h = \<lparr>ca_Value = hi_Value h, ca_Source = hi_Source h, ca_Detail = hi_Detail h,
     ca_Confidence = hi_Confidence h\<rparr>"

definition better :: "hint \<Rightarrow> candidate \<Rightarrow> bool" where
  "better a b =
     (if hi_Confidence a \<noteq> ca_Confidence b then hi_Confidence a > ca_Confidence b
      else if sourceRank (hi_Source a) \<noteq> sourceRank (ca_Source b) then sourceRank (hi_Source a) > sourceRank (ca_Source b)
      else hi_Value a < ca_Value b)"

definition eligible :: "hint \<Rightarrow> bool" where
  "eligible h \<longleftrightarrow> \<not> hi_Confidence h < Threshold \<and> hi_Value h \<noteq> []"

definition keep_better :: "hint \<Rightarrow> candidate option \<Rightarrow> candidate" where
  "keep_better h cur = (case cur of None \<Rightarrow> candidate_of h
     | Some c \<Rightarrow> if better h c then candidate_of h else c)"

text \<open>One turn of the loop of Resolve: the maps \<open>fields\<close> and \<open>tagBy\<close>.\<close>

definition resolve_step :: "(string \<rightharpoonup> candidate) \<times> (string \<times> candidate) list \<Rightarrow> hint \<Rightarrow>
    (string \<rightharpoonup> candidate) \<times> (string \<times> candidate) list" where
  "resolve_step acc h = (case acc of (flds, tagBy) \<Rightarrow>
     if \<not> eligible h then (flds, tagBy)
     else if hi_Field h = ''tag''
     then (flds, AList.update (hi_Value h) (keep_better h (map_of tagBy (hi_Value h))) tagBy)
     else (flds(hi_Field h \<mapsto> keep_better h (flds (hi_Field h))), tagBy))"

definition Resolve :: "hint list \<Rightarrow> (string \<rightharpoonup> candidate) \<times> candidate list" where
  "Resolve hints = (case foldl resolve_step (Map.empty, []) hints of
     (flds, tagBy) \<Rightarrow> (flds, sort_key ca_Value (map snd tagBy)))"

section \<open>What a pass may write\<close>

definition IsPlaceholderName :: "string \<Rightarrow> bool" where
  "IsPlaceholderName name \<longleftrightarrow> list_ex (\<lambda>p. case cut_prefix (p @ ''-'') name of
       None \<Rightarrow> False
     | Some rest \<Rightarrow> rest \<noteq> [] \<and> list_all (\<lambda>c. hex_val c \<noteq> None \<or> c = CHR '':'' \<or> c = CHR ''.'') rest)
     [''unknown'', ''private'', ''pihole'', ''adguard'', ''opnsense'']"

definition isEmpty :: "'z device_scheme \<Rightarrow> string \<Rightarrow> string \<Rightarrow> bool" where
  "isEmpty d f cur =
     (if f = ''kind'' then cur = [] \<or> cur = ''other''
      else if f = ''name'' then \<not> dev_Reviewed d \<and> IsPlaceholderName cur
      else cur = [])"

text \<open>The last record of a field wins, as in the Go map.\<close>

definition recordsByField :: "autofill_record list \<Rightarrow> string \<Rightarrow> autofill_record option" where
  "recordsByField recs f = List.find (\<lambda>r. af_Field r = f) (rev recs)"

definition write_of :: "string \<Rightarrow> candidate \<Rightarrow> string \<Rightarrow> bool \<Rightarrow> autofill_write" where
  "write_of f c cur unrev = \<lparr>aw_Field = f, aw_Value = ca_Value c, aw_Source = ca_Source c,
     aw_Expect = cur, aw_Unreviewed = unrev\<rparr>"

text \<open>One turn of the loop over the single-valued fields: the write or the field taken over.\<close>

definition decide_field :: "'z device_scheme \<Rightarrow> autofill_record list \<Rightarrow> (string \<rightharpoonup> candidate) \<Rightarrow> string \<Rightarrow>
    autofill_write list \<times> string list" where
  "decide_field d recs flds f =
     (let cur = get_col f d; r = recordsByField recs f in
      if (case r of None \<Rightarrow> False | Some x \<Rightarrow> af_State x = ''owned'') then ([], [])
      else if (case r of None \<Rightarrow> False | Some x \<Rightarrow> cur \<noteq> af_Value x) then ([], [f])
      else (case flds f of
              None \<Rightarrow> ([], [])
            | Some c \<Rightarrow>
                if isEmpty d f cur \<and> ca_Value c \<noteq> cur then ([write_of f c cur (f = ''name'')], [])
                else if r \<noteq> None \<and> \<not> dev_Reviewed d \<and> ca_Value c \<noteq> cur then ([write_of f c cur True], [])
                else ([], [])))"

definition lost_tags :: "string list \<Rightarrow> autofill_record list \<Rightarrow> string list" where
  "lost_tags tags recs = map af_Field (filter (\<lambda>r. case cut_prefix ''tag:'' (af_Field r) of
       None \<Rightarrow> False
     | Some name \<Rightarrow> af_State r = ''applied'' \<and> name \<notin> set tags) recs)"

definition decide :: "'z device_scheme \<Rightarrow> string list \<Rightarrow> autofill_record list \<Rightarrow> (string \<rightharpoonup> candidate) \<Rightarrow>
    candidate list \<Rightarrow> autofill_changes" where
  "decide d tags recs flds tagCands =
     \<lparr>ac_Writes = concat (map (\<lambda>f. fst (decide_field d recs flds f)) singleFields),
      ac_Tags = map (\<lambda>c. \<lparr>ag_Name = ca_Value c, ag_Source = ca_Source c\<rparr>)
        (filter (\<lambda>c. recordsByField recs (''tag:'' @ ca_Value c) = None \<and> ca_Value c \<notin> set tags) tagCands),
      ac_Own = concat (map (\<lambda>f. snd (decide_field d recs flds f)) singleFields) @ lost_tags tags recs\<rparr>"

section \<open>Explaining hints\<close>

datatype hint_status = StatusApplied | StatusLow | StatusOwned | StatusOutranked | StatusKept

definition explain_one :: "'z device_scheme \<Rightarrow> string list \<Rightarrow> autofill_record list \<Rightarrow> (string \<rightharpoonup> candidate) \<Rightarrow>
    hint \<Rightarrow> hint_status" where
  "explain_one d tags recs flds h =
     (let is_tag = (hi_Field h = ''tag'');
          cur = get_col (hi_Field h) d;
          r = recordsByField recs (if is_tag then ''tag:'' @ hi_Value h else hi_Field h);
          attached = (hi_Value h \<in> set tags)
      in if (case r of None \<Rightarrow> False | Some x \<Rightarrow> af_State x = ''owned'') then StatusOwned
         else if \<not> is_tag \<and> (case r of None \<Rightarrow> False | Some x \<Rightarrow> af_State x = ''applied'' \<and> cur \<noteq> af_Value x) then StatusOwned
         else if is_tag \<and> (case r of None \<Rightarrow> False | Some x \<Rightarrow> af_State x = ''applied'') \<and> \<not> attached then StatusOwned
         else if hi_Confidence h < Threshold then StatusLow
         else if is_tag \<and> r \<noteq> None \<and> attached then StatusApplied
         else if is_tag then StatusKept
         else if (case r of None \<Rightarrow> False | Some x \<Rightarrow> cur = af_Value x \<and> cur = hi_Value h) then StatusApplied
         else if (case flds (hi_Field h) of
                    None \<Rightarrow> hi_Source h \<noteq> [] \<or> hi_Value h \<noteq> []
                  | Some c \<Rightarrow> ca_Source c \<noteq> hi_Source h \<or> ca_Value c \<noteq> hi_Value h) then StatusOutranked
         else StatusKept)"

definition Explain :: "'z device_scheme \<Rightarrow> string list \<Rightarrow> autofill_record list \<Rightarrow> hint list \<Rightarrow> (hint \<times> hint_status) list" where
  "Explain d tags recs hints = map (\<lambda>h. (h, explain_one d tags recs (fst (Resolve hints)) h)) hints"

section \<open>Picking the best of a list\<close>

definition pick :: "('a \<Rightarrow> 'a \<Rightarrow> bool) \<Rightarrow> 'a option \<Rightarrow> 'a \<Rightarrow> 'a option" where
  "pick beats cur x = (case cur of None \<Rightarrow> Some x | Some y \<Rightarrow> if beats x y then Some x else Some y)"

definition best :: "('a \<Rightarrow> 'a \<Rightarrow> bool) \<Rightarrow> 'a list \<Rightarrow> 'a option" where
  "best beats xs = foldl (pick beats) None xs"

lemma best_snoc: "best beats (xs @ [x]) = pick beats (best beats xs) x"
  by (simp add: best_def)

lemma best_Nil [simp]: "best beats [] = None"
  by (simp add: best_def)

lemma best_single [simp]: "best beats [x] = Some x"
  by (simp add: best_def pick_def)

lemma best_None [simp]: "best beats xs = None \<longleftrightarrow> xs = []"
  by (cases xs rule: rev_cases) (auto simp: best_snoc pick_def split: option.splits)

text \<open>The contract of a comparison: a strict weak order. Then the pick does not depend on the order.\<close>

locale ranking =
  fixes beats :: "'a \<Rightarrow> 'a \<Rightarrow> bool"
  assumes irrefl: "\<not> beats x x"
    and trans: "beats x y \<Longrightarrow> beats y z \<Longrightarrow> beats x z"
    and weak: "beats x z \<Longrightarrow> beats x y \<or> beats y z"
begin

lemma best_Some:
  "best beats xs = Some b \<Longrightarrow> b \<in> set xs \<and> (\<forall>x \<in> set xs. \<not> beats x b)"
proof (induction xs arbitrary: b rule: rev_induct)
  case (snoc x xs)
  show ?case
  proof (cases "best beats xs")
    case None
    then show ?thesis using snoc.prems irrefl by (simp add: best_snoc pick_def)
  next
    case (Some c)
    from snoc.IH [OF Some] have c: "c \<in> set xs" "\<forall>y \<in> set xs. \<not> beats y c" by auto
    show ?thesis
    proof (cases "beats x c")
      case True
      then have "b = x" using snoc.prems Some by (simp add: best_snoc pick_def)
      then show ?thesis using c irrefl weak True by auto (meson trans)
    next
      case False
      then show ?thesis using snoc.prems Some c by (auto simp: best_snoc pick_def)
    qed
  qed
qed simp

text \<open>Two winners over the same elements are tied.\<close>

lemma best_tied:
  assumes "set xs = set ys" and "best beats xs = Some b" and "best beats ys = Some c"
  shows "\<not> beats b c \<and> \<not> beats c b"
  using best_Some [OF assms(2)] best_Some [OF assms(3)] assms(1) by auto

end

definition rank_hints :: "hint \<Rightarrow> hint \<Rightarrow> bool" where
  "rank_hints a b = better a (candidate_of b)"

interpretation hint_rank: ranking rank_hints
  by unfold_locales (auto simp: rank_hints_def better_def candidate_of_def split: if_splits)

lemma hint_tie:
  "\<not> rank_hints a b \<Longrightarrow> \<not> rank_hints b a \<Longrightarrow>
   hi_Confidence a = hi_Confidence b \<and> hi_Value a = hi_Value b"
  by (auto simp: rank_hints_def better_def candidate_of_def split: if_splits)

section \<open>Resolving does not depend on the order of the hints\<close>

definition single_hints :: "string \<Rightarrow> hint list \<Rightarrow> hint list" where
  "single_hints f hints = filter (\<lambda>h. eligible h \<and> hi_Field h \<noteq> ''tag'' \<and> hi_Field h = f) hints"

definition tag_hints :: "string \<Rightarrow> hint list \<Rightarrow> hint list" where
  "tag_hints v hints = filter (\<lambda>h. eligible h \<and> hi_Field h = ''tag'' \<and> hi_Value h = v) hints"

lemma keep_better_pick:
  "Some (keep_better h (map_option candidate_of cur)) = map_option candidate_of (pick rank_hints cur h)"
  by (auto simp: keep_better_def pick_def rank_hints_def split: option.splits)

lemma resolve_fold:
  fixes hints :: "hint list"
  defines "r \<equiv> foldl resolve_step (Map.empty, []) hints"
  shows "fst r f = map_option candidate_of (best rank_hints (single_hints f hints)) \<and>
    map_of (snd r) v = map_option candidate_of (best rank_hints (tag_hints v hints)) \<and>
    distinct (map fst (snd r))"
  unfolding r_def
proof (induction hints arbitrary: f v rule: rev_induct)
  case (snoc h hints)
  obtain flds tagBy where r: "foldl resolve_step (Map.empty, []) hints = (flds, tagBy)"
    by (cases "foldl resolve_step (Map.empty, []) hints")
  from snoc.IH have IH: "flds f = map_option candidate_of (best rank_hints (single_hints f hints))"
    "map_of tagBy v = map_option candidate_of (best rank_hints (tag_hints v hints))"
    "distinct (map fst tagBy)" for f v by (auto simp: r)
  have step: "foldl resolve_step (Map.empty, []) (hints @ [h]) = resolve_step (flds, tagBy) h" by (simp add: r)
  have "single_hints f (hints @ [h]) = single_hints f hints @
      (if eligible h \<and> hi_Field h \<noteq> ''tag'' \<and> hi_Field h = f then [h] else [])"
    and "tag_hints v (hints @ [h]) = tag_hints v hints @
      (if eligible h \<and> hi_Field h = ''tag'' \<and> hi_Value h = v then [h] else [])"
    by (simp_all add: single_hints_def tag_hints_def)
  then show ?case unfolding step
    by (auto simp: resolve_step_def IH update_conv' keep_better_pick best_snoc intro: distinct_update)
qed (simp_all add: best_def single_hints_def tag_hints_def)

lemma Resolve_field:
  "fst (Resolve hints) f = map_option candidate_of (best rank_hints (single_hints f hints))"
  using resolve_fold [of hints f] by (auto simp: Resolve_def split: prod.splits)

lemma Resolve_tags:
  "map ca_Value (snd (Resolve hints)) =
   sorted_list_of_set (hi_Value ` {h \<in> set hints. eligible h \<and> hi_Field h = ''tag''})"
proof -
  define tagBy where "tagBy = snd (foldl resolve_step (Map.empty, []) hints)"
  have best: "map_of tagBy v = map_option candidate_of (best rank_hints (tag_hints v hints))" for v
    using resolve_fold [of hints undefined v] by (simp add: tagBy_def)
  have dist: "distinct (map fst tagBy)"
    using resolve_fold [of hints undefined undefined] by (simp add: tagBy_def)
  have val: "ca_Value c = v" if "(v, c) \<in> set tagBy" for v c
  proof -
    have "map_of tagBy v = Some c" using that dist by simp
    then obtain h where "best rank_hints (tag_hints v hints) = Some h" and "c = candidate_of h"
      unfolding best by auto
    then show ?thesis using hint_rank.best_Some by (fastforce simp: tag_hints_def candidate_of_def)
  qed
  then have keys: "map ca_Value (map snd tagBy) = map fst tagBy" by (auto simp: map_eq_conv)
  have "v \<in> fst ` set tagBy \<longleftrightarrow> v \<in> hi_Value ` {h \<in> set hints. eligible h \<and> hi_Field h = ''tag''}" for v
  proof -
    have "v \<in> fst ` set tagBy \<longleftrightarrow> map_of tagBy v \<noteq> None" by (simp add: map_of_eq_None_iff)
    also have "\<dots> \<longleftrightarrow> tag_hints v hints \<noteq> []" by (simp add: best)
    also have "\<dots> \<longleftrightarrow> v \<in> hi_Value ` {h \<in> set hints. eligible h \<and> hi_Field h = ''tag''}"
      by (auto simp: tag_hints_def filter_empty_conv)
    finally show ?thesis .
  qed
  then have "set (map fst tagBy) = hi_Value ` {h \<in> set hints. eligible h \<and> hi_Field h = ''tag''}" by auto
  moreover have "map ca_Value (sort_key ca_Value (map snd tagBy)) = sort (map fst tagBy)"
    unfolding keys [symmetric]
    by (rule properties_for_sort [symmetric]) (simp_all add: multiset.map_comp)
  moreover have "snd (Resolve hints) = sort_key ca_Value (map snd tagBy)"
    by (simp add: Resolve_def tagBy_def split: prod.splits)
  ultimately show ?thesis using dist by (metis sorted_list_of_set_sort_remdups distinct_remdups_id)
qed

text \<open>
  C5: Resolving does not depend on the order in which the hints are visited (a pass visits the
  hints of the probes in the random order of a Go map): the value and the confidence chosen for
  each field, and the list of tags, are the same for any permutation of the hints.
\<close>

theorem Resolve_order_independent:
  assumes "mset hints = mset hints'"
  shows "map_option (\<lambda>c. (ca_Value c, ca_Confidence c)) (fst (Resolve hints) f)
       = map_option (\<lambda>c. (ca_Value c, ca_Confidence c)) (fst (Resolve hints') f) \<and>
    map ca_Value (snd (Resolve hints)) = map ca_Value (snd (Resolve hints'))"
proof -
  have same: "set hints = set hints'" using assms by (rule mset_eq_setD)
  then have sh: "set (single_hints f hints) = set (single_hints f hints')" by (simp add: single_hints_def)
  have "map_option (\<lambda>c. (ca_Value c, ca_Confidence c)) (fst (Resolve hints) f)
      = map_option (\<lambda>c. (ca_Value c, ca_Confidence c)) (fst (Resolve hints') f)"
  proof (cases "best rank_hints (single_hints f hints)")
    case None
    then have "single_hints f hints' = []" using sh by simp
    then show ?thesis using None by (simp add: Resolve_field)
  next
    case (Some a)
    then have "single_hints f hints' \<noteq> []" using sh by (metis best_None option.distinct(1) set_empty)
    then obtain b where b: "best rank_hints (single_hints f hints') = Some b" by fastforce
    from hint_tie hint_rank.best_tied [OF sh Some b] Some b show ?thesis
      by (simp add: Resolve_field candidate_of_def)
  qed
  then show ?thesis by (simp add: Resolve_tags same)
qed

definition sample_hints :: "hint list" where
  "sample_hints = [
     \<lparr>hi_DeviceID = 1, hi_Source = ''hostname'', hi_Field = ''kind'', hi_Value = ''computer'', hi_Confidence = 70,
      hi_Detail = [], hi_SeenAt = 0\<rparr>,
     \<lparr>hi_DeviceID = 1, hi_Source = ''ports'', hi_Field = ''kind'', hi_Value = ''printer'', hi_Confidence = 70,
      hi_Detail = [], hi_SeenAt = 0\<rparr>,
     \<lparr>hi_DeviceID = 1, hi_Source = ''ports'', hi_Field = ''tag'', hi_Value = ''nas'', hi_Confidence = 60,
      hi_Detail = [], hi_SeenAt = 0\<rparr>]"

lemma Resolve_order_independent_witness:
  "map_option ca_Value (fst (Resolve (rev sample_hints)) ''kind'') = Some ''printer'' \<and>
   map ca_Value (snd (Resolve (rev sample_hints))) = [''nas'']"
proof -
  have "mset sample_hints = mset (rev sample_hints)" by simp
  from Resolve_order_independent [OF this, of "''kind''"]
  have k: "map_option (\<lambda>c. (ca_Value c, ca_Confidence c)) (fst (Resolve (rev sample_hints)) ''kind'')
      = map_option (\<lambda>c. (ca_Value c, ca_Confidence c)) (fst (Resolve sample_hints) ''kind'')"
    and t: "map ca_Value (snd (Resolve (rev sample_hints))) = map ca_Value (snd (Resolve sample_hints))" by simp_all
  have "map_option (\<lambda>c. (ca_Value c, ca_Confidence c)) (fst (Resolve sample_hints) ''kind'') = Some (''printer'', 70)"
    "map ca_Value (snd (Resolve sample_hints)) = [''nas'']"
    by code_simp+
  with k t show ?thesis by auto
qed

section \<open>A pass never overwrites what a person set\<close>

text \<open>
  What a pass that read the device as \<open>d\<close> and its records as \<open>recs\<close> may write to when it gets to
  the row \<open>r\<close>: a field still as read, which was empty or held autofill's own value; and of a device
  reviewed meanwhile neither its name nor a value it already has.
\<close>

definition may_fill :: "'z device_scheme \<Rightarrow> autofill_record list \<Rightarrow> device_row \<Rightarrow> string \<Rightarrow> bool" where
  "may_fill d recs r f \<longleftrightarrow> dev_ID r = dev_ID d \<and> get_col f r = get_col f d \<and>
     (isEmpty d f (get_col f d) \<and> (f \<noteq> ''name'' \<or> \<not> dev_Reviewed r) \<or>
      \<not> dev_Reviewed r \<and> (case recordsByField recs f of None \<Rightarrow> False
         | Some x \<Rightarrow> af_State x \<noteq> ''owned'' \<and> af_Value x = get_col f d))"

lemma decide_field_Field: "w \<in> set (fst (decide_field d recs flds f)) \<Longrightarrow> aw_Field w = f"
  by (auto simp: decide_field_def write_of_def Let_def split: if_splits option.splits)

lemma decide_writes:
  assumes "w \<in> set (ac_Writes (decide d tags recs flds cands))"
  shows "w \<in> set (fst (decide_field d recs flds (aw_Field w)))"
proof -
  from assms obtain f where "w \<in> set (fst (decide_field d recs flds f))"
    unfolding decide_def autofill_changes.select_convs set_concat set_map by blast
  then show ?thesis using decide_field_Field by metis
qed

lemma decide_write_may_fill:
  assumes "w \<in> set (fst (decide_field d recs flds f))" and "write_hits (dev_ID d) w r"
  shows "aw_Field w = f \<and> may_fill d recs r f"
  using assms
  by (auto simp: decide_field_def write_of_def write_hits_def may_fill_def Let_def split: if_splits option.splits)

lemma fold_written_changes:
  assumes "get_col f (fold (written dev) ws r) \<noteq> get_col f r"
  shows "\<exists>w \<in> set ws. aw_Field w = f \<and> (\<exists>q. write_hits dev w q \<and> get_col f q = get_col f r \<and>
    dev_ID q = dev_ID r \<and> dev_Reviewed q = dev_Reviewed r)"
  using assms
proof (induction ws arbitrary: r)
  case (Cons w ws)
  show ?case
  proof (cases "get_col f (written dev w r) = get_col f r")
    case True
    then have "get_col f (fold (written dev) ws (written dev w r)) \<noteq> get_col f (written dev w r)"
      using Cons.prems by simp
    from Cons.IH [OF this] True show ?thesis by auto
  next
    case False
    then have "write_hits dev w r" and "aw_Field w = f"
      by (auto simp: written_def get_set_col split: if_splits)
    then show ?thesis by auto
  qed
qed simp

lemma may_fill_cong:
  "may_fill d recs q f \<Longrightarrow> get_col f q = get_col f r \<Longrightarrow> dev_ID q = dev_ID r \<Longrightarrow> dev_Reviewed q = dev_Reviewed r \<Longrightarrow>
   may_fill d recs r f"
  by (simp add: may_fill_def)

lemma fold_written_keeps [simp]:
  "dev_ID (fold (written dev) ws r) = dev_ID r" "dev_Reviewed (fold (written dev) ws r) = dev_Reviewed r"
  by (induction ws arbitrary: r) simp_all

lemma decided_writes_fill:
  "list_all2 (\<lambda>r r'. dev_ID r' = dev_ID r \<and> dev_Reviewed r' = dev_Reviewed r \<and>
       {f. get_col f r' \<noteq> get_col f r} \<subseteq> {f. may_fill d recs r f})
     (t_device (tabs s))
     (t_device (tabs (snd (ApplyAutofill now (dev_ID d) (decide d tags recs flds cands) s))))"
proof -
  let ?ws = "ac_Writes (decide d tags recs flds cands)"
  have "{f. get_col f (fold (written (dev_ID d)) ?ws r) \<noteq> get_col f r} \<subseteq> {f. may_fill d recs r f}" for r
  proof
    fix f assume "f \<in> {f. get_col f (fold (written (dev_ID d)) ?ws r) \<noteq> get_col f r}"
    then obtain w q where w: "w \<in> set ?ws" "aw_Field w = f" and q: "write_hits (dev_ID d) w q"
      "get_col f q = get_col f r" "dev_ID q = dev_ID r" "dev_Reviewed q = dev_Reviewed r"
      using fold_written_changes by blast
    have "w \<in> set (fst (decide_field d recs flds f))" using decide_writes [OF w(1)] w(2) by simp
    from decide_write_may_fill [OF this q(1)] q show "f \<in> {f. may_fill d recs r f}"
      using may_fill_cong by blast
  qed
  then show ?thesis using ApplyAutofill_devices [of now "dev_ID d" "decide d tags recs flds cands" s]
    by (elim disjE) (simp_all add: list_all2_same list_all2_map2)
qed

text \<open>
  C6: An autofill pass never overwrites what a person set, even when the person edits the device
  between the pass's read and its write, and even when a statement fails: on any state of the
  database, with the changes decided from any earlier reading of the device, the only fields of
  any device that change are those the pass may fill, and no device becomes reviewed.
\<close>

theorem autofill_never_overwrites:
  "list_all2 (\<lambda>r r'. dev_ID r' = dev_ID r \<and> dev_Reviewed r' = dev_Reviewed r \<and>
       {f. get_col f r' \<noteq> get_col f r} \<subseteq> {f. may_fill d recs r f})
     (t_device (tabs s))
     (t_device (tabs (snd (ApplyAutofill now (dev_ID d) (decide d tags recs flds cands) s))))"
  by (rule decided_writes_fill)

end
