(* ===== verification/Autofill_Sources.thy ===== *)
theory Autofill_Sources
  imports Autofill_Resolve Net_Oui
begin

text \<open>
  internal/autofill/sources.go and the content comparison of service.go: the hints netis derives
  itself from MAC addresses, host names and open ports, and their reduction to one hint per field
  and value.
\<close>

section \<open>Hints\<close>

definition hint :: "string \<Rightarrow> string \<Rightarrow> int \<Rightarrow> hint" where
  "hint f v c = \<lparr>hi_DeviceID = 0, hi_Source = [], hi_Field = f, hi_Value = v, hi_Confidence = c,
     hi_Detail = [], hi_SeenAt = 0\<rparr>"

definition with_detail :: "string \<Rightarrow> hint \<Rightarrow> hint" where
  "with_detail d h = h\<lparr>hi_Detail := d\<rparr>"

text \<open>
  dedupe keeps the order of the first hint of each key; a later one of the same key replaces it
  in place when it is more confident.
\<close>

definition fv :: "hint \<Rightarrow> string \<times> string" where
  "fv h = (hi_Field h, hi_Value h)"

definition dedupe_step :: "hint list \<Rightarrow> hint \<Rightarrow> hint list" where
  "dedupe_step out h =
     (if fv h \<in> set (map fv out)
      then map (\<lambda>o'. if fv o' = fv h \<and> hi_Confidence h > hi_Confidence o' then h else o') out
      else out @ [h])"

definition dedupe :: "hint list \<Rightarrow> hint list" where
  "dedupe hints = foldl dedupe_step [] hints"

section \<open>Makers\<close>

definition vendorKinds :: "(string \<times> string) list" where
  "vendorKinds = [(''Espressif'', ''iot''), (''Tuya Smart'', ''iot''), (''Shelly'', ''iot''),
     (''Brother'', ''printer''), (''Epson'', ''printer'')]"

definition ouiHints :: "(string \<rightharpoonup> string) \<Rightarrow> string list \<Rightarrow> hint list" where
  "ouiHints reg macs = dedupe (concat (map (\<lambda>mac.
     let v = Vendor reg mac; detail = ''MAC '' @ mac in
     if v = [] then []
     else with_detail detail (hint ''vendor'' v 90) #
       (case map_of vendorKinds v of None \<Rightarrow> []
        | Some k \<Rightarrow> [with_detail detail (hint ''kind'' k 40)])) macs))"

section \<open>Host names\<close>

record named =
  nm_Label :: string
  nm_Value :: string

definition char_in :: "string \<Rightarrow> rx" where
  "char_in cs = Cls (\<lambda>c. c \<in> set cs)"

definition lower_hex :: "char \<Rightarrow> bool" where
  "lower_hex c \<longleftrightarrow> is_digit c \<or> (CHR ''a'' \<le> c \<and> c \<le> CHR ''f'')"

definition lower_letter :: "char \<Rightarrow> bool" where
  "lower_letter c \<longleftrightarrow> CHR ''a'' \<le> c \<and> c \<le> CHR ''z''"

definition times :: "nat \<Rightarrow> (char \<Rightarrow> bool) \<Rightarrow> rx" where
  "times n p = seqs (replicate n (Cls p))"

definition pre :: rx where "pre = Alt Bol (char_in ''-_.'')"
definition post :: rx where "post = Alt (Cls (\<lambda>c. c \<in> set ''-_.'' \<or> is_digit c)) Eol"

definition hostRules :: "(rx \<times> hint list) list" where
  "hostRules = [
     (Lit ''iphone'', [hint ''kind'' ''phone'' 70, hint ''vendor'' ''Apple'' 70, hint ''model'' ''iPhone'' 60]),
     (Lit ''ipad'', [hint ''kind'' ''phone'' 60, hint ''icon'' ''tablet'' 70, hint ''vendor'' ''Apple'' 70, hint ''model'' ''iPad'' 60]),
     (seqs [Lit ''macbook'', Opt (Lit ''-''), Lit ''pro''],
       [hint ''kind'' ''computer'' 70, hint ''vendor'' ''Apple'' 70, hint ''model'' ''MacBook Pro'' 65]),
     (seqs [Lit ''macbook'', Opt (Lit ''-''), Lit ''air''],
       [hint ''kind'' ''computer'' 70, hint ''vendor'' ''Apple'' 70, hint ''model'' ''MacBook Air'' 65]),
     (Lit ''macbook'', [hint ''kind'' ''computer'' 70, hint ''vendor'' ''Apple'' 70, hint ''model'' ''MacBook'' 60]),
     (Lit ''imac'', [hint ''kind'' ''computer'' 70, hint ''vendor'' ''Apple'' 70, hint ''model'' ''iMac'' 60]),
     (seqs [Lit ''mac'', Opt (Lit ''-''), Lit ''mini''],
       [hint ''kind'' ''computer'' 70, hint ''vendor'' ''Apple'' 70, hint ''model'' ''Mac mini'' 60]),
     (Alt (Lit ''galaxy'') (seqs [Bol, Lit ''sm-'', Cls lower_letter, Cls is_digit]),
       [hint ''kind'' ''phone'' 70, hint ''vendor'' ''Samsung'' 70]),
     (Seq Bol (Lit ''pixel''), [hint ''kind'' ''phone'' 70, hint ''vendor'' ''Google'' 70]),
     (Seq Bol (Lit ''android-''), [hint ''kind'' ''phone'' 60]),
     (seqs [Bol, Alt (Lit ''desktop'') (Lit ''laptop''), Lit ''-'', times 7 (\<lambda>c. lower_letter c \<or> is_digit c), Eol],
       [hint ''kind'' ''computer'' 70]),
     (seqs [Bol, Lit ''br'', char_in ''wn'', times 12 lower_hex, Eol],
       [hint ''kind'' ''printer'' 80, hint ''vendor'' ''Brother'' 80]),
     (seqs [Bol, Alt (Lit ''hp'') (Lit ''npi''), times 6 lower_hex],
       [hint ''kind'' ''printer'' 80, hint ''vendor'' ''HP'' 80]),
     (Lit ''epson'', [hint ''kind'' ''printer'' 70, hint ''vendor'' ''Epson'' 70]),
     (alts [seqs [Bol, Lit ''esp'', char_in ''-_''], Lit ''tasmota'', Lit ''shelly'', Lit ''esphome''],
       [hint ''kind'' ''iot'' 70, hint ''tag'' ''smart-home'' 60]),
     (alts [Lit ''chromecast'', Lit ''roku'', seqs [Lit ''apple'', Opt (Lit ''-''), Lit ''tv''],
            seqs [Lit ''fire'', Opt (Lit ''-''), Lit ''tv'']],
       [hint ''icon'' ''tv'' 70, hint ''tag'' ''media'' 60]),
     (Lit ''sonos'', [hint ''icon'' ''speaker'' 70, hint ''vendor'' ''Sonos'' 70, hint ''tag'' ''media'' 60]),
     (alts [seqs [pre, Lit ''ps'', char_in ''45'', post], Lit ''xbox'', Lit ''nintendo''],
       [hint ''icon'' ''gamepad-2'' 70]),
     (Lit ''raspberrypi'', [hint ''kind'' ''computer'' 60, hint ''vendor'' ''Raspberry Pi'' 60]),
     (alts [Lit ''synology'', Lit ''diskstation'', Lit ''truenas'', seqs [pre, Lit ''nas'', post]],
       [hint ''kind'' ''server'' 60, hint ''tag'' ''nas'' 60]),
     (Alt (seqs [Bol, Lit ''pve'', post]) (Lit ''proxmox''),
       [hint ''kind'' ''server'' 70, hint ''function'' ''Proxmox VE'' 60])]"

definition hostnameHints :: "named list \<Rightarrow> hint list" where
  "hostnameHints names = dedupe (concat (map (\<lambda>n.
     if nm_Value n = [] \<or> IsPlaceholderName (nm_Value n) then []
     else (let label = fst (cut CHR ''.'' (to_lower (nm_Value n))) in
       concat (map (\<lambda>(re, hs). if rx_match re label
                 then map (with_detail (nm_Label n @ '' '' @ nm_Value n)) hs else []) hostRules))) names))"

section \<open>Open ports\<close>

definition portRules :: "(int list \<times> hint list) list" where
  "portRules = [
     ([9100, 631], [hint ''kind'' ''printer'' 70]),
     ([554], [hint ''icon'' ''cctv'' 60, hint ''tag'' ''camera'' 60]),
     ([8006], [hint ''kind'' ''server'' 80, hint ''function'' ''Proxmox VE'' 80]),
     ([8123], [hint ''function'' ''Home Assistant'' 70, hint ''tag'' ''smart-home'' 60]),
     ([32400], [hint ''function'' ''Plex'' 70, hint ''tag'' ''media'' 60]),
     ([3389], [hint ''kind'' ''computer'' 60]),
     ([53], [hint ''function'' ''DNS'' 50]),
     ([1883], [hint ''tag'' ''mqtt'' 50])]"

definition portHints :: "int list \<Rightarrow> hint list" where
  "portHints ports = dedupe (concat (map (\<lambda>(ps, hs).
     case List.find (\<lambda>p. p \<in> set ports) ps of
       None \<Rightarrow> []
     | Some p \<Rightarrow> map (with_detail (''port '' @ string_of_int p @ '' open'')) hs) portRules))"

section \<open>Comparing contents\<close>

text \<open>The counters of hintsEqual: one up for each hint of \<open>a\<close>, one down for each of \<open>b\<close>.\<close>

type_synonym hint_content = "string \<times> string \<times> string \<times> int"

definition content :: "hint \<Rightarrow> hint_content" where
  "content h = (hi_Field h, hi_Value h, hi_Detail h, hi_Confidence h)"

definition bump :: "int \<Rightarrow> (hint_content \<times> int) list \<Rightarrow> hint \<Rightarrow> (hint_content \<times> int) list" where
  "bump d counts h = AList.update (content h)
     ((case map_of counts (content h) of None \<Rightarrow> 0 | Some n \<Rightarrow> n) + d) counts"

definition hintsEqual :: "hint list \<Rightarrow> hint list \<Rightarrow> bool" where
  "hintsEqual a b =
     (if length a \<noteq> length b then False
      else list_all (\<lambda>(k, n). n = 0) (foldl (bump (- 1)) (foldl (bump 1) [] a) b))"

section \<open>One hint per field and value\<close>

lemma dedupe_snoc: "dedupe (hs @ [h]) = dedupe_step (dedupe hs) h"
  by (simp add: dedupe_def)

lemma dedupe_step_keys:
  "map fv (dedupe_step out h) = (if fv h \<in> set (map fv out) then map fv out else map fv out @ [fv h])"
  by (simp add: dedupe_step_def)

lemma dedupe_keys: "distinct (map fv (dedupe hs)) \<and> set (map fv (dedupe hs)) = set (map fv hs)"
proof (induction hs rule: rev_induct)
  case (snoc h hs)
  then show ?case unfolding dedupe_snoc dedupe_step_keys by auto
qed (simp add: dedupe_def)

lemma dedupe_best:
  "x \<in> set (dedupe hs) \<Longrightarrow> x \<in> set hs \<and> (\<forall>h \<in> set hs. fv h = fv x \<longrightarrow> hi_Confidence h \<le> hi_Confidence x)"
proof (induction hs arbitrary: x rule: rev_induct)
  case (snoc h hs)
  show ?case
  proof (cases "fv h \<in> set (map fv (dedupe hs))")
    case False
    then have "fv h \<notin> fv ` set hs" using dedupe_keys [of hs] by simp
    then have "fv g \<noteq> fv h" if "g \<in> set hs" for g using that by (metis image_eqI)
    then show ?thesis using snoc False by (auto simp: dedupe_snoc dedupe_step_def)
  next
    case True
    then obtain y where y: "y \<in> set (dedupe hs)"
      "x = (if fv y = fv h \<and> hi_Confidence h > hi_Confidence y then h else y)"
      using snoc.prems by (auto simp: dedupe_snoc dedupe_step_def)
    then show ?thesis using snoc.IH [OF y(1)] by (fastforce split: if_splits)
  qed
qed (simp add: dedupe_def)

lemma ins_hint_calm:
  assumes "calm s" and "dev \<in> set (dev_ids (tabs s))" and "distinct (map fv hs)"
    and "fv ` set hs \<inter> fv ` {h \<in> set (t_hint (tabs s)). source_hint dev src h} = {}"
  shows "fst (forA hs (\<lambda>h. stmt (ins_hint (h\<lparr>hi_DeviceID := dev, hi_Source := src\<rparr>))) s) = Inr () \<and>
    calm (snd (forA hs (\<lambda>h. stmt (ins_hint (h\<lparr>hi_DeviceID := dev, hi_Source := src\<rparr>))) s))"
  using assms
proof (induction hs arbitrary: s)
  case (Cons h hs)
  let ?h = "h\<lparr>hi_DeviceID := dev, hi_Source := src\<rparr>"
  have "hint_key ?h \<notin> hint_key ` set (t_hint (tabs s))"
    using Cons.prems(4) by (auto simp: hint_key_def fv_def source_hint_def)
  then have step: "stmt (ins_hint ?h) s = (Inr (), s\<lparr>tabs := (tabs s)\<lparr>t_hint := t_hint (tabs s) @ [?h]\<rparr>\<rparr>)"
    using Cons.prems(1,2) by (simp add: stmt_calm ins_hint_def)
  have "fv ?h = fv h" by (simp add: fv_def)
  then have "fst (forA hs (\<lambda>h. stmt (ins_hint (h\<lparr>hi_DeviceID := dev, hi_Source := src\<rparr>)))
       (s\<lparr>tabs := (tabs s)\<lparr>t_hint := t_hint (tabs s) @ [?h]\<rparr>\<rparr>)) = Inr () \<and>
     calm (snd (forA hs (\<lambda>h. stmt (ins_hint (h\<lparr>hi_DeviceID := dev, hi_Source := src\<rparr>)))
       (s\<lparr>tabs := (tabs s)\<lparr>t_hint := t_hint (tabs s) @ [?h]\<rparr>\<rparr>)))"
    using Cons.prems by (intro Cons.IH) (auto simp: dev_ids_def)
  then show ?case by (simp add: thenA_def bindA_def step)
qed simp

text \<open>
  A source's hints, once reduced, fit the primary key of device_hint: storing them for an
  existing device succeeds on a database that does not fault, and leaves exactly one hint for each
  field and value the source reported, the most confident.
\<close>

theorem dedupe_fits_primary_key:
  fixes s :: "'s db_scheme"
  assumes "calm s" and "dev \<in> set (dev_ids (tabs s))"
  shows "fst (ReplaceHints dev src (dedupe hs) s) = Inr () \<and>
    map fv (filter (source_hint dev src) (t_hint (tabs (snd (ReplaceHints dev src (dedupe hs) s))))) = map fv (dedupe hs) \<and>
    set (map fv (dedupe hs)) = set (map fv hs) \<and> distinct (map fv (dedupe hs)) \<and>
    set (dedupe hs) \<subseteq> {x \<in> set hs. Max (hi_Confidence ` {h \<in> set hs. fv h = fv x}) = hi_Confidence x}"
proof -
  let ?del = "\<lambda>t. (count_where (source_hint dev src) (t_hint t), t\<lparr>t_hint := del_where (source_hint dev src) (t_hint t)\<rparr>)"
  let ?s = "s\<lparr>tabs := snd (?del (tabs s))\<rparr>"
  let ?ins = "forA (dedupe hs) (\<lambda>h. stmt (ins_hint (h\<lparr>hi_DeviceID := dev, hi_Source := src\<rparr>)))"
  have ins: "fst (?ins ?s) = Inr () \<and> calm (snd (?ins ?s))"
    using assms dedupe_keys [of hs] by (intro ins_hint_calm) (auto simp: dev_ids_def del_where_def)
  have "thenA (exec ?del) ?ins s = ?ins ?s"
    using assms(1) by (simp add: thenA_def bindA_def exec_calm)
  then have ok: "fst (ReplaceHints dev src (dedupe hs) s) = Inr ()"
    using ins assms(1) by (auto simp: ReplaceHints_def withTx_calm query_calm split: prod.splits)
  then have "t_hint (tabs (snd (ReplaceHints dev src (dedupe hs) s))) =
      filter (\<lambda>h. \<not> source_hint dev src h) (t_hint (tabs s)) @ map (\<lambda>h. h\<lparr>hi_DeviceID := dev, hi_Source := src\<rparr>) (dedupe hs)"
    using ReplaceHints_outcome [where s = s and dev = dev and src = src and hints = "dedupe hs"] by (auto split: prod.splits sum.splits)
  then have "map fv (filter (source_hint dev src) (t_hint (tabs (snd (ReplaceHints dev src (dedupe hs) s))))) = map fv (dedupe hs)"
    by (simp add: filter_empty_conv source_hint_def fv_def filter_map comp_def)
  moreover have "set (dedupe hs) \<subseteq> {x \<in> set hs. Max (hi_Confidence ` {h \<in> set hs. fv h = fv x}) = hi_Confidence x}"
    using dedupe_best [of _ hs] by (fastforce intro!: Max_eqI)
  ultimately show ?thesis using ok dedupe_keys [of hs] by blast
qed

lemma dedupe_fits_primary_key_witness:
  "fst (ReplaceHints 1 ''ports'' (dedupe (portHints [9100, 631, 8006])) sample_db) = Inr ()"
proof -
  have "calm sample_db" and "1 \<in> set (dev_ids (tabs sample_db))" by (simp add: calm_def sample_db_def) code_simp
  from dedupe_fits_primary_key [OF this] show ?thesis by blast
qed

section \<open>Unchanged hints are recognised\<close>

definition cnt :: "(hint_content \<times> int) list \<Rightarrow> hint_content \<Rightarrow> int" where
  "cnt c k = (case map_of c k of None \<Rightarrow> 0 | Some n \<Rightarrow> n)"

lemma cnt_bump: "cnt (bump d c h) k = cnt c k + (if k = content h then d else 0)"
  by (simp add: cnt_def bump_def update_conv' split: option.splits)

lemma cnt_bumps: "cnt (foldl (bump d) c hs) k = cnt c k + d * int (count (mset (map content hs)) k)"
  by (induction hs arbitrary: c) (auto simp: cnt_bump algebra_simps)

lemma bumps_distinct: "distinct (map fst c) \<Longrightarrow> distinct (map fst (foldl (bump d) c hs))"
  by (induction hs arbitrary: c) (simp_all add: bump_def distinct_update)

lemma all_zero:
  assumes "distinct (map fst c)"
  shows "list_all (\<lambda>(k, n). n = 0) c \<longleftrightarrow> (\<forall>k. cnt c k = 0)"
proof
  assume "list_all (\<lambda>(k, n). n = 0) c"
  then show "\<forall>k. cnt c k = 0" by (auto simp: cnt_def list_all_iff split: option.splits dest: map_of_SomeD)
next
  assume z: "\<forall>k. cnt c k = 0"
  have "n = 0" if "(k, n) \<in> set c" for k n
    using z [rule_format, of k] assms that by (simp add: cnt_def)
  then show "list_all (\<lambda>(k, n). n = 0) c" by (auto simp: list_all_iff)
qed

text \<open>
  hintsEqual decides whether two lists hold the same hints, each as often, whatever their
  order: the counting loop is equality of the multisets of contents.
\<close>

theorem hintsEqual_is_multiset_equality:
  "hintsEqual a b \<longleftrightarrow> image_mset content (mset a) = image_mset content (mset b)"
proof -
  let ?c = "foldl (bump (- 1)) (foldl (bump 1) [] a) b"
  have "distinct (map fst ?c)" by (intro bumps_distinct) simp
  then have "list_all (\<lambda>(k, n). n = 0) ?c \<longleftrightarrow> (\<forall>k. cnt ?c k = 0)" by (rule all_zero)
  also have "\<dots> \<longleftrightarrow> mset (map content a) = mset (map content b)"
    unfolding cnt_bumps by (auto simp: cnt_def multiset_eq_iff)
  finally have "list_all (\<lambda>(k, n). n = 0) ?c \<longleftrightarrow> mset (map content a) = mset (map content b)" .
  moreover have "mset (map content a) = mset (map content b) \<Longrightarrow> length a = length b"
    by (metis length_map size_mset)
  ultimately show ?thesis by (auto simp: hintsEqual_def)
qed

end
