(* ===== verification/Autofill_Service.thy ===== *)
theory Autofill_Service
  imports Autofill_Sources Store_Event Store_Account Netip
begin

text \<open>
  internal/autofill/service.go and probe.go: an autofill pass over devices, from reading a
  device to the audit entry, and the store side of probing a subnet. The clock is an argument,
  as are the maker registry and what the probes found.
\<close>

section \<open>One device\<close>

definition Enabled :: "crypter option \<Rightarrow> ('s db_scheme, bool) act" where
  "Enabled cr = bindA (attempt (GetSetting cr ''autofill_enabled'')) (\<lambda>r. case r of
     Inl _ \<Rightarrow> ret False | Inr v \<Rightarrow> ret (v \<noteq> ''off''))"

text \<open>The MACs, names and open ports of a device, from its interfaces.\<close>

definition nonempty :: "string option \<Rightarrow> string list" where
  "nonempty v = (case v of None \<Rightarrow> [] | Some x \<Rightarrow> if x = [] then [] else [x])"

definition observe :: "int \<Rightarrow> device \<Rightarrow> ('s db_scheme, string list \<times> named list \<times> int list) act" where
  "observe i d = bindA (ListIfaces i) (\<lambda>ifaces.
     foldA (\<lambda>f (macs, names, ports).
       bindA (ListOpenPorts (if_ID f)) (\<lambda>ops.
       ret (macs @ nonempty (if_MAC f),
            names @ map (\<lambda>h. \<lparr>nm_Label = ''hostname'', nm_Value = h\<rparr>) (nonempty (if_Hostname f)),
            ports @ map op_Port ops)))
     ifaces ([], [\<lparr>nm_Label = ''name'', nm_Value = dev_Name d\<rparr>], []))"

text \<open>
  One local source: unchanged hints are kept as stored, changed ones replace what is stored and
  are stamped with the time of the pass.
\<close>

definition of_source :: "string \<Rightarrow> hint list \<Rightarrow> hint list" where
  "of_source src hs = filter (\<lambda>h. hi_Source h = src) hs"

definition stamped :: "int \<Rightarrow> string \<Rightarrow> stamp \<Rightarrow> hint \<Rightarrow> hint" where
  "stamped i src ts h = h\<lparr>hi_DeviceID := i, hi_Source := src, hi_SeenAt := ts\<rparr>"

definition refresh_source :: "int \<Rightarrow> stamp \<Rightarrow> hint list \<Rightarrow> string \<times> hint list \<Rightarrow> ('s db_scheme, hint list) act" where
  "refresh_source i ts existing sh = (case sh of (src, hs) \<Rightarrow>
     if hintsEqual (of_source src existing) hs then ret (of_source src existing)
     else thenA (ReplaceHints i src (map (stamped i src ts) hs)) (ret (map (stamped i src ts) hs)))"

definition all_hints :: "(string \<rightharpoonup> string) \<Rightarrow> stamp \<Rightarrow> int \<Rightarrow> device \<Rightarrow> ('s db_scheme, hint list) act" where
  "all_hints reg ts i d = bindA (observe i d) (\<lambda>(macs, names, ports).
     bindA (ListHints i) (\<lambda>existing.
     let local = [(''oui'', ouiHints reg macs), (''hostname'', hostnameHints names), (''ports'', portHints ports)] in
     bindA (foldA (\<lambda>sh hs. bindA (refresh_source i ts existing sh) (\<lambda>new. ret (hs @ new))) local []) (\<lambda>hints.
     ret (hints @ filter (\<lambda>h. hi_Source h \<notin> fst ` set local) existing))))"

text \<open>What a pass changed and from where, for the audit log.\<close>

definition auditDetail :: "autofill_write list \<Rightarrow> autofill_tag list \<Rightarrow> string" where
  "auditDetail writes tags =
     (let parts = map (\<lambda>w. aw_Field w @ ''='' @ aw_Value w) writes @ map (\<lambda>g. ''+tag '' @ ag_Name g) tags;
          srcs = sort (remdups (map aw_Source writes @ map ag_Source tags))
      in join '', '' parts @ '' ('' @ join '', '' srcs @ '')'')"

definition apply_changes :: "time \<Rightarrow> int \<Rightarrow> autofill_changes \<Rightarrow> ('s db_scheme, unit) act" where
  "apply_changes now i ch =
     (if EmptyChanges ch then ret ()
      else bindA (ApplyAutofill now i ch) (\<lambda>(writes, added).
        if writes = [] \<and> added = [] then ret ()
        else AddAudit now None \<lparr>au_ID = 0, au_At = 0, au_UserID = None, au_Username = ''netis'',
          au_Action = ''device.autofill'', au_Target = ''device '' @ string_of_int i,
          au_Detail = auditDetail writes added, au_IP = [], au_Status = 200\<rparr>))"

definition runOne :: "(string \<rightharpoonup> string) \<Rightarrow> time \<Rightarrow> int \<Rightarrow> ('s db_scheme, unit) act" where
  "runOne reg now i =
     bindA (attempt (GetDevice i)) (\<lambda>r. case r of
       Inl ErrNoRows \<Rightarrow> ret ()
     | Inl e \<Rightarrow> fail e
     | Inr d \<Rightarrow>
         bindA (all_hints reg (rfc3339 now) i d) (\<lambda>hints.
         bindA (DeviceTags i) (\<lambda>tagRows.
         bindA (ListAutofill i) (\<lambda>recs.
         case Resolve hints of (flds, tagCands) \<Rightarrow>
           apply_changes now i (decide d (map tag_Name tagRows) recs flds tagCands)))))"

section \<open>A pass over many devices\<close>

text \<open>An error on one device does not stop the rest; the first one is returned.\<close>

definition Run :: "crypter option \<Rightarrow> (string \<rightharpoonup> string) \<Rightarrow> time \<Rightarrow> int list \<Rightarrow> ('s db_scheme, error option) act" where
  "Run cr reg now ids = bindA (Enabled cr) (\<lambda>on.
     if \<not> on then ret None
     else bindA (if ids = [] then DeviceIDs else ret ids) (\<lambda>ids.
       foldA (\<lambda>i first. bindA (attempt (runOne reg now i)) (\<lambda>r. case r of
           Inl e \<Rightarrow> ret (if first = None then Some e else first)
         | Inr _ \<Rightarrow> ret first)) ids None))"

section \<open>Probing a subnet\<close>

text \<open>What each prober found: hints by source, then by address.\<close>

type_synonym found = "(string \<times> (string \<times> hint list) list) list"

definition deviceByIP :: "subnet_iface_ip list \<Rightarrow> string \<Rightarrow> int option" where
  "deviceByIP rows ip = map_option si_DeviceID (List.find (\<lambda>r. si_IP r = ip) rows)"

definition store_answer :: "stamp \<Rightarrow> subnet_iface_ip list \<Rightarrow> string \<Rightarrow> string \<times> hint list \<Rightarrow> int list \<Rightarrow>
    ('s db_scheme, int list) act" where
  "store_answer ts rows src ans ids = (case ans of (ip, hs) \<Rightarrow>
     case deviceByIP rows ip of
       None \<Rightarrow> ret ids
     | Some i \<Rightarrow> bindA (ListHints i) (\<lambda>existing.
         thenA (if hintsEqual (of_source src existing) hs then ret ()
                else ReplaceHints i src (map (stamped i src ts) hs))
         (ret (if i \<in> set ids then ids else ids @ [i]))))"

definition probeSubnet :: "crypter option \<Rightarrow> (string \<rightharpoonup> string) \<Rightarrow> time \<Rightarrow> int \<Rightarrow> found \<Rightarrow> ('s db_scheme, error option) act" where
  "probeSubnet cr reg now sn found = bindA (ListSubnetIfaceIPs sn) (\<lambda>rows.
     bindA (foldA (\<lambda>(src, byIP) ids. foldA (store_answer (rfc3339 now) rows src) byIP ids) found []) (\<lambda>ids.
     if ids = [] then ret None else Run cr reg now ids))"

text \<open>
  The guards of the probe worker: \<open>probedAt\<close> is when each subnet was last probed, \<open>iface\<close> says
  whether a local interface is attached to the subnet.
\<close>

definition probeEvery :: int where "probeEvery = 15 * minute"

definition probe_due :: "(string \<Rightarrow> bool) \<Rightarrow> bool \<Rightarrow> time \<Rightarrow> subnet \<Rightarrow> (int \<rightharpoonup> time) \<Rightarrow> bool" where
  "probe_due iface on now sn probedAt \<longleftrightarrow> on \<and>
     \<not> (case probedAt (sn_ID sn) of None \<Rightarrow> False | Some t0 \<Rightarrow> now - t0 < probeEvery) \<and>
     (case parse_prefix (sn_CIDR sn) of None \<Rightarrow> False | Some p \<Rightarrow> is4 (pfx_addr p)) \<and>
     iface (sn_CIDR sn)"

definition probeLoop_step :: "(string \<Rightarrow> bool) \<Rightarrow> bool \<times> time \<times> subnet \<Rightarrow>
    (int \<rightharpoonup> time) \<times> (int \<times> time) list \<Rightarrow> (int \<rightharpoonup> time) \<times> (int \<times> time) list" where
  "probeLoop_step iface req st = (case req of (on, now, sn) \<Rightarrow> case st of (probedAt, probes) \<Rightarrow>
     if probe_due iface on now sn probedAt
     then (probedAt(sn_ID sn \<mapsto> now), probes @ [(sn_ID sn, now)])
     else (probedAt, probes))"

section \<open>A subnet is probed at most once per interval\<close>

definition apart :: "int \<times> time \<Rightarrow> int \<times> time \<Rightarrow> bool" where
  "apart p q \<longleftrightarrow> (if fst p = fst q then probeEvery \<le> snd q - snd p else True)"

text \<open>The map holds the time of the last probe, and no earlier probe is later than it.\<close>

definition probes_ok :: "(int \<rightharpoonup> time) \<times> (int \<times> time) list \<Rightarrow> bool" where
  "probes_ok st \<longleftrightarrow> sorted_wrt apart (snd st) \<and>
     (\<forall>(i, t) \<in> set (snd st). \<exists>t0. fst st i = Some t0 \<and> t \<le> t0)"

lemma probeLoop_step_ok:
  assumes "probes_ok st" shows "probes_ok (probeLoop_step iface req st)"
proof -
  obtain on now sn where req: "req = (on, now, sn)" by (cases req)
  obtain m ps where st: "st = (m, ps)" by (cases st)
  show ?thesis
  proof (cases "probe_due iface on now sn m")
    case False
    then show ?thesis using assms by (simp add: probeLoop_step_def req st)
  next
    case True
    have "apart (i, t) (sn_ID sn, now) \<and> (i = sn_ID sn \<longrightarrow> t \<le> now)" if "(i, t) \<in> set ps" for i t
    proof (cases "i = sn_ID sn")
      case eq: True
      from assms that obtain t0 where "m i = Some t0" "t \<le> t0" by (auto simp: probes_ok_def st)
      moreover from this have "probeEvery \<le> now - t0" using True eq by (simp add: probe_due_def)
      moreover have "0 \<le> probeEvery" by (simp add: probeEvery_def time_units)
      ultimately show ?thesis by (simp add: apart_def)
    qed (simp add: apart_def)
    then show ?thesis using assms True
      by (fastforce simp: probeLoop_step_def req st probes_ok_def sorted_wrt_append)
  qed
qed

text \<open>
  However many requests to probe reach the worker, whatever their order and times, any two
  probes of the same subnet are at least fifteen minutes apart.
\<close>

theorem probes_are_spaced:
  "sorted_wrt apart (snd (foldl (\<lambda>st req. probeLoop_step iface req st) (Map.empty, []) reqs))"
proof -
  have "probes_ok (foldl (\<lambda>st req. probeLoop_step iface req st) (Map.empty, []) reqs)"
  proof (induction reqs rule: rev_induct)
    case Nil
    show ?case by (simp add: probes_ok_def)
  next
    case (snoc req reqs)
    then show ?case by (simp add: probeLoop_step_ok)
  qed
  then show ?thesis by (simp add: probes_ok_def)
qed

section \<open>A whole pass respects what people set\<close>

text \<open>
  The part of the tables a pass decides by, up to its own write: all steps before the write keep
  it, whatever fails.
\<close>

definition decided_by :: "tables \<Rightarrow> device_row list \<times> autofill_record list" where
  "decided_by t = (t_device t, t_autofill t)"

abbreviation keeps_decided :: "device_row list \<times> autofill_record list \<Rightarrow> ('s db_scheme, 'a) act \<Rightarrow> bool" where
  "keeps_decided X m \<equiv> keeps (\<lambda>s. decided_by (tabs s) = X) m"

lemma ReplaceHints_keeps [pres_intros]: "keeps_decided X (ReplaceHints i src hs)"
  unfolding ReplaceHints_def
  by (intro pres_intros keeps_exec keeps_stmt [where J = "\<lambda>t. decided_by t = X"])
     (auto simp: decided_by_def ins_hint_def split: if_splits)

lemma all_hints_keeps [pres_intros]: "keeps_decided X (all_hints reg ts i d)"
  unfolding all_hints_def observe_def ListIfaces_def ListOpenPorts_def ListHints_def refresh_source_def
  by (intro pres_intros keeps_query [where J = "\<lambda>t. decided_by t = X"])

lemma AddAudit_keeps [pres_intros]: "keeps_decided X (AddAudit now at' e)"
  unfolding AddAudit_def
  by (rule keeps_stmt [where J = "\<lambda>t. decided_by t = X"]) (auto simp: decided_by_def split: if_splits)

text \<open>What autofill may write to in a row: an empty field, or its own value of an unreviewed device.\<close>

definition fillable :: "autofill_record list \<Rightarrow> device_row \<Rightarrow> string \<Rightarrow> bool" where
  "fillable recs r f \<longleftrightarrow> isEmpty r f (get_col f r) \<or>
     \<not> dev_Reviewed r \<and> (\<exists>x \<in> set recs. af_DeviceID x = dev_ID r \<and> af_Field x = f \<and>
        af_State x \<noteq> ''owned'' \<and> af_Value x = get_col f r)"

definition heeds :: "device_row list \<times> autofill_record list \<Rightarrow> (error + unit) \<times> 's db_scheme \<Rightarrow> bool" where
  "heeds X p \<longleftrightarrow> list_all2 (\<lambda>r r'. dev_ID r' = dev_ID r \<and> dev_Reviewed r' = dev_Reviewed r \<and>
       {f. get_col f r' \<noteq> get_col f r} \<subseteq> {f. fillable (snd X) r f}) (fst X) (t_device (tabs (snd p)))"

lemma heeds_same: "decided_by (tabs s) = X \<Longrightarrow> heeds X (r, s)"
  by (auto simp: heeds_def decided_by_def list_all2_same)

lemma may_fill_fillable:
  assumes "distinct (map dev_ID ds)" and "q \<in> set ds" and "r \<in> set ds" and "set recs = {x \<in> set A. af_DeviceID x = dev_ID q}"
  shows "{f. may_fill (scanDevice q) recs r f} \<subseteq> {f. fillable A r f}"
proof
  have cols: "get_col f (scanDevice q) = get_col f q" "dev_ID (scanDevice q) = dev_ID q"
    "isEmpty (scanDevice q) f v = isEmpty q f v" for f v
    by (simp_all add: scanDevice_def device.truncate_def get_col_def isEmpty_def)
  fix f assume f: "f \<in> {f. may_fill (scanDevice q) recs r f}"
  then have "dev_ID q = dev_ID r" by (simp add: may_fill_def cols)
  then have "q = r" by (rule distinct_key_eq [OF assms(1-3)])
  show "f \<in> {f. fillable A r f}"
  proof (cases "isEmpty q f (get_col f q)")
    case True
    then show ?thesis by (simp add: fillable_def \<open>q = r\<close>)
  next
    case False
    then obtain x where x: "recordsByField recs f = Some x" "af_State x \<noteq> ''owned''" "af_Value x = get_col f q"
      "\<not> dev_Reviewed r"
      using f by (auto simp: may_fill_def cols split: option.splits)
    from find_SomeD [OF x(1) [unfolded recordsByField_def]] have "x \<in> set recs" "af_Field x = f" by simp_all
    then show ?thesis using x assms(4) \<open>q = r\<close> by (auto simp: fillable_def)
  qed
qed

lemma apply_changes_heeds:
  fixes s :: "'s db_scheme"
  assumes "decided_by (tabs s) = (ds, A)" and "distinct (map dev_ID ds)" and "q \<in> set ds"
    and "set recs = {x \<in> set A. af_DeviceID x = dev_ID q}"
  shows "heeds (ds, A) (apply_changes now (dev_ID q) (decide (scanDevice q) tags recs flds cands) s)"
proof -
  let ?ch = "decide (scanDevice q) tags recs flds cands"
  have id: "dev_ID (scanDevice q) = dev_ID q" by (simp add: scanDevice_def device.truncate_def)
  have mono: "list_all2 (\<lambda>r r'. dev_ID r' = dev_ID r \<and> dev_Reviewed r' = dev_Reviewed r \<and>
       {f. get_col f r' \<noteq> get_col f r} \<subseteq> {f. fillable A r f}) ds xs"
    if "list_all2 (\<lambda>r r'. dev_ID r' = dev_ID r \<and> dev_Reviewed r' = dev_Reviewed r \<and>
       {f. get_col f r' \<noteq> get_col f r} \<subseteq> {f. may_fill (scanDevice q) recs r f}) ds xs" for xs
    using that by (rule list.rel_mono_strong) (use may_fill_fillable [OF assms(2,3) _ assms(4)] in blast)
  have after: "heeds (ds, A) (r, s')"
    if "t_device (tabs s') = t_device (tabs (snd (ApplyAutofill now (dev_ID q) ?ch s)))" for r and s' :: "'s db_scheme"
  proof -
    have ds: "t_device (tabs s) = ds" using assms(1) by (simp add: decided_by_def)
    show ?thesis using mono [OF decided_writes_fill [of "scanDevice q" recs s now tags flds cands, unfolded id ds]] that
      by (simp add: heeds_def)
  qed
  show ?thesis
  proof (cases "EmptyChanges ?ch")
    case True
    then show ?thesis using heeds_same [OF assms(1)] by (simp add: apply_changes_def)
  next
    case False
    show ?thesis unfolding apply_changes_def if_not_P [OF False]
    proof (rule bindA_cases)
      fix e s' assume "ApplyAutofill now (dev_ID q) ?ch s = (Inl e, s')"
      then show "heeds (ds, A) (Inl e, s')" by (intro after) simp
    next
      fix a and s' :: "'s db_scheme" assume a: "ApplyAutofill now (dev_ID q) ?ch s = (Inr a, s')"
      have audit: "t_device (tabs (snd (AddAudit now None e s'))) = t_device (tabs s')" for e
        using keepsD [OF AddAudit_keeps, of s' "decided_by (tabs s')" now None e] by (simp add: decided_by_def)
      then show "heeds (ds, A) ((case a of (writes, added) \<Rightarrow> if writes = [] \<and> added = [] then ret ()
        else AddAudit now None \<lparr>au_ID = 0, au_At = 0, au_UserID = None, au_Username = ''netis'',
          au_Action = ''device.autofill'', au_Target = ''device '' @ string_of_int (dev_ID q),
          au_Detail = auditDetail writes added, au_IP = [], au_Status = 200\<rparr>) s')"
      proof -
        have "heeds (ds, A) (r, s4)" if "t_device (tabs s4) = t_device (tabs s')" for r and s4 :: "'s db_scheme"
          using that a by (intro after) simp
        then have "heeds (ds, A) p" if "t_device (tabs (snd p)) = t_device (tabs s')"
          for p :: "(error + unit) \<times> 's db_scheme"
          using that by (cases p) simp
        then show ?thesis using audit by (simp split: prod.splits)
      qed
    qed
  qed
qed

lemma write_phase:
  fixes s s3 :: "'s db_scheme"
  assumes "distinct (dev_ids (tabs s))" and q: "q \<in> set (t_device (tabs s))" "dev_ID q = i" "d = scanDevice q"
    and t3: "decided_by (tabs s3) = decided_by (tabs s)"
  shows "heeds (decided_by (tabs s)) (bindA (ListAutofill i) (\<lambda>recs.
     case Resolve hints of (flds, tagCands) \<Rightarrow> apply_changes now i (decide d tags recs flds tagCands)) s3)"
proof (rule bindA_cases)
  fix e s4 assume "ListAutofill i s3 = (Inl e, s4)"
  then have "tabs s4 = tabs s3" using query_tabs [of _ s3] unfolding ListAutofill_def by (metis snd_conv)
  then show "heeds (decided_by (tabs s)) (Inl e, s4)" using t3 by (intro heeds_same) simp
next
  fix recs s4 assume l: "ListAutofill i s3 = (Inr recs, s4)"
  then have t4: "tabs s4 = tabs s3" using query_tabs [of _ s3] unfolding ListAutofill_def by (metis snd_conv)
  have "set recs = {x \<in> set (t_autofill (tabs s)). af_DeviceID x = dev_ID q}"
    using l t3 q(2) by (auto simp: ListAutofill_def query_def order_by_def decided_by_def dest!: stmt_InrD)
  moreover have "decided_by (tabs s4) = (t_device (tabs s), t_autofill (tabs s))" using t3 t4 by (simp add: decided_by_def)
  ultimately show "heeds (decided_by (tabs s)) ((case Resolve hints of (flds, tagCands) \<Rightarrow>
      apply_changes now i (decide d tags recs flds tagCands)) s4)"
    using apply_changes_heeds [of s4 "t_device (tabs s)" "t_autofill (tabs s)" q recs now tags] assms(1) q
    by (simp add: decided_by_def dev_ids_def split: prod.splits)
qed

text \<open>
  C7: An autofill pass over one device, from reading it to the audit entry, with statements
  failing anywhere, changes only fields of devices that were empty or still held autofill's own
  value on an unreviewed device, and never marks a device reviewed or drops one.
\<close>

theorem runOne_respects_people:
  fixes s :: "'s db_scheme"
  assumes "distinct (dev_ids (tabs s))"
  shows "heeds (decided_by (tabs s)) (runOne reg now i s)"
  unfolding runOne_def
proof (rule bindA_cases)
  let ?X = "decided_by (tabs s)"
  have kept: "decided_by (tabs s') = decided_by (tabs s0)" if "keeps_decided (decided_by (tabs s0)) m" "m s0 = (r, s')"
    for m :: "('s db_scheme, 'b) act" and r and s0 s' :: "'s db_scheme"
    using keepsD [OF that(1), of s0] that(2) by simp
  fix r s1 assume "attempt (GetDevice i) s = (Inr r, s1)"
  then have g: "GetDevice i s = (r, s1)" by (simp add: attempt_def split: prod.splits)
  then have t1: "tabs s1 = tabs s" using query_row_tabs [of _ s] by (metis GetDevice_def snd_conv)
  show "heeds ?X ((case r of Inl ErrNoRows \<Rightarrow> ret () | Inl e \<Rightarrow> fail e
     | Inr d \<Rightarrow> bindA (all_hints reg (rfc3339 now) i d) (\<lambda>hints. bindA (DeviceTags i) (\<lambda>tagRows.
         bindA (ListAutofill i) (\<lambda>recs. case Resolve hints of (flds, tagCands) \<Rightarrow>
           apply_changes now i (decide d (map tag_Name tagRows) recs flds tagCands))))) s1)"
  proof (cases r)
    case (Inl e)
    then show ?thesis using t1 by (cases e) (simp_all add: heeds_same)
  next
    case (Inr d)
    then obtain q where q: "q \<in> set (t_device (tabs s))" "dev_ID q = i" "d = scanDevice q"
      using g by (auto simp: GetDevice_def query_row_def find_device_def dest!: stmt_InrD find_SomeD split: option.splits)
    show ?thesis unfolding Inr sum.case
    proof (rule bindA_cases)
      fix e s2 assume "all_hints reg (rfc3339 now) i d s1 = (Inl e, s2)"
      then show "heeds ?X (Inl e, s2)" using kept [OF all_hints_keeps] t1 by (intro heeds_same) simp
    next
      fix hints s2 assume "all_hints reg (rfc3339 now) i d s1 = (Inr hints, s2)"
      then have t2: "decided_by (tabs s2) = ?X" using kept [OF all_hints_keeps] t1 by simp
      show "heeds ?X (bindA (DeviceTags i) (\<lambda>tagRows. bindA (ListAutofill i) (\<lambda>recs.
          case Resolve hints of (flds, tagCands) \<Rightarrow> apply_changes now i (decide d (map tag_Name tagRows) recs flds tagCands))) s2)"
      proof (rule bindA_cases)
        fix e s3 assume "DeviceTags i s2 = (Inl e, s3)"
        then show "heeds ?X (Inl e, s3)" using query_tabs [of "device_tags i" s2] t2
          by (intro heeds_same) (simp add: DeviceTags_def)
      next
        fix tagRows s3 assume "DeviceTags i s2 = (Inr tagRows, s3)"
        then have t3: "decided_by (tabs s3) = ?X" using query_tabs [of "device_tags i" s2] t2 by (simp add: DeviceTags_def)
        show "heeds ?X (bindA (ListAutofill i) (\<lambda>recs.
            case Resolve hints of (flds, tagCands) \<Rightarrow> apply_changes now i (decide d (map tag_Name tagRows) recs flds tagCands)) s3)"
          by (rule write_phase [OF assms q t3])
      qed
    qed
  qed
qed (use query_row_tabs in \<open>auto simp: attempt_def split: prod.splits\<close>)

lemma runOne_respects_people_witness:
  "heeds (decided_by sample_tables) (runOne Map.empty 0 1 sample_db)"
proof -
  have "distinct (dev_ids (tabs sample_db))" by code_simp
  from runOne_respects_people [OF this, of Map.empty 0 1] show ?thesis by (simp add: sample_db_def)
qed

section \<open>A tag of another spelling\<close>

text \<open>
  Tags are found whatever their case, but a pass compares their names as they are spelled: a tag
  autofill attaches under an existing spelling is taken for a person's by the next pass.
\<close>

definition nas_candidate :: candidate where
  "nas_candidate = \<lparr>ca_Value = ''nas'', ca_Source = ''hostname'', ca_Detail = [], ca_Confidence = 60\<rparr>"

definition nas_db :: db where
  "nas_db = \<lparr>tabs = no_tables\<lparr>t_device := [sample_device 1 ''box'' ''manual'' False],
     t_tag := [\<lparr>tag_ID = 1, tag_Name = ''NAS'', tag_Color = []\<rparr>]\<rparr>, faults = []\<rparr>"

text \<open>
  The tag autofill adds as nas is attached as the existing NAS and recorded as applied; the
  next pass, with the same hint and no edit in between, gives the record up as a person's.
\<close>

theorem autofill_disowns_respelled_tag:
  "let d = sample_device 1 ''box'' ''manual'' False;
       s1 = snd (ApplyAutofill 0 1 (decide d [] [] Map.empty [nas_candidate]) nas_db)
   in map af_State (t_autofill (tabs s1)) = [''applied''] \<and>
      map tag_Name (device_tags 1 (tabs s1)) = [''NAS''] \<and>
      ac_Own (decide d (map tag_Name (device_tags 1 (tabs s1))) (t_autofill (tabs s1)) Map.empty [nas_candidate]) = [''tag:nas'']"
  by code_simp

end
