(* ===== verification/Autofill_Probe.thy ===== *)
theory Autofill_Probe
  imports Autofill_Sources
begin

text \<open>
  internal/autofill/probe_hints.go: what an mDNS service or a UPnP device description says about a
  device, and the tidying of every string a device announces before it is stored.
\<close>

section \<open>Runes\<close>

text \<open>
  A string as the list of its runes, each with its bytes; a byte outside any valid encoding is a
  rune of its own, which strings.Map replaces by U+FFFD.
\<close>

definition replacement :: string where
  "replacement = [CHR 0xEF, CHR 0xBF, CHR 0xBD]"

fun runes :: "string \<Rightarrow> string list" where
  "runes [] = []"
| "runes (c # s) = (let n = rune_len (c # s) in
     (if n = 1 \<and> 0x80 \<le> (of_char c :: nat) then replacement else take n (c # s)) # runes (drop (n - 1) s))"

definition rune_val :: "string \<Rightarrow> nat" where
  "rune_val r = (case map of_char r of
     [a] \<Rightarrow> a
   | [a, b] \<Rightarrow> (a - 0xC0) * 0x40 + (b - 0x80)
   | [a, b, c] \<Rightarrow> (a - 0xE0) * 0x1000 + (b - 0x80) * 0x40 + (c - 0x80)
   | [a, b, c, d] \<Rightarrow> (a - 0xF0) * 0x40000 + (b - 0x80) * 0x1000 + (c - 0x80) * 0x40 + (d - 0x80)
   | _ \<Rightarrow> 0)"

definition in_ranges :: "nat \<Rightarrow> (nat \<times> nat) list \<Rightarrow> bool" where
  "in_ranges n rs = list_ex (\<lambda>(lo, hi). lo \<le> n \<and> n \<le> hi) rs"

text \<open>\<open>unicode.IsControl\<close>, \<open>unicode.IsSpace\<close> and the category Cf of the unicode package.\<close>

definition is_control :: "string \<Rightarrow> bool" where
  "is_control r = in_ranges (rune_val r) [(0, 0x1F), (0x7F, 0x9F)]"

definition is_space_rune :: "string \<Rightarrow> bool" where
  "is_space_rune r = in_ranges (rune_val r) [(0x09, 0x0D), (0x20, 0x20), (0x85, 0x85), (0xA0, 0xA0), (0x1680, 0x1680),
     (0x2000, 0x200A), (0x2028, 0x2029), (0x202F, 0x202F), (0x205F, 0x205F), (0x3000, 0x3000)]"

definition is_format :: "string \<Rightarrow> bool" where
  "is_format r = in_ranges (rune_val r) [(0xAD, 0xAD), (0x600, 0x605), (0x61C, 0x61C), (0x6DD, 0x6DD), (0x70F, 0x70F),
     (0x890, 0x891), (0x8E2, 0x8E2), (0x180E, 0x180E), (0x200B, 0x200F), (0x202A, 0x202E), (0x2060, 0x2064),
     (0x2066, 0x206F), (0xFEFF, 0xFEFF), (0xFFF9, 0xFFFB), (0x110BD, 0x110BD), (0x110CD, 0x110CD),
     (0x13430, 0x1343F), (0x1BCA0, 0x1BCA3), (0x1D173, 0x1D17A), (0xE0001, 0xE0001), (0xE0020, 0xE007F)]"

section \<open>Tidying announced strings\<close>

definition maxAnnounced :: nat where "maxAnnounced = 128"

fun rune_fields :: "string list \<Rightarrow> string list \<Rightarrow> string list list" where
  "rune_fields [] w = (if w = [] then [] else [rev w])"
| "rune_fields (r # rs) w =
     (if is_space_rune r then (if w = [] then rune_fields rs [] else rev w # rune_fields rs [])
      else rune_fields rs (r # w))"

fun join_runes :: "string list list \<Rightarrow> string list" where
  "join_runes [] = []"
| "join_runes [w] = w"
| "join_runes (w # ws) = w @ '' '' # join_runes ws"

definition trim_runes :: "string list \<Rightarrow> string list" where
  "trim_runes rs = rev (dropWhile is_space_rune (rev (dropWhile is_space_rune rs)))"

definition clean_runes :: "string list \<Rightarrow> string list" where
  "clean_runes rs =
     (let v = join_runes (rune_fields (filter (\<lambda>r. \<not> ((is_control r \<and> \<not> is_space_rune r) \<or> is_format r)) rs) [])
      in if maxAnnounced < length v then trim_runes (take maxAnnounced v) else v)"

definition cleanAnnounced :: "string \<Rightarrow> string" where
  "cleanAnnounced v = concat (clean_runes (runes v))"

definition finish :: "hint list \<Rightarrow> string \<Rightarrow> hint list" where
  "finish hs detail = map (with_detail detail)
     (filter (\<lambda>h. hi_Value h \<noteq> []) (map (\<lambda>h. h\<lparr>hi_Value := cleanAnnounced (hi_Value h)\<rparr>) hs))"

section \<open>Apple models\<close>

definition appleFamilies :: "(string \<times> string \<times> bool) list" where
  "appleFamilies = [(''MacBookPro'', ''MacBook Pro'', True), (''MacBookAir'', ''MacBook Air'', True),
     (''MacBook'', ''MacBook'', True), (''iMac'', ''iMac'', True), (''Macmini'', ''Mac mini'', True),
     (''MacPro'', ''Mac Pro'', True), (''AppleTV'', ''Apple TV'', False), (''AudioAccessory'', ''HomePod'', False),
     (''iPhone'', ''iPhone'', False), (''iPad'', ''iPad'', False), (''Watch'', ''Apple Watch'', False)]"

definition starts_digit :: "string \<Rightarrow> bool" where
  "starts_digit s \<longleftrightarrow> s \<noteq> [] \<and> is_digit (hd s)"

definition matchAppleFamily :: "string \<Rightarrow> (string \<times> string \<times> bool) option" where
  "matchAppleFamily i = List.find (\<lambda>(p, n, mac). case cut_prefix p i of
     None \<Rightarrow> False | Some rest \<Rightarrow> starts_digit rest) appleFamilies"

definition appleModel :: "string \<Rightarrow> string" where
  "appleModel i = (if i = [] then []
     else (case matchAppleFamily i of None \<Rightarrow> i | Some (p, n, mac) \<Rightarrow> n @ '' ('' @ i @ '')''))"

definition isApplePrefixed :: "string \<Rightarrow> bool" where
  "isApplePrefixed i \<longleftrightarrow> i \<noteq> [] \<and> (matchAppleFamily i \<noteq> None \<or> (prefix ''Mac'' i \<and> starts_digit (drop 3 i)))"

definition isMacPrefixed :: "string \<Rightarrow> bool" where
  "isMacPrefixed i \<longleftrightarrow> i \<noteq> [] \<and> (case matchAppleFamily i of
     Some (p, n, mac) \<Rightarrow> mac
   | None \<Rightarrow> prefix ''Mac'' i \<and> starts_digit (drop 3 i))"

section \<open>mDNS services\<close>

record mdns_service =
  ms_Type :: string
  ms_Instance :: string
  ms_TXT :: "string \<Rightarrow> string"

definition firstNonEmpty :: "string list \<Rightarrow> string" where
  "firstNonEmpty vals = (case List.find (\<lambda>v. trim_space v \<noteq> []) vals of None \<Rightarrow> [] | Some v \<Rightarrow> trim_space v)"

text \<open>A hint for a value when there is one.\<close>

definition opt_hint :: "string \<Rightarrow> string \<Rightarrow> int \<Rightarrow> hint list" where
  "opt_hint f v c = (if v = [] then [] else [hint f v c])"

definition hapIcons :: "(string \<times> string) list" where
  "hapIcons = [(''5'', ''lightbulb''), (''7'', ''plug''), (''8'', ''plug''), (''9'', ''thermometer''),
     (''10'', ''thermometer''), (''17'', ''cctv''), (''18'', ''cctv''), (''24'', ''tv''), (''31'', ''tv''),
     (''35'', ''tv''), (''36'', ''tv''), (''25'', ''speaker''), (''26'', ''speaker''), (''34'', ''speaker'')]"

definition hapBridge :: string where "hapBridge = ''2''"

definition castSpeaker :: rx where
  "castSpeaker = alts [Seq (ci ''nest '') (Alt (ci ''mini'') (ci ''audio'')), ci ''google home'', ci ''home mini'',
     ci ''audio'', ci ''speaker'', ci ''group'']"

definition mediaSoftware :: rx where
  "mediaSoftware = alts (map ci [''windows media player'', ''windows media'', ''plex'', ''kodi'', ''minidlna'',
     ''readydlna'', ''jellyfin'', ''emby'', ''serviio'', ''universal media server''])"

definition workstationMAC :: rx where
  "workstationMAC = (let h = (\<lambda>c. lower_hex (lower_char c)) in
     seqs ([Cls rx_space, Lit ''['', times 2 h] @ replicate 5 (Seq (Lit '':'') (times 2 h)) @ [Lit '']'', Eol]))"

definition hGooglecast :: "mdns_service \<Rightarrow> hint list" where
  "hGooglecast s =
     opt_hint ''model'' (ms_TXT s ''md'') 80 @
     opt_hint ''name'' (firstNonEmpty [ms_TXT s ''fn'', ms_Instance s]) 70 @
     [hint ''icon'' (if rx_match castSpeaker (ms_TXT s ''md'') then ''speaker'' else ''tv'') 60, hint ''tag'' ''media'' 60]"

definition hAirplay :: "mdns_service \<Rightarrow> hint list" where
  "hAirplay s = (let model = ms_TXT s ''model'' in
     (if model = [] then []
      else [hint ''model'' (appleModel model) 70] @
        (if isApplePrefixed model then [hint ''vendor'' ''Apple'' 70] else []) @
        (if prefix ''AppleTV'' model then [hint ''icon'' ''tv'' 70]
         else if prefix ''AudioAccessory'' model then [hint ''icon'' ''speaker'' 70] else [])) @
     opt_hint ''name'' (trim_space (ms_Instance s)) 60)"

definition hRaop :: "mdns_service \<Rightarrow> hint list" where
  "hRaop s =
     (if ms_TXT s ''am'' = [] then [] else [hint ''model'' (appleModel (ms_TXT s ''am'')) 60]) @
     (case cut CHR ''@'' (ms_Instance s) of (b, after, found) \<Rightarrow>
        if found then opt_hint ''name'' (trim_space after) 50 else [])"

definition hDeviceInfo :: "mdns_service \<Rightarrow> hint list" where
  "hDeviceInfo s = (let model = ms_TXT s ''model'' in
     if model = [] then []
     else [hint ''model'' (appleModel model) 70] @
       (if isApplePrefixed model then [hint ''vendor'' ''Apple'' 70] else []) @
       (if isMacPrefixed model then [hint ''kind'' ''computer'' 60] else []))"

definition hCompanionLink :: "mdns_service \<Rightarrow> hint list" where
  "hCompanionLink s = (let rpmd = ms_TXT s ''rpmd'' in
     [hint ''vendor'' ''Apple'' 70] @
     (if rpmd = [] then []
      else [hint ''model'' (appleModel rpmd) 70] @
        (if prefix ''iPhone'' rpmd \<or> prefix ''iPad'' rpmd then [hint ''kind'' ''phone'' 70] else []) @
        (if prefix ''iPad'' rpmd then [hint ''icon'' ''tablet'' 70] else [])))"

definition hPrinter :: "mdns_service \<Rightarrow> hint list" where
  "hPrinter s =
     [hint ''kind'' ''printer'' 90] @
     (if ms_TXT s ''usb_mdl'' \<noteq> [] then [hint ''model'' (ms_TXT s ''usb_mdl'') 80]
      else opt_hint ''model'' (ms_TXT s ''ty'') 75) @
     (if ms_TXT s ''usb_mfg'' = [] then [] else opt_hint ''vendor'' (Normalize (ms_TXT s ''usb_mfg'')) 80) @
     opt_hint ''name'' (trim_space (ms_Instance s)) 60"

definition hHap :: "mdns_service \<Rightarrow> hint list" where
  "hHap s = (if ms_TXT s ''ci'' = hapBridge then [hint ''tag'' ''smart-home'' 60]
     else [hint ''kind'' ''iot'' 70, hint ''tag'' ''smart-home'' 60] @
       opt_hint ''model'' (ms_TXT s ''md'') 70 @
       (case map_of hapIcons (ms_TXT s ''ci'') of None \<Rightarrow> [] | Some icon \<Rightarrow> [hint ''icon'' icon 70]) @
       opt_hint ''name'' (trim_space (ms_Instance s)) 60)"

definition hHue :: "mdns_service \<Rightarrow> hint list" where
  "hHue s = [hint ''vendor'' ''Philips Hue'' 80, hint ''kind'' ''iot'' 80, hint ''model'' ''Hue Bridge'' 70,
     hint ''tag'' ''smart-home'' 60]"

definition hESPHome :: "mdns_service \<Rightarrow> hint list" where
  "hESPHome s = [hint ''kind'' ''iot'' 80, hint ''function'' ''ESPHome'' 70, hint ''tag'' ''smart-home'' 60] @
     opt_hint ''name'' (firstNonEmpty [ms_TXT s ''friendly_name'', ms_Instance s]) 60"

definition hHomeAssistant :: "mdns_service \<Rightarrow> hint list" where
  "hHomeAssistant s = [hint ''kind'' ''server'' 60, hint ''function'' ''Home Assistant'' 90, hint ''tag'' ''smart-home'' 60]"

definition hSMB :: "mdns_service \<Rightarrow> hint list" where
  "hSMB s = [hint ''tag'' ''file-share'' 50]"

definition hSonos :: "mdns_service \<Rightarrow> hint list" where
  "hSonos s = [hint ''vendor'' ''Sonos'' 90, hint ''icon'' ''speaker'' 80, hint ''tag'' ''media'' 60]"

definition hSpotifyConnect :: "mdns_service \<Rightarrow> hint list" where
  "hSpotifyConnect s = [hint ''tag'' ''media'' 50]"

definition hWorkstation :: "mdns_service \<Rightarrow> hint list" where
  "hWorkstation s = [hint ''kind'' ''computer'' 60] @
     opt_hint ''name'' (trim_space (case rx_find workstationMAC (ms_Instance s) of
        None \<Rightarrow> ms_Instance s | Some i \<Rightarrow> take i (ms_Instance s))) 50"

definition mdnsHandlers :: "(string \<times> (mdns_service \<Rightarrow> hint list)) list" where
  "mdnsHandlers = [(''_googlecast._tcp'', hGooglecast), (''_airplay._tcp'', hAirplay), (''_raop._tcp'', hRaop),
     (''_device-info._tcp'', hDeviceInfo), (''_companion-link._tcp'', hCompanionLink), (''_ipp._tcp'', hPrinter),
     (''_ipps._tcp'', hPrinter), (''_printer._tcp'', hPrinter), (''_pdl-datastream._tcp'', hPrinter),
     (''_hap._tcp'', hHap), (''_hue._tcp'', hHue), (''_esphomelib._tcp'', hESPHome),
     (''_home-assistant._tcp'', hHomeAssistant), (''_smb._tcp'', hSMB), (''_sonos._tcp'', hSonos),
     (''_spotify-connect._tcp'', hSpotifyConnect), (''_workstation._tcp'', hWorkstation)]"

text \<open>The evidence text is quoted by fmt's \<open>%q\<close>: \<open>q\<close> stands for strconv.Quote.\<close>

definition mdnsHints :: "(string \<Rightarrow> string) \<Rightarrow> mdns_service list \<Rightarrow> hint list" where
  "mdnsHints q svcs = dedupe (concat (map (\<lambda>s. case map_of mdnsHandlers (ms_Type s) of
       None \<Rightarrow> []
     | Some fn \<Rightarrow> finish (fn s) (''mDNS '' @ ms_Type s @ '' '' @ q (ms_Instance s))) svcs))"

section \<open>UPnP devices\<close>

record upnp_device =
  ud_DeviceType :: string
  ud_FriendlyName :: string
  ud_Manufacturer :: string
  ud_ModelName :: string
  ud_ModelNumber :: string

text \<open>What follows the first occurrence of a marker.\<close>

fun after_str :: "string \<Rightarrow> string \<Rightarrow> string option" where
  "after_str m [] = cut_prefix m []"
| "after_str m (c # s) = (case cut_prefix m (c # s) of Some rest \<Rightarrow> Some rest | None \<Rightarrow> after_str m s)"

definition deviceTypeShort :: "string \<Rightarrow> string" where
  "deviceTypeShort t = (case after_str ''device:'' t of None \<Rightarrow> []
     | Some rest \<Rightarrow> takeWhile (\<lambda>c. c \<noteq> CHR '':'') rest)"

definition isMediaSoftware :: "upnp_device \<Rightarrow> bool" where
  "isMediaSoftware d \<longleftrightarrow> deviceTypeShort (ud_DeviceType d) \<in> {''MediaRenderer'', ''MediaServer''} \<and>
     (equal_fold (Normalize (ud_Manufacturer d)) ''Microsoft'' \<or> rx_match mediaSoftware (ud_ModelName d))"

definition type_hints :: "string \<Rightarrow> hint list" where
  "type_hints t =
     (if t = ''InternetGatewayDevice'' then [hint ''kind'' ''router'' 80]
      else if t = ''WLANAccessPointDevice'' then [hint ''kind'' ''router'' 60]
      else if t = ''MediaRenderer'' then [hint ''icon'' ''tv'' 40, hint ''tag'' ''media'' 60]
      else if t = ''MediaServer'' then [hint ''tag'' ''media'' 50]
      else if t = ''Printer'' then [hint ''kind'' ''printer'' 80]
      else if t = ''DigitalSecurityCamera'' then [hint ''icon'' ''cctv'' 70, hint ''tag'' ''camera'' 60]
      else if t = ''ZonePlayer'' then [hint ''icon'' ''speaker'' 70, hint ''tag'' ''media'' 60]
      else [])"

definition deviceHints :: "upnp_device \<Rightarrow> hint list" where
  "deviceHints d =
     (let software = isMediaSoftware d in
      (if ud_Manufacturer d = [] \<or> software then [] else opt_hint ''vendor'' (Normalize (ud_Manufacturer d)) 80) @
      (if ud_ModelName d = [] \<or> software then []
       else [hint ''model'' (if ud_ModelNumber d \<noteq> [] \<and> \<not> contains_str (ud_ModelNumber d) (ud_ModelName d)
               then ud_ModelName d @ '' '' @ ud_ModelNumber d else ud_ModelName d) 80]) @
      opt_hint ''name'' (trim_space (ud_FriendlyName d)) 70 @
      type_hints (deviceTypeShort (ud_DeviceType d)) @
      (if contains_str ''roku-com'' (ud_DeviceType d)
       then [hint ''icon'' ''tv'' 70, hint ''vendor'' ''Roku'' 70, hint ''tag'' ''media'' 60] else []))"

definition ssdpHints :: "(string \<Rightarrow> string) \<Rightarrow> upnp_device list \<Rightarrow> hint list" where
  "ssdpHints q devs = dedupe (concat (map (\<lambda>d. finish (deviceHints d)
     (''UPnP '' @ deviceTypeShort (ud_DeviceType d) @ '' '' @ q (trim_space (ud_FriendlyName d)))) devs))"

section \<open>What a device announces is stored tidy\<close>

text \<open>
  Tidy text: at most \<open>maxAnnounced\<close> runes, none of them a control or format character, no space
  at either end, and no white space but single spaces.
\<close>

definition tidy :: "string list \<Rightarrow> bool" where
  "tidy v \<longleftrightarrow> length v \<le> maxAnnounced \<and> list_all (\<lambda>r. \<not> is_control r \<and> \<not> is_format r \<and> (is_space_rune r \<longrightarrow> r = '' '')) v \<and>
     (v \<noteq> [] \<longrightarrow> \<not> is_space_rune (hd v) \<and> \<not> is_space_rune (last v)) \<and> \<not> sublist ['' '', '' ''] v"

text \<open>The same without the bound: what joining the words gives.\<close>

definition spaced :: "string list \<Rightarrow> bool" where
  "spaced v \<longleftrightarrow> list_all (\<lambda>r. \<not> is_control r \<and> \<not> is_format r \<and> (is_space_rune r \<longrightarrow> r = '' '')) v \<and>
     \<not> sublist ['' '', '' ''] v"

lemma blank_rune: "is_space_rune '' ''" "\<not> is_control '' ''" "\<not> is_format '' ''"
  by (simp_all add: is_space_rune_def is_control_def is_format_def in_ranges_def rune_val_def)

lemma rune_fields_words:
  assumes "list_all (\<lambda>r. \<not> is_space_rune r) w"
  shows "w' \<in> set (rune_fields rs w) \<Longrightarrow> w' \<noteq> [] \<and> set w' \<subseteq> set rs \<union> set w \<and> list_all (\<lambda>r. \<not> is_space_rune r) w'"
  using assms
proof (induction rs w rule: rune_fields.induct)
  case (1 w)
  then show ?case by (auto simp: list_all_iff split: if_splits)
next
  case (2 r rs w)
  consider (word) "is_space_rune r" "w \<noteq> []" "w' = rev w"
    | (skip) "is_space_rune r" "w' \<in> set (rune_fields rs [])"
    | (grow) "\<not> is_space_rune r" "w' \<in> set (rune_fields rs (r # w))"
    using "2.prems"(1) by (auto split: if_splits)
  then show ?case
  proof cases
    case word
    then show ?thesis using "2.prems"(2) by (auto simp: list_all_iff)
  next
    case skip
    have "w' \<noteq> [] \<and> set w' \<subseteq> set rs \<union> set [] \<and> list_all (\<lambda>r. \<not> is_space_rune r) w'"
      using "2.IH"(1,2) [OF skip(1)] skip(2) by (cases "w = []") simp_all
    then show ?thesis by auto
  next
    case grow
    have "w' \<noteq> [] \<and> set w' \<subseteq> set rs \<union> set (r # w) \<and> list_all (\<lambda>r. \<not> is_space_rune r) w'"
      using "2.IH"(3) [OF grow] grow(1) "2.prems"(2) by simp
    then show ?thesis by auto
  qed
qed

lemma join_runes_ends:
  assumes "\<And>w. w \<in> set ws \<Longrightarrow> w \<noteq> [] \<and> list_all (\<lambda>r. \<not> is_space_rune r) w" and "ws \<noteq> []"
  shows "join_runes ws \<noteq> [] \<and> \<not> is_space_rune (hd (join_runes ws)) \<and> \<not> is_space_rune (last (join_runes ws))"
  using assms
proof (induction ws rule: join_runes.induct)
  case (2 w)
  then show ?case by (simp add: list_all_iff)
next
  case (3 w v ws)
  from "3.prems"(1) [of w] have "w \<noteq> []" "\<not> is_space_rune (hd w)" by (simp_all add: list_all_iff)
  moreover have "join_runes (v # ws) \<noteq> [] \<and> \<not> is_space_rune (last (join_runes (v # ws)))"
    using "3.IH" "3.prems"(1) by simp
  ultimately show ?case by simp
qed simp

text \<open>Two spaces in a row never arise: a part without spaces, a space, a part that starts with none.\<close>

lemma no_double_space:
  assumes "'' '' \<notin> set w" and "\<not> sublist ['' '', '' ''] v" and "v \<noteq> []" and "hd v \<noteq> '' ''"
  shows "\<not> sublist ['' '', '' ''] (w @ '' '' # v)"
proof -
  have "\<not> prefix ['' ''] v" using assms(3,4) by (cases v) auto
  then show ?thesis using assms(1,2) by (induction w) (auto simp: sublist_Cons_right)
qed

lemma no_space_sublist: "'' '' \<notin> set w \<Longrightarrow> \<not> sublist ['' '', '' ''] w"
  using set_mono_sublist by fastforce

lemma join_runes_spaced:
  assumes "\<And>w. w \<in> set ws \<Longrightarrow> w \<noteq> [] \<and> list_all (\<lambda>r. \<not> is_space_rune r \<and> \<not> is_control r \<and> \<not> is_format r) w"
  shows "spaced (join_runes ws)"
  using assms
proof (induction ws rule: join_runes.induct)
  case 1
  show ?case by (simp add: spaced_def)
next
  case (2 w)
  then have w: "list_all (\<lambda>r. \<not> is_space_rune r \<and> \<not> is_control r \<and> \<not> is_format r) w" by simp
  then have "'' '' \<notin> set w" using blank_rune by (auto simp: list_all_iff)
  then show ?case using w no_space_sublist by (auto simp: spaced_def list_all_iff)
next
  case (3 w v ws)
  from "3.prems" [of w] have w: "list_all (\<lambda>r. \<not> is_space_rune r \<and> \<not> is_control r \<and> \<not> is_format r) w" by simp
  have IH: "spaced (join_runes (v # ws))" using "3.IH" "3.prems" by simp
  have e: "join_runes (v # ws) \<noteq> [] \<and> \<not> is_space_rune (hd (join_runes (v # ws)))"
    using join_runes_ends [of "v # ws"] "3.prems" by (fastforce simp: list_all_iff)
  have "'' '' \<notin> set w" "hd (join_runes (v # ws)) \<noteq> '' ''" using w e blank_rune by (auto simp: list_all_iff)
  then show ?case using no_double_space [of w "join_runes (v # ws)"] w IH e blank_rune
    by (auto simp: spaced_def list_all_iff)
qed

lemma spaced_sublist: "spaced v \<Longrightarrow> sublist u v \<Longrightarrow> spaced u"
  using set_mono_sublist sublist_order.order.trans by (fastforce simp: spaced_def list_all_iff)

lemma trim_runes_sublist: "sublist (trim_runes v) v"
proof -
  have s: "suffix (dropWhile P xs) xs" for P and xs :: "string list" by (rule suffix_dropWhile)
  have "prefix (trim_runes v) (dropWhile is_space_rune v)"
    using s [of is_space_rune "rev (dropWhile is_space_rune v)"] by (simp add: trim_runes_def suffix_to_prefix)
  then show ?thesis using s [of is_space_rune v]
    by (meson prefix_imp_sublist sublist_order.order.trans suffix_imp_sublist)
qed

lemma trim_runes_ends:
  assumes "trim_runes v \<noteq> []"
  shows "\<not> is_space_rune (hd (trim_runes v)) \<and> \<not> is_space_rune (last (trim_runes v))"
proof -
  let ?d = "dropWhile is_space_rune v" and ?r = "dropWhile is_space_rune (rev (dropWhile is_space_rune v))"
  have ne: "?r \<noteq> []" using assms unfolding trim_runes_def by (metis rev_is_Nil_conv)
  then have "?d \<noteq> []" by (metis dropWhile.simps(1) rev.simps(1))
  note ne = ne this
  have "last (trim_runes v) = hd ?r" using ne by (simp add: trim_runes_def last_rev)
  moreover have "hd (trim_runes v) = last ?r" using ne by (simp add: trim_runes_def hd_rev)
  moreover have "last ?r = hd ?d" using ne by (metis append_Nil2 dropWhile_eq_Nil_conv hd_rev last_appendR rev_rev_ident takeWhile_dropWhile_id)
  ultimately show ?thesis using hd_dropWhile ne by metis
qed

lemma clean_runes_tidy: "tidy (clean_runes rs)"
proof -
  let ?P = "\<lambda>r. \<not> ((is_control r \<and> \<not> is_space_rune r) \<or> is_format r)"
  let ?ws = "rune_fields (filter ?P rs) []" and ?v = "join_runes (rune_fields (filter ?P rs) [])"
  have ws: "w \<noteq> [] \<and> list_all (\<lambda>r. \<not> is_space_rune r \<and> \<not> is_control r \<and> \<not> is_format r) w" if "w \<in> set ?ws" for w
    using rune_fields_words [OF _ that] by (fastforce simp: list_all_iff)
  then have sp: "spaced ?v" by (rule join_runes_spaced)
  show ?thesis
  proof (cases "maxAnnounced < length ?v")
    case True
    have "sublist (trim_runes (take maxAnnounced ?v)) ?v"
      by (meson trim_runes_sublist sublist_order.order.trans sublist_take)
    then have "spaced (trim_runes (take maxAnnounced ?v))" using sp spaced_sublist by blast
    moreover have "length (trim_runes (take maxAnnounced ?v)) \<le> maxAnnounced"
      using sublist_length_le [OF trim_runes_sublist [of "take maxAnnounced ?v"]] by simp
    ultimately show ?thesis using True trim_runes_ends
      by (auto simp: clean_runes_def tidy_def spaced_def Let_def)
  next
    case False
    have ws': "w \<noteq> [] \<and> list_all (\<lambda>r. \<not> is_space_rune r) w" if "w \<in> set ?ws" for w
      using ws [OF that] by (simp add: list_all_iff)
    have "\<not> is_space_rune (hd ?v) \<and> \<not> is_space_rune (last ?v)" if "?v \<noteq> []"
    proof -
      have "?ws \<noteq> []" using that by auto
      from join_runes_ends [OF ws' this] show ?thesis by simp
    qed
    then have "tidy ?v" using False sp unfolding tidy_def spaced_def by simp
    moreover have "clean_runes rs = ?v" using False by (simp add: clean_runes_def)
    ultimately show ?thesis by simp
  qed
qed

lemma dedupe_subset: "set (dedupe hs) \<subseteq> set hs"
  using dedupe_best by blast

lemma finish_tidy: "h \<in> set (finish hs d) \<Longrightarrow> \<exists>rs. hi_Value h = concat rs \<and> rs \<noteq> [] \<and> tidy rs"
  using clean_runes_tidy by (fastforce simp: finish_def with_detail_def cleanAnnounced_def)

text \<open>
  Whatever the devices on a network announce, every value the probes turn into a hint is tidy
  text of at most 128 runes, free of control and format characters (so no text can display as
  something else), trimmed, with single spaces only, and not empty.
\<close>

theorem announced_values_are_tidy:
  "set (map hi_Value (mdnsHints q svcs @ ssdpHints q' devs)) \<subseteq> {concat rs |rs. rs \<noteq> [] \<and> tidy rs}"
proof -
  have "set (mdnsHints q svcs) \<subseteq> (\<Union>p. set (finish (fst p) (snd p)))"
    unfolding mdnsHints_def by (rule order_trans [OF dedupe_subset]) (force split: option.splits)
  moreover have "set (ssdpHints q' devs) \<subseteq> (\<Union>p. set (finish (fst p) (snd p)))"
    unfolding ssdpHints_def by (rule order_trans [OF dedupe_subset]) force
  ultimately show ?thesis using finish_tidy by fastforce
qed

end
