(* ===== verification/Store_Upstream.thy ===== *)
theory Store_Upstream
  imports Store_Meta
begin

text \<open>
  internal/store/upstream.go, importexport.go and status_integration.go: what the integrations
  and the CSV import do to existing rows without taking them away from their owner.
\<close>

section \<open>Which devices an integration's list still contains\<close>

datatype upstream_scope = ScopeProxmoxGuests | ScopeWireGuardPeers

fun in_scope :: "upstream_scope \<Rightarrow> device_row \<Rightarrow> bool" where
  "in_scope ScopeProxmoxGuests d = (dev_Source d = ''proxmox'' \<and> dev_ProxmoxVMID d \<noteq> None)"
| "in_scope ScopeWireGuardPeers d = (dev_Source d = ''wireguard'' \<and> dev_WGPubKey d \<noteq> None)"

record upstream_change =
  uc_ID :: int
  uc_Name :: string

definition change_of :: "device_row \<Rightarrow> upstream_change" where
  "change_of d = \<lparr>uc_ID = dev_ID d, uc_Name = dev_Name d\<rparr>"

definition set_missing :: "stamp option \<Rightarrow> int \<Rightarrow> tables \<Rightarrow> nat \<times> tables" where
  "set_missing v i t = (count_where (\<lambda>d. dev_ID d = i) (t_device t),
     t\<lparr>t_device := upd_where (\<lambda>d. dev_ID d = i) (\<lambda>d. d\<lparr>dev_UpstreamMissingSince := v\<rparr>) (t_device t)\<rparr>)"

text \<open>The loop over the rows in scope: \<open>seen\<close> is the Go map of the ids the sync resolved.\<close>

definition sort_change :: "(int \<Rightarrow> bool) \<Rightarrow> device_row \<Rightarrow> upstream_change list \<times> upstream_change list \<Rightarrow>
    upstream_change list \<times> upstream_change list" where
  "sort_change seen d acc = (case acc of (gone, back) \<Rightarrow>
     if seen (dev_ID d) \<and> dev_UpstreamMissingSince d \<noteq> None then (gone, back @ [change_of d])
     else if \<not> seen (dev_ID d) \<and> dev_UpstreamMissingSince d = None then (gone @ [change_of d], back)
     else (gone, back))"

definition ReconcileUpstream :: "upstream_scope \<Rightarrow> (int \<Rightarrow> bool) \<Rightarrow> time \<Rightarrow>
    ('s db_scheme, upstream_change list \<times> upstream_change list) act" where
  "ReconcileUpstream sc seen now = withTx (
     bindA (query (\<lambda>t. filter (in_scope sc) (t_device t))) (\<lambda>rows.
     case foldl (\<lambda>acc d. sort_change seen d acc) ([], []) rows of (gone, back) \<Rightarrow>
       thenA (forA gone (\<lambda>ch. thenA (exec (set_missing (Some (rfc3339 now)) (uc_ID ch))) (ret ())))
       (thenA (forA back (\<lambda>ch. thenA (exec (set_missing None (uc_ID ch))) (ret ())))
       (ret (gone, back)))))"

section \<open>The addresses an integration owns on an interface\<close>

text \<open>
  The map \<open>have\<close> from an address to its row: a later row of the same address replaces an
  earlier one, the order of the keys is that of their first row.
\<close>

definition have_ips :: "ip_row list \<Rightarrow> ((int \<times> string) \<times> ip_row) list" where
  "have_ips rows = foldl (\<lambda>h a. AList.update (ip_SubnetID a, ip_IP a) a h) [] rows"

definition SyncIntegrationIPs :: "int \<Rightarrow> string \<Rightarrow> (int \<times> string) list \<Rightarrow> ('s db_scheme, nat \<times> nat) act" where
  "SyncIntegrationIPs ifc src want = withTx (
     bindA (query (\<lambda>t. filter (\<lambda>a. ip_IfaceID a = ifc) (t_ip t))) (\<lambda>rows.
     let have = have_ips rows in
     bindA (foldA (\<lambda>k (wanted, added).
         if k \<in> set wanted then ret (wanted, added)
         else if map_of have k \<noteq> None then ret (k # wanted, added)
         else thenA (stmt (ins_ip ifc (fst k) (snd k) ''static'' src)) (ret (k # wanted, added + 1)))
       want ([], 0)) (\<lambda>(wanted, added).
     bindA (foldA (\<lambda>(k, r) removed.
         if ip_Source r \<noteq> src \<or> k \<in> set wanted then ret removed
         else thenA (exec (del_ip (\<lambda>a. ip_ID a = ip_ID r))) (ret (removed + 1)))
       have 0) (\<lambda>removed. ret (added, removed)))))"

section \<open>CSV import\<close>

record device_fill =
  fl_Name :: string
  fl_Kind :: string
  fl_Notes :: string
  fl_Vendor :: string
  fl_Model :: string
  fl_Function :: string

definition ImportMayRename :: "'z device_scheme \<Rightarrow> bool" where
  "ImportMayRename d \<longleftrightarrow> dev_Source d = ''scan'' \<and> \<not> dev_Reviewed d"

definition filled :: "device_fill \<Rightarrow> device_row \<Rightarrow> device_row" where
  "filled f d = d
     \<lparr>dev_Name := (if fl_Name f \<noteq> [] \<and> dev_Source d = ''scan'' \<and> \<not> dev_Reviewed d then fl_Name f else dev_Name d),
      dev_Kind := (if fl_Kind f \<noteq> [] \<and> dev_Source d = ''scan'' \<and> \<not> dev_Reviewed d then fl_Kind f else dev_Kind d),
      dev_Notes := (if dev_Notes d = [] then fl_Notes f else dev_Notes d),
      dev_Vendor := (if dev_Vendor d = [] then fl_Vendor f else dev_Vendor d),
      dev_Model := (if dev_Model d = [] then fl_Model f else dev_Model d),
      dev_Function := (if dev_Function d = [] then fl_Function f else dev_Function d)\<rparr>"

definition FillDevice :: "int \<Rightarrow> device_fill \<Rightarrow> ('s db_scheme, unit) act" where
  "FillDevice i f = stmt (\<lambda>t.
     if list_ex (\<lambda>d. dev_ID d = i \<and> dev_Kind (filled f d) \<notin> set device_kinds) (t_device t) then Inl ErrCheck
     else Inr ((), t\<lparr>t_device := upd_where (\<lambda>d. dev_ID d = i) (filled f) (t_device t)\<rparr>))"

record export_ip =
  xp_IP :: string
  xp_Kind :: string
  xp_Subnet :: string

record export_iface =
  xi_DeviceID :: int
  xi_MAC :: "string option"
  xi_Hostname :: "string option"
  xi_IPs :: "export_ip list"

text \<open>
  ListExportIfaces groups the joined rows by consecutive interface; as the query orders them by
  device, interface and assignment, that is one entry per interface with its addresses.
\<close>

definition export_ips :: "tables \<Rightarrow> int \<Rightarrow> export_ip list" where
  "export_ips t ifc = map (\<lambda>a. \<lparr>xp_IP = ip_IP a, xp_Kind = ip_Kind a,
       xp_Subnet = (case List.find (\<lambda>s. sn_ID s = ip_SubnetID a) (t_subnet t) of None \<Rightarrow> [] | Some s \<Rightarrow> sn_CIDR s)\<rparr>)
     (order_by ip_ID (filter (\<lambda>a. ip_IfaceID a = ifc) (t_ip t)))"

definition ListExportIfaces :: "('s db_scheme, int \<rightharpoonup> export_iface list) act" where
  "ListExportIfaces = query (\<lambda>t dev.
     let ifs = order_by if_ID (filter (\<lambda>f. if_DeviceID f = dev) (t_iface t)) in
     if ifs = [] then None
     else Some (map (\<lambda>f. \<lparr>xi_DeviceID = dev, xi_MAC = if_MAC f, xi_Hostname = if_Hostname f,
                         xi_IPs = export_ips t (if_ID f)\<rparr>) ifs))"

section \<open>Integration status\<close>

definition SetIntegrationStatus :: "integration_status \<Rightarrow> ('s db_scheme, unit) act" where
  "SetIntegrationStatus st = thenA (exec (\<lambda>t.
     let hit = (\<lambda>x. is_Name x = is_Name st) in
     (1, t\<lparr>t_istatus := (if count_where hit (t_istatus t) \<noteq> 0 then upd_where hit (\<lambda>_. st) (t_istatus t)
                         else t_istatus t @ [st])\<rparr>))) (ret ())"

definition ListIntegrationStatus :: "('s db_scheme, integration_status list) act" where
  "ListIntegrationStatus = query (\<lambda>t. order_by is_Name (t_istatus t))"

section \<open>Reconciling reports each transition once\<close>

definition missing_after :: "upstream_scope \<Rightarrow> (int \<Rightarrow> bool) \<Rightarrow> stamp \<Rightarrow> device_row \<Rightarrow> device_row" where
  "missing_after sc seen ts d =
     (if \<not> in_scope sc d then d
      else if seen (dev_ID d) then d\<lparr>dev_UpstreamMissingSince := None\<rparr>
      else if dev_UpstreamMissingSince d = None then d\<lparr>dev_UpstreamMissingSince := Some ts\<rparr> else d)"

lemma fold_sort_change:
  "foldl (\<lambda>acc d. sort_change seen d acc) (g, b) rows =
   (g @ map change_of (filter (\<lambda>d. \<not> seen (dev_ID d) \<and> dev_UpstreamMissingSince d = None) rows),
    b @ map change_of (filter (\<lambda>d. seen (dev_ID d) \<and> dev_UpstreamMissingSince d \<noteq> None) rows))"
  by (induction rows arbitrary: g b) (auto simp: sort_change_def)

definition mark_all :: "stamp option \<Rightarrow> upstream_change list \<Rightarrow> device_row \<Rightarrow> device_row" where
  "mark_all v chs d = (if dev_ID d \<in> uc_ID ` set chs then d\<lparr>dev_UpstreamMissingSince := v\<rparr> else d)"

lemma mark_all_Nil: "mark_all v [] = (\<lambda>d. d)"
  by (simp add: fun_eq_iff mark_all_def)

lemma mark_all_snoc:
  "mark_all v (chs @ [ch]) d =
   (if dev_ID (mark_all v chs d) = uc_ID ch then (mark_all v chs d)\<lparr>dev_UpstreamMissingSince := v\<rparr> else mark_all v chs d)"
  by (auto simp: mark_all_def)

lemma set_missing_loop:
  fixes s s' :: "'s db_scheme" and chs :: "upstream_change list"
  assumes "forA chs (\<lambda>ch. thenA (exec (set_missing v (uc_ID ch))) (ret ())) s = (Inr u, s')"
  shows "tabs s' = (tabs s)\<lparr>t_device := map (mark_all v chs) (t_device (tabs s))\<rparr>"
proof (rule forA_InrI [OF assms, where R = "\<lambda>ys s'. tabs s' = (tabs s)\<lparr>t_device := map (mark_all v ys) (t_device (tabs s))\<rparr>"])
  show "tabs s = (tabs s)\<lparr>t_device := map (mark_all v []) (t_device (tabs s))\<rparr>"
    by (simp add: mark_all_Nil)
  fix ys :: "upstream_change list" and x :: upstream_change and a and s1 s2 :: "'s db_scheme"
  assume R: "tabs s1 = (tabs s)\<lparr>t_device := map (mark_all v ys) (t_device (tabs s))\<rparr>"
    and st: "thenA (exec (set_missing v (uc_ID x))) (ret ()) s1 = (Inr a, s2)"
  from st have "tabs s2 = snd (set_missing v (uc_ID x) (tabs s1))"
    by (auto simp: exec_def elim!: thenA_InrE dest!: stmt_InrD)
  then show "tabs s2 = (tabs s)\<lparr>t_device := map (mark_all v (ys @ [x])) (t_device (tabs s))\<rparr>"
    using R by (simp add: set_missing_def upd_where_def mark_all_snoc comp_def)
qed

text \<open>Marking the lost devices and then clearing the found ones is one pass over the table.\<close>

lemma mark_all_twice:
  assumes "distinct (map dev_ID ds)" and "d \<in> set ds"
  shows "mark_all None (map change_of (filter (\<lambda>d. seen (dev_ID d) \<and> dev_UpstreamMissingSince d \<noteq> None) (filter (in_scope sc) ds)))
      (mark_all (Some ts) (map change_of (filter (\<lambda>d. \<not> seen (dev_ID d) \<and> dev_UpstreamMissingSince d = None) (filter (in_scope sc) ds))) d)
    = missing_after sc seen ts d"
proof -
  have hit: "dev_ID d \<in> uc_ID ` set (map change_of (filter P (filter (in_scope sc) ds))) \<longleftrightarrow> in_scope sc d \<and> P d" for P
  proof
    assume "dev_ID d \<in> uc_ID ` set (map change_of (filter P (filter (in_scope sc) ds)))"
    then obtain e where "e \<in> set ds" "in_scope sc e" "P e" "dev_ID e = dev_ID d" by (auto simp: change_of_def)
    then show "in_scope sc d \<and> P d" using distinct_key_eq [OF assms(1), of e d] assms(2) by auto
  qed (use assms(2) in \<open>auto simp: change_of_def image_iff\<close>)
  have id: "dev_ID (mark_all v chs d) = dev_ID d" for v chs by (simp add: mark_all_def)
  have "d\<lparr>dev_UpstreamMissingSince := None\<rparr> = d" if "dev_UpstreamMissingSince d = None" using that by simp
  then show ?thesis unfolding mark_all_def [of None] id hit unfolding mark_all_def hit
    by (cases "dev_UpstreamMissingSince d") (simp_all add: missing_after_def)
qed

text \<open>The body of the transaction.\<close>

lemma reconcile_body:
  fixes s1 s2 :: "'s db_scheme"
  assumes "distinct (map dev_ID (t_device (tabs s1)))"
    and run: "bindA (query (\<lambda>t. filter (in_scope sc) (t_device t))) (\<lambda>rows.
     case foldl (\<lambda>acc d. sort_change seen d acc) ([], []) rows of (gone, back) \<Rightarrow>
       thenA (forA gone (\<lambda>ch. thenA (exec (set_missing (Some ts) (uc_ID ch))) (ret ())))
       (thenA (forA back (\<lambda>ch. thenA (exec (set_missing None (uc_ID ch))) (ret ())))
       (ret (gone, back)))) s1 = (Inr p, s2)"
  defines "rows \<equiv> filter (in_scope sc) (t_device (tabs s1))"
  shows "p = (map change_of (filter (\<lambda>d. \<not> seen (dev_ID d) \<and> dev_UpstreamMissingSince d = None) rows),
              map change_of (filter (\<lambda>d. seen (dev_ID d) \<and> dev_UpstreamMissingSince d \<noteq> None) rows)) \<and>
    tabs s2 = (tabs s1)\<lparr>t_device := map (missing_after sc seen ts) (t_device (tabs s1))\<rparr>"
proof -
  let ?g = "filter (\<lambda>d. \<not> seen (dev_ID d) \<and> dev_UpstreamMissingSince d = None) rows"
  let ?b = "filter (\<lambda>d. seen (dev_ID d) \<and> dev_UpstreamMissingSince d \<noteq> None) rows"
  from run obtain rs and s3 :: "'s db_scheme" where
    q: "query (\<lambda>t. filter (in_scope sc) (t_device t)) s1 = (Inr rs, s3)"
    and run: "(case foldl (\<lambda>acc d. sort_change seen d acc) ([], []) rs of (gone, back) \<Rightarrow>
       thenA (forA gone (\<lambda>ch. thenA (exec (set_missing (Some ts) (uc_ID ch))) (ret ())))
       (thenA (forA back (\<lambda>ch. thenA (exec (set_missing None (uc_ID ch))) (ret ())))
       (ret (gone, back)))) s3 = (Inr p, s2)"
    by (rule bindA_InrE)
  have t3: "tabs s3 = tabs s1" and rs: "rs = rows"
    using q by (auto simp: query_def rows_def dest!: stmt_InrD)
  from run have "thenA (forA (map change_of ?g) (\<lambda>ch. thenA (exec (set_missing (Some ts) (uc_ID ch))) (ret ())))
       (thenA (forA (map change_of ?b) (\<lambda>ch. thenA (exec (set_missing None (uc_ID ch))) (ret ())))
       (ret (map change_of ?g, map change_of ?b))) s3 = (Inr p, s2)"
    unfolding rs fold_sort_change by simp
  then obtain u3 u4 and s4 s5 :: "'s db_scheme" where
    l1: "forA (map change_of ?g) (\<lambda>ch. thenA (exec (set_missing (Some ts) (uc_ID ch))) (ret ())) s3 = (Inr u3, s4)"
    and l2: "forA (map change_of ?b) (\<lambda>ch. thenA (exec (set_missing None (uc_ID ch))) (ret ())) s4 = (Inr u4, s5)"
    and "ret (map change_of ?g, map change_of ?b) s5 = (Inr p, s2)"
    by (elim thenA_InrE)
  then have l2: "forA (map change_of ?b) (\<lambda>ch. thenA (exec (set_missing None (uc_ID ch))) (ret ())) s4 = (Inr u4, s2)"
    and p: "p = (map change_of ?g, map change_of ?b)" by simp_all
  have "map (mark_all None (map change_of ?b)) (map (mark_all (Some ts) (map change_of ?g)) (t_device (tabs s1)))
      = map (missing_after sc seen ts) (t_device (tabs s1))"
    unfolding map_map comp_def rows_def
    by (rule map_cong [OF refl]) (rule mark_all_twice [OF assms(1)])
  moreover have "tabs s2 = (tabs s4)\<lparr>t_device := map (mark_all None (map change_of ?b)) (t_device (tabs s4))\<rparr>"
    by (rule set_missing_loop [OF l2])
  moreover have "tabs s4 = (tabs s1)\<lparr>t_device := map (mark_all (Some ts) (map change_of ?g)) (t_device (tabs s1))\<rparr>"
    using set_missing_loop [OF l1] unfolding t3 .
  ultimately show ?thesis using p by (simp del: map_map filter_filter)
qed

text \<open>
  Reconciling with a complete upstream list is one atomic step that marks exactly the devices
  in scope the list lacks and clears exactly the marked ones it has again. It reports those
  two groups and nothing else, so a device already marked and still missing is not reported
  again; afterwards a device in scope is marked if and only if the list lacks it, and devices
  out of scope are untouched.
\<close>

theorem ReconcileUpstream_transitions:
  fixes s :: "'s db_scheme"
  assumes "distinct (dev_ids (tabs s))"
  shows "case ReconcileUpstream sc seen now s of
     (Inl e, s') \<Rightarrow> tabs s' = tabs s
   | (Inr (gone, back), s') \<Rightarrow>
       tabs s' = (tabs s)\<lparr>t_device := map (missing_after sc seen (rfc3339 now)) (t_device (tabs s))\<rparr> \<and>
       gone = map change_of (filter (\<lambda>d. in_scope sc d \<and> \<not> seen (dev_ID d) \<and> dev_UpstreamMissingSince d = None) (t_device (tabs s))) \<and>
       back = map change_of (filter (\<lambda>d. in_scope sc d \<and> seen (dev_ID d) \<and> dev_UpstreamMissingSince d \<noteq> None) (t_device (tabs s))) \<and>
       filter (\<lambda>d. in_scope sc d \<and> (dev_UpstreamMissingSince d = None) \<noteq> seen (dev_ID d)) (t_device (tabs s')) = []"
  unfolding ReconcileUpstream_def
proof (rule withTx_all_or_nothing, goal_cases)
  case (1 p s')
  obtain s1 s2 :: "'s db_scheme" where t: "tabs s1 = tabs s" "tabs s' = tabs s2"
    and run: "bindA (query (\<lambda>t. filter (in_scope sc) (t_device t))) (\<lambda>rows.
     case foldl (\<lambda>acc d. sort_change seen d acc) ([], []) rows of (gone, back) \<Rightarrow>
       thenA (forA gone (\<lambda>ch. thenA (exec (set_missing (Some (rfc3339 now)) (uc_ID ch))) (ret ())))
       (thenA (forA back (\<lambda>ch. thenA (exec (set_missing None (uc_ID ch))) (ret ())))
       (ret (gone, back)))) s1 = (Inr p, s2)"
    using 1 by (metis (no_types, lifting) withTx_InrE)
  note body = reconcile_body [OF _ run, unfolded t(1), OF assms [unfolded dev_ids_def]]
  have "in_scope sc (missing_after sc seen ts d) = in_scope sc d" for ts d
    by (cases sc) (simp_all add: missing_after_def)
  then have "filter (\<lambda>d. in_scope sc d \<and> (dev_UpstreamMissingSince d = None) \<noteq> seen (dev_ID d)) (t_device (tabs s')) = []"
    unfolding t(2) using body by (auto simp: filter_empty_conv missing_after_def)
  then show ?case using body t(2) by (simp add: conj_assoc)
qed

definition upstream_db :: db where
  "upstream_db = sample_db\<lparr>tabs := sample_tables\<lparr>t_device :=
     [(sample_device 1 ''web'' ''proxmox'' True)\<lparr>dev_ProxmoxVMID := Some 100\<rparr>,
      (sample_device 2 ''db'' ''proxmox'' True)\<lparr>dev_ProxmoxVMID := Some 101, dev_UpstreamMissingSince := Some 5\<rparr>,
      sample_device 3 ''tv'' ''scan'' False]\<rparr>\<rparr>"

lemma ReconcileUpstream_transitions_witness:
  "\<exists>s'. ReconcileUpstream ScopeProxmoxGuests (\<lambda>i. i = 2) 0 upstream_db =
      (Inr ([\<lparr>uc_ID = 1, uc_Name = ''web''\<rparr>], [\<lparr>uc_ID = 2, uc_Name = ''db''\<rparr>]), s') \<and>
    t_device (tabs s') = map (missing_after ScopeProxmoxGuests (\<lambda>i. i = 2) (rfc3339 0)) (t_device (tabs upstream_db))"
proof -
  have "fst (ReconcileUpstream ScopeProxmoxGuests (\<lambda>i. i = 2) 0 upstream_db) =
      Inr ([\<lparr>uc_ID = 1, uc_Name = ''web''\<rparr>], [\<lparr>uc_ID = 2, uc_Name = ''db''\<rparr>])" by code_simp
  then obtain s' where r: "ReconcileUpstream ScopeProxmoxGuests (\<lambda>i. i = 2) 0 upstream_db =
      (Inr ([\<lparr>uc_ID = 1, uc_Name = ''web''\<rparr>], [\<lparr>uc_ID = 2, uc_Name = ''db''\<rparr>]), s')" by (metis prod.collapse)
  have "distinct (dev_ids (tabs upstream_db))" by code_simp
  from ReconcileUpstream_transitions [OF this, of ScopeProxmoxGuests "\<lambda>i. i = 2" 0] r show ?thesis by simp
qed

section \<open>Exactly the addresses an integration reports\<close>

definition ip_key :: "ip_row \<Rightarrow> int \<times> string" where
  "ip_key a = (ip_SubnetID a, ip_IP a)"

definition iface_rows :: "int \<Rightarrow> tables \<Rightarrow> ip_row list" where
  "iface_rows ifc t = filter (\<lambda>a. ip_IfaceID a = ifc) (t_ip t)"

definition unwanted :: "int \<Rightarrow> string \<Rightarrow> (int \<times> string) list \<Rightarrow> ip_row \<Rightarrow> bool" where
  "unwanted ifc src want a \<longleftrightarrow> ip_IfaceID a = ifc \<and> ip_Source a = src \<and> ip_key a \<notin> set want"

lemma have_ips_distinct: "distinct (map ip_key rows) \<Longrightarrow> have_ips rows = map (\<lambda>a. (ip_key a, a)) rows"
  unfolding have_ips_def ip_key_def by (rule foldl_update_distinct)

text \<open>After the first loop the new rows are appended, one per address that was not there.\<close>

definition sync_added :: "int \<Rightarrow> string \<Rightarrow> tables \<Rightarrow> (int \<times> string) list \<Rightarrow> ip_row list \<Rightarrow> tables \<Rightarrow> bool" where
  "sync_added ifc src t0 ys new t \<longleftrightarrow>
     t = t0\<lparr>t_ip := t_ip t0 @ new\<rparr> \<and> distinct (map ip_ID (t_ip t)) \<and> distinct (map ip_key new) \<and>
     ip_key ` set new = set ys - ip_key ` set (iface_rows ifc t0) \<and>
     list_all (\<lambda>a. ip_IfaceID a = ifc \<and> ip_Kind a = ''static'' \<and> ip_Source a = src) new"

lemma sync_insert:
  assumes "sync_added ifc src t0 ys new t" and "k \<notin> set ys" and "k \<notin> ip_key ` set (iface_rows ifc t0)"
    and "ins_ip ifc (fst k) (snd k) ''static'' src t = Inr (i, t')"
  shows "\<exists>a. sync_added ifc src t0 (ys @ [k]) (new @ [a]) t'"
proof -
  define a where "a = \<lparr>ip_ID = i, ip_IfaceID = ifc, ip_SubnetID = fst k, ip_IP = snd k, ip_Kind = ''static'', ip_Source = src\<rparr>"
  note ins = ins_ipD [OF assms(4)]
  have t: "t = t0\<lparr>t_ip := t_ip t0 @ new\<rparr>" "distinct (map ip_ID (t_ip t))" "distinct (map ip_key new)"
    "ip_key ` set new = set ys - ip_key ` set (iface_rows ifc t0)"
    "list_all (\<lambda>a. ip_IfaceID a = ifc \<and> ip_Kind a = ''static'' \<and> ip_Source a = src) new"
    using assms(1) unfolding sync_added_def by blast+
  have t': "t' = t\<lparr>t_ip := t_ip t @ [a]\<rparr>" and "i \<notin> ip_ID ` set (t_ip t)" using ins unfolding a_def by blast+
  then have "distinct (map ip_ID (t_ip t'))" using t(2) by (simp add: a_def)
  moreover have "t' = t0\<lparr>t_ip := t_ip t0 @ (new @ [a])\<rparr>" using t(1) t' by simp
  moreover have "ip_key a = k" by (simp add: a_def ip_key_def)
  moreover from this have "distinct (map ip_key (new @ [a]))" using t(3,4) assms(2) by auto
  moreover have "ip_key ` set (new @ [a]) = set (ys @ [k]) - ip_key ` set (iface_rows ifc t0)"
    using t(4) assms(3) \<open>ip_key a = k\<close> by (simp add: insert_Diff_if)
  moreover have "list_all (\<lambda>a. ip_IfaceID a = ifc \<and> ip_Kind a = ''static'' \<and> ip_Source a = src) (new @ [a])"
    using t(5) by (simp add: a_def)
  ultimately show ?thesis unfolding sync_added_def by blast
qed

lemma sync_add_loop:
  fixes s s' :: "'s db_scheme"
  assumes "foldA (\<lambda>k (wanted, added).
         if k \<in> set wanted then ret (wanted, added)
         else if k \<in> H then ret (k # wanted, added)
         else thenA (stmt (ins_ip ifc (fst k) (snd k) ''static'' src)) (ret (k # wanted, added + 1)))
       want ([], 0) s = (Inr (wanted, added), s')"
    and "H = ip_key ` set (iface_rows ifc (tabs s))" and "distinct (map ip_ID (t_ip (tabs s)))"
  shows "set wanted = set want \<and> (\<exists>new. added = length new \<and> sync_added ifc src (tabs s) want new (tabs s'))"
proof -
  define R where "R ys b s' \<longleftrightarrow> set (fst b) = set ys \<and>
      (\<exists>new. snd b = length new \<and> sync_added ifc src (tabs s) ys new (tabs s'))"
    for ys and b :: "(int \<times> string) list \<times> nat" and s' :: "'s db_scheme"
  have "R want (wanted, added) s'"
  proof (rule foldA_InrI [OF assms(1)])
    show "R [] ([], 0) s" using assms(3) by (simp add: R_def sync_added_def)
    fix ys k and b b' :: "(int \<times> string) list \<times> nat" and s1 s2 :: "'s db_scheme"
    assume R: "R ys b s1" and st: "(case b of (wanted, added) \<Rightarrow>
        if k \<in> set wanted then ret (wanted, added)
        else if k \<in> H then ret (k # wanted, added)
        else thenA (stmt (ins_ip ifc (fst k) (snd k) ''static'' src)) (ret (k # wanted, added + 1))) s1 = (Inr b', s2)"
    obtain w n where b: "b = (w, n)" by (cases b)
    from R b obtain new where new: "n = length new" "sync_added ifc src (tabs s) ys new (tabs s1)" "set w = set ys"
      by (auto simp: R_def)
    show "R (ys @ [k]) b' s2"
    proof (cases "k \<in> set ys \<or> k \<in> H")
      case True
      have "sync_added ifc src (tabs s) (ys @ [k]) new (tabs s1)"
      proof -
        have eq: "set (ys @ [k]) - ip_key ` set (iface_rows ifc (tabs s)) = set ys - ip_key ` set (iface_rows ifc (tabs s))"
          using True assms(2) by auto
        show ?thesis using new(2) unfolding sync_added_def eq .
      qed
      moreover have "s2 = s1" "snd b' = n" "set (fst b') = insert k (set ys)"
      proof -
        have "(b', s2) = (if k \<in> set w then (w, n) else (k # w, n), s1)"
          using st b True new(3) by (cases "k \<in> set w") simp_all
        then show "s2 = s1" "snd b' = n" "set (fst b') = insert k (set ys)"
          using new(3) by (simp_all add: insert_absorb split: if_splits)
      qed
      ultimately show ?thesis unfolding R_def using new(1) by auto
    next
      case False
      then obtain i where "stmt (ins_ip ifc (fst k) (snd k) ''static'' src) s1 = (Inr i, s2)" and b': "b' = (k # w, n + 1)"
        using st b new(3) by (auto elim!: thenA_InrE)
      then have "ins_ip ifc (fst k) (snd k) ''static'' src (tabs s1) = Inr (i, tabs s2)" by (auto dest!: stmt_InrD)
      from sync_insert [OF new(2) _ _ this] False assms(2) obtain a where
        "sync_added ifc src (tabs s) (ys @ [k]) (new @ [a]) (tabs s2)" by blast
      then show ?thesis using b' new by (auto simp: R_def intro!: exI [of _ "new @ [a]"])
    qed
  qed
  then show ?thesis by (simp add: R_def)
qed

text \<open>The second loop deletes the integration's unwanted rows by their ids.\<close>

lemma sync_remove_loop:
  fixes s s' :: "'s db_scheme" and old :: "((int \<times> string) \<times> ip_row) list"
  assumes "foldA (\<lambda>(k, r) removed.
         if ip_Source r \<noteq> src \<or> k \<in> W then ret removed
         else thenA (exec (del_ip (\<lambda>a. ip_ID a = ip_ID r))) (ret (removed + 1))) old 0 s = (Inr n, s')"
  shows "n = length (filter (\<lambda>(k, r). ip_Source r = src \<and> k \<notin> W) old) \<and>
    tabs s' = (tabs s)\<lparr>t_ip := filter (\<lambda>a. ip_ID a \<notin> ip_ID ` snd ` set (filter (\<lambda>(k, r). ip_Source r = src \<and> k \<notin> W) old)) (t_ip (tabs s))\<rparr>"
proof -
  define G where "G ys = filter (\<lambda>(k, r). ip_Source r = src \<and> k \<notin> W) ys" for ys :: "((int \<times> string) \<times> ip_row) list"
  define R where "R ys m s' \<longleftrightarrow> m = length (G ys) \<and>
      tabs s' = (tabs s)\<lparr>t_ip := filter (\<lambda>a. ip_ID a \<notin> ip_ID ` snd ` set (G ys)) (t_ip (tabs s))\<rparr>"
    for ys and m :: nat and s' :: "'s db_scheme"
  have "R old n s'"
  proof (rule foldA_InrI [OF assms])
    show "R [] 0 s" by (simp add: R_def G_def)
    fix ys and x :: "(int \<times> string) \<times> ip_row" and m m' and s1 s2 :: "'s db_scheme"
    assume R: "R ys m s1" and st: "(case x of (k, r) \<Rightarrow> \<lambda>removed. if ip_Source r \<noteq> src \<or> k \<in> W then ret removed
         else thenA (exec (del_ip (\<lambda>a. ip_ID a = ip_ID r))) (ret (removed + 1))) m s1 = (Inr m', s2)"
    obtain k r where x: "x = (k, r)" by (cases x)
    show "R (ys @ [x]) m' s2"
    proof (cases "ip_Source r \<noteq> src \<or> k \<in> W")
      case True
      then show ?thesis using R st x by (auto simp: R_def G_def)
    next
      case False
      then have "tabs s2 = snd (del_ip (\<lambda>a. ip_ID a = ip_ID r) (tabs s1))" and "m' = m + 1"
        using st x by (auto simp: exec_def elim!: thenA_InrE dest!: stmt_InrD)
      moreover have "G (ys @ [x]) = G ys @ [x]" using False x by (simp add: G_def)
      ultimately show ?thesis using R x by (simp add: R_def del_ip_def del_where_def conj_commute)
    qed
  qed
  then show ?thesis by (simp add: R_def G_def)
qed

text \<open>Deleting by id removes exactly the unwanted rows, as ids are unique.\<close>

lemma filter_unwanted_ids:
  assumes "distinct (map ip_ID (rows @ new))"
  shows "filter (\<lambda>a. ip_ID a \<notin> ip_ID ` set (filter P rows)) (rows @ new) = filter (\<lambda>a. \<not> P a) rows @ new"
proof -
  have "ip_ID a \<in> ip_ID ` set (filter P rows) \<longleftrightarrow> P a" if "a \<in> set rows" for a
  proof
    assume "ip_ID a \<in> ip_ID ` set (filter P rows)"
    then obtain b where "b \<in> set rows" "P b" "ip_ID b = ip_ID a" by auto
    then show "P a" using distinct_key_eq [OF assms, of b a] that by auto
  qed (use that in auto)
  moreover have "ip_ID a \<notin> ip_ID ` set (filter P rows)" if "a \<in> set new" for a
    using assms that by auto
  ultimately show ?thesis by (auto intro: filter_cong simp: filter_id_conv)
qed

lemma sync_body:
  fixes s1 s2 :: "'s db_scheme"
  assumes ids: "distinct (map ip_ID (t_ip (tabs s1)))" and keys: "distinct (map ip_key (iface_rows ifc (tabs s1)))"
    and run: "bindA (query (\<lambda>t. filter (\<lambda>a. ip_IfaceID a = ifc) (t_ip t))) (\<lambda>rows.
     let have = have_ips rows in
     bindA (foldA (\<lambda>k (wanted, added).
         if k \<in> set wanted then ret (wanted, added)
         else if map_of have k \<noteq> None then ret (k # wanted, added)
         else thenA (stmt (ins_ip ifc (fst k) (snd k) ''static'' src)) (ret (k # wanted, added + 1)))
       want ([], 0)) (\<lambda>(wanted, added).
     bindA (foldA (\<lambda>(k, r) removed.
         if ip_Source r \<noteq> src \<or> k \<in> set wanted then ret removed
         else thenA (exec (del_ip (\<lambda>a. ip_ID a = ip_ID r))) (ret (removed + 1)))
       have 0) (\<lambda>removed. ret (added, removed)))) s1 = (Inr (added, removed), s2)"
  shows "\<exists>new. tabs s2 = (tabs s1)\<lparr>t_ip := filter (\<lambda>a. \<not> unwanted ifc src want a) (t_ip (tabs s1)) @ new\<rparr> \<and>
       list_all (\<lambda>a. ip_IfaceID a = ifc \<and> ip_Kind a = ''static'' \<and> ip_Source a = src) new \<and>
       distinct (map ip_key new) \<and>
       ip_key ` set new = set want - ip_key ` set (iface_rows ifc (tabs s1)) \<and>
       added = length new \<and> removed = length (filter (unwanted ifc src want) (t_ip (tabs s1)))"
proof -
  let ?rows = "iface_rows ifc (tabs s1)"
  let ?have = "map (\<lambda>a. (ip_key a, a)) ?rows"
  have mo: "map_of ?have k \<noteq> None \<longleftrightarrow> k \<in> ip_key ` set ?rows" for k
    unfolding map_of_eq_None_iff by (simp add: image_image)
  from run obtain rs and s3 :: "'s db_scheme" where
    q: "query (\<lambda>t. filter (\<lambda>a. ip_IfaceID a = ifc) (t_ip t)) s1 = (Inr rs, s3)"
    and run: "(let have = have_ips rs in
     bindA (foldA (\<lambda>k (wanted, added).
         if k \<in> set wanted then ret (wanted, added)
         else if map_of have k \<noteq> None then ret (k # wanted, added)
         else thenA (stmt (ins_ip ifc (fst k) (snd k) ''static'' src)) (ret (k # wanted, added + 1)))
       want ([], 0)) (\<lambda>(wanted, added).
     bindA (foldA (\<lambda>(k, r) removed.
         if ip_Source r \<noteq> src \<or> k \<in> set wanted then ret removed
         else thenA (exec (del_ip (\<lambda>a. ip_ID a = ip_ID r))) (ret (removed + 1)))
       have 0) (\<lambda>removed. ret (added, removed)))) s3 = (Inr (added, removed), s2)"
    by (rule bindA_InrE)
  have t3: "tabs s3 = tabs s1" and rs: "rs = ?rows"
    using q by (auto simp: query_def iface_rows_def dest!: stmt_InrD)
  from run [unfolded Let_def rs have_ips_distinct [OF keys] mo] obtain wa and s4 :: "'s db_scheme" where
    l1: "foldA (\<lambda>k (wanted, added).
         if k \<in> set wanted then ret (wanted, added)
         else if k \<in> ip_key ` set ?rows then ret (k # wanted, added)
         else thenA (stmt (ins_ip ifc (fst k) (snd k) ''static'' src)) (ret (k # wanted, added + 1)))
       want ([], 0) s3 = (Inr wa, s4)"
    and run: "(case wa of (wanted, added) \<Rightarrow> bindA (foldA (\<lambda>(k, r) removed.
         if ip_Source r \<noteq> src \<or> k \<in> set wanted then ret removed
         else thenA (exec (del_ip (\<lambda>a. ip_ID a = ip_ID r))) (ret (removed + 1)))
       ?have 0) (\<lambda>removed. ret (added, removed))) s4 = (Inr (added, removed), s2)"
    by (rule bindA_InrE)
  obtain wanted where wa: "wa = (wanted, added)" using run by (cases wa) (auto elim!: bindA_InrE)
  have l2: "foldA (\<lambda>(k, r) removed.
         if ip_Source r \<noteq> src \<or> k \<in> set wanted then ret removed
         else thenA (exec (del_ip (\<lambda>a. ip_ID a = ip_ID r))) (ret (removed + 1))) ?have 0 s4 = (Inr removed, s2)"
    using run wa by (auto elim!: bindA_InrE)
  obtain new where W: "set wanted = set want" and n: "added = length new"
    and new: "sync_added ifc src (tabs s1) want new (tabs s4)"
    using sync_add_loop [OF l1 [unfolded wa]] ids unfolding t3 by auto
  let ?old = "filter (\<lambda>(k, r). ip_Source r = src \<and> k \<notin> set want) ?have"
  have old: "?old = map (\<lambda>a. (ip_key a, a)) (filter (unwanted ifc src want) (t_ip (tabs s1)))"
    by (simp add: filter_map comp_def iface_rows_def unwanted_def [abs_def] conj_commute conj_left_commute)
  have t4: "tabs s4 = (tabs s1)\<lparr>t_ip := t_ip (tabs s1) @ new\<rparr>"
    using new by (simp add: sync_added_def)
  then have "t_ip (tabs s4) = t_ip (tabs s1) @ new" by simp
  then have d: "distinct (map ip_ID (t_ip (tabs s1) @ new))"
    using new unfolding sync_added_def by metis
  have "tabs s2 = (tabs s1)\<lparr>t_ip := filter (\<lambda>a. ip_ID a \<notin> ip_ID ` set (filter (unwanted ifc src want) (t_ip (tabs s1)))) (t_ip (tabs s1) @ new)\<rparr>"
    and "removed = length (filter (unwanted ifc src want) (t_ip (tabs s1)))"
    using sync_remove_loop [OF l2] unfolding W old t4 by (simp_all add: image_image)
  then show ?thesis using new n unfolding filter_unwanted_ids [OF d] by (auto simp: sync_added_def)
qed

text \<open>
  Syncing an integration's addresses on an interface is exact and atomic. Its rows for
  addresses it no longer reports are removed, each address it reports that the interface does
  not have yet gets one static row labelled with it, and every other row, the user's, another
  integration's, another interface's, stays as it is. The two counts are those numbers.
\<close>

theorem SyncIntegrationIPs_exact:
  fixes s :: "'s db_scheme"
  assumes "distinct (map ip_ID (t_ip (tabs s)))" and "distinct (map ip_key (iface_rows ifc (tabs s)))"
  shows "case SyncIntegrationIPs ifc src want s of
     (Inl e, s') \<Rightarrow> tabs s' = tabs s
   | (Inr (added, removed), s') \<Rightarrow> (\<exists>new.
       tabs s' = (tabs s)\<lparr>t_ip := filter (\<lambda>a. \<not> unwanted ifc src want a) (t_ip (tabs s)) @ new\<rparr> \<and>
       list_all (\<lambda>a. ip_IfaceID a = ifc \<and> ip_Kind a = ''static'' \<and> ip_Source a = src) new \<and>
       distinct (map ip_key new) \<and>
       ip_key ` set new = set want - ip_key ` set (iface_rows ifc (tabs s)) \<and>
       added = length new \<and> removed = length (filter (unwanted ifc src want) (t_ip (tabs s))))"
  unfolding SyncIntegrationIPs_def
proof (rule withTx_all_or_nothing, goal_cases)
  case (1 p s')
  obtain added removed where p: "p = (added, removed)" by (cases p)
  from 1 [unfolded p] obtain s1 s2 :: "'s db_scheme" where t: "tabs s1 = tabs s" "tabs s' = tabs s2"
    and run: "bindA (query (\<lambda>t. filter (\<lambda>a. ip_IfaceID a = ifc) (t_ip t))) (\<lambda>rows.
     let have = have_ips rows in
     bindA (foldA (\<lambda>k (wanted, added).
         if k \<in> set wanted then ret (wanted, added)
         else if map_of have k \<noteq> None then ret (k # wanted, added)
         else thenA (stmt (ins_ip ifc (fst k) (snd k) ''static'' src)) (ret (k # wanted, added + 1)))
       want ([], 0)) (\<lambda>(wanted, added).
     bindA (foldA (\<lambda>(k, r) removed.
         if ip_Source r \<noteq> src \<or> k \<in> set wanted then ret removed
         else thenA (exec (del_ip (\<lambda>a. ip_ID a = ip_ID r))) (ret (removed + 1)))
       have 0) (\<lambda>removed. ret (added, removed)))) s1 = (Inr (added, removed), s2)"
    by (rule withTx_InrE) blast
  show ?case unfolding p prod.case t(2) t(1) [symmetric]
    by (rule sync_body [OF _ _ run]) (use assms t in simp_all)
qed

lemma SyncIntegrationIPs_exact_witness:
  "\<exists>new. t_ip (tabs (snd (SyncIntegrationIPs 2 ''wireguard'' [(1, ''10.0.0.7'')] sample_db))) =
     filter (\<lambda>a. \<not> unwanted 2 ''wireguard'' [(1, ''10.0.0.7'')] a) (t_ip sample_tables) @ new \<and>
     ip_key ` set new = {(1, ''10.0.0.7'')}"
proof -
  have r: "fst (SyncIntegrationIPs 2 ''wireguard'' [(1, ''10.0.0.7'')] sample_db) = Inr (1, 0)" by code_simp
  have "distinct (map ip_ID (t_ip (tabs sample_db)))" and "distinct (map ip_key (iface_rows 2 (tabs sample_db)))"
    by code_simp+
  from SyncIntegrationIPs_exact [OF this, of "''wireguard''" "[(1, ''10.0.0.7'')]"] r obtain new where
    "tabs (snd (SyncIntegrationIPs 2 ''wireguard'' [(1, ''10.0.0.7'')] sample_db)) = (tabs sample_db)
       \<lparr>t_ip := filter (\<lambda>a. \<not> unwanted 2 ''wireguard'' [(1, ''10.0.0.7'')] a) (t_ip (tabs sample_db)) @ new\<rparr>"
    "ip_key ` set new = {(1, ''10.0.0.7'')} - ip_key ` set (iface_rows 2 (tabs sample_db))"
    by (auto split: prod.splits)
  moreover have "ip_key ` set (iface_rows 2 (tabs sample_db)) = {(1, ''10.0.0.9'')}"
    by (simp add: iface_rows_def sample_defs ip_key_def)
  ultimately show ?thesis by (auto simp: sample_db_def)
qed

end
