(* ===== verification/Scan_Scheduler.thy ===== *)
theory Scan_Scheduler
  imports Scan_Engine Store_Upstream
begin

text \<open>
  internal/scan/scheduler.go: when a subnet is scanned. The scheduler's loop, the goroutines it
  launches and the callers of Trigger run at the same time; what each does between two looks at
  the shared state is one step of a transition relation.
\<close>

section \<open>The scheduler's state\<close>

definition maxParallelScans :: nat where "maxParallelScans = 4"

definition trigger_cap :: nat where "trigger_cap = 256"

text \<open>
  Where a scan's goroutine is: waiting for a slot, sweeping, done with the sweep but still holding
  the slot, without slot but still marked running, or gone.
\<close>

datatype job_pc = Waiting | Sweeping | Swept | Released | Gone

record job =
  jb_subnet :: subnet
  jb_manual :: bool
  jb_pc :: job_pc

text \<open>
  Where the loop of Start is: at its select, having taken an id off the queue, having cleared its
  mark, going through the subnets of a tick, or returned.
\<close>

datatype loop_pc = Select | Taken int | Lookup int | Ticking "subnet list" | Stopped

record sched =
  sd_lastRun :: "int \<rightharpoonup> time"
  sd_running :: "int set"
  sd_queued :: "int set"
  sd_done :: "int \<rightharpoonup> time \<times> bool"
  sd_sem :: nat
  sd_trigger :: "int list"
  sd_jobs :: "job list"
  sd_loop :: loop_pc
  sd_cancelled :: bool

definition NewScheduler :: sched where
  "NewScheduler = \<lparr>sd_lastRun = Map.empty, sd_running = {}, sd_queued = {}, sd_done = Map.empty, sd_sem = 0,
     sd_trigger = [], sd_jobs = [], sd_loop = Select, sd_cancelled = False\<rparr>"

section \<open>Its operations\<close>

definition Trigger :: "int \<Rightarrow> sched \<Rightarrow> bool \<times> sched" where
  "Trigger i s =
     (if i \<in> sd_queued s \<or> i \<in> sd_running s then (False, s)
      else if length (sd_trigger s) < trigger_cap
        then (True, s\<lparr>sd_trigger := sd_trigger s @ [i], sd_queued := insert i (sd_queued s)\<rparr>)
      else (False, s))"

record scan_status =
  ss_Queued :: bool
  ss_Running :: bool
  ss_LastDone :: "time option"
  ss_LastOK :: bool

definition Status :: "int \<Rightarrow> sched \<Rightarrow> scan_status" where
  "Status i s = \<lparr>ss_Queued = (i \<in> sd_queued s), ss_Running = (i \<in> sd_running s),
     ss_LastDone = map_option fst (sd_done s i),
     ss_LastOK = (case sd_done s i of None \<Rightarrow> False | Some (_, ok) \<Rightarrow> ok)\<rparr>"

definition shouldRunScan :: "subnet \<Rightarrow> bool \<Rightarrow> bool" where
  "shouldRunScan sn manual =
     (if sn_Kind sn = ''wireguard'' then False else if \<not> manual \<and> \<not> sn_ScanEnabled sn then False else True)"

text \<open>
  A subnet that never ran is due whatever its interval: the time since the zero time is the
  largest duration. Durations are 64-bit nanoseconds.
\<close>

definition scan_due :: "time \<Rightarrow> subnet \<Rightarrow> sched \<Rightarrow> bool" where
  "scan_due now sn s = (case sd_lastRun s (sn_ID sn) of None \<Rightarrow> True
     | Some t \<Rightarrow> sint (word_of_int (sn_ScanIntervalSec sn * second) :: 64 word) \<le> now - t)"

definition start_scan :: "time \<Rightarrow> subnet \<Rightarrow> bool \<Rightarrow> sched \<Rightarrow> sched" where
  "start_scan now sn manual s =
     (if \<not> shouldRunScan sn manual then s
      else if sn_ID sn \<in> sd_running s then s
      else s\<lparr>sd_running := insert (sn_ID sn) (sd_running s), sd_lastRun := (sd_lastRun s)(sn_ID sn \<mapsto> now),
             sd_jobs := sd_jobs s @ [\<lparr>jb_subnet = sn, jb_manual = manual, jb_pc = Waiting\<rparr>]\<rparr>)"

definition tick_one :: "time \<Rightarrow> subnet \<Rightarrow> sched \<Rightarrow> sched" where
  "tick_one now sn s =
     (if \<not> sn_ScanEnabled sn \<or> sn_Kind sn = ''wireguard'' then s
      else if scan_due now sn s then start_scan now sn False s else s)"

text \<open>
  What one goroutine does with the engine: the sweep, the integration status it leaves, and the
  dashboard's refresh; the answer is whether the sweep worked.
\<close>

definition run :: "crypter option \<Rightarrow> world \<Rightarrow> subnet \<Rightarrow> bool \<Rightarrow> ('s engine_scheme, bool option) act" where
  "run cr w sn manual =
     (if \<not> shouldRunScan sn manual then ret None
      else bindA (attempt (RunSubnet cr w sn)) (\<lambda>r.
        let ok = (case r of Inl _ \<Rightarrow> False | Inr _ \<Rightarrow> True);
            detail = (case r of Inl e \<Rightarrow> sn_CIDR sn @ '': '' @ error_text e | Inr _ \<Rightarrow> ''scanned '' @ sn_CIDR sn)
        in thenA (logged (SetIntegrationStatus \<lparr>is_Name = ''scan'', is_LastRun = rfc3339 (w_now w), is_OK = ok,
                     is_Detail = detail, is_ItemCount = 0\<rparr>))
           (thenA (publish ''dashboard'' ''refresh'')
           (ret (Some ok)))))"

section \<open>Steps\<close>

definition set_pc :: "nat \<Rightarrow> job_pc \<Rightarrow> sched \<Rightarrow> sched" where
  "set_pc i pc s = s\<lparr>sd_jobs := (sd_jobs s)[i := (sd_jobs s ! i)\<lparr>jb_pc := pc\<rparr>]\<rparr>"

definition job_id :: "job \<Rightarrow> int" where "job_id j = sn_ID (jb_subnet j)"

inductive job_step :: "sched \<Rightarrow> sched \<Rightarrow> bool" where
  acquire: "i < length (sd_jobs s) \<Longrightarrow> jb_pc (sd_jobs s ! i) = Waiting \<Longrightarrow> sd_sem s < maxParallelScans \<Longrightarrow>
    job_step s (set_pc i Sweeping (s\<lparr>sd_sem := sd_sem s + 1\<rparr>))"
| give_up: "i < length (sd_jobs s) \<Longrightarrow> jb_pc (sd_jobs s ! i) = Waiting \<Longrightarrow> sd_cancelled s \<Longrightarrow>
    job_step s (set_pc i Released s)"
| sweep_ends: "i < length (sd_jobs s) \<Longrightarrow> jb_pc (sd_jobs s ! i) = Sweeping \<Longrightarrow>
    job_step s (set_pc i Swept (s\<lparr>sd_done := (sd_done s)(job_id (sd_jobs s ! i) \<mapsto> (now, ok))\<rparr>))"
| release: "i < length (sd_jobs s) \<Longrightarrow> jb_pc (sd_jobs s ! i) = Swept \<Longrightarrow>
    job_step s (set_pc i Released (s\<lparr>sd_sem := sd_sem s - 1\<rparr>))"
| leave: "i < length (sd_jobs s) \<Longrightarrow> jb_pc (sd_jobs s ! i) = Released \<Longrightarrow>
    job_step s (set_pc i Gone (s\<lparr>sd_running := sd_running s - {job_id (sd_jobs s ! i)}\<rparr>))"

inductive sched_step :: "sched \<Rightarrow> sched \<Rightarrow> bool" where
  trigger: "sched_step s (snd (Trigger i s))"
| take_id: "sd_loop s = Select \<Longrightarrow> sd_trigger s = i # rest \<Longrightarrow>
    sched_step s (s\<lparr>sd_trigger := rest, sd_loop := Taken i\<rparr>)"
| unqueue: "sd_loop s = Taken i \<Longrightarrow> sched_step s (s\<lparr>sd_queued := sd_queued s - {i}, sd_loop := Lookup i\<rparr>)"
| found: "sd_loop s = Lookup i \<Longrightarrow> sn_ID sn = i \<Longrightarrow> sched_step s (start_scan now sn True (s\<lparr>sd_loop := Select\<rparr>))"
| not_found: "sd_loop s = Lookup i \<Longrightarrow> sched_step s (s\<lparr>sd_loop := Select\<rparr>)"
| tick: "sd_loop s = Select \<Longrightarrow> sched_step s (s\<lparr>sd_loop := Ticking sns\<rparr>)"
| tick_next: "sd_loop s = Ticking (sn # sns) \<Longrightarrow> sched_step s (tick_one now sn (s\<lparr>sd_loop := Ticking sns\<rparr>))"
| tick_end: "sd_loop s = Ticking [] \<Longrightarrow> sched_step s (s\<lparr>sd_loop := Select\<rparr>)"
| cancel: "sched_step s (s\<lparr>sd_cancelled := True\<rparr>)"
| stop: "sd_loop s = Select \<Longrightarrow> sd_cancelled s \<Longrightarrow> sched_step s (s\<lparr>sd_loop := Stopped\<rparr>)"
| job: "job_step s s' \<Longrightarrow> sched_step s s'"

section \<open>One step of one goroutine\<close>

text \<open>The goroutine that moves, between the others.\<close>

lemma set_pc_at: "sd_jobs s = ys @ j # zs \<Longrightarrow> set_pc (length ys) pc s = s\<lparr>sd_jobs := ys @ j\<lparr>jb_pc := pc\<rparr> # zs\<rparr>"
  by (simp add: set_pc_def)

lemma job_stepE:
  assumes "job_step s s'"
  obtains (acquire) ys j zs where "sd_jobs s = ys @ j # zs" "jb_pc j = Waiting" "sd_sem s < maxParallelScans"
      "s' = s\<lparr>sd_sem := sd_sem s + 1, sd_jobs := ys @ j\<lparr>jb_pc := Sweeping\<rparr> # zs\<rparr>"
    | (give_up) ys j zs where "sd_jobs s = ys @ j # zs" "jb_pc j = Waiting" "sd_cancelled s"
      "s' = s\<lparr>sd_jobs := ys @ j\<lparr>jb_pc := Released\<rparr> # zs\<rparr>"
    | (sweep_ends) ys j zs now ok where "sd_jobs s = ys @ j # zs" "jb_pc j = Sweeping"
      "s' = s\<lparr>sd_done := (sd_done s)(job_id j \<mapsto> (now, ok)), sd_jobs := ys @ j\<lparr>jb_pc := Swept\<rparr> # zs\<rparr>"
    | (release) ys j zs where "sd_jobs s = ys @ j # zs" "jb_pc j = Swept"
      "s' = s\<lparr>sd_sem := sd_sem s - 1, sd_jobs := ys @ j\<lparr>jb_pc := Released\<rparr> # zs\<rparr>"
    | (leave) ys j zs where "sd_jobs s = ys @ j # zs" "jb_pc j = Released"
      "s' = s\<lparr>sd_running := sd_running s - {job_id j}, sd_jobs := ys @ j\<lparr>jb_pc := Gone\<rparr> # zs\<rparr>"
proof -
  have split: "\<exists>ys j zs. sd_jobs s = ys @ j # zs \<and> length ys = i \<and> sd_jobs s ! i = j" if "i < length (sd_jobs s)" for i
    using id_take_nth_drop [OF that] that by (intro exI [of _ "take i (sd_jobs s)"]) auto
  show thesis using assms
  proof cases
    case (acquire i)
    with split obtain ys j zs where "sd_jobs s = ys @ j # zs" "length ys = i" "sd_jobs s ! i = j" by blast
    with acquire that(1) [of ys j zs] show thesis using set_pc_at [of "s\<lparr>sd_sem := sd_sem s + 1\<rparr>" ys j zs] by simp
  next
    case (give_up i)
    with split obtain ys j zs where "sd_jobs s = ys @ j # zs" "length ys = i" "sd_jobs s ! i = j" by blast
    with give_up that(2) [of ys j zs] show thesis using set_pc_at [of s ys j zs] by simp
  next
    case (sweep_ends i now ok)
    with split obtain ys j zs where "sd_jobs s = ys @ j # zs" "length ys = i" "sd_jobs s ! i = j" by blast
    with sweep_ends that(3) [of ys j zs now ok] show thesis
      using set_pc_at [of "s\<lparr>sd_done := (sd_done s)(job_id j \<mapsto> (now, ok))\<rparr>" ys j zs] by simp
  next
    case (release i)
    with split obtain ys j zs where "sd_jobs s = ys @ j # zs" "length ys = i" "sd_jobs s ! i = j" by blast
    with release that(4) [of ys j zs] show thesis using set_pc_at [of "s\<lparr>sd_sem := sd_sem s - 1\<rparr>" ys j zs] by simp
  next
    case (leave i)
    with split obtain ys j zs where "sd_jobs s = ys @ j # zs" "length ys = i" "sd_jobs s ! i = j" by blast
    with leave that(5) [of ys j zs] show thesis
      using set_pc_at [of "s\<lparr>sd_running := sd_running s - {job_id j}\<rparr>" ys j zs] by simp
  qed
qed

lemma job_id_pc [simp]: "job_id (j\<lparr>jb_pc := pc\<rparr>) = job_id j"
  by (simp add: job_id_def)

section \<open>What holds in every reachable state\<close>

definition holding :: "job \<Rightarrow> bool" where
  "holding j \<longleftrightarrow> jb_pc j = Sweeping \<or> jb_pc j = Swept"

definition active :: "job \<Rightarrow> bool" where
  "active j \<longleftrightarrow> jb_pc j \<noteq> Gone"

definition slots_ok :: "sched \<Rightarrow> bool" where
  "slots_ok s \<longleftrightarrow> length (filter holding (sd_jobs s)) = sd_sem s \<and> sd_sem s \<le> maxParallelScans"

definition jobs_ok :: "sched \<Rightarrow> bool" where
  "jobs_ok s \<longleftrightarrow> distinct (map job_id (filter active (sd_jobs s))) \<and>
     sd_running s = set (map job_id (filter active (sd_jobs s))) \<and>
     list_all (\<lambda>j. shouldRunScan (jb_subnet j) (jb_manual j)) (sd_jobs s)"

definition taken :: "loop_pc \<Rightarrow> int list" where
  "taken l = (case l of Taken i \<Rightarrow> [i] | _ \<Rightarrow> [])"

definition queue_ok :: "sched \<Rightarrow> bool" where
  "queue_ok s \<longleftrightarrow> distinct (taken (sd_loop s) @ sd_trigger s) \<and> length (sd_trigger s) \<le> trigger_cap \<and>
     sd_queued s = set (taken (sd_loop s) @ sd_trigger s)"

lemmas sched_inv_defs = slots_ok_def jobs_ok_def queue_ok_def holding_def active_def taken_def

lemma job_step_ok:
  assumes "job_step s s'"
  shows "slots_ok s \<Longrightarrow> slots_ok s'" and "jobs_ok s \<Longrightarrow> jobs_ok s'" and "queue_ok s \<Longrightarrow> queue_ok s'"
  using assms by (cases rule: job_stepE; auto simp: sched_inv_defs)+

lemma start_scan_ok:
  "slots_ok s \<Longrightarrow> slots_ok (start_scan now sn m s)" "queue_ok s \<Longrightarrow> queue_ok (start_scan now sn m s)"
  by (auto simp: start_scan_def sched_inv_defs)

lemma start_scan_jobs_ok: "jobs_ok s \<Longrightarrow> jobs_ok (start_scan now sn m s)"
  by (auto simp: start_scan_def jobs_ok_def active_def job_id_def simp del: set_filter)

lemma loop_ok:
  "slots_ok (s\<lparr>sd_loop := l\<rparr>) = slots_ok s" "jobs_ok (s\<lparr>sd_loop := l\<rparr>) = jobs_ok s"
  by (simp_all add: slots_ok_def jobs_ok_def)

definition sched_ok :: "sched \<Rightarrow> bool" where
  "sched_ok s \<longleftrightarrow> slots_ok s \<and> jobs_ok s \<and> queue_ok s"

lemma sched_step_ok:
  assumes "sched_step s s'" and "sched_ok s"
  shows "sched_ok s'"
  using assms
proof cases
  case (trigger i)
  then show ?thesis using assms(2)
    by (auto simp: sched_ok_def Trigger_def sched_inv_defs)
next
  case (take_id i rest)
  then show ?thesis using assms(2) by (auto simp: sched_ok_def sched_inv_defs)
next
  case (unqueue i)
  then show ?thesis using assms(2) by (auto simp: sched_ok_def sched_inv_defs)
next
  case (found i sn now)
  then have "sched_ok (s\<lparr>sd_loop := Select\<rparr>)" using assms(2) by (simp add: sched_ok_def loop_ok queue_ok_def taken_def)
  then show ?thesis unfolding found sched_ok_def using start_scan_ok start_scan_jobs_ok by blast
next
  case (tick_next sn sns now)
  then have "sched_ok (s\<lparr>sd_loop := Ticking sns\<rparr>)" using assms(2) by (simp add: sched_ok_def loop_ok queue_ok_def taken_def)
  then show ?thesis unfolding tick_next tick_one_def sched_ok_def using start_scan_ok start_scan_jobs_ok by auto
next
  case job
  then show ?thesis using assms(2) job_step_ok unfolding sched_ok_def by blast
qed (auto simp: sched_ok_def sched_inv_defs)

lemma reachable_ok: "sched_step\<^sup>*\<^sup>* NewScheduler s \<Longrightarrow> sched_ok s"
proof (induction rule: rtranclp_induct)
  case base
  show ?case by (simp add: sched_ok_def sched_inv_defs NewScheduler_def)
qed (rule sched_step_ok)

text \<open>
  C13: In every state the scheduler, its scans and its callers can reach together, at most four
  scans sweep at a time and the slots in use are theirs; no two scans of one subnet are in flight
  and the running marks are exactly theirs; the queue holds no subnet twice and at most 256, and
  the queued marks are exactly its subnets and the one the loop has just taken; and no scan is of a
  WireGuard subnet or, unless asked for by hand, of one with scanning off.
\<close>

theorem scheduler_invariants:
  assumes "sched_step\<^sup>*\<^sup>* NewScheduler s"
  shows "length (filter holding (sd_jobs s)) = sd_sem s \<and> sd_sem s \<le> 4 \<and>
    distinct (map job_id (filter active (sd_jobs s))) \<and>
    sd_running s = set (map job_id (filter active (sd_jobs s))) \<and>
    distinct (taken (sd_loop s) @ sd_trigger s) \<and> length (sd_trigger s) \<le> 256 \<and>
    sd_queued s = set (taken (sd_loop s) @ sd_trigger s) \<and>
    list_all (\<lambda>j. sn_Kind (jb_subnet j) \<noteq> ''wireguard'' \<and> (jb_manual j \<or> sn_ScanEnabled (jb_subnet j))) (sd_jobs s)"
proof -
  have ok: "sched_ok s" using assms by (rule reachable_ok)
  have g: "shouldRunScan = (\<lambda>sn m. sn_Kind sn \<noteq> ''wireguard'' \<and> (m \<or> sn_ScanEnabled sn))"
    by (auto simp: shouldRunScan_def fun_eq_iff)
  show ?thesis
    using ok unfolding sched_ok_def slots_ok_def jobs_ok_def queue_ok_def maxParallelScans_def trigger_cap_def g by blast
qed

text \<open>A scan of the sample's subnet, taken up at the first tick.\<close>

definition sample_subnet :: subnet where
  "sample_subnet = \<lparr>sn_ID = 1, sn_CIDR = ''10.0.0.0/24'', sn_Name = ''lan'', sn_VLANID = None, sn_Kind = ''lan'',
     sn_ScanEnabled = True, sn_ScanIntervalSec = 300, sn_DHCPStart = [], sn_DHCPEnd = [], sn_DHCPPoolSource = []\<rparr>"

definition sample_sched :: sched where
  "sample_sched = NewScheduler\<lparr>sd_loop := Ticking [], sd_running := {1}, sd_lastRun := [1 \<mapsto> 0], sd_sem := 1,
     sd_jobs := [\<lparr>jb_subnet = sample_subnet, jb_manual = False, jb_pc = Sweeping\<rparr>]\<rparr>"

lemma sample_sched_reachable: "sched_step\<^sup>*\<^sup>* NewScheduler sample_sched"
proof -
  let ?s1 = "NewScheduler\<lparr>sd_loop := Ticking [sample_subnet]\<rparr>"
  let ?s2 = "tick_one 0 sample_subnet (?s1\<lparr>sd_loop := Ticking []\<rparr>)"
  have 2: "?s2 = NewScheduler\<lparr>sd_loop := Ticking [], sd_running := {1}, sd_lastRun := [1 \<mapsto> 0],
     sd_jobs := [\<lparr>jb_subnet = sample_subnet, jb_manual = False, jb_pc = Waiting\<rparr>]\<rparr>"
    by (simp add: tick_one_def scan_due_def start_scan_def shouldRunScan_def NewScheduler_def sample_subnet_def)
  have "sched_step NewScheduler ?s1" by (rule tick) (simp add: NewScheduler_def)
  moreover have "sched_step ?s1 ?s2" by (rule tick_next) simp
  moreover have "sched_step ?s2 (set_pc 0 Sweeping (?s2\<lparr>sd_sem := sd_sem ?s2 + 1\<rparr>))"
    unfolding 2 by (intro job acquire) (simp_all add: NewScheduler_def maxParallelScans_def)
  moreover have "set_pc 0 Sweeping (?s2\<lparr>sd_sem := sd_sem ?s2 + 1\<rparr>) = sample_sched"
    unfolding 2 by (simp add: set_pc_def sample_sched_def NewScheduler_def)
  ultimately show ?thesis by (metis converse_rtranclp_into_rtranclp rtranclp.rtrancl_refl)
qed

theorem scheduler_invariants_witness:
  "sd_sem sample_sched = 1 \<and> distinct (map job_id (filter active (sd_jobs sample_sched)))"
  using scheduler_invariants [OF sample_sched_reachable] by (simp add: sample_sched_def)

section \<open>What the scheduler promises the sweeps\<close>

text \<open>
  The specification: a set of subnets being swept. A sweep of a subnet begins while it is not in
  the set and the set is not full, and ends.
\<close>

inductive sweep_spec :: "int set \<Rightarrow> int set \<Rightarrow> bool" where
  begins: "i \<notin> A \<Longrightarrow> card A < maxParallelScans \<Longrightarrow> sweep_spec A (insert i A)"
| ends: "i \<in> A \<Longrightarrow> sweep_spec A (A - {i})"

definition sweeping :: "sched \<Rightarrow> int set" where
  "sweeping s = set (map job_id (filter holding (sd_jobs s)))"

lemma distinct_holding:
  assumes "distinct (map job_id (filter active js))"
  shows "distinct (map job_id (filter holding js))"
proof -
  have "filter holding js = filter holding (filter active js)"
    by (auto simp: holding_def active_def intro!: filter_cong)
  then show ?thesis using distinct_map_filterI [OF assms] by metis
qed

lemma card_sweeping: "sched_ok s \<Longrightarrow> card (sweeping s) = sd_sem s"
  using distinct_holding [of "sd_jobs s"] distinct_card [of "map job_id (filter holding (sd_jobs s))"]
  by (simp add: sched_ok_def jobs_ok_def slots_ok_def sweeping_def del: set_map set_filter)

lemma sweeping_around:
  "sd_jobs s = ys @ j # zs \<Longrightarrow> sweeping s = (if holding j then {job_id j} else {}) \<union> job_id ` set (filter holding (ys @ zs))"
  by (auto simp: sweeping_def)

text \<open>No other goroutine of the same subnet holds a slot.\<close>

lemma no_other_sweep:
  assumes "sched_ok s" and "sd_jobs s = ys @ j # zs" and "active j"
  shows "job_id j \<notin> job_id ` set (filter holding (ys @ zs))"
proof -
  have "job_id j \<notin> job_id ` set (filter active (ys @ zs))"
    using assms by (auto simp: sched_ok_def jobs_ok_def)
  then show ?thesis by (auto simp: holding_def active_def)
qed

lemma job_step_refines:
  assumes "job_step s s'" and "sched_ok s"
  shows "sweep_spec\<^sup>=\<^sup>= (sweeping s) (sweeping s')"
  using assms(1)
proof (cases rule: job_stepE)
  case (acquire ys j zs)
  let ?j = "j\<lparr>jb_pc := Sweeping\<rparr>"
  have "job_id j \<notin> sweeping s" "sweeping s' = insert (job_id j) (sweeping s)"
    using no_other_sweep [OF assms(2) acquire(1)] sweeping_around [OF acquire(1)] sweeping_around [of s' ys ?j zs] acquire
    by (simp_all add: holding_def active_def)
  moreover have "card (sweeping s) < maxParallelScans" using card_sweeping [OF assms(2)] acquire by simp
  ultimately show ?thesis by (simp add: sweep_spec.begins)
next
  case (release ys j zs)
  let ?j = "j\<lparr>jb_pc := Released\<rparr>"
  have "job_id j \<in> sweeping s" "sweeping s' = sweeping s - {job_id j}"
    using no_other_sweep [OF assms(2) release(1)] sweeping_around [OF release(1)] sweeping_around [of s' ys ?j zs] release
    by (simp_all add: holding_def active_def)
  then show ?thesis by (simp add: sweep_spec.ends)
qed (auto simp: sweeping_def holding_def)

lemma other_steps_refine: "sched_step s s' \<Longrightarrow> \<not> job_step s s' \<Longrightarrow> sweeping s' = sweeping s"
  by (cases rule: sched_step.cases, assumption)
     (auto simp: Trigger_def tick_one_def start_scan_def sweeping_def holding_def)



section \<open>Wait returns\<close>

text \<open>How many steps a goroutine has left at most.\<close>

fun steps_left :: "job_pc \<Rightarrow> nat" where
  "steps_left Waiting = 4"
| "steps_left Sweeping = 3"
| "steps_left Swept = 2"
| "steps_left Released = 1"
| "steps_left Gone = 0"

definition work_left :: "sched \<Rightarrow> nat" where
  "work_left s = sum_list (map (\<lambda>j. steps_left (jb_pc j)) (sd_jobs s))"

lemma job_step_progress: "job_step s s' \<Longrightarrow> work_left s' < work_left s \<and> length (sd_jobs s') = length (sd_jobs s)"
  by (cases rule: job_stepE, assumption) (auto simp: work_left_def)

lemma job_steps_progress:
  "(job_step ^^ n) s s' \<Longrightarrow> work_left s' + n \<le> work_left s \<and> (sched_ok s \<longrightarrow> sched_ok s')"
proof (induction n arbitrary: s')
  case (Suc n)
  then obtain u where u: "(job_step ^^ n) s u" "job_step u s'" by auto
  show ?case using Suc.IH [OF u(1)] job_step_progress [OF u(2)] sched_step_ok [OF job [OF u(2)]] by simp
qed simp

lemma work_bound: "work_left s \<le> 4 * length (sd_jobs s)"
proof -
  have 4: "steps_left pc \<le> 4" for pc by (cases pc) simp_all
  have "sum_list (map (\<lambda>j. steps_left (jb_pc j)) js) \<le> 4 * length js" for js
  proof (induction js)
    case (Cons j js)
    then show ?case using 4 [of "jb_pc j"] by simp
  qed simp
  then show ?thesis unfolding work_left_def .
qed

lemma job_can_step:
  assumes "sched_ok s" and "j \<in> set (sd_jobs s)" and "active j"
  shows "\<exists>s'. job_step s s'"
proof -
  have others: "\<exists>s'. job_step s s'" if "x \<in> set (sd_jobs s)" "jb_pc x \<noteq> Waiting" "active x" for x
  proof -
    obtain i where "i < length (sd_jobs s)" "sd_jobs s ! i = x" using \<open>x \<in> set _\<close> by (auto simp: in_set_conv_nth)
    with that show ?thesis
      by (cases "jb_pc x") (auto simp: active_def intro: sweep_ends release leave)
  qed
  show ?thesis
  proof (cases "jb_pc j = Waiting")
    case True
    obtain i where i: "i < length (sd_jobs s)" "sd_jobs s ! i = j" using assms(2) by (auto simp: in_set_conv_nth)
    show ?thesis
    proof (cases "sd_sem s < maxParallelScans")
      case True
      then show ?thesis using acquire i \<open>jb_pc j = Waiting\<close> by blast
    next
      case False
      then have "filter holding (sd_jobs s) \<noteq> []" using assms(1)
        by (auto simp: sched_ok_def slots_ok_def maxParallelScans_def)
      then obtain x where "x \<in> set (sd_jobs s)" "holding x" by (auto simp: filter_empty_conv)
      then show ?thesis using others [of x] by (auto simp: holding_def active_def)
    qed
  qed (use others assms in blast)
qed

text \<open>
  C15: Wait returns: once nothing new is started, the scans in flight take at most four steps each,
  however they interleave, and as long as one is not gone some scan can take its next step.
\<close>

theorem Wait_returns:
  assumes "sched_step\<^sup>*\<^sup>* NewScheduler s" and "(job_step ^^ n) s s'"
  shows "n \<le> 4 * length (sd_jobs s) \<and>
    (list_all (\<lambda>j. jb_pc j = Gone) (sd_jobs s') \<or> (\<exists>s''. job_step s' s''))"
proof -
  have "sched_ok s'" using job_steps_progress [OF assms(2)] reachable_ok [OF assms(1)] by simp
  then have "list_all (\<lambda>j. jb_pc j = Gone) (sd_jobs s') \<or> (\<exists>s''. job_step s' s'')"
    using job_can_step by (auto simp: list_all_iff active_def)
  then show ?thesis using job_steps_progress [OF assms(2)] work_bound [of s] by simp
qed

theorem Wait_returns_witness:
  "\<exists>s' s''. sd_jobs s' = [\<lparr>jb_subnet = sample_subnet, jb_manual = False, jb_pc = Swept\<rparr>] \<and> job_step s' s''"
proof -
  let ?s = "sample_sched\<lparr>sd_done := [1 \<mapsto> (0, True)], sd_jobs := [\<lparr>jb_subnet = sample_subnet, jb_manual = False, jb_pc = Swept\<rparr>]\<rparr>"
  have "job_step sample_sched (set_pc 0 Swept (sample_sched\<lparr>sd_done := (sd_done sample_sched)
      (job_id (sd_jobs sample_sched ! 0) \<mapsto> (0, True))\<rparr>))"
    by (rule sweep_ends) (simp_all add: sample_sched_def)
  moreover have "set_pc 0 Swept (sample_sched\<lparr>sd_done := (sd_done sample_sched)
      (job_id (sd_jobs sample_sched ! 0) \<mapsto> (0, True))\<rparr>) = ?s"
    by (simp add: set_pc_def sample_sched_def job_id_def sample_subnet_def NewScheduler_def)
  ultimately have "(job_step ^^ 1) sample_sched ?s" by (metis relpowp_1)
  from Wait_returns [OF sample_sched_reachable this] obtain s'' where "job_step ?s s''" by auto
  then show ?thesis by (intro exI [of _ ?s] exI [of _ s'']) simp
qed

end
