(* ===== verification/Notify_Message.thy ===== *)
theory Notify_Message
  imports Store_Account
begin

text \<open>
  internal/notify/config.go, message.go and send.go: which events are worth a notification, the
  message a batch of them becomes, what goes to each channel, and how often delivery is tried.
  The HTTP exchange, JSON encoding and URL parsing are arguments.
\<close>

section \<open>Settings\<close>

record group =
  gr_Key :: string
  gr_Label :: string
  gr_Help :: string
  gr_Types :: "string list"

definition Groups :: "group list" where
  "Groups =
     [\<lparr>gr_Key = ''notify_device_new'', gr_Label = ''New devices'',
       gr_Help = ''A device netis has not seen before, from a scan or an integration.'', gr_Types = [''device_new'']\<rparr>,
      \<lparr>gr_Key = ''notify_offline'', gr_Label = ''Offline / online'',
       gr_Help = ''Only for devices marked \"alert when offline\" on their page.'', gr_Types = [''offline'', ''online'']\<rparr>,
      \<lparr>gr_Key = ''notify_ip_conflict'', gr_Label = ''IP conflicts'',
       gr_Help = ''Two interfaces claiming the same address.'', gr_Types = [''ip_conflict'']\<rparr>,
      \<lparr>gr_Key = ''notify_sync'', gr_Label = ''Scan and integration errors'',
       gr_Help = ''A subnet sweep failing, an integration starting to fail, and its recovery.'',
       gr_Types = [''scan_error'', ''sync_recovered'']\<rparr>,
      \<lparr>gr_Key = ''notify_upstream'', gr_Label = ''Missing upstream'',
       gr_Help = ''A Proxmox guest or WireGuard peer no longer listed by its integration, and its return.'',
       gr_Types = [''device_missing'', ''device_returned'']\<rparr>]"

definition groupOf :: "string \<rightharpoonup> string" where
  "groupOf = foldl (\<lambda>m g. foldl (\<lambda>m t. m(t \<mapsto> gr_Key g)) m (gr_Types g)) Map.empty Groups"

record config =
  co_BaseURL :: string
  co_WebhookURL :: string
  co_WebhookAuth :: string
  co_NtfyURL :: string
  co_NtfyToken :: string
  co_Off :: "string list"

text \<open>A setting that cannot be read ends LoadConfig with an error that names it.\<close>

definition get_setting :: "crypter option \<Rightarrow> string \<Rightarrow> ('s db_scheme, string) act" where
  "get_setting cr k = bindA (attempt (GetSetting cr k)) (\<lambda>r. case r of
     Inl e \<Rightarrow> fail (ErrMsg (''reading setting '' @ k)) | Inr v \<Rightarrow> ret v)"

definition LoadConfig :: "crypter option \<Rightarrow> ('s db_scheme, config) act" where
  "LoadConfig cr =
     bindA (get_setting cr ''notify_base_url'') (\<lambda>base.
     bindA (get_setting cr ''notify_webhook_url'') (\<lambda>hook.
     bindA (get_setting cr ''notify_webhook_auth'') (\<lambda>auth.
     bindA (get_setting cr ''notify_ntfy_url'') (\<lambda>ntfy.
     bindA (get_setting cr ''notify_ntfy_token'') (\<lambda>token.
     bindA (foldA (\<lambda>g off. bindA (get_setting cr (gr_Key g)) (\<lambda>v.
        ret (if v = ''0'' then off @ [gr_Key g] else off))) Groups []) (\<lambda>off.
     ret \<lparr>co_BaseURL = trim_right (\<lambda>c. c = CHR ''/'') base, co_WebhookURL = hook, co_WebhookAuth = auth,
          co_NtfyURL = ntfy, co_NtfyToken = token, co_Off = off\<rparr>))))))"

definition HasChannel :: "config \<Rightarrow> bool" where
  "HasChannel c \<longleftrightarrow> co_WebhookURL c \<noteq> [] \<or> co_NtfyURL c \<noteq> []"

definition Wants :: "config \<Rightarrow> string \<Rightarrow> bool" where
  "Wants c typ = (case groupOf typ of None \<Rightarrow> False | Some key \<Rightarrow> key \<notin> set (co_Off c))"

definition config_link :: "config \<Rightarrow> string \<Rightarrow> string" where
  "config_link c path = (if co_BaseURL c = [] then [] else co_BaseURL c @ path)"

text \<open>\<open>parse\<close> is url.Parse, with the scheme and host of what it accepts.\<close>

definition ValidURL :: "(string \<Rightarrow> (string \<times> string) option) \<Rightarrow> string \<Rightarrow> error option" where
  "ValidURL parse s =
     (if s = [] then None
      else (case parse s of
        None \<Rightarrow> Some (ErrMsg (quoted s @ '' is not an http(s) URL''))
      | Some (scheme, host) \<Rightarrow>
          if (scheme \<noteq> ''http'' \<and> scheme \<noteq> ''https'') \<or> host = []
          then Some (ErrMsg (quoted s @ '' is not an http(s) URL'')) else None))"

section \<open>Messages\<close>

record item =
  it_Type :: string
  it_DeviceID :: "int option"
  it_DeviceName :: string
  it_Details :: string
  it_Time :: time

record message =
  ms_Event :: string
  ms_Title :: string
  ms_Body :: string
  ms_Priority :: int
  ms_Tags :: "string list"
  ms_URL :: string
  ms_Time :: time
  ms_Items :: "item list"

definition maxLines :: nat where "maxLines = 20"

record type_info =
  ti_title :: string
  ti_tag :: string
  ti_priority :: int
  ti_noun :: string
  ti_nouns :: string

definition type_infos :: "(string \<times> type_info) list" where
  "type_infos =
     [(''device_new'', \<lparr>ti_title = ''New device'', ti_tag = ''new'', ti_priority = 3,
        ti_noun = ''new device'', ti_nouns = ''new devices''\<rparr>),
      (''offline'', \<lparr>ti_title = ''Device offline'', ti_tag = ''red_circle'', ti_priority = 4,
        ti_noun = ''went offline'', ti_nouns = ''went offline''\<rparr>),
      (''online'', \<lparr>ti_title = ''Device online'', ti_tag = ''green_circle'', ti_priority = 3,
        ti_noun = ''came online'', ti_nouns = ''came online''\<rparr>),
      (''ip_conflict'', \<lparr>ti_title = ''IP conflict'', ti_tag = ''warning'', ti_priority = 4,
        ti_noun = ''IP conflict'', ti_nouns = ''IP conflicts''\<rparr>),
      (''scan_error'', \<lparr>ti_title = ''Scan or sync failing'', ti_tag = ''rotating_light'', ti_priority = 4,
        ti_noun = ''error'', ti_nouns = ''errors''\<rparr>),
      (''sync_recovered'', \<lparr>ti_title = ''Integration recovered'', ti_tag = ''white_check_mark'', ti_priority = 2,
        ti_noun = ''recovery'', ti_nouns = ''recoveries''\<rparr>),
      (''device_missing'', \<lparr>ti_title = ''Device missing upstream'', ti_tag = ''ghost'', ti_priority = 3,
        ti_noun = ''missing upstream'', ti_nouns = ''missing upstream''\<rparr>),
      (''device_returned'', \<lparr>ti_title = ''Device back upstream'', ti_tag = ''leftwards_arrow_with_hook'', ti_priority = 2,
        ti_noun = ''back upstream'', ti_nouns = ''back upstream''\<rparr>)]"

definition type_info_of :: "string \<Rightarrow> type_info" where
  "type_info_of t = (case map_of type_infos t of
     None \<Rightarrow> \<lparr>ti_title = [], ti_tag = [], ti_priority = 0, ti_noun = [], ti_nouns = []\<rparr> | Some i \<Rightarrow> i)"

definition summaryOrder :: "string list" where
  "summaryOrder = [''device_new'', ''offline'', ''online'', ''ip_conflict'', ''scan_error'', ''sync_recovered'',
     ''device_missing'', ''device_returned'']"

definition type_count :: "item list \<Rightarrow> string \<Rightarrow> nat" where
  "type_count items typ = length (filter (\<lambda>it. it_Type it = typ) items)"

definition summary_part :: "item list \<Rightarrow> string \<Rightarrow> string" where
  "summary_part items typ = string_of_nat (type_count items typ) @ '' '' @
     (if type_count items typ = 1 then ti_noun (type_info_of typ) else ti_nouns (type_info_of typ))"

definition present_types :: "item list \<Rightarrow> string list" where
  "present_types items = filter (\<lambda>typ. type_count items typ \<noteq> 0) summaryOrder"

definition ellipsis :: string where "ellipsis = [CHR 0xE2, CHR 0x80, CHR 0xA6]"

text \<open>The lines under the summary: \<open>i\<close> is the index of the next item.\<close>

fun body_lines :: "nat \<Rightarrow> nat \<Rightarrow> item list \<Rightarrow> string" where
  "body_lines n i [] = []"
| "body_lines n i (it # items) =
     (if i = maxLines then CHR 0x0A # ellipsis @ '' and '' @ string_of_nat (n - maxLines) @ '' more''
      else CHR 0x0A # ''- '' @ it_Details it @ body_lines n (i + 1) items)"

definition single_message :: "config \<Rightarrow> item \<Rightarrow> message" where
  "single_message c it = (let ti = type_info_of (it_Type it) in
     \<lparr>ms_Event = it_Type it, ms_Title = ''netis: '' @ ti_title ti, ms_Body = it_Details it, ms_Priority = ti_priority ti,
      ms_Tags = [ti_tag ti],
      ms_URL = (case it_DeviceID it of Some d \<Rightarrow> config_link c (''/devices/'' @ string_of_int d)
                | None \<Rightarrow> config_link c ''/events''),
      ms_Time = it_Time it, ms_Items = [it]\<rparr>)"

definition buildMessage :: "config \<Rightarrow> item list \<Rightarrow> message" where
  "buildMessage c items = (case items of [it] \<Rightarrow> single_message c it
     | _ \<Rightarrow> \<lparr>ms_Event = ''batch'', ms_Title = ''netis: '' @ string_of_nat (length items) @ '' events'',
         ms_Body = join '', '' (map (summary_part items) (present_types items)) @ body_lines (length items) 0 items,
         ms_Priority = foldl max 1 (map (\<lambda>typ. ti_priority (type_info_of typ)) (present_types items)),
         ms_Tags = map (\<lambda>typ. ti_tag (type_info_of typ)) (present_types items),
         ms_URL = config_link c ''/events'', ms_Time = it_Time (last items), ms_Items = items\<rparr>)"

definition summaryLine :: "message \<Rightarrow> string" where
  "summaryLine m = fst (cut (CHR 0x0A) (ms_Body m))"

definition testMessage :: "time \<Rightarrow> config \<Rightarrow> message" where
  "testMessage now c = \<lparr>ms_Event = ''test'', ms_Title = ''netis: test notification'',
     ms_Body = ''Notifications from netis are working.'', ms_Priority = 3, ms_Tags = [''white_check_mark''],
     ms_URL = config_link c ''/'', ms_Time = now, ms_Items = []\<rparr>"

section \<open>Sending\<close>

record http_request =
  rq_URL :: string
  rq_Headers :: "(string \<times> string) list"
  rq_Body :: string

text \<open>A permanent error is one that a retry will not change.\<close>

datatype send_error = Permanent string | Transient string

definition statusError :: "nat \<Rightarrow> string" where
  "statusError code =
     (if code = 401 \<or> code = 403 then ''the server refused the credentials; check the token or header''
      else if code = 404 then ''the server has nothing at that URL; check the address or topic''
      else if code = 429 then ''the server is rate limiting; try again in a minute''
      else if 500 \<le> code then ''the server had an error; try again later''
      else ''the server turned the message down (status '' @ string_of_nat code @ '')'')"

text \<open>What came of one exchange: no response, or a status.\<close>

definition post :: "string + nat \<Rightarrow> send_error option" where
  "post resp = (case resp of
     Inl e \<Rightarrow> Some (Transient e)
   | Inr code \<Rightarrow>
       if 200 \<le> code \<and> code < 300 then None
       else if 400 \<le> code \<and> code < 500 \<and> code \<noteq> 429 then Some (Permanent (statusError code))
       else Some (Transient (statusError code)))"

text \<open>
  The list holds the waits before the retries to come; \<open>go i\<close> is what the i-th attempt comes
  to, \<open>cancelled i\<close> whether the context is cancelled in the wait after it. The second result is
  the number of attempts made.
\<close>

fun retry :: "(nat \<Rightarrow> send_error option) \<Rightarrow> (nat \<Rightarrow> bool) \<Rightarrow> int list \<Rightarrow> nat \<Rightarrow> send_error option \<times> nat" where
  "retry go cancelled backoff i =
     (case go i of
        None \<Rightarrow> (None, i + 1)
      | Some (Permanent e) \<Rightarrow> (Some (Permanent e), i + 1)
      | Some (Transient e) \<Rightarrow> (case backoff of
            [] \<Rightarrow> (Some (Transient e), i + 1)
          | _ # backoff' \<Rightarrow> if cancelled i then (Some (Transient e), i + 1) else retry go cancelled backoff' (i + 1)))"

definition newSender :: "int list" where
  "newSender = [second, 2 * second]"

datatype payload = Payload (py_Event: string) (py_Device: "(int \<times> string) option") (py_Details: string)
  (py_Time: stamp) (py_URL: string) (py_Events: "payload list")

text \<open>
  The function calls itself on the message of each event of a batch; for an event whose type were
  "batch" it would not return, so the recursion has fuel.
\<close>

fun webhookPayload :: "nat \<Rightarrow> config \<Rightarrow> message \<Rightarrow> payload option" where
  "webhookPayload 0 c m = None"
| "webhookPayload (Suc n) c m =
     (if ms_Event m \<noteq> ''batch'' then
        Some (Payload (ms_Event m)
          (case ms_Items m of [it] \<Rightarrow> map_option (\<lambda>d. (d, it_DeviceName it)) (it_DeviceID it) | _ \<Rightarrow> None)
          (ms_Body m) (rfc3339 (ms_Time m)) (ms_URL m) [])
      else (case those (map (\<lambda>it. webhookPayload n c (buildMessage c [it])) (ms_Items m)) of
          None \<Rightarrow> None
        | Some evs \<Rightarrow> Some (Payload ''batch'' None (summaryLine m) (rfc3339 (ms_Time m)) (ms_URL m) evs)))"

text \<open>
  The environment of a delivery: JSON encoding, whether a URL makes a request, and what each
  attempt at a request comes to.
\<close>

record http_env =
  he_json :: "payload \<Rightarrow> string"
  he_valid :: "string \<Rightarrow> bool"
  he_do :: "http_request \<Rightarrow> nat \<Rightarrow> string + nat"
  he_cancelled :: "nat \<Rightarrow> bool"

definition webhook_request :: "http_env \<Rightarrow> config \<Rightarrow> payload \<Rightarrow> http_request" where
  "webhook_request h c p = \<lparr>rq_URL = co_WebhookURL c,
     rq_Headers = [(''Content-Type'', ''application/json''), (''User-Agent'', ''netis'')] @
       (if co_WebhookAuth c \<noteq> [] then [(''Authorization'', co_WebhookAuth c)] else []),
     rq_Body = he_json h p\<rparr>"

definition webhook :: "http_env \<Rightarrow> config \<Rightarrow> payload \<Rightarrow> nat \<Rightarrow> send_error option" where
  "webhook h c p i = (if \<not> he_valid h (co_WebhookURL c) then Some (Permanent ''invalid URL'')
     else post (he_do h (webhook_request h c p) i))"

definition ntfy_request :: "config \<Rightarrow> message \<Rightarrow> http_request" where
  "ntfy_request c m = \<lparr>rq_URL = co_NtfyURL c,
     rq_Headers = [(''Content-Type'', ''text/plain; charset=utf-8''), (''User-Agent'', ''netis''),
         (''Title'', ms_Title m), (''Priority'', string_of_int (ms_Priority m))] @
       (if ms_Tags m \<noteq> [] then [(''Tags'', join '','' (ms_Tags m))] else []) @
       (if ms_URL m \<noteq> [] then [(''Click'', ms_URL m)] else []) @
       (if co_NtfyToken c \<noteq> [] then [(''Authorization'', ''Bearer '' @ co_NtfyToken c)] else []),
     rq_Body = ms_Body m\<rparr>"

definition ntfy :: "http_env \<Rightarrow> config \<Rightarrow> message \<Rightarrow> nat \<Rightarrow> send_error option" where
  "ntfy h c m i = (if \<not> he_valid h (co_NtfyURL c) then Some (Permanent ''invalid URL'')
     else post (he_do h (ntfy_request c m) i))"

text \<open>The errors of the channels, by name; \<open>p\<close> is the webhook's payload of the message.\<close>

definition deliver :: "http_env \<Rightarrow> int list \<Rightarrow> config \<Rightarrow> message \<Rightarrow> payload \<Rightarrow> (string \<times> send_error) list" where
  "deliver h backoff c m p =
     (if co_WebhookURL c \<noteq> []
      then (case fst (retry (webhook h c p) (he_cancelled h) backoff 0) of None \<Rightarrow> [] | Some e \<Rightarrow> [(''webhook'', e)])
      else []) @
     (if co_NtfyURL c \<noteq> []
      then (case fst (retry (ntfy h c m) (he_cancelled h) backoff 0) of None \<Rightarrow> [] | Some e \<Rightarrow> [(''ntfy'', e)])
      else [])"

section \<open>How often delivery is tried\<close>

lemma retry_result:
  "retry go cancelled backoff i = (r, n) \<Longrightarrow>
     i < n \<and> n \<le> i + length backoff + 1 \<and> r = go (n - 1) \<and> list_all (\<lambda>k. \<exists>e. go k = Some (Transient e)) [i..<n - 1]"
proof (induction go cancelled backoff i rule: retry.induct)
  case (1 go cancelled backoff i)
  show ?case
  proof (cases "\<exists>e b bs. go i = Some (Transient e) \<and> backoff = b # bs \<and> \<not> cancelled i")
    case True
    then obtain e b bs where t: "go i = Some (Transient e)" "backoff = b # bs" "\<not> cancelled i" by blast
    then have "retry go cancelled bs (i + 1) = (r, n)" using "1.prems" by simp
    from "1.IH" [OF t(1) refl t(2) t(3) this]
    have IH: "i + 1 < n" "n \<le> i + 1 + length bs + 1" "r = go (n - 1)"
      "list_all (\<lambda>k. \<exists>e. go k = Some (Transient e)) [i + 1..<n - 1]" by blast+
    moreover have "[i..<n - 1] = i # [i + 1..<n - 1]" using IH(1) by (simp add: upt_conv_Cons)
    ultimately show ?thesis using t by simp
  next
    case False
    then have "n = i + 1 \<and> r = go i" using "1.prems"
      by (auto split: option.splits send_error.splits list.splits if_splits)
    then show ?thesis by auto
  qed
qed

text \<open>
  Delivery to a channel is tried at least once and at most three times; every attempt but the
  last failed in a way a retry may change, and what is reported is the outcome of the last one.
\<close>

theorem retry_bounded:
  "case retry go cancelled newSender 0 of (r, n) \<Rightarrow>
     1 \<le> n \<and> n \<le> 3 \<and> r = go (n - 1) \<and> list_all (\<lambda>k. \<exists>e. go k = Some (Transient e)) [0..<n - 1]"
  using retry_result [of go cancelled newSender 0] by (cases "retry go cancelled newSender 0") (auto simp: newSender_def)

section \<open>A batch's message speaks of every event\<close>

lemma Wants_types: "Wants c t \<Longrightarrow> t \<in> set summaryOrder"
  by (auto simp: Wants_def groupOf_def Groups_def summaryOrder_def split: option.splits if_splits)

lemma type_count_sum:
  "set (map it_Type items) \<subseteq> set ts \<Longrightarrow> distinct ts \<Longrightarrow> sum_list (map (type_count items) ts) = length items"
proof (induction items)
  case (Cons it items)
  have c: "type_count (it # items) t = type_count items t + (if t = it_Type it then 1 else 0)" for t
    by (auto simp: type_count_def)
  have "sum_list (map (\<lambda>t. if t = it_Type it then 1 else 0) ts) = (1 :: nat)"
    if "it_Type it \<in> set ts" "distinct ts" for ts
    using that by (induction ts) (auto simp: sum_list_eq_0_iff)
  then show ?case using Cons by (simp add: c sum_list_addf)
qed (simp add: type_count_def)

lemma counts_of_present:
  assumes "list_all (\<lambda>it. Wants c (it_Type it)) items"
  shows "sum_list (map (type_count items) (present_types items)) = length items"
proof -
  have "sum_list (map (type_count items) (present_types items)) = sum_list (map (type_count items) ts)"
    if "present_types items = filter (\<lambda>t. type_count items t \<noteq> 0) ts" for ts
    unfolding that by (induction ts) auto
  moreover have "set (map it_Type items) \<subseteq> set summaryOrder" using assms Wants_types by (auto simp: list_all_iff)
  moreover have "distinct summaryOrder" by (simp add: summaryOrder_def)
  ultimately show ?thesis using type_count_sum [of items summaryOrder] by (simp add: present_types_def)
qed

lemma join_chars: "set (join sep ws) \<subseteq> set sep \<union> (\<Union>w \<in> set ws. set w)"
  by (induction sep ws rule: join.induct) auto

lemma summary_one_line:
  "CHR 0x0A \<notin> set (join '', '' (map (summary_part items) (present_types items)))"
proof -
  have n: "list_all (\<lambda>t. CHR 0x0A \<notin> set (ti_noun (type_info_of t)) \<and> CHR 0x0A \<notin> set (ti_nouns (type_info_of t))) summaryOrder"
    by code_simp
  have d: "CHR 0x0A \<notin> set (string_of_nat k)" for k
    using string_of_nat_chars [of "CHR 0x0A" k] by (auto simp: is_digit_def)
  have "CHR 0x0A \<notin> set (summary_part items t)" if "t \<in> set (present_types items)" for t
    using that n d by (auto simp: summary_part_def present_types_def list_all_iff)
  then show ?thesis using join_chars [of "'', ''" "map (summary_part items) (present_types items)"] by auto
qed

lemma batch_summaryLine:
  assumes "2 \<le> length items"
  shows "summaryLine (buildMessage c items) = join '', '' (map (summary_part items) (present_types items))"
proof -
  obtain a b rest where i: "items = a # b # rest" using assms by (cases items; cases "tl items") auto
  let ?line = "join '', '' (map (summary_part items) (present_types items))"
  obtain more where "ms_Body (buildMessage c items) = ?line @ CHR 0x0A # more"
    by (auto simp: i buildMessage_def maxLines_def)
  moreover have "takeWhile (\<lambda>x. x \<noteq> CHR 0x0A) (?line @ CHR 0x0A # more) = ?line" for more
    using summary_one_line [of items] by (simp add: takeWhile_tail takeWhile_eq_all_conv) metis
  ultimately show ?thesis by (simp add: summaryLine_def cut_def)
qed

lemma single_payload:
  assumes "Wants c' (it_Type it)"
  shows "webhookPayload (Suc n) c (buildMessage c [it]) =
    Some (Payload (it_Type it) (map_option (\<lambda>d. (d, it_DeviceName it)) (it_DeviceID it)) (it_Details it)
      (rfc3339 (it_Time it)) (ms_URL (single_message c it)) [])"
proof -
  have "it_Type it \<noteq> ''batch''" using Wants_types [OF assms] by (auto simp: summaryOrder_def)
  then show ?thesis by (simp add: buildMessage_def single_message_def Let_def)
qed

lemma those_map_Some: "(\<And>x. x \<in> set xs \<Longrightarrow> f x = Some (g x)) \<Longrightarrow> those (map f xs) = Some (map g xs)"
  by (induction xs) simp_all

text \<open>
  The webhook's payload of a batch of notifiable events always exists, two levels of it being
  enough: its details are the summary, a single line whose counts add up to the number of events,
  and under it is one payload per event, in order, with the event's type, details, device and time.
\<close>

theorem batch_payload_complete:
  assumes "list_all (\<lambda>it. Wants c (it_Type it)) items" and "2 \<le> length items"
  shows "\<exists>url evs. webhookPayload 2 c (buildMessage c items) = Some (Payload ''batch'' None
      (join '', '' (map (summary_part items) (present_types items))) (rfc3339 (it_Time (last items))) url evs) \<and>
    sum_list (map (type_count items) (present_types items)) = length items \<and>
    map (\<lambda>p. (py_Event p, py_Details p, map_option fst (py_Device p), py_Time p)) evs =
      map (\<lambda>it. (it_Type it, it_Details it, it_DeviceID it, rfc3339 (it_Time it))) items"
proof -
  let ?pay = "\<lambda>it. Payload (it_Type it) (map_option (\<lambda>d. (d, it_DeviceName it)) (it_DeviceID it)) (it_Details it)
      (rfc3339 (it_Time it)) (ms_URL (single_message c it)) []"
  have evs: "those (map (\<lambda>it. webhookPayload (Suc 0) c (buildMessage c [it])) items) = Some (map ?pay items)"
    by (rule those_map_Some) (use single_payload assms(1) in \<open>auto simp: list_all_iff simp del: webhookPayload.simps\<close>)
  obtain a b rest where i: "items = a # b # rest" using assms(2) by (cases items; cases "tl items") auto
  have m: "ms_Event (buildMessage c items) = ''batch''" "ms_Items (buildMessage c items) = items"
    "ms_Time (buildMessage c items) = it_Time (last items)"
    by (simp_all add: i buildMessage_def)
  have "webhookPayload 2 c (buildMessage c items) = Some (Payload ''batch'' None
      (join '', '' (map (summary_part items) (present_types items))) (rfc3339 (it_Time (last items)))
      (ms_URL (buildMessage c items)) (map ?pay items))"
    unfolding numeral_2_eq_2 webhookPayload.simps(2) [of "Suc 0"] m evs batch_summaryLine [OF assms(2)] by simp
  moreover have "map (\<lambda>p. (py_Event p, py_Details p, map_option fst (py_Device p), py_Time p)) (map ?pay items) =
      map (\<lambda>it. (it_Type it, it_Details it, it_DeviceID it, rfc3339 (it_Time it))) items"
    by (simp add: option.map_comp comp_def option.map_ident)
  ultimately show ?thesis using counts_of_present [OF assms(1)] by blast
qed

definition sample_config :: config where
  "sample_config = \<lparr>co_BaseURL = [], co_WebhookURL = ''http://h'', co_WebhookAuth = [], co_NtfyURL = [],
     co_NtfyToken = [], co_Off = []\<rparr>"

definition sample_item :: "string \<Rightarrow> string \<Rightarrow> item" where
  "sample_item typ details = \<lparr>it_Type = typ, it_DeviceID = None, it_DeviceName = [], it_Details = details, it_Time = 0\<rparr>"

theorem batch_payload_complete_witness:
  "\<exists>url evs. webhookPayload 2 sample_config (buildMessage sample_config
       [sample_item ''ip_conflict'' ''a'', sample_item ''device_new'' ''b'', sample_item ''ip_conflict'' ''c'']) =
     Some (Payload ''batch'' None ''1 new device, 2 IP conflicts'' 0 url evs) \<and> length evs = 3"
proof -
  let ?items = "[sample_item ''ip_conflict'' ''a'', sample_item ''device_new'' ''b'', sample_item ''ip_conflict'' ''c'']"
  have w: "list_all (\<lambda>it. Wants sample_config (it_Type it)) ?items"
    by (simp add: Wants_def groupOf_def Groups_def sample_config_def sample_item_def)
  have l: "join '', '' (map (summary_part ?items) (present_types ?items)) = ''1 new device, 2 IP conflicts''"
    by code_simp
  have t: "rfc3339 (it_Time (last ?items)) = 0" by (simp add: sample_item_def rfc3339_def)
  from batch_payload_complete [OF w] obtain url evs where
    "webhookPayload 2 sample_config (buildMessage sample_config ?items) =
       Some (Payload ''batch'' None ''1 new device, 2 IP conflicts'' 0 url evs)"
    "map (\<lambda>p. (py_Event p, py_Details p, map_option fst (py_Device p), py_Time p)) evs =
       map (\<lambda>it. (it_Type it, it_Details it, it_DeviceID it, rfc3339 (it_Time it))) ?items"
    unfolding l t by auto
  moreover from this(2) have "length evs = 3" using map_eq_imp_length_eq by fastforce
  ultimately show ?thesis by blast
qed

end
