(* ===== verification/Notify_Service.thy ===== *)
theory Notify_Service
  imports Notify_Message Store_Subnet
begin

text \<open>
  internal/notify/notifier.go: the notifier's queue, its collector and its sender. Its three
  goroutines and the rest of the program, which may change the database at any time, take turns.
\<close>

section \<open>State\<close>

definition queueSize :: nat where "queueSize = 256"
definition outSize :: nat where "outSize = 4"
definition repeatQuiet :: int where "repeatQuiet = hour"

record raw =
  rw_typ :: string
  rw_deviceID :: "int option"
  rw_details :: string
  rw_at :: time

text \<open>The messages handed to the sender are kept in order with the settings they were sent under.\<close>

record notifier = db +
  nf_queue :: "raw list"
  nf_out :: "item list list"
  nf_pending :: "item list"
  nf_flush :: bool
  nf_lastError :: "(string \<times> time) list"
  nf_delivered :: "(config \<times> message) list"

definition New :: "tables \<Rightarrow> notifier" where
  "New t = \<lparr>tabs = t, faults = [], nf_queue = [], nf_out = [], nf_pending = [], nf_flush = False,
     nf_lastError = [], nf_delivered = []\<rparr>"

section \<open>Operations\<close>

definition Notify :: "raw \<Rightarrow> notifier \<Rightarrow> notifier" where
  "Notify r s = (if length (nf_queue s) < queueSize then s\<lparr>nf_queue := nf_queue s @ [r]\<rparr> else s)"

definition raw_item :: "raw \<Rightarrow> string \<Rightarrow> item" where
  "raw_item r name = \<lparr>it_Type = rw_typ r, it_DeviceID = rw_deviceID r, it_DeviceName = name,
     it_Details = rw_details r, it_Time = rw_at r\<rparr>"

text \<open>The memory of error texts, cleared of old ones when it has grown.\<close>

definition note_error :: "raw \<Rightarrow> (string \<times> time) list \<Rightarrow> (string \<times> time) list" where
  "note_error r mem =
     (let mem' = (if 100 < length mem then filter (\<lambda>(k, t). \<not> repeatQuiet \<le> rw_at r - t) mem else mem)
      in (rw_details r, rw_at r) # filter (\<lambda>(k, t). k \<noteq> rw_details r) mem')"

definition repeated_error :: "raw \<Rightarrow> (string \<times> time) list \<Rightarrow> bool" where
  "repeated_error r mem = (case map_of mem (rw_details r) of None \<Rightarrow> False
     | Some t \<Rightarrow> rw_at r - t < repeatQuiet)"

text \<open>A device that cannot be looked up has no name and no alert.\<close>

definition accept_item :: "raw \<Rightarrow> ('s notifier_scheme, item option) act" where
  "accept_item r = (case rw_deviceID r of
     None \<Rightarrow> ret (Some (raw_item r []))
   | Some d \<Rightarrow> bindA (attempt (DeviceAlert d)) (\<lambda>a.
       let (name, alert) = (case a of Inl _ \<Rightarrow> ([], False) | Inr v \<Rightarrow> v) in
       ret (if (rw_typ r = ''offline'' \<or> rw_typ r = ''online'') \<and> \<not> alert then None else Some (raw_item r name))))"

definition accept :: "crypter option \<Rightarrow> raw \<Rightarrow> ('s notifier_scheme, item option) act" where
  "accept cr r = bindA (attempt (LoadConfig cr)) (\<lambda>c. case c of
     Inl _ \<Rightarrow> ret None
   | Inr c \<Rightarrow>
       if \<not> HasChannel c \<or> \<not> Wants c (rw_typ r) then ret None
       else (\<lambda>s. if rw_typ r = ''scan_error''
         then (if repeated_error r (nf_lastError s) then (Inr None, s)
               else accept_item r (s\<lparr>nf_lastError := note_error r (nf_lastError s)\<rparr>))
         else accept_item r s))"

definition collect :: "crypter option \<Rightarrow> notifier \<Rightarrow> notifier" where
  "collect cr s = (case nf_queue s of
     [] \<Rightarrow> s
   | r # rest \<Rightarrow> (case accept cr r (s\<lparr>nf_queue := rest\<rparr>) of
       (Inr (Some it), s') \<Rightarrow> s'\<lparr>nf_pending := nf_pending s' @ [it], nf_flush := True\<rparr>
     | (_, s') \<Rightarrow> s'))"

definition flush :: "notifier \<Rightarrow> notifier" where
  "flush s = (if \<not> nf_flush s then s
     else s\<lparr>nf_flush := False, nf_pending := [],
            nf_out := (if length (nf_out s) < outSize then nf_out s @ [nf_pending s] else nf_out s)\<rparr>)"

definition sendLoop :: "crypter option \<Rightarrow> notifier \<Rightarrow> notifier" where
  "sendLoop cr s = (case nf_out s of
     [] \<Rightarrow> s
   | items # rest \<Rightarrow> (case LoadConfig cr (s\<lparr>nf_out := rest\<rparr>) of
       (Inl _, s') \<Rightarrow> s'
     | (Inr c, s') \<Rightarrow> s'\<lparr>nf_delivered := nf_delivered s' @ [(c, buildMessage c items)]\<rparr>))"

text \<open>A test message is tried once on every channel.\<close>

definition SendTest :: "http_env \<Rightarrow> crypter option \<Rightarrow> time \<Rightarrow> ('s db_scheme, (string \<times> send_error) list) act" where
  "SendTest h cr now = bindA (LoadConfig cr) (\<lambda>c.
     if \<not> HasChannel c then fail (ErrMsg ''no channel configured'')
     else (case webhookPayload 2 c (testMessage now c) of
         None \<Rightarrow> ret []
       | Some p \<Rightarrow> ret (deliver h [] c (testMessage now c) p)))"

section \<open>Runs\<close>

datatype nf_op = Arrive raw | World tables "bool list" | Collect | Flush | SendNext

fun nf_step :: "crypter option \<Rightarrow> nf_op \<Rightarrow> notifier \<Rightarrow> notifier" where
  "nf_step cr (Arrive r) s = Notify r s"
| "nf_step cr (World t fs) s = s\<lparr>tabs := t, faults := fs\<rparr>"
| "nf_step cr Collect s = collect cr s"
| "nf_step cr Flush s = flush s"
| "nf_step cr SendNext s = sendLoop cr s"

fun arrivals :: "nf_op list \<Rightarrow> raw list" where
  "arrivals [] = []"
| "arrivals (Arrive r # ops) = r # arrivals ops"
| "arrivals (_ # ops) = arrivals ops"

text \<open>The event an item was made of, and the items still kept, oldest first.\<close>

definition item_raw :: "item \<Rightarrow> raw" where
  "item_raw it = \<lparr>rw_typ = it_Type it, rw_deviceID = it_DeviceID it, rw_details = it_Details it, rw_at = it_Time it\<rparr>"

definition kept_items :: "notifier \<Rightarrow> item list" where
  "kept_items s = concat (map (\<lambda>d. ms_Items (snd d)) (nf_delivered s)) @ concat (nf_out s) @ nf_pending s"

lemma item_raw_item [simp]: "item_raw (raw_item r name) = r"
  by (simp add: item_raw_def raw_item_def)

lemma buildMessage_items [simp]: "ms_Items (buildMessage c items) = items"
  by (simp add: buildMessage_def single_message_def Let_def split: list.splits)

lemma arrivals_append: "arrivals (ops @ ops') = arrivals ops @ arrivals ops'"
  by (induction ops rule: arrivals.induct) simp_all

section \<open>What accepting an event changes\<close>

text \<open>Reading the settings changes nothing of the notifier's own.\<close>

definition own :: "notifier \<Rightarrow> raw list \<times> item list list \<times> item list \<times> bool \<times> (config \<times> message) list" where
  "own s = (nf_queue s, nf_out s, nf_pending s, nf_flush s, nf_delivered s)"

abbreviation keeps_own :: "raw list \<times> item list list \<times> item list \<times> bool \<times> (config \<times> message) list \<Rightarrow>
    (string \<times> time) list \<Rightarrow> (notifier, 'a) act \<Rightarrow> bool" where
  "keeps_own x l m \<equiv> keeps (\<lambda>s. own s = x \<and> nf_lastError s = l) m"

lemma stmt_own: "keeps_own x l (stmt f)"
  by (auto simp: keeps_def stmt_def own_def Let_def split: sum.splits)

lemma query_row_own: "keeps_own x l (query_row f)"
  unfolding query_row_def by (rule stmt_own)

lemma get_setting_own: "keeps_own x l (get_setting cr k)"
proof -
  have "keeps_own x l (find_row q)" for q :: "tables \<Rightarrow> string option"
    unfolding find_row_def by (intro pres_intros query_row_own) (auto intro: pres_intros split: error.splits)
  then have "keeps_own x l (rawSetting k)" unfolding rawSetting_def by (intro pres_intros)
  then show ?thesis unfolding get_setting_def GetSetting_def by (intro pres_intros)
qed

lemma LoadConfig_own: "keeps_own x l (LoadConfig cr)"
  unfolding LoadConfig_def by (intro pres_intros get_setting_own)

lemma accept_item_own: "keeps_own x l (accept_item r)"
  unfolding accept_item_def DeviceAlert_def by (intro pres_intros query_row_own)

lemma accept_item_result: "accept_item r s = (Inr (Some it), s') \<Longrightarrow> item_raw it = r"
  by (auto simp: accept_item_def attempt_def bindA_def Let_def split: option.splits prod.splits sum.splits if_splits)

text \<open>The outcome of one turn of the collector on the event at the front of the queue.\<close>

lemma accept_cases:
  fixes s :: notifier
  assumes "accept cr r s = (res, s')"
  shows "own s' = own s \<and>
    (res = Inr None \<or> (\<exists>it. res = Inr (Some it) \<and> item_raw it = r)) \<and>
    (nf_lastError s' = nf_lastError s \<and> (res = Inr None \<or> rw_typ r \<noteq> ''scan_error'') \<or>
     \<not> repeated_error r (nf_lastError s) \<and> nf_lastError s' = note_error r (nf_lastError s))"
proof -
  obtain lc s1 where lc: "LoadConfig cr s = (lc, s1)" by (cases "LoadConfig cr s")
  have s1: "own s1 = own s" "nf_lastError s1 = nf_lastError s"
    using keepsD [OF LoadConfig_own [of "own s" "nf_lastError s" cr], of s] lc by simp_all
  have item: "own u' = own u \<and> nf_lastError u' = nf_lastError u \<and>
      (x = Inr None \<or> (\<exists>it. x = Inr (Some it) \<and> item_raw it = r))" if "accept_item r u = (x, u')" for x u u'
  proof -
    have "own u' = own u \<and> nf_lastError u' = nf_lastError u"
      using keepsD [OF accept_item_own [of "own u" "nf_lastError u" r], of u] that by simp
    moreover have "\<exists>y. x = Inr y" using that
      by (auto simp: accept_item_def attempt_def bindA_def Let_def split: option.splits prod.splits)
    ultimately show ?thesis using accept_item_result that by (metis option.exhaust)
  qed
  show ?thesis
  proof (cases lc)
    case (Inl e)
    then show ?thesis using assms lc s1 by (auto simp: accept_def bindA_def attempt_def)
  next
    case (Inr c)
    show ?thesis
    proof (cases "\<not> HasChannel c \<or> \<not> Wants c (rw_typ r)")
      case True
      then show ?thesis using assms lc s1 Inr by (auto simp: accept_def bindA_def attempt_def)
    next
      case wanted: False
      consider (plain) "rw_typ r \<noteq> ''scan_error''" "accept_item r s1 = (res, s')"
        | (again) "res = Inr None" "s' = s1"
        | (fresh) "\<not> repeated_error r (nf_lastError s1)"
            "accept_item r (s1\<lparr>nf_lastError := note_error r (nf_lastError s1)\<rparr>) = (res, s')"
        using assms lc Inr wanted by (auto simp: accept_def bindA_def attempt_def split: if_splits)
      then show ?thesis
      proof cases
        case plain
        then show ?thesis using item [OF plain(2)] s1 by simp
      next
        case fresh
        then show ?thesis using item [OF fresh(2)] s1 by (simp add: own_def)
      qed (use s1 in simp)
    qed
  qed
qed

lemma LoadConfig_result: "LoadConfig cr s = (res, s') \<Longrightarrow> own s' = own s \<and> nf_lastError s' = nf_lastError s" for s :: notifier
  using keepsD [OF LoadConfig_own [of "own s" "nf_lastError s" cr], of s] by simp

section \<open>Nothing is sent twice, invented or reordered\<close>

definition orderly :: "raw list \<Rightarrow> notifier \<Rightarrow> bool" where
  "orderly past s \<longleftrightarrow> subseq (map item_raw (kept_items s) @ nf_queue s) past \<and>
     length (nf_queue s) \<le> queueSize \<and> length (nf_out s) \<le> outSize"

lemma subseq_drop_mid: "subseq (xs @ ys @ zs) past \<Longrightarrow> subseq (xs @ zs) past"
  by (meson list_emb_append_mono subseq_order.order_refl subseq_order.order_trans list_emb_append2)

lemma collect_orderly:
  assumes "orderly past s"
  shows "orderly past (collect cr s)"
proof (cases "nf_queue s")
  case (Cons r rest)
  obtain res s' where a: "accept cr r (s\<lparr>nf_queue := rest\<rparr>) = (res, s')" by (cases "accept cr r (s\<lparr>nf_queue := rest\<rparr>)")
  have o: "nf_queue s' = rest" "nf_out s' = nf_out s" "nf_pending s' = nf_pending s" "nf_delivered s' = nf_delivered s"
    using accept_cases [OF a] by (simp_all add: own_def)
  consider "res = Inr None" | it where "res = Inr (Some it)" "item_raw it = r" using accept_cases [OF a] by blast
  then show ?thesis
  proof cases
    case 1
    then show ?thesis using assms a o Cons subseq_drop_mid [of "map item_raw (kept_items s)" "[r]" rest past]
      by (simp add: collect_def orderly_def kept_items_def)
  next
    case 2
    then show ?thesis using assms a o Cons by (simp add: collect_def orderly_def kept_items_def)
  qed
qed (use assms in \<open>simp add: collect_def\<close>)

lemma flush_orderly: "orderly past s \<Longrightarrow> orderly past (flush s)"
  using subseq_drop_mid [of "map item_raw (concat (map (\<lambda>d. ms_Items (snd d)) (nf_delivered s)) @ concat (nf_out s))"
      "map item_raw (nf_pending s)" "nf_queue s" past]
  by (auto simp: flush_def orderly_def kept_items_def)

lemma sendLoop_orderly:
  assumes "orderly past s"
  shows "orderly past (sendLoop cr s)"
proof (cases "nf_out s")
  case (Cons items rest)
  obtain res s' where a: "LoadConfig cr (s\<lparr>nf_out := rest\<rparr>) = (res, s')" by (cases "LoadConfig cr (s\<lparr>nf_out := rest\<rparr>)")
  have o: "nf_queue s' = nf_queue s" "nf_out s' = rest" "nf_pending s' = nf_pending s" "nf_delivered s' = nf_delivered s"
    using LoadConfig_result [OF a] by (simp_all add: own_def)
  let ?sent = "map item_raw (concat (map (\<lambda>d. ms_Items (snd d)) (nf_delivered s)))"
  show ?thesis
  proof (cases res)
    case Inl
    then show ?thesis using assms a o Cons
        subseq_drop_mid [of ?sent "map item_raw items" "map item_raw (concat rest @ nf_pending s) @ nf_queue s" past]
      by (simp add: sendLoop_def orderly_def kept_items_def)
  qed (use assms a o Cons in \<open>simp add: sendLoop_def orderly_def kept_items_def\<close>)
qed (use assms in \<open>simp add: sendLoop_def\<close>)

lemma nf_step_orderly: "orderly past s \<Longrightarrow> orderly (past @ arrivals [op]) (nf_step cr op s)"
proof (cases op)
  case (Arrive r)
  assume "orderly past s"
  moreover from this have "subseq ((map item_raw (kept_items s) @ nf_queue s) @ [r]) (past @ [r])"
    unfolding orderly_def by (intro list_emb_append_mono) simp_all
  moreover have "subseq (map item_raw (kept_items s) @ nf_queue s) (past @ [r])"
    using \<open>orderly past s\<close> list_emb_append_mono [of "(=)" "map item_raw (kept_items s) @ nf_queue s" past "[]" "[r]"]
    by (simp add: orderly_def)
  ultimately show ?thesis using Arrive by (simp add: Notify_def orderly_def kept_items_def)
qed (simp_all add: collect_orderly flush_orderly sendLoop_orderly, simp add: orderly_def kept_items_def)

lemma run_orderly: "orderly past s \<Longrightarrow> orderly (past @ arrivals ops) (fold (nf_step cr) ops s)"
proof (induction ops arbitrary: past s)
  case (Cons op ops)
  have "orderly ((past @ arrivals [op]) @ arrivals ops) (fold (nf_step cr) ops (nf_step cr op s))"
    by (rule Cons.IH) (rule nf_step_orderly [OF Cons.prems])
  then show ?case using arrivals_append [of "[op]" ops] by simp
qed simp

text \<open>
  C16: Whatever the program emits and does to the database, and however the notifier's goroutines
  take turns, the events of the messages delivered, of the batches waiting and of the batch being
  collected are, in this order, a subsequence of the events that arrived: none is invented,
  reordered or sent twice; and no more than 256 events and 4 batches ever wait.
\<close>

theorem notifier_orderly:
  "let s = fold (nf_step cr) ops (New t) in
   subseq (map item_raw (kept_items s)) (arrivals ops) \<and> length (nf_queue s) \<le> 256 \<and> length (nf_out s) \<le> 4"
proof -
  let ?s = "fold (nf_step cr) ops (New t)"
  have "orderly ([] @ arrivals ops) ?s"
    by (rule run_orderly) (simp add: orderly_def New_def kept_items_def)
  moreover have "subseq (map item_raw (kept_items ?s)) (map item_raw (kept_items ?s) @ nf_queue ?s)"
    using list_emb_append_mono [of "(=)" "map item_raw (kept_items ?s)" "map item_raw (kept_items ?s)" "[]" "nf_queue ?s"]
    by simp
  ultimately show ?thesis
    unfolding orderly_def queueSize_def outSize_def Let_def append_Nil
    by (meson subseq_order.order_trans)
qed

section \<open>A failing scan is announced once an hour\<close>

definition same_error :: "item \<Rightarrow> item \<Rightarrow> bool" where
  "same_error a b \<longleftrightarrow> it_Type a = ''scan_error'' \<and> it_Type b = ''scan_error'' \<and> it_Details a = it_Details b"

definition spaced :: "item list \<Rightarrow> bool" where
  "spaced its \<longleftrightarrow> sorted_wrt (\<lambda>a b. same_error a b \<longrightarrow> it_Time a + repeatQuiet \<le> it_Time b) its"

text \<open>
  Every kept error is remembered with its time or a later one, or is so old that no event still to
  come is within the quiet time; \<open>now\<close> is a lower bound of the events still to come.
\<close>

definition remembered :: "time \<Rightarrow> (string \<times> time) list \<Rightarrow> item \<Rightarrow> bool" where
  "remembered now mem it \<longleftrightarrow> it_Type it = ''scan_error'' \<longrightarrow>
     (case map_of mem (it_Details it) of None \<Rightarrow> it_Time it + repeatQuiet \<le> now | Some t \<Rightarrow> it_Time it \<le> t \<and> t \<le> now)"

definition quiet_inv :: "raw list \<Rightarrow> notifier \<Rightarrow> bool" where
  "quiet_inv future s \<longleftrightarrow> spaced (kept_items s) \<and>
     distinct (map fst (nf_lastError s)) \<and>
     (\<exists>now. (\<forall>it \<in> set (kept_items s). remembered now (nf_lastError s) it) \<and>
            (\<forall>t \<in> snd ` set (nf_lastError s). t \<le> now) \<and> sorted (now # map rw_at (nf_queue s @ future)))"

lemma repeat_pos: "0 \<le> repeatQuiet"
  by (simp add: repeatQuiet_def time_units)

text \<open>Forgetting old entries of a memory with distinct keys.\<close>

lemma map_of_forget:
  assumes "distinct (map fst mem)"
  shows "map_of (filter keep mem) k = Option.bind (map_of mem k) (\<lambda>t. if keep (k, t) then Some t else None)"
  using assms
proof (induction mem)
  case (Cons e mem)
  then show ?case by (cases e, cases "keep e") (auto simp: map_of_eq_None_iff image_iff bind_eq_None_conv)
qed simp

lemma map_of_note_error:
  assumes "distinct (map fst mem)"
  shows "map_of (note_error r mem) k =
    (if k = rw_details r then Some (rw_at r)
     else if 100 < length mem then (case map_of mem k of None \<Rightarrow> None
        | Some t \<Rightarrow> if repeatQuiet \<le> rw_at r - t then None else Some t)
     else map_of mem k)"
  using assms
  by (auto simp: note_error_def Let_def map_of_forget distinct_map_filterI split: option.splits bind_splits)

lemma note_error_wf:
  "distinct (map fst mem) \<Longrightarrow> distinct (map fst (note_error r mem))"
  "t \<in> snd ` set (note_error r mem) \<Longrightarrow> t = rw_at r \<or> t \<in> snd ` set mem"
  by (auto simp: note_error_def Let_def distinct_map_filterI split: if_splits)

lemma remembered_later: "remembered now mem it \<Longrightarrow> now \<le> now' \<Longrightarrow> remembered now' mem it"
  by (auto simp: remembered_def split: option.splits)

lemma remembered_noted:
  assumes "remembered now mem it" and "distinct (map fst mem)" and "now \<le> rw_at r"
  shows "remembered (rw_at r) (note_error r mem) it"
  using assms(1,3) repeat_pos by (auto simp: remembered_def map_of_note_error [OF assms(2)] split: option.splits)

lemma remembered_self: "distinct (map fst mem) \<Longrightarrow> item_raw it = r \<Longrightarrow> remembered (rw_at r) (note_error r mem) it"
  by (auto simp: remembered_def map_of_note_error item_raw_def)

lemma spaced_new:
  assumes "remembered now mem a" and "now \<le> rw_at r" and "\<not> repeated_error r mem" and "item_raw it = r" and "same_error a it"
  shows "it_Time a + repeatQuiet \<le> it_Time it"
  using assms by (auto simp: remembered_def repeated_error_def same_error_def item_raw_def split: option.splits)

text \<open>Losing items, or events still to come, does no harm.\<close>

lemma quiet_inv_less:
  assumes "quiet_inv future s" and "kept_items s = xs @ ys @ zs" and "kept_items s' = xs @ zs"
    and "nf_lastError s' = nf_lastError s" and "nf_queue s' @ future' = us @ vs" and "nf_queue s @ future = us @ ws @ vs"
  shows "quiet_inv future' s'"
proof -
  have "spaced (kept_items s')" using assms(1-3) by (auto simp: quiet_inv_def spaced_def sorted_wrt_append)
  moreover obtain now where "\<forall>it \<in> set (kept_items s). remembered now (nf_lastError s) it"
    "\<forall>t \<in> snd ` set (nf_lastError s). t \<le> now" "sorted (now # map rw_at (nf_queue s @ future))"
    using assms(1) by (auto simp: quiet_inv_def)
  moreover from this(3) have "sorted (now # map rw_at (nf_queue s' @ future'))"
    unfolding assms(5,6) by (auto simp: sorted_append)
  ultimately show ?thesis using assms by (auto simp: quiet_inv_def)
qed

lemma collect_quiet:
  assumes "quiet_inv future s"
  shows "quiet_inv future (collect cr s)"
proof (cases "nf_queue s")
  case (Cons r rest)
  let ?mem = "nf_lastError s"
  obtain res s' where a: "accept cr r (s\<lparr>nf_queue := rest\<rparr>) = (res, s')" by (cases "accept cr r (s\<lparr>nf_queue := rest\<rparr>)")
  have o: "nf_queue s' = rest" "nf_out s' = nf_out s" "nf_pending s' = nf_pending s" "nf_delivered s' = nf_delivered s"
    using accept_cases [OF a] by (simp_all add: own_def)
  obtain now where inv: "\<And>it. it \<in> set (kept_items s) \<Longrightarrow> remembered now ?mem it" "\<forall>t \<in> snd ` set ?mem. t \<le> now"
    "now \<le> rw_at r" "sorted (rw_at r # map rw_at (rest @ future))" "spaced (kept_items s)" "distinct (map fst ?mem)"
    using assms Cons by (auto simp: quiet_inv_def)
  let ?t = "collect cr s"
  have res: "res = Inr None \<or> (\<exists>it. res = Inr (Some it) \<and> item_raw it = r)" using accept_cases [OF a] by blast
  consider (none) "res = Inr None" | (some) it where "res = Inr (Some it)" "item_raw it = r" using res by blast
  then have kept: "kept_items ?t = kept_items s @ (case res of Inr (Some it) \<Rightarrow> [it] | _ \<Rightarrow> [])"
    and t: "nf_queue ?t = rest" "nf_lastError ?t = nf_lastError s'"
    using a o Cons by (cases; simp add: collect_def kept_items_def)+
  have mem: "nf_lastError s' = ?mem \<and> (res = Inr None \<or> rw_typ r \<noteq> ''scan_error'') \<or>
      \<not> repeated_error r ?mem \<and> nf_lastError s' = note_error r ?mem"
    using accept_cases [OF a] by auto
  have rem: "remembered (rw_at r) (nf_lastError s') it" if "it \<in> set (kept_items s)" for it
    using mem inv(1) [OF that] remembered_later [OF _ inv(3)] remembered_noted [OF _ inv(6) inv(3)] by auto
  have le: "t \<le> rw_at r" if "t \<in> snd ` set ?mem \<or> t \<in> snd ` set (note_error r ?mem)" for t
    using that note_error_wf(2) [of t r ?mem] inv(2,3) by (metis order.trans order.refl)
  have wf: "distinct (map fst (nf_lastError s'))" "\<forall>t \<in> snd ` set (nf_lastError s'). t \<le> rw_at r"
    using mem note_error_wf(1) [OF inv(6)] inv(6) le by metis+
  have new: "remembered (rw_at r) (nf_lastError s') it \<and> (\<forall>a \<in> set (kept_items s). same_error a it \<longrightarrow> it_Time a + repeatQuiet \<le> it_Time it)"
    if "res = Inr (Some it)" "item_raw it = r" for it
  proof (cases "rw_typ r = ''scan_error''")
    case True
    then have "\<not> repeated_error r ?mem" "nf_lastError s' = note_error r ?mem" using mem that by auto
    then show ?thesis using remembered_self [OF inv(6) that(2)] spaced_new [OF inv(1) inv(3)] that(2) by simp
  next
    case False
    then show ?thesis using that by (auto simp: remembered_def same_error_def item_raw_def)
  qed
  have "spaced (kept_items ?t) \<and> (\<forall>it \<in> set (kept_items ?t). remembered (rw_at r) (nf_lastError s') it)"
    using kept new rem inv(5) res
    by (auto simp: spaced_def sorted_wrt_append)
  then show ?thesis using wf inv(4) t unfolding quiet_inv_def by (auto intro!: exI [of _ "rw_at r"])
qed (use assms in \<open>simp add: collect_def\<close>)

lemma nf_step_quiet: "quiet_inv (arrivals [op] @ future) s \<Longrightarrow> quiet_inv future (nf_step cr op s)"
proof (cases op)
  case (Arrive r)
  assume q: "quiet_inv (arrivals [op] @ future) s"
  show ?thesis
  proof (cases "length (nf_queue s) < queueSize")
    case True
    then show ?thesis using q Arrive by (simp add: Notify_def quiet_inv_def kept_items_def)
  next
    case False
    then show ?thesis using q Arrive
      by (rule_tac quiet_inv_less [where s = s and xs = "kept_items s" and ys = "[]" and zs = "[]" and us = "nf_queue s" and ws = "[r]"
            and vs = future]) (auto simp: Notify_def)
  qed
next
  case Flush
  assume q: "quiet_inv (arrivals [op] @ future) s"
  let ?front = "concat (map (\<lambda>d. ms_Items (snd d)) (nf_delivered s)) @ concat (nf_out s)"
  show ?thesis
  proof (cases "nf_flush s \<and> \<not> length (nf_out s) < outSize")
    case True
    then show ?thesis using q Flush
      by (rule_tac quiet_inv_less [where s = s and xs = ?front and ys = "nf_pending s" and zs = "[]" and us = "nf_queue s @ future"
            and ws = "[]" and vs = "[]"]) (auto simp: flush_def kept_items_def)
  next
    case False
    then show ?thesis using q Flush by (auto simp: flush_def quiet_inv_def kept_items_def)
  qed
next
  case SendNext
  assume q: "quiet_inv (arrivals [op] @ future) s"
  show ?thesis
  proof (cases "nf_out s")
    case Nil
    then show ?thesis using q SendNext by (simp add: sendLoop_def)
  next
    case (Cons items rest)
    obtain res s' where a: "LoadConfig cr (s\<lparr>nf_out := rest\<rparr>) = (res, s')" by (cases "LoadConfig cr (s\<lparr>nf_out := rest\<rparr>)")
    have o: "nf_queue s' = nf_queue s" "nf_out s' = rest" "nf_pending s' = nf_pending s" "nf_delivered s' = nf_delivered s"
      "nf_lastError s' = nf_lastError s"
      using LoadConfig_result [OF a] by (simp_all add: own_def)
    let ?sent = "concat (map (\<lambda>d. ms_Items (snd d)) (nf_delivered s))"
    show ?thesis
    proof (cases res)
      case Inl
      then show ?thesis using q SendNext a o Cons
        by (rule_tac quiet_inv_less [where s = s and xs = ?sent and ys = items and zs = "concat rest @ nf_pending s"
              and us = "nf_queue s @ future" and ws = "[]" and vs = "[]"]) (auto simp: sendLoop_def kept_items_def)
    qed (use q SendNext a o Cons in \<open>auto simp: sendLoop_def quiet_inv_def kept_items_def\<close>)
  qed
qed (simp_all add: collect_quiet, simp add: quiet_inv_def kept_items_def)

lemma run_quiet: "quiet_inv (arrivals ops @ future) s \<Longrightarrow> quiet_inv future (fold (nf_step cr) ops s)"
proof (induction ops arbitrary: s)
  case (Cons op ops)
  have "quiet_inv (arrivals ops @ future) (nf_step cr op s)"
    by (rule nf_step_quiet) (use Cons.prems arrivals_append [of "[op]" ops] in simp)
  then show ?case by (simp add: Cons.IH)
qed simp

text \<open>
  If the clock does not run backwards, two messages about the same failing scan or sync, among
  all that were delivered or still wait, are at least an hour apart, even though the memory of
  error texts is cleared of old entries when it has grown.
\<close>

theorem repeated_errors_are_spaced:
  assumes "sorted (map rw_at (arrivals ops))"
  shows "spaced (kept_items (fold (nf_step cr) ops (New t)))"
proof -
  have "quiet_inv (arrivals ops @ []) (New t)"
  proof (cases "arrivals ops")
    case (Cons r rs)
    then show ?thesis using assms
      by (auto simp: quiet_inv_def New_def kept_items_def spaced_def intro!: exI [of _ "rw_at r"])
  qed (simp add: quiet_inv_def New_def kept_items_def spaced_def)
  then have "quiet_inv [] (fold (nf_step cr) ops (New t))" by (rule run_quiet)
  then show ?thesis by (simp add: quiet_inv_def)
qed

definition sample_error :: "time \<Rightarrow> raw" where
  "sample_error t = \<lparr>rw_typ = ''scan_error'', rw_deviceID = None, rw_details = ''down'', rw_at = t\<rparr>"

definition sample_run :: "nf_op list" where
  "sample_run = concat (map (\<lambda>t. [Arrive (sample_error t), Collect, Flush]) [0, minute, 2 * hour])"

theorem repeated_errors_are_spaced_witness:
  "let s = fold (nf_step None) sample_run (New (no_tables\<lparr>t_setting := [(''notify_webhook_url'', ''http://h'')]\<rparr>))
   in spaced (kept_items s) \<and> map it_Time (kept_items s) = [0, 2 * hour]"
proof -
  let ?t = "no_tables\<lparr>t_setting := [(''notify_webhook_url'', ''http://h'')]\<rparr>"
  have "map it_Time (kept_items (fold (nf_step None) sample_run (New ?t))) = [0, 2 * hour]" by code_simp
  moreover have "sorted (map rw_at (arrivals sample_run))"
    by (simp add: sample_run_def sample_error_def time_units)
  ultimately show ?thesis using repeated_errors_are_spaced [of sample_run None ?t] by simp
qed

end
