(* ===== verification/Sync_WireGuard.thy ===== *)
theory Sync_WireGuard
  imports Event_Broker Store_Upstream
begin

text \<open>
  internal/wireguard/dump.go and sync.go: reading the peers of "wg show ... dump" and keeping their
  devices. What the command prints is an argument.
\<close>

section \<open>The dump\<close>

record peer =
  pe_PubKey :: string
  pe_Endpoint :: string
  pe_AllowedIPs :: "string list"
  pe_LastHandshake :: "time option"

text \<open>The lines bufio.Scanner yields, up to one longer than its buffer.\<close>

definition drop_cr :: "string \<Rightarrow> string" where
  "drop_cr l = (if l \<noteq> [] \<and> last l = CHR 0x0D then butlast l else l)"

definition max_token :: int where "max_token = 64 * 1024"

fun scan_lines :: "string list \<Rightarrow> string list \<times> bool" where
  "scan_lines [] = ([], False)"
| "scan_lines [l] = (if l = [] then ([], False) else if max_token \<le> int (length l) then ([], True) else ([drop_cr l], False))"
| "scan_lines (l # ls) = (if max_token \<le> int (length l) then ([], True)
     else (case scan_lines ls of (out, long) \<Rightarrow> (drop_cr l # out, long)))"

definition dump_peer :: "string \<Rightarrow> peer option" where
  "dump_peer line = (let f = split_on CHR 0x09 line in
     if length f < 5 then None
     else Some \<lparr>pe_PubKey = f ! 0, pe_Endpoint = (if f ! 2 \<noteq> ''(none)'' then f ! 2 else []),
       pe_AllowedIPs = (if f ! 3 \<noteq> ''(none)'' \<and> f ! 3 \<noteq> [] then split_on CHR '','' (f ! 3) else []),
       pe_LastHandshake = (case atoi (f ! 4) of None \<Rightarrow> None
          | Some secs \<Rightarrow> if 0 < secs then Some (secs * second) else None)\<rparr>)"

definition ParseDump :: "string \<Rightarrow> error + peer list" where
  "ParseDump b = (case scan_lines (split_on CHR 0x0A b) of (ls, long) \<Rightarrow>
     if long then Inl (ErrMsg ''bufio.Scanner: token too long'') else Inr (List.map_filter dump_peer (tl ls)))"

section \<open>Peers and devices\<close>

definition onlineWindow :: int where "onlineWindow = 3 * minute"

definition iface_char :: "char \<Rightarrow> bool" where
  "iface_char c \<longleftrightarrow> (CHR ''A'' \<le> c \<and> c \<le> CHR ''Z'') \<or> (CHR ''a'' \<le> c \<and> c \<le> CHR ''z'') \<or> is_digit c \<or> c \<in> set ''_.-''"

definition ValidIface :: "string \<Rightarrow> error option" where
  "ValidIface name = (if 1 \<le> length name \<and> length name \<le> 15 \<and> list_all iface_char name then None
     else Some (ErrMsg (''invalid wireguard interface name '' @ quoted name @
       '': use 1-15 letters, digits, '' @ [CHR 0x27] @ ''.'' @ [CHR 0x27] @ '', '' @ [CHR 0x27] @ ''_'' @ [CHR 0x27] @
       '' or '' @ [CHR 0x27] @ ''-'' @ [CHR 0x27])))"

text \<open>The text before the first slash.\<close>

definition before_slash :: "string \<Rightarrow> string" where
  "before_slash s = takeWhile (\<lambda>c. c \<noteq> CHR ''/'') s"

definition allowedIPs :: "peer \<Rightarrow> subnet list \<Rightarrow> (int \<times> string) list" where
  "allowedIPs p subnets = concat (map (\<lambda>c. case parse_addr (before_slash c) of
       None \<Rightarrow> []
     | Some a \<Rightarrow> List.map_filter (\<lambda>sn. if sn_Kind sn \<noteq> ''wireguard'' then None
         else (case parse_prefix (sn_CIDR sn) of None \<Rightarrow> None
           | Some q \<Rightarrow> if contains q a then Some (sn_ID sn, addr_string a) else None)) subnets) (pe_AllowedIPs p))"

definition peer_name :: "peer \<Rightarrow> string" where
  "peer_name p = (if pe_AllowedIPs p \<noteq> [] then before_slash (hd (pe_AllowedIPs p))
     else if 8 < length (pe_PubKey p) then take 8 (pe_PubKey p) else pe_PubKey p)"

definition peer_device :: "peer \<Rightarrow> device" where
  "peer_device p = \<lparr>dev_ID = 0, dev_Name = peer_name p, dev_Kind = ''wg-peer'', dev_Notes = [], dev_Vendor = [],
     dev_Source = ''wireguard'', dev_ParentDeviceID = None, dev_ProxmoxVMID = None, dev_WGPubKey = Some (pe_PubKey p),
     dev_Icon = [], dev_Reviewed = False, dev_Model = [], dev_Function = [], dev_UpstreamMissingSince = None\<rparr>"

text \<open>The error's last part is the text of the query's error, which is not modelled further.\<close>

definition no_iface :: "peer \<Rightarrow> string \<Rightarrow> error" where
  "no_iface p err = ErrMsg (''peer '' @ pe_PubKey p @ '' has no iface: '' @ err)"

text \<open>The device of a peer and its interface, both made when the peer is new.\<close>

definition peer_iface :: "peer \<Rightarrow> time \<Rightarrow> ('s svc_scheme, int \<times> int) act" where
  "peer_iface p now = bindA (FindDeviceByWGPubKey (pe_PubKey p)) (\<lambda>d. case d of
     None \<Rightarrow>
       bindA (CreateDevice (peer_device p)) (\<lambda>dev.
       bindA (AddIface dev None None) (\<lambda>ifc.
       thenA (Emit now ''device_new'' (Some dev) (''WireGuard peer '' @ peer_name p))
       (ret (dev, ifc))))
   | Some dev \<Rightarrow> bindA (attempt (ListIfaces dev)) (\<lambda>r. case r of
       Inr (f # _) \<Rightarrow> ret (dev, if_ID f)
     | Inr [] \<Rightarrow> fail (no_iface p ''<nil>'')
     | Inl e \<Rightarrow> fail (no_iface p ''the error of the query'')))"

definition name_or_blank :: "int \<Rightarrow> ('s db_scheme, string) act" where
  "name_or_blank dev = bindA (attempt (GetDevice dev)) (\<lambda>r. case r of Inl _ \<Rightarrow> ret [] | Inr d \<Rightarrow> ret (dev_Name d))"

definition connected :: "peer \<Rightarrow> time \<Rightarrow> bool" where
  "connected p now = (case pe_LastHandshake p of None \<Rightarrow> False | Some t \<Rightarrow> now - t < onlineWindow)"

definition peer_status :: "peer \<Rightarrow> int \<Rightarrow> int \<Rightarrow> time \<Rightarrow> ('s svc_scheme, unit) act" where
  "peer_status p dev ifc now =
     (if connected p now
      then bindA (attempt (MarkSeen ifc 0 now)) (\<lambda>r.
        if r = Inr True then bindA (name_or_blank dev) (\<lambda>name.
          Emit now ''online'' (Some dev) (''WireGuard peer '' @ name @ '' connected'')) else ret ())
      else bindA (attempt (MarkMissed ifc 1)) (\<lambda>r.
        if r = Inr True then bindA (name_or_blank dev) (\<lambda>name.
          Emit now ''offline'' (Some dev) (''WireGuard peer '' @ name @ '' disconnected'')) else ret ()))"

definition upsertPeer :: "peer \<Rightarrow> subnet list \<Rightarrow> time \<Rightarrow> ('s svc_scheme, int) act" where
  "upsertPeer p subnets now = bindA (peer_iface p now) (\<lambda>(dev, ifc).
     thenA (SyncIntegrationIPs ifc ''wireguard'' (allowedIPs p subnets))
     (thenA (peer_status p dev ifc now) (ret dev)))"

definition announce :: "time \<Rightarrow> string \<Rightarrow> string \<Rightarrow> string \<Rightarrow> upstream_change list \<Rightarrow> ('s svc_scheme, unit) act" where
  "announce now typ before after ds = forA ds (\<lambda>d. Emit now typ (Some (uc_ID d)) (before @ uc_Name d @ after))"

definition wg_reconcile :: "int list \<Rightarrow> time \<Rightarrow> ('s svc_scheme, unit) act" where
  "wg_reconcile seen now = bindA (attempt (ReconcileUpstream ScopeWireGuardPeers (\<lambda>i. i \<in> set seen) now)) (\<lambda>r. case r of
     Inl _ \<Rightarrow> ret ()
   | Inr (gone, back) \<Rightarrow>
       thenA (announce now ''device_missing'' ''WireGuard peer '' '' was removed from the server'' gone)
       (announce now ''device_returned'' ''WireGuard peer '' '' is back on the server'' back))"

definition wg_RunOnce :: "string \<Rightarrow> (string \<Rightarrow> error + string) \<Rightarrow> time \<Rightarrow> ('s svc_scheme, nat) act" where
  "wg_RunOnce ifn runner now = (case ValidIface ifn of
     Some e \<Rightarrow> fail e
   | None \<Rightarrow> (case runner (''wg show '' @ ifn @ '' dump'') of
       Inl e \<Rightarrow> fail e
     | Inr out \<Rightarrow> (case ParseDump out of
         Inl e \<Rightarrow> fail e
       | Inr peers \<Rightarrow>
           bindA ListSubnets (\<lambda>subnets.
           bindA (foldA (\<lambda>p seen. bindA (upsertPeer p subnets now) (\<lambda>dev. ret (dev # seen))) peers []) (\<lambda>seen.
           thenA (if peers \<noteq> [] then wg_reconcile seen now else ret ())
           (ret (length peers)))))))"

definition wg_Status :: "nat \<Rightarrow> nat \<times> string" where
  "wg_Status peers = (peers, string_of_nat peers @ '' peers'')"

section \<open>The shell only sees a plain command\<close>

definition shell_plain :: "char \<Rightarrow> bool" where
  "shell_plain c \<longleftrightarrow> iface_char c \<or> c = CHR '' ''"

text \<open>
  Whatever interface name is configured, the command handed to the remote shell consists of
  letters, digits, dots, underscores, dashes and spaces only: what the shell would do with any
  other command makes no difference to the run.
\<close>

theorem RunOnce_runs_plain_commands:
  "wg_RunOnce ifn (\<lambda>cmd. if list_all shell_plain cmd then runner cmd else other cmd) now s = wg_RunOnce ifn runner now s"
proof (cases "ValidIface ifn")
  case None
  then have "list_all shell_plain (''wg show '' @ ifn @ '' dump'')"
    by (auto simp: ValidIface_def shell_plain_def iface_char_def list_all_iff split: if_splits)
  then show ?thesis by (simp add: wg_RunOnce_def)
qed (simp add: wg_RunOnce_def)

section \<open>A failure in the middle stops the sync for good\<close>

lemma wg_key_device:
  "calm s \<Longrightarrow> FindDeviceByWGPubKey key s =
     (Inr (map_option dev_ID (List.find (\<lambda>d. dev_WGPubKey d = Some key) (t_device (tabs s)))), s)"
  by (simp add: FindDeviceByWGPubKey_def findDeviceID_def bindA_def attempt_def act_simps split: option.splits)

lemma upsertPeer_stuck:
  assumes "calm s" and "List.find (\<lambda>d. dev_WGPubKey d = Some (pe_PubKey p)) (t_device (tabs s)) = Some d"
    and "dev_ID d \<notin> if_DeviceID ` set (t_iface (tabs s))"
  shows "upsertPeer p subnets now s = (Inl (no_iface p ''<nil>''), s)"
proof -
  have "filter (\<lambda>f. if_DeviceID f = dev_ID d) (t_iface (tabs s)) = []"
    using assms(3) by (force simp: filter_empty_conv)
  then have "peer_iface p now s = (Inl (no_iface p ''<nil>''), s)"
    by (simp add: peer_iface_def bindA_def attempt_def wg_key_device [OF assms(1)] assms(1,2) ListIfaces_def query_calm)
  then show ?thesis by (simp add: upsertPeer_def bindA_def)
qed

definition sample_dump :: string where
  "sample_dump = ''wg0'' @ [CHR 0x0A] @ join [CHR 0x09] [''key1'', ''(none)'', ''(none)'', ''(none)'', ''0''] @ [CHR 0x0A]"

definition wg_db :: "bool list \<Rightarrow> svc" where
  "wg_db fs = \<lparr>tabs = no_tables, faults = fs, published = [], notified = []\<rparr>"

text \<open>
  Creating the device of a new peer and adding its interface are separate statements: when
  only the second fails, the device stays without an interface, and every later run fails on this
  peer although no statement of it does; it stops before the peers behind it and changes nothing.
\<close>

theorem failed_peer_blocks_sync:
  "let s1 = snd (wg_RunOnce ''wg0'' (\<lambda>_. Inr sample_dump) 0 (wg_db [False, False, False, True]));
       (r2, s2) = wg_RunOnce ''wg0'' (\<lambda>_. Inr sample_dump) 0 s1
   in calm s1 \<and> map dev_Name (t_device (tabs s1)) = [''key1''] \<and>
      r2 = Inl (ErrMsg ''peer key1 has no iface: <nil>'') \<and> s2 = s1"
  by code_simp

end
