(* ===== verification/Leases.thy ===== *)
theory Leases
  imports Scan_Inventory
begin

text \<open>
  internal/leases: what every DHCP integration does with the leases, reservations and pools it has
  read from its server. Devices are matched by MAC, and nothing a person set is overwritten.
\<close>

section \<open>Reading addresses\<close>

record entry =
  en_MAC :: string
  en_IP :: string
  en_Hostname :: string

fun SubnetFor_from :: "addr \<Rightarrow> subnet list \<Rightarrow> int option" where
  "SubnetFor_from a [] = None"
| "SubnetFor_from a (sn # sns) = (case parse_prefix (sn_CIDR sn) of
     None \<Rightarrow> SubnetFor_from a sns
   | Some p \<Rightarrow> if contains p a then Some (sn_ID sn) else SubnetFor_from a sns)"

definition SubnetFor :: "subnet list \<Rightarrow> string \<Rightarrow> int option" where
  "SubnetFor subnets ip = (case parse_addr ip of None \<Rightarrow> None | Some a \<Rightarrow> SubnetFor_from a subnets)"

definition lower_hex :: "char \<Rightarrow> bool" where
  "lower_hex c \<longleftrightarrow> is_digit c \<or> (CHR ''a'' \<le> c \<and> c \<le> CHR ''f'')"

text \<open>The pattern: six pairs of lower-case hex digits, separated by colons.\<close>

definition mac_re :: "string \<Rightarrow> bool" where
  "mac_re m \<longleftrightarrow> length m = 17 \<and>
     list_all (\<lambda>i. if i mod 3 = 2 then m ! i = CHR '':'' else lower_hex (m ! i)) [0..<17]"

definition NormMAC :: "string \<Rightarrow> string" where
  "NormMAC s = (let m = replace_char CHR ''-'' '':'' (to_lower (trim_space s)) in if mac_re m then m else [])"

definition NormIP :: "string \<Rightarrow> string" where
  "NormIP s = (case parse_addr (trim_space s) of None \<Rightarrow> [] | Some a \<Rightarrow> addr_string a)"

section \<open>Leases and reservations\<close>

definition assign :: "string \<Rightarrow> int \<Rightarrow> int \<Rightarrow> string \<Rightarrow> string \<Rightarrow> ('s db_scheme, unit) act" where
  "assign src ifc sn ip kind =
     thenA (UpsertIPAssignmentFrom ifc sn ip kind src)
     (if kind \<noteq> ''dhcp'' then ret () else ClaimDHCPLease ifc sn ip)"

definition found_device :: "string \<Rightarrow> string \<Rightarrow> device" where
  "found_device name src = \<lparr>dev_ID = 0, dev_Name = name, dev_Kind = ''other'', dev_Notes = [], dev_Vendor = [],
     dev_Source = src, dev_ParentDeviceID = None, dev_ProxmoxVMID = None, dev_WGPubKey = None, dev_Icon = [],
     dev_Reviewed = False, dev_Model = [], dev_Function = [], dev_UpstreamMissingSince = None\<rparr>"

definition fill_name :: "int \<Rightarrow> string \<Rightarrow> ('s db_scheme, unit) act" where
  "fill_name ifc name = (if name \<noteq> [] then SetIfaceHostnameIfEmpty ifc name else ret ())"

definition upsertByMAC :: "string \<Rightarrow> time \<Rightarrow> entry \<Rightarrow> int \<Rightarrow> string \<Rightarrow> ('s svc_scheme, bool) act" where
  "upsertByMAC src now e sn kind =
     bindA (FindIfaceByMAC (en_MAC e)) (\<lambda>f. case f of
       Some f \<Rightarrow>
         thenA (assign src (if_ID f) sn (en_IP e) kind)
         (thenA (fill_name (if_ID f) (en_Hostname e)) (ret False))
     | None \<Rightarrow>
         (let name = (if en_Hostname e = [] then src @ ''-'' @ en_MAC e else en_Hostname e) in
         bindA (CreateDevice (found_device name src)) (\<lambda>dev.
         bindA (AddIface dev (Some (en_MAC e)) (if en_Hostname e \<noteq> [] then Some (en_Hostname e) else None)) (\<lambda>ifc.
         thenA (assign src ifc sn (en_IP e) kind)
         (thenA (Emit now ''device_new'' (Some dev) (src @ '' device '' @ name @ '' at '' @ en_IP e))
         (ret True))))))"

definition count_created :: "bool \<Rightarrow> nat \<Rightarrow> nat" where
  "count_created c n = (if c then n + 1 else n)"

definition apply_static :: "string \<Rightarrow> time \<Rightarrow> subnet list \<Rightarrow> entry \<Rightarrow> nat \<times> (int \<times> string) list \<Rightarrow>
    ('s svc_scheme, nat \<times> (int \<times> string) list) act" where
  "apply_static src now subnets r acc = (case SubnetFor subnets (en_IP r) of
     None \<Rightarrow> ret acc
   | Some sn \<Rightarrow> bindA (upsertByMAC src now r sn ''static'') (\<lambda>c.
       ret (count_created c (fst acc), (sn, en_IP r) # snd acc)))"

definition apply_dynamic :: "string \<Rightarrow> time \<Rightarrow> subnet list \<Rightarrow> (int \<times> string) list \<Rightarrow> entry \<Rightarrow> nat \<Rightarrow> ('s svc_scheme, nat) act" where
  "apply_dynamic src now subnets claimed l n = (case SubnetFor subnets (en_IP l) of
     None \<Rightarrow> ret n
   | Some sn \<Rightarrow>
       if (sn, en_IP l) \<in> set claimed
       then (if en_Hostname l \<noteq> []
             then bindA (FindIfaceByMAC (en_MAC l)) (\<lambda>f. case f of
                    Some f \<Rightarrow> thenA (SetIfaceHostnameIfEmpty (if_ID f) (en_Hostname l)) (ret n)
                  | None \<Rightarrow> ret n)
             else ret n)
       else bindA (upsertByMAC src now l sn ''dhcp'') (\<lambda>c. ret (count_created c n)))"

definition Apply :: "string \<Rightarrow> time \<Rightarrow> subnet list \<Rightarrow> entry list \<Rightarrow> entry list \<Rightarrow> ('s svc_scheme, nat) act" where
  "Apply src now subnets static dynamic =
     bindA (foldA (apply_static src now subnets) static (0, [])) (\<lambda>(n, claimed).
     foldA (apply_dynamic src now subnets claimed) dynamic n)"

section \<open>Leases add, and take nothing from people\<close>

definition adds_only :: "string \<Rightarrow> tables \<Rightarrow> tables \<Rightarrow> bool" where
  "adds_only src t t' \<longleftrightarrow>
     (\<exists>ds. t_device t' = t_device t @ ds \<and> list_all (\<lambda>d. dev_Source d = src) ds) \<and>
     (\<exists>fs new. t_iface t' = fs @ new \<and> list_all2 iface_kept (t_iface t) fs) \<and>
     (\<exists>es. t_event t' = t_event t @ es) \<and> set (static_ips t) \<subseteq> set (static_ips t') \<and>
     other_tables t' = other_tables t \<and> t_status t' = t_status t \<and> t_avail t' = t_avail t"

lemma adds_only_refl: "adds_only src t t"
  using iface_kept_refl by (auto simp: adds_only_def)

lemma iface_list_trans:
  assumes "u = fs @ new" and "list_all2 iface_kept t fs" and "v = gs @ new'" and "list_all2 iface_kept u gs"
  shows "\<exists>hs new. v = hs @ new \<and> list_all2 iface_kept t hs"
proof -
  obtain gs1 gs2 where g: "gs = gs1 @ gs2" "list_all2 iface_kept fs gs1" using assms by (auto simp: list_all2_append1)
  then have "list_all2 iface_kept t gs1" using assms(2) iface_kept_trans list_all2_trans by blast
  then show ?thesis using assms(3) g(1) by auto
qed

lemma adds_only_trans:
  assumes "adds_only src t u" and "adds_only src u v"
  shows "adds_only src t v"
proof -
  obtain fs new gs new' where "t_iface u = fs @ new" "list_all2 iface_kept (t_iface t) fs"
    "t_iface v = gs @ new'" "list_all2 iface_kept (t_iface u) gs" using assms by (auto simp: adds_only_def)
  then have "\<exists>hs new. t_iface v = hs @ new \<and> list_all2 iface_kept (t_iface t) hs" by (rule iface_list_trans)
  moreover have "\<exists>ds. t_device v = t_device t @ ds \<and> list_all (\<lambda>d. dev_Source d = src) ds"
    using assms by (auto simp: adds_only_def)
  moreover have "\<exists>es. t_event v = t_event t @ es" using assms by (auto simp: adds_only_def)
  ultimately show ?thesis using assms by (auto simp: adds_only_def)
qed

text \<open>A statement that loses nothing, touches no device and no status only adds.\<close>

lemma adds_only_of:
  "nothing_lost t t' \<Longrightarrow> t_device t' = t_device t \<Longrightarrow> t_status t' = t_status t \<Longrightarrow> t_avail t' = t_avail t \<Longrightarrow> adds_only src t t'"
  by (auto simp: nothing_lost_def adds_only_def)

abbreviation only_adds :: "string \<Rightarrow> tables \<Rightarrow> ('s db_scheme, 'a) act \<Rightarrow> bool" where
  "only_adds src t0 m \<equiv> keeps (\<lambda>s. adds_only src t0 (tabs s)) m"

lemma only_adds_stmt: "(\<And>t a t'. f t = Inr (a, t') \<Longrightarrow> adds_only src t t') \<Longrightarrow> only_adds src t0 (stmt f)"
  by (rule keeps_stmt [where J = "adds_only src t0"]) (use adds_only_trans in blast)

lemma only_adds_exec: "(\<And>t. adds_only src t (snd (f t))) \<Longrightarrow> only_adds src t0 (exec f)"
  by (rule keeps_exec [where J = "adds_only src t0"]) (use adds_only_trans in blast)

lemmas only_adds_read =
  keeps_query [where J = "adds_only src t0" for src t0] keeps_query_row [where J = "adds_only src t0" for src t0]
  keeps_withTx [where J = "adds_only src t0" for src t0]

lemma only_adds_del_ip:
  "(\<And>a. ip_Kind a = ''static'' \<Longrightarrow> \<not> P a) \<Longrightarrow> only_adds src t0 (exec (del_ip P))"
  by (rule only_adds_exec, rule adds_only_of)
     (auto simp: del_ip_def del_where_def static_ips_def intro!: nothing_lost_ip filter_cong)

lemma static_kept: "(\<And>a. ip_Kind a = ''static'' \<Longrightarrow> a \<in> set x \<Longrightarrow> a \<in> set y) \<Longrightarrow> x = t_ip t \<Longrightarrow> adds_only src t (t\<lparr>t_ip := y\<rparr>)"
  using iface_kept_refl by (auto simp: adds_only_def static_ips_def other_tables_def)

lemma ins_ip_adds: "ins_ip ifc sn ip kind s t = Inr (i, t') \<Longrightarrow> adds_only src t t'"
  by (auto simp: ins_ip_def Let_def intro!: static_kept [OF _ refl] split: if_splits)

lemma upd_where_fixed: "a \<in> set xs \<Longrightarrow> (P a \<Longrightarrow> f a = a) \<Longrightarrow> a \<in> set (upd_where P f xs)"
  by (force simp: upd_where_def)

lemma set_kind_adds:
  assumes "set_ip_kind i kind t = Inr (u, t')"
  shows "adds_only src t t'"
proof -
  let ?hit = "\<lambda>a. ip_ID a = i \<and> \<not> (ip_Kind a = ''static'' \<and> kind = ''dhcp'')"
  have t': "t' = t\<lparr>t_ip := upd_where ?hit (\<lambda>a. a\<lparr>ip_Kind := kind\<rparr>) (t_ip t)\<rparr>"
    and k: "kind \<in> {''static'', ''dhcp''} \<or> count_where ?hit (t_ip t) = 0"
    using assms by (auto simp: set_ip_kind_def Let_def split: if_splits)
  have "a \<in> set (upd_where ?hit (\<lambda>a. a\<lparr>ip_Kind := kind\<rparr>) (t_ip t))" if "ip_Kind a = ''static''" "a \<in> set (t_ip t)" for a
    using that(2)
  proof (rule upd_where_fixed)
    assume "?hit a"
    then have "kind = ''static''" using k that by (auto simp: count_where_def filter_empty_conv)
    then show "a\<lparr>ip_Kind := kind\<rparr> = a" using that(1) by (cases a) simp
  qed
  then show ?thesis unfolding t' by (intro static_kept [OF _ refl]) auto
qed

section \<open>The steps of a run\<close>

lemma FindIface_adds: "only_adds src t0 (FindIfaceByMAC mac)"
  unfolding FindIfaceByMAC_def find_row_def
  by (intro pres_intros only_adds_read) (auto intro: pres_intros split: error.splits)

lemma hostname_adds: "only_adds src t0 (SetIfaceHostnameIfEmpty ifc name)"
proof -
  let ?hit = "\<lambda>f. if_ID f = ifc \<and> (if_Hostname f = None \<or> if_Hostname f = Some [])"
  have "list_all2 iface_kept fs (upd_where ?hit (\<lambda>f. f\<lparr>if_Hostname := Some name\<rparr>) fs)" for fs
    by (induction fs) (auto simp: upd_where_def iface_kept_def)
  then have "nothing_lost t (t\<lparr>t_iface := upd_where ?hit (\<lambda>f. f\<lparr>if_Hostname := Some name\<rparr>) (t_iface t)\<rparr>)" for t
    using nothing_lost_iface [of t _ "[]"] by simp
  then show ?thesis unfolding SetIfaceHostnameIfEmpty_def Let_def
    by (intro pres_intros only_adds_exec adds_only_of) simp_all
qed

lemma assign_adds: "only_adds src t0 (assign src' ifc sn ip kind)"
proof -
  have "only_adds src t0 (ClaimDHCPLease ifc sn ip)"
    unfolding ClaimDHCPLease_def
    by (intro pres_intros only_adds_read only_adds_del_ip) (auto simp: own_stale_def foreign_claim_def)
  moreover have "only_adds src t0 (UpsertIPAssignmentFrom ifc sn ip kind src')"
    unfolding UpsertIPAssignmentFrom_def
    by (intro pres_intros only_adds_read)
       (auto intro!: pres_intros only_adds_stmt intro: ins_ip_adds set_kind_adds split: error.splits)
  ultimately show ?thesis unfolding assign_def by (intro pres_intros)
qed

lemma emit_adds: "only_adds src t0 (Emit now typ dev details)"
proof -
  have "only_adds src t0 (AddEvent ts typ dev details)" for ts and t0 :: tables
    unfolding AddEvent_def
    by (rule only_adds_stmt) (auto simp: ins_event_def Let_def intro!: adds_only_of nothing_lost_event split: if_splits)
  moreover have "only_adds src t0 (publish topic x)" "only_adds src t0 (notify typ dev x)" for topic x and t0 :: tables
    by (simp_all add: keeps_def publish_def notify_def)
  ultimately show ?thesis unfolding Emit_def by (intro pres_intros)
qed

lemma create_adds: "only_adds src t0 (CreateDevice (found_device name src))"
proof -
  have "adds_only src t (t\<lparr>t_device := t_device t @ [d]\<rparr>)" if "dev_Source d = src" for t d
    using that iface_kept_refl by (auto simp: adds_only_def static_ips_def other_tables_def)
  then show ?thesis unfolding CreateDevice_def
    by (intro only_adds_stmt) (auto simp: ins_device_def Let_def found_device_def new_device_row_def split: if_splits)
qed

lemma add_iface_adds: "only_adds src t0 (AddIface dev mac host)"
  unfolding AddIface_def using iface_kept_refl
  by (intro only_adds_stmt) (auto simp: ins_iface_def Let_def intro!: adds_only_of nothing_lost_iface split: if_splits)

lemma upsert_adds: "only_adds src t0 (upsertByMAC src now e sn kind)"
  unfolding upsertByMAC_def fill_name_def
  by (intro pres_intros FindIface_adds hostname_adds assign_adds emit_adds create_adds add_iface_adds)

text \<open>
  A run over a DHCP server's reservations and leases takes nothing from anyone, whatever the
  server reports and wherever the database fails: all devices, events and static assignments stay,
  interfaces keep their device and MAC and their host names, and what is added are devices of this
  source; the rest of the database is untouched.
\<close>

theorem Apply_adds_only: "adds_only src (tabs s) (tabs (snd (Apply src now subnets static dynamic s)))"
proof -
  have "only_adds src (tabs s) (Apply src now subnets static dynamic)"
    unfolding Apply_def apply_static_def apply_dynamic_def
    by (intro pres_intros upsert_adds FindIface_adds hostname_adds)
  then show ?thesis by (rule keepsD) (rule adds_only_refl)
qed

section \<open>A failure in the middle leaves a device behind\<close>

definition lease_db :: "bool list \<Rightarrow> svc" where
  "lease_db fs = \<lparr>tabs = sample_tables, faults = fs, published = [], notified = []\<rparr>"

text \<open>
  Creating a device for an unknown MAC and adding its interface are separate statements: when
  the second fails, the device stays without an interface, so the MAC stays unknown and the next
  run, although nothing fails in it, creates the device again.
\<close>

theorem failed_lease_leaves_twin:
  "let e = \<lparr>en_MAC = ''bb'', en_IP = ''10.0.0.7'', en_Hostname = ''tv''\<rparr>;
       s1 = snd (upsertByMAC ''pihole'' 0 e 1 ''dhcp'' (lease_db [False, False, True]));
       s2 = snd (upsertByMAC ''pihole'' 0 e 1 ''dhcp'' s1)
   in map dev_Name (t_device (tabs s1)) = [''nas'', ''host'', ''tv''] \<and> map if_DeviceID (t_iface (tabs s1)) = [1, 2] \<and>
      map dev_Name (t_device (tabs s2)) = [''nas'', ''host'', ''tv'', ''tv''] \<and> map if_DeviceID (t_iface (tabs s2)) = [1, 2, 4]"
  by code_simp

end
