(* ===== verification/Sync_Proxmox.thy ===== *)
theory Sync_Proxmox
  imports Leases Store_Upstream
begin

text \<open>
  internal/proxmox: keeping the nodes and guests of a Proxmox cluster as devices. The answers of the
  cluster's API, decoded, are arguments; reading the MACs out of a guest's configuration is modelled.
\<close>

section \<open>The client\<close>

record guest =
  g_VMID :: int
  g_Name :: string
  g_Node :: string
  g_Type :: string
  g_Status :: string

text \<open>A value of the configuration object; only strings are looked at.\<close>

datatype config_value = ConfigString string | ConfigOther

type_synonym config = "(string \<times> config_value) list"

definition config_path :: "string \<Rightarrow> int \<Rightarrow> string \<Rightarrow> string" where
  "config_path node vmid typ = ''/api2/json/nodes/'' @ node @ ''/'' @ typ @ ''/'' @ string_of_int vmid @ ''/config''"

definition netKeyRe :: "string \<Rightarrow> bool" where
  "netKeyRe key \<longleftrightarrow> take 3 key = ''net'' \<and> drop 3 key \<noteq> [] \<and> list_all is_digit (drop 3 key)"

definition word_char :: "char \<Rightarrow> bool" where
  "word_char c \<longleftrightarrow> is_digit c \<or> (CHR ''a'' \<le> c \<and> c \<le> CHR ''z'') \<or> (CHR ''A'' \<le> c \<and> c \<le> CHR ''Z'') \<or> c = CHR ''_''"

text \<open>The pattern at the start of \<open>s\<close>, with a word boundary on both sides; \<open>prev\<close> says whether a word character precedes.\<close>

definition macRe_at :: "bool \<Rightarrow> string \<Rightarrow> bool" where
  "macRe_at prev s \<longleftrightarrow> 17 \<le> length s \<and> prev \<noteq> word_char (s ! 0) \<and>
     list_all (\<lambda>i. if i mod 3 = 2 then s ! i = CHR '':'' else lower_hex (lower_char (s ! i))) [0..<17] \<and>
     word_char (s ! 16) \<noteq> (17 < length s \<and> word_char (s ! 17))"

text \<open>All matches, left to right; \<open>n\<close> characters still belong to the last one.\<close>

fun find_macs :: "bool \<Rightarrow> nat \<Rightarrow> string \<Rightarrow> string list" where
  "find_macs prev n [] = []"
| "find_macs prev (Suc n) (c # s) = find_macs (word_char c) n s"
| "find_macs prev 0 (c # s) =
     (if macRe_at prev (c # s) then take 17 (c # s) # find_macs (word_char c) 16 s else find_macs (word_char c) 0 s)"

definition config_macs :: "string \<times> config_value \<Rightarrow> string list" where
  "config_macs kv = (if \<not> netKeyRe (fst kv) then []
     else (case snd kv of ConfigOther \<Rightarrow> [] | ConfigString v \<Rightarrow> map to_lower (find_macs False 0 v)))"

definition GuestMACs :: "(string \<Rightarrow> error + config) \<Rightarrow> string \<Rightarrow> int \<Rightarrow> string \<Rightarrow> error + string list" where
  "GuestMACs get node vmid typ = (case get (config_path node vmid typ) of
     Inl e \<Rightarrow> Inl e | Inr data \<Rightarrow> Inr (concat (map config_macs data)))"

section \<open>The sync\<close>

definition proxmox_device :: "string \<Rightarrow> string \<Rightarrow> int option \<Rightarrow> int option \<Rightarrow> device" where
  "proxmox_device name kind parent vmid = \<lparr>dev_ID = 0, dev_Name = name, dev_Kind = kind, dev_Notes = [], dev_Vendor = [],
     dev_Source = ''proxmox'', dev_ParentDeviceID = parent, dev_ProxmoxVMID = vmid, dev_WGPubKey = None, dev_Icon = [],
     dev_Reviewed = False, dev_Model = [], dev_Function = [], dev_UpstreamMissingSince = None\<rparr>"

definition upsertNode :: "string \<Rightarrow> ('s db_scheme, int) act" where
  "upsertNode node =
     bindA (bindA (FindProxmoxNode node) (\<lambda>f. case f of
         Some i \<Rightarrow> ret i
       | None \<Rightarrow> CreateDevice (proxmox_device node ''server'' None None))) (\<lambda>i.
     thenA (SetCustomField i ''proxmox_node'' node) (ret i))"

definition attachMAC :: "int \<Rightarrow> string \<Rightarrow> ('s db_scheme, unit) act" where
  "attachMAC dev mac = bindA (FindIfaceByMAC mac) (\<lambda>f. case f of
     None \<Rightarrow> thenA (AddIface dev (Some mac) None) (ret ())
   | Some f \<Rightarrow> if if_DeviceID f = dev then ret () else thenA (AdoptDiscoveredIface (if_ID f) dev) (ret ()))"

definition guest_kind :: "guest \<Rightarrow> string" where
  "guest_kind g = (if g_Type g = ''lxc'' then ''lxc'' else ''vm'')"

text \<open>The guest's device and whether it was just created; a failure here is a failure without a device.\<close>

definition guest_device :: "guest \<Rightarrow> int \<Rightarrow> time \<Rightarrow> ('s svc_scheme, int \<times> bool) act" where
  "guest_device g node now = bindA (FindProxmoxGuest (g_VMID g)) (\<lambda>f. case f of
     Some i \<Rightarrow> ret (i, False)
   | None \<Rightarrow>
       bindA (CreateDevice (proxmox_device (g_Name g) (guest_kind g) (Some node) (Some (g_VMID g)))) (\<lambda>i.
       thenA (Emit now ''device_new'' (Some i) (''Proxmox guest '' @ g_Name g @ '' ('' @ string_of_int (g_VMID g) @ '')''))
       (ret (i, True))))"

definition guest_update :: "(string \<Rightarrow> error + config) \<Rightarrow> guest \<Rightarrow> int \<Rightarrow> int \<times> bool \<Rightarrow> ('s db_scheme, unit) act" where
  "guest_update get g node = (\<lambda>(dev, new).
     thenA (if new then ret () else SetProxmoxGuestParent dev node)
     (thenA (SetCustomField dev ''proxmox_status'' (g_Status g))
     (case GuestMACs get (g_Node g) (g_VMID g) (g_Type g) of
        Inl e \<Rightarrow> fail e
      | Inr macs \<Rightarrow> forA macs (attachMAC dev))))"

text \<open>The id, 0 when there is no device, and the error if there was one.\<close>

definition upsertGuest :: "(string \<Rightarrow> error + config) \<Rightarrow> guest \<Rightarrow> int \<Rightarrow> time \<Rightarrow> ('s svc_scheme, int \<times> error option) act" where
  "upsertGuest get g node now = bindA (attempt (guest_device g node now)) (\<lambda>r. case r of
     Inl e \<Rightarrow> ret (0, Some e)
   | Inr d \<Rightarrow> bindA (attempt (guest_update get g node d)) (\<lambda>r.
       ret (fst d, case r of Inl e \<Rightarrow> Some e | Inr _ \<Rightarrow> None)))"

definition announce_guests :: "time \<Rightarrow> string \<Rightarrow> string \<Rightarrow> upstream_change list \<Rightarrow> ('s svc_scheme, unit) act" where
  "announce_guests now typ what ds = forA ds (\<lambda>d. Emit now typ (Some (uc_ID d)) (''Proxmox guest '' @ uc_Name d @ what))"

definition proxmox_reconcile :: "int list \<Rightarrow> time \<Rightarrow> ('s svc_scheme, unit) act" where
  "proxmox_reconcile seen now =
     bindA (attempt (ReconcileUpstream ScopeProxmoxGuests (\<lambda>i. i \<in> set seen) now)) (\<lambda>r. case r of
       Inl _ \<Rightarrow> ret ()
     | Inr (gone, back) \<Rightarrow>
         thenA (announce_guests now ''device_missing'' '' is no longer in Proxmox'' gone)
         (announce_guests now ''device_returned'' '' is back in Proxmox'' back))"

definition sync_node :: "guest \<Rightarrow> (string \<times> int) list \<Rightarrow> ('s db_scheme, (string \<times> int) list) act" where
  "sync_node g ids = (if map_of ids (g_Node g) \<noteq> None then ret ids
     else bindA (upsertNode (g_Node g)) (\<lambda>i. ret ((g_Node g, i) # ids)))"

definition node_id :: "(string \<times> int) list \<Rightarrow> string \<Rightarrow> int" where
  "node_id ids node = (case map_of ids node of None \<Rightarrow> 0 | Some i \<Rightarrow> i)"

definition sync_guest :: "(string \<Rightarrow> error + config) \<Rightarrow> (string \<times> int) list \<Rightarrow> time \<Rightarrow> guest \<Rightarrow> int list \<times> bool \<Rightarrow>
    ('s svc_scheme, int list \<times> bool) act" where
  "sync_guest get ids now g = (\<lambda>(seen, complete).
     bindA (upsertGuest get g (node_id ids (g_Node g)) now) (\<lambda>(dev, e).
       if dev = 0 then ret (seen, False) else ret (dev # seen, complete)))"

text \<open>The counts of guests and nodes.\<close>

definition proxmox_RunOnce :: "(error + guest list) \<Rightarrow> (string \<Rightarrow> error + config) \<Rightarrow> time \<Rightarrow> ('s svc_scheme, nat \<times> nat) act" where
  "proxmox_RunOnce listed get now = (case listed of
     Inl e \<Rightarrow> fail e
   | Inr guests \<Rightarrow>
       bindA (foldA sync_node guests []) (\<lambda>ids.
       bindA (foldA (sync_guest get ids now) guests ([], True)) (\<lambda>(seen, complete).
       thenA (if complete \<and> guests \<noteq> [] then proxmox_reconcile seen now else ret ())
       (ret (length guests, length ids)))))"

definition proxmox_Status :: "nat \<times> nat \<Rightarrow> nat \<times> string" where
  "proxmox_Status = (\<lambda>(guests, nodes). (guests, string_of_nat guests @ '' guests, '' @ string_of_nat nodes @ '' nodes''))"

section \<open>What a run finds in a configuration are MACs as the database keeps them\<close>

lemma macRe_lower: "macRe_at prev s \<Longrightarrow> mac_re (to_lower (take 17 s))"
proof -
  assume a: "macRe_at prev s"
  then have "(if i mod 3 = 2 then s ! i = CHR '':'' else lower_hex (lower_char (s ! i)))" "i < length s" if "i < 17" for i
    using that unfolding macRe_at_def list_all_iff set_upt by auto
  moreover have "lower_char CHR '':'' = CHR '':''" by code_simp
  ultimately have "(if i mod 3 = 2 then to_lower (take 17 s) ! i = CHR '':'' else lower_hex (to_lower (take 17 s) ! i))"
    if "i < 17" for i using that by (auto simp: to_lower_def split: if_splits) 
  moreover have "length (to_lower (take 17 s)) = 17" using a by (simp add: to_lower_def macRe_at_def)
  ultimately show ?thesis unfolding mac_re_def list_all_iff set_upt by auto
qed

lemma find_macs_macs: "m \<in> set (find_macs prev n s) \<Longrightarrow> mac_re (to_lower m)"
proof (induction prev n s rule: find_macs.induct)
  case (3 prev c s)
  then show ?case using macRe_lower [of prev "c # s"] by (auto split: if_splits simp del: take_Suc_Cons)
qed auto

text \<open>
  Whatever a guest's configuration holds, every MAC address read out of it is six pairs of
  lower-case hex digits separated by colons, the form in which interfaces are stored and looked up.
\<close>

theorem GuestMACs_canonical:
  "case GuestMACs get node vmid typ of Inl e \<Rightarrow> get (config_path node vmid typ) = Inl e | Inr macs \<Rightarrow> list_all mac_re macs"
  by (auto simp: GuestMACs_def config_macs_def list_all_iff find_macs_macs
        split: sum.splits if_splits config_value.splits)

section \<open>What people reviewed stays theirs\<close>

text \<open>A device without what the sync may change on any device: its parent and the missing mark.\<close>

definition owned_part :: "device_row \<Rightarrow> device_row" where
  "owned_part d = d\<lparr>dev_ParentDeviceID := None, dev_UpstreamMissingSince := None\<rparr>"

definition reviewed_parts :: "tables \<Rightarrow> device_row list" where
  "reviewed_parts t = map owned_part (filter dev_Reviewed (t_device t))"

definition reviewed_ifaces :: "tables \<Rightarrow> iface set" where
  "reviewed_ifaces t = {f \<in> set (t_iface t). if_DeviceID f \<in> dev_ID ` set (reviewed_parts t)}"

definition sync_fields :: "custom_field \<Rightarrow> bool" where
  "sync_fields c \<longleftrightarrow> cf_Key c = ''proxmox_node'' \<or> cf_Key c = ''proxmox_status''"

definition untouched :: "tables \<Rightarrow> ip_row list \<times> status_row list \<times> avail_row list \<times> open_port list \<times>
    (int \<times> int) list \<times> custom_field list \<times> link list" where
  "untouched t = (t_ip t, t_status t, t_avail t, t_port t, t_device_tag t, filter (\<lambda>c. \<not> sync_fields c) (t_field t), t_link t)"

definition leaves_reviewed :: "tables \<Rightarrow> tables \<Rightarrow> bool" where
  "leaves_reviewed t0 t \<longleftrightarrow> distinct (dev_ids t) \<and> prefix (reviewed_parts t0) (reviewed_parts t) \<and>
     reviewed_ifaces t0 \<subseteq> set (t_iface t) \<and> untouched t = untouched t0"

lemma owned_part_simps [simp]:
  "dev_ID (owned_part d) = dev_ID d" "dev_Reviewed (owned_part d) = dev_Reviewed d"
  "owned_part (d\<lparr>dev_ParentDeviceID := p\<rparr>) = owned_part d" "owned_part (d\<lparr>dev_UpstreamMissingSince := m\<rparr>) = owned_part d"
  by (simp_all add: owned_part_def)

lemma reviewed_still:
  assumes "leaves_reviewed t0 t" and "f \<in> reviewed_ifaces t0"
  shows "\<exists>d \<in> set (t_device t). dev_ID d = if_DeviceID f \<and> dev_Reviewed d"
proof -
  have "set (reviewed_parts t0) \<subseteq> set (reviewed_parts t)"
    using assms(1) set_mono_prefix by (auto simp: leaves_reviewed_def)
  moreover have "if_DeviceID f \<in> dev_ID ` set (reviewed_parts t0)" using assms(2) by (simp add: reviewed_ifaces_def)
  ultimately have "if_DeviceID f \<in> dev_ID ` set (reviewed_parts t)" by blast
  then show ?thesis by (auto simp: reviewed_parts_def)
qed

text \<open>Moving an interface away from a device that is not reviewed.\<close>

lemma move_leaves:
  assumes "leaves_reviewed t0 t" and "move_iface i src to t = Inr (n, t')"
  shows "leaves_reviewed t0 t'"
proof -
  have "if_DeviceID f \<noteq> src \<or> \<not> (\<exists>d \<in> set (t_device t). dev_ID d = src \<and> discovered d)" if "f \<in> reviewed_ifaces t0" for f
    using reviewed_still [OF assms(1) that] assms(1)
    by (auto simp: leaves_reviewed_def dev_ids_def discovered_def dest: distinct_key_eq)
  then have "f \<in> set (upd_where (\<lambda>f. if_ID f = i \<and> if_DeviceID f \<in> set (map dev_ID (filter (\<lambda>d. dev_ID d = src \<and> discovered d) (t_device t))))
      (\<lambda>f. f\<lparr>if_DeviceID := to\<rparr>) (t_iface t))" if "f \<in> reviewed_ifaces t0" for f
    using that assms(1) by (intro upd_where_fixed) (auto simp: leaves_reviewed_def)
  then show ?thesis using assms
    by (auto simp: leaves_reviewed_def move_iface_def Let_def reviewed_parts_def untouched_def dev_ids_def split: if_splits)
qed

lemma drop_bare_leaves:
  assumes "leaves_reviewed t0 t"
  shows "leaves_reviewed t0 (snd (del_device (bare_device t i) t))"
proof -
  have "filter dev_Reviewed (del_where (bare_device t i) (t_device t)) = filter dev_Reviewed (t_device t)"
    by (auto simp: del_where_def bare_device_def intro: filter_cong)
  then show ?thesis using assms
    by (simp add: leaves_reviewed_def reviewed_parts_def untouched_def del_device_def cascade_bare dev_ids_def
        del_where_def distinct_map_filterI)
qed

text \<open>Changing nothing but the parents and marks of devices, and the events.\<close>

lemma marks_leave:
  assumes "leaves_reviewed t0 t" and "\<And>d. f d \<in> {d, d\<lparr>dev_ParentDeviceID := p\<rparr>, d\<lparr>dev_UpstreamMissingSince := m\<rparr>}"
  shows "leaves_reviewed t0 (t\<lparr>t_device := upd_where P f (t_device t)\<rparr>)"
proof -
  have f: "dev_ID (f d) = dev_ID d" "dev_Reviewed (f d) = dev_Reviewed d" "owned_part (f d) = owned_part d" for d
    using assms(2) [of d] by auto
  have "map owned_part (filter dev_Reviewed (upd_where P f ds)) = map owned_part (filter dev_Reviewed ds)" for ds
    by (induction ds) (auto simp: upd_where_def f)
  moreover have "map dev_ID (upd_where P f ds) = map dev_ID ds" for ds
    by (induction ds) (auto simp: upd_where_def f)
  ultimately show ?thesis using assms(1)
    by (simp add: leaves_reviewed_def reviewed_parts_def untouched_def dev_ids_def)
qed

lemma new_device_leaves:
  assumes "leaves_reviewed t0 t" and "ins_device d t = Inr (i, t')"
  shows "leaves_reviewed t0 t'"
proof -
  have "t' = t\<lparr>t_device := t_device t @ [new_device_row (next_id (dev_ids t)) d]\<rparr>"
    using assms(2) by (auto simp: ins_device_def Let_def split: if_splits)
  moreover have "next_id (dev_ids t) \<notin> set (dev_ids t)" using next_id_fresh by blast
  ultimately show ?thesis using assms(1)
    by (auto simp: leaves_reviewed_def reviewed_parts_def untouched_def dev_ids_def new_device_row_def)
qed

lemma field_leaves:
  assumes "leaves_reviewed t0 t" and "key = ''proxmox_node'' \<or> key = ''proxmox_status''"
  shows "leaves_reviewed t0 (t\<lparr>t_field := upd_where (\<lambda>c. cf_DeviceID c = dev \<and> cf_Key c = key) (\<lambda>c. c\<lparr>cf_Value := v\<rparr>) (t_field t)\<rparr>)"
    and "leaves_reviewed t0 (t\<lparr>t_field := t_field t @ [\<lparr>cf_DeviceID = dev, cf_Key = key, cf_Value = v\<rparr>]\<rparr>)"
proof -
  have "filter (\<lambda>c. \<not> sync_fields c) (upd_where (\<lambda>c. cf_DeviceID c = dev \<and> cf_Key c = key) (\<lambda>c. c\<lparr>cf_Value := v\<rparr>) fs)
      = filter (\<lambda>c. \<not> sync_fields c) fs" for fs
    using assms(2) by (induction fs) (auto simp: upd_where_def sync_fields_def)
  then show "leaves_reviewed t0 (t\<lparr>t_field := upd_where (\<lambda>c. cf_DeviceID c = dev \<and> cf_Key c = key) (\<lambda>c. c\<lparr>cf_Value := v\<rparr>) (t_field t)\<rparr>)"
    using assms(1) by (simp add: leaves_reviewed_def reviewed_parts_def untouched_def dev_ids_def)
  show "leaves_reviewed t0 (t\<lparr>t_field := t_field t @ [\<lparr>cf_DeviceID = dev, cf_Key = key, cf_Value = v\<rparr>]\<rparr>)"
    using assms by (auto simp: leaves_reviewed_def reviewed_parts_def untouched_def dev_ids_def sync_fields_def)
qed

abbreviation kind_to_reviewed :: "tables \<Rightarrow> ('s db_scheme, 'a) act \<Rightarrow> bool" where
  "kind_to_reviewed t0 m \<equiv> keeps (\<lambda>s. leaves_reviewed t0 (tabs s)) m"

lemma adopt_kind: "kind_to_reviewed t0 (AdoptDiscoveredIface i to)"
proof -
  have "leaves_reviewed t0 (snd (repoint_events src to t))" if "leaves_reviewed t0 t" for t src
    using that by (simp add: leaves_reviewed_def reviewed_parts_def untouched_def dev_ids_def repoint_events_def Let_def)
  then show ?thesis unfolding AdoptDiscoveredIface_def
    by (intro pres_intros keeps_stmt keeps_exec) (auto intro: move_leaves drop_bare_leaves)
qed

lemma emit_kind: "kind_to_reviewed t0 (Emit now typ dev details)"
proof -
  have "leaves_reviewed t0 (t\<lparr>t_event := e\<rparr>)" if "leaves_reviewed t0 t" for t e
    using that by (simp add: leaves_reviewed_def reviewed_parts_def untouched_def dev_ids_def)
  then have "kind_to_reviewed t0 (AddEvent ts typ dev details)" for ts
    unfolding AddEvent_def by (intro keeps_stmt) (auto simp: ins_event_def Let_def split: if_splits)
  moreover have "kind_to_reviewed t0 (publish topic x)" "kind_to_reviewed t0 (notify typ dev x)" for topic x
    by (simp_all add: keeps_def publish_def notify_def)
  ultimately show ?thesis unfolding Emit_def by (intro pres_intros)
qed

lemma create_kind: "kind_to_reviewed t0 (CreateDevice d)"
  unfolding CreateDevice_def by (intro keeps_stmt) (rule new_device_leaves)

lemma field_kind: "key = ''proxmox_node'' \<or> key = ''proxmox_status'' \<Longrightarrow> kind_to_reviewed t0 (SetCustomField dev key v)"
  unfolding SetCustomField_def by (intro keeps_stmt) (auto simp: Let_def field_leaves split: if_splits)

lemma parent_kind: "kind_to_reviewed t0 (SetProxmoxGuestParent dev node)"
  unfolding SetProxmoxGuestParent_def by (intro keeps_stmt) (auto simp: Let_def intro!: marks_leave split: if_splits)

lemma lookup_kind:
  "kind_to_reviewed t0 (FindProxmoxNode node)" "kind_to_reviewed t0 (FindProxmoxGuest vmid)" "kind_to_reviewed t0 (FindIfaceByMAC mac)"
  unfolding FindProxmoxNode_def FindProxmoxGuest_def findDeviceID_def FindIfaceByMAC_def find_row_def
  by (intro pres_intros; auto intro: pres_intros split: error.splits)+

lemma add_iface_kind: "kind_to_reviewed t0 (AddIface dev mac host)"
proof -
  have "leaves_reviewed t0 (t\<lparr>t_iface := t_iface t @ [f]\<rparr>)" if "leaves_reviewed t0 t" for t f
    using that by (auto simp: leaves_reviewed_def reviewed_parts_def untouched_def dev_ids_def)
  then show ?thesis unfolding AddIface_def by (intro keeps_stmt) (auto simp: ins_iface_def Let_def split: if_splits)
qed

lemma reconcile_kind: "kind_to_reviewed t0 (ReconcileUpstream sc seen now)"
proof -
  have "leaves_reviewed t0 (snd (set_missing v i t))" if "leaves_reviewed t0 t" for t v i
    using that by (auto simp: set_missing_def intro!: marks_leave)
  then show ?thesis unfolding ReconcileUpstream_def by (intro pres_intros keeps_exec) auto
qed

lemmas kind_steps = adopt_kind emit_kind create_kind field_kind parent_kind lookup_kind add_iface_kind reconcile_kind

lemma guest_update_kind: "kind_to_reviewed t0 (guest_update get g node d)"
  unfolding guest_update_def attachMAC_def by (intro pres_intros kind_steps) auto

lemma upsertNode_kind: "kind_to_reviewed t0 (upsertNode node)"
  unfolding upsertNode_def by (intro pres_intros kind_steps) simp

lemma upsertGuest_kind: "kind_to_reviewed t0 (upsertGuest get g node now)"
  unfolding upsertGuest_def guest_device_def by (intro pres_intros kind_steps guest_update_kind)

text \<open>
  Whatever Proxmox lists and wherever the database fails, a run leaves every reviewed device as
  it was but for its parent and the missing mark, with all its interfaces, and touches no address,
  status, port, tag, link or custom field but its own two.
\<close>

theorem proxmox_leaves_reviewed:
  assumes "distinct (dev_ids (tabs s))"
  shows "leaves_reviewed (tabs s) (tabs (snd (proxmox_RunOnce listed get now s)))"
proof -
  have "kind_to_reviewed (tabs s) (proxmox_RunOnce listed get now)"
    unfolding proxmox_RunOnce_def sync_node_def sync_guest_def proxmox_reconcile_def announce_guests_def
    by (intro pres_intros upsertNode_kind upsertGuest_kind kind_steps)
  moreover have "leaves_reviewed (tabs s) (tabs s)"
    using assms by (auto simp: leaves_reviewed_def reviewed_ifaces_def)
  ultimately show ?thesis by (rule keepsD)
qed

section \<open>A guest the DHCP server saw first\<close>

definition guest_db :: svc where
  "guest_db = \<lparr>tabs = sample_tables, faults = [], published = [], notified = []\<rparr>"

definition leased_guest :: "string \<Rightarrow> svc \<Rightarrow> svc" where
  "leased_guest mac s = snd (upsertByMAC ''pihole'' 0 \<lparr>en_MAC = mac, en_IP = ''10.0.0.7'', en_Hostname = ''web''\<rparr> 1 ''dhcp'' s)"

definition guest_config :: "string \<Rightarrow> string \<Rightarrow> error + config" where
  "guest_config mac path = Inr [(''net0'', ConfigString (''virtio='' @ mac @ '',bridge=vmbr0''))]"

definition web_guest :: guest where
  "web_guest = \<lparr>g_VMID = 101, g_Name = ''web'', g_Node = ''pve'', g_Type = ''qemu'', g_Status = ''running''\<rparr>"

text \<open>
  A guest whose lease Pi-hole reported before Proxmox listed it is kept as two devices: the one
  made from the lease counts as reviewed from the start, so its interface is not moved to the guest,
  which stays without any.
\<close>

theorem leased_guest_is_not_adopted:
  "let (r, s) = proxmox_RunOnce (Inr [web_guest]) (guest_config ''02:00:00:00:00:0A'') 0 (leased_guest ''02:00:00:00:00:0a'' guest_db)
   in r = Inr (1, 1) \<and> map (\<lambda>d. (dev_Name d, dev_Source d, dev_Reviewed d)) (drop 2 (t_device (tabs s))) =
        [(''web'', ''pihole'', True), (''pve'', ''proxmox'', True), (''web'', ''proxmox'', True)] \<and>
      map (\<lambda>f. (if_DeviceID f, if_MAC f)) (drop 2 (t_iface (tabs s))) = [(3, Some ''02:00:00:00:00:0a'')]"
  by code_simp

theorem proxmox_leaves_reviewed_witness:
  "leaves_reviewed (tabs guest_db) (tabs (snd (proxmox_RunOnce (Inr [web_guest]) (guest_config ''02:00:00:00:00:0A'') 0 guest_db)))"
proof -
  have "distinct (dev_ids (tabs guest_db))" by code_simp
  then show ?thesis by (rule proxmox_leaves_reviewed)
qed

end
