(* ===== verification/Lease_Pools.thy ===== *)
theory Lease_Pools
  imports Leases
begin

text \<open>
  internal/leases/pools.go: the DHCP pools a server reports, and which of them a subnet takes.
\<close>

section \<open>Pools\<close>

record range =
  rg_Start :: string
  rg_End :: string

text \<open>The bytes of an address, most significant first, and back.\<close>

fun as_slice :: "addr \<Rightarrow> 8 word list" where
  "as_slice (V4 a) = map (\<lambda>i. ucast (drop_bit (24 - 8 * i) a)) [0..<4]"
| "as_slice (V6 a z) = map (\<lambda>i. ucast (drop_bit (120 - 8 * i) a)) [0..<16]"

definition addr_from_slice :: "8 word list \<Rightarrow> addr" where
  "addr_from_slice bs = (if length bs = 4
     then V4 (foldl (\<lambda>acc b. push_bit 8 acc OR ucast b) 0 bs)
     else V6 (foldl (\<lambda>acc b. push_bit 8 acc OR ucast b) 0 bs) [])"

definition last_byte :: "int \<Rightarrow> 8 word \<Rightarrow> 8 word" where
  "last_byte bits b = (if bits \<le> 0 then 0xFF else if bits < 8 then b OR drop_bit (nat bits) 0xFF else b)"

definition lastAddr :: "cidr \<Rightarrow> addr" where
  "lastAddr p = (let bs = as_slice (pfx_addr p) in
     addr_from_slice (map (\<lambda>i. last_byte (int (pfx_bits p) - int i * 8) (bs ! i)) [0..<length bs]))"

definition range_bounds :: "range \<Rightarrow> (addr \<times> addr) option" where
  "range_bounds r = (case (parse_addr (rg_Start r), parse_addr (rg_End r)) of
     (Some lo, Some hi) \<Rightarrow> if is4 lo \<noteq> is4 hi \<or> addr_less hi lo then None else Some (lo, hi)
   | _ \<Rightarrow> None)"

definition ParseRange :: "string \<Rightarrow> range option" where
  "ParseRange s0 = (let s = trim_space s0 in
     case parse_prefix s of
       Some p \<Rightarrow> Some \<lparr>rg_Start = addr_string (pfx_addr (masked p)), rg_End = addr_string (lastAddr (masked p))\<rparr>
     | None \<Rightarrow> (case cut CHR ''-'' s of (a, b, ok) \<Rightarrow>
         if \<not> ok then None
         else (let r = \<lparr>rg_Start = NormIP a, rg_End = NormIP b\<rparr> in
               if range_bounds r = None then None else Some r)))"

text \<open>\<open>size\<close>: the difference of the 16-byte forms, which for one family is that of the numbers.\<close>

definition range_size :: "addr \<Rightarrow> addr \<Rightarrow> int" where
  "range_size lo hi = int (addr_num hi) - int (addr_num lo)"

definition better_subnet :: "addr \<Rightarrow> addr \<Rightarrow> subnet \<Rightarrow> (int \<times> nat) option \<Rightarrow> (int \<times> nat) option" where
  "better_subnet lo hi sn best = (case parse_prefix (sn_CIDR sn) of
     None \<Rightarrow> best
   | Some p \<Rightarrow> if \<not> contains p lo \<or> \<not> contains p hi \<or> (case best of None \<Rightarrow> False | Some (_, bits) \<Rightarrow> pfx_bits p \<le> bits)
              then best else Some (sn_ID sn, pfx_bits p))"

record pick =
  pk_Range :: range
  pk_Size :: int

text \<open>The picks by subnet, in the order in which subnets first got one.\<close>

definition pick_range :: "subnet list \<Rightarrow> range \<Rightarrow> (int \<times> pick) list \<Rightarrow> (int \<times> pick) list" where
  "pick_range subnets r best = (case range_bounds r of
     None \<Rightarrow> best
   | Some (lo, hi) \<Rightarrow> (case fold (better_subnet lo hi) subnets None of
       None \<Rightarrow> best
     | Some (i, _) \<Rightarrow>
         (let p = \<lparr>pk_Range = \<lparr>rg_Start = addr_string lo, rg_End = addr_string hi\<rparr>, pk_Size = range_size lo hi\<rparr> in
          if (case map_of best i of None \<Rightarrow> True | Some b \<Rightarrow> pk_Size b < pk_Size p)
          then (if i \<in> fst ` set best then map (\<lambda>(k, b). (k, if k = i then p else b)) best else best @ [(i, p)])
          else best)))"

definition ApplyPools :: "string \<Rightarrow> subnet list \<Rightarrow> range list \<Rightarrow> ('s db_scheme, nat) act" where
  "ApplyPools src subnets ranges =
     foldA (\<lambda>(i, p) n. bindA (SetDHCPPoolFrom i (rg_Start (pk_Range p)) (rg_End (pk_Range p)) src) (\<lambda>c.
       ret (if c then n + 1 else n))) (fold (pick_range subnets) ranges []) 0"

section \<open>A pool written as a block\<close>

lemma bit_from_bytes:
  "k < 8 * length bs \<Longrightarrow> bit (foldl (\<lambda>acc b. push_bit 8 acc OR ucast b) 0 (bs :: 8 word list) :: 'a::len word) k \<longleftrightarrow>
     k < LENGTH('a) \<and> bit (bs ! (length bs - 1 - k div 8)) (k mod 8)"
proof (induction bs arbitrary: k rule: rev_induct)
  case (snoc b bs)
  show ?case
  proof (cases "k < 8")
    case True
    then show ?thesis by (auto simp: bit_simps)
  next
    case False
    then have "(k - 8) div 8 = k div 8 - 1" "(k - 8) mod 8 = k mod 8" "1 \<le> k div 8" "k - 8 < 8 * length bs"
      using snoc.prems le_div_geq [of 8 k] le_mod_geq [of 8 k] by simp_all
    moreover from this have "length bs - 1 - (k - 8) div 8 = length bs - k div 8 \<and> length bs - k div 8 < length bs"
      using False by (cases bs) auto
    then have "bs ! (length bs - 1 - (k - 8) div 8) = (bs @ [b]) ! (length bs - k div 8)" by (simp add: nth_append)
    moreover have "\<not> bit b k" using False bit_imp_le_length [of b k] by auto
    ultimately show ?thesis using snoc.IH [of "k - 8"] False by (auto simp: bit_simps)
  qed
qed simp

lemma bit_last_byte: "j < 8 \<Longrightarrow> bit (last_byte n b) j \<longleftrightarrow> bit b j \<or> int j < 8 - n"
proof -
  assume j: "j < 8"
  have all: "bit (0xFF :: 8 word) i \<longleftrightarrow> i < 8" for i
  proof -
    have "(0xFF :: 8 word) = mask 8" by (simp add: mask_eq_exp_minus_1)
    then show ?thesis by (simp only: bit_mask_iff) simp
  qed
  consider "n \<le> 0" | "0 < n" "n < 8" | "8 \<le> n" by linarith
  then show ?thesis
  proof cases
    case 1
    then show ?thesis using j by (simp only: last_byte_def if_True all) simp
  next
    case 2
    then have "last_byte n b = b OR drop_bit (nat n) 0xFF" by (simp add: last_byte_def)
    then have "bit (last_byte n b) j \<longleftrightarrow> bit b j \<or> nat n + j < 8"
      by (simp only: bit_or_iff bit_drop_bit_eq comp_def all)
    then show ?thesis using 2 by (simp add: nat_less_iff) linarith
  qed (simp add: last_byte_def)
qed

text \<open>Every bit below the network part is set.\<close>

lemma byte_index:
  assumes "k < 8 * n" and "i = n - 1 - k div 8"
  shows "i < n" and "8 * (n - 1) - 8 * i + k mod 8 = k" and "int (k mod 8) < 8 - (b - int i * 8) \<longleftrightarrow> int k < int (8 * n) - b"
proof -
  have k: "k div 8 < n" "8 * (k div 8) + k mod 8 = k" using assms(1) by (auto simp: less_mult_imp_div_less mult.commute)
  then show "i < n" using assms(2) by simp
  have i: "int i = int n - 1 - int (k div 8)" using k(1) assms(2) by simp
  have "8 * (n - 1) - 8 * i = 8 * (k div 8)" using k(1) assms(2) by simp
  then show "8 * (n - 1) - 8 * i + k mod 8 = k" using k(2) by simp
  have "int k = 8 * int (k div 8) + int (k mod 8)" using k(2) by (metis of_nat_add of_nat_mult of_nat_numeral)
  then show "int (k mod 8) < 8 - (b - int i * 8) \<longleftrightarrow> int k < int (8 * n) - b" using i by linarith
qed

lemma fill_bytes:
  fixes a :: "'a::len word"
  assumes n: "LENGTH('a) = 8 * n"
  shows "foldl (\<lambda>acc b. push_bit 8 acc OR ucast b) 0 (map (\<lambda>i. last_byte (int b - int i * 8)
      (map (\<lambda>i. ucast (drop_bit (8 * (n - 1) - 8 * i) a)) [0..<n] ! i)) [0..<n]) = a OR mask (8 * n - b)"
proof (rule bit_word_eqI)
  fix k assume k: "k < LENGTH('a)"
  have "k < 8 * n" using k n by simp
  note j = byte_index [OF this refl]
  show "bit (foldl (\<lambda>acc b. push_bit 8 acc OR ucast b) (0 :: 'a word) (map (\<lambda>i. last_byte (int b - int i * 8)
      (map (\<lambda>i. ucast (drop_bit (8 * (n - 1) - 8 * i) a)) [0..<n] ! i)) [0..<n])) k = bit (a OR mask (8 * n - b)) k"
    using k n j(1) j(2) j(3) [of "int b"]
    by (subst bit_from_bytes) (auto simp: bit_last_byte bit_simps)
qed

lemma lastAddr_bits:
  "lastAddr p = (case pfx_addr p of V4 a \<Rightarrow> V4 (a OR mask (32 - pfx_bits p)) | V6 a z \<Rightarrow> V6 (a OR mask (128 - pfx_bits p)) [])"
proof -
  show ?thesis
  proof (cases "pfx_addr p")
    case (V4 a)
    then show ?thesis using fill_bytes [where n = 4 and a = a and b = "pfx_bits p"] by (simp add: lastAddr_def addr_from_slice_def)
  next
    case (V6 a z)
    then show ?thesis using fill_bytes [where n = 16 and a = a and b = "pfx_bits p"] by (simp add: lastAddr_def addr_from_slice_def)
  qed
qed

lemma fill_num:
  fixes x :: "'a::len word"
  assumes "h \<le> LENGTH('a)"
  shows "unat (push_bit h (drop_bit h x) OR mask h) = (unat x div 2 ^ h + 1) * 2 ^ h - 1"
proof -
  let ?q = "unat x div 2 ^ h"
  have m: "unat (mask h :: 'a word) = mask h"
    by (rule bit_eqI) (use assms in \<open>auto simp: bit_simps\<close>)
  have "unat (push_bit h (drop_bit h x) OR mask h) = push_bit h ?q OR mask h"
    unfolding unsigned_or_eq m shift_down by (simp add: push_bit_eq_mult)
  also have "\<dots> = push_bit h ?q + mask h" by (rule disjunctive_add [symmetric]) (auto simp: bit_simps)
  also have "\<dots> = (?q + 1) * 2 ^ h - 1" by (simp add: push_bit_eq_mult mask_eq_exp_minus_1)
  finally show ?thesis .
qed

lemma lastAddr_num:
  assumes "zone (pfx_addr p) = []"
  shows "is4 (lastAddr (masked p)) = is4 (pfx_addr p) \<and> zone (lastAddr (masked p)) = [] \<and>
    addr_num (lastAddr (masked p)) = (block p + 1) * 2 ^ host_bits p - 1"
proof (cases "pfx_addr p")
  case (V4 a)
  then show ?thesis using fill_num [of "32 - pfx_bits p" a]
    by (simp add: lastAddr_bits masked_simps masked_def Let_def host_bits_def block_def)
next
  case (V6 a z)
  then show ?thesis using fill_num [of "128 - pfx_bits p" a]
    by (simp add: lastAddr_bits masked_simps masked_def Let_def host_bits_def block_def)
qed

text \<open>
  A DHCP pool written as a CIDR block is read as exactly the block: an address lies in the
  range from its first to its last address if and only if the block contains it.
\<close>

theorem ParseRange_block:
  "case parse_prefix (trim_space s) of
     None \<Rightarrow> True
   | Some p \<Rightarrow> \<exists>lo hi. ParseRange s = Some \<lparr>rg_Start = addr_string lo, rg_End = addr_string hi\<rparr> \<and>
       {a. contains p a} = {a. is4 a = is4 lo \<and> zone a = [] \<and> addr_num lo \<le> addr_num a \<and> addr_num a \<le> addr_num hi}"
proof (cases "parse_prefix (trim_space s)")
  case (Some p)
  let ?lo = "pfx_addr (masked p)" and ?hi = "lastAddr (masked p)"
  have z: "zone (pfx_addr p) = []" using parse_prefix_zone [OF Some] by simp
  have lo: "addr_num ?lo = block p * 2 ^ host_bits p"
    by (cases "pfx_addr p") (simp_all add: masked_def block_def Let_def shift_down)
  have c: "contains p a \<longleftrightarrow> is4 a = is4 ?lo \<and> zone a = [] \<and> addr_num a div 2 ^ host_bits p = block p" for a
    unfolding contains_iff masked_simps block_def by metis
  have "n div 2 ^ host_bits p = block p \<longleftrightarrow> addr_num ?lo \<le> n \<and> n \<le> addr_num ?hi" for n
  proof -
    define X where "X = (block p + 1) * 2 ^ host_bits p"
    have "addr_num ?hi = X - 1" "0 < X" using lastAddr_num [OF z] by (simp_all add: X_def)
    then show ?thesis unfolding in_block lo X_def [symmetric] by auto
  qed
  then have "contains p a \<longleftrightarrow> is4 a = is4 ?lo \<and> zone a = [] \<and> addr_num ?lo \<le> addr_num a \<and> addr_num a \<le> addr_num ?hi" for a
    unfolding c by blast
  moreover have "ParseRange s = Some \<lparr>rg_Start = addr_string ?lo, rg_End = addr_string ?hi\<rparr>"
    by (simp add: ParseRange_def Some)
  ultimately show ?thesis using Some by auto
qed simp

end
