(* ===== verification/DHCP_Clients.thy ===== *)
theory DHCP_Clients
  imports Lease_Pools
begin

text \<open>
  internal/pihole/client.go, internal/adguard/client.go and internal/opnsense/client.go: what the
  DHCP integrations read from their servers. The servers, HTTP and the decoding of JSON are
  arguments; sessions, the choice of backend and the reading of rows are modelled.
\<close>

section \<open>Pi-hole: sessions\<close>

datatype pihole_request = PostAuth string | GetPath string string | DeleteAuth string

text \<open>
  The client's session id beside the state of the server it talks to. A server answers a request
  with an error of the transport or a status and a body.
\<close>

record 'w pihole =
  ph_sid :: string
  ph_server :: 'w

type_synonym ('w, 'b) pihole_server = "pihole_request \<Rightarrow> 'w \<Rightarrow> (error + nat \<times> 'b) \<times> 'w"

definition send :: "('w, 'b) pihole_server \<Rightarrow> pihole_request \<Rightarrow> ('w pihole, nat \<times> 'b) act" where
  "send srv r s = (case srv r (ph_server s) of (x, w) \<Rightarrow> (x, s\<lparr>ph_server := w\<rparr>))"

definition set_sid :: "string \<Rightarrow> ('w pihole, unit) act" where
  "set_sid sid s = (Inr (), s\<lparr>ph_sid := sid\<rparr>)"

definition get_sid :: "('w pihole, string) act" where
  "get_sid s = (Inr (ph_sid s), s)"

text \<open>\<open>session\<close> decodes the answer to a login: the session id and whether it is valid.\<close>

definition pihole_login :: "('w, 'b) pihole_server \<Rightarrow> ('b \<Rightarrow> error + string \<times> bool) \<Rightarrow> string \<Rightarrow> ('w pihole, unit) act" where
  "pihole_login srv session pw = bindA (send srv (PostAuth pw)) (\<lambda>(status, body).
     if status \<noteq> 200 then fail (ErrMsg (''pihole auth: HTTP '' @ string_of_nat status))
     else (case session body of
       Inl e \<Rightarrow> fail e
     | Inr (sid, valid) \<Rightarrow>
         if \<not> valid \<or> sid = [] then fail (ErrMsg ''pihole auth: invalid session'') else set_sid sid))"

definition pihole_doGet :: "('w, 'b) pihole_server \<Rightarrow> ('b \<Rightarrow> error + 'a) \<Rightarrow> string \<Rightarrow> ('w pihole, nat \<times> 'a option) act" where
  "pihole_doGet srv dec path = bindA get_sid (\<lambda>sid. bindA (send srv (GetPath sid path)) (\<lambda>(status, body).
     if status \<noteq> 200 then ret (status, None)
     else (case dec body of Inl e \<Rightarrow> fail e | Inr out \<Rightarrow> ret (200, Some out))))"

definition http_error :: "string \<Rightarrow> string \<Rightarrow> nat \<Rightarrow> error" where
  "http_error who path status = ErrMsg (who @ '' '' @ path @ '': HTTP '' @ string_of_nat status)"

definition pihole_get :: "('w, 'b) pihole_server \<Rightarrow> ('b \<Rightarrow> error + string \<times> bool) \<Rightarrow> string \<Rightarrow>
    ('b \<Rightarrow> error + 'a) \<Rightarrow> string \<Rightarrow> ('w pihole, 'a) act" where
  "pihole_get srv session pw dec path =
     bindA get_sid (\<lambda>sid.
     thenA (if sid = [] then pihole_login srv session pw else ret ())
     (bindA (pihole_doGet srv dec path) (\<lambda>a.
     bindA (if fst a = 401 then thenA (pihole_login srv session pw) (pihole_doGet srv dec path) else ret a) (\<lambda>(status, out).
     case out of
       None \<Rightarrow> fail (http_error ''pihole'' path status)
     | Some v \<Rightarrow> ret v))))"

definition pihole_Close :: "('w, 'b) pihole_server \<Rightarrow> ('w pihole, unit) act" where
  "pihole_Close srv = bindA get_sid (\<lambda>sid. thenA (set_sid [])
     (if sid = [] then ret ()
      else bindA (send srv (DeleteAuth sid)) (\<lambda>(status, body).
        if status \<noteq> 200 \<and> status \<noteq> 204 \<and> status \<noteq> 410
        then fail (ErrMsg (''pihole logout: HTTP '' @ string_of_nat status)) else ret ())))"

section \<open>Pi-hole: rows\<close>

definition pihole_normMAC :: "string \<Rightarrow> string" where
  "pihole_normMAC s = (let m = to_lower (trim_space s) in if mac_re m then m else [])"

record pihole_lease =
  pl_IP :: string
  pl_HWAddr :: string
  pl_Name :: string
  pl_Expires :: int

record lease =
  ls_IP :: string
  ls_MAC :: string
  ls_Hostname :: string
  ls_Expiry :: int

definition pihole_Leases :: "pihole_lease list \<Rightarrow> lease list" where
  "pihole_Leases = List.map_filter (\<lambda>l. let ip = NormIP (pl_IP l); mac = pihole_normMAC (pl_HWAddr l) in
     if ip = [] \<or> mac = [] then None
     else Some \<lparr>ls_IP = ip, ls_MAC = mac, ls_Hostname = trim_space (pl_Name l), ls_Expiry = pl_Expires l\<rparr>)"

definition pihole_Reservations :: "string list \<Rightarrow> entry list" where
  "pihole_Reservations = List.map_filter (\<lambda>h. let parts = split_on CHR '','' h in
     if length parts < 2 then None
     else (let mac = pihole_normMAC (parts ! 0); ip = NormIP (parts ! 1) in
       if mac = [] \<or> ip = [] then None
       else Some \<lparr>en_MAC = mac, en_IP = ip, en_Hostname = (if 3 \<le> length parts then trim_space (parts ! 2) else [])\<rparr>))"

record dns_record =
  dr_IP :: string
  dr_Name :: string

definition pihole_DNSRecords :: "string list \<Rightarrow> dns_record list" where
  "pihole_DNSRecords hosts = concat (map (\<lambda>h. let fs = GoStr.fields h in
     if length fs < 2 then []
     else (let ip = NormIP (fs ! 0) in
       if ip = [] then [] else map (\<lambda>name. \<lparr>dr_IP = ip, dr_Name = name\<rparr>) (tl fs))) hosts)"

definition pihole_DHCPPool :: "bool \<times> string \<times> string \<Rightarrow> range list" where
  "pihole_DHCPPool = (\<lambda>(active, from, upto).
     if \<not> active then [] else (case ParseRange (from @ ''-'' @ upto) of None \<Rightarrow> [] | Some r \<Rightarrow> [r]))"

section \<open>AdGuard Home\<close>

record adguard_lease =
  al_MAC :: string
  al_IP :: string
  al_Hostname :: string

record adguard_body =
  ab_Enabled :: bool
  ab_RangeStart :: string
  ab_RangeEnd :: string
  ab_Leases :: "adguard_lease list"
  ab_StaticLeases :: "adguard_lease list"

record DHCP =
  dh_Enabled :: bool
  dh_Leases :: "entry list"
  dh_Static :: "entry list"
  dh_Pools :: "range list"

definition entries :: "adguard_lease list \<Rightarrow> entry list" where
  "entries = List.map_filter (\<lambda>l. let ip = NormIP (al_IP l); mac = NormMAC (al_MAC l) in
     if ip = [] \<or> mac = [] then None
     else Some \<lparr>en_MAC = mac, en_IP = ip, en_Hostname = trim_space (al_Hostname l)\<rparr>)"

text \<open>The answer is a failure of the transport, or a status with what the body decodes to.\<close>

definition DHCPStatus :: "error + nat \<times> (error + adguard_body) \<Rightarrow> error + DHCP" where
  "DHCPStatus answer = (case answer of
     Inl e \<Rightarrow> Inl e
   | Inr (status, decoded) \<Rightarrow>
       if status \<noteq> 200 then Inl (http_error ''adguard'' ''/control/dhcp/status'' status)
       else (case decoded of
         Inl e \<Rightarrow> Inl e
       | Inr b \<Rightarrow> Inr \<lparr>dh_Enabled = ab_Enabled b, dh_Leases = entries (ab_Leases b), dh_Static = entries (ab_StaticLeases b),
            dh_Pools = (case ParseRange (ab_RangeStart b @ ''-'' @ ab_RangeEnd b) of None \<Rightarrow> [] | Some r \<Rightarrow> [r])\<rparr>))"

section \<open>OPNsense\<close>

record leases =
  le_Backend :: string
  le_Static :: "entry list"
  le_Dynamic :: "entry list"

text \<open>An answer that is not 200, apart from every other failure.\<close>

datatype opn_error = HTTPError string nat | OtherError error

fun skippable :: "opn_error \<Rightarrow> bool" where
  "skippable (HTTPError path status) = (status = 404 \<or> status = 403)"
| "skippable (OtherError e) = False"

text \<open>A decoded row is the text of each of its fields, empty where the field is missing or null.\<close>

type_synonym row = "string \<Rightarrow> string"
type_synonym opn_get = "string \<Rightarrow> opn_error + row list"

definition allRows :: string where "allRows = ''?current=1&rowCount=-1''"

definition opn_entry :: "string \<Rightarrow> string \<Rightarrow> string \<Rightarrow> entry option" where
  "opn_entry mac ip hostname = (let m = NormMAC mac; a = NormIP ip in
     if m = [] \<or> a = [] then None else Some \<lparr>en_MAC = m, en_IP = a, en_Hostname = trim_space hostname\<rparr>)"

definition kea_dynamic :: "row list \<Rightarrow> entry list" where
  "kea_dynamic = List.map_filter (\<lambda>r. if r ''state'' \<noteq> [] \<and> r ''state'' \<noteq> ''0'' then None
     else opn_entry (if r ''hwaddr'' = [] then r ''hw_address'' else r ''hwaddr'') (r ''address'') (r ''hostname''))"

definition keaLeases :: "opn_get \<Rightarrow> opn_error + leases" where
  "keaLeases get = (case get (''/api/kea/leases4/search'' @ allRows) of
     Inl e \<Rightarrow> Inl e
   | Inr rows \<Rightarrow> (case get (''/api/kea/dhcpv4/searchReservation'' @ allRows) of
       Inl e \<Rightarrow> if skippable e then Inr \<lparr>le_Backend = [], le_Static = [], le_Dynamic = kea_dynamic rows\<rparr> else Inl e
     | Inr res \<Rightarrow> Inr \<lparr>le_Backend = [],
         le_Static = List.map_filter (\<lambda>r. opn_entry (r ''hw_address'') (r ''ip_address'') (r ''hostname'')) res,
         le_Dynamic = kea_dynamic rows\<rparr>))"

definition isc_row :: "row \<Rightarrow> leases \<Rightarrow> leases" where
  "isc_row r out = (case opn_entry (r ''mac'') (r ''address'') (r ''hostname'') of
     None \<Rightarrow> out
   | Some e \<Rightarrow> if r ''type'' = ''static'' then out\<lparr>le_Static := le_Static out @ [e]\<rparr>
       else if r ''state'' \<noteq> [] \<and> r ''state'' \<noteq> ''active'' then out
       else out\<lparr>le_Dynamic := le_Dynamic out @ [e]\<rparr>)"

definition iscLeases :: "opn_get \<Rightarrow> opn_error + leases" where
  "iscLeases get = (case get (''/api/dhcpv4/leases/searchLease'' @ allRows) of
     Inl e \<Rightarrow> Inl e | Inr rows \<Rightarrow> Inr (fold isc_row rows \<lparr>le_Backend = [], le_Static = [], le_Dynamic = []\<rparr>))"

definition dnsmasqLeases :: "opn_get \<Rightarrow> opn_error + leases" where
  "dnsmasqLeases get = (case get (''/api/dnsmasq/leases/search'' @ allRows) of
     Inl e \<Rightarrow> Inl e
   | Inr rows \<Rightarrow> Inr \<lparr>le_Backend = [], le_Static = [],
       le_Dynamic = List.map_filter (\<lambda>r. opn_entry (r ''hwaddr'') (r ''address'') (r ''hostname'')) rows\<rparr>)"

definition backends :: "(string \<times> (opn_get \<Rightarrow> opn_error + leases)) list" where
  "backends = [(''kea'', keaLeases), (''isc'', iscLeases), (''dnsmasq'', dnsmasqLeases)]"

definition no_leases :: "string \<Rightarrow> leases" where
  "no_leases b = \<lparr>le_Backend = b, le_Static = [], le_Dynamic = []\<rparr>"

text \<open>The loop: \<open>skip\<close> is the first skipped error, \<open>answered\<close> the first backend that answered.\<close>

fun first_leases :: "opn_get \<Rightarrow> (string \<times> (opn_get \<Rightarrow> opn_error + leases)) list \<Rightarrow> opn_error option \<Rightarrow> string \<Rightarrow>
    opn_error + leases" where
  "first_leases get [] skip answered =
     (if answered \<noteq> [] then Inr (no_leases answered)
      else (case skip of None \<Rightarrow> Inr (no_leases []) | Some e \<Rightarrow> Inl e))"
| "first_leases get ((name, fetch) # bs) skip answered = (case fetch get of
     Inl e \<Rightarrow> if skippable e then first_leases get bs (if skip = None then Some e else skip) answered else Inl e
   | Inr l \<Rightarrow> if 0 < length (le_Static l) + length (le_Dynamic l) then Inr (l\<lparr>le_Backend := name\<rparr>)
       else first_leases get bs skip (if answered = [] then name else answered))"

definition opn_Leases :: "opn_get \<Rightarrow> opn_error + leases" where
  "opn_Leases get = first_leases get backends None []"

definition kea_pools :: "row list \<Rightarrow> range list" where
  "kea_pools rows = concat (map (\<lambda>r. List.map_filter ParseRange
     (fields_func (\<lambda>c. c = CHR 0x0A \<or> c = CHR '','') (r ''pools''))) rows)"

definition dnsmasq_pools :: "row list \<Rightarrow> range list" where
  "dnsmasq_pools = List.map_filter (\<lambda>r. ParseRange (r ''start_addr'' @ ''-'' @ r ''end_addr''))"

definition Pools :: "opn_get \<Rightarrow> string \<Rightarrow> opn_error + range list" where
  "Pools get backend =
     (if backend = ''kea'' then map_sum id kea_pools (get (''/api/kea/dhcpv4/searchSubnet'' @ allRows))
      else if backend = ''dnsmasq'' then map_sum id dnsmasq_pools (get (''/api/dnsmasq/settings/searchRange'' @ allRows))
      else Inr [])"

record arp_entry =
  ar_IP :: string
  ar_MAC :: string
  ar_Expired :: bool

definition ARP :: "opn_get \<Rightarrow> opn_error + arp_entry list" where
  "ARP get = map_sum id (List.map_filter (\<lambda>r. let ip = NormIP (r ''ip''); mac = NormMAC (r ''mac'') in
     if ip = [] \<or> mac = [] then None
     else Some \<lparr>ar_IP = ip, ar_MAC = mac, ar_Expired = (r ''expired'' = ''true'' \<or> r ''expired'' = ''1'')\<rparr>))
     (get ''/api/diagnostics/interface/getArp'')"

section \<open>Sessions are used sparingly\<close>

text \<open>A server that also keeps the requests it got.\<close>

definition traced :: "('w, 'b) pihole_server \<Rightarrow> ('w \<times> pihole_request list, 'b) pihole_server" where
  "traced srv r = (\<lambda>(w, seen). case srv r w of (x, w') \<Rightarrow> (x, (w', seen @ [r])))"

fun with_session :: "pihole_request \<Rightarrow> bool" where
  "with_session (GetPath sid path) = (sid \<noteq> [])"
| "with_session r = True"

definition is_login :: "pihole_request \<Rightarrow> bool" where
  "is_login r \<longleftrightarrow> (\<exists>pw. r = PostAuth pw)"

definition sent :: "('w \<times> pihole_request list) pihole \<Rightarrow> pihole_request list" where
  "sent s = snd (ph_server s)"

text \<open>What an action sent: its requests in this order, whatever came of them.\<close>

lemma send_traced:
  "send (traced srv) r s = (x, s') \<Longrightarrow> sent s' = sent s @ [r] \<and> ph_sid s' = ph_sid s"
  by (auto simp: send_def traced_def sent_def split: prod.splits)

lemma login_traced:
  assumes "pihole_login (traced srv) session pw s = (x, s')"
  shows "sent s' = sent s @ [PostAuth pw] \<and> (x = Inr () \<longrightarrow> ph_sid s' \<noteq> [])"
proof (cases "send (traced srv) (PostAuth pw) s")
  case (Pair r s1)
  then have 1: "sent s1 = sent s @ [PostAuth pw]" by (simp add: send_traced)
  show ?thesis using assms Pair 1
    by (auto simp: pihole_login_def bindA_def set_sid_def sent_def split: sum.splits prod.splits if_splits)
qed

lemma doGet_traced:
  assumes "pihole_doGet (traced srv) dec path s = (x, s')"
  shows "sent s' = sent s @ [GetPath (ph_sid s) path] \<and> ph_sid s' = ph_sid s"
proof (cases "send (traced srv) (GetPath (ph_sid s) path) s")
  case (Pair r s1)
  then have "sent s1 = sent s @ [GetPath (ph_sid s) path] \<and> ph_sid s1 = ph_sid s" by (simp add: send_traced)
  then show ?thesis using assms Pair
    by (auto simp: pihole_doGet_def bindA_def get_sid_def split: sum.splits prod.splits if_splits)
qed

text \<open>
  Whatever the server answers, reading a page of Pi-hole's API sends at most four requests, of
  which at most two log in, and asks for no page without a session.
\<close>

theorem pihole_get_bounded:
  "\<exists>new. sent (snd (pihole_get (traced srv) session pw dec path s)) = sent s @ new \<and> length new \<le> 4 \<and>
     length (filter is_login new) \<le> 2 \<and> list_all with_session new"
proof -
  let ?in = "if ph_sid s = [] then pihole_login (traced srv) session pw else ret ()"
  obtain r1 s1 where 1: "?in s = (r1, s1)" by fastforce
  define new1 where "new1 = (if ph_sid s = [] then [PostAuth pw] else [])"
  have s1: "sent s1 = sent s @ new1 \<and> (r1 = Inr () \<longrightarrow> ph_sid s1 \<noteq> [])"
    using 1 login_traced [of srv session pw s r1 s1] by (cases "ph_sid s = []") (simp_all add: new1_def)
  obtain r2 s2 where 2: "pihole_doGet (traced srv) dec path s1 = (r2, s2)" by fastforce
  have s2: "sent s2 = sent s1 @ [GetPath (ph_sid s1) path]" using doGet_traced [OF 2] by simp
  obtain r3 s3 where 3: "pihole_login (traced srv) session pw s2 = (r3, s3)" by fastforce
  have s3: "sent s3 = sent s2 @ [PostAuth pw] \<and> (r3 = Inr () \<longrightarrow> ph_sid s3 \<noteq> [])" using login_traced [OF 3] .
  obtain r4 s4 where 4: "pihole_doGet (traced srv) dec path s3 = (r4, s4)" by fastforce
  have s4: "sent s4 = sent s3 @ [GetPath (ph_sid s3) path]" using doGet_traced [OF 4] by simp
  have run: "snd (pihole_get (traced srv) session pw dec path s) = (case r1 of Inl _ \<Rightarrow> s1 | Inr _ \<Rightarrow>
      (case r2 of Inl _ \<Rightarrow> s2 | Inr a \<Rightarrow> if fst a \<noteq> 401 then s2 else (case r3 of Inl _ \<Rightarrow> s3 | Inr _ \<Rightarrow> s4)))"
    by (cases r1; cases r2; cases r3; cases r4)
      (simp_all add: pihole_get_def bindA_def thenA_def get_sid_def 1 2 3 4 split: prod.split option.split)
  have "\<exists>new. sent t = sent s @ new \<and> length new \<le> 4 \<and> length (filter is_login new) \<le> 2 \<and> list_all with_session new"
    if "t = s1 \<or> r1 = Inr () \<and> t = s2 \<or> r1 = Inr () \<and> t = s3 \<or> r1 = Inr () \<and> r3 = Inr () \<and> t = s4" for t
    using that s1 s2 s3 s4 unfolding new1_def by (auto simp: is_login_def)
  note shape = this
  show ?thesis unfolding run
    by (rule shape) (cases r1; cases r2; cases r3; simp)
qed

section \<open>Which backend counts\<close>

fun decisive :: "string \<times> (opn_error + leases) \<Rightarrow> bool" where
  "decisive (b, Inl e) = (\<not> skippable e)"
| "decisive (b, Inr l) = (le_Static l \<noteq> [] \<or> le_Dynamic l \<noteq> [])"

text \<open>
  Of the three DHCP backends, asked in this order, the first that has leases or fails for good
  decides; when none does, the answer is empty, under the name of the first that answered, and it is
  the first failure when none is there for this client.
\<close>

theorem opn_Leases_first_decisive:
  "let asked = map (\<lambda>(b, fetch). (b, fetch get)) backends in
   opn_Leases get = (case List.find decisive asked of
       Some (b, Inl e) \<Rightarrow> Inl e
     | Some (b, Inr l) \<Rightarrow> Inr (l\<lparr>le_Backend := b\<rparr>)
     | None \<Rightarrow> (case List.find (isl \<circ> snd) asked of
         Some (b, r) \<Rightarrow> (case List.find (\<lambda>a. \<not> isl (snd a)) asked of Some (b, _) \<Rightarrow> Inr (no_leases b) | None \<Rightarrow> r)
       | None \<Rightarrow> Inr (no_leases ''kea'')))"
  by (simp add: opn_Leases_def backends_def Let_def split: sum.split)

end
