(* ===== verification/Sync_DHCP.thy ===== *)
theory Sync_DHCP
  imports DHCP_Clients Store_Upstream
begin

text \<open>
  internal/pihole/sync.go, internal/adguard/sync.go and internal/opnsense/sync.go: a run of each DHCP
  integration over what its client read, which are arguments.
\<close>

section \<open>Pi-hole\<close>

record pihole_stats =
  ps_Leases :: nat
  ps_Reservations :: nat
  ps_DNSRecords :: nat
  ps_Created :: nat

definition lease_entry :: "lease \<Rightarrow> entry" where
  "lease_entry l = \<lparr>en_MAC = ls_MAC l, en_IP = ls_IP l, en_Hostname = ls_Hostname l\<rparr>"

definition apply_dns :: "subnet list \<Rightarrow> dns_record \<Rightarrow> ('s db_scheme, unit) act" where
  "apply_dns subnets rec = (case SubnetFor subnets (dr_IP rec) of
     None \<Rightarrow> ret ()
   | Some sn \<Rightarrow> bindA (FindIfaceByIP sn (dr_IP rec)) (\<lambda>f. case f of
       None \<Rightarrow> ret ()
     | Some f \<Rightarrow> thenA (SetIfaceHostnameIfEmpty (if_ID f) (dr_Name rec))
         (SetCustomField (if_DeviceID f) ''pihole_dns'' (dr_Name rec))))"

text \<open>What a source could not say, the run does without.\<close>

definition bonus_pools :: "string \<Rightarrow> subnet list \<Rightarrow> 'e + range list \<Rightarrow> ('s db_scheme, unit) act" where
  "bonus_pools src subnets pools = (case pools of
     Inl _ \<Rightarrow> ret () | Inr ps \<Rightarrow> thenA (ApplyPools src subnets ps) (ret ()))"

definition pihole_RunOnce :: "error + entry list \<Rightarrow> error + lease list \<Rightarrow> error + dns_record list \<Rightarrow> error + range list \<Rightarrow>
    time \<Rightarrow> ('s svc_scheme, pihole_stats) act" where
  "pihole_RunOnce reservations leases dns pools now = (case reservations of Inl e \<Rightarrow> fail e | Inr static \<Rightarrow>
     (case leases of Inl e \<Rightarrow> fail e | Inr dynamic \<Rightarrow>
     (case dns of Inl e \<Rightarrow> fail e | Inr recs \<Rightarrow>
       bindA ListSubnets (\<lambda>subnets.
       bindA (Apply ''pihole'' now subnets static (map lease_entry dynamic)) (\<lambda>created.
       thenA (bonus_pools ''pihole'' subnets pools)
       (thenA (forA recs (apply_dns subnets))
       (ret \<lparr>ps_Leases = length dynamic, ps_Reservations = length static, ps_DNSRecords = length recs,
             ps_Created = created\<rparr>)))))))"

definition pihole_Status :: "pihole_stats \<Rightarrow> nat \<times> string" where
  "pihole_Status st = (ps_Leases st, string_of_nat (ps_Leases st) @ '' leases, '' @ string_of_nat (ps_Created st) @ '' new'')"

section \<open>AdGuard Home\<close>

record adguard_stats =
  as_Disabled :: bool
  as_Leases :: nat
  as_Static :: nat
  as_Created :: nat

definition adguard_RunOnce :: "error + DHCP \<Rightarrow> time \<Rightarrow> ('s svc_scheme, adguard_stats) act" where
  "adguard_RunOnce answer now = (case answer of
     Inl e \<Rightarrow> fail e
   | Inr dhcp \<Rightarrow>
       if \<not> dh_Enabled dhcp then ret \<lparr>as_Disabled = True, as_Leases = 0, as_Static = 0, as_Created = 0\<rparr>
       else bindA ListSubnets (\<lambda>subnets.
         bindA (Apply ''adguard'' now subnets (dh_Static dhcp) (dh_Leases dhcp)) (\<lambda>created.
         thenA (ApplyPools ''adguard'' subnets (dh_Pools dhcp))
         (ret \<lparr>as_Disabled = False, as_Leases = length (dh_Leases dhcp), as_Static = length (dh_Static dhcp),
               as_Created = created\<rparr>))))"

definition adguard_Status :: "adguard_stats \<Rightarrow> nat \<times> string" where
  "adguard_Status st = (if as_Disabled st then (0, ''DHCP server disabled in AdGuard Home'')
     else (as_Leases st, string_of_nat (as_Leases st) @ '' leases, '' @ string_of_nat (as_Static st) @ '' static, '' @
       string_of_nat (as_Created st) @ '' new''))"

section \<open>OPNsense\<close>

record opn_stats =
  os_Backend :: string
  os_Leases :: nat
  os_Static :: nat
  os_Created :: nat
  os_MACsFilled :: nat
  os_ARPUnavailable :: bool

definition ips_of_mac :: "arp_entry list \<Rightarrow> string \<Rightarrow> string list" where
  "ips_of_mac arp mac = remdups (map ar_IP (filter (\<lambda>e. \<not> ar_Expired e \<and> ar_MAC e = mac) arp))"

definition usable_arp :: "arp_entry list \<Rightarrow> arp_entry \<Rightarrow> bool" where
  "usable_arp arp e \<longleftrightarrow> \<not> ar_Expired e \<and> length (ips_of_mac arp (ar_MAC e)) = 1 \<and>
     ar_MAC e \<noteq> ''ff:ff:ff:ff:ff:ff'' \<and> ar_MAC e \<noteq> ''00:00:00:00:00:00''"

text \<open>\<open>holders\<close> keeps the rows of the subnets read so far.\<close>

type_synonym holders = "(int \<times> subnet_iface_ip list) list"

definition holders_of :: "int \<Rightarrow> holders \<Rightarrow> ('s db_scheme, holders \<times> subnet_iface_ip list) act" where
  "holders_of sn hs = (case map_of hs sn of
     Some rows \<Rightarrow> ret (hs, rows)
   | None \<Rightarrow> bindA (ListSubnetIfaceIPs sn) (\<lambda>rows. ret ((sn, rows) # hs, rows)))"

definition holder_filled :: "int \<Rightarrow> string \<Rightarrow> string \<Rightarrow> holders \<Rightarrow> holders" where
  "holder_filled sn ip mac = map (\<lambda>(k, rows). (k, if k = sn
     then map (\<lambda>r. if si_IP r = ip then r\<lparr>si_MAC := Some mac\<rparr> else r) rows else rows))"

definition fill_one :: "subnet list \<Rightarrow> arp_entry list \<Rightarrow> arp_entry \<Rightarrow> holders \<times> nat \<Rightarrow> ('s db_scheme, holders \<times> nat) act" where
  "fill_one subnets arp e = (\<lambda>(hs, filled).
     if \<not> usable_arp arp e then ret (hs, filled)
     else (case SubnetFor subnets (ar_IP e) of
       None \<Rightarrow> ret (hs, filled)
     | Some sn \<Rightarrow> bindA (holders_of sn hs) (\<lambda>(hs, rows).
         case filter (\<lambda>r. si_IP r = ar_IP e) rows of
           [h] \<Rightarrow> if si_MAC h \<noteq> None \<and> si_MAC h \<noteq> Some [] then ret (hs, filled)
                  else bindA (SetIfaceMACIfEmpty (si_IfaceID h) (ar_MAC e)) (\<lambda>ok.
                    if ok then ret (holder_filled sn (ar_IP e) (ar_MAC e) hs, filled + 1) else ret (hs, filled))
         | _ \<Rightarrow> ret (hs, filled))))"

definition fillMACs :: "subnet list \<Rightarrow> arp_entry list \<Rightarrow> ('s db_scheme, nat) act" where
  "fillMACs subnets arp = bindA (foldA (fill_one subnets arp) arp ([], 0)) (\<lambda>(hs, filled). ret filled)"

definition opn_RunOnce :: "error + leases \<Rightarrow> 'e + arp_entry list \<Rightarrow> (string \<Rightarrow> 'f + range list) \<Rightarrow> time \<Rightarrow> ('s svc_scheme, opn_stats) act" where
  "opn_RunOnce read arp pools now = (case read of
     Inl e \<Rightarrow> fail e
   | Inr ls \<Rightarrow>
       bindA ListSubnets (\<lambda>subnets.
       bindA (case arp of Inl _ \<Rightarrow> ret (0, True)
              | Inr es \<Rightarrow> bindA (fillMACs subnets es) (\<lambda>n. ret (n, False))) (\<lambda>(filled, unavailable).
       bindA (Apply ''opnsense'' now subnets (le_Static ls) (le_Dynamic ls)) (\<lambda>created.
       thenA (bonus_pools ''opnsense'' subnets (pools (le_Backend ls)))
       (ret \<lparr>os_Backend = le_Backend ls, os_Leases = length (le_Dynamic ls), os_Static = length (le_Static ls),
             os_Created = created, os_MACsFilled = filled, os_ARPUnavailable = unavailable\<rparr>)))))"

definition opn_Status :: "opn_stats \<Rightarrow> nat \<times> string" where
  "opn_Status st = (os_Leases st,
     (if os_Backend st \<noteq> [] then os_Backend st @ '': '' else []) @
     string_of_nat (os_Leases st) @ '' leases, '' @ string_of_nat (os_Static st) @ '' static, '' @
     string_of_nat (os_Created st) @ '' new'' @
     (if 0 < os_MACsFilled st then '', '' @ string_of_nat (os_MACsFilled st) @ '' MACs from ARP'' else []) @
     (if os_ARPUnavailable st then '', ARP table unavailable'' else []))"

section \<open>A run takes nothing from anyone\<close>

text \<open>An interface keeps its device, and its MAC and host name where it has one.\<close>

definition iface_filled :: "iface \<Rightarrow> iface \<Rightarrow> bool" where
  "iface_filled f g \<longleftrightarrow> if_ID g = if_ID f \<and> if_DeviceID g = if_DeviceID f \<and> (if_MAC g = if_MAC f \<or> no_mac f) \<and>
     (if_Hostname g = if_Hostname f \<or> if_Hostname f \<in> {None, Some []})"

text \<open>A subnet keeps everything but a pool that no one else owns.\<close>

definition pool_kept :: "string \<Rightarrow> subnet \<Rightarrow> subnet \<Rightarrow> bool" where
  "pool_kept src a b \<longleftrightarrow> b = a \<or> (sn_DHCPPoolSource a \<in> {[], src} \<and>
     (\<exists>st en. b = a\<lparr>sn_DHCPStart := st, sn_DHCPEnd := en, sn_DHCPPoolSource := src\<rparr>))"

definition own_fields :: "tables \<Rightarrow> custom_field list" where
  "own_fields t = filter (\<lambda>c. cf_Key c \<noteq> ''pihole_dns'') (t_field t)"

definition takes_nothing :: "string \<Rightarrow> tables \<Rightarrow> tables \<Rightarrow> bool" where
  "takes_nothing src t t' \<longleftrightarrow>
     (\<exists>ds. t_device t' = t_device t @ ds \<and> list_all (\<lambda>d. dev_Source d = src) ds) \<and>
     (\<exists>fs new. t_iface t' = fs @ new \<and> list_all2 iface_filled (t_iface t) fs) \<and>
     (\<exists>es. t_event t' = t_event t @ es) \<and> set (static_ips t) \<subseteq> set (static_ips t') \<and>
     list_all2 (pool_kept src) (t_subnet t) (t_subnet t') \<and> own_fields t' = own_fields t \<and>
     other_tables (t'\<lparr>t_subnet := [], t_field := []\<rparr>) = other_tables (t\<lparr>t_subnet := [], t_field := []\<rparr>) \<and>
     t_status t' = t_status t \<and> t_avail t' = t_avail t"

lemma iface_filled_refl: "list_all2 iface_filled fs fs"
  by (rule list_all2_refl) (simp add: iface_filled_def)

lemma pool_kept_refl: "list_all2 (pool_kept src) sns sns"
  by (rule list_all2_refl) (simp add: pool_kept_def)

lemma takes_nothing_refl: "takes_nothing src t t"
  using iface_filled_refl pool_kept_refl by (auto simp: takes_nothing_def)

lemma iface_filled_trans: "iface_filled f g \<Longrightarrow> iface_filled g h \<Longrightarrow> iface_filled f h"
  by (auto simp: iface_filled_def no_mac_def)

lemma pool_kept_trans: "pool_kept src a b \<Longrightarrow> pool_kept src b c \<Longrightarrow> pool_kept src a c"
  by (cases a; cases b; cases c) (auto simp: pool_kept_def)

lemma filled_list_trans:
  assumes "u = fs @ new" and "list_all2 iface_filled t fs" and "v = gs @ new'" and "list_all2 iface_filled u gs"
  shows "\<exists>hs new. v = hs @ new \<and> list_all2 iface_filled t hs"
proof -
  obtain gs1 gs2 where g: "gs = gs1 @ gs2" "list_all2 iface_filled fs gs1" using assms by (auto simp: list_all2_append1)
  then have "list_all2 iface_filled t gs1" using assms(2) iface_filled_trans list_all2_trans by blast
  then show ?thesis using assms(3) g(1) by auto
qed

lemma takes_nothing_trans:
  assumes "takes_nothing src t u" and "takes_nothing src u v"
  shows "takes_nothing src t v"
proof -
  obtain fs new gs new' where "t_iface u = fs @ new" "list_all2 iface_filled (t_iface t) fs"
    "t_iface v = gs @ new'" "list_all2 iface_filled (t_iface u) gs" using assms by (auto simp: takes_nothing_def)
  then have "\<exists>hs new. t_iface v = hs @ new \<and> list_all2 iface_filled (t_iface t) hs" by (rule filled_list_trans)
  moreover have "\<exists>ds. t_device v = t_device t @ ds \<and> list_all (\<lambda>d. dev_Source d = src) ds"
    using assms by (auto simp: takes_nothing_def)
  moreover have "list_all2 (pool_kept src) (t_subnet t) (t_subnet v)"
    by (rule list_all2_trans [OF pool_kept_trans, where bs = "t_subnet u"]) (use assms in \<open>auto simp: takes_nothing_def\<close>)
  moreover have "\<exists>es. t_event v = t_event t @ es" using assms by (auto simp: takes_nothing_def)
  ultimately show ?thesis using assms by (auto simp: takes_nothing_def)
qed

lemma filled_only: "list_all2 iface_filled fs gs \<Longrightarrow> \<exists>hs. (\<exists>new. gs = hs @ new) \<and> list_all2 iface_filled fs hs"
  by (intro exI [of _ gs] conjI exI [of _ "[]"]) simp_all

lemma adds_takes_nothing:
  assumes "adds_only src t t'"
  shows "takes_nothing src t t'"
proof -
  obtain fs new where f: "t_iface t' = fs @ new" "list_all2 iface_kept (t_iface t) fs"
    using assms by (auto simp: adds_only_def)
  have "list_all2 iface_filled (t_iface t) fs"
    using f(2) by (rule list_all2_mono) (simp add: iface_kept_def iface_filled_def)
  then have "\<exists>fs new. t_iface t' = fs @ new \<and> list_all2 iface_filled (t_iface t) fs" using f(1) by blast
  moreover have "t_subnet t' = t_subnet t \<and> own_fields t' = own_fields t \<and>
      other_tables (t'\<lparr>t_subnet := [], t_field := []\<rparr>) = other_tables (t\<lparr>t_subnet := [], t_field := []\<rparr>)"
    using assms by (simp add: adds_only_def other_tables_def own_fields_def)
  ultimately show ?thesis using assms pool_kept_refl [of src "t_subnet t"]
    by (simp add: adds_only_def takes_nothing_def)
qed

abbreviation harmless :: "string \<Rightarrow> tables \<Rightarrow> ('s db_scheme, 'a) act \<Rightarrow> bool" where
  "harmless src t0 m \<equiv> keeps (\<lambda>s. takes_nothing src t0 (tabs s)) m"

lemma harmless_exec: "(\<And>t. takes_nothing src t (snd (f t))) \<Longrightarrow> harmless src t0 (exec f)"
  by (rule keeps_exec [where J = "takes_nothing src t0"]) (use takes_nothing_trans in blast)

lemma harmless_stmt: "(\<And>t a t'. f t = Inr (a, t') \<Longrightarrow> takes_nothing src t t') \<Longrightarrow> harmless src t0 (stmt f)"
  by (rule keeps_stmt [where J = "takes_nothing src t0"]) (use takes_nothing_trans in blast)

lemmas harmless_read =
  keeps_query [where J = "takes_nothing src t0" for src t0] keeps_query_row [where J = "takes_nothing src t0" for src t0]

lemma only_adds_harmless:
  fixes m :: "('s db_scheme, 'a) act"
  assumes "\<And>t. only_adds src t m"
  shows "harmless src t0 m"
proof (rule keepsI)
  fix s :: "'s db_scheme" assume "takes_nothing src t0 (tabs s)"
  moreover have "adds_only src (tabs s) (tabs (snd (m s)))"
    by (rule keepsD [OF assms]) (rule adds_only_refl)
  ultimately show "takes_nothing src t0 (tabs (snd (m s)))"
    using adds_takes_nothing takes_nothing_trans by blast
qed

lemma Apply_harmless: "harmless src t0 (Apply src now subnets static dynamic)"
  unfolding Apply_def apply_static_def apply_dynamic_def
  by (rule only_adds_harmless) (intro pres_intros upsert_adds FindIface_adds hostname_adds)

lemma pools_harmless: "harmless src t0 (ApplyPools src subnets ranges)"
proof -
  have "list_all2 (pool_kept src) sns (upd_where (pool_hit i st en src)
      (\<lambda>s. s\<lparr>sn_DHCPStart := st, sn_DHCPEnd := en, sn_DHCPPoolSource := src\<rparr>) sns)" for i st en sns
    by (induction sns) (auto simp: upd_where_def pool_kept_def pool_hit_def)
  then have set: "harmless src t0 (SetDHCPPoolFrom i st en src)" for i st en
    unfolding SetDHCPPoolFrom_def
    by (intro pres_intros harmless_exec) (auto intro!: filled_only iface_filled_refl simp: takes_nothing_def other_tables_def own_fields_def static_ips_def)
  show ?thesis unfolding ApplyPools_def
    by (intro keeps_foldA, simp split: prod.split) (intro allI impI pres_intros set)
qed

lemma bonus_harmless: "harmless src t0 (bonus_pools src subnets pools)"
  unfolding bonus_pools_def by (intro pres_intros pools_harmless)

lemma subnets_harmless: "harmless src t0 ListSubnets"
  unfolding ListSubnets_def by (intro pres_intros harmless_read)

lemma dns_harmless: "harmless src t0 (apply_dns subnets rec)"
proof -
  have "filter (\<lambda>c. cf_Key c \<noteq> ''pihole_dns'') (upd_where (\<lambda>c. cf_DeviceID c = dev \<and> cf_Key c = ''pihole_dns'')
      (\<lambda>c. c\<lparr>cf_Value := v\<rparr>) cs) = filter (\<lambda>c. cf_Key c \<noteq> ''pihole_dns'') cs" for cs dev v
    by (induction cs) (auto simp: upd_where_def)
  then have "harmless src t0 (SetCustomField dev ''pihole_dns'' v)" for dev v
    unfolding SetCustomField_def
    by (intro harmless_stmt) (auto intro!: filled_only iface_filled_refl pool_kept_refl simp: Let_def takes_nothing_def other_tables_def own_fields_def static_ips_def split: if_splits)
  note set = this
  have found: "harmless src t0 (FindIfaceByIP sn ip)" for sn ip
    unfolding FindIfaceByIP_def find_row_def
    by (intro pres_intros harmless_read) (auto intro: pres_intros split: error.splits)
  show ?thesis unfolding apply_dns_def
    by (intro pres_intros found set only_adds_harmless hostname_adds)
qed

lemma keeps_list: "keeps I m \<Longrightarrow> (\<And>x xs. keeps I (f x xs)) \<Longrightarrow> keeps I (case v of [] \<Rightarrow> m | x # xs \<Rightarrow> f x xs)"
  by (cases v) simp_all

lemma fill_harmless: "harmless src t0 (fillMACs subnets arp)"
proof -
  have "list_all2 iface_filled fs (upd_where (\<lambda>f. if_ID f = i \<and> no_mac f \<and> Q) (\<lambda>f. f\<lparr>if_MAC := Some mac\<rparr>) fs)" for fs i mac Q
    by (induction fs) (auto simp: upd_where_def iface_filled_def)
  then have set: "harmless src t0 (SetIfaceMACIfEmpty i mac)" for i mac
    unfolding SetIfaceMACIfEmpty_def
    by (intro pres_intros harmless_exec)
      (auto intro!: filled_only pool_kept_refl simp: Let_def takes_nothing_def other_tables_def own_fields_def static_ips_def)
  have rows: "harmless src t0 (ListSubnetIfaceIPs sn)" for sn
    unfolding ListSubnetIfaceIPs_def by (intro pres_intros harmless_read)
  show ?thesis unfolding fillMACs_def fill_one_def holders_of_def
    by (intro pres_intros keeps_list set rows)
qed


end
