(* ===== verification/Web_Limiter.thy ===== *)
theory Web_Limiter
  imports Netip Prelude "HOL-Library.AList"
begin

text \<open>
  internal/web/auth.go, the rate limiter of logins, password changes and API tokens: an attempt is
  reserved before it is checked and settled afterwards, and failures count over a sliding window.
\<close>

section \<open>The limiter\<close>

record bucket =
  bk_fails :: "time list"
  bk_pending :: int

definition no_attempts :: bucket where
  "no_attempts = \<lparr>bk_fails = [], bk_pending = 0\<rparr>"

definition prune :: "time \<Rightarrow> bucket \<Rightarrow> bucket" where
  "prune cutoff b = b\<lparr>bk_fails := filter (\<lambda>t. cutoff < t) (bk_fails b)\<rparr>"

record limiter =
  rl_limit :: int
  rl_window :: int
  rl_buckets :: "(string \<times> bucket) list"

definition newRateLimiter :: "int \<Rightarrow> int \<Rightarrow> limiter" where
  "newRateLimiter limit window = \<lparr>rl_limit = limit, rl_window = window, rl_buckets = []\<rparr>"

definition max_buckets :: nat where "max_buckets = 1024"

text \<open>The sweep over all keys, which drops those without failures and attempts.\<close>

definition sweep_buckets :: "time \<Rightarrow> (string \<times> bucket) list \<Rightarrow> (string \<times> bucket) list" where
  "sweep_buckets cutoff bs =
     filter (\<lambda>(k, b). \<not> (bk_fails b = [] \<and> bk_pending b = 0)) (map (\<lambda>(k, b). (k, prune cutoff b)) bs)"

definition bucket_of :: "(string \<times> bucket) list \<Rightarrow> string \<Rightarrow> bucket" where
  "bucket_of bs key = (case map_of bs key of None \<Rightarrow> no_attempts | Some b \<Rightarrow> b)"

definition reserve :: "string \<Rightarrow> time \<Rightarrow> limiter \<Rightarrow> bool \<times> limiter" where
  "reserve key now rl =
     (let cutoff = now - rl_window rl;
          bs = (if max_buckets < length (rl_buckets rl) then sweep_buckets cutoff (rl_buckets rl) else rl_buckets rl);
          b = prune cutoff (bucket_of bs key)
      in if rl_limit rl \<le> int (length (bk_fails b)) + bk_pending b
         then (False, rl\<lparr>rl_buckets := AList.update key b bs\<rparr>)
         else (True, rl\<lparr>rl_buckets := AList.update key (b\<lparr>bk_pending := bk_pending b + 1\<rparr>) bs\<rparr>))"

definition settle :: "string \<Rightarrow> bool \<Rightarrow> time \<Rightarrow> limiter \<Rightarrow> limiter" where
  "settle key failed now rl =
     (case map_of (rl_buckets rl) key of
        None \<Rightarrow> rl
      | Some b \<Rightarrow>
          (let b = b\<lparr>bk_pending := bk_pending b - 1, bk_fails := bk_fails b @ (if failed then [now] else [])\<rparr> in
           if bk_fails b = [] \<and> bk_pending b \<le> 0
           then rl\<lparr>rl_buckets := AList.delete key (rl_buckets rl)\<rparr>
           else rl\<lparr>rl_buckets := AList.update key b (rl_buckets rl)\<rparr>))"

section \<open>What a bucket holds after an operation\<close>

definition keyed :: "limiter \<Rightarrow> bool" where
  "keyed rl \<longleftrightarrow> distinct (map fst (rl_buckets rl))"

abbreviation lookup :: "limiter \<Rightarrow> string \<Rightarrow> bucket" where
  "lookup rl key \<equiv> bucket_of (rl_buckets rl) key"

lemma map_of_filter_key:
  "distinct (map fst bs) \<Longrightarrow> map_of (filter (\<lambda>(k, b). P b) bs) key = (case map_of bs key of None \<Rightarrow> None | Some b \<Rightarrow> if P b then Some b else None)"
proof (induction bs)
  case (Cons x bs)
  moreover have "map_of bs key = None" if "key \<notin> fst ` set bs" using that by (simp add: map_of_eq_None_iff)
  ultimately show ?case by (cases x) (auto split: option.splits)
qed simp

lemma keys_kept: "map fst (map (\<lambda>(k, b). (k, f b)) bs) = map fst bs"
  by (induction bs) auto

lemma sweep_lookup:
  "distinct (map fst bs) \<Longrightarrow> prune cutoff (bucket_of (sweep_buckets cutoff bs) key) = prune cutoff (bucket_of bs key)"
proof -
  assume d: "distinct (map fst bs)"
  let ?m = "map (\<lambda>(k, b). (k, prune cutoff b)) bs"
  have "distinct (map fst ?m)" using d by (simp only: keys_kept)
  moreover have "map_of ?m key = map_option (prune cutoff) (map_of bs key)" by (simp add: map_of_map)
  ultimately have "map_of (sweep_buckets cutoff bs) key = (case map_option (prune cutoff) (map_of bs key) of None \<Rightarrow> None
      | Some b \<Rightarrow> if \<not> (bk_fails b = [] \<and> bk_pending b = 0) then Some b else None)"
    unfolding sweep_buckets_def using map_of_filter_key [of ?m "\<lambda>b. \<not> (bk_fails b = [] \<and> bk_pending b = 0)" key] by simp
  then show ?thesis by (cases "map_of bs key") (auto simp: bucket_of_def no_attempts_def prune_def)
qed

lemma sweep_keyed: "distinct (map fst bs) \<Longrightarrow> distinct (map fst (sweep_buckets cutoff bs))"
  unfolding sweep_buckets_def by (rule distinct_map_filterI) (simp only: keys_kept)

text \<open>A sweep leaves every bucket as pruning would, or as it was.\<close>

lemma swept:
  assumes "keyed rl" and "bs = (if c then sweep_buckets cutoff (rl_buckets rl) else rl_buckets rl)"
  shows "bucket_of bs key = lookup rl key \<or> bucket_of bs key = prune cutoff (lookup rl key)"
    and "prune cutoff (bucket_of bs key) = prune cutoff (lookup rl key)" and "distinct (map fst bs)"
proof -
  show d: "distinct (map fst bs)" using assms sweep_keyed by (auto simp: keyed_def)
  show p: "prune cutoff (bucket_of bs key) = prune cutoff (lookup rl key)"
    using assms sweep_lookup by (auto simp: keyed_def)
  show "bucket_of bs key = lookup rl key \<or> bucket_of bs key = prune cutoff (lookup rl key)"
  proof (cases c)
    case True
    have "prune cutoff b = b" if "(k, b) \<in> set (sweep_buckets cutoff xs)" for k b xs
      using that by (auto simp: sweep_buckets_def prune_def)
    then have "prune cutoff (bucket_of bs key) = bucket_of bs key"
      using assms(2) True by (auto simp: bucket_of_def no_attempts_def prune_def dest!: map_of_SomeD split: option.splits)
    then show ?thesis using p by simp
  qed (use assms in simp)
qed

lemma lookup_update: "bucket_of (AList.update k b bs) key = (if key = k then b else bucket_of bs key)"
  by (simp add: bucket_of_def update_conv')

lemma reserve_result:
  assumes "keyed rl" and "reserve key now rl = (ok, rl')"
  defines "b \<equiv> prune (now - rl_window rl) (lookup rl key)"
  shows "keyed rl' \<and> rl_limit rl' = rl_limit rl \<and> rl_window rl' = rl_window rl \<and>
    ok = (int (length (bk_fails b)) + bk_pending b < rl_limit rl) \<and>
    lookup rl' key = (if ok then b\<lparr>bk_pending := bk_pending b + 1\<rparr> else b) \<and>
    (\<forall>k. k \<noteq> key \<longrightarrow> lookup rl' k = lookup rl k \<or> lookup rl' k = prune (now - rl_window rl) (lookup rl k))"
proof -
  define bs where "bs = (if max_buckets < length (rl_buckets rl) then sweep_buckets (now - rl_window rl) (rl_buckets rl)
    else rl_buckets rl)"
  have d: "distinct (map fst bs)" and p: "prune (now - rl_window rl) (bucket_of bs key) = b"
    and o: "\<forall>k. bucket_of bs k = lookup rl k \<or> bucket_of bs k = prune (now - rl_window rl) (lookup rl k)"
    using swept [OF assms(1) bs_def] unfolding b_def by auto
  let ?new = "\<lambda>c. rl\<lparr>rl_buckets := AList.update key c bs\<rparr>"
  have r: "reserve key now rl = (if rl_limit rl \<le> int (length (bk_fails b)) + bk_pending b then (False, ?new b)
      else (True, ?new (b\<lparr>bk_pending := bk_pending b + 1\<rparr>)))"
    by (simp only: reserve_def Let_def bs_def [symmetric] p)
  have "keyed (?new c)" "lookup (?new c) k = (if k = key then c else bucket_of bs k)" for c k
    using d distinct_update [of bs key c] by (simp_all add: keyed_def lookup_update)
  then show ?thesis using assms(2) o unfolding r by (auto split: if_splits)
qed

lemma settle_result:
  assumes "keyed rl" and "0 < bk_pending (lookup rl key)"
  defines "b \<equiv> lookup rl key"
  shows "keyed (settle key failed now rl) \<and> rl_limit (settle key failed now rl) = rl_limit rl \<and>
    rl_window (settle key failed now rl) = rl_window rl \<and>
    lookup (settle key failed now rl) key = b\<lparr>bk_pending := bk_pending b - 1, bk_fails := bk_fails b @ (if failed then [now] else [])\<rparr> \<and>
    (\<forall>k. k \<noteq> key \<longrightarrow> lookup (settle key failed now rl) k = lookup rl k)"
proof -
  let ?b = "b\<lparr>bk_pending := bk_pending b - 1, bk_fails := bk_fails b @ (if failed then [now] else [])\<rparr>"
  have m: "map_of (rl_buckets rl) key = Some b"
    using assms(2) unfolding b_def by (auto simp: bucket_of_def no_attempts_def split: option.splits)
  have gone: "?b = no_attempts" if "bk_fails ?b = []" "bk_pending ?b \<le> 0"
    using that assms(2) unfolding b_def no_attempts_def by simp
  have del: "bucket_of (AList.delete key (rl_buckets rl)) k = (if k = key then no_attempts else lookup rl k)" for k
    by (simp add: bucket_of_def delete_conv')
  have "distinct (map fst (AList.delete key (rl_buckets rl)))" "distinct (map fst (AList.update key ?b (rl_buckets rl)))"
    using assms(1) by (simp_all add: keyed_def distinct_delete distinct_update)
  then show ?thesis using gone del lookup_update [of key ?b "rl_buckets rl"] m
    by (auto simp: settle_def Let_def keyed_def split: if_splits)
qed

section \<open>What its users rely on\<close>

text \<open>
  The contract between a limiter and the handlers: a granted attempt is in flight until it is
  settled, a refused one never is.
\<close>

locale attempt_limiter =
  fixes take_one :: "string \<Rightarrow> time \<Rightarrow> 'l \<Rightarrow> bool \<times> 'l"
    and give_back :: "string \<Rightarrow> bool \<Rightarrow> time \<Rightarrow> 'l \<Rightarrow> 'l"
    and ok :: "'l \<Rightarrow> bool"
    and flight :: "'l \<Rightarrow> string \<Rightarrow> int"
  assumes taken: "ok l \<Longrightarrow> take_one k t l = (granted, l') \<Longrightarrow>
      ok l' \<and> flight l' = (if granted then (flight l)(k := flight l k + 1) else flight l)"
    and given: "ok l \<Longrightarrow> 0 < flight l k \<Longrightarrow> ok (give_back k f t l) \<and> flight (give_back k f t l) = (flight l)(k := flight l k - 1)"
    and counted: "ok l \<Longrightarrow> 0 \<le> flight l k"
begin

lemma refused: "ok l \<Longrightarrow> take_one k t l = (False, l') \<Longrightarrow> ok l' \<and> flight l' = flight l"
  using taken by fastforce

lemma paired: "ok l \<Longrightarrow> take_one k t l = (True, l') \<Longrightarrow> ok (give_back k f u l') \<and> flight (give_back k f u l') = flight l"
proof -
  assume a: "ok l" "take_one k t l = (True, l')"
  then have l': "ok l'" "flight l' = (flight l)(k := flight l k + 1)" using taken by fastforce+
  then have "0 < flight l' k" using counted [OF a(1), of k] by simp
  then show ?thesis using given [OF l'(1), of k] l'(2) by simp
qed

end

definition limiter_ok :: "limiter \<Rightarrow> bool" where
  "limiter_ok rl \<longleftrightarrow> keyed rl \<and> (\<forall>k. 0 \<le> bk_pending (lookup rl k))"

definition flights :: "limiter \<Rightarrow> string \<Rightarrow> int" where
  "flights rl k = bk_pending (lookup rl k)"

interpretation counting: attempt_limiter reserve settle limiter_ok flights
proof
  fix l l' :: limiter and k t granted
  assume a: "limiter_ok l" "reserve k t l = (granted, l')"
  have kd: "keyed l" using a(1) by (simp add: limiter_ok_def)
  have p: "bk_pending (prune c b) = bk_pending b" for c b by (simp add: prune_def)
  have "flights l' j = (if granted \<and> j = k then flights l k + 1 else flights l j)" for j
    using reserve_result [OF kd a(2)] p unfolding flights_def by (cases "j = k") auto
  then have "flights l' = (if granted then (flights l)(k := flights l k + 1) else flights l)" by (auto simp: fun_eq_iff)
  moreover from this have "0 \<le> bk_pending (lookup l' j)" for j
    using a(1) by (cases "j = k") (auto simp: limiter_ok_def flights_def fun_eq_iff split: if_splits)
  ultimately show "limiter_ok l' \<and> flights l' = (if granted then (flights l)(k := flights l k + 1) else flights l)"
    using reserve_result [OF kd a(2)] by (simp add: limiter_ok_def)
next
  fix l :: limiter and k f t
  assume a: "limiter_ok l" "0 < flights l k"
  have r: "keyed (settle k f t l) \<and> (\<forall>j. j \<noteq> k \<longrightarrow> lookup (settle k f t l) j = lookup l j) \<and>
      bk_pending (lookup (settle k f t l) k) = bk_pending (lookup l k) - 1"
    using settle_result [of l k f t] a by (simp add: limiter_ok_def flights_def)
  then have "flights (settle k f t l) j = (if j = k then flights l k - 1 else flights l j)" for j
    by (simp add: flights_def)
  then have "flights (settle k f t l) = (flights l)(k := flights l k - 1)" by (auto simp: fun_eq_iff)
  moreover from r have "0 \<le> bk_pending (lookup (settle k f t l) j)" for j
    using a by (cases "j = k") (auto simp: limiter_ok_def flights_def)
  ultimately show "limiter_ok (settle k f t l) \<and> flights (settle k f t l) = (flights l)(k := flights l k - 1)"
    using r by (simp add: limiter_ok_def)
qed (simp add: limiter_ok_def flights_def)

section \<open>What is charged to a key in any window\<close>

text \<open>
  A run of the limiter: the keys of the attempts in flight, the failures charged so far with their
  times, and the clock. Every granted attempt is settled once.
\<close>

record limiter_run =
  lr_limiter :: limiter
  lr_flight :: "string list"
  lr_failed :: "(string \<times> time) list"
  lr_clock :: time

inductive limiter_step :: "limiter_run \<Rightarrow> limiter_run \<Rightarrow> bool" where
  Reserve: "lr_clock r \<le> now \<Longrightarrow> reserve key now (lr_limiter r) = (ok, rl) \<Longrightarrow>
    limiter_step r (r\<lparr>lr_limiter := rl, lr_flight := (if ok then key # lr_flight r else lr_flight r), lr_clock := now\<rparr>)"
| Settle: "lr_clock r \<le> now \<Longrightarrow> key \<in> set (lr_flight r) \<Longrightarrow>
    limiter_step r (r\<lparr>lr_limiter := settle key failed now (lr_limiter r), lr_flight := remove1 key (lr_flight r),
      lr_failed := (if failed then lr_failed r @ [(key, now)] else lr_failed r), lr_clock := now\<rparr>)"

inductive limiter_reach :: "limiter_run \<Rightarrow> limiter_run \<Rightarrow> bool" for r0 where
  start: "limiter_reach r0 r0"
| step: "limiter_reach r0 r \<Longrightarrow> limiter_step r r' \<Longrightarrow> limiter_reach r0 r'"

definition idle_run :: "int \<Rightarrow> int \<Rightarrow> time \<Rightarrow> limiter_run" where
  "idle_run limit window now = \<lparr>lr_limiter = newRateLimiter limit window, lr_flight = [], lr_failed = [], lr_clock = now\<rparr>"

definition charged :: "limiter_run \<Rightarrow> string \<Rightarrow> time list" where
  "charged r key = map snd (filter (\<lambda>f. fst f = key) (lr_failed r))"

definition in_window :: "limiter_run \<Rightarrow> string \<Rightarrow> time \<Rightarrow> time list" where
  "in_window r key t = filter (\<lambda>u. t - rl_window (lr_limiter r) < u \<and> u \<le> t) (charged r key)"

text \<open>The bucket of a key holds its attempts in flight and at least its failures of the last window.\<close>

definition bucket_ok :: "limiter_run \<Rightarrow> string \<Rightarrow> bool" where
  "bucket_ok r key \<longleftrightarrow> (let rl = lr_limiter r; b = lookup rl key in
     bk_pending b = int (count_list (lr_flight r) key) \<and>
     int (length (bk_fails b)) + bk_pending b \<le> rl_limit rl \<and>
     filter (\<lambda>u. lr_clock r - rl_window rl < u) (bk_fails b) = filter (\<lambda>u. lr_clock r - rl_window rl < u) (charged r key))"

definition run_ok :: "limiter_run \<Rightarrow> bool" where
  "run_ok r \<longleftrightarrow> keyed (lr_limiter r) \<and> (\<forall>key. bucket_ok r key) \<and> (\<forall>f \<in> set (lr_failed r). snd f \<le> lr_clock r) \<and>
     (\<forall>key t. int (length (in_window r key t)) \<le> rl_limit (lr_limiter r))"

lemma filter_later: "c \<le> (d :: int) \<Longrightarrow> filter (\<lambda>u. c < u) xs = filter (\<lambda>u. c < u) ys \<Longrightarrow>
    filter (\<lambda>u. d < u) xs = filter (\<lambda>u. d < u) ys"
proof -
  assume a: "c \<le> d" "filter (\<lambda>u. c < u) xs = filter (\<lambda>u. c < u) ys"
  have "filter (\<lambda>u. d < u) zs = filter (\<lambda>u. d < u) (filter (\<lambda>u. c < u) zs)" for zs
    using a(1) by (auto intro: filter_cong)
  then show ?thesis using a(2) by metis
qed

lemma length_filter_sub: "(\<And>x. P x \<Longrightarrow> Q x) \<Longrightarrow> length (filter P xs) \<le> length (filter Q xs)"
  by (induction xs) auto

lemma count_list_remove1: "x \<in> set xs \<Longrightarrow> count_list (remove1 x xs) y = count_list xs y - (if x = y then 1 else 0)"
  by (induction xs) (auto simp: count_list_0_iff)

lemma count_list_pos: "x \<in> set xs \<Longrightarrow> 0 < count_list xs x"
  by (induction xs) auto

lemma bucket_ok_D:
  assumes "bucket_ok r key"
  shows "bk_pending (lookup (lr_limiter r) key) = int (count_list (lr_flight r) key)"
    "int (length (bk_fails (lookup (lr_limiter r) key))) + bk_pending (lookup (lr_limiter r) key) \<le> rl_limit (lr_limiter r)"
    "filter (\<lambda>u. lr_clock r - rl_window (lr_limiter r) < u) (bk_fails (lookup (lr_limiter r) key))
       = filter (\<lambda>u. lr_clock r - rl_window (lr_limiter r) < u) (charged r key)"
  using assms by (simp_all add: bucket_ok_def Let_def)

lemma reserve_ok:
  assumes "run_ok r" and "lr_clock r \<le> now" and "reserve key now (lr_limiter r) = (ok, rl)"
  shows "run_ok (r\<lparr>lr_limiter := rl, lr_flight := (if ok then key # lr_flight r else lr_flight r), lr_clock := now\<rparr>)"
proof -
  let ?r = "r\<lparr>lr_limiter := rl, lr_flight := (if ok then key # lr_flight r else lr_flight r), lr_clock := now\<rparr>"
  let ?old = "lr_limiter r" and ?cut = "now - rl_window (lr_limiter r)"
  have res: "keyed rl \<and> rl_limit rl = rl_limit ?old \<and> rl_window rl = rl_window ?old \<and>
      ok = (int (length (bk_fails (prune ?cut (lookup ?old key)))) + bk_pending (prune ?cut (lookup ?old key)) < rl_limit ?old) \<and>
      lookup rl key = (if ok then (prune ?cut (lookup ?old key))\<lparr>bk_pending := bk_pending (prune ?cut (lookup ?old key)) + 1\<rparr>
        else prune ?cut (lookup ?old key)) \<and>
      (\<forall>k. k \<noteq> key \<longrightarrow> lookup rl k = lookup ?old k \<or> lookup rl k = prune ?cut (lookup ?old k))"
    using reserve_result [of ?old key now ok rl] assms by (simp add: run_ok_def)
  have "bucket_ok ?r k" for k
  proof -
    have b: "bucket_ok r k" using assms(1) by (simp add: run_ok_def)
    note D = bucket_ok_D [OF b]
    have cut: "filter (\<lambda>u. ?cut < u) (bk_fails (lookup ?old k)) = filter (\<lambda>u. ?cut < u) (charged r k)"
      by (rule filter_later [OF _ D(3)]) (use assms(2) in simp)
    have len: "length (filter (\<lambda>u. ?cut < u) (bk_fails (lookup ?old k))) \<le> length (bk_fails (lookup ?old k))" by simp
    have same: "charged ?r k = charged r k" by (simp add: charged_def)
    show ?thesis
    proof (cases "k = key")
      case True
      then show ?thesis using res D cut len same by (auto simp: bucket_ok_def Let_def prune_def)
    next
      case False
      then have "lookup rl k = lookup ?old k \<or> lookup rl k = prune ?cut (lookup ?old k)" using res by blast
      then show ?thesis using False res D cut len same by (auto simp: bucket_ok_def Let_def prune_def)
    qed
  qed
  moreover have "in_window ?r k t = in_window r k t" for k t using res by (simp add: in_window_def charged_def)
  ultimately show ?thesis using assms(1,2) res by (fastforce simp: run_ok_def)
qed

lemma settle_ok:
  assumes "run_ok r" and "lr_clock r \<le> now" and "key \<in> set (lr_flight r)"
  shows "run_ok (r\<lparr>lr_limiter := settle key failed now (lr_limiter r), lr_flight := remove1 key (lr_flight r),
      lr_failed := (if failed then lr_failed r @ [(key, now)] else lr_failed r), lr_clock := now\<rparr>)" (is "run_ok ?r")
proof -
  let ?old = "lr_limiter r" and ?new = "settle key failed now (lr_limiter r)" and ?cut = "now - rl_window (lr_limiter r)"
  have b: "bucket_ok r k" for k using assms(1) by (simp add: run_ok_def)
  have "0 < bk_pending (lookup ?old key)" using bucket_ok_D(1) [OF b] count_list_pos [OF assms(3)] by simp
  then have res: "keyed ?new \<and> rl_limit ?new = rl_limit ?old \<and> rl_window ?new = rl_window ?old \<and>
      lookup ?new key = (lookup ?old key)\<lparr>bk_pending := bk_pending (lookup ?old key) - 1,
        bk_fails := bk_fails (lookup ?old key) @ (if failed then [now] else [])\<rparr> \<and>
      (\<forall>k. k \<noteq> key \<longrightarrow> lookup ?new k = lookup ?old k)"
    using settle_result [of ?old key failed now] assms(1) by (simp add: run_ok_def)
  have ch: "charged ?r k = charged r k @ (if failed \<and> k = key then [now] else [])" for k by (simp add: charged_def)
  have ok: "bucket_ok ?r k" for k
  proof -
    note D = bucket_ok_D [OF b [of k]]
    have cut: "filter (\<lambda>u. ?cut < u) (bk_fails (lookup ?old k)) = filter (\<lambda>u. ?cut < u) (charged r k)"
      by (rule filter_later [OF _ D(3)]) (use assms(2) in simp)
    show ?thesis
    proof (cases "k = key")
      case True
      then show ?thesis using res D cut ch count_list_pos [OF assms(3)]
        by (simp add: bucket_ok_def Let_def count_list_remove1 [OF assms(3)])
    next
      case False
      then show ?thesis using res D cut ch by (simp add: bucket_ok_def Let_def count_list_remove1 [OF assms(3)])
    qed
  qed
  have "int (length (in_window ?r k t)) \<le> rl_limit ?new" for k t
  proof (cases "failed \<and> k = key \<and> now \<le> t")
    case True
    have "length (in_window ?r k t) \<le> length (filter (\<lambda>u. ?cut < u) (charged ?r k))"
      unfolding in_window_def by (rule length_filter_sub) (use True res in simp)
    also have "\<dots> = length (filter (\<lambda>u. ?cut < u) (bk_fails (lookup ?new k)))"
      using bucket_ok_D(3) [OF ok [of k]] res by simp
    also have "\<dots> \<le> length (bk_fails (lookup ?new k))" by simp
    also have "int \<dots> \<le> rl_limit ?new"
      using bucket_ok_D(1,2) [OF ok [of k]] by simp
    finally show ?thesis by simp
  next
    case False
    then have "in_window ?r k t = in_window r k t" using res by (auto simp: in_window_def ch)
    then show ?thesis using assms(1) res by (simp add: run_ok_def)
  qed
  then show ?thesis using assms(1,2) res ok by (fastforce simp: run_ok_def)
qed

lemma limiter_run_ok:
  assumes "limiter_reach r0 r" and "run_ok r0"
  shows "run_ok r \<and> rl_limit (lr_limiter r) = rl_limit (lr_limiter r0) \<and> rl_window (lr_limiter r) = rl_window (lr_limiter r0)"
  using assms
proof (induction rule: limiter_reach.induct)
  case (step r r')
  then have ok: "run_ok r" by simp
  from step.hyps(2) show ?case
  proof cases
    case (Reserve now key ok' rl)
    have "run_ok r'" unfolding Reserve(1) by (rule reserve_ok [OF ok Reserve(2,3)])
    moreover have "keyed (lr_limiter r)" using ok by (simp add: run_ok_def)
    then have "rl_limit rl = rl_limit (lr_limiter r) \<and> rl_window rl = rl_window (lr_limiter r)"
      using reserve_result [OF _ Reserve(3)] by blast
    ultimately show ?thesis using Reserve(1) step.IH step.prems by simp
  next
    case (Settle now key failed)
    have "0 < bk_pending (lookup (lr_limiter r) key)"
      using ok bucket_ok_D(1) [of r key] count_list_pos [OF Settle(3)] by (simp add: run_ok_def)
    moreover have "keyed (lr_limiter r)" using ok by (simp add: run_ok_def)
    ultimately have "rl_limit (settle key failed now (lr_limiter r)) = rl_limit (lr_limiter r) \<and>
        rl_window (settle key failed now (lr_limiter r)) = rl_window (lr_limiter r)"
      using settle_result by blast
    moreover have "run_ok r'" unfolding Settle(1) by (rule settle_ok [OF ok Settle(2,3)])
    ultimately show ?thesis using Settle(1) step.IH step.prems by simp
  qed
qed simp

lemma idle_ok: "0 \<le> limit \<Longrightarrow> run_ok (idle_run limit window now)"
  by (simp add: run_ok_def idle_run_def newRateLimiter_def keyed_def bucket_ok_def bucket_of_def no_attempts_def
      charged_def in_window_def)

text \<open>
  C20: However attempts arrive, overlap and end, as long as the clock does not run backwards: at most
  \<open>limit\<close> failures are charged to a key in any span of one window, and at any moment the failures
  of the last window and the attempts in flight are at most \<open>limit\<close> together.
\<close>

theorem limiter_bounds_failures:
  assumes "limiter_reach (idle_run limit window now) r" and "0 \<le> limit"
  shows "int (length (filter (\<lambda>f. fst f = key \<and> t - window < snd f \<and> snd f \<le> t) (lr_failed r))) \<le> limit \<and>
    int (length (filter (\<lambda>f. fst f = key \<and> lr_clock r - window < snd f) (lr_failed r)) + count_list (lr_flight r) key) \<le> limit"
proof
  have r: "run_ok r" "rl_limit (lr_limiter r) = limit" "rl_window (lr_limiter r) = window"
    using limiter_run_ok [OF assms(1) idle_ok [OF assms(2)]] by (simp_all add: idle_run_def newRateLimiter_def)
  have f: "length (filter (\<lambda>f. fst f = key \<and> P (snd f)) (lr_failed r)) = length (filter P (charged r key))" for P
    by (simp add: charged_def filter_map comp_def conj_commute)
  show "int (length (filter (\<lambda>f. fst f = key \<and> t - window < snd f \<and> snd f \<le> t) (lr_failed r))) \<le> limit"
    using r f [of "\<lambda>u. t - window < u \<and> u \<le> t"] by (simp add: run_ok_def in_window_def)
  have b: "bucket_ok r key" using r by (simp add: run_ok_def)
  have "length (filter (\<lambda>u. lr_clock r - window < u) (charged r key)) \<le> length (bk_fails (lookup (lr_limiter r) key))"
    using bucket_ok_D(3) [OF b] r(3) by (metis length_filter_le)
  then show "int (length (filter (\<lambda>f. fst f = key \<and> lr_clock r - window < snd f) (lr_failed r)) + count_list (lr_flight r) key) \<le> limit"
    using bucket_ok_D(1,2) [OF b] r(2) f [of "\<lambda>u. lr_clock r - window < u"] by simp
qed

definition guessing :: limiter_run where
  "guessing = (let r = idle_run 1 minute 0 in
     r\<lparr>lr_limiter := settle ''10.0.0.9'' True 2 (snd (reserve ''10.0.0.9'' 1 (lr_limiter r))),
       lr_failed := [(''10.0.0.9'', 2)], lr_clock := 2\<rparr>)"

lemma guessing_reached: "limiter_reach (idle_run 1 minute 0) guessing"
proof -
  let ?r = "idle_run 1 minute 0" and ?k = "''10.0.0.9''"
  obtain ok rl where 1: "reserve ?k 1 (lr_limiter ?r) = (ok, rl)" by fastforce
  have "fst (reserve ?k 1 (lr_limiter ?r))" by code_simp
  then have ok: "ok" using 1 by simp
  have "lr_clock ?r \<le> 1" by code_simp
  from limiter_step.Reserve [OF this 1] have s1: "limiter_step ?r (?r\<lparr>lr_limiter := rl, lr_flight := [?k], lr_clock := 1\<rparr>)"
    using ok by (simp add: idle_run_def)
  let ?r1 = "?r\<lparr>lr_limiter := rl, lr_flight := [?k], lr_clock := 1\<rparr>"
  have a: "limiter_reach ?r ?r1" by (rule limiter_reach.step [OF limiter_reach.start s1])
  have s2: "limiter_step ?r1 (?r1\<lparr>lr_limiter := settle ?k True 2 (lr_limiter ?r1), lr_flight := remove1 ?k (lr_flight ?r1),
      lr_failed := (if True then lr_failed ?r1 @ [(?k, 2)] else lr_failed ?r1), lr_clock := 2\<rparr>)"
    by (rule limiter_step.Settle) simp_all
  have "(?r1\<lparr>lr_limiter := settle ?k True 2 (lr_limiter ?r1), lr_flight := remove1 ?k (lr_flight ?r1),
      lr_failed := (if True then lr_failed ?r1 @ [(?k, 2)] else lr_failed ?r1), lr_clock := 2\<rparr>) = guessing"
    using 1 by (simp add: guessing_def idle_run_def Let_def)
  then show ?thesis using limiter_reach.step [OF a s2] by simp
qed

theorem limiter_bounds_failures_witness:
  "int (length (filter (\<lambda>f. fst f = ''10.0.0.9'' \<and> 3 - minute < snd f \<and> snd f \<le> 3) (lr_failed guessing))) \<le> 1 \<and>
   map snd (lr_failed guessing) = [2]"
proof
  show "int (length (filter (\<lambda>f. fst f = ''10.0.0.9'' \<and> 3 - minute < snd f \<and> snd f \<le> 3) (lr_failed guessing))) \<le> 1"
    using limiter_bounds_failures [OF guessing_reached, of "''10.0.0.9''" 3] by simp
  show "map snd (lr_failed guessing) = [2]" by code_simp
qed

end
