(* ===== verification/Web_Request.thy ===== *)
theory Web_Request
  imports Web_Limiter
begin

text \<open>
  internal/web: what the server reads off a request before anything else. Whose address it counts
  for, which credentials it carries, which paths are open, and where a form may send the user back.
\<close>

section \<open>Requests\<close>

text \<open>A header that is not there is empty; \<open>Cookie\<close> is the session cookie.\<close>

record request =
  rq_Method :: string
  rq_Path :: string
  rq_Host :: string
  rq_RemoteAddr :: string
  rq_TLS :: bool
  rq_Header :: "string \<Rightarrow> string"
  rq_Cookie :: "string option"
  rq_Form :: "string \<Rightarrow> string"

text \<open>\<open>net.SplitHostPort\<close>, its host or none for an error.\<close>

definition split_host :: "string \<Rightarrow> string option" where
  "split_host hp = (if CHR '':'' \<notin> set hp then None
     else (let port = rev (takeWhile (\<lambda>c. c \<noteq> CHR '':'') (rev hp));
               i = length hp - length port - 1
           in if take 1 hp = ''[''
              then (let host = takeWhile (\<lambda>c. c \<noteq> CHR '']'') (tl hp); end = length host + 1 in
                if CHR '']'' \<notin> set hp \<or> end + 1 \<noteq> i then None
                else if CHR ''['' \<in> set (tl hp) \<or> CHR '']'' \<in> set (drop (end + 1) hp) then None
                else Some host)
              else (let host = take i hp in
                if CHR '':'' \<in> set host then None
                else if CHR ''['' \<in> set hp \<or> CHR '']'' \<in> set hp then None
                else Some host)))"

text \<open>Addresses are compared as plain ones: IPv4 unmapped, without a zone.\<close>

definition plain_addr :: "string \<Rightarrow> addr option" where
  "plain_addr s = map_option (\<lambda>a. without_zone (unmap a)) (parse_addr s)"

definition peerAddr :: "request \<Rightarrow> addr option \<times> string" where
  "peerAddr r = (let host = (case split_host (rq_RemoteAddr r) of None \<Rightarrow> rq_RemoteAddr r | Some h \<Rightarrow> h) in
     case plain_addr host of None \<Rightarrow> (None, host) | Some a \<Rightarrow> (Some a, addr_string a))"

definition trustsProxy :: "cidr list \<Rightarrow> addr option \<Rightarrow> bool" where
  "trustsProxy proxies a = (case a of None \<Rightarrow> False | Some a \<Rightarrow> list_ex (\<lambda>p. contains p a) proxies)"

text \<open>The entries of the header, the last one first.\<close>

fun last_untrusted :: "cidr list \<Rightarrow> string list \<Rightarrow> addr option" where
  "last_untrusted proxies [] = None"
| "last_untrusted proxies (f # fs) = (case plain_addr (trim_space f) of
     None \<Rightarrow> last_untrusted proxies fs
   | Some a \<Rightarrow> if trustsProxy proxies (Some a) then last_untrusted proxies fs else Some a)"

definition clientIP :: "cidr list \<Rightarrow> request \<Rightarrow> string" where
  "clientIP proxies r = (let (peer, str) = peerAddr r in
     if \<not> trustsProxy proxies peer then str
     else (case last_untrusted proxies (rev (split_on CHR '','' (rq_Header r ''X-Forwarded-For''))) of
       None \<Rightarrow> str | Some a \<Rightarrow> addr_string a))"

definition secureRequest :: "cidr list \<Rightarrow> request \<Rightarrow> bool" where
  "secureRequest proxies r \<longleftrightarrow> rq_TLS r \<or>
     (trustsProxy proxies (fst (peerAddr r)) \<and> equal_fold (rq_Header r ''X-Forwarded-Proto'') ''https'')"

definition limitKey :: "string \<Rightarrow> string" where
  "limitKey ip = (case parse_addr ip of None \<Rightarrow> ip
     | Some a \<Rightarrow> if is4 a \<or> is_4in6 a then ip else prefix_string (masked (mk_prefix a 64)))"

text \<open>\<open>ParseTrustedProxies\<close> of internal/config/config.go.\<close>

definition parse_proxy :: "string \<Rightarrow> error + cidr" where
  "parse_proxy f = (if CHR ''/'' \<in> set f
     then (case parse_prefix f of None \<Rightarrow> Inl (ErrMsg (''trusted proxy '' @ f)) | Some p \<Rightarrow> Inr (masked p))
     else (case parse_addr f of None \<Rightarrow> Inl (ErrMsg (''trusted proxy '' @ f)) | Some a \<Rightarrow> Inr (mk_prefix a (bit_len a))))"

fun parse_proxies :: "string list \<Rightarrow> cidr list \<Rightarrow> error + cidr list" where
  "parse_proxies [] out = Inr out"
| "parse_proxies (f # fs) out = (let f = trim_space f in
     if f = [] then parse_proxies fs out
     else (case parse_proxy f of Inl e \<Rightarrow> Inl e | Inr p \<Rightarrow> parse_proxies fs (out @ [p])))"

definition ParseTrustedProxies :: "string \<Rightarrow> error + cidr list" where
  "ParseTrustedProxies s = parse_proxies (split_on CHR '','' s) []"

section \<open>Credentials and paths\<close>

definition truncate_str :: "string \<Rightarrow> nat \<Rightarrow> string" where
  "truncate_str s n = take n s"

definition tokenFromRequest :: "request \<Rightarrow> string" where
  "tokenFromRequest r = (let h = rq_Header r ''Authorization''; p = ''Bearer '' in
     if length p < length h \<and> equal_fold (take (length p) h) p then drop (length p) h else [])"

definition apiBearer :: "request \<Rightarrow> string option" where
  "apiBearer r = (if \<not> prefix ''/api/'' (rq_Path r) then None
     else (let tok = tokenFromRequest r in if tok = [] then None else Some tok))"

definition OIDCCallbackPath :: string where "OIDCCallbackPath = ''/auth/oidc/callback''"

definition oidcPublicPath :: "string \<Rightarrow> bool" where
  "oidcPublicPath p \<longleftrightarrow> p = ''/auth/oidc/login'' \<or> p = OIDCCallbackPath"

definition public_path :: "string \<Rightarrow> bool" where
  "public_path p \<longleftrightarrow> p = ''/healthz'' \<or> p = ''/login'' \<or> p = ''/setup'' \<or> p = ''/favicon.ico'' \<or>
     prefix ''/static/'' p \<or> oidcPublicPath p"

definition forMachines :: "string \<Rightarrow> bool" where
  "forMachines p \<longleftrightarrow> p = ''/metrics'' \<or> prefix ''/api/'' p"

definition onboardingAllowed :: "string \<Rightarrow> bool" where
  "onboardingAllowed p \<longleftrightarrow> p = ''/welcome'' \<or> prefix ''/welcome/'' p \<or> p = ''/logout'' \<or> p = ''/events/stream''"

definition localNext :: "string \<Rightarrow> string \<Rightarrow> string" where
  "localNext to fallback = (if to = [] \<or> hd to \<noteq> CHR ''/'' \<or> prefix ''//'' to \<or> prefix [CHR ''/'', CHR 0x5C] to \<or>
       list_ex (\<lambda>c. c = CHR 0x0D \<or> c = CHR 0x0A) to then fallback else to)"

text \<open>\<open>url.Parse\<close> of the origin is a parameter, its result the host.\<close>

definition checkOrigin :: "(string \<Rightarrow> string option) \<Rightarrow> request \<Rightarrow> bool" where
  "checkOrigin url_host r \<longleftrightarrow> rq_Method r \<in> {''GET'', ''HEAD'', ''OPTIONS''} \<or>
     (let origin = rq_Header r ''Origin'' in
      origin = [] \<or> origin = ''null'' \<or> url_host origin = Some (rq_Host r))"

section \<open>Nobody chooses the address they are counted under\<close>

lemma split_on_append_full: "split_on c (s @ c # t) = split_on c s @ split_on c t"
proof (induction s)
  case (Cons d s)
  then show ?case using split_on_neq_Nil [of c s]
    by (cases "split_on c s") auto
qed simp

lemma last_untrusted_append:
  "last_untrusted proxies (fs @ gs) = (case last_untrusted proxies fs of None \<Rightarrow> last_untrusted proxies gs | Some a \<Rightarrow> Some a)"
  by (induction fs) (auto split: option.splits)

definition forwarded :: "request \<Rightarrow> string \<Rightarrow> request" where
  "forwarded r xff = r\<lparr>rq_Header := (rq_Header r)(''X-Forwarded-For'' := xff)\<rparr>"

text \<open>
  Whatever a client writes into X-Forwarded-For itself does not change the address it is counted
  under: without a trusted proxy in front the header counts for nothing, and what stands before the
  last address that no trusted proxy has counts for nothing either.
\<close>

theorem clientIP_ignores_claims:
  "clientIP proxies (forwarded r (claims @ '','' @ seen)) =
     (if \<not> trustsProxy proxies (fst (peerAddr r)) then snd (peerAddr r)
      else (case last_untrusted proxies (rev (split_on CHR '','' seen)) of
        Some a \<Rightarrow> addr_string a | None \<Rightarrow> clientIP proxies (forwarded r claims)))"
proof -
  have "rq_RemoteAddr (forwarded r x) = rq_RemoteAddr r" for x by (simp add: forwarded_def)
  then have "peerAddr (forwarded r x) = peerAddr r" for x unfolding peerAddr_def by (simp only:)
  moreover have "rq_Header (forwarded r x) ''X-Forwarded-For'' = x" for x by (simp add: forwarded_def)
  ultimately show ?thesis
    by (cases "peerAddr r") (simp add: clientIP_def split_on_append_full last_untrusted_append split: option.split)
qed

end
