(* ===== verification/Action_Rules.thy ===== *)
theory Action_Rules
  imports Store_Account
begin

text \<open>
  Weakest preconditions for actions on the database, with which the handlers of the web interface
  are verified: every statement may fault, and every other part of the state is left alone.
\<close>

section \<open>Outcomes\<close>

definition wp :: "('s, 'a) act \<Rightarrow> (error + 'a \<Rightarrow> 's \<Rightarrow> bool) \<Rightarrow> 's \<Rightarrow> bool" where
  "wp m Q s \<longleftrightarrow> (case m s of (x, s') \<Rightarrow> Q x s')"

named_theorems wp_simps \<open>weakest preconditions of the ways to combine actions\<close>

lemma wpD: "wp m Q s \<Longrightarrow> m s = (x, s') \<Longrightarrow> Q x s'"
  by (simp add: wp_def)

lemma wp_case: "wp m Q s \<Longrightarrow> (case m s of (x, s') \<Rightarrow> Q x s')"
  by (simp add: wp_def)

lemma wp_ret [wp_simps]: "wp (ret a) Q s = Q (Inr a) s"
  by (simp add: wp_def)

lemma wp_fail [wp_simps]: "wp (fail e) Q s = Q (Inl e) s"
  by (simp add: wp_def)

lemma wp_bind [wp_simps]:
  "wp (bindA m k) Q s = wp m (\<lambda>x s'. case x of Inl e \<Rightarrow> Q (Inl e) s' | Inr a \<Rightarrow> wp (k a) Q s') s"
  by (auto simp: wp_def bindA_def split: prod.splits sum.splits)

lemma wp_then [wp_simps]:
  "wp (thenA m n) Q s = wp m (\<lambda>x s'. case x of Inl e \<Rightarrow> Q (Inl e) s' | Inr _ \<Rightarrow> wp n Q s') s"
  by (simp add: thenA_def wp_bind)

lemma wp_attempt [wp_simps]: "wp (attempt m) Q s = wp m (\<lambda>x. Q (Inr x)) s"
  by (auto simp: wp_def attempt_def split: prod.splits)

lemma wp_logged [wp_simps]: "wp (logged m) Q s = wp m (\<lambda>x. Q (Inr ())) s"
  by (auto simp: wp_def logged_def split: prod.splits)

lemma wp_if [wp_simps]: "wp (if b then m else n) Q s = (if b then wp m Q s else wp n Q s)"
  by simp

lemma wp_let [wp_simps]: "wp (Let v f) Q s = wp (f v) Q s"
  by simp

lemma wp_option [wp_simps]:
  "wp (case v of None \<Rightarrow> m | Some x \<Rightarrow> f x) Q s = (case v of None \<Rightarrow> wp m Q s | Some x \<Rightarrow> wp (f x) Q s)"
  by (cases v) simp_all

lemma wp_sum [wp_simps]:
  "wp (case v of Inl e \<Rightarrow> f e | Inr x \<Rightarrow> g x) Q s = (case v of Inl e \<Rightarrow> wp (f e) Q s | Inr x \<Rightarrow> wp (g x) Q s)"
  by (cases v) simp_all

lemma wp_prod [wp_simps]: "wp (case v of (a, b) \<Rightarrow> f a b) Q s = (case v of (a, b) \<Rightarrow> wp (f a b) Q s)"
  by (cases v) simp

lemma wp_mono: "wp m P s \<Longrightarrow> (\<And>x s'. P x s' \<Longrightarrow> Q x s') \<Longrightarrow> wp m Q s"
  by (auto simp: wp_def split: prod.splits)

lemma wp_triv: "(\<And>x s'. Q x s') \<Longrightarrow> wp m Q s"
  by (simp add: wp_def split: prod.split)

section \<open>Statements\<close>

text \<open>A statement faults, is refused, or does its work; only the tables and the faults to come change.\<close>

lemma wp_stmt:
  assumes "\<And>e fs. Q (Inl e) (s\<lparr>faults := fs\<rparr>)"
    and "\<And>fs a t. f (tabs s) = Inr (a, t) \<Longrightarrow> Q (Inr a) (s\<lparr>faults := fs, tabs := t\<rparr>)"
  shows "wp (stmt f) Q s"
  using assms by (auto simp: wp_def stmt_def Let_def split: sum.splits)

lemma wp_exec:
  assumes "\<And>e fs. Q (Inl e) (s\<lparr>faults := fs\<rparr>)"
    and "\<And>fs. Q (Inr (fst (f (tabs s)))) (s\<lparr>faults := fs, tabs := snd (f (tabs s))\<rparr>)"
  shows "wp (exec f) Q s"
  unfolding exec_def by (rule wp_stmt) (use assms in auto)

lemma same_tabs [simp]: "s\<lparr>faults := fs, tabs := tabs s\<rparr> = s\<lparr>faults := fs\<rparr>"
  by simp

lemma wp_query:
  assumes "\<And>e fs. Q (Inl e) (s\<lparr>faults := fs\<rparr>)" and "\<And>fs. Q (Inr (f (tabs s))) (s\<lparr>faults := fs\<rparr>)"
  shows "wp (query f) Q s"
  unfolding query_def by (rule wp_stmt) (use assms in auto)

lemma wp_query_row:
  assumes "\<And>e fs. Q (Inl e) (s\<lparr>faults := fs\<rparr>)" and "\<And>fs a. f (tabs s) = Some a \<Longrightarrow> Q (Inr a) (s\<lparr>faults := fs\<rparr>)"
  shows "wp (query_row f) Q s"
  unfolding query_row_def by (rule wp_stmt) (use assms in \<open>auto split: option.splits\<close>)

lemma query_row_none:
  "query_row f s = (Inl ErrNoRows, s') \<Longrightarrow> f (tabs s) = None"
  by (auto simp: query_row_def stmt_def Let_def split: option.splits if_splits)

text \<open>A lookup: no row is an answer.\<close>

lemma wp_find:
  assumes "\<And>e fs. Q (Inl e) (s\<lparr>faults := fs\<rparr>)" and "\<And>fs. Q (Inr (q (tabs s))) (s\<lparr>faults := fs\<rparr>)"
  shows "wp (find_row q) Q s"
proof -
  have "wp (query_row q) (\<lambda>x s'. (\<exists>fs. s' = s\<lparr>faults := fs\<rparr>) \<and> (case x of Inr a \<Rightarrow> q (tabs s) = Some a | Inl ErrNoRows \<Rightarrow> q (tabs s) = None | Inl _ \<Rightarrow> True)) s"
    unfolding wp_def
    by (auto simp: query_row_def stmt_def Let_def split: option.splits if_splits error.splits) 
  then show ?thesis unfolding find_row_def wp_simps
    by (rule wp_mono) (use assms in \<open>auto simp: wp_simps split: sum.splits error.splits\<close>)
qed

section \<open>Lookups keep what the tables keep\<close>

lemma keeps_find_row [pres_intros]: "keeps (\<lambda>s. J (tabs s)) (find_row q)"
proof (rule keepsI)
  fix s :: "'a db_scheme" assume "J (tabs s)"
  then have "wp (find_row q) (\<lambda>x s'. J (tabs s')) s" by (intro wp_find) simp_all
  then show "J (tabs (snd (find_row q s)))" by (simp add: wp_def split: prod.splits)
qed

lemma keeps_setting [pres_intros]: "keeps (\<lambda>s. J (tabs s)) (GetSetting cr k)"
  unfolding GetSetting_def rawSetting_def by (intro pres_intros)

lemma keeps_bool [pres_intros]: "keeps I m \<Longrightarrow> keeps I n \<Longrightarrow> keeps I (case b of True \<Rightarrow> m | False \<Rightarrow> n)"
  by (cases b) simp_all

end
