(* ===== verification/Web_Auth.thy ===== *)
theory Web_Auth
  imports Web_Request Store_Event Action_Rules
begin

text \<open>
  internal/web/auth.go, apitokens.go, sessions.go and password.go: who a request acts for, and the
  handlers by which people sign in and out, set the server up, and manage passwords, sessions and API
  tokens. bcrypt, random bytes and the clock are arguments.
\<close>

section \<open>The server\<close>

record oidc_config =
  oc_Issuer :: string
  oc_AdminGroup :: string
  oc_GroupsClaim :: string
  oc_AutoCreate :: bool
  oc_DisablePassword :: bool

text \<open>What does not change while the server runs.\<close>

record server =
  sv_hash :: "string \<Rightarrow> string"
  sv_match :: "string \<Rightarrow> string \<Rightarrow> bool"
  sv_gen :: "string \<Rightarrow> string option"
  sv_crypter :: "crypter option"
  sv_proxies :: "cidr list"
  sv_metricsToken :: string
  sv_oidc :: "oidc_config option"

record web = db +
  wb_limiter :: limiter
  wb_userLimiter :: limiter
  wb_tokenLimiter :: limiter

definition loginIPMax :: int where "loginIPMax = 5"
definition loginIPWindow :: int where "loginIPWindow = minute"
definition loginUserMax :: int where "loginUserMax = 10"
definition loginUserWindow :: int where "loginUserWindow = 15 * minute"
definition apiTokenFailMax :: int where "apiTokenFailMax = 20"
definition apiTokenFailWindow :: int where "apiTokenFailWindow = minute"

definition new_web :: "tables \<Rightarrow> bool list \<Rightarrow> web" where
  "new_web t fs = \<lparr>tabs = t, faults = fs, wb_limiter = newRateLimiter loginIPMax loginIPWindow,
     wb_userLimiter = newRateLimiter loginUserMax loginUserWindow,
     wb_tokenLimiter = newRateLimiter apiTokenFailMax apiTokenFailWindow\<rparr>"

text \<open>The device form of internal/web/views as a handler fills it in.\<close>

record device_form =
  fm_Device :: device
  fm_Tags :: "tag list"
  fm_IsEdit :: bool
  fm_MAC :: string
  fm_IP :: string
  fm_SubnetID :: int
  fm_Error :: string
  fm_Prefilled :: bool
  fm_Subnets :: "subnet list"
  fm_AllDevices :: "device_view list"
  fm_AllTags :: "tag list"
  fm_Suggest :: "(string \<times> string list) list"
  fm_Detected :: "(string \<times> string) list"
  fm_DetectedTags :: "string list"

text \<open>An answer: what a handler writes, cookies included.\<close>

datatype response =
    Redirect string
  | Failure nat string
  | LoginPage nat string
  | SetupPage nat string
  | SettingsError string nat string
  | NewToken string
  | SignedIn string string
  | SignedOut string
  | Page string
  | Flash string string
  | ApiError nat string
  | ApiDevice nat int
  | ApiDone nat
  | Moved string
  | Navigate string string
  | Toast string
  | DeviceForm nat device_form
  | ImportPage nat string "(nat \<times> string \<times> string \<times> string) list"
  | Download string string
  | Text nat string

definition serverError :: response where "serverError = Failure 500 ''internal server error''"
definition unavailable :: response where "unavailable = Failure 503 ''service unavailable''"
definition notFound :: response where "notFound = Failure 404 ''404 page not found''"
definition unauthorized :: response where "unauthorized = Failure 401 ''unauthorized''"

text \<open>What a handler adds to the audit entry of its request.\<close>

record auditRecord =
  nt_Target :: string
  nt_Detail :: string
  nt_User :: "(int \<times> string) option"

definition no_note :: auditRecord where
  "no_note = \<lparr>nt_Target = [], nt_Detail = [], nt_User = None\<rparr>"

definition detail :: "string \<Rightarrow> auditRecord" where "detail d = no_note\<lparr>nt_Detail := d\<rparr>"

definition by_user :: "user \<Rightarrow> string \<Rightarrow> auditRecord" where
  "by_user u d = \<lparr>nt_Target = [], nt_Detail = d, nt_User = Some (us_ID u, us_Username u)\<rparr>"

type_synonym 's handler = "('s web_scheme, response \<times> auditRecord) act"

definition answer :: "response \<Rightarrow> ('s web_scheme, response \<times> auditRecord) act" where
  "answer r = ret (r, no_note)"

text \<open>\<open>if err != nil { s.fail(w, r, err); return }\<close>.\<close>

definition orFail :: "('s web_scheme, 'a) act \<Rightarrow> ('a \<Rightarrow> ('s web_scheme, response \<times> auditRecord) act) \<Rightarrow> ('s web_scheme, response \<times> auditRecord) act" where
  "orFail m k = bindA (attempt m) (\<lambda>r. case r of Inl _ \<Rightarrow> answer serverError | Inr a \<Rightarrow> k a)"

section \<open>Who a request acts for\<close>

datatype decision = Serve "user option" | Respond response

definition take_token_slot :: "string \<Rightarrow> time \<Rightarrow> ('s web_scheme, bool) act" where
  "take_token_slot key now s = (case reserve key now (wb_tokenLimiter s) of (ok, rl) \<Rightarrow> (Inr ok, s\<lparr>wb_tokenLimiter := rl\<rparr>))"

definition settle_token :: "string \<Rightarrow> bool \<Rightarrow> time \<Rightarrow> ('s web_scheme, unit) act" where
  "settle_token key failed now s = (Inr (), s\<lparr>wb_tokenLimiter := settle key failed now (wb_tokenLimiter s)\<rparr>)"

definition serveBearer :: "server \<Rightarrow> request \<Rightarrow> string \<Rightarrow> time \<Rightarrow> ('s web_scheme, decision) act" where
  "serveBearer sv r tok now = (let key = ''bearer:'' @ limitKey (clientIP (sv_proxies sv) r) in
     bindA (take_token_slot key now) (\<lambda>granted.
     if \<not> granted then ret (Respond (ApiError 429 ''too many failed token attempts, wait a minute''))
     else bindA (attempt (GetUserByAPIToken (sv_hash sv) tok now)) (\<lambda>x.
       thenA (settle_token key (x = Inr None) now)
       (case x of
          Inl _ \<Rightarrow> ret (Respond unavailable)
        | Inr None \<Rightarrow> ret (Respond (ApiError 401 ''invalid or expired API token''))
        | Inr (Some (u, readOnly)) \<Rightarrow>
            if readOnly \<and> rq_Method r \<noteq> ''GET'' \<and> rq_Method r \<noteq> ''HEAD''
            then ret (Respond (ApiError 403 ''this API token is read-only''))
            else ret (Serve (Some u))))))"

definition anonymous :: "request \<Rightarrow> ('s web_scheme, decision) act" where
  "anonymous r = (if forMachines (rq_Path r) then ret (Respond unauthorized)
     else bindA (attempt CountUsers) (\<lambda>n. case n of
         Inl _ \<Rightarrow> ret (Respond unavailable)
       | Inr k \<Rightarrow> ret (Respond (Redirect (if k = 0 then ''/setup'' else ''/login'')))))"

definition signed_in :: "server \<Rightarrow> request \<Rightarrow> user \<Rightarrow> ('s web_scheme, decision) act" where
  "signed_in sv r u = (if \<not> onboardingAllowed (rq_Path r) \<and> \<not> forMachines (rq_Path r)
     then bindA (attempt (GetSetting (sv_crypter sv) ''onboarded'')) (\<lambda>v.
       if v = Inr ''1'' then ret (Serve (Some u)) else ret (Respond (Redirect ''/welcome'')))
     else ret (Serve (Some u)))"

definition scrape_token :: "server \<Rightarrow> request \<Rightarrow> bool" where
  "scrape_token sv r \<longleftrightarrow> rq_Path r = ''/metrics'' \<and> sv_metricsToken sv \<noteq> [] \<and>
     tokenFromRequest r \<noteq> [] \<and> tokenFromRequest r = sv_metricsToken sv"

definition requireAuth :: "server \<Rightarrow> request \<Rightarrow> time \<Rightarrow> ('s web_scheme, decision) act" where
  "requireAuth sv r now =
     (if public_path (rq_Path r) then ret (Serve None)
      else if scrape_token sv r then ret (Serve None)
      else (case apiBearer r of
          Some tok \<Rightarrow> serveBearer sv r tok now
        | None \<Rightarrow> (case rq_Cookie r of
            None \<Rightarrow> anonymous r
          | Some c \<Rightarrow> bindA (attempt (GetSession (sv_hash sv) c now)) (\<lambda>x. case x of
              Inl _ \<Rightarrow> ret (Respond unavailable)
            | Inr None \<Rightarrow> anonymous r
            | Inr (Some u) \<Rightarrow> signed_in sv r u))))"

definition isAdmin :: "user option \<Rightarrow> bool" where
  "isAdmin u = (case u of None \<Rightarrow> False | Some u \<Rightarrow> us_Role u = ''admin'')"

definition requireAdmin :: "user option \<Rightarrow> request \<Rightarrow> 's handler \<Rightarrow> 's handler" where
  "requireAdmin u r h = (if isAdmin u then h
     else answer (if forMachines (rq_Path r) then ApiError 403 ''admin only'' else Failure 403 ''admin only''))"

section \<open>Signing in and out\<close>

definition maxUserAgentLen :: nat where "maxUserAgentLen = 200"
definition maxUsernameKeyLen :: nat where "maxUsernameKeyLen = 128"
definition minPasswordLen :: nat where "minPasswordLen = 8"
definition maxPasswordLen :: nat where "maxPasswordLen = 72"

definition session_length :: int where "session_length = 30 * day"

text \<open>The new session's token is the random one given; the answer sets the cookie.\<close>

definition startSession :: "server \<Rightarrow> request \<Rightarrow> int \<Rightarrow> string option \<Rightarrow> time \<Rightarrow> ('s web_scheme, string) act" where
  "startSession sv r uid rand now = (case rand of
     None \<Rightarrow> fail (ErrMsg ''rand'')
   | Some tok \<Rightarrow> thenA (CreateSession (sv_hash sv) tok uid (rfc3339 (now + session_length))
       \<lparr>sm_CreatedAt = Some (rfc3339 now), sm_IP = clientIP (sv_proxies sv) r,
        sm_UserAgent = truncate_str (rq_Header r ''User-Agent'') maxUserAgentLen\<rparr>) (ret tok))"

definition passwordLoginAllowed :: "server \<Rightarrow> user \<Rightarrow> ('s web_scheme, bool) act" where
  "passwordLoginAllowed sv u = (case sv_oidc sv of
     None \<Rightarrow> ret True
   | Some c \<Rightarrow> if \<not> oc_DisablePassword c then ret True
       else if us_Role u \<noteq> ''admin'' then ret False
       else bindA (attempt (OIDCLinked (us_ID u))) (\<lambda>x. case x of Inl _ \<Rightarrow> ret False | Inr l \<Rightarrow> ret (\<not> l)))"

definition take_ip :: "string \<Rightarrow> time \<Rightarrow> ('s web_scheme, bool) act" where
  "take_ip key now s = (case reserve key now (wb_limiter s) of (ok, rl) \<Rightarrow> (Inr ok, s\<lparr>wb_limiter := rl\<rparr>))"

definition settle_ip :: "string \<Rightarrow> bool \<Rightarrow> time \<Rightarrow> ('s web_scheme, unit) act" where
  "settle_ip key failed now s = (Inr (), s\<lparr>wb_limiter := settle key failed now (wb_limiter s)\<rparr>)"

definition take_user :: "string \<Rightarrow> time \<Rightarrow> ('s web_scheme, bool) act" where
  "take_user key now s = (case reserve key now (wb_userLimiter s) of (ok, rl) \<Rightarrow> (Inr ok, s\<lparr>wb_userLimiter := rl\<rparr>))"

definition settle_user :: "string \<Rightarrow> bool \<Rightarrow> time \<Rightarrow> ('s web_scheme, unit) act" where
  "settle_user key failed now s = (Inr (), s\<lparr>wb_userLimiter := settle key failed now (wb_userLimiter s)\<rparr>)"

definition wrong_login :: response where
  "wrong_login = LoginPage 401 ''wrong username or password; check both and try again''"

text \<open>Between the two reservations and their settling: the answer, the note, and whether it failed.\<close>

definition login_attempt :: "server \<Rightarrow> request \<Rightarrow> string option \<Rightarrow> time \<Rightarrow> ('s web_scheme, response \<times> auditRecord \<times> bool) act" where
  "login_attempt sv r rand now = (let password = rq_Form r ''password'' in
     bindA (attempt (GetUserByName (rq_Form r ''username''))) (\<lambda>x. case x of
       Inl _ \<Rightarrow> ret (wrong_login, detail ''lookup failed'', True)
     | Inr None \<Rightarrow> ret (wrong_login, detail ''unknown user'', True)
     | Inr (Some u) \<Rightarrow>
         if \<not> (length password \<le> maxPasswordLen \<and> sv_match sv (us_PasswordHash u) password)
         then ret (wrong_login, by_user u ''wrong password'', True)
         else bindA (passwordLoginAllowed sv u) (\<lambda>allowed.
           if \<not> allowed then ret (wrong_login, by_user u ''password login disabled'', True)
           else bindA (attempt (startSession sv r (us_ID u) rand now)) (\<lambda>y. case y of
               Inl _ \<Rightarrow> ret (Failure 500 ''internal error'', by_user u [], False)
             | Inr tok \<Rightarrow> ret (SignedIn tok ''/'', by_user u [], False)))))"

text \<open>\<open>now\<close> is the time of the request, \<open>later\<close> that of its answer.\<close>

definition handleLogin :: "server \<Rightarrow> request \<Rightarrow> string option \<Rightarrow> time \<Rightarrow> time \<Rightarrow> 's handler" where
  "handleLogin sv r rand now later =
     (let ipKey = limitKey (clientIP (sv_proxies sv) r);
          userKey = ''login:'' @ truncate_str (rq_Form r ''username'') maxUsernameKeyLen in
      bindA (take_ip ipKey now) (\<lambda>ok.
      if \<not> ok then ret (Failure 429 ''too many sign-in attempts; wait a minute and try again'', detail ''rate limited'')
      else bindA (take_user userKey now) (\<lambda>ok.
        if \<not> ok then thenA (settle_ip ipKey False now)
          (ret (Failure 429 ''too many attempts for this account, try again later'', detail ''rate limited''))
        else bindA (login_attempt sv r rand now) (\<lambda>(resp, n, failed).
          thenA (settle_ip ipKey failed later)
          (thenA (settle_user userKey failed later) (ret (resp, n)))))))"

definition handleLogout :: "server \<Rightarrow> request \<Rightarrow> 's handler" where
  "handleLogout sv r = thenA (case rq_Cookie r of None \<Rightarrow> ret () | Some c \<Rightarrow> logged (DeleteSession (sv_hash sv) c))
     (answer (SignedOut ''/login''))"

definition handleSetupPage :: "'s handler" where
  "handleSetupPage = bindA (attempt CountUsers) (\<lambda>n. case n of
     Inr (Suc _) \<Rightarrow> answer (Redirect ''/'')
   | _ \<Rightarrow> answer (SetupPage 200 []))"

definition passwordTooLongMsg :: string where
  "passwordTooLongMsg = ''password must be at most 72 bytes (fewer characters if it uses non-ASCII letters)''"

definition already_set_up :: response where
  "already_set_up = Failure 403 ''already set up''"

definition handleSetup :: "server \<Rightarrow> request \<Rightarrow> string option \<Rightarrow> time \<Rightarrow> 's handler" where
  "handleSetup sv r rand now =
     (let username = rq_Form r ''username''; password = rq_Form r ''password'' in
      bindA (attempt CountUsers) (\<lambda>n.
      if (case n of Inr k \<Rightarrow> 0 < k | Inl _ \<Rightarrow> False) then answer already_set_up
      else if username = [] \<or> length password < minPasswordLen
      then answer (SetupPage 400 ''Choose a username and a password of at least 8 characters.'')
      else if maxPasswordLen < length password then answer (SetupPage 400 passwordTooLongMsg)
      else (case sv_gen sv password of
          None \<Rightarrow> answer serverError
        | Some h \<Rightarrow> orFail (CreateFirstAdmin username h) (\<lambda>created.
            if \<not> created then answer already_set_up
            else bindA (attempt (GetUserByName username)) (\<lambda>x. case x of
                Inr (Some u) \<Rightarrow> bindA (attempt (startSession sv r (us_ID u) rand now)) (\<lambda>y. case y of
                    Inl _ \<Rightarrow> ret (Redirect ''/login'', by_user u [])
                  | Inr tok \<Rightarrow> ret (SignedIn tok ''/welcome'', by_user u []))
              | _ \<Rightarrow> answer (Redirect ''/login''))))))"

section \<open>Passwords, sessions and API tokens\<close>

definition validNewPassword :: "request \<Rightarrow> string + string" where
  "validNewPassword r = (let new = rq_Form r ''new_password''; confirm = rq_Form r ''confirm_password'' in
     if confirm \<noteq> [] \<and> confirm \<noteq> new then Inl ''new passwords do not match''
     else if length new < minPasswordLen then Inl ''password must be at least 8 characters''
     else if maxPasswordLen < length new then Inl passwordTooLongMsg
     else Inr new)"

definition kept_token :: "request \<Rightarrow> string" where
  "kept_token r = (case rq_Cookie r of None \<Rightarrow> [] | Some c \<Rightarrow> c)"

text \<open>\<open>setPassword\<close>: what it answered itself, or \<open>done\<close>.\<close>

definition setPassword :: "server \<Rightarrow> request \<Rightarrow> int \<Rightarrow> string \<Rightarrow> response \<Rightarrow> auditRecord \<Rightarrow> 's handler" where
  "setPassword sv r uid password done n = (case sv_gen sv password of
     None \<Rightarrow> ret (serverError, n)
   | Some h \<Rightarrow> bindA (attempt (SetPasswordHash uid h)) (\<lambda>x. case x of
       Inl _ \<Rightarrow> ret (serverError, n)
     | Inr updated \<Rightarrow> if \<not> updated then ret (notFound, n)
         else bindA (attempt (DeleteSessionsForUser (sv_hash sv) uid (kept_token r))) (\<lambda>y. case y of
             Inl _ \<Rightarrow> ret (serverError, n)
           | Inr _ \<Rightarrow> ret (done, n))))"

definition handlePasswordChange :: "server \<Rightarrow> user option \<Rightarrow> request \<Rightarrow> time \<Rightarrow> time \<Rightarrow> 's handler" where
  "handlePasswordChange sv me r now later = (case me of
     None \<Rightarrow> answer unauthorized
   | Some u \<Rightarrow> (let key = ''change:'' @ string_of_int (us_ID u) in
       bindA (take_user key now) (\<lambda>ok.
       if \<not> ok then answer (SettingsError ''account'' 429 ''too many attempts; wait a minute and try again'')
       else (let wrong = (\<not> sv_match sv (us_PasswordHash u) (rq_Form r ''current_password'')) in
         thenA (settle_user key wrong later)
         (if wrong then answer (SettingsError ''account'' 403 ''the current password is wrong; enter the password you sign in with'')
          else (case validNewPassword r of
              Inl msg \<Rightarrow> answer (SettingsError ''account'' 400 msg)
            | Inr new \<Rightarrow> setPassword sv r (us_ID u) new (Redirect ''/settings/account'') no_note))))))"

text \<open>\<open>i\<close> is the id in the path, none when it is not a number.\<close>

definition on_user :: "string \<Rightarrow> auditRecord" where "on_user name = no_note\<lparr>nt_Target := ''user '' @ name\<rparr>"

definition handleUserPasswordReset :: "server \<Rightarrow> int option \<Rightarrow> request \<Rightarrow> 's handler" where
  "handleUserPasswordReset sv i r = (case i of
     None \<Rightarrow> answer notFound
   | Some i \<Rightarrow> orFail (GetUser i) (\<lambda>x. case x of
       None \<Rightarrow> answer notFound
     | Some u \<Rightarrow> (case validNewPassword r of
         Inl msg \<Rightarrow> ret (SettingsError ''users'' 400 msg, on_user (us_Username u))
       | Inr new \<Rightarrow> setPassword sv r i new (Redirect ''/settings/users'') (on_user (us_Username u)))))"

definition handleSessionRevoke :: "server \<Rightarrow> user option \<Rightarrow> string \<Rightarrow> request \<Rightarrow> 's handler" where
  "handleSessionRevoke sv me i r = (case me of
     None \<Rightarrow> answer unauthorized
   | Some u \<Rightarrow> orFail (DeleteSessionByID (us_ID u) i) (\<lambda>deleted.
       if \<not> deleted then answer notFound
       else (case rq_Cookie r of
           Some c \<Rightarrow> if SessionID (sv_hash sv) c = i then answer (SignedOut ''/login'') else answer (Redirect ''/settings/sessions'')
         | None \<Rightarrow> answer (Redirect ''/settings/sessions''))))"

definition handleSessionRevokeOthers :: "server \<Rightarrow> user option \<Rightarrow> request \<Rightarrow> 's handler" where
  "handleSessionRevokeOthers sv me r = (case me of
     None \<Rightarrow> answer unauthorized
   | Some u \<Rightarrow> orFail (DeleteSessionsForUser (sv_hash sv) (us_ID u) (kept_token r)) (\<lambda>_.
       answer (Redirect ''/settings/sessions'')))"

definition maxTokenNameLen :: nat where "maxTokenNameLen = 100"

text \<open>How long a token lives, in days; none is an answer that is refused.\<close>

definition expiry_days :: "string \<Rightarrow> nat option" where
  "expiry_days s = (let v = trim_space s in
     if v = [] then Some 0
     else (case atoi v of None \<Rightarrow> None | Some d \<Rightarrow> if d < 0 \<or> 3650 < d then None else Some (nat d)))"

definition handleTokenCreate :: "server \<Rightarrow> user option \<Rightarrow> request \<Rightarrow> string option \<Rightarrow> time \<Rightarrow> 's handler" where
  "handleTokenCreate sv me r rand now = (case me of
     None \<Rightarrow> answer unauthorized
   | Some u \<Rightarrow> (let name = trim_space (rq_Form r ''name''); readOnly = rq_Form r ''read_only'' \<noteq> [];
         n = \<lparr>nt_Target = ''token '' @ name, nt_Detail = (if readOnly then ''read-only'' else []), nt_User = None\<rparr> in
       if name = [] then answer (SettingsError ''tokens'' 400 ''give the token a name'')
       else if maxTokenNameLen < length name
       then answer (SettingsError ''tokens'' 400 ''the token name is too long; keep it under 100 characters'')
       else (case expiry_days (rq_Form r ''expires_days'') of
           None \<Rightarrow> ret (SettingsError ''tokens'' 400 ''expiry must be between 0 (never expires) and 3650 days'', n)
         | Some days \<Rightarrow> (case rand of
             None \<Rightarrow> ret (serverError, n)
           | Some tok \<Rightarrow> bindA (attempt (CreateAPIToken (sv_hash sv) (us_ID u) name tok
               (if days = 0 then None else Some (rfc3339 (now + int days * day))) readOnly now)) (\<lambda>x. case x of
                 Inl _ \<Rightarrow> ret (serverError, n)
               | Inr _ \<Rightarrow> ret (NewToken tok, n))))))"

definition handleTokenRevoke :: "user option \<Rightarrow> int option \<Rightarrow> 's handler" where
  "handleTokenRevoke me i = (case me of
     None \<Rightarrow> answer unauthorized
   | Some u \<Rightarrow> (case i of
       None \<Rightarrow> answer notFound
     | Some i \<Rightarrow> orFail (DeleteAPIToken (if us_Role u = ''admin'' then 0 else us_ID u) i) (\<lambda>deleted.
         if \<not> deleted then answer notFound else answer (Redirect ''/settings/tokens''))))"

section \<open>Only the right password starts a session\<close>

lemmas finds = GetUserByName_def GetUser_def GetSession_def

lemma limiters_tabs [simp]:
  "tabs (s\<lparr>wb_limiter := l\<rparr>) = tabs s" "tabs (s\<lparr>wb_userLimiter := l\<rparr>) = tabs s" "tabs (s\<lparr>wb_tokenLimiter := l\<rparr>) = tabs s"
  by simp_all

lemma wp_take_ip [wp_simps]:
  "wp (take_ip key now) Q s = (case reserve key now (wb_limiter s) of (ok, rl) \<Rightarrow> Q (Inr ok) (s\<lparr>wb_limiter := rl\<rparr>))"
  by (simp add: wp_def take_ip_def split: prod.splits)

lemma wp_take_user [wp_simps]:
  "wp (take_user key now) Q s = (case reserve key now (wb_userLimiter s) of (ok, rl) \<Rightarrow> Q (Inr ok) (s\<lparr>wb_userLimiter := rl\<rparr>))"
  by (simp add: wp_def take_user_def split: prod.splits)

lemma wp_take_token_slot [wp_simps]:
  "wp (take_token_slot key now) Q s = (case reserve key now (wb_tokenLimiter s) of (ok, rl) \<Rightarrow> Q (Inr ok) (s\<lparr>wb_tokenLimiter := rl\<rparr>))"
  by (simp add: wp_def take_token_slot_def split: prod.splits)

lemma wp_settles [wp_simps]:
  "wp (settle_ip key failed now) Q s = Q (Inr ()) (s\<lparr>wb_limiter := settle key failed now (wb_limiter s)\<rparr>)"
  "wp (settle_user key failed now) Q s = Q (Inr ()) (s\<lparr>wb_userLimiter := settle key failed now (wb_userLimiter s)\<rparr>)"
  "wp (settle_token key failed now) Q s = Q (Inr ()) (s\<lparr>wb_tokenLimiter := settle key failed now (wb_tokenLimiter s)\<rparr>)"
  by (simp_all add: wp_def settle_ip_def settle_user_def settle_token_def)

text \<open>Password login is open to this account.\<close>

definition password_open :: "server \<Rightarrow> tables \<Rightarrow> user \<Rightarrow> bool" where
  "password_open sv t u \<longleftrightarrow> (case sv_oidc sv of None \<Rightarrow> True
     | Some c \<Rightarrow> \<not> oc_DisablePassword c \<or>
         (us_Role u = ''admin'' \<and> filter (\<lambda>v. us_ID v = us_ID u \<and> us_OIDC v \<noteq> None) (t_user t) = []))"

lemma wp_allowed:
  assumes "\<And>fs. Q (Inr False) (s\<lparr>faults := fs\<rparr>)" and "\<And>fs. password_open sv (tabs s) u \<Longrightarrow> Q (Inr True) (s\<lparr>faults := fs\<rparr>)"
  shows "wp (passwordLoginAllowed sv u) Q s"
proof -
  have q: "Q (Inr b) (s\<lparr>faults := fs\<rparr>)" if "b \<Longrightarrow> password_open sv (tabs s) u" for b fs
    using that assms by (cases b) auto
  have now: "Q (Inr b) s" if "b \<Longrightarrow> password_open sv (tabs s) u" for b
    using q [of b "faults s"] that by simp
  have "wp (OIDCLinked (us_ID u)) (\<lambda>x s'. case x of Inl _ \<Rightarrow> Q (Inr False) s' | Inr l \<Rightarrow> Q (Inr (\<not> l)) s') s"
    if "sv_oidc sv = Some c" "us_Role u = ''admin''" for c
    unfolding OIDCLinked_def
    by (rule wp_query; simp; rule q) (use that in \<open>auto simp: password_open_def count_where_def\<close>)
  then show ?thesis using now unfolding passwordLoginAllowed_def wp_simps
    by (auto simp: password_open_def split: option.splits)
qed

text \<open>The row of a new session.\<close>

definition session_for :: "server \<Rightarrow> user \<Rightarrow> string \<Rightarrow> time \<Rightarrow> session \<Rightarrow> bool" where
  "session_for sv u tok now row \<longleftrightarrow> se_UserID row = us_ID u \<and> se_TokenHash row = sv_hash sv tok \<and>
     se_ExpiresAt row = rfc3339 (now + session_length)"

lemma wp_startSession:
  assumes "\<And>e fs. Q (Inl e) (s\<lparr>faults := fs\<rparr>)"
    and "\<And>fs tok row. rand = Some tok \<Longrightarrow> se_UserID row = uid \<and> se_TokenHash row = sv_hash sv tok \<and> se_ExpiresAt row = rfc3339 (now + session_length) \<Longrightarrow>
      Q (Inr tok) (s\<lparr>faults := fs, tabs := (tabs s)\<lparr>t_session := t_session (tabs s) @ [row]\<rparr>\<rparr>)"
  shows "wp (startSession sv r uid rand now) Q s"
proof -
  have "s\<lparr>faults := faults s\<rparr> = s" by simp
  then have e: "Q (Inl e) s" for e using assms(1) [of e "faults s"] by simp
  show ?thesis
  proof (cases rand)
    case (Some tok)
    then show ?thesis unfolding startSession_def CreateSession_def wp_simps
      by (simp, intro wp_stmt) (use assms in \<open>auto split: if_splits\<close>)
  qed (simp add: startSession_def wp_simps e)
qed

definition login_outcome :: "server \<Rightarrow> request \<Rightarrow> string option \<Rightarrow> time \<Rightarrow> tables \<Rightarrow> response \<Rightarrow> tables \<Rightarrow> bool" where
  "login_outcome sv r rand now t resp t' \<longleftrightarrow> (case resp of
     SignedIn tok to \<Rightarrow> (\<exists>u \<in> set (t_user t). us_Username u = rq_Form r ''username'' \<and>
         length (rq_Form r ''password'') \<le> maxPasswordLen \<and> sv_match sv (us_PasswordHash u) (rq_Form r ''password'') \<and>
         password_open sv t u \<and> rand = Some tok \<and>
         (\<exists>row. session_for sv u tok now row \<and> t' = t\<lparr>t_session := t_session t @ [row]\<rparr>))
   | _ \<Rightarrow> t' = t)"

lemma failure_outcome [simp]: "login_outcome sv r rand now t (Failure c m) t"
  by (simp add: login_outcome_def)

lemma login_attempt_outcome:
  "wp (login_attempt sv r rand now) (\<lambda>x s'. wb_limiter s' = wb_limiter s \<and> wb_userLimiter s' = wb_userLimiter s \<and>
     (case x of Inl _ \<Rightarrow> False | Inr (resp, n, failed) \<Rightarrow> login_outcome sv r rand now (tabs s) resp (tabs s'))) s"
proof -
  have found: "u \<in> set (t_user (tabs s)) \<and> us_Username u = rq_Form r ''username''"
    if "find_user (\<lambda>u. us_Username u = rq_Form r ''username'') (tabs s) = Some u" for u
    using that by (auto simp: find_user_def dest: find_SomeD)
  show ?thesis unfolding login_attempt_def finds wp_simps
    apply (rule wp_find)
     apply (simp add: login_outcome_def wrong_login_def)
    apply (simp add: login_outcome_def wrong_login_def split: option.split)
    apply (intro allI impI wp_allowed)
     apply (simp add: login_outcome_def wrong_login_def)
    apply simp
    apply (rule wp_startSession)
     apply (simp add: login_outcome_def)
    apply (use found in \<open>auto simp: login_outcome_def session_for_def\<close>)
    done
qed


text \<open>
  However a sign-in ends, both attempts it reserved, for the client's address and for the
  account, are settled: afterwards the same attempts are in flight as before.
\<close>

theorem handleLogin_settles:
  assumes "limiter_ok (wb_limiter s)" and "limiter_ok (wb_userLimiter s)"
  shows "case handleLogin sv r rand now later s of (x, s') \<Rightarrow>
    flights (wb_limiter s') = flights (wb_limiter s) \<and> flights (wb_userLimiter s') = flights (wb_userLimiter s)"
proof (rule wp_case)
  obtain ok1 l1 where 1: "reserve (limitKey (clientIP (sv_proxies sv) r)) now (wb_limiter s) = (ok1, l1)" by fastforce
  obtain ok2 l2 where 2: "reserve (''login:'' @ truncate_str (rq_Form r ''username'') maxUsernameKeyLen) now (wb_userLimiter s) = (ok2, l2)"
    by fastforce
  show "wp (handleLogin sv r rand now later) (\<lambda>x s'. flights (wb_limiter s') = flights (wb_limiter s) \<and>
      flights (wb_userLimiter s') = flights (wb_userLimiter s)) s"
    unfolding handleLogin_def wp_simps Let_def
    using 1 2 counting.refused [OF assms(1)] counting.refused [OF assms(2)]
      counting.paired [OF assms(1), of _ _ l1] counting.paired [OF assms(2), of _ _ l2]
    by (auto intro!: wp_mono [OF login_attempt_outcome] split: sum.splits)
qed

definition visitor :: "string \<Rightarrow> (string \<times> string) list \<Rightarrow> request" where
  "visitor path form = \<lparr>rq_Method = ''POST'', rq_Path = path, rq_Host = ''netis'', rq_RemoteAddr = ''pipe'', rq_TLS = False,
     rq_Header = (\<lambda>_. []), rq_Cookie = None, rq_Form = (\<lambda>k. case map_of form k of None \<Rightarrow> [] | Some v \<Rightarrow> v)\<rparr>"

definition sample_server :: server where
  "sample_server = \<lparr>sv_hash = id, sv_match = (\<lambda>h p. h = p), sv_gen = Some, sv_crypter = None, sv_proxies = [],
     sv_metricsToken = [], sv_oidc = None\<rparr>"

definition sample_web :: web where
  "sample_web = new_web (no_tables\<lparr>t_user := [\<lparr>us_ID = 1, us_Username = ''ann'', us_PasswordHash = ''correct horse'',
     us_Role = ''admin'', us_OIDC = None\<rparr>]\<rparr>) []"

lemma fresh_limiter: "limiter_ok (newRateLimiter n w)"
  by (simp add: limiter_ok_def newRateLimiter_def keyed_def bucket_of_def no_attempts_def)

theorem handleLogin_settles_witness:
  "let (x, s') = handleLogin sample_server (visitor ''/login'' [(''username'', ''ann''), (''password'', ''correct horse'')])
       (Some ''tok'') 0 1 sample_web
   in map_sum id fst x = Inr (SignedIn ''tok'' ''/'') \<and> flights (wb_limiter s') = flights (wb_limiter sample_web)"
proof -
  let ?run = "handleLogin sample_server (visitor ''/login'' [(''username'', ''ann''), (''password'', ''correct horse'')])
       (Some ''tok'') 0 1 sample_web"
  have "map_sum id fst (fst ?run) = Inr (SignedIn ''tok'' ''/'')" by code_simp
  moreover have "limiter_ok (wb_limiter sample_web)" "limiter_ok (wb_userLimiter sample_web)"
    by (simp_all add: sample_web_def new_web_def fresh_limiter)
  then have "flights (wb_limiter (snd ?run)) = flights (wb_limiter sample_web)"
    using handleLogin_settles [of sample_web sample_server
      "visitor ''/login'' [(''username'', ''ann''), (''password'', ''correct horse'')]" "Some ''tok''" 0 1]
    by (simp add: case_prod_beta)
  ultimately show ?thesis by (simp add: case_prod_beta Let_def)
qed

section \<open>Nothing is served to someone who proved nothing\<close>

definition live_session :: "server \<Rightarrow> string \<Rightarrow> time \<Rightarrow> tables \<Rightarrow> user \<Rightarrow> bool" where
  "live_session sv c now t u \<longleftrightarrow> (\<exists>se \<in> set (t_session t). se_TokenHash se = sv_hash sv c \<and>
     rfc3339 now < se_ExpiresAt se \<and> se_UserID se = us_ID u)"

definition live_api_token :: "server \<Rightarrow> request \<Rightarrow> string \<Rightarrow> time \<Rightarrow> tables \<Rightarrow> user \<Rightarrow> bool" where
  "live_api_token sv r tok now t u \<longleftrightarrow> (\<exists>k \<in> set (t_token t). live_token (sv_hash sv tok) (rfc3339 now) k \<and>
     at_UserID k = us_ID u \<and> (at_Scope k \<noteq> ''read'' \<or> rq_Method r = ''GET'' \<or> rq_Method r = ''HEAD''))"

text \<open>The user a request has proved to act for.\<close>

definition proved :: "server \<Rightarrow> request \<Rightarrow> time \<Rightarrow> tables \<Rightarrow> user \<Rightarrow> bool" where
  "proved sv r now t u \<longleftrightarrow> u \<in> set (t_user t) \<and> (case apiBearer r of
     Some tok \<Rightarrow> live_api_token sv r tok now t u
   | None \<Rightarrow> (case rq_Cookie r of Some c \<Rightarrow> live_session sv c now t u | None \<Rightarrow> False))"

definition auth_outcome :: "server \<Rightarrow> request \<Rightarrow> time \<Rightarrow> tables \<Rightarrow> decision \<Rightarrow> bool" where
  "auth_outcome sv r now t d \<longleftrightarrow> (case d of
     Serve (Some u) \<Rightarrow> proved sv r now t u
   | Serve None \<Rightarrow> public_path (rq_Path r) \<or> scrape_token sv r
   | Respond _ \<Rightarrow> \<not> public_path (rq_Path r))"

lemma session_user_live:
  "session_user (sv_hash sv c) (rfc3339 now) t = Some u \<Longrightarrow> u \<in> set (t_user t) \<and> live_session sv c now t u"
  by (auto simp: session_user_def find_user_def live_session_def dest!: find_SomeD split: option.splits)

lemma token_user_live:
  "token_user h now t = Some (k, u) \<Longrightarrow> u \<in> set (t_user t) \<and> k \<in> set (t_token t) \<and> live_token h now k \<and> at_UserID k = us_ID u"
  by (auto simp: token_user_def find_user_def dest!: find_SomeD split: option.splits)

lemma respond_outcome [simp]: "\<not> public_path (rq_Path r) \<Longrightarrow> auth_outcome sv r now t (Respond x)"
  by (simp add: auth_outcome_def)

lemma anonymous_outcome:
  assumes "\<not> public_path (rq_Path r)"
  shows "wp (anonymous r) (\<lambda>x s'. case x of Inl _ \<Rightarrow> False | Inr d \<Rightarrow> auth_outcome sv r now t d) s"
  unfolding anonymous_def CountUsers_def wp_simps
  using assms by (auto intro!: wp_query)

lemma signed_in_outcome:
  assumes "\<not> public_path (rq_Path r)" and "proved sv r now t u"
  shows "wp (signed_in sv r u) (\<lambda>x s'. case x of Inl _ \<Rightarrow> False | Inr d \<Rightarrow> auth_outcome sv r now t d) s"
proof -
  have d: "auth_outcome sv r now t (Serve (Some u))" using assms by (simp add: auth_outcome_def)
  then show ?thesis using assms(1) unfolding signed_in_def wp_simps by (auto intro!: wp_triv)
qed

lemma requireAuth_outcome:
  "wp (requireAuth sv r now) (\<lambda>x s'. case x of Inl _ \<Rightarrow> False | Inr d \<Rightarrow> auth_outcome sv r now (tabs s) d) s"
proof -
  let ?Q = "\<lambda>x s'. case x of Inl _ \<Rightarrow> False | Inr d \<Rightarrow> auth_outcome sv r now (tabs s) d"
  have open': "auth_outcome sv r now (tabs s) (Serve None)" if "public_path (rq_Path r) \<or> scrape_token sv r"
    using that by (simp add: auth_outcome_def)
  have bearer: "wp (serveBearer sv r tok now) ?Q s" if np: "\<not> public_path (rq_Path r)" and b: "apiBearer r = Some tok" for tok
  proof -
    have u: "proved sv r now (tabs s) u"
      if "token_user (sv_hash sv tok) (rfc3339 now) (tabs s) = Some (k, u)" "at_Scope k = ''read'' \<longrightarrow> rq_Method r = ''GET'' \<or> rq_Method r = ''HEAD''" for k u
      using token_user_live [OF that(1)] that(2) b by (auto simp: proved_def live_api_token_def)
    show ?thesis unfolding serveBearer_def GetUserByAPIToken_def wp_simps Let_def
      using np u by (auto simp: auth_outcome_def split: prod.split option.split intro!: wp_find wp_exec)
  qed
  have cookie: "wp (GetSession (sv_hash sv) c now) (\<lambda>x s'. case x of Inl _ \<Rightarrow> auth_outcome sv r now (tabs s) (Respond unavailable)
      | Inr None \<Rightarrow> wp (anonymous r) ?Q s' | Inr (Some u) \<Rightarrow> wp (signed_in sv r u) ?Q s') s"
    if "\<not> public_path (rq_Path r)" "apiBearer r = None" "rq_Cookie r = Some c" for c
    unfolding GetSession_def using that session_user_live [of sv c now "tabs s"]
    by (intro wp_find) (auto split: option.split simp: proved_def intro!: anonymous_outcome signed_in_outcome)
  show ?thesis
    unfolding requireAuth_def wp_simps
    using open' bearer anonymous_outcome
    by (auto split: option.split sum.splits option.splits intro!: wp_mono [OF cookie])
qed

text \<open>
  C18: A request reaches a handler as a user only with a live session of that user in its cookie, or a
  live API token of that user, which is then what counts whatever the cookie says and which reads only
  if it was made read-only; and it reaches one as nobody only on an open path or with the scrape token.
\<close>

theorem requireAuth_sound:
  "case requireAuth sv r now s of (Inl _, s') \<Rightarrow> False | (Inr d, s') \<Rightarrow> auth_outcome sv r now (tabs s) d"
  using requireAuth_outcome [of sv r now s] by (auto simp: wp_def split: prod.splits sum.splits)

section \<open>Setting up happens once\<close>

definition signs_in :: "response \<Rightarrow> bool" where
  "signs_in resp \<longleftrightarrow> (case resp of SignedIn _ _ \<Rightarrow> True | _ \<Rightarrow> False)"

text \<open>
  Once there is an account, setting the server up again changes nothing and signs nobody in,
  also when the check at its start could not be made because the database failed.
\<close>

theorem setup_happens_once:
  "case handleSetup sv r rand now s of (Inl _, s') \<Rightarrow> False
   | (Inr (resp, n), s') \<Rightarrow> t_user (tabs s) = [] \<or> (\<not> signs_in resp \<and> tabs s' = tabs s)"
proof -
  let ?Q = "\<lambda>x s'. case x of Inl _ \<Rightarrow> False | Inr (resp, n) \<Rightarrow> t_user (tabs s) = [] \<or> (\<not> signs_in resp \<and> tabs s' = tabs s)"
  have "wp (handleSetup sv r rand now) ?Q s"
  proof (cases "t_user (tabs s)")
    case Nil
    then have Q: "?Q = (\<lambda>x s'. \<not> isl x)" by (auto simp: fun_eq_iff split: sum.split)
    show ?thesis unfolding Q handleSetup_def orFail_def answer_def wp_simps Let_def
      by (intro wp_triv) (simp add: wp_triv split: sum.split option.split)
  next
    case (Cons v vs)
    have quiet: "\<not> signs_in (Failure c m)" "\<not> signs_in (SetupPage c m)" for c m by (simp_all add: signs_in_def)
    show ?thesis unfolding handleSetup_def orFail_def answer_def CountUsers_def CreateFirstAdmin_def wp_simps Let_def
    proof (rule wp_query, goal_cases)
      case (1 e fs)
      then show ?case
        by (simp add: quiet serverError_def already_set_up_def split: option.split)
          (intro impI allI wp_stmt; simp add: Cons quiet serverError_def already_set_up_def)
    qed (simp add: Cons quiet already_set_up_def)
  qed
  then show ?thesis by (auto simp: wp_def split: prod.splits sum.splits)
qed

section \<open>Changing a password\<close>

definition password_changed :: "server \<Rightarrow> request \<Rightarrow> int \<Rightarrow> string \<Rightarrow> tables \<Rightarrow> tables \<Rightarrow> bool" where
  "password_changed sv r uid h t t' \<longleftrightarrow> t' = t
     \<lparr>t_user := map (\<lambda>v. if us_ID v = uid then v\<lparr>us_PasswordHash := h\<rparr> else v) (t_user t),
      t_session := filter (\<lambda>se. \<not> (se_UserID se = uid \<and> se_TokenHash se \<noteq> sv_hash sv (kept_token r))) (t_session t)\<rparr>"

lemma setPassword_outcome:
  "wp (setPassword sv r uid p (Redirect to) n) (\<lambda>x s'. case x of Inl _ \<Rightarrow> False
     | Inr (resp, _) \<Rightarrow> resp \<in> {serverError, notFound} \<or>
         (resp = Redirect to \<and> (\<exists>h. sv_gen sv p = Some h \<and> password_changed sv r uid h (tabs s) (tabs s')))) s"
  unfolding setPassword_def SetPasswordHash_def DeleteSessionsForUser_def wp_simps
  by (auto intro!: wp_exec simp: password_changed_def upd_user_def del_session_def del_where_def upd_where_def split: option.split)

definition change_outcome :: "server \<Rightarrow> user \<Rightarrow> request \<Rightarrow> tables \<Rightarrow> response \<Rightarrow> tables \<Rightarrow> bool" where
  "change_outcome sv u r t resp t' \<longleftrightarrow> (case resp of
     Redirect to \<Rightarrow> sv_match sv (us_PasswordHash u) (rq_Form r ''current_password'') \<and>
       (\<exists>h. sv_gen sv (rq_Form r ''new_password'') = Some h \<and> password_changed sv r (us_ID u) h t t')
   | SettingsError _ _ _ \<Rightarrow> t' = t
   | _ \<Rightarrow> resp \<in> {serverError, notFound})"

text \<open>
  A password change that is reported as done was made with the matching current password, and
  then exactly this user's hash is the new one and of the sessions exactly the user's others are gone;
  an answer of wrong password, a rejected new one and a used-up limit change nothing.
\<close>

theorem password_change_exact:
  "case handlePasswordChange sv (Some u) r now later s of
     (Inl _, s') \<Rightarrow> False | (Inr (resp, n), s') \<Rightarrow> change_outcome sv u r (tabs s) resp (tabs s')"
proof -
  have new: "rq_Form r ''new_password'' = p" if "validNewPassword r = Inr p" for p
    using that by (auto simp: validNewPassword_def Let_def split: if_splits)
  have err: "change_outcome sv u r t (SettingsError a c m) t" for a c m t by (simp add: change_outcome_def)
  have set: "wp (setPassword sv r (us_ID u) p (Redirect to) n) (\<lambda>x s'. case x of Inl _ \<Rightarrow> False
      | Inr (resp, n) \<Rightarrow> change_outcome sv u r (tabs s1) resp (tabs s')) s1"
    if "validNewPassword r = Inr p" "sv_match sv (us_PasswordHash u) (rq_Form r ''current_password'')" for p to n and s1 :: "'a web_scheme"
    by (rule wp_mono [OF setPassword_outcome])
      (use new [OF that(1)] that(2) in \<open>auto simp: change_outcome_def serverError_def notFound_def split: sum.splits\<close>)
  have "wp (handlePasswordChange sv (Some u) r now later)
      (\<lambda>x s'. case x of Inl _ \<Rightarrow> False | Inr (resp, n) \<Rightarrow> change_outcome sv u r (tabs s) resp (tabs s')) s"
    unfolding handlePasswordChange_def answer_def wp_simps Let_def option.case
    by (auto simp: err split: prod.split sum.split intro!: wp_mono [OF set])
  then show ?thesis by (auto simp: wp_def split: prod.splits sum.splits)
qed

definition two_browsers :: "bool list \<Rightarrow> web" where
  "two_browsers fs = new_web (no_tables\<lparr>t_user := [\<lparr>us_ID = 1, us_Username = ''ann'', us_PasswordHash = ''old secret'',
       us_Role = ''admin'', us_OIDC = None\<rparr>],
     t_session := map (\<lambda>h. \<lparr>se_TokenHash = h, se_UserID = 1, se_ExpiresAt = 100, se_CreatedAt = None, se_IP = None,
       se_UserAgent = None\<rparr>) [''mine'', ''theirs'']\<rparr>) fs"

definition changing :: request where
  "changing = (visitor ''/settings/password'' [(''current_password'', ''old secret''), (''new_password'', ''new secret'')])
     \<lparr>rq_Cookie := Some ''mine''\<rparr>"

text \<open>
  The new password and the end of the other sessions are separate statements: when the second
  fails, the user is told that the change failed, while the old password no longer counts and the
  sessions it was meant to end live on.
\<close>

theorem password_change_half_done:
  "let (x, s') = handlePasswordChange sample_server (List.find (\<lambda>_. True) (t_user (tabs (two_browsers [])))) changing 0 1 (two_browsers [False, True])
   in map_sum id fst x = Inr serverError \<and> calm s' \<and> map us_PasswordHash (t_user (tabs s')) = [''new secret''] \<and>
      map se_TokenHash (t_session (tabs s')) = [''mine'', ''theirs'']"
  by code_simp

end
