(* ===== verification/Web_OIDC.thy ===== *)
theory Web_OIDC
  imports Web_Auth
begin

text \<open>
  internal/web/oidc.go: signing in through an OpenID Connect provider. The provider (its token
  endpoint and the verification of its tokens), HMAC, base64 and JSON are arguments.
\<close>

section \<open>The flow cookie\<close>

record flow =
  fl_State :: string
  fl_Nonce :: string
  fl_Verifier :: string
  fl_Link :: int
  fl_Expires :: int

record flow_codec =
  fc_marshal :: "flow \<Rightarrow> string"
  fc_unmarshal :: "string \<Rightarrow> flow option"
  fc_b64 :: "string \<Rightarrow> string"
  fc_unb64 :: "string \<Rightarrow> string option"
  fc_sign :: "string \<Rightarrow> string"

definition oidcFlowTTL :: int where "oidcFlowTTL = 10 * minute"

definition encodeFlow :: "flow_codec \<Rightarrow> flow \<Rightarrow> string" where
  "encodeFlow c f = (let payload = fc_marshal c f in fc_b64 c payload @ ''.'' @ fc_b64 c (fc_sign c payload))"

definition decodeFlow :: "flow_codec \<Rightarrow> time \<Rightarrow> string \<Rightarrow> flow option" where
  "decodeFlow c now v = (case cut CHR ''.'' v of (p, sig, ok) \<Rightarrow>
     if \<not> ok then None
     else (case fc_unb64 c p of None \<Rightarrow> None | Some payload \<Rightarrow>
       (case fc_unb64 c sig of None \<Rightarrow> None | Some mac \<Rightarrow>
         if mac \<noteq> fc_sign c payload then None
         else (case fc_unmarshal c payload of None \<Rightarrow> None
           | Some f \<Rightarrow> if fl_Expires f < now div second then None else Some f))))"

text \<open>The flow a browser is sent off with; the random values are given, none when they could not be read.\<close>

definition new_flow :: "string option \<Rightarrow> string option \<Rightarrow> string \<Rightarrow> int \<Rightarrow> time \<Rightarrow> flow option" where
  "new_flow state nonce verifier link now = (case (state, nonce) of
     (Some st, Some n) \<Rightarrow> Some \<lparr>fl_State = st, fl_Nonce = n, fl_Verifier = verifier, fl_Link = link,
       fl_Expires = (now + oidcFlowTTL) div second\<rparr>
   | _ \<Rightarrow> None)"

section \<open>Claims\<close>

record claims =
  cl_PreferredUsername :: string
  cl_Email :: string
  cl_EmailVerified :: bool

text \<open>Elements of a list that are not strings are none.\<close>

datatype claim_value = ClaimString string | ClaimList "string option list" | ClaimOther

fun claimStrings :: "claim_value \<Rightarrow> string list" where
  "claimStrings (ClaimString s) = [s]"
| "claimStrings (ClaimList vs) = List.map_filter id vs"
| "claimStrings ClaimOther = []"

definition claimBool :: "string \<Rightarrow> bool" where
  "claimBool json \<longleftrightarrow> json = ''true'' \<or> json = CHR 0x22 # ''true'' @ [CHR 0x22]"

definition maxSSOUsernameLen :: nat where "maxSSOUsernameLen = 128"

text \<open>\<open>strings.ToValidUTF8\<close> with an empty replacement: bytes that belong to no rune are left out.\<close>

fun valid_utf8 :: "nat \<Rightarrow> string \<Rightarrow> string" where
  "valid_utf8 0 s = []"
| "valid_utf8 (Suc n) [] = []"
| "valid_utf8 (Suc n) (c # s) = (let k = rune_len (c # s) in
     if k = 1 \<and> 0x80 \<le> (of_char c :: nat) then valid_utf8 n s
     else take k (c # s) @ valid_utf8 n (drop k (c # s)))"

definition ssoUsername :: "claims \<Rightarrow> string \<Rightarrow> string" where
  "ssoUsername c subject =
     (let n1 = trim_space (cl_PreferredUsername c);
          n2 = (if n1 = [] \<and> cl_EmailVerified c then trim_space (cl_Email c) else n1);
          name = truncate_str (if n2 = [] then subject else n2) maxSSOUsernameLen
      in valid_utf8 (length name) name)"

section \<open>From an identity to an account\<close>

datatype outcome = Allowed user | Refused string string

definition sso_role :: "oidc_config \<Rightarrow> string list \<Rightarrow> string" where
  "sso_role cfg grps = (if oc_AdminGroup cfg \<noteq> [] \<and> oc_AdminGroup cfg \<in> set grps then ''admin'' else ''viewer'')"

definition oidcUser :: "server \<Rightarrow> oidc_config \<Rightarrow> string \<Rightarrow> string \<Rightarrow> claims \<Rightarrow> string list \<Rightarrow> string option \<Rightarrow>
    ('s web_scheme, outcome) act" where
  "oidcUser sv cfg issuer subject c grps rand =
     (let role = sso_role cfg grps; managed = oc_AdminGroup cfg \<noteq> [] in
      bindA (GetUserByOIDC issuer subject) (\<lambda>x. case x of
        Some u \<Rightarrow> if managed \<and> us_Role u \<noteq> role
          then thenA (SetSSORole (us_ID u) role) (ret (Allowed (u\<lparr>us_Role := role\<rparr>)))
          else ret (Allowed u)
      | None \<Rightarrow>
          if \<not> oc_AutoCreate cfg then ret (Refused ''unknown identity, auto-create off''
            ''no netis account is linked to this SSO account; sign in with your password and link it under Settings, Profile, or ask an admin'')
          else (let name = ssoUsername c subject in
            (case rand of None \<Rightarrow> fail (ErrMsg ''rand'') | Some secret \<Rightarrow>
            (case sv_gen sv secret of None \<Rightarrow> fail (ErrMsg ''bcrypt'') | Some h \<Rightarrow>
              bindA (attempt (CreateOIDCUser name h role issuer subject)) (\<lambda>y. case y of
                Inl e \<Rightarrow> if e = ErrUnique
                  then ret (Refused (''username taken by a local account: '' @ name)
                    (''a netis account named '' @ name @ '' already exists; sign in to it with your password and link SSO under Settings, Profile''))
                  else fail e
              | Inr i \<Rightarrow> ret (Allowed \<lparr>us_ID = i, us_Username = name, us_PasswordHash = h, us_Role = role,
                    us_OIDC = Some (issuer, subject)\<rparr>)))))))"

definition relink_msg :: response where
  "relink_msg = LoginPage 403 ''sign in again to link your SSO account''"

text \<open>The answer, the note, and whether the account was linked.\<close>

definition linkOIDC :: "server \<Rightarrow> request \<Rightarrow> int \<Rightarrow> string \<Rightarrow> string \<Rightarrow> time \<Rightarrow> ('s web_scheme, response \<times> auditRecord \<times> bool) act" where
  "linkOIDC sv r uid issuer subject now =
     bindA (attempt (case rq_Cookie r of None \<Rightarrow> ret None | Some c \<Rightarrow> GetSession (sv_hash sv) c now)) (\<lambda>x. case x of
       Inl _ \<Rightarrow> ret (unavailable, no_note, False)
     | Inr None \<Rightarrow> ret (relink_msg, detail ''not signed in as the linking user'', False)
     | Inr (Some u) \<Rightarrow>
         if us_ID u \<noteq> uid then ret (relink_msg, by_user u ''not signed in as the linking user'', False)
         else bindA (attempt (LinkOIDC (us_ID u) issuer subject)) (\<lambda>y. case y of
             Inl e \<Rightarrow> if e = ErrUnique
               then ret (SettingsError ''account'' 409 ''that SSO account is already linked to another netis user'',
                 by_user u ''identity linked to another user'', False)
               else ret (serverError, by_user u [], False)
           | Inr linked \<Rightarrow> if \<not> linked then ret (relink_msg, by_user u ''user gone'', False)
               else ret (Redirect ''/settings/account'', by_user u [], True)))"

section \<open>The callback\<close>

record id_token =
  it_Issuer :: string
  it_Subject :: string
  it_Nonce :: string
  it_Claims :: "(claims \<times> claim_value) option"

record provider =
  pv_up :: bool
  pv_exchange :: "string \<Rightarrow> string \<Rightarrow> string option"
  pv_verify :: "string \<Rightarrow> id_token option"

definition sign_in_failed :: response where
  "sign_in_failed = LoginPage 401 ''sign-in failed; try again, or sign in with your password''"

definition provider_down :: response where
  "provider_down = LoginPage 502 ''the sign-in provider is unreachable; try again later''"

text \<open>A verified token of the flow: nothing, or the answer and its note.\<close>

definition verified_token :: "provider \<Rightarrow> flow \<Rightarrow> string \<Rightarrow> (response \<times> string) + id_token \<times> claims \<times> claim_value" where
  "verified_token pv f code =
     (if \<not> pv_up pv then Inl (provider_down, ''provider unreachable'')
      else (case pv_exchange pv code (fl_Verifier f) of
        None \<Rightarrow> Inl (sign_in_failed, ''code exchange failed'')
      | Some raw \<Rightarrow> (case pv_verify pv raw of
          None \<Rightarrow> Inl (sign_in_failed, ''id token rejected'')
        | Some t \<Rightarrow> if it_Nonce t \<noteq> fl_Nonce f then Inl (sign_in_failed, ''nonce mismatch'')
            else (case it_Claims t of None \<Rightarrow> Inl (sign_in_failed, ''claims unreadable'')
              | Some (c, g) \<Rightarrow> Inr (t, c, g)))))"

definition finish_login :: "server \<Rightarrow> oidc_config \<Rightarrow> request \<Rightarrow> id_token \<Rightarrow> claims \<Rightarrow> claim_value \<Rightarrow>
    string option \<Rightarrow> string option \<Rightarrow> time \<Rightarrow> ('s web_scheme, response \<times> auditRecord \<times> bool) act" where
  "finish_login sv cfg r t c g secret rand now =
     bindA (attempt (oidcUser sv cfg (it_Issuer t) (it_Subject t) c (claimStrings g) secret)) (\<lambda>x. case x of
       Inl _ \<Rightarrow> ret (serverError, no_note, True)
     | Inr (Refused reason msg) \<Rightarrow> ret (LoginPage 403 msg, detail reason, True)
     | Inr (Allowed u) \<Rightarrow> bindA (attempt (startSession sv r (us_ID u) rand now)) (\<lambda>y. case y of
         Inl _ \<Rightarrow> ret (serverError, by_user u [], True)
       | Inr tok \<Rightarrow> ret (SignedIn tok ''/'', by_user u [], False)))"

text \<open>Between reserving the attempt and settling it: the answer, the note, whether it failed, the action.\<close>

definition callback_attempt :: "server \<Rightarrow> oidc_config \<Rightarrow> flow_codec \<Rightarrow> provider \<Rightarrow> request \<Rightarrow> string option \<Rightarrow>
    string option \<Rightarrow> string option \<Rightarrow> time \<Rightarrow> ('s web_scheme, (response \<times> auditRecord \<times> bool) \<times> string) act" where
  "callback_attempt sv cfg fc pv r cookie secret rand now =
     (case (case cookie of None \<Rightarrow> None | Some v \<Rightarrow> decodeFlow fc now v) of
        None \<Rightarrow> ret ((LoginPage 400 ''sign-in expired or was started in another browser; try again'', detail ''bad state'', True), ''sso.login'')
      | Some f \<Rightarrow>
          if rq_Form r ''state'' = [] \<or> rq_Form r ''state'' \<noteq> fl_State f
          then ret ((LoginPage 400 ''sign-in expired or was started in another browser; try again'', detail ''bad state'', True), ''sso.login'')
          else (let action = (if fl_Link f \<noteq> 0 then ''sso.link'' else ''sso.login'') in
            if rq_Form r ''error'' \<noteq> []
            then ret ((LoginPage 401 ''the sign-in provider refused the sign-in'', detail ''refused by provider'', True), action)
            else (case verified_token pv f (rq_Form r ''code'') of
                Inl (resp, why) \<Rightarrow> ret ((resp, detail why, True), action)
              | Inr (t, c, g) \<Rightarrow>
                  if fl_Link f \<noteq> 0
                  then bindA (linkOIDC sv r (fl_Link f) (it_Issuer t) (it_Subject t) now) (\<lambda>(resp, n, linked).
                         ret ((resp, n, \<not> linked), action))
                  else bindA (finish_login sv cfg r t c g secret rand now) (\<lambda>x. ret (x, action)))))"

definition status_of :: "response \<Rightarrow> int" where
  "status_of resp = (case resp of
     Redirect _ \<Rightarrow> 303 | Failure n _ \<Rightarrow> int n | LoginPage n _ \<Rightarrow> int n | SetupPage n _ \<Rightarrow> int n
   | SettingsError _ n _ \<Rightarrow> int n | NewToken _ \<Rightarrow> 200 | SignedIn _ _ \<Rightarrow> 303 | SignedOut _ \<Rightarrow> 303
   | Page _ \<Rightarrow> 200 | Flash _ _ \<Rightarrow> 303 | ApiError n _ \<Rightarrow> int n | ApiDevice n _ \<Rightarrow> int n | ApiDone n \<Rightarrow> int n | Moved _ \<Rightarrow> 307
   | Navigate _ _ \<Rightarrow> 204 | Toast _ \<Rightarrow> 200 | DeviceForm n _ \<Rightarrow> int n
   | ImportPage n _ _ \<Rightarrow> int n | Download _ _ \<Rightarrow> 200 | Text n _ \<Rightarrow> int n)"

definition recordAudit :: "server \<Rightarrow> request \<Rightarrow> string \<Rightarrow> response \<Rightarrow> auditRecord \<Rightarrow> time \<Rightarrow> ('s web_scheme, unit) act" where
  "recordAudit sv r action resp n now = logged (AddAudit now (Some now)
     \<lparr>au_ID = 0, au_At = 0, au_UserID = map_option fst (nt_User n),
      au_Username = (case nt_User n of None \<Rightarrow> [] | Some u \<Rightarrow> snd u), au_Action = action, au_Target = [],
      au_Detail = nt_Detail n, au_IP = clientIP (sv_proxies sv) r, au_Status = status_of resp\<rparr>)"

definition handleOIDCCallback :: "server \<Rightarrow> flow_codec \<Rightarrow> provider \<Rightarrow> request \<Rightarrow> string option \<Rightarrow>
    string option \<Rightarrow> string option \<Rightarrow> time \<Rightarrow> time \<Rightarrow> ('s web_scheme, response) act" where
  "handleOIDCCallback sv fc pv r cookie secret rand now later = (case sv_oidc sv of
     None \<Rightarrow> ret notFound
   | Some cfg \<Rightarrow>
       (let ipKey = limitKey (clientIP (sv_proxies sv) r) in
        bindA (take_ip ipKey now) (\<lambda>ok.
        if \<not> ok then (let resp = Failure 429 ''too many attempts, wait a minute'' in
          thenA (recordAudit sv r ''sso.login'' resp (detail ''rate limited'') now) (ret resp))
        else bindA (callback_attempt sv cfg fc pv r cookie secret rand now) (\<lambda>((resp, n, failed), action).
          thenA (settle_ip ipKey failed later)
          (thenA (recordAudit sv r action resp n later) (ret resp))))))"

definition handleOIDCLogin :: "server \<Rightarrow> provider \<Rightarrow> string option \<Rightarrow> string option \<Rightarrow> string \<Rightarrow> time \<Rightarrow>
    ('s web_scheme, response + flow) act" where
  "handleOIDCLogin sv pv state nonce verifier now = (case sv_oidc sv of
     None \<Rightarrow> ret (Inl notFound)
   | Some cfg \<Rightarrow> bindA (attempt CountUsers) (\<lambda>n. case n of
       Inl _ \<Rightarrow> ret (Inl unavailable)
     | Inr k \<Rightarrow> if k = 0 then ret (Inl (Redirect ''/setup''))
         else if \<not> pv_up pv then ret (Inl provider_down)
         else (case new_flow state nonce verifier 0 now of None \<Rightarrow> ret (Inl serverError) | Some f \<Rightarrow> ret (Inr f))))"

definition handleOIDCLink :: "server \<Rightarrow> user option \<Rightarrow> provider \<Rightarrow> string option \<Rightarrow> string option \<Rightarrow> string \<Rightarrow> time \<Rightarrow>
    ('s web_scheme, response + flow) act" where
  "handleOIDCLink sv me pv state nonce verifier now = (case me of
     None \<Rightarrow> ret (Inl unauthorized)
   | Some u \<Rightarrow> if sv_oidc sv = None then ret (Inl notFound)
       else if \<not> pv_up pv then ret (Inl provider_down)
       else (case new_flow state nonce verifier (us_ID u) now of None \<Rightarrow> ret (Inl serverError) | Some f \<Rightarrow> ret (Inr f)))"

section \<open>An identity only ever reaches its own account\<close>

definition is_identity :: "string \<Rightarrow> string \<Rightarrow> user \<Rightarrow> bool" where
  "is_identity issuer subject u \<longleftrightarrow> us_OIDC u = Some (issuer, subject)"

text \<open>An account afterwards: as it was, or with another role if the identity is its own.\<close>

definition account_kept :: "string \<Rightarrow> string \<Rightarrow> user \<Rightarrow> user \<Rightarrow> bool" where
  "account_kept issuer subject u v \<longleftrightarrow> v = u \<or> (is_identity issuer subject u \<and> v = u\<lparr>us_Role := us_Role v\<rparr>)"

definition accounts_kept :: "string \<Rightarrow> string \<Rightarrow> tables \<Rightarrow> tables \<Rightarrow> bool" where
  "accounts_kept issuer subject t t' \<longleftrightarrow> (\<exists>us new. t_user t' = us @ new \<and>
     list_all2 (account_kept issuer subject) (t_user t) us \<and> length new \<le> 1 \<and> list_all (is_identity issuer subject) new) \<and>
     t'\<lparr>t_user := t_user t\<rparr> = t"

lemma accounts_keptI:
  assumes "list_all2 (account_kept issuer subject) (t_user t) us"
  shows "accounts_kept issuer subject t (t\<lparr>t_user := us\<rparr>)"
  unfolding accounts_kept_def by (rule conjI, rule exI [of _ us], rule exI [of _ "[]"]) (use assms in simp_all)

lemma accounts_kept_refl: "accounts_kept issuer subject t t"
proof -
  have "list_all2 (account_kept issuer subject) (t_user t) (t_user t)"
    by (rule list_all2_refl) (simp add: account_kept_def)
  then show ?thesis using accounts_keptI [of issuer subject t "t_user t"] by simp
qed

lemma role_kept:
  assumes "distinct (map us_ID us)" and "u \<in> set us" and "is_identity issuer subject u"
  shows "list_all2 (account_kept issuer subject) us (upd_where (\<lambda>v. us_ID v = us_ID u) (\<lambda>v. v\<lparr>us_Role := role\<rparr>) us)"
proof -
  have "account_kept issuer subject v (if us_ID v = us_ID u then v\<lparr>us_Role := role\<rparr> else v)" if "v \<in> set us" for v
    using that assms by (auto simp: account_kept_def dest: distinct_key_eq)
  then show ?thesis by (simp add: upd_where_def list_all2_conv_all_nth)
qed

definition identity_outcome :: "string \<Rightarrow> string \<Rightarrow> tables \<Rightarrow> outcome \<Rightarrow> tables \<Rightarrow> bool" where
  "identity_outcome issuer subject t out t' \<longleftrightarrow> (case out of
     Allowed u \<Rightarrow> u \<in> set (t_user t') \<and> is_identity issuer subject u
   | Refused _ _ \<Rightarrow> t' = t)"

lemma oidcUser_outcome:
  assumes "distinct (map us_ID (t_user (tabs s)))"
  shows "wp (oidcUser sv cfg issuer subject c grps rand) (\<lambda>x s'. accounts_kept issuer subject (tabs s) (tabs s') \<and>
     (case x of Inl _ \<Rightarrow> True | Inr out \<Rightarrow> identity_outcome issuer subject (tabs s) out (tabs s'))) s"
proof -
  let ?Q = "\<lambda>x s'. accounts_kept issuer subject (tabs s) (tabs s') \<and>
     (case x of Inl _ \<Rightarrow> True | Inr out \<Rightarrow> identity_outcome issuer subject (tabs s) out (tabs s'))"
  have found: "u \<in> set (t_user (tabs s)) \<and> is_identity issuer subject u"
    if "find_user (\<lambda>u. us_OIDC u = Some (issuer, subject)) (tabs s) = Some u" for u
    using that by (auto simp: find_user_def is_identity_def dest: find_SomeD)
  have role: "wp (SetSSORole (us_ID u) role) (\<lambda>x s'. case x of Inl e \<Rightarrow> ?Q (Inl e) s' | Inr _ \<Rightarrow> ?Q (Inr (Allowed (u\<lparr>us_Role := role\<rparr>))) s') (s\<lparr>faults := fs\<rparr>)"
    if u: "u \<in> set (t_user (tabs s))" "is_identity issuer subject u" for u role fs
  proof -
    let ?us = "upd_where (\<lambda>v. us_ID v = us_ID u) (\<lambda>v. v\<lparr>us_Role := role\<rparr>) (t_user (tabs s))"
    have "accounts_kept issuer subject (tabs s) ((tabs s)\<lparr>t_user := ?us\<rparr>)"
      by (rule accounts_keptI) (rule role_kept [OF assms u])
    moreover have "u\<lparr>us_Role := role\<rparr> \<in> set ?us" using u(1) by (force simp: upd_where_def)
    moreover have "is_identity issuer subject (u\<lparr>us_Role := role\<rparr>)" using u(2) by (simp add: is_identity_def)
    ultimately show ?thesis unfolding SetSSORole_def
      by (intro wp_stmt) (auto simp: accounts_kept_refl identity_outcome_def Let_def upd_user_def split: if_splits)
  qed
  have create: "wp (CreateOIDCUser name h role issuer subject) (\<lambda>y s'. case y of
       Inl e \<Rightarrow> if e = ErrUnique then ?Q (Inr (Refused m1 m2)) s' else ?Q (Inl e) s'
     | Inr i \<Rightarrow> ?Q (Inr (Allowed \<lparr>us_ID = i, us_Username = name, us_PasswordHash = h, us_Role = role,
         us_OIDC = Some (issuer, subject)\<rparr>)) s') (s\<lparr>faults := fs\<rparr>)" for name h role m1 m2 fs
  proof -
    have "accounts_kept issuer subject (tabs s) ((tabs s)\<lparr>t_user := t_user (tabs s) @ [v]\<rparr>)" if "is_identity issuer subject v" for v
    proof -
      have "list_all2 (account_kept issuer subject) (t_user (tabs s)) (t_user (tabs s))"
        by (rule list_all2_refl) (simp add: account_kept_def)
      then show ?thesis unfolding accounts_kept_def
        by (intro conjI) (rule exI [of _ "t_user (tabs s)"], rule exI [of _ "[v]"], use that in simp_all)
    qed
    then show ?thesis unfolding CreateOIDCUser_def
      by (intro wp_stmt)
        (auto simp: accounts_kept_refl identity_outcome_def ins_user_def Let_def is_identity_def split: if_splits)
  qed
  show ?thesis unfolding oidcUser_def GetUserByOIDC_def wp_simps Let_def
  proof (rule wp_find, goal_cases)
    case (1 e fs)
    then show ?case by (simp add: accounts_kept_refl)
  next
    case (2 fs)
    show ?case using found
      by (auto simp: accounts_kept_refl identity_outcome_def split: option.split sum.splits if_splits
          intro!: wp_mono [OF role] wp_mono [OF create])
  qed
qed

text \<open>
  C21: An identity the provider vouches for signs in only to the account linked to it, or to a new one
  made for it; every other account stays exactly as it was, whatever names the provider claims, and of
  the linked one at most the role changes.
\<close>

theorem oidcUser_own_account:
  assumes "distinct (map us_ID (t_user (tabs s)))"
  shows "case oidcUser sv cfg issuer subject c grps rand s of (x, s') \<Rightarrow>
     accounts_kept issuer subject (tabs s) (tabs s') \<and>
     (case x of Inl _ \<Rightarrow> True | Inr out \<Rightarrow> identity_outcome issuer subject (tabs s) out (tabs s'))"
  by (rule wp_case) (rule oidcUser_outcome [OF assms])

definition sso_server :: server where
  "sso_server = sample_server\<lparr>sv_oidc := Some \<lparr>oc_Issuer = ''idp'', oc_AdminGroup = ''admins'', oc_GroupsClaim = ''groups'',
     oc_AutoCreate = True, oc_DisablePassword = False\<rparr>\<rparr>"

definition sso_config :: oidc_config where
  "sso_config = the (sv_oidc sso_server)"

definition linked_admin :: user where
  "linked_admin = \<lparr>us_ID = 1, us_Username = ''ann'', us_PasswordHash = ''h'', us_Role = ''admin'', us_OIDC = Some (''idp'', ''ann-sub'')\<rparr>"

definition sso_web :: web where
  "sso_web = new_web (no_tables\<lparr>t_user := [linked_admin]\<rparr>) []"

definition named_admin :: claims where
  "named_admin = \<lparr>cl_PreferredUsername = ''ann'', cl_Email = [], cl_EmailVerified = False\<rparr>"

theorem oidcUser_own_account_witness:
  "let (x, s') = oidcUser sso_server sso_config ''idp'' ''mallory'' named_admin [] (Some ''r'') sso_web
   in \<not> isl x \<and> accounts_kept ''idp'' ''mallory'' (tabs sso_web) (tabs s')"
proof -
  have "distinct (map us_ID (t_user (tabs sso_web)))" by code_simp
  moreover have "\<not> isl (fst (oidcUser sso_server sso_config ''idp'' ''mallory'' named_admin [] (Some ''r'') sso_web))"
    by code_simp
  ultimately show ?thesis
    using oidcUser_own_account [where s = sso_web and sv = sso_server and cfg = sso_config and issuer = "''idp''"
        and subject = "''mallory''" and c = named_admin and grps = "[]" and rand = "Some ''r''"]
    by (simp add: case_prod_beta Let_def)
qed

text \<open>
  The role an SSO sign-in brings is set without the guard that every other role change has: the
  only admin, linked to an identity outside the admin group, signs in and no admin is left.
\<close>

theorem sso_login_demotes_last_admin:
  "let (x, s') = oidcUser sso_server sso_config ''idp'' ''ann-sub'' named_admin [''staff''] (Some ''r'') sso_web
   in admins (tabs sso_web) = [linked_admin] \<and> x = Inr (Allowed (linked_admin\<lparr>us_Role := ''viewer''\<rparr>)) \<and> admins (tabs s') = []"
  by code_simp

section \<open>What a callback must show\<close>

text \<open>The proof behind a sign-in: the signed cookie of the flow, its state, and a verified token of it.\<close>

definition flow_proof :: "flow_codec \<Rightarrow> provider \<Rightarrow> request \<Rightarrow> string option \<Rightarrow> time \<Rightarrow> id_token \<Rightarrow> bool" where
  "flow_proof fc pv r cookie now t \<longleftrightarrow> (\<exists>v f raw. cookie = Some v \<and> decodeFlow fc now v = Some f \<and>
     rq_Form r ''state'' = fl_State f \<and> fl_State f \<noteq> [] \<and> fl_Link f = 0 \<and>
     pv_exchange pv (rq_Form r ''code'') (fl_Verifier f) = Some raw \<and> pv_verify pv raw = Some t \<and> it_Nonce t = fl_Nonce f)"

definition callback_outcome :: "server \<Rightarrow> flow_codec \<Rightarrow> provider \<Rightarrow> request \<Rightarrow> string option \<Rightarrow> time \<Rightarrow> response \<Rightarrow> tables \<Rightarrow> bool" where
  "callback_outcome sv fc pv r cookie now resp t' \<longleftrightarrow> (case resp of
     SignedIn tok to \<Rightarrow> (\<exists>t u row. flow_proof fc pv r cookie now t \<and> row \<in> set (t_session t') \<and>
       u \<in> set (t_user t') \<and> is_identity (it_Issuer t) (it_Subject t) u \<and> session_for sv u tok now row)
   | _ \<Rightarrow> True)"

lemma not_signed_in [simp]:
  "callback_outcome sv fc pv r cookie now (LoginPage n m) t'" "callback_outcome sv fc pv r cookie now (Failure n m) t'"
  "callback_outcome sv fc pv r cookie now (Redirect to) t'" "callback_outcome sv fc pv r cookie now (SettingsError a n m) t'"
  by (simp_all add: callback_outcome_def)

lemma verified_token_failure:
  "verified_token pv f code = Inl (resp, why) \<Longrightarrow> callback_outcome sv fc pv r cookie now resp t'"
  by (auto simp: verified_token_def provider_down_def sign_in_failed_def split: if_splits option.splits)

lemma wp_linkOIDC:
  assumes "\<And>e s'. Q (Inl e) s'" and "\<And>resp n l s'. \<forall>tok to. resp \<noteq> SignedIn tok to \<Longrightarrow> Q (Inr (resp, n, l)) s'"
  shows "wp (linkOIDC sv r uid issuer subject now) Q s"
proof -
  have linked: "wp (bindA (attempt (LinkOIDC i issuer subject)) (\<lambda>y. case y of
             Inl e \<Rightarrow> if e = ErrUnique
               then ret (SettingsError ''account'' 409 ''that SSO account is already linked to another netis user'', n1, False)
               else ret (serverError, n2, False)
           | Inr linked \<Rightarrow> if \<not> linked then ret (relink_msg, n3, False)
               else ret (Redirect ''/settings/account'', n4, True))) Q s1" for i n1 n2 n3 n4 s1
    unfolding wp_simps
    by (rule wp_triv) (auto simp: serverError_def relink_msg_def wp_simps assms split: sum.split)
  show ?thesis unfolding linkOIDC_def wp_bind wp_attempt
    by (rule wp_triv)
      (auto simp: linked wp_ret unavailable_def relink_msg_def assms split: sum.split option.split)
qed

lemma link_not_signed_in:
  "wp (linkOIDC sv r uid issuer subject now) (\<lambda>x s'. case x of Inl _ \<Rightarrow> True
     | Inr (resp, n, l) \<Rightarrow> callback_outcome sv fc pv r cookie now resp (tabs s')) s"
  by (rule wp_linkOIDC) (auto simp: callback_outcome_def split: response.split)

lemma finish_login_outcome:
  assumes "flow_proof fc pv r cookie now t" and "distinct (map us_ID (t_user (tabs s)))"
  shows "wp (finish_login sv cfg r t c g secret rand now) (\<lambda>x s'. case x of Inl _ \<Rightarrow> True
     | Inr (resp, n, failed) \<Rightarrow> callback_outcome sv fc pv r cookie now resp (tabs s')) s"
proof -
  have start: "wp (startSession sv r (us_ID u) rand now) (\<lambda>x s'. case x of
       Inl _ \<Rightarrow> callback_outcome sv fc pv r cookie now serverError (tabs s')
     | Inr tok \<Rightarrow> callback_outcome sv fc pv r cookie now (SignedIn tok ''/'') (tabs s')) s1"
    if "u \<in> set (t_user (tabs s1))" "is_identity (it_Issuer t) (it_Subject t) u" for u and s1 :: "'a web_scheme"
    by (rule wp_startSession)
      (use that assms(1) in \<open>auto simp: serverError_def callback_outcome_def session_for_def\<close>)
  show ?thesis unfolding finish_login_def wp_simps
    by (rule wp_mono [OF oidcUser_outcome [OF assms(2)]])
      (auto simp: identity_outcome_def serverError_def wp_simps split: sum.splits outcome.splits intro!: wp_mono [OF start])
qed

lemma callback_outcome_cong:
  "t_session t2 = t_session t1 \<Longrightarrow> t_user t2 = t_user t1 \<Longrightarrow>
    callback_outcome sv fc pv r cookie now resp t2 = callback_outcome sv fc pv r cookie now resp t1"
  by (simp add: callback_outcome_def cong: response.case_cong)

lemma callback_outcome_kept:
  "callback_outcome sv fc pv r cookie now resp t1 \<Longrightarrow> t_session t2 = t_session t1 \<Longrightarrow> t_user t2 = t_user t1 \<Longrightarrow>
    callback_outcome sv fc pv r cookie now resp t2"
  by (rule callback_outcome_cong [THEN iffD2])

lemma wp_recordAudit:
  assumes "\<And>s'. t_session (tabs s') = t_session (tabs s) \<Longrightarrow> t_user (tabs s') = t_user (tabs s) \<Longrightarrow> Q (Inr ()) s'"
  shows "wp (recordAudit sv r action resp n now) Q s"
  unfolding recordAudit_def AddAudit_def wp_simps
  by (rule wp_stmt) (use assms in \<open>auto split: if_splits\<close>)

lemma callback_attempt_outcome:
  assumes "distinct (map us_ID (t_user (tabs s)))"
  shows "wp (callback_attempt sv cfg fc pv r cookie secret rand now) (\<lambda>x s'. case x of Inl _ \<Rightarrow> True
     | Inr ((resp, n, failed), action) \<Rightarrow> callback_outcome sv fc pv r cookie now resp (tabs s')) s"
proof -
  let ?Q = "\<lambda>x (s' :: 'a web_scheme). case x of Inl (_ :: error) \<Rightarrow> True
     | Inr ((resp, (n :: auditRecord), (failed :: bool)), (action :: string)) \<Rightarrow> callback_outcome sv fc pv r cookie now resp (tabs s')"
  have proof_of: "flow_proof fc pv r cookie now t"
    if "cookie = Some v" "decodeFlow fc now v = Some f" "rq_Form r ''state'' \<noteq> []" "rq_Form r ''state'' = fl_State f"
      "verified_token pv f (rq_Form r ''code'') = Inr (t, c, g)" "fl_Link f = 0" for v f t c g
    using that unfolding flow_proof_def verified_token_def by (auto split: if_splits option.splits)
  have link: "wp (bindA (linkOIDC sv r i iss su now) (\<lambda>(resp, n, linked). ret ((resp, n, \<not> linked), action))) ?Q s" for i iss su action
    unfolding wp_bind by (rule wp_linkOIDC) (auto simp: wp_ret callback_outcome_def split: response.split)
  have fin: "wp (bindA (finish_login sv cfg r t c g secret rand now) (\<lambda>x. ret (x, action))) ?Q s"
    if "flow_proof fc pv r cookie now t" for t c g action
    unfolding wp_bind by (rule wp_mono [OF finish_login_outcome [OF that assms]]) (auto simp: wp_ret split: sum.splits)
  show ?thesis
  proof (cases "case cookie of None \<Rightarrow> None | Some v \<Rightarrow> decodeFlow fc now v")
    case None
    then show ?thesis by (simp add: callback_attempt_def wp_ret)
  next
    case (Some f)
    then obtain v where v: "cookie = Some v" "decodeFlow fc now v = Some f" by (auto split: option.splits)
    show ?thesis
    proof (cases "verified_token pv f (rq_Form r ''code'')")
      case (Inl e)
      then show ?thesis unfolding callback_attempt_def Some
        by (cases e) (simp add: wp_ret Let_def verified_token_failure)
    next
      case (Inr x)
      obtain t c g where x: "x = (t, c, g)" by (cases x)
      show ?thesis unfolding callback_attempt_def Some
        using proof_of [OF v _ _ Inr [unfolded x]]
        by (auto simp: Inr x wp_ret Let_def link intro!: fin)
    qed
  qed
qed

text \<open>
  C22: A callback signs someone in only when the browser brings the unexpired flow cookie this server
  signed, the state in it, and a code for which the provider gives a verified token with the flow's
  nonce; the session is that of the account linked to the token's identity.
\<close>

theorem callback_sound:
  assumes "distinct (map us_ID (t_user (tabs s)))"
  shows "case handleOIDCCallback sv fc pv r cookie secret rand now later s of (x, s') \<Rightarrow>
     (case x of Inl _ \<Rightarrow> True | Inr resp \<Rightarrow> callback_outcome sv fc pv r cookie now resp (tabs s'))"
proof -
  let ?Q = "\<lambda>x (s' :: 'a web_scheme). case x of Inl (_ :: error) \<Rightarrow> True
     | Inr resp \<Rightarrow> callback_outcome sv fc pv r cookie now resp (tabs s')"
  have att: "wp (callback_attempt sv cfg fc pv r cookie secret rand now) (\<lambda>x s'. case x of Inl _ \<Rightarrow> True
     | Inr ((resp, n, failed), action) \<Rightarrow> callback_outcome sv fc pv r cookie now resp (tabs s')) (s\<lparr>wb_limiter := l\<rparr>)" for cfg l
    by (rule callback_attempt_outcome) (use assms in simp)
  have settled: "wp (bindA (callback_attempt sv cfg fc pv r cookie secret rand now) (\<lambda>((resp, n, failed), action).
      thenA (settle_ip k failed later) (thenA (recordAudit sv r action resp n later) (ret resp)))) ?Q (s\<lparr>wb_limiter := l\<rparr>)" for cfg k l
    unfolding wp_bind
    by (rule wp_mono [OF att])
      (auto simp: wp_simps split: sum.splits intro!: wp_recordAudit elim!: callback_outcome_kept)
  have limited: "wp (thenA (recordAudit sv r action (Failure m e) n now) (ret (Failure m e))) ?Q s1" for action m e n s1
    unfolding wp_then by (rule wp_recordAudit) (simp add: wp_ret)
  have "wp (handleOIDCCallback sv fc pv r cookie secret rand now later) ?Q s"
    unfolding handleOIDCCallback_def Let_def
    by (auto simp: wp_bind [of "take_ip k t" for k t] wp_take_ip wp_ret notFound_def settled limited
        split: option.split prod.split)
  then show ?thesis by (rule wp_case)
qed

definition sample_codec :: flow_codec where
  "sample_codec = \<lparr>fc_marshal = (\<lambda>f. fl_State f), fc_unmarshal = (\<lambda>p. Some \<lparr>fl_State = p, fl_Nonce = ''n'', fl_Verifier = ''v'',
     fl_Link = 0, fl_Expires = 600\<rparr>), fc_b64 = id, fc_unb64 = Some, fc_sign = rev\<rparr>"

definition sample_provider :: provider where
  "sample_provider = \<lparr>pv_up = True, pv_exchange = (\<lambda>code ver. Some code),
     pv_verify = (\<lambda>raw. Some \<lparr>it_Issuer = ''idp'', it_Subject = ''ann-sub'', it_Nonce = ''n'',
       it_Claims = Some (named_admin, ClaimString ''admins'')\<rparr>)\<rparr>"

theorem callback_sound_witness:
  "let r = visitor OIDCCallbackPath [(''state'', ''ab''), (''code'', ''c'')];
       (x, s') = handleOIDCCallback sso_server sample_codec sample_provider r (Some ''ab.ba'') (Some ''x'') (Some ''tok'') 0 1 sso_web
   in x = Inr (SignedIn ''tok'' ''/'') \<and>
      callback_outcome sso_server sample_codec sample_provider r (Some ''ab.ba'') 0 (SignedIn ''tok'' ''/'') (tabs s')"
proof -
  let ?r = "visitor OIDCCallbackPath [(''state'', ''ab''), (''code'', ''c'')]"
  let ?run = "handleOIDCCallback sso_server sample_codec sample_provider ?r (Some ''ab.ba'') (Some ''x'') (Some ''tok'') 0 1 sso_web"
  have "fst ?run = Inr (SignedIn ''tok'' ''/'')" by code_simp
  moreover have "distinct (map us_ID (t_user (tabs sso_web)))" by code_simp
  ultimately show ?thesis
    using callback_sound [where s = sso_web and sv = sso_server and fc = sample_codec and pv = sample_provider and r = ?r
        and cookie = "Some ''ab.ba''" and secret = "Some ''x''" and rand = "Some ''tok''" and now = 0 and later = 1]
    by (auto simp: case_prod_beta Let_def split: sum.splits prod.splits)
qed

end
