(* ===== verification/Web_Routes.thy ===== *)
theory Web_Routes
  imports Web_OIDC
begin

text \<open>
  internal/web/server.go, errorpages.go and audit.go: the table of routes and how the mux picks one,
  the chain of guards every request passes (origin, authentication, body, audit), and the audit log.
\<close>

section \<open>Patterns\<close>

text \<open>
  A path of \<open>net/http\<close>'s patterns: literal segments, wildcards, a trailing slash that takes any rest,
  and the end of the path. The segments of a path are what its slashes separate.
\<close>

datatype seg = Lit string | Wild string | Rest | End

definition path_segs :: "string \<Rightarrow> string list" where
  "path_segs p = tl (split_on CHR ''/'' p)"

definition wildcard :: "string \<Rightarrow> bool" where
  "wildcard s \<longleftrightarrow> prefix ''{'' s \<and> suffix ''}'' s"

definition seg_of :: "string \<Rightarrow> seg" where
  "seg_of s = (if s = [] then Rest else if s = ''{$}'' then End
     else if wildcard s then Wild (butlast (tl s)) else Lit s)"

definition pattern_segs :: "string \<Rightarrow> seg list" where
  "pattern_segs p = map seg_of (path_segs p)"

fun match_segs :: "seg list \<Rightarrow> string list \<Rightarrow> (string \<times> string) list option" where
  "match_segs [] xs = (if xs = [] then Some [] else None)"
| "match_segs (Rest # ps) xs = (if ps = [] \<and> xs \<noteq> [] then Some [] else None)"
| "match_segs (End # ps) xs = (if ps = [] \<and> xs = [[]] then Some [] else None)"
| "match_segs (Lit s # ps) (x # xs) = (if x = s then match_segs ps xs else None)"
| "match_segs (Wild n # ps) (x # xs) = (if x = [] then None else map_option ((#) (n, x)) (match_segs ps xs))"
| "match_segs (p # ps) [] = None"

text \<open>The first pattern matches nothing the second does not.\<close>

fun at_least_as_specific :: "seg list \<Rightarrow> seg list \<Rightarrow> bool" where
  "at_least_as_specific ps [Rest] = (ps \<noteq> [])"
| "at_least_as_specific [] [] = True"
| "at_least_as_specific (Lit a # ps) (Lit b # qs) = (a = b \<and> at_least_as_specific ps qs)"
| "at_least_as_specific (Lit a # ps) (Wild b # qs) = (a \<noteq> [] \<and> at_least_as_specific ps qs)"
| "at_least_as_specific (Wild a # ps) (Wild b # qs) = at_least_as_specific ps qs"
| "at_least_as_specific (End # ps) (End # qs) = (ps = [] \<and> qs = [])"
| "at_least_as_specific ps qs = False"

section \<open>The routes\<close>

record route =
  rt_Method :: string
  rt_Path :: string
  rt_Handler :: string
  rt_Admin :: bool

definition open_route :: "string \<Rightarrow> string \<Rightarrow> string \<Rightarrow> route" where
  "open_route m p h = \<lparr>rt_Method = m, rt_Path = p, rt_Handler = h, rt_Admin = False\<rparr>"

text \<open>\<open>s.requireAdmin(h)\<close>.\<close>

definition admin_route :: "string \<Rightarrow> string \<Rightarrow> string \<Rightarrow> route" where
  "admin_route m p h = \<lparr>rt_Method = m, rt_Path = p, rt_Handler = h, rt_Admin = True\<rparr>"

definition routes :: "route list" where
  "routes = [
     open_route ''GET'' ''/healthz'' ''handleHealthz'',
     open_route ''GET'' ''/static/'' ''staticHandler'',
     open_route ''GET'' ''/favicon.ico'' ''faviconHandler'',
     open_route ''GET'' ''/login'' ''handleLoginPage'',
     open_route ''POST'' ''/login'' ''handleLogin'',
     open_route ''POST'' ''/logout'' ''handleLogout'',
     open_route ''GET'' ''/auth/oidc/login'' ''handleOIDCLogin'',
     open_route ''GET'' ''/auth/oidc/callback'' ''handleOIDCCallback'',
     open_route ''GET'' ''/setup'' ''handleSetupPage'',
     open_route ''POST'' ''/setup'' ''handleSetup'',
     open_route ''GET'' ''/events/stream'' ''handleSSE'',
     open_route ''GET'' ''/welcome'' ''handleWelcome'',
     admin_route ''POST'' ''/welcome/subnets'' ''handleWelcomeSubnets'',
     open_route ''GET'' ''/welcome/integrations'' ''handleWelcomeIntegrationsPage'',
     admin_route ''POST'' ''/welcome/integrations'' ''handleWelcomeIntegrations'',
     admin_route ''POST'' ''/welcome/skip'' ''handleWelcomeSkip'',
     open_route ''GET'' ''/welcome/done'' ''handleWelcomeDone'',
     open_route ''GET'' ''/welcome/progress'' ''handleWelcomeProgress'',
     admin_route ''POST'' ''/welcome/dismiss'' ''handleSetupDismiss'',
     open_route ''GET'' ''/{$}'' ''handleDashboard'',
     open_route ''GET'' ''/dashboard/widgets'' ''handleDashboardWidgets'',
     open_route ''GET'' ''/subnets'' ''handleSubnetsIndex'',
     open_route ''GET'' ''/subnets/{id}'' ''handleSubnetPage'',
     open_route ''GET'' ''/subnets/{id}/grid'' ''handleGridFrag'',
     admin_route ''POST'' ''/subnets/{id}/scan'' ''handleScanNow'',
     open_route ''GET'' ''/subnets/{id}/cell'' ''handleCellDetail'',
     admin_route ''POST'' ''/subnets/{id}/cell'' ''handleCellKind'',
     admin_route ''POST'' ''/scan'' ''handleScanAll'',
     open_route ''GET'' ''/devices'' ''handleDeviceList'',
     open_route ''GET'' ''/devices/new'' ''handleDeviceForm'',
     open_route ''GET'' ''/devices/{id}/edit'' ''handleDeviceEditForm'',
     open_route ''GET'' ''/devices/import'' ''handleImportPage'',
     admin_route ''POST'' ''/devices/import'' ''handleImport'',
     admin_route ''POST'' ''/devices'' ''handleDeviceCreate'',
     open_route ''GET'' ''/devices/{id}'' ''handleDevicePage'',
     admin_route ''POST'' ''/devices/{id}'' ''handleDeviceUpdate'',
     admin_route ''POST'' ''/devices/{id}/delete'' ''handleDeviceDelete'',
     admin_route ''POST'' ''/devices/{id}/approve'' ''handleDeviceApprove'',
     admin_route ''POST'' ''/devices/bulk/approve'' ''handleDeviceBulkApprove'',
     admin_route ''POST'' ''/devices/bulk/tag'' ''handleDeviceBulkTag'',
     admin_route ''POST'' ''/devices/bulk/delete'' ''handleDeviceBulkDelete'',
     admin_route ''POST'' ''/devices/{id}/links'' ''handleLinkAdd'',
     admin_route ''POST'' ''/links/{id}/delete'' ''handleLinkDelete'',
     admin_route ''POST'' ''/devices/{id}/fields'' ''handleFieldSet'',
     admin_route ''POST'' ''/devices/{id}/fields/delete'' ''handleFieldDelete'',
     admin_route ''POST'' ''/devices/{id}/wol'' ''handleWOL'',
     admin_route ''POST'' ''/devices/{id}/portscan'' ''handlePortScan'',
     admin_route ''POST'' ''/devices/{id}/ip/kind'' ''handleDeviceIPKind'',
     admin_route ''POST'' ''/devices/{id}/alert'' ''handleDeviceAlert'',
     open_route ''GET'' ''/events'' ''handleEventsPage'',
     open_route ''GET'' ''/styleguide'' ''handleStyleguide'',
     open_route ''GET'' ''/api/devices'' ''handleAPIDevices'',
     open_route ''GET'' ''/api/devices/{id}'' ''handleAPIDevice'',
     admin_route ''POST'' ''/api/devices'' ''handleAPIDeviceCreate'',
     admin_route ''PATCH'' ''/api/devices/{id}'' ''handleAPIDeviceUpdate'',
     admin_route ''DELETE'' ''/api/devices/{id}'' ''handleAPIDeviceDelete'',
     open_route ''GET'' ''/api/export/devices.csv'' ''handleExportCSV'',
     open_route ''GET'' ''/api/export/devices.json'' ''handleExportJSON'',
     open_route ''GET'' ''/api/subnets'' ''handleAPISubnets'',
     open_route ''GET'' ''/api/subnets/{id}/free'' ''handleAPISubnetFree'',
     open_route ''GET'' ''/api/events'' ''handleAPIEvents'',
     open_route ''GET'' ''/api/status'' ''handleAPIStatus'',
     open_route ''GET'' ''/api/search'' ''handleSearch'',
     open_route ''GET'' ''/metrics'' ''handleMetrics'',
     open_route ''GET'' ''/settings'' ''handleSettingsPage'',
     open_route ''GET'' ''/settings/account'' ''handleSettingsSection:account'',
     open_route ''GET'' ''/settings/sessions'' ''handleSettingsSection:sessions'',
     open_route ''GET'' ''/settings/tokens'' ''handleSettingsSection:tokens'',
     admin_route ''GET'' ''/settings/network'' ''handleSettingsSection:network'',
     admin_route ''GET'' ''/settings/integrations'' ''handleSettingsSection:integrations'',
     admin_route ''GET'' ''/settings/notifications'' ''handleSettingsSection:notifications'',
     admin_route ''GET'' ''/settings/tags'' ''handleSettingsSection:tags'',
     admin_route ''GET'' ''/settings/users'' ''handleSettingsSection:users'',
     admin_route ''GET'' ''/settings/audit'' ''handleSettingsSection:audit'',
     admin_route ''GET'' ''/settings/system'' ''handleSettingsSection:system'',
     admin_route ''POST'' ''/settings/subnets'' ''handleSubnetCreate'',
     admin_route ''POST'' ''/settings/subnets/{id}'' ''handleSubnetUpdate'',
     admin_route ''POST'' ''/settings/subnets/{id}/delete'' ''handleSubnetDelete'',
     admin_route ''POST'' ''/settings/integrations'' ''handleIntegrationsSave'',
     admin_route ''POST'' ''/settings/integrations/{name}/run'' ''handleIntegrationRun'',
     admin_route ''POST'' ''/settings/tags/{id}/color'' ''handleTagColor'',
     admin_route ''POST'' ''/settings/tags/{id}/rename'' ''handleTagRename'',
     admin_route ''POST'' ''/settings/tags/{id}/delete'' ''handleTagDelete'',
     admin_route ''POST'' ''/settings/users'' ''handleUserCreate'',
     admin_route ''POST'' ''/settings/users/{id}/delete'' ''handleUserDelete'',
     admin_route ''POST'' ''/settings/users/{id}/role'' ''handleUserRole'',
     open_route ''POST'' ''/settings/password'' ''handlePasswordChange'',
     open_route ''POST'' ''/settings/sessions/{id}/delete'' ''handleSessionRevoke'',
     open_route ''POST'' ''/settings/sessions/revoke-others'' ''handleSessionRevokeOthers'',
     open_route ''POST'' ''/settings/tokens'' ''handleTokenCreate'',
     open_route ''POST'' ''/settings/tokens/{id}/delete'' ''handleTokenRevoke'',
     open_route ''POST'' ''/settings/sso/link'' ''handleOIDCLink'',
     admin_route ''POST'' ''/settings/users/{id}/password'' ''handleUserPasswordReset'',
     admin_route ''POST'' ''/settings/general'' ''handleGeneralSave'',
     admin_route ''POST'' ''/settings/notifications'' ''handleNotificationsSave'',
     admin_route ''POST'' ''/settings/notifications/test'' ''handleNotificationsTest'']"

definition rt_Pattern :: "route \<Rightarrow> string" where
  "rt_Pattern rt = rt_Method rt @ '' '' @ rt_Path rt"

text \<open>A pattern of GET takes HEAD too.\<close>

definition method_fits :: "string \<Rightarrow> string \<Rightarrow> bool" where
  "method_fits p m \<longleftrightarrow> m = p \<or> (p = ''GET'' \<and> m = ''HEAD'')"

definition route_segs :: "route \<Rightarrow> seg list" where
  "route_segs rt = pattern_segs (rt_Path rt)"

definition path_match :: "route \<Rightarrow> string \<Rightarrow> (string \<times> string) list option" where
  "path_match rt p = match_segs (route_segs rt) (path_segs p)"

definition fits :: "string \<Rightarrow> string \<Rightarrow> route \<Rightarrow> bool" where
  "fits m p rt \<longleftrightarrow> method_fits (rt_Method rt) m \<and> path_match rt p \<noteq> None"

definition mux_match :: "string \<Rightarrow> string \<Rightarrow> route option" where
  "mux_match m p = (let ms = filter (fits m p) routes in
     find (\<lambda>rt. list_all (\<lambda>q. at_least_as_specific (route_segs rt) (route_segs q)) ms) ms)"

text \<open>\<open>cleanPath\<close>: no empty and no dot segments.\<close>

definition clean_seg :: "string list \<Rightarrow> string \<Rightarrow> string list" where
  "clean_seg acc s = (if s = [] \<or> s = ''.'' then acc else if s = ''..'' then butlast acc else acc @ [s])"

definition clean_path :: "string \<Rightarrow> string" where
  "clean_path p = (let np = ''/'' @ join ''/'' (foldl clean_seg [] (split_on CHR ''/'' p)) in
     if p \<noteq> [] \<and> last p = CHR ''/'' \<and> np \<noteq> ''/'' then np @ ''/'' else np)"

text \<open>A match that takes nothing beyond the pattern.\<close>

definition exact_match :: "route option \<Rightarrow> string \<Rightarrow> bool" where
  "exact_match r p = (case r of None \<Rightarrow> False
     | Some rt \<Rightarrow> let ps = route_segs rt in
         last ps \<noteq> Rest \<or> (p \<noteq> [] \<and> last p = CHR ''/'' \<and> length ps = count_list p CHR ''/''))"

datatype target =
    Handle route "(string \<times> string) list"
  | MoveTo string string
  | WrongMethod
  | NoRoute

text \<open>
  \<open>ServeMux.findHandler\<close>. A path that is not clean, or lacks the trailing slash of its route, is
  redirected, whatever the request was let in for.
\<close>

definition find_handler :: "string \<Rightarrow> string \<Rightarrow> target" where
  "find_handler m path = (let p = clean_path path; r = mux_match m p in
     if \<not> exact_match r p \<and> last p \<noteq> CHR ''/'' \<and> exact_match (mux_match m (p @ ''/'')) (p @ ''/'')
     then MoveTo (p @ ''/'') (p @ ''/'')
     else if p \<noteq> path then MoveTo p (case r of None \<Rightarrow> [] | Some rt \<Rightarrow> rt_Pattern rt)
     else (case r of
         Some rt \<Rightarrow> Handle rt (the (path_match rt p))
       | None \<Rightarrow> if list_ex (\<lambda>rt. path_match rt p \<noteq> None) routes then WrongMethod else NoRoute))"

section \<open>The audit log\<close>

definition auditActions :: "(string \<times> string) list" where
  "auditActions = [
     (''POST /login'', ''login''),
     (''POST /logout'', ''logout''),
     (''POST /setup'', ''setup''),
     (''POST /welcome/subnets'', ''welcome.subnets''),
     (''POST /welcome/integrations'', ''welcome.integrations''),
     (''POST /welcome/skip'', ''welcome.skip''),
     (''POST /welcome/dismiss'', ''welcome.dismiss''),
     (''POST /scan'', ''scan.all''),
     (''POST /subnets/{id}/scan'', ''scan.subnet''),
     (''POST /subnets/{id}/cell'', ''ip.kind''),
     (''POST /devices'', ''device.create''),
     (''POST /devices/{id}'', ''device.update''),
     (''POST /devices/{id}/delete'', ''device.delete''),
     (''POST /devices/{id}/approve'', ''device.approve''),
     (''POST /devices/bulk/approve'', ''device.bulk_approve''),
     (''POST /devices/bulk/tag'', ''device.bulk_tag''),
     (''POST /devices/bulk/delete'', ''device.bulk_delete''),
     (''POST /devices/{id}/links'', ''link.add''),
     (''POST /links/{id}/delete'', ''link.delete''),
     (''POST /devices/{id}/fields'', ''field.set''),
     (''POST /devices/{id}/fields/delete'', ''field.delete''),
     (''POST /devices/{id}/wol'', ''device.wol''),
     (''POST /devices/{id}/portscan'', ''device.portscan''),
     (''POST /devices/{id}/ip/kind'', ''ip.kind''),
     (''POST /devices/{id}/alert'', ''device.alert''),
     (''POST /settings/notifications'', ''notifications.save''),
     (''POST /settings/notifications/test'', ''notifications.test''),
     (''POST /settings/subnets'', ''subnet.create''),
     (''POST /settings/subnets/{id}'', ''subnet.update''),
     (''POST /settings/subnets/{id}/delete'', ''subnet.delete''),
     (''POST /settings/integrations'', ''integrations.save''),
     (''POST /settings/integrations/{name}/run'', ''integration.run''),
     (''POST /settings/tags/{id}/color'', ''tag.color''),
     (''POST /settings/tags/{id}/rename'', ''tag.rename''),
     (''POST /settings/tags/{id}/delete'', ''tag.delete''),
     (''POST /settings/users'', ''user.create''),
     (''POST /settings/users/{id}/delete'', ''user.delete''),
     (''POST /settings/users/{id}/role'', ''user.role''),
     (''POST /settings/users/{id}/password'', ''user.password_reset''),
     (''POST /settings/password'', ''password.change''),
     (''POST /settings/sessions/{id}/delete'', ''session.revoke''),
     (''POST /settings/sessions/revoke-others'', ''session.revoke_others''),
     (''POST /settings/general'', ''settings.save''),
     (''POST /settings/tokens'', ''token.create''),
     (''POST /settings/tokens/{id}/delete'', ''token.revoke''),
     (''POST /settings/sso/link'', ''sso.link_start''),
     (''POST /devices/import'', ''device.import''),
     (''POST /api/devices'', ''api.device.create''),
     (''PATCH /api/devices/{id}'', ''api.device.update''),
     (''DELETE /api/devices/{id}'', ''api.device.delete'')]"

definition isMutating :: "string \<Rightarrow> bool" where
  "isMutating m \<longleftrightarrow> m \<noteq> ''GET'' \<and> m \<noteq> ''HEAD'' \<and> m \<noteq> ''OPTIONS''"

definition auditAction :: "string \<Rightarrow> string" where
  "auditAction pat = (case map_of auditActions pat of None \<Rightarrow> pat | Some a \<Rightarrow> a)"

text \<open>The first wildcard of the pattern: the segment before it names what is acted on.\<close>

fun pattern_target :: "string option \<Rightarrow> string list \<Rightarrow> (string \<Rightarrow> string) \<Rightarrow> string" where
  "pattern_target before_it [] vals = []"
| "pattern_target before_it (seg # segs) vals =
     (if \<not> wildcard seg \<or> seg = ''{$}'' then pattern_target (Some seg) segs vals
      else (let name = trim_suffix (trim_prefix seg ''{'') ''}'';
                noun = (case before_it of None \<Rightarrow> name | Some s \<Rightarrow> trim_suffix s ''s'')
            in noun @ '' '' @ truncate_str (vals name) 64))"

definition patternTarget :: "string \<Rightarrow> (string \<Rightarrow> string) \<Rightarrow> string" where
  "patternTarget pat vals = (case cut CHR '' '' pat of (_, path, _) \<Rightarrow>
     pattern_target None (split_on CHR ''/'' (trim_left ((=) CHR ''/'') (trim_right ((=) CHR ''/'') path))) vals)"

definition path_value :: "(string \<times> string) list \<Rightarrow> string \<Rightarrow> string" where
  "path_value vals n = (case map_of vals n of None \<Rightarrow> [] | Some v \<Rightarrow> v)"

definition audit_entry_for :: "server \<Rightarrow> request \<Rightarrow> user option \<Rightarrow> string \<Rightarrow> (string \<times> string) list \<Rightarrow> response \<Rightarrow> auditRecord \<Rightarrow> audit_entry" where
  "audit_entry_for sv r me pat vals resp n =
     (let who = (case me of Some u \<Rightarrow> Some (us_ID u, us_Username u) | None \<Rightarrow> nt_User n) in
      \<lparr>au_ID = 0, au_At = 0, au_UserID = map_option fst who, au_Username = (case who of None \<Rightarrow> [] | Some u \<Rightarrow> snd u),
       au_Action = auditAction pat, au_Target = (if nt_Target n = [] then patternTarget pat (path_value vals) else nt_Target n),
       au_Detail = (if apiBearer r = None then nt_Detail n else trim_space (''via API token '' @ nt_Detail n)),
       au_IP = clientIP (sv_proxies sv) r, au_Status = status_of resp\<rparr>)"

text \<open>What the mux answers with: the pattern it chose, the values of its wildcards, the answer and the note.\<close>

type_synonym 's routed = "('s web_scheme, (string \<times> (string \<times> string) list) \<times> response \<times> auditRecord) act"

definition audit :: "server \<Rightarrow> request \<Rightarrow> user option \<Rightarrow> time \<Rightarrow> 's routed \<Rightarrow> ('s web_scheme, response) act" where
  "audit sv r me later m = bindA m (\<lambda>((pat, vals), resp, n).
     if \<not> isMutating (rq_Method r) \<or> pat = [] then ret resp
     else thenA (logged (AddAudit later (Some later) (audit_entry_for sv r me pat vals resp n))) (ret resp))"

section \<open>The chain\<close>

text \<open>\<open>http.CrossOriginProtection\<close>, without exemptions.\<close>

definition crossOriginOk :: "(string \<Rightarrow> string option) \<Rightarrow> request \<Rightarrow> bool" where
  "crossOriginOk url_host r \<longleftrightarrow> rq_Method r \<in> {''GET'', ''HEAD'', ''OPTIONS''} \<or>
     (let site = rq_Header r ''Sec-Fetch-Site''; origin = rq_Header r ''Origin'' in
      if site = [] then origin = [] \<or> url_host origin = Some (rq_Host r)
      else site = ''same-origin'' \<or> site = ''none'')"

definition maxBodyBytes :: int where "maxBodyBytes = 1048576"
definition maxImportBytes :: int where "maxImportBytes = 5242880"

definition bodyLimit :: "request \<Rightarrow> int" where
  "bodyLimit r = (if rq_Method r = ''POST'' \<and> rq_Path r = ''/devices/import'' then maxImportBytes else maxBodyBytes)"

text \<open>Reading the form of a body under a cap, a parameter.\<close>

datatype body = BodyOk | BodyTooBig | BodyMalformed

definition limitBody :: "(int \<Rightarrow> body) \<Rightarrow> request \<Rightarrow> response option" where
  "limitBody read r = (case read (bodyLimit r) of
     BodyOk \<Rightarrow> None
   | BodyTooBig \<Rightarrow> Some (Failure 413 ''request body too large'')
   | BodyMalformed \<Rightarrow> Some (Failure 400 ''malformed form''))"

text \<open>What the mux does with a request let in for someone: answer it, or call a handler.\<close>

datatype reached = Answered string "(string \<times> string) list" response | Reached route "(string \<times> string) list"

definition reach :: "request \<Rightarrow> user option \<Rightarrow> reached" where
  "reach r me = (case find_handler (rq_Method r) (rq_Path r) of
     MoveTo p pat \<Rightarrow> Answered pat [] (Moved p)
   | WrongMethod \<Rightarrow> Answered [] [] (Failure 405 ''Method Not Allowed'')
   | NoRoute \<Rightarrow> Answered [] [] notFound
   | Handle rt vals \<Rightarrow> if rt_Admin rt \<and> \<not> isAdmin me
       then Answered (rt_Pattern rt) vals (if forMachines (rq_Path r) then ApiError 403 ''admin only'' else Failure 403 ''admin only'')
       else Reached rt vals)"

text \<open>The handlers by name, each with the wildcards' values and the user it acts for.\<close>

type_synonym 's handlers = "string \<Rightarrow> (string \<Rightarrow> string) \<Rightarrow> user option \<Rightarrow> request \<Rightarrow> ('s web_scheme, response \<times> auditRecord) act"

definition dispatch :: "'s handlers \<Rightarrow> request \<Rightarrow> user option \<Rightarrow> 's routed" where
  "dispatch run r me = (case reach r me of
     Answered pat vals resp \<Rightarrow> ret ((pat, vals), resp, no_note)
   | Reached rt vals \<Rightarrow> bindA (run (rt_Handler rt) (path_value vals) me r) (\<lambda>(resp, n). ret ((rt_Pattern rt, vals), resp, n)))"

definition app :: "server \<Rightarrow> (int \<Rightarrow> body) \<Rightarrow> 's handlers \<Rightarrow> request \<Rightarrow> time \<Rightarrow> time \<Rightarrow> ('s web_scheme, response) act" where
  "app sv read run r now later = bindA (requireAuth sv r now) (\<lambda>d. case d of
     Respond resp \<Rightarrow> ret resp
   | Serve me \<Rightarrow> (case limitBody read r of
         Some resp \<Rightarrow> ret resp
       | None \<Rightarrow> audit sv r me later (dispatch run r me)))"

definition serve_request :: "server \<Rightarrow> (string \<Rightarrow> string option) \<Rightarrow> (int \<Rightarrow> body) \<Rightarrow> 's handlers \<Rightarrow> request \<Rightarrow> time \<Rightarrow> time \<Rightarrow>
    ('s web_scheme, response) act" where
  "serve_request sv url_host read run r now later =
     (if apiBearer r \<noteq> None then app sv read run r now later
      else if \<not> checkOrigin url_host r then ret (Failure 403 ''cross-origin request rejected'')
      else if \<not> crossOriginOk url_host r then ret (Failure 403 ''cross-origin request detected'')
      else app sv read run r now later)"

section \<open>Error pages\<close>

text \<open>
  What goes out: the answer as the handler wrote it, a page instead of a plain-text error for a
  browser, or the error as JSON for a script.
\<close>

datatype wire = AsWritten response | ErrorPage nat | JsonError nat string

definition pageErrors :: "nat list" where "pageErrors = [403, 404, 500, 503]"

definition wantsPage :: "request \<Rightarrow> bool" where
  "wantsPage r \<longleftrightarrow> \<not> forMachines (rq_Path r) \<and> rq_Header r ''HX-Request'' = [] \<and>
     contains_str ''text/html'' (rq_Header r ''Accept'')"

definition errorPages :: "request \<Rightarrow> response \<Rightarrow> wire" where
  "errorPages r resp = (let api = prefix ''/api/'' (rq_Path r) in
     case resp of
       Failure code msg \<Rightarrow>
         if \<not> api \<and> \<not> wantsPage r then AsWritten resp
         else if api \<and> 400 \<le> code
         then JsonError code (if code = 404 \<and> msg = ''404 page not found'' then ''not found'' else trim_space msg)
         else if code \<in> set pageErrors then ErrorPage code
         else AsWritten resp
     | _ \<Rightarrow> AsWritten resp)"

section \<open>No two patterns conflict\<close>

text \<open>No path matches both.\<close>

fun apart :: "seg list \<Rightarrow> seg list \<Rightarrow> bool" where
  "apart [] (x # xs) = True"
| "apart (x # xs) [] = True"
| "apart (Lit a # ps) (Lit b # qs) = (a \<noteq> b \<or> apart ps qs)"
| "apart (Lit a # ps) (Wild b # qs) = apart ps qs"
| "apart (Wild a # ps) (Lit b # qs) = apart ps qs"
| "apart (Wild a # ps) (Wild b # qs) = apart ps qs"
| "apart (Wild a # ps) (End # qs) = True"
| "apart (End # ps) (Wild b # qs) = True"
| "apart (Lit a # ps) (End # qs) = (a \<noteq> [])"
| "apart (End # ps) (Lit b # qs) = (b \<noteq> [])"
| "apart ps qs = False"

lemma apart_no_path: "apart ps qs \<Longrightarrow> match_segs ps xs = None \<or> match_segs qs xs = None"
proof (induction ps qs arbitrary: xs rule: apart.induct)
  case (1 x xs ys)
  then show ?case by (cases x; cases ys) auto
next
  case (2 x xs ys)
  then show ?case by (cases x; cases ys) auto
qed (case_tac xs; auto)+

lemma specific_trans:
  "at_least_as_specific ps qs \<Longrightarrow> at_least_as_specific qs rs \<Longrightarrow> at_least_as_specific ps rs"
proof (induction ps qs arbitrary: rs rule: at_least_as_specific.induct)
  case (1 ps)
  then show ?case by (cases rs rule: list.exhaust; case_tac "hd rs"; case_tac "tl rs"; auto)
qed (case_tac rs; case_tac "hd rs"; case_tac "tl rs"; auto)+

text \<open>Patterns of the same method either match no path together, or one is the more specific.\<close>

definition comparable :: "seg list \<Rightarrow> seg list \<Rightarrow> bool" where
  "comparable p q \<longleftrightarrow> apart p q \<or> at_least_as_specific p q \<or> at_least_as_specific q p"

fun all_pairs :: "('x \<Rightarrow> 'x \<Rightarrow> bool) \<Rightarrow> 'x list \<Rightarrow> bool" where
  "all_pairs P [] = True"
| "all_pairs P (x # xs) = (list_all (P x) xs \<and> all_pairs P xs)"

definition patterns_of :: "string \<Rightarrow> seg list list" where
  "patterns_of m = map route_segs (filter (\<lambda>rt. rt_Method rt = m) routes)"

lemma GET_patterns_comparable: "all_pairs comparable (patterns_of ''GET'')"
  by code_simp

lemma POST_patterns_comparable: "all_pairs comparable (patterns_of ''POST'')"
  by code_simp

lemma PATCH_DELETE_patterns_comparable:
  "all_pairs comparable (patterns_of ''PATCH'')" "all_pairs comparable (patterns_of ''DELETE'')"
  by code_simp+

lemma routes_methods: "list_all (\<lambda>rt. rt_Method rt = ''GET'' \<or> rt_Method rt = ''POST'' \<or> rt_Method rt = ''PATCH'' \<or> rt_Method rt = ''DELETE'') routes"
  by code_simp

lemma routes_reflexive: "list_all (\<lambda>rt. at_least_as_specific (route_segs rt) (route_segs rt)) routes"
  by code_simp

lemma all_pairsD: "all_pairs P xs \<Longrightarrow> a \<in> set xs \<Longrightarrow> b \<in> set xs \<Longrightarrow> a = b \<or> P a b \<or> P b a"
  by (induction xs) (auto simp: list_all_iff)

lemma method_patterns:
  assumes "rt \<in> set routes"
  shows "all_pairs comparable (patterns_of (rt_Method rt))" and "route_segs rt \<in> set (patterns_of (rt_Method rt))"
    and "at_least_as_specific (route_segs rt) (route_segs rt)"
proof -
  have "rt_Method rt = ''GET'' \<or> rt_Method rt = ''POST'' \<or> rt_Method rt = ''PATCH'' \<or> rt_Method rt = ''DELETE''"
    using routes_methods assms by (simp add: list_all_iff)
  then show "all_pairs comparable (patterns_of (rt_Method rt))"
    using GET_patterns_comparable POST_patterns_comparable PATCH_DELETE_patterns_comparable by auto
  show "route_segs rt \<in> set (patterns_of (rt_Method rt))" using assms by (auto simp: patterns_of_def)
  show "at_least_as_specific (route_segs rt) (route_segs rt)" using routes_reflexive assms by (simp add: list_all_iff)
qed

lemma fits_method:
  assumes "rt \<in> set routes" and "q \<in> set routes" and "fits m p rt" and "fits m p q"
  shows "rt_Method rt = rt_Method q"
  using assms routes_methods by (auto simp: fits_def method_fits_def list_all_iff)

text \<open>Of two routes a request fits, one is the more specific.\<close>

lemma fitting_comparable:
  assumes "rt \<in> set routes" and "q \<in> set routes" and "fits m p rt" and "fits m p q"
  shows "at_least_as_specific (route_segs rt) (route_segs q) \<or> at_least_as_specific (route_segs q) (route_segs rt)"
proof -
  have no: "\<not> apart (route_segs a) (route_segs b)" if "fits m p a" "fits m p b" for a b
    using that apart_no_path [of "route_segs a" "route_segs b" "path_segs p"] by (auto simp: fits_def path_match_def)
  have "\<not> apart (route_segs rt) (route_segs q)" "\<not> apart (route_segs q) (route_segs rt)"
    by (rule no; rule assms)+
  moreover have "route_segs rt = route_segs q \<or> comparable (route_segs rt) (route_segs q) \<or> comparable (route_segs q) (route_segs rt)"
    by (rule all_pairsD [OF method_patterns(1) [OF assms(1)]])
      (use method_patterns(2) [OF assms(1)] method_patterns(2) [OF assms(2)] fits_method [OF assms] in auto)
  ultimately show ?thesis using method_patterns(3) [OF assms(1)] by (auto simp: comparable_def)
qed

lemma most_specific:
  assumes "ms \<noteq> []" and "\<forall>x \<in> set ms. \<forall>y \<in> set ms. at_least_as_specific (f x) (f y) \<or> at_least_as_specific (f y) (f x)"
  shows "\<exists>x \<in> set ms. \<forall>y \<in> set ms. at_least_as_specific (f x) (f y)"
  using assms
proof (induction ms)
  case (Cons a ms)
  show ?case
  proof (cases "ms = []")
    case False
    then obtain x where x: "x \<in> set ms" "\<forall>y \<in> set ms. at_least_as_specific (f x) (f y)" using Cons by auto
    show ?thesis
    proof (cases "at_least_as_specific (f a) (f x)")
      case True
      have "at_least_as_specific (f a) (f y)" if "y \<in> set (a # ms)" for y
        using that x(2) Cons.prems(2) specific_trans [OF True] by auto
      then show ?thesis by auto
    next
      case no: False
      then have "\<forall>y \<in> set (a # ms). at_least_as_specific (f x) (f y)" using x Cons.prems(2) by auto
      then show ?thesis using x(1) by auto
    qed
  qed (use Cons.prems in auto)
qed simp

lemma find_works: "(\<exists>x \<in> set xs. P x) \<Longrightarrow> \<exists>x. find P xs = Some x"
  by (induction xs) auto

text \<open>
  No request is ambiguous to the mux: it finds a route exactly when the request fits one, and the
  route it finds is the most specific of those that fit.
\<close>

theorem mux_exact:
  "case mux_match m p of
     None \<Rightarrow> filter (fits m p) routes = []
   | Some rt \<Rightarrow> rt \<in> set routes \<and> fits m p rt \<and>
       list_all (\<lambda>q. at_least_as_specific (route_segs rt) (route_segs q)) (filter (fits m p) routes)"
proof (cases "mux_match m p")
  case None
  have "filter (fits m p) routes = []"
  proof (rule ccontr)
    assume ne: "filter (fits m p) routes \<noteq> []"
    have "\<exists>x \<in> set (filter (fits m p) routes). \<forall>y \<in> set (filter (fits m p) routes). at_least_as_specific (route_segs x) (route_segs y)"
      by (rule most_specific [OF ne]) (intro ballI; rule fitting_comparable [of _ _ m p]; simp)
    then have "\<exists>rt. mux_match m p = Some rt"
      unfolding mux_match_def Let_def by (intro find_works) (simp add: list_all_iff)
    then show False using None by simp
  qed
  then show ?thesis using None by simp
next
  case (Some rt)
  then show ?thesis by (auto simp: mux_match_def Let_def dest!: find_SomeD)
qed

section \<open>Every handler is called only for whom it may be\<close>

definition open_handlers :: "string list" where
  "open_handlers = [''handleHealthz'', ''staticHandler'', ''faviconHandler'', ''handleLoginPage'', ''handleLogin'',
     ''handleOIDCLogin'', ''handleOIDCCallback'', ''handleSetupPage'', ''handleSetup'']"

text \<open>What everyone may do to what is their own.\<close>

definition self_service :: "string list" where
  "self_service = [''handleLogin'', ''handleLogout'', ''handleSetup'', ''handlePasswordChange'', ''handleSessionRevoke'',
     ''handleSessionRevokeOthers'', ''handleTokenCreate'', ''handleTokenRevoke'', ''handleOIDCLink'']"

definition may_run :: "server \<Rightarrow> request \<Rightarrow> time \<Rightarrow> tables \<Rightarrow> user option \<Rightarrow> string \<Rightarrow> bool" where
  "may_run sv r now t me h \<longleftrightarrow>
     (case me of
        None \<Rightarrow> h \<in> set open_handlers \<or> (scrape_token sv r \<and> h = ''handleMetrics'')
      | Some u \<Rightarrow> proved sv r now t u) \<and>
     (isMutating (rq_Method r) \<longrightarrow> isAdmin me \<or> h \<in> set self_service)"

definition guard_handlers :: "server \<Rightarrow> request \<Rightarrow> time \<Rightarrow> tables \<Rightarrow> 's handlers \<Rightarrow> 's handlers \<Rightarrow> 's handlers" where
  "guard_handlers sv r now t other run = (\<lambda>h vals me r'. if may_run sv r now t me h then run h vals me r' else other h vals me r')"

lemma fixed_open_paths:
  "list_all (\<lambda>p. list_all (\<lambda>rt. path_match rt p = None \<or> rt_Handler rt \<in> set open_handlers) routes)
     [''/healthz'', ''/login'', ''/setup'', ''/favicon.ico'', ''/auth/oidc/login'', ''/auth/oidc/callback'']"
  by code_simp

lemma metrics_path: "list_all (\<lambda>rt. path_match rt ''/metrics'' = None \<or> rt_Handler rt = ''handleMetrics'') routes"
  by code_simp

lemma static_routes:
  "list_all (\<lambda>rt. rt_Handler rt = ''staticHandler'' \<or>
     (case route_segs rt of Lit s # _ \<Rightarrow> s \<noteq> ''static'' | End # _ \<Rightarrow> True | _ \<Rightarrow> False)) routes"
  by code_simp

lemma self_service_routes:
  "list_all (\<lambda>rt. rt_Admin rt \<or> \<not> isMutating (rt_Method rt) \<or> rt_Handler rt \<in> set self_service) routes"
  by code_simp

lemma static_path:
  assumes "rt \<in> set routes" and "path_match rt (''/static/'' @ q) \<noteq> None"
  shows "rt_Handler rt = ''staticHandler''"
proof -
  have segs: "path_segs (''/static/'' @ q) = ''static'' # split_on CHR ''/'' q" by (simp add: path_segs_def)
  have "rt_Handler rt = ''staticHandler'' \<or> (case route_segs rt of Lit s # _ \<Rightarrow> s \<noteq> ''static'' | End # _ \<Rightarrow> True | _ \<Rightarrow> False)"
    using static_routes assms(1) by (simp add: list_all_iff)
  moreover have "match_segs (route_segs rt) (''static'' # split_on CHR ''/'' q) \<noteq> None"
    using assms(2) unfolding path_match_def segs .
  ultimately show ?thesis by (cases "route_segs rt"; cases "hd (route_segs rt)") auto
qed

lemma public_routes:
  assumes "rt \<in> set routes" and "public_path p" and "path_match rt p \<noteq> None"
  shows "rt_Handler rt \<in> set open_handlers"
proof (cases "prefix ''/static/'' p")
  case True
  then obtain q where "p = ''/static/'' @ q" by (auto simp: prefix_def)
  then show ?thesis using static_path assms by (simp add: open_handlers_def)
next
  case False
  then show ?thesis using assms fixed_open_paths
    by (auto simp: public_path_def oidcPublicPath_def OIDCCallbackPath_def list_all_iff)
qed

lemma reached_route:
  assumes "reach r me = Reached rt vals"
  shows "rt \<in> set routes" and "method_fits (rt_Method rt) (rq_Method r)" and "path_match rt (rq_Path r) \<noteq> None"
    and "rt_Admin rt \<Longrightarrow> isAdmin me"
  using assms
  by (auto simp: reach_def find_handler_def mux_match_def Let_def fits_def dest!: find_SomeD
      split: target.splits if_splits option.splits)

lemma reached_may_run:
  assumes "auth_outcome sv r now t (Serve me)" and "reach r me = Reached rt vals"
  shows "may_run sv r now t me (rt_Handler rt)"
proof -
  note rt = reached_route [OF assms(2)]
  have "rt_Handler rt \<in> set open_handlers" if "public_path (rq_Path r)"
    using public_routes rt that by blast
  moreover have "rt_Handler rt = ''handleMetrics''" if "scrape_token sv r"
    using metrics_path rt that by (auto simp: list_all_iff scrape_token_def)
  moreover have "rt_Method rt = rq_Method r" if "isMutating (rq_Method r)"
    using rt(2) that by (auto simp: method_fits_def isMutating_def)
  then have "isAdmin me \<or> rt_Handler rt \<in> set self_service" if "isMutating (rq_Method r)"
    using self_service_routes rt that by (auto simp: list_all_iff)
  ultimately show ?thesis using assms(1)
    by (auto simp: may_run_def auth_outcome_def split: option.splits)
qed

lemma app_guarded:
  "app sv read (guard_handlers sv r now (tabs s) other run) r now later s = app sv read run r now later s"
proof -
  have d: "dispatch (guard_handlers sv r now (tabs s) other run) r me = dispatch run r me"
    if "auth_outcome sv r now (tabs s) (Serve me)" for me
    using reached_may_run [OF that]
    by (auto simp: dispatch_def guard_handlers_def split: reached.split)
  obtain x s' where x: "requireAuth sv r now s = (x, s')" by force
  then have "case x of Inl _ \<Rightarrow> False | Inr d \<Rightarrow> auth_outcome sv r now (tabs s) d"
    using requireAuth_outcome [of sv r now s] by (simp add: wp_def)
  then show ?thesis unfolding app_def bindA_def x
    by (auto simp: d split: sum.splits decision.splits option.splits)
qed

text \<open>
  C23: Whatever the request, a handler is called only for someone it may be called for: for nobody only
  on the open routes (and the metrics for the scrape token), for a user only with a live session or
  token of theirs, and to change something only for an admin or on a route that changes what is their
  own. Putting anything in the place of every other call changes nothing.
\<close>

theorem only_rightful_calls:
  "serve_request sv url_host read (guard_handlers sv r now (tabs s) other run) r now later s =
   serve_request sv url_host read run r now later s"
  by (simp add: serve_request_def app_guarded)

end
