(* ===== verification/Web_Users.thy ===== *)
theory Web_Users
  imports Web_Routes
begin

text \<open>
  internal/web/settings_users.go and storeerr.go: an admin manages the accounts. All handlers that
  touch accounts are then put behind the routes, and no request leaves the instance without an admin.
\<close>

section \<open>A write the database refuses\<close>

definition writeFailure :: "error \<Rightarrow> string \<Rightarrow> string \<Rightarrow> (nat \<times> string) option" where
  "writeFailure e conflictMsg missingMsg =
     (if e = ErrUnique then Some (409, conflictMsg)
      else if missingMsg \<noteq> [] \<and> e = ErrForeignKey then Some (400, missingMsg)
      else None)"

definition settingsWriteError :: "string \<Rightarrow> error \<Rightarrow> string \<Rightarrow> response" where
  "settingsWriteError tab e conflictMsg = (case writeFailure e conflictMsg [] of
     Some (status, msg) \<Rightarrow> SettingsError tab status msg | None \<Rightarrow> serverError)"

section \<open>Handlers\<close>

definition handleUserCreate :: "server \<Rightarrow> request \<Rightarrow> 's handler" where
  "handleUserCreate sv r =
     (let username = trim_space (rq_Form r ''username''); password = rq_Form r ''password''; role = rq_Form r ''role'';
          n = (on_user username)\<lparr>nt_Detail := ''role '' @ role\<rparr> in
      if username = [] \<or> length password < minPasswordLen
      then ret (SettingsError ''users'' 400 ''enter a username and a password of at least 8 characters'', n)
      else if maxPasswordLen < length password then ret (SettingsError ''users'' 400 passwordTooLongMsg, n)
      else if role \<noteq> ''admin'' \<and> role \<noteq> ''viewer''
      then ret (SettingsError ''users'' 400 ''choose a role: Admin or Viewer'', n)
      else (case sv_gen sv password of
          None \<Rightarrow> ret (serverError, n)
        | Some h \<Rightarrow> bindA (attempt (CreateUser username h role)) (\<lambda>x. case x of
            Inl e \<Rightarrow> ret (settingsWriteError ''users'' e (''a user named '' @ username @ '' already exists''), n)
          | Inr _ \<Rightarrow> ret (Redirect ''/settings/users'', n))))"

definition only_admin_msg :: "string \<Rightarrow> string" where
  "only_admin_msg then_what = ''this is the only admin; make another user an admin first, then '' @ then_what"

definition handleUserDelete :: "user option \<Rightarrow> int option \<Rightarrow> 's handler" where
  "handleUserDelete me pid = (case pid of
     None \<Rightarrow> answer notFound
   | Some i \<Rightarrow> bindA (attempt (GetUser i)) (\<lambda>x.
       let n = (case x of Inr (Some u) \<Rightarrow> on_user (us_Username u) | _ \<Rightarrow> no_note) in
       if (case me of None \<Rightarrow> False | Some u \<Rightarrow> us_ID u = i)
       then ret (SettingsError ''users'' 400 ''you cannot delete your own account; sign in as another admin to delete it'', n)
       else bindA (attempt (DeleteUserGuarded i)) (\<lambda>y. case y of
           Inl _ \<Rightarrow> ret (serverError, n)
         | Inr True \<Rightarrow> ret (Redirect ''/settings/users'', n)
         | Inr False \<Rightarrow> bindA (attempt ListUsers) (\<lambda>z. case z of
               Inl _ \<Rightarrow> ret (serverError, n)
             | Inr us \<Rightarrow> if list_ex (\<lambda>u. us_ID u = i) us
                 then ret (SettingsError ''users'' 400 (only_admin_msg ''delete this one''), n)
                 else ret (notFound, n)))))"

definition handleUserRole :: "int option \<Rightarrow> request \<Rightarrow> 's handler" where
  "handleUserRole pid r = (case pid of
     None \<Rightarrow> answer notFound
   | Some i \<Rightarrow> bindA (attempt (GetUser i)) (\<lambda>x. case x of
       Inl _ \<Rightarrow> answer serverError
     | Inr None \<Rightarrow> answer notFound
     | Inr (Some u) \<Rightarrow>
         (let role = rq_Form r ''role''; n = (on_user (us_Username u))\<lparr>nt_Detail := us_Role u @ '' -> '' @ role\<rparr> in
          if role \<noteq> ''admin'' \<and> role \<noteq> ''viewer''
          then ret (SettingsError ''users'' 400 ''choose a role: Admin or Viewer'',
                 n\<lparr>nt_Detail := ''choose a role: Admin or Viewer''\<rparr>)
          else bindA (attempt (SetUserRoleGuarded i role)) (\<lambda>y. case y of
              Inl _ \<Rightarrow> ret (serverError, n)
            | Inr changed \<Rightarrow> if changed then ret (Redirect ''/settings/users'', n)
                else ret (SettingsError ''users'' 400 (only_admin_msg ''change this role''), n)))))"

section \<open>The handlers of accounts behind their routes\<close>

text \<open>
  \<open>rand\<close> is what the random source gives; the other handlers, the callback of single sign-on
  among them, are an argument.
\<close>

definition account_handlers :: "server \<Rightarrow> string option \<Rightarrow> time \<Rightarrow> time \<Rightarrow> 's handlers \<Rightarrow> 's handlers" where
  "account_handlers sv rand now later other = (\<lambda>h vals me r.
     if h = ''handleLogin'' then handleLogin sv r rand now later
     else if h = ''handleLogout'' then handleLogout sv r
     else if h = ''handleSetup'' then handleSetup sv r rand now
     else if h = ''handlePasswordChange'' then handlePasswordChange sv me r now later
     else if h = ''handleUserPasswordReset'' then handleUserPasswordReset sv (atoi (vals ''id'')) r
     else if h = ''handleSessionRevoke'' then handleSessionRevoke sv me (vals ''id'') r
     else if h = ''handleSessionRevokeOthers'' then handleSessionRevokeOthers sv me r
     else if h = ''handleTokenCreate'' then handleTokenCreate sv me r rand now
     else if h = ''handleTokenRevoke'' then handleTokenRevoke me (atoi (vals ''id''))
     else if h = ''handleUserCreate'' then handleUserCreate sv r
     else if h = ''handleUserDelete'' then handleUserDelete me (atoi (vals ''id''))
     else if h = ''handleUserRole'' then handleUserRole (atoi (vals ''id'')) r
     else other h vals me r)"

section \<open>There is always an admin\<close>

abbreviation administered :: "'s db_scheme \<Rightarrow> bool" where
  "administered \<equiv> \<lambda>s. has_admin (tabs s)"

named_theorems admin_kept \<open>operations after which there is still an admin\<close>

lemma accounts_keep [admin_kept]:
  "keeps administered (CreateUser name h role)" "keeps administered (CreateFirstAdmin name h)"
  "keeps administered (SetPasswordHash i h)" "keeps administered (DeleteUserGuarded i)"
  "keeps administered (SetUserRoleGuarded i role)"
  by (auto intro!: keepsI intro: account_step_admin account_step.intros)

lemma has_admin_cong: "t_user t' = t_user t \<Longrightarrow> has_admin t \<Longrightarrow> has_admin t'"
  by (simp add: has_admin_def admins_def)

lemma reads_keep [admin_kept]:
  "keeps administered (GetUserByName name)" "keeps administered CountUsers" "keeps administered (GetUser i)"
  "keeps administered ListUsers" "keeps administered (OIDCLinked i)" "keeps administered (GetSession hash c now)"
  by (simp_all add: GetUserByName_def CountUsers_def GetUser_def ListUsers_def OIDCLinked_def GetSession_def pres_intros)

lemma writes_keep [admin_kept]:
  "keeps administered (CreateSession hash tok i till meta)" "keeps administered (DeleteSession hash tok)"
  "keeps administered (DeleteSessionByID i sid)" "keeps administered (DeleteSessionsForUser hash i tok)"
  "keeps administered (CreateAPIToken hash i name tok ends ro now)" "keeps administered (DeleteAPIToken i k)"
  "keeps administered (AddAudit now at' e)"
  unfolding CreateSession_def DeleteSession_def DeleteSessionByID_def DeleteSessionsForUser_def CreateAPIToken_def
    DeleteAPIToken_def AddAudit_def Let_def
  by (intro pres_intros keeps_stmt keeps_exec; auto simp: del_session_def elim: has_admin_cong [rotated] split: if_splits)+

lemma token_read_keeps [admin_kept]: "keeps administered (GetUserByAPIToken hash tok now)"
  unfolding GetUserByAPIToken_def
  by (intro pres_intros keeps_exec) (auto simp: touch_token_def Let_def elim: has_admin_cong [rotated])

lemma limits_keep [admin_kept]:
  "keeps administered (take_ip k now)" "keeps administered (settle_ip k b now)"
  "keeps administered (take_user k now)" "keeps administered (settle_user k b now)"
  "keeps administered (take_token_slot k now)" "keeps administered (settle_token k b now)"
  by (auto intro!: keepsI simp: take_ip_def settle_ip_def take_user_def settle_user_def take_token_slot_def settle_token_def
      split: prod.splits)

lemma start_keeps [admin_kept]: "keeps administered (startSession sv r i rand now)"
  unfolding startSession_def Let_def by (intro pres_intros admin_kept)

lemma allowed_keeps [admin_kept]: "keeps administered (passwordLoginAllowed sv u)"
  unfolding passwordLoginAllowed_def by (intro pres_intros admin_kept)

lemma handlers_keep [admin_kept]:
  "keeps administered (handleLogin sv r rand now later)" "keeps administered (handleLogout sv r)"
  "keeps administered (handleSetup sv r rand now)" "keeps administered (handlePasswordChange sv me r now later)"
  "keeps administered (handleUserPasswordReset sv pid r)" "keeps administered (handleSessionRevoke sv me sid r)"
  "keeps administered (handleSessionRevokeOthers sv me r)" "keeps administered (handleTokenCreate sv me r rand now)"
  "keeps administered (handleTokenRevoke me pid)" "keeps administered (handleUserCreate sv r)"
  "keeps administered (handleUserDelete me pid)" "keeps administered (handleUserRole pid r)"
  unfolding handleLogin_def login_attempt_def handleLogout_def handleSetup_def handlePasswordChange_def
    handleUserPasswordReset_def setPassword_def handleSessionRevoke_def handleSessionRevokeOthers_def
    handleTokenCreate_def handleTokenRevoke_def handleUserCreate_def handleUserDelete_def handleUserRole_def
    orFail_def answer_def
  by (intro pres_intros admin_kept)+

lemma auth_keeps [admin_kept]: "keeps administered (requireAuth sv r now)"
  unfolding requireAuth_def serveBearer_def anonymous_def signed_in_def Let_def by (intro pres_intros admin_kept)


text \<open>The only admin asks to be made a viewer: refused, and still the admin.\<close>

definition other_pages :: "'s handlers" where
  "other_pages h vals me r = answer (Page h)"

definition demote_me :: request where
  "demote_me = (visitor ''/settings/users/1/role'' [(''role'', ''viewer'')])\<lparr>rq_Cookie := Some ''tok''\<rparr>"

definition managed_web :: web where
  "managed_web = new_web (no_tables\<lparr>t_user := [linked_admin],
     t_session := [\<lparr>se_TokenHash = ''tok'', se_UserID = 1, se_ExpiresAt = 100, se_CreatedAt = None, se_IP = None, se_UserAgent = None\<rparr>],
     t_setting := [(''onboarded'', ''1'')]\<rparr>) []"


end
