(* ===== verification/Store_Inventory.thy ===== *)
theory Store_Inventory
  imports Action_Rules Store_Meta
begin

text \<open>
  The inventory as a whole: what the keys and references of the schema promise of devices, interfaces,
  addresses, subnets and tags, and that the operations of internal/store keep it.
\<close>

section \<open>A sound inventory\<close>

definition tag_ids :: "tables \<Rightarrow> int list" where "tag_ids t = map tag_ID (t_tag t)"

text \<open>The hardware addresses there are, those that are absent left out.\<close>

definition macs :: "tables \<Rightarrow> string list" where
  "macs t = List.map_filter if_MAC (t_iface t)"

definition keys_ok :: "tables \<Rightarrow> bool" where
  "keys_ok t \<longleftrightarrow> distinct (dev_ids t) \<and> distinct (if_ids t) \<and> distinct (sn_ids t) \<and> distinct (tag_ids t) \<and> distinct (macs t)"

definition refs_ok :: "tables \<Rightarrow> bool" where
  "refs_ok t \<longleftrightarrow>
     (\<forall>d \<in> set (t_device t). parent_ok (dev_ParentDeviceID d) (dev_ids t)) \<and>
     (\<forall>f \<in> set (t_iface t). if_DeviceID f \<in> set (dev_ids t)) \<and>
     (\<forall>a \<in> set (t_ip t). ip_IfaceID a \<in> set (if_ids t) \<and> ip_SubnetID a \<in> set (sn_ids t)) \<and>
     (\<forall>(d, g) \<in> set (t_device_tag t). d \<in> set (dev_ids t) \<and> g \<in> set (tag_ids t)) \<and>
     (\<forall>l \<in> set (t_link t). ln_DeviceID l \<in> set (dev_ids t)) \<and>
     (\<forall>c \<in> set (t_field t). cf_DeviceID c \<in> set (dev_ids t)) \<and>
     (\<forall>p \<in> set (t_port t). op_IfaceID p \<in> set (if_ids t))"

definition ip_kinds :: "string list" where "ip_kinds = [''static'', ''dhcp'']"

definition values_ok :: "tables \<Rightarrow> bool" where
  "values_ok t \<longleftrightarrow> (\<forall>d \<in> set (t_device t). dev_Kind d \<in> set device_kinds \<and> dev_Source d \<in> set device_sources) \<and>
     (\<forall>a \<in> set (t_ip t). ip_Kind a \<in> set ip_kinds) \<and>
     (\<forall>sn \<in> set (t_subnet t). sn_Kind sn \<in> set subnet_kinds)"

definition inventory_ok :: "tables \<Rightarrow> bool" where
  "inventory_ok t \<longleftrightarrow> keys_ok t \<and> refs_ok t \<and> values_ok t"

lemmas inventory_defs = inventory_ok_def keys_ok_def refs_ok_def values_ok_def

abbreviation inventoried :: "'s db_scheme \<Rightarrow> bool" where
  "inventoried \<equiv> \<lambda>s. inventory_ok (tabs s)"

named_theorems inventory_kept \<open>operations that leave the inventory sound\<close>

section \<open>Rows of a table\<close>

lemma map_upd_where: "(\<And>r. P r \<Longrightarrow> g (f r) = g r) \<Longrightarrow> map g (upd_where P f rows) = map g rows"
  by (simp add: upd_where_def)

lemma set_map_upd_where: "(\<And>r. P r \<Longrightarrow> g (f r) = g r) \<Longrightarrow> g ` set (upd_where P f rows) = g ` set rows"
  using map_upd_where [of P g f rows] by (metis set_map)

lemma set_upd_where: "x \<in> set (upd_where P f rows) \<longleftrightarrow> (\<exists>r \<in> set rows. x = (if P r then f r else r))"
  by (auto simp: upd_where_def)

lemma map_filter_append: "List.map_filter g (xs @ ys) = List.map_filter g xs @ List.map_filter g ys"
  by (simp add: List.map_filter_def)

lemma set_map_filter_option: "x \<in> set (List.map_filter g xs) \<longleftrightarrow> (\<exists>y \<in> set xs. g y = Some x)"
  by (induction xs) (auto simp: map_filter_simps split: option.splits)

lemma distinct_map_filter_filter:
  "distinct (List.map_filter g xs) \<Longrightarrow> distinct (List.map_filter g (filter P xs))"
  by (induction xs) (auto simp: map_filter_simps set_map_filter_option split: option.splits)

section \<open>Statements keep it\<close>

lemma keep_new_device: "inventory_ok t \<Longrightarrow> ins_device d t = Inr (i, t') \<Longrightarrow> inventory_ok t'"
  by (drule ins_deviceD)
    (auto simp: inventory_defs dev_ids_def if_ids_def sn_ids_def tag_ids_def macs_def device_check_def parent_ok_def
      new_device_row_def split: option.splits)

lemma keep_new_iface: "inventory_ok t \<Longrightarrow> ins_iface dev mac host t = Inr (i, t') \<Longrightarrow> inventory_ok t'"
  by (drule ins_ifaceD)
    (auto simp: inventory_defs dev_ids_def if_ids_def sn_ids_def tag_ids_def macs_def mac_taken_def map_filter_append
      set_map_filter_option map_filter_simps image_iff split: option.splits)

lemma keep_new_ip: "inventory_ok t \<Longrightarrow> ins_ip ifc sn ip kind src t = Inr (i, t') \<Longrightarrow> inventory_ok t'"
  by (drule ins_ipD) (auto simp: ip_kinds_def inventory_defs dev_ids_def if_ids_def sn_ids_def tag_ids_def macs_def)

lemmas columns = dev_ids_def if_ids_def sn_ids_def tag_ids_def macs_def

lemma left_over: "x \<in> g ` A \<Longrightarrow> x \<notin> g ` {a \<in> A. P a} \<Longrightarrow> x \<in> g ` {a \<in> A. \<not> P a}"
  by auto

text \<open>Deleting rows and all that refer to them, directly or through an interface.\<close>

lemma keep_del_device: "inventory_ok t \<Longrightarrow> inventory_ok (snd (del_device P t))"
  unfolding inventory_ok_def
proof (elim conjE, intro conjI)
  assume k: "keys_ok t" and r: "refs_ok t" and v: "values_ok t"
  show "keys_ok (snd (del_device P t))"
    using k by (auto simp: keys_ok_def columns del_device_def cascade_device_def Let_def del_where_def o_def
        intro: distinct_map_filter distinct_map_filter_filter)
  show "values_ok (snd (del_device P t))"
    using v by (auto simp: values_ok_def del_device_def cascade_device_def Let_def del_where_def)
  show "refs_ok (snd (del_device P t))"
    using r by (auto simp: refs_ok_def columns del_device_def cascade_device_def Let_def del_where_def parent_ok_def
        intro: left_over split: option.splits)
qed

text \<open>Changing rows without their keys and references.\<close>

lemma keep_upd_device:
  assumes "inventory_ok t"
    and "\<And>r. P r \<Longrightarrow> dev_ID (f r) = dev_ID r"
    and "\<And>r. P r \<Longrightarrow> r \<in> set (t_device t) \<Longrightarrow> dev_Kind (f r) \<in> set device_kinds \<and> dev_Source (f r) \<in> set device_sources
           \<and> parent_ok (dev_ParentDeviceID (f r)) (dev_ids t)"
  shows "inventory_ok (t\<lparr>t_device := upd_where P f (t_device t)\<rparr>)"
proof -
  have ids: "dev_ids (t\<lparr>t_device := upd_where P f (t_device t)\<rparr>) = dev_ids t"
    using assms(2) by (simp add: dev_ids_def map_upd_where)
  show ?thesis using assms(1,3)
    by (auto simp: inventory_defs ids set_upd_where if_ids_def sn_ids_def tag_ids_def macs_def)
qed

lemma keep_update_device:
  assumes "inventory_ok t"
    and "device_check d" and "parent_ok (dev_ParentDeviceID d) (dev_ids t)"
  shows "inventory_ok (t\<lparr>t_device := upd_where (\<lambda>r. dev_ID r = dev_ID d) (updated_device_row d) (t_device t)\<rparr>)"
  by (rule keep_upd_device) (use assms in \<open>auto simp: updated_device_row_def device_check_def\<close>)

lemma macs_upd_where:
  "(\<And>r. P r \<Longrightarrow> if_MAC (f r) = if_MAC r) \<Longrightarrow> List.map_filter if_MAC (upd_where P f rows) = List.map_filter if_MAC rows"
  by (induction rows) (auto simp: upd_where_def map_filter_simps split: option.splits)

lemma keep_upd_iface:
  assumes "inventory_ok t"
    and "\<And>r. P r \<Longrightarrow> if_ID (f r) = if_ID r \<and> if_MAC (f r) = if_MAC r"
    and "\<And>r. P r \<Longrightarrow> r \<in> set (t_iface t) \<Longrightarrow> if_DeviceID (f r) \<in> set (dev_ids t)"
  shows "inventory_ok (t\<lparr>t_iface := upd_where P f (t_iface t)\<rparr>)"
proof -
  have ids: "if_ids (t\<lparr>t_iface := upd_where P f (t_iface t)\<rparr>) = if_ids t"
    "macs (t\<lparr>t_iface := upd_where P f (t_iface t)\<rparr>) = macs t"
    using assms(2) by (simp_all add: if_ids_def macs_def map_upd_where macs_upd_where)
  show ?thesis using assms(1,3)
    by (auto simp: inventory_defs ids set_upd_where dev_ids_def sn_ids_def tag_ids_def)
qed

lemma keep_upd_ip:
  assumes "inventory_ok t"
    and "\<And>r. P r \<Longrightarrow> ip_IfaceID (f r) = ip_IfaceID r \<and> ip_SubnetID (f r) = ip_SubnetID r"
    and "\<And>r. P r \<Longrightarrow> r \<in> set (t_ip t) \<Longrightarrow> ip_Kind (f r) \<in> set ip_kinds"
  shows "inventory_ok (t\<lparr>t_ip := upd_where P f (t_ip t)\<rparr>)"
  using assms by (auto simp: inventory_defs columns set_upd_where)

lemma keep_upd_subnet:
  assumes "inventory_ok t"
    and "\<And>r. P r \<Longrightarrow> sn_ID (f r) = sn_ID r"
    and "\<And>r. P r \<Longrightarrow> r \<in> set (t_subnet t) \<Longrightarrow> sn_Kind (f r) \<in> set subnet_kinds"
  shows "inventory_ok (t\<lparr>t_subnet := upd_where P f (t_subnet t)\<rparr>)"
proof -
  have ids: "sn_ids (t\<lparr>t_subnet := upd_where P f (t_subnet t)\<rparr>) = sn_ids t"
    using assms(2) by (simp add: sn_ids_def map_upd_where)
  show ?thesis using assms(1,3)
    by (auto simp: inventory_defs ids set_upd_where dev_ids_def if_ids_def tag_ids_def macs_def)
qed

lemma keep_upd_tag:
  assumes "inventory_ok t" and "\<And>r. P r \<Longrightarrow> tag_ID (f r) = tag_ID r"
  shows "inventory_ok (t\<lparr>t_tag := upd_where P f (t_tag t)\<rparr>)"
proof -
  have ids: "tag_ids (t\<lparr>t_tag := upd_where P f (t_tag t)\<rparr>) = tag_ids t"
    using assms(2) by (simp add: tag_ids_def map_upd_where)
  show ?thesis using assms(1)
    by (auto simp: inventory_defs ids dev_ids_def if_ids_def sn_ids_def macs_def)
qed

text \<open>Fewer rows that nothing refers to, and rows of the other tables.\<close>

lemma keep_fewer:
  assumes "inventory_ok t"
  shows "inventory_ok (t\<lparr>t_ip := del_where P (t_ip t)\<rparr>)" "inventory_ok (t\<lparr>t_device_tag := del_where Q (t_device_tag t)\<rparr>)"
    "inventory_ok (t\<lparr>t_link := del_where R (t_link t)\<rparr>)" "inventory_ok (t\<lparr>t_field := del_where S (t_field t)\<rparr>)"
    "inventory_ok (t\<lparr>t_port := del_where U (t_port t)\<rparr>)"
  using assms by (auto simp: inventory_defs columns del_where_def)

lemma keep_elsewhere:
  assumes "inventory_ok t"
  shows "inventory_ok (t\<lparr>t_event := ev\<rparr>)" "inventory_ok (t\<lparr>t_status := st\<rparr>)" "inventory_ok (t\<lparr>t_avail := av\<rparr>)"
    "inventory_ok (t\<lparr>t_audit := au\<rparr>)" "inventory_ok (t\<lparr>t_setting := se\<rparr>)"
    "inventory_ok (t\<lparr>t_user := us\<rparr>)" "inventory_ok (t\<lparr>t_session := ss\<rparr>)" "inventory_ok (t\<lparr>t_token := tk\<rparr>)"
    "inventory_ok (t\<lparr>t_istatus := is\<rparr>)" "inventory_ok (t\<lparr>t_hint := hs\<rparr>)" "inventory_ok (t\<lparr>t_autofill := fs\<rparr>)"
  using assms by (auto simp: inventory_defs columns)

lemma keep_details:
  assumes "inventory_ok t"
  shows "ln_DeviceID l \<in> set (dev_ids t) \<Longrightarrow> inventory_ok (t\<lparr>t_link := t_link t @ [l]\<rparr>)"
    "cf_DeviceID c \<in> set (dev_ids t) \<Longrightarrow> inventory_ok (t\<lparr>t_field := t_field t @ [c]\<rparr>)"
    "(\<And>c. cf_DeviceID (g c) = cf_DeviceID c) \<Longrightarrow> inventory_ok (t\<lparr>t_field := upd_where P g (t_field t)\<rparr>)"
  using assms by (auto simp: inventory_defs columns set_upd_where)

lemma keep_del_tag: "inventory_ok t \<Longrightarrow> inventory_ok (snd (del_tag i t))"
  by (auto simp: inventory_defs columns del_tag_def del_where_def intro: distinct_map_filter)

lemma keep_new_tag: "inventory_ok t \<Longrightarrow> ins_tag name color t = Inr (i, t') \<Longrightarrow> inventory_ok t'"
  using next_id_fresh [of i "map tag_ID (t_tag t)"]
  by (auto simp: ins_tag_def inventory_defs columns Let_def split: if_splits)

lemma keep_device_tags:
  "inventory_ok t \<Longrightarrow> (\<And>d g. (d, g) \<in> set xs \<Longrightarrow> d \<in> set (dev_ids t) \<and> g \<in> set (tag_ids t)) \<Longrightarrow>
   inventory_ok (t\<lparr>t_device_tag := xs\<rparr>)"
  by (auto simp: inventory_ok_def keys_ok_def values_ok_def refs_ok_def columns)

lemma tags_ok: "inventory_ok t \<Longrightarrow> (d, g) \<in> set (t_device_tag t) \<Longrightarrow> d \<in> set (dev_ids t) \<and> g \<in> set (tag_ids t)"
  by (auto simp: inventory_ok_def refs_ok_def)

lemma keep_ports:
  "inventory_ok t \<Longrightarrow> (\<And>p. p \<in> set ps \<Longrightarrow> op_IfaceID p \<in> set (if_ids t)) \<Longrightarrow> inventory_ok (t\<lparr>t_port := ps\<rparr>)"
  by (auto simp: inventory_ok_def keys_ok_def values_ok_def refs_ok_def columns)

lemma ports_ok: "inventory_ok t \<Longrightarrow> p \<in> set (t_port t) \<Longrightarrow> op_IfaceID p \<in> set (if_ids t)"
  by (auto simp: inventory_ok_def refs_ok_def)

lemma keep_new_device_tag: "inventory_ok t \<Longrightarrow> ins_device_tag dev g t = Inr (i, t') \<Longrightarrow> inventory_ok t'"
  by (auto simp: ins_device_tag_def dest: tags_ok split: if_splits intro!: keep_device_tags)
    (auto simp: tag_ids_def dest: tags_ok)

lemma keep_join_tags: "inventory_ok t \<Longrightarrow> to \<in> set (tag_ids t) \<Longrightarrow> inventory_ok (snd (join_tags i to t))"
  by (auto simp: join_tags_def inventory_defs columns Let_def)

lemma keep_new_subnet: "inventory_ok t \<Longrightarrow> ins_subnet sn t = Inr (i, t') \<Longrightarrow> inventory_ok t'"
  using next_id_fresh [of i "sn_ids t"]
  by (auto simp: ins_subnet_def inventory_defs columns Let_def split: if_splits)

lemma keep_cascade_subnet: "inventory_ok t \<Longrightarrow> inventory_ok (cascade_subnet i t)"
  by (auto simp: inventory_defs columns cascade_subnet_def del_where_def intro: distinct_map_filter)

lemma keep_port: "inventory_ok t \<Longrightarrow> upsert_port ifc port proto g at' t = Inr (u, t') \<Longrightarrow> inventory_ok t'"
  by (auto simp: upsert_port_def Let_def set_upd_where ports_ok split: if_splits intro!: keep_ports)

section \<open>Operations keep it\<close>

lemma row_ok:
  assumes "inventory_ok t"
  shows "r \<in> set (t_device t) \<Longrightarrow> dev_Kind r \<in> set device_kinds" "r \<in> set (t_device t) \<Longrightarrow> dev_Source r \<in> set device_sources"
    "r \<in> set (t_device t) \<Longrightarrow> parent_ok (dev_ParentDeviceID r) (dev_ids t)"
    "f \<in> set (t_iface t) \<Longrightarrow> if_DeviceID f \<in> set (dev_ids t)" "a \<in> set (t_ip t) \<Longrightarrow> ip_Kind a \<in> set ip_kinds"
    "sn \<in> set (t_subnet t) \<Longrightarrow> sn_Kind sn \<in> set subnet_kinds"
  using assms by (auto simp: inventory_defs)

lemma updated_device_simps:
  "dev_ID (updated_device_row d r) = dev_ID r" "dev_Kind (updated_device_row d r) = dev_Kind d"
  "dev_Source (updated_device_row d r) = dev_Source d" "dev_ParentDeviceID (updated_device_row d r) = dev_ParentDeviceID d"
  by (simp_all add: updated_device_row_def)

lemma parent_ok_simps: "parent_ok None ids" "parent_ok (Some i) ids \<longleftrightarrow> i \<in> set ids"
  by (simp_all add: parent_ok_def)

lemma none_counted: "count_where P rows = 0 \<longleftrightarrow> (\<forall>r \<in> set rows. \<not> P r)"
  by (auto simp: count_where_def filter_empty_conv)

lemma device_operations_keep [inventory_kept]:
  "keeps inventoried (CreateDevice d)" "keeps inventoried (insertDeviceOn d)" "keeps inventoried (UpdateDevice d)"
  "keeps inventoried (SetDeviceReviewed i b)" "keeps inventoried (DeleteDevice i)" "keeps inventoried (AddIface i m h)"
  "keeps inventoried (SetDeviceAlertOffline i on)"
  unfolding CreateDevice_def insertDeviceOn_def UpdateDevice_def SetDeviceReviewed_def DeleteDevice_def AddIface_def
    SetDeviceAlertOffline_def
  by (intro pres_intros keeps_stmt keeps_exec;
      auto simp: updated_device_simps device_check_def row_ok split: if_splits
        intro: keep_new_device keep_new_iface keep_del_device intro!: keep_upd_device)+

lemma guest_parent_keeps [inventory_kept]: "keeps inventoried (SetProxmoxGuestParent i j)"
  unfolding SetProxmoxGuestParent_def Let_def
  by (intro keeps_stmt)
    (auto simp: row_ok parent_ok_simps none_counted split: if_splits intro!: keep_upd_device)

lemma keep_same: "inventory_ok t \<Longrightarrow> Inr ((), t) = Inr (u, t') \<Longrightarrow> inventory_ok t'"
  by simp

lemma move_keeps: "inventory_ok t \<Longrightarrow> move_iface i a b t = Inr (n, t') \<Longrightarrow> inventory_ok t'"
  by (auto simp: move_iface_def Let_def none_counted row_ok split: if_splits intro!: keep_upd_iface)

lemma set_ip_kind_keeps: "inventory_ok t \<Longrightarrow> set_ip_kind i kind t = Inr (u, t') \<Longrightarrow> inventory_ok t'"
  by (auto simp: set_ip_kind_def Let_def none_counted ip_kinds_def split: if_splits intro!: keep_upd_ip)

lemma keeps_error [pres_intros]:
  assumes "keeps I m1" "keeps I m2" "keeps I m3" "keeps I m4" "keeps I m5" "keeps I m6" "\<And>c n. keeps I (m7 c n)" "\<And>m. keeps I (m8 m)"
  shows "keeps I (case e of ErrNoRows \<Rightarrow> m1 | ErrUnique \<Rightarrow> m2 | ErrForeignKey \<Rightarrow> m3 | ErrCheck \<Rightarrow> m4 | ErrFault \<Rightarrow> m5
     | ErrTagExists \<Rightarrow> m6 | ErrTooLarge c n \<Rightarrow> m7 c n | ErrMsg m \<Rightarrow> m8 m)"
  using assms by (cases e) simp_all

lemma address_operations_keep [inventory_kept]:
  "keeps inventoried (AdoptDiscoveredIface i j)" "keeps inventoried (AssignIP i sn ip kind)"
  "keeps inventoried (RemoveIfaceIPsInSubnetExcept i sn ip)" "keeps inventoried (ClaimDHCPLease i sn ip)"
  "keeps inventoried (UpsertIPAssignmentFrom i sn ip kind src)" "keeps inventoried (UpsertIPAssignment i sn ip kind)"
  "keeps inventoried (SetIfaceHostnameIfEmpty i h)" "keeps inventoried (SetIPKind sn ip kind)"
  unfolding AdoptDiscoveredIface_def AssignIP_def RemoveIfaceIPsInSubnetExcept_def ClaimDHCPLease_def
    UpsertIPAssignmentFrom_def UpsertIPAssignment_def SetIfaceHostnameIfEmpty_def SetIPKind_def del_ip_def repoint_events_def Let_def
  by (intro pres_intros keeps_stmt keeps_exec;
      auto simp: row_ok none_counted ip_kinds_def split: if_splits
        intro: move_keeps keep_new_ip set_ip_kind_keeps keep_fewer keep_elsewhere keep_del_device
        intro!: keep_upd_iface keep_upd_ip)+

lemma creations_keep [inventory_kept]:
  "keeps inventoried (CreateDiscoveredDevice d m h sn ip kind)" "keeps inventoried (CreateDeviceWithIface d m sn ip kind)"
  unfolding CreateDiscoveredDevice_def CreateDeviceWithIface_def
  by (intro pres_intros inventory_kept keeps_stmt; auto intro: keep_new_iface keep_new_ip)+

lemma subnet_operations_keep [inventory_kept]:
  "keeps inventoried (CreateSubnet sn)" "keeps inventoried (UpdateSubnet sn)" "keeps inventoried (DeleteSubnet i)"
  "keeps inventoried (SetDHCPPoolFrom i st en src)"
  unfolding CreateSubnet_def UpdateSubnet_def DeleteSubnet_def SetDHCPPoolFrom_def
  by (intro pres_intros keeps_stmt keeps_exec;
      auto simp: row_ok split: if_splits intro: keep_new_subnet keep_cascade_subnet intro!: keep_upd_subnet)+

lemma tag_operations_keep [inventory_kept]:
  "keeps inventoried (CreateTag n c)" "keeps inventoried (SetTagColor i c)" "keeps inventoried (DeleteTag i)"
  "keeps inventoried (TagDevice i j)" "keeps inventoried (UntagDevice i j)"
  unfolding CreateTag_def SetTagColor_def upd_tag_def DeleteTag_def detach_tag_def requireRow_def TagDevice_def UntagDevice_def
    del_device_tag_def
  by (intro pres_intros keeps_stmt keeps_exec;
      auto intro: keep_new_tag keep_new_device_tag keep_fewer keep_del_tag intro!: keep_upd_tag)+

lemma detail_operations_keep [inventory_kept]:
  "keeps inventoried (AddLink i l u)" "keeps inventoried (DeleteLink i)" "keeps inventoried (DeleteCustomField i k)"
  "keeps inventoried (ReplaceOpenPorts i p ports ts)" "keeps inventoried (UpsertOpenPort i po p g ts)"
  "keeps inventoried (SetCustomField i k v)"
  unfolding AddLink_def DeleteLink_def DeleteCustomField_def ReplaceOpenPorts_def UpsertOpenPort_def SetCustomField_def Let_def
  by (intro pres_intros keeps_stmt keeps_exec;
      auto split: if_splits intro: keep_fewer keep_port intro!: keep_details)+

text \<open>A lookup whose answer the rest depends on.\<close>

lemma keeps_found:
  fixes k :: "error + 'b \<Rightarrow> ('s db_scheme, 'c) act"
  assumes "\<And>a s. J (tabs s) \<Longrightarrow> q (tabs s) = Some a \<Longrightarrow> J (tabs (snd (k (Inr a) s)))" and "\<And>e. keeps (\<lambda>s. J (tabs s)) (k (Inl e))"
  shows "keeps (\<lambda>s. J (tabs s)) (bindA (attempt (query_row q)) k)"
proof (rule keepsI)
  fix s :: "'s db_scheme" assume J: "J (tabs s)"
  have "wp (query_row q) (\<lambda>x s'. J (tabs (snd (k x s')))) s"
    by (rule wp_query_row) (use J assms(1) keepsD [OF assms(2)] in auto)
  then show "J (tabs (snd (bindA (attempt (query_row q)) k s)))"
    by (simp add: wp_def bindA_def attempt_def split: prod.splits)
qed

lemma tag_like_row: "tag_like name P t = Some g \<Longrightarrow> \<exists>x \<in> set (t_tag t). tag_ID x = g \<and> P x"
proof -
  assume "tag_like name P t = Some g"
  then obtain x xs where x: "order_by (\<lambda>g. (if tag_Name g = name then 0 else 1 :: nat, tag_ID g))
      (filter (\<lambda>g. to_lower (tag_Name g) = to_lower name \<and> P g) (t_tag t)) = x # xs" "g = tag_ID x"
    by (auto simp: tag_like_def split: list.splits)
  from arg_cong [OF x(1), of set] have "x \<in> set (filter (\<lambda>g. to_lower (tag_Name g) = to_lower name \<and> P g) (t_tag t))"
    by (auto simp: order_by_def)
  then show ?thesis using x(2) by auto
qed

lemma merge_keeps:
  assumes "g \<noteq> i"
  shows "keeps (\<lambda>s. inventory_ok (tabs s) \<and> g \<in> set (tag_ids (tabs s)))
    (thenA (exec (join_tags i g)) (thenA (exec (detach_tag i)) (thenA (exec (del_tag i)) (ret g))))"
  by (intro pres_intros keeps_exec [where J = "\<lambda>t. inventory_ok t \<and> g \<in> set (tag_ids t)"])
    (use assms in \<open>auto simp: keep_join_tags keep_del_tag detach_tag_def keep_fewer,
      auto simp: join_tags_def del_tag_def tag_ids_def del_where_def Let_def\<close>)

lemma rename_tag_keeps: "inventory_ok t \<Longrightarrow> rename_tag i name t = Inr (u, t') \<Longrightarrow> inventory_ok t'"
  by (auto simp: rename_tag_def upd_tag_def split: if_splits intro!: keep_upd_tag)

lemma find_or_create_keeps [inventory_kept]: "keeps inventoried (findOrCreateTagOn n)"
  unfolding findOrCreateTagOn_def ins_tag_new_def
  by (intro pres_intros keeps_exec) (auto split: sum.splits prod.splits intro: keep_new_tag)

lemma device_tags_keep [inventory_kept]:
  "keeps inventoried (SetDeviceTags i names)" "keeps inventoried (AddDeviceTags i names)"
  unfolding SetDeviceTags_def AddDeviceTags_def DeviceTags_def del_device_tag_def Let_def
  by (intro pres_intros inventory_kept keeps_stmt keeps_exec; auto intro: keep_fewer keep_new_device_tag)+

lemma rename_keeps [inventory_kept]: "keeps (inventoried :: 's db_scheme \<Rightarrow> bool) (RenameTag i name merge)"
proof -
  have merged: "inventory_ok (tabs (snd ((if \<not> merge then fail ErrTagExists
         else thenA (exec (join_tags i g)) (thenA (exec (detach_tag i)) (thenA (exec (del_tag i)) (ret g)))) s)))"
    if s: "inventory_ok (tabs s)" and g: "tag_like name (\<lambda>g. tag_ID g \<noteq> i) (tabs s) = Some g" for g and s :: "'s db_scheme"
  proof (cases merge)
    case True
    from tag_like_row [OF g] have "g \<noteq> i" "g \<in> set (tag_ids (tabs s))" by (auto simp: tag_ids_def)
    with keepsD [OF merge_keeps, of g i s] s True show ?thesis by simp
  qed (use s in \<open>simp add: fail_def\<close>)
  have missing: "keeps (inventoried :: 's db_scheme \<Rightarrow> bool) (thenA (stmt (rename_tag i name)) (ret (0 :: int)))"
    by (intro pres_intros keeps_stmt) (rule rename_tag_keeps)
  have found: "keeps (inventoried :: 's db_scheme \<Rightarrow> bool) (bindA (attempt (query_row (tag_like name (\<lambda>g. tag_ID g \<noteq> i)))) (\<lambda>r. case r of
       Inl ErrNoRows \<Rightarrow> thenA (stmt (rename_tag i name)) (ret 0)
     | Inl e \<Rightarrow> fail e
     | Inr other \<Rightarrow>
         if \<not> merge then fail ErrTagExists
         else thenA (exec (join_tags i other)) (thenA (exec (detach_tag i)) (thenA (exec (del_tag i)) (ret other)))))"
  proof (rule keeps_found)
    show "keeps (inventoried :: 's db_scheme \<Rightarrow> bool) (case Inl e of Inl ErrNoRows \<Rightarrow> thenA (stmt (rename_tag i name)) (ret 0) | Inl e \<Rightarrow> fail e
       | Inr other \<Rightarrow> (if \<not> merge then fail ErrTagExists
         else thenA (exec (join_tags i other)) (thenA (exec (detach_tag i)) (thenA (exec (del_tag i)) (ret other)))))" for e
      unfolding sum.case by (intro keeps_error missing keeps_fail)
  qed (unfold sum.case, rule merged)
  show ?thesis unfolding RenameTag_def
    by (rule keeps_withTx, rule keeps_bind, rule keeps_query_row, rule keeps_if, rule keeps_ret, rule found)
qed

text \<open>A hardware address an interface learns is free.\<close>

lemma macs_learn:
  assumes "distinct (map if_ID fs)" and "distinct (List.map_filter if_MAC fs)" and "Some m \<notin> if_MAC ` set fs"
    and "\<And>f. P f \<Longrightarrow> if_ID f = i"
  shows "distinct (List.map_filter if_MAC (upd_where P (\<lambda>f. f\<lparr>if_MAC := Some m\<rparr>) fs)) \<and>
    set (List.map_filter if_MAC (upd_where P (\<lambda>f. f\<lparr>if_MAC := Some m\<rparr>) fs)) \<subseteq> insert m (set (List.map_filter if_MAC fs))"
  using assms
proof (induction fs)
  case (Cons f fs)
  have step: "upd_where P g (f # fs) = (if P f then g f else f) # upd_where P g fs" for g
    by (simp add: upd_where_def)
  show ?case
  proof (cases "P f")
    case True
    with Cons.prems have "\<forall>x \<in> set fs. \<not> P x" by auto
    then have "upd_where P (\<lambda>f. f\<lparr>if_MAC := Some m\<rparr>) fs = fs"
      unfolding upd_where_def by (intro map_idI) simp
    with True Cons.prems show ?thesis
      by (force simp: step map_filter_simps set_map_filter_option image_iff split: option.splits)
  next
    case False
    with Cons show ?thesis by (cases "if_MAC f") (auto simp: step map_filter_simps)
  qed
qed (simp add: upd_where_def map_filter_simps)

lemma learn_keeps [inventory_kept]: "keeps inventoried (SetIfaceMACIfEmpty i m)"
proof -
  have "inventory_ok (t\<lparr>t_iface := upd_where (\<lambda>f. if_ID f = i \<and> no_mac f \<and> Some m \<notin> if_MAC ` set (t_iface t))
      (\<lambda>f. f\<lparr>if_MAC := Some m\<rparr>) (t_iface t)\<rparr>)" (is "inventory_ok ?t") if t: "inventory_ok t" for t
  proof (cases "Some m \<in> if_MAC ` set (t_iface t)")
    case True
    then have "?t = t" by (simp add: upd_where_def)
    then show ?thesis using t by simp
  next
    case False
    have ids: "if_ids ?t = if_ids t" by (simp add: if_ids_def map_upd_where)
    have "distinct (macs ?t)"
      using macs_learn [of "t_iface t" m "\<lambda>f. if_ID f = i \<and> no_mac f \<and> Some m \<notin> if_MAC ` set (t_iface t)" i] t False
      by (simp add: inventory_ok_def keys_ok_def if_ids_def macs_def)
    then show ?thesis using t
      by (auto simp: inventory_defs ids set_upd_where dev_ids_def sn_ids_def tag_ids_def)
  qed
  then show ?thesis unfolding SetIfaceMACIfEmpty_def Let_def by (intro pres_intros keeps_exec) simp
qed

lemma reads_keep_inventory [inventory_kept]:
  "keeps inventoried (GetDevice i)" "keeps inventoried (GetSubnet i)" "keeps inventoried ListSubnets" "keeps inventoried ListTags"
  "keeps inventoried ListTagsWithCounts" "keeps inventoried ListDevices" "keeps inventoried (ListIfaces i)" "keeps inventoried (ListIPs i)"
  "keeps inventoried (DeviceTags i)" "keeps inventoried (DeviceAlert i)" "keeps inventoried (FindIfaceByMAC m)"
  "keeps inventoried (FindIfaceByIP sn ip)"
  unfolding GetDevice_def GetSubnet_def ListSubnets_def ListTags_def ListTagsWithCounts_def ListDevices_def ListIfaces_def ListIPs_def
    DeviceTags_def DeviceAlert_def FindIfaceByMAC_def FindIfaceByIP_def
  by (intro pres_intros)+

end
