(* ===== verification/Web_Settings.thy ===== *)
theory Web_Settings
  imports Web_Users Lease_Pools Scan_Sweep Store_Inventory
begin

text \<open>
  internal/web/settings_subnets.go, tags.go and devices_bulk.go: the forms an admin manages subnets,
  tags and many devices at once with.
\<close>

section \<open>Subnets\<close>

text \<open>One end of a pool: an address in the subnet, or an IPv4 address's last octet.\<close>

definition last_octet :: "string \<Rightarrow> cidr \<Rightarrow> int option" where
  "last_octet s p = (case atoi s of None \<Rightarrow> None
     | Some n \<Rightarrow> if is4 (pfx_addr p) \<and> 0 \<le> n \<and> n \<le> 255 then Some n else None)"

definition poolAddr :: "cidr \<Rightarrow> string \<Rightarrow> addr option" where
  "poolAddr p s = (case (case last_octet s p of
       Some n \<Rightarrow> Some (addr_from_slice ((as_slice (pfx_addr p))[3 := word_of_int n]))
     | None \<Rightarrow> parse_addr s) of
     None \<Rightarrow> None
   | Some a \<Rightarrow> if contains p a then Some a else None)"

definition next_string :: "addr \<Rightarrow> string" where
  "next_string a = (case next_addr a of None \<Rightarrow> ''invalid IP'' | Some b \<Rightarrow> addr_string b)"

text \<open>The pool, or what is wrong with it.\<close>

definition parseDHCPPool :: "cidr \<Rightarrow> string \<Rightarrow> string \<Rightarrow> string + string \<times> string" where
  "parseDHCPPool p st0 en0 = (let st = trim_space st0; en = trim_space en0 in
     if st = [] \<and> en = [] then Inr ([], [])
     else if st = [] \<or> en = [] then Inl ''give the DHCP pool both a first and a last address, or leave both empty''
     else (case (poolAddr p st, poolAddr p en) of
         (Some lo, Some hi) \<Rightarrow>
           if addr_less hi lo then Inl ''the DHCP pool's first address must not come after its last''
           else Inr (addr_string lo, addr_string hi)
       | _ \<Rightarrow> Inl (''the DHCP pool's addresses must be in '' @ prefix_string p @ '', like '' @ next_string (pfx_addr p))))"

text \<open>What \<open>SubnetTooLargeError\<close> says.\<close>

definition too_large_msg :: "string \<Rightarrow> nat \<Rightarrow> string" where
  "too_large_msg c n = ''subnet '' @ c @ '' is larger than the '' @ string_of_nat MaxSubnetAddresses @
     ''-address limit; use /'' @ string_of_nat n @ '' or narrower''"

definition parseSubnetForm :: "request \<Rightarrow> string + subnet" where
  "parseSubnetForm r = (let c = trim_space (rq_Form r ''cidr''); kind = rq_Form r ''kind'' in
     case parse_prefix c of
       None \<Rightarrow> Inl ''that is not a subnet in CIDR form; write it like 192.168.1.0/24''
     | Some p \<Rightarrow> (case CheckSubnetSize c of
         Inl (ErrTooLarge x n) \<Rightarrow> Inl (too_large_msg x n)
       | Inl _ \<Rightarrow> Inl ''invalid CIDR''
       | Inr _ \<Rightarrow>
           if kind \<notin> {''lan'', ''wireguard'', ''proxmox-bridge''} then Inl ''choose a subnet kind from the list''
           else (let interval = (case atoi (rq_Form r ''scan_interval_sec'') of None \<Rightarrow> 120
                                | Some n \<Rightarrow> if n < 30 then 120 else n) in
             case parseDHCPPool (masked p) (rq_Form r ''dhcp_start'') (rq_Form r ''dhcp_end'') of
               Inl msg \<Rightarrow> Inl msg
             | Inr (st, en) \<Rightarrow> Inr \<lparr>sn_ID = 0, sn_CIDR = prefix_string (masked p), sn_Name = rq_Form r ''name'',
                 sn_VLANID = None, sn_Kind = kind, sn_ScanEnabled = (rq_Form r ''scan_enabled'' = ''on''),
                 sn_ScanIntervalSec = interval, sn_DHCPStart = st, sn_DHCPEnd = en, sn_DHCPPoolSource = []\<rparr>)))"

text \<open>Who owns the pool that is saved.\<close>

definition poolSource :: "subnet \<Rightarrow> subnet \<Rightarrow> string" where
  "poolSource old sn =
     (if sn_DHCPStart sn = [] \<and> sn_DHCPEnd sn = [] then []
      else if sn_DHCPStart sn = sn_DHCPStart old \<and> sn_DHCPEnd sn = sn_DHCPEnd old then sn_DHCPPoolSource old
      else ''user'')"

definition subnetExistsMsg :: string where "subnetExistsMsg = ''a subnet with that CIDR already exists''"

definition on_subnet :: "subnet \<Rightarrow> auditRecord" where
  "on_subnet sn = no_note\<lparr>nt_Target := ''subnet '' @ sn_CIDR sn\<rparr>"

definition handleSubnetCreate :: "request \<Rightarrow> 's handler" where
  "handleSubnetCreate r = (case parseSubnetForm r of
     Inl msg \<Rightarrow> answer (SettingsError ''network'' 400 msg)
   | Inr sn0 \<Rightarrow>
       (let sn = sn0\<lparr>sn_DHCPPoolSource := (if sn_DHCPStart sn0 \<noteq> [] then ''user'' else [])\<rparr> in
        bindA (attempt (CreateSubnet sn)) (\<lambda>x. case x of
          Inl e \<Rightarrow> ret (settingsWriteError ''network'' e subnetExistsMsg, on_subnet sn)
        | Inr _ \<Rightarrow> ret (Redirect ''/settings/network'', on_subnet sn))))"

definition handleSubnetUpdate :: "int option \<Rightarrow> request \<Rightarrow> 's handler" where
  "handleSubnetUpdate pid r = (case pid of
     None \<Rightarrow> answer notFound
   | Some i \<Rightarrow> bindA (attempt (GetSubnet i)) (\<lambda>x. case x of
       Inl e \<Rightarrow> answer (if e = ErrNoRows then notFound else serverError)
     | Inr old \<Rightarrow> (case parseSubnetForm r of
         Inl msg \<Rightarrow> answer (SettingsError ''network'' 400 msg)
       | Inr sn0 \<Rightarrow>
           (let sn = sn0\<lparr>sn_ID := i, sn_DHCPPoolSource := poolSource old sn0\<rparr> in
            bindA (attempt (UpdateSubnet sn)) (\<lambda>y. case y of
              Inl e \<Rightarrow> ret (settingsWriteError ''network'' e subnetExistsMsg, on_subnet sn)
            | Inr _ \<Rightarrow> ret (Redirect ''/settings/network'', on_subnet sn))))))"

definition handleSubnetDelete :: "int option \<Rightarrow> 's handler" where
  "handleSubnetDelete pid = (case pid of
     None \<Rightarrow> answer notFound
   | Some i \<Rightarrow> bindA (attempt (GetSubnet i)) (\<lambda>x.
       let n = (case x of Inl _ \<Rightarrow> no_note | Inr sn \<Rightarrow> on_subnet sn) in
       bindA (attempt (DeleteSubnet i)) (\<lambda>y. case y of
         Inl _ \<Rightarrow> ret (serverError, n)
       | Inr _ \<Rightarrow> ret (Redirect ''/settings/network'', n))))"

section \<open>Tags\<close>

definition isHTMX :: "request \<Rightarrow> bool" where
  "isHTMX r \<longleftrightarrow> rq_Header r ''HX-Request'' = ''true''"

definition tagColorMsg :: string where "tagColorMsg = ''choose a colour from the list''"
definition tagNameMsg :: string where "tagNameMsg = ''a tag name is 1 to 64 characters''"
definition tagRaceMsg :: string where "tagRaceMsg = ''a tag with that name was just created; try again''"

definition TagPalette :: "string list" where
  "TagPalette = [''slate'', ''indigo'', ''sky'', ''teal'', ''violet'', ''pink'', ''sand'']"

definition IsTagColor :: "string \<Rightarrow> bool" where
  "IsTagColor k \<longleftrightarrow> k \<in> set TagPalette"

definition tagFromPath :: "int option \<Rightarrow> (tag \<Rightarrow> auditRecord \<Rightarrow> 's handler) \<Rightarrow> 's handler" where
  "tagFromPath pid k = (case pid of
     None \<Rightarrow> answer notFound
   | Some i \<Rightarrow> orFail ListTags (\<lambda>ts. case find (\<lambda>g. tag_ID g = i) ts of
       None \<Rightarrow> answer notFound
     | Some g \<Rightarrow> k g (no_note\<lparr>nt_Target := ''tag '' @ tag_Name g\<rparr>)))"

definition tagWriteError :: "error \<Rightarrow> response" where
  "tagWriteError e = (if e = ErrNoRows then notFound else settingsWriteError ''tags'' e tagRaceMsg)"

definition tagsDone :: "string \<Rightarrow> response" where
  "tagsDone msg = Flash ''/settings/tags'' msg"

definition handleTagColor :: "int option \<Rightarrow> request \<Rightarrow> 's handler" where
  "handleTagColor pid r = tagFromPath pid (\<lambda>g n0.
     let color = rq_Form r ''color''; n = n0\<lparr>nt_Detail := (if color = [] then ''auto'' else color)\<rparr> in
     if color \<noteq> [] \<and> \<not> IsTagColor color
     then ret (if isHTMX r then Failure 400 tagColorMsg else SettingsError ''tags'' 400 tagColorMsg, n\<lparr>nt_Detail := tagColorMsg\<rparr>)
     else bindA (attempt (SetTagColor (tag_ID g) color)) (\<lambda>x. case x of
         Inl e \<Rightarrow> ret (tagWriteError e, n)
       | Inr _ \<Rightarrow> ret (if isHTMX r then Page ''tag colour saved'' else tagsDone ''Colour saved'', n)))"

text \<open>The question whether to merge: the other tag as it is spelled, both with their devices.\<close>

record tag_merge =
  tm_ID :: int
  tm_Into :: string
  tm_Devices :: nat
  tm_IntoDevices :: nat

definition merge_step :: "int \<Rightarrow> string \<Rightarrow> tag \<times> nat \<Rightarrow> tag_merge \<times> bool \<Rightarrow> tag_merge \<times> bool" where
  "merge_step i into tc acc = (case (tc, acc) of ((g, n), (m, exact)) \<Rightarrow>
     if tag_ID g = i then (m\<lparr>tm_Devices := n\<rparr>, exact)
     else if \<not> exact \<and> equal_fold (tag_Name g) into
     then (m\<lparr>tm_Into := tag_Name g, tm_IntoDevices := n\<rparr>, tag_Name g = into)
     else acc)"

definition merge_question :: "int \<Rightarrow> string \<Rightarrow> (tag \<times> nat) list \<Rightarrow> tag_merge" where
  "merge_question i into tcs =
     fst (fold (merge_step i into) tcs (\<lparr>tm_ID = i, tm_Into = into, tm_Devices = 0, tm_IntoDevices = 0\<rparr>, False))"

definition tagMergeConfirm :: "int \<Rightarrow> string \<Rightarrow> auditRecord \<Rightarrow> 's handler" where
  "tagMergeConfirm i into n = bindA (attempt ListTagsWithCounts) (\<lambda>x. case x of
     Inl _ \<Rightarrow> ret (serverError, n)
   | Inr tcs \<Rightarrow> ret (Page (''merge into '' @ tm_Into (merge_question i into tcs)), n))"

definition handleTagRename :: "int option \<Rightarrow> request \<Rightarrow> 's handler" where
  "handleTagRename pid r = tagFromPath pid (\<lambda>g n0.
     case ValidTagName (rq_Form r ''name'') of (name, ok) \<Rightarrow>
     if \<not> ok then ret (SettingsError ''tags'' 400 tagNameMsg, n0\<lparr>nt_Detail := tagNameMsg\<rparr>)
     else (let n = n0\<lparr>nt_Detail := tag_Name g @ '' -> '' @ name\<rparr> in
       bindA (attempt (RenameTag (tag_ID g) name (rq_Form r ''confirm'' = ''1''))) (\<lambda>x. case x of
         Inl e \<Rightarrow> if e = ErrTagExists
           then tagMergeConfirm (tag_ID g) name (n\<lparr>nt_Detail := nt_Detail n @ '' (merge not confirmed)''\<rparr>)
           else ret (tagWriteError e, n)
       | Inr merged \<Rightarrow>
           if merged \<noteq> 0
           then bindA (attempt ListTags) (\<lambda>y.
             let into = (case y of Inl _ \<Rightarrow> name
                        | Inr ts \<Rightarrow> fold (\<lambda>t acc. if tag_ID t = merged then tag_Name t else acc) ts name) in
             ret (tagsDone (''Merged into '' @ into), n\<lparr>nt_Detail := tag_Name g @ '' -> '' @ into @ '' (merged)''\<rparr>))
           else if name = tag_Name g then ret (tagsDone ''Nothing to change'', n)
           else ret (tagsDone (''Renamed to '' @ name), n))))"

definition handleTagDelete :: "int option \<Rightarrow> 's handler" where
  "handleTagDelete pid = tagFromPath pid (\<lambda>g n. bindA (attempt (DeleteTag (tag_ID g))) (\<lambda>x. case x of
     Inl e \<Rightarrow> ret (tagWriteError e, n) | Inr _ \<Rightarrow> ret (tagsDone ''Tag deleted'', n)))"

section \<open>Many devices at once\<close>

definition maxBulkDevices :: nat where "maxBulkDevices = 2000"

text \<open>The devices a form names: numbers, once each, that exist.\<close>

fun bulk_load :: "string list \<Rightarrow> int list \<Rightarrow> ('s db_scheme, device list) act" where
  "bulk_load [] seen = ret []"
| "bulk_load (raw # raws) seen = (case atoi raw of
     None \<Rightarrow> bulk_load raws seen
   | Some i \<Rightarrow>
       if i \<in> set seen then bulk_load raws seen
       else if maxBulkDevices < length (i # seen) then ret []
       else bindA (attempt (GetDevice i)) (\<lambda>x. case x of
           Inl e \<Rightarrow> if e = ErrNoRows then bulk_load raws (i # seen) else fail e
         | Inr d \<Rightarrow> bindA (bulk_load raws (i # seen)) (\<lambda>ds. ret (d # ds))))"

definition bulkDevices :: "string list \<Rightarrow> ('s db_scheme, device list) act" where
  "bulkDevices raws = bulk_load raws []"

definition bulkTarget :: "device list \<Rightarrow> string" where
  "bulkTarget ds = ''devices '' @ join '', '' (map dev_Name (take 5 ds) @
     (if 5 < length ds then [''and '' @ string_of_nat (length ds - 5) @ '' more''] else []))"

definition on_bulk :: "device list \<Rightarrow> auditRecord" where
  "on_bulk ds = no_note\<lparr>nt_Target := bulkTarget ds\<rparr>"

text \<open>\<open>views.ReturnURL\<close> of the form's return field is an argument.\<close>

definition handleDeviceBulkApprove :: "string \<Rightarrow> string list \<Rightarrow> 's handler" where
  "handleDeviceBulkApprove url ids = orFail (bulkDevices ids) (\<lambda>ds.
     bindA (attempt (forA ds (\<lambda>d. SetDeviceReviewed (dev_ID d) True))) (\<lambda>x. case x of
       Inl _ \<Rightarrow> ret (serverError, on_bulk ds) | Inr _ \<Rightarrow> ret (Redirect url, on_bulk ds)))"

definition parseTags :: "string \<Rightarrow> string list" where
  "parseTags s = filter (\<lambda>p. p \<noteq> []) (map trim_space (split_on CHR '','' s))"

definition handleDeviceBulkTag :: "string \<Rightarrow> string list \<Rightarrow> request \<Rightarrow> 's handler" where
  "handleDeviceBulkTag url ids r = orFail (bulkDevices ids) (\<lambda>ds.
     let tags = parseTags (rq_Form r ''tag''); n = (on_bulk ds)\<lparr>nt_Detail := ''tag '' @ join '', '' tags\<rparr> in
     if tags = [] then answer (Failure 400 ''enter the tag to add'')
     else if \<not> TagNamesFit tags then answer (Failure 400 tagNameMsg)
     else bindA (attempt (forA ds (\<lambda>d. AddDeviceTags (dev_ID d) tags))) (\<lambda>x. case x of
         Inl _ \<Rightarrow> ret (serverError, n) | Inr _ \<Rightarrow> ret (Redirect url, n)))"

definition handleDeviceBulkDelete :: "string \<Rightarrow> string list \<Rightarrow> request \<Rightarrow> 's handler" where
  "handleDeviceBulkDelete url ids r = orFail (bulkDevices ids) (\<lambda>ds.
     if ds = [] then answer (Redirect url)
     else if rq_Form r ''confirm'' \<noteq> ''1'' then answer (Page ''confirm deleting devices'')
     else bindA (attempt (forA ds (\<lambda>d. DeleteDevice (dev_ID d)))) (\<lambda>x. case x of
         Inl _ \<Rightarrow> ret (serverError, on_bulk ds) | Inr _ \<Rightarrow> ret (Redirect url, on_bulk ds)))"

section \<open>What the subnet form lets through\<close>

text \<open>No pool, or one of addresses of the subnet in order.\<close>

definition pool_in :: "cidr \<Rightarrow> subnet \<Rightarrow> bool" where
  "pool_in p sn \<longleftrightarrow> (sn_DHCPStart sn = [] \<and> sn_DHCPEnd sn = []) \<or>
     (\<exists>lo hi. sn_DHCPStart sn = addr_string lo \<and> sn_DHCPEnd sn = addr_string hi \<and>
        contains p lo \<and> contains p hi \<and> \<not> addr_less hi lo)"

definition subnet_form_ok :: "string \<Rightarrow> subnet \<Rightarrow> bool" where
  "subnet_form_ok c sn \<longleftrightarrow> (\<exists>p. parse_prefix (trim_space c) = Some p \<and> sn_CIDR sn = prefix_string (masked p) \<and>
     bit_len (pfx_addr p) - pfx_bits p \<le> 16 \<and> sn_Kind sn \<in> set subnet_kinds \<and> 30 \<le> sn_ScanIntervalSec sn \<and>
     pool_in (masked p) sn)"

lemma poolAddr_contains: "poolAddr p s = Some a \<Longrightarrow> contains p a"
  by (auto simp: poolAddr_def split: option.splits if_splits)

lemma parseDHCPPool_ok:
  assumes "parseDHCPPool p st en = Inr (a, b)"
  shows "(a = [] \<and> b = []) \<or> (\<exists>lo hi. a = addr_string lo \<and> b = addr_string hi \<and> contains p lo \<and> contains p hi \<and> \<not> addr_less hi lo)"
  using assms poolAddr_contains [of p "trim_space st"] poolAddr_contains [of p "trim_space en"]
  by (force simp: parseDHCPPool_def Let_def split: if_splits option.splits)

text \<open>
  A subnet the form lets through is the block that contains what was typed, in canonical form and
  of at most 65536 addresses, of a kind there is, scanned every 30 seconds at most, and its pool is
  empty or two of its addresses in order.
\<close>

theorem parseSubnetForm_ok:
  "case parseSubnetForm r of Inl _ \<Rightarrow> True | Inr sn \<Rightarrow> subnet_form_ok (rq_Form r ''cidr'') sn"
proof (cases "parseSubnetForm r")
  case (Inr sn)
  then obtain p st en where p: "parse_prefix (trim_space (rq_Form r ''cidr'')) = Some p"
      "bit_len (pfx_addr p) - pfx_bits p \<le> 16" "sn_CIDR sn = prefix_string (masked p)"
      "sn_Kind sn \<in> {''lan'', ''wireguard'', ''proxmox-bridge''}" "30 \<le> sn_ScanIntervalSec sn"
      "parseDHCPPool (masked p) (rq_Form r ''dhcp_start'') (rq_Form r ''dhcp_end'') = Inr (st, en)"
      "sn_DHCPStart sn = st" "sn_DHCPEnd sn = en"
    by (auto simp: parseSubnetForm_def CheckSubnetSize_def Let_def split: option.splits sum.splits if_splits error.splits)
  then have "subnet_form_ok (rq_Form r ''cidr'') sn"
    unfolding subnet_form_ok_def
    by (intro exI [of _ p]) (use parseDHCPPool_ok [OF p(6)] in \<open>auto simp: subnet_kinds_def pool_in_def\<close>)
  then show ?thesis using Inr by simp
qed simp

lemma form_knows_no_vlan: "parseSubnetForm r = Inr sn \<Longrightarrow> sn_VLANID sn = None"
  by (auto simp: parseSubnetForm_def Let_def split: option.splits sum.splits if_splits error.splits)

text \<open>
  The form knows nothing of a subnet's VLAN: saving it, even unchanged, forgets the VLAN id that
  the database has and the API shows.
\<close>

theorem subnet_edit_forgets_vlan:
  "case handleSubnetUpdate (Some i) r s of
     (Inr (Redirect _, n), s') \<Rightarrow> filter (\<lambda>sn. sn_ID sn = i \<and> sn_VLANID sn \<noteq> None) (t_subnet (tabs s')) = []
   | _ \<Rightarrow> True"
proof -
  let ?Q = "\<lambda>x (s' :: 'a web_scheme). case x of
       Inr (Redirect _, (n :: auditRecord)) \<Rightarrow> filter (\<lambda>sn. sn_ID sn = i \<and> sn_VLANID sn \<noteq> None) (t_subnet (tabs s')) = []
     | _ \<Rightarrow> True"
  have upd: "wp (UpdateSubnet sn) (\<lambda>x s'. case x of Inl _ \<Rightarrow> True
       | Inr _ \<Rightarrow> filter (\<lambda>sn. sn_ID sn = i \<and> sn_VLANID sn \<noteq> None) (t_subnet (tabs s')) = []) s1"
    if "sn_ID sn = i" "sn_VLANID sn = None" for sn and s1 :: "'a web_scheme"
    unfolding UpdateSubnet_def
    by (rule wp_stmt) (use that in \<open>auto simp: filter_empty_conv upd_where_def sn_ids_def image_iff split: if_splits\<close>)
  have "wp (handleSubnetUpdate (Some i) r) ?Q s"
    unfolding handleSubnetUpdate_def wp_simps answer_def option.case Let_def
    by (rule wp_triv)
      (auto simp: wp_simps notFound_def serverError_def settingsWriteError_def dest: form_knows_no_vlan
        intro!: wp_mono [OF upd] split: sum.splits option.splits)
  then show ?thesis by (simp add: wp_def split: prod.splits)
qed

section \<open>Renaming without a confirmation merges nothing\<close>

lemma ListTags_keeps: "keeps (\<lambda>s. J (tabs s)) ListTags" "keeps (\<lambda>s. J (tabs s)) ListTagsWithCounts"
  unfolding ListTags_def ListTagsWithCounts_def by (intro pres_intros)+

lemma rename_columns:
  assumes "\<And>t t'. J t \<Longrightarrow> rename_tag i name t = Inr ((), t') \<Longrightarrow> J t'"
  shows "keeps (\<lambda>s. J (tabs s)) (RenameTag i name False)"
  unfolding RenameTag_def not_False_eq_True if_True
  by (intro pres_intros keeps_stmt) (use assms in auto)

text \<open>The tags there are, and which devices have them.\<close>

definition tagging :: "tables \<Rightarrow> int list \<times> (int \<times> int) list" where
  "tagging t = (map tag_ID (t_tag t), t_device_tag t)"

lemma rename_tagging: "rename_tag i name t = Inr ((), t') \<Longrightarrow> tagging t' = tagging t"
  by (auto simp: rename_tag_def tagging_def upd_tag_def upd_where_def split: if_splits)

text \<open>
  Renaming a tag to a name that is taken merges the two only when the form confirms it: without
  the confirmation no tag disappears and no device gains or loses one, whatever the answer is.
\<close>

theorem rename_asks_first:
  "if rq_Form r ''confirm'' = ''1'' then True
   else tagging (tabs (snd (handleTagRename pid r s))) = tagging (tabs s)"
proof (cases "rq_Form r ''confirm'' = ''1''")
  case False
  have "keeps (\<lambda>s'. tagging (tabs s') = tagging (tabs s)) (RenameTag i name False)" for i name
    by (rule rename_columns [where J = "\<lambda>t. tagging t = tagging (tabs s)"]) (simp add: rename_tagging)
  then have "keeps (\<lambda>s'. tagging (tabs s') = tagging (tabs s)) (handleTagRename pid r)"
    unfolding handleTagRename_def tagFromPath_def orFail_def answer_def tagMergeConfirm_def ListTags_def ListTagsWithCounts_def
    using False by (auto intro!: pres_intros keeps_query [where J = "\<lambda>t. tagging t = tagging (tabs s)"])
  from keepsD [OF this, of s] False show ?thesis by simp
qed simp

section \<open>Deleting many devices\<close>

text \<open>The devices, by id.\<close>

lemma DeleteDevice_ids:
  "keeps (\<lambda>s. X \<subseteq> set (dev_ids (tabs s))) (DeleteDevice i)" if "i \<notin> X"
  unfolding DeleteDevice_def
  by (intro pres_intros keeps_exec) (use that in \<open>auto simp: del_device_def cascade_device_def Let_def dev_ids_def del_where_def\<close>)

lemma keeps_forA_set: "(\<And>x. x \<in> set xs \<Longrightarrow> keeps I (f x)) \<Longrightarrow> keeps I (forA xs f)"
  by (induction xs) (auto intro: pres_intros)

lemma bulk_load_named:
  "wp (bulk_load raws seen) (\<lambda>x s'. tabs s' = tabs s \<and>
     (case x of Inl _ \<Rightarrow> True | Inr ds \<Rightarrow> dev_ID ` set ds \<subseteq> {i. Some i \<in> atoi ` set raws})) s"
proof (induction raws arbitrary: seen s)
  case (Cons raw raws)
  have get: "wp (GetDevice i) (\<lambda>x s'. tabs s' = tabs s \<and> (case x of Inl _ \<Rightarrow> True | Inr d \<Rightarrow> dev_ID d = i)) s" for i
    unfolding GetDevice_def
    by (rule wp_query_row) (auto simp: find_device_def scanDevice_def device.defs dest!: find_SomeD)
  have more: "wp (bulk_load raws seen) (\<lambda>x s'. tabs s' = tabs s \<and>
     (case x of Inl _ \<Rightarrow> True | Inr ds \<Rightarrow> dev_ID ` set ds \<subseteq> {i. Some i \<in> insert (atoi raw) (atoi ` set raws)})) s1"
    if "tabs s1 = tabs s" for seen and s1 :: "'a db_scheme"
    by (rule wp_mono [OF Cons.IH]) (use that in \<open>auto split: sum.splits\<close>)
  show ?case
    by (cases "atoi raw")
      (auto simp: wp_simps more image_subset_iff intro!: wp_mono [OF get] wp_mono [OF more] split: sum.splits)
qed (simp add: wp_simps)

text \<open>
  Deleting many devices at once deletes none but those the form named, and none at all until it
  is confirmed, whatever statement fails on the way.
\<close>

theorem bulk_delete_only_named:
  "set (dev_ids (tabs s)) - (if rq_Form r ''confirm'' = ''1'' then {i. Some i \<in> atoi ` set raws} else {})
     \<subseteq> set (dev_ids (tabs (snd (handleDeviceBulkDelete url raws r s))))"
proof -
  let ?X = "set (dev_ids (tabs s)) - (if rq_Form r ''confirm'' = ''1'' then {i. Some i \<in> atoi ` set raws} else {})"
  have del: "keeps (\<lambda>s. ?X \<subseteq> set (dev_ids (tabs s))) (forA ds (\<lambda>d. DeleteDevice (dev_ID d)))"
    if "rq_Form r ''confirm'' = ''1''" "dev_ID ` set ds \<subseteq> {i. Some i \<in> atoi ` set raws}" for ds :: "device list"
    by (rule keeps_forA_set, rule DeleteDevice_ids) (use that in auto)
  have run: "wp (forA ds (\<lambda>d. DeleteDevice (dev_ID d))) (\<lambda>x s'. ?X \<subseteq> set (dev_ids (tabs s'))) s1"
    if "rq_Form r ''confirm'' = ''1''" "dev_ID ` set ds \<subseteq> {i. Some i \<in> atoi ` set raws}" "tabs s1 = tabs s"
    for ds :: "device list" and s1 :: "'a web_scheme"
    using keepsD [OF del [OF that(1,2)], of s1] that(3) by (auto simp: wp_def split: prod.splits)
  have "wp (handleDeviceBulkDelete url raws r) (\<lambda>x s'. ?X \<subseteq> set (dev_ids (tabs s'))) s"
    unfolding handleDeviceBulkDelete_def orFail_def answer_def bulkDevices_def wp_simps
    by (rule wp_mono [OF bulk_load_named])
      (auto simp: wp_simps split: sum.splits intro!: wp_mono [OF run])
  then show ?thesis unfolding wp_def by (cases "handleDeviceBulkDelete url raws r s") (simp only: prod.case snd_conv)
qed

end
