(* ===== verification/Wol.thy ===== *)
theory Wol
  imports Lease_Pools
begin

unbundle bit_operations_syntax

text \<open>
  internal/wol and the MAC parsing of internal/web/devices.go: hardware addresses as bytes, the magic
  packet of Wake-on-LAN and the addresses it goes to.
\<close>

section \<open>Hardware addresses\<close>

text \<open>\<open>net.ParseMAC\<close>: bytes separated by colons or dashes, or two at a time by dots.\<close>

definition hex_byte :: "char \<Rightarrow> char \<Rightarrow> nat option" where
  "hex_byte a b = (case (hex_val a, hex_val b) of (Some x, Some y) \<Rightarrow> Some (16 * x + y) | _ \<Rightarrow> None)"

fun mac_pairs :: "char \<Rightarrow> string \<Rightarrow> nat list option" where
  "mac_pairs sep [a, b] = map_option (\<lambda>x. [x]) (hex_byte a b)"
| "mac_pairs sep (a # b # c # s) = (case hex_byte a b of None \<Rightarrow> None
     | Some x \<Rightarrow> if c = sep then map_option ((#) x) (mac_pairs sep s) else None)"
| "mac_pairs sep s = None"

fun mac_quads :: "string \<Rightarrow> nat list option" where
  "mac_quads [a, b, c, d] = (case (hex_byte a b, hex_byte c d) of (Some x, Some y) \<Rightarrow> Some [x, y] | _ \<Rightarrow> None)"
| "mac_quads (a # b # c # d # e # s) = (case (hex_byte a b, hex_byte c d) of
     (Some x, Some y) \<Rightarrow> if e = CHR ''.'' then map_option (\<lambda>xs. x # y # xs) (mac_quads s) else None
   | _ \<Rightarrow> None)"
| "mac_quads s = None"

definition parse_mac :: "string \<Rightarrow> nat list option" where
  "parse_mac s =
     (if length s < 14 then None
      else (case (if s ! 2 = CHR '':'' \<or> s ! 2 = CHR ''-'' then mac_pairs (s ! 2) s
                  else if s ! 4 = CHR ''.'' then mac_quads s else None) of
        None \<Rightarrow> None
      | Some hw \<Rightarrow> if length hw \<in> {6, 8, 20} then Some hw else None))"

text \<open>\<open>HardwareAddr.String\<close>.\<close>

definition hex2 :: "nat \<Rightarrow> string" where
  "hex2 b = [hex_digit (b div 16), hex_digit (b mod 16)]"

definition mac_string :: "nat list \<Rightarrow> string" where
  "mac_string hw = join '':'' (map hex2 hw)"

definition normMAC :: "string \<Rightarrow> string option" where
  "normMAC s = (case parse_mac (trim_space s) of None \<Rightarrow> None
     | Some hw \<Rightarrow> if length hw \<noteq> 6 then None else Some (mac_string hw))"

section \<open>The magic packet\<close>

definition BuildMagicPacket :: "string \<Rightarrow> error + nat list" where
  "BuildMagicPacket mac = (case parse_mac mac of
     Some hw \<Rightarrow> if length hw = 6 then Inr (replicate 6 0xFF @ concat (replicate 16 hw)) else Inl (ErrMsg (''bad mac '' @ mac))
   | None \<Rightarrow> Inl (ErrMsg (''bad mac '' @ mac)))"

section \<open>Where it goes\<close>

definition BroadcastAddr :: string where "BroadcastAddr = ''255.255.255.255:9''"

definition DirectedBroadcast :: "cidr \<Rightarrow> addr option" where
  "DirectedBroadcast p = (if \<not> valid_prefix p \<or> \<not> is4 (pfx_addr p) \<or> 30 < pfx_bits p then None
     else (case pfx_addr (masked p) of
         V4 a \<Rightarrow> Some (V4 (a OR (push_bit (32 - pfx_bits p) 1 - 1)))
       | V6 _ _ \<Rightarrow> None))"

text \<open>\<open>net.JoinHostPort(b.String(), "9")\<close>, of an IPv4 address.\<close>

definition discard_port :: "addr \<Rightarrow> string" where
  "discard_port a = addr_string a @ '':9''"

fun broadcasts :: "cidr list \<Rightarrow> addr list \<Rightarrow> string list" where
  "broadcasts [] seen = []"
| "broadcasts (p # ps) seen = (case DirectedBroadcast p of
     None \<Rightarrow> broadcasts ps seen
   | Some b \<Rightarrow> if b \<in> set seen then broadcasts ps seen else discard_port b # broadcasts ps (b # seen))"

definition Targets :: "cidr list \<Rightarrow> string list" where
  "Targets ps = broadcasts ps [] @ [BroadcastAddr]"

text \<open>\<open>send\<close> is what sending to an address answers. Every address is tried.\<close>

definition SendAll :: "string \<Rightarrow> string list \<Rightarrow> (string \<Rightarrow> error option) \<Rightarrow> error + string list" where
  "SendAll mac addrs send = (case BuildMagicPacket mac of
     Inl e \<Rightarrow> Inl e
   | Inr _ \<Rightarrow> (let sent = filter (\<lambda>a. send a = None) addrs in
       if sent = [] then Inl (ErrMsg ''magic packet not sent'') else Inr sent))"

section \<open>A hardware address has one spelling\<close>

lemma hex_digits_read:
  "list_all (\<lambda>d. hex_val (hex_digit d) = Some d \<and> lower_hex (hex_digit d)) [0..<16]"
  by code_simp

lemma hex_val_digit: "d < 16 \<Longrightarrow> hex_val (hex_digit d) = Some d"
  using hex_digits_read by (simp add: list_all_iff)

lemma lower_hex_digit: "d < 16 \<Longrightarrow> lower_hex (hex_digit d)"
  using hex_digits_read by (simp add: list_all_iff)

lemma hex_byte_hex2: "b < 256 \<Longrightarrow> hex_byte (hex_digit (b div 16)) (hex_digit (b mod 16)) = Some b"
  by (simp add: hex_byte_def hex_val_digit)

lemma hex_val_less: "hex_val c = Some x \<Longrightarrow> x < 16"
  by (auto simp: hex_val_def is_digit_def less_eq_char_def split: if_splits)

lemma hex_byte_less: "hex_byte a b = Some x \<Longrightarrow> x < 256"
  by (auto simp: hex_byte_def dest!: hex_val_less split: option.splits)

lemma mac_pairs_less: "mac_pairs sep s = Some hw \<Longrightarrow> \<forall>b \<in> set hw. b < 256"
  by (induction sep s arbitrary: hw rule: mac_pairs.induct)
     (auto dest: hex_byte_less split: option.splits if_splits)

lemma mac_quads_less: "mac_quads s = Some hw \<Longrightarrow> \<forall>b \<in> set hw. b < 256"
  by (induction s arbitrary: hw rule: mac_quads.induct)
     (auto dest: hex_byte_less split: option.splits if_splits)

lemma parse_mac_less: "parse_mac s = Some hw \<Longrightarrow> \<forall>b \<in> set hw. b < 256"
  by (auto simp: parse_mac_def dest: mac_pairs_less mac_quads_less split: option.splits if_splits)

lemma pairs_of_hex2:
  "hw \<noteq> [] \<Longrightarrow> \<forall>b \<in> set hw. b < 256 \<Longrightarrow> mac_pairs CHR '':'' (join '':'' (map hex2 hw)) = Some hw"
proof (induction hw)
  case (Cons b hw)
  then show ?case
    by (cases hw) (auto simp: hex2_def hex_byte_hex2 mac_pairs.simps)
qed simp

lemma six_bytes:
  assumes "length hw = 6"
  obtains a b c d e f where "hw = [a, b, c, d, e, f]"
  using assms by (auto simp: eval_nat_numeral length_Suc_conv)

lemma mac_string_parse:
  assumes "length hw = 6" and "\<forall>b \<in> set hw. b < 256"
  shows "parse_mac (mac_string hw) = Some hw"
proof -
  have "hw \<noteq> []" using assms(1) by (cases hw) simp_all
  then have p: "mac_pairs CHR '':'' (mac_string hw) = Some hw"
    unfolding mac_string_def by (rule pairs_of_hex2 [OF _ assms(2)])
  have "length (mac_string hw) = 17" "mac_string hw ! 2 = CHR '':''"
    by (rule six_bytes [OF assms(1)], simp add: mac_string_def hex2_def)+
  then show ?thesis using p assms(1) by (simp add: parse_mac_def)
qed

lemma mac_string_form:
  assumes "length hw = 6" and "\<forall>b \<in> set hw. b < 256"
  shows "mac_re (mac_string hw)"
  by (rule six_bytes [OF assms(1)])
    (use assms(2) in \<open>auto simp: mac_string_def hex2_def mac_re_def list_all_iff lower_hex_digit upt_rec [of 0] upt_rec\<close>)

section \<open>A stored hardware address is in normal form\<close>

lemma lower_hex_no_space: "lower_hex c \<Longrightarrow> c \<noteq> CHR '' '' \<and> \<not> is_space c"
  by (auto simp: lower_hex_def is_digit_def is_space_def less_eq_char_def)

lemma mac_string_trim:
  assumes "length hw = 6" and "\<forall>b \<in> set hw. b < 256"
  shows "trim_space (mac_string hw) = mac_string hw"
proof -
  obtain a b c d e f where hw: "hw = [a, b, c, d, e, f]" by (rule six_bytes [OF assms(1)])
  have "\<not> is_space (hex_digit (a div 16))" "\<not> is_space (hex_digit (f mod 16))"
    using assms(2) by (auto simp: hw lower_hex_digit lower_hex_no_space)
  then show ?thesis by (simp add: hw mac_string_def hex2_def trim_space_def trim_left_def trim_right_def)
qed

text \<open>
  A hardware address a form or the API takes is stored in the one spelling the MAC pattern of the
  database allows: whatever the separators and the case it was typed with, the result has the form, and
  normalising it again changes nothing.
\<close>

theorem normMAC_canonical:
  "case normMAC s of None \<Rightarrow> True | Some m \<Rightarrow> mac_re m \<and> normMAC m = Some m"
proof (cases "parse_mac (trim_space s)")
  case None
  then show ?thesis by (simp add: normMAC_def)
next
  case (Some hw)
  show ?thesis
  proof (cases "length hw = 6")
    case True
    with Some have "\<forall>b \<in> set hw. b < 256" by (simp add: parse_mac_less)
    with True show ?thesis
      by (simp add: normMAC_def Some mac_string_form mac_string_parse mac_string_trim)
  qed (simp add: normMAC_def Some)
qed

section \<open>What is sent, and where\<close>

theorem magic_packet_shape:
  "case BuildMagicPacket m of Inl _ \<Rightarrow> parse_mac m = None \<or> length (the (parse_mac m)) \<noteq> 6
   | Inr p \<Rightarrow> length p = 102 \<and> (\<forall>i < 6. p ! i = 255)
       \<and> (\<forall>k < 16. take 6 (drop (6 + 6 * k) p) = the (parse_mac m))"
proof (cases "parse_mac m")
  case (Some hw)
  show ?thesis
  proof (cases "length hw = 6")
    case True
    then obtain a b c d e f where "hw = [a, b, c, d, e, f]" by (rule six_bytes)
    then show ?thesis
      by (simp add: BuildMagicPacket_def Some numeral_eq_Suc All_less_Suc)
  qed (simp add: BuildMagicPacket_def Some)
qed (simp add: BuildMagicPacket_def)

text \<open>
  The address a subnet's packet goes to is the last address of the subnet, as the pools of
  internal/leases compute it byte by byte, for every IPv4 prefix with a broadcast address.
\<close>

theorem DirectedBroadcast_is_last:
  "DirectedBroadcast p = (if valid_prefix p \<and> is4 (pfx_addr p) \<and> pfx_bits p \<le> 30 then Some (lastAddr (masked p)) else None)"
  by (cases "pfx_addr p")
    (auto simp: DirectedBroadcast_def lastAddr_bits masked_def Let_def mask_eq_exp_minus_1 push_bit_eq_mult)

end
