(* ===== verification/Web_Devices.thy ===== *)
theory Web_Devices
  imports Web_Settings Wol Autofill_Service
begin

text \<open>
  internal/web/devices.go, devices_form.go, apiwrite.go, devices_page.go and devices_extras.go: a
  device is created, changed and deleted, by the form and by the API.
\<close>

section \<open>What a new device must be\<close>

definition validKinds :: "string list" where
  "validKinds = [''computer'', ''switch'', ''phone'', ''server'', ''printer'', ''iot'', ''vm'', ''lxc'',
     ''wg-peer'', ''router'', ''modem'', ''other'']"

text \<open>The value of \<open>strconv.ParseInt\<close> when its error is dropped: zero, or the bound that was passed.\<close>

definition int_value :: "string \<Rightarrow> int" where
  "int_value s = (case atoi s of Some n \<Rightarrow> n
     | None \<Rightarrow> (let neg = prefix ''-'' s; ds = (if neg \<or> prefix ''+'' s then tl s else s) in
         if parse_nat ds = None then 0 else if neg then - (2 ^ 63) else 2 ^ 63 - 1))"

definition narrower :: "addr \<Rightarrow> subnet \<Rightarrow> int \<times> int \<Rightarrow> int \<times> int" where
  "narrower a sn sofar = (case parse_prefix (sn_CIDR sn) of
     None \<Rightarrow> sofar
   | Some p \<Rightarrow> if contains p a \<and> snd sofar < int (pfx_bits p) then (sn_ID sn, int (pfx_bits p)) else sofar)"

definition subnetFor :: "subnet list \<Rightarrow> string \<Rightarrow> int" where
  "subnetFor subnets ip = (case parse_addr (trim_space ip) of
     None \<Rightarrow> 0 | Some a \<Rightarrow> fst (fold (narrower a) subnets (0, - 1)))"

definition subnetContaining :: "string \<Rightarrow> ('s db_scheme, int) act" where
  "subnetContaining ip = (case parse_addr (trim_space ip) of
     None \<Rightarrow> ret 0
   | Some a \<Rightarrow> bindA ListSubnets (\<lambda>subnets. ret (fst (fold (narrower a) subnets (0, - 1)))))"

definition macTakenMsg :: string where "macTakenMsg = ''that MAC address already belongs to another device''"
definition parentMissingMsg :: string where "parentMissingMsg = ''parent device does not exist''"
definition chooseSubnetMsg :: string where "chooseSubnetMsg = ''choose the subnet the IP belongs to''"
definition deviceConflictMsg :: string where "deviceConflictMsg = ''device conflicts with an existing one''"

record newDevice =
  nd_dev :: device
  nd_mac :: "string option"
  nd_subnetID :: int
  nd_ip :: string

text \<open>The device to create, or what is wrong with the request.\<close>

definition checkNewDevice :: "device \<Rightarrow> string \<Rightarrow> string \<Rightarrow> int \<Rightarrow> ('s db_scheme, string + newDevice) act" where
  "checkNewDevice dev0 mac ip0 subnetID =
     (let dev = dev0\<lparr>dev_Name := trim_space (dev_Name dev0)\<rparr>; raw = trim_space mac; ip = trim_space ip0;
          nd = \<lparr>nd_dev = dev, nd_mac = (if raw = [] then None else normMAC raw), nd_subnetID = 0, nd_ip = []\<rparr> in
      if dev_Kind dev \<notin> set validKinds then ret (Inl ''bad kind'')
      else if dev_Name dev = [] then ret (Inl ''name required'')
      else if raw \<noteq> [] \<and> normMAC raw = None then ret (Inl ''invalid MAC address'')
      else if ip = [] then ret (Inr nd)
      else (case parse_addr ip of
          None \<Rightarrow> ret (Inl ''invalid IP address'')
        | Some a \<Rightarrow>
            if subnetID = 0 then ret (Inl chooseSubnetMsg)
            else bindA (attempt (GetSubnet subnetID)) (\<lambda>x. case x of
                Inl e \<Rightarrow> if e = ErrNoRows then ret (Inl ''unknown subnet'') else fail e
              | Inr sn \<Rightarrow> (case parse_prefix (sn_CIDR sn) of
                    None \<Rightarrow> fail (ErrMsg ''netip.ParsePrefix'')
                  | Some p \<Rightarrow>
                      if \<not> contains p a
                      then ret (Inl (''IP '' @ addr_string a @ '' is not in subnet '' @ sn_CIDR sn))
                      else ret (Inr (nd\<lparr>nd_subnetID := sn_ID sn, nd_ip := addr_string a\<rparr>))))))"

section \<open>The device form\<close>

definition suggestFields :: "string list" where
  "suggestFields = [''vendor'', ''model'', ''function'']"

text \<open>
  \<open>deviceFormSuggest\<close>. The maps of the form are association lists; the fields of \<open>Detected\<close> stand
  in one order of those the range over the map may take.
\<close>

definition with_hints :: "hint list \<Rightarrow> string \<Rightarrow> string list \<Rightarrow> string list" where
  "with_hints hints f vals0 = sort (fold (\<lambda>h vals.
     if hi_Field h = f \<and> hi_Value h \<noteq> [] \<and> hi_Value h \<notin> set vals then vals @ [hi_Value h] else vals) hints vals0)"

definition detected :: "device \<Rightarrow> (string \<rightharpoonup> candidate) \<Rightarrow> (string \<times> string) list" where
  "detected d flds = concat (map (\<lambda>(f, cur). case flds f of
       Some c \<Rightarrow> if ca_Value c \<noteq> cur then [(f, ca_Value c)] else []
     | None \<Rightarrow> [])
     [(''vendor'', dev_Vendor d), (''model'', dev_Model d), (''function'', dev_Function d), (''kind'', dev_Kind d)])"

definition deviceFormSuggest :: "device_form \<Rightarrow> ('s db_scheme, device_form) act" where
  "deviceFormSuggest f =
     bindA (foldA (\<lambda>field out. bindA (DistinctDeviceValues field) (\<lambda>vals. ret (out @ [(field, vals)]))) suggestFields [])
     (\<lambda>known. let f = f\<lparr>fm_Suggest := known\<rparr> in
       if \<not> fm_IsEdit f \<or> dev_ID (fm_Device f) = 0 then ret f
       else bindA (ListHints (dev_ID (fm_Device f))) (\<lambda>hints.
         case Resolve hints of (flds, tags) \<Rightarrow>
         ret (f\<lparr>fm_Suggest := map (\<lambda>(field, vals). (field, with_hints hints field vals)) known,
                fm_Detected := detected (fm_Device f) flds,
                fm_DetectedTags := fm_DetectedTags f @ map ca_Value
                  (filter (\<lambda>c. \<not> list_ex (\<lambda>t. equal_fold (tag_Name t) (ca_Value c)) (fm_Tags f)) tags)\<rparr>)))"

definition deviceFormLists :: "device_form \<Rightarrow> ('s db_scheme, device_form) act" where
  "deviceFormLists f = bindA ListSubnets (\<lambda>subnets. bindA ListDevices (\<lambda>devs. bindA ListTags (\<lambda>tags.
     deviceFormSuggest (f\<lparr>fm_Subnets := subnets, fm_AllDevices := devs, fm_AllTags := tags\<rparr>))))"

definition renderDeviceForm :: "nat \<Rightarrow> device_form \<Rightarrow> auditRecord \<Rightarrow> 's handler" where
  "renderDeviceForm status f n = bindA (attempt (deviceFormLists f)) (\<lambda>x. case x of
     Inl _ \<Rightarrow> ret (serverError, n)
   | Inr f \<Rightarrow> ret (DeviceForm status
       (if fm_SubnetID f = 0 then f\<lparr>fm_SubnetID := subnetFor (fm_Subnets f) (fm_IP f)\<rparr> else f), n))"

definition no_device :: device where
  "no_device = \<lparr>dev_ID = 0, dev_Name = [], dev_Kind = [], dev_Notes = [], dev_Vendor = [], dev_Source = [],
     dev_ParentDeviceID = None, dev_ProxmoxVMID = None, dev_WGPubKey = None, dev_Icon = [], dev_Reviewed = False,
     dev_Model = [], dev_Function = [], dev_UpstreamMissingSince = None\<rparr>"

definition blank_form :: device_form where
  "blank_form = \<lparr>fm_Device = no_device, fm_Tags = [], fm_IsEdit = False, fm_MAC = [], fm_IP = [], fm_SubnetID = 0,
     fm_Error = [], fm_Prefilled = False, fm_Subnets = [], fm_AllDevices = [], fm_AllTags = [], fm_Suggest = [],
     fm_Detected = [], fm_DetectedTags = []\<rparr>"

definition submittedDeviceForm :: "request \<Rightarrow> device \<Rightarrow> bool \<Rightarrow> device_form" where
  "submittedDeviceForm r d isEdit = blank_form\<lparr>fm_Device := d, fm_IsEdit := isEdit,
     fm_MAC := rq_Form r ''mac'', fm_IP := rq_Form r ''ip'', fm_SubnetID := int_value (rq_Form r ''subnet_id''),
     fm_Tags := map (\<lambda>name. \<lparr>tag_ID = 0, tag_Name = name, tag_Color = []\<rparr>) (parseTags (rq_Form r ''tags''))\<rparr>"

text \<open>The query of the address is an argument, a parameter that is not there being empty.\<close>

definition handleDeviceForm :: "(string \<Rightarrow> string) \<Rightarrow> 's handler" where
  "handleDeviceForm qry = renderDeviceForm 200
     (blank_form\<lparr>fm_Device := no_device\<lparr>dev_Kind := ''computer''\<rparr>, fm_IP := qry ''ip'',
        fm_SubnetID := (if qry ''subnet'' = [] then 0 else int_value (qry ''subnet'')),
        fm_Prefilled := qry ''ip'' \<noteq> []\<rparr>) no_note"

text \<open>\<open>GetDevice\<close> of the id in the path, for a page.\<close>

definition devicePage :: "string \<Rightarrow> (device \<Rightarrow> 's handler) \<Rightarrow> 's handler" where
  "devicePage pid k = (case atoi pid of
     None \<Rightarrow> answer notFound
   | Some i \<Rightarrow> bindA (attempt (GetDevice i)) (\<lambda>x. case x of
       Inl e \<Rightarrow> answer (if e = ErrNoRows then notFound else serverError)
     | Inr d \<Rightarrow> k d))"

definition handleDeviceEditForm :: "string \<Rightarrow> 's handler" where
  "handleDeviceEditForm pid = devicePage pid (\<lambda>d. orFail (DeviceTags (dev_ID d)) (\<lambda>tags.
     renderDeviceForm 200 (blank_form\<lparr>fm_Device := d, fm_Tags := tags, fm_IsEdit := True\<rparr>) no_note))"

definition redirectAfterForm :: "request \<Rightarrow> string \<Rightarrow> string \<Rightarrow> response" where
  "redirectAfterForm r url msg = (if isHTMX r then Navigate url msg else Flash url msg)"

definition device_url :: "int \<Rightarrow> string" where
  "device_url i = ''/devices/'' @ string_of_int i"

definition on_device_named :: "string \<Rightarrow> auditRecord" where
  "on_device_named name = no_note\<lparr>nt_Target := ''device '' @ name\<rparr>"

definition deviceTarget :: "device \<Rightarrow> string" where
  "deviceTarget d = ''device '' @ dev_Name d @ '' (#'' @ string_of_int (dev_ID d) @ '')''"

definition on_device :: "device \<Rightarrow> auditRecord" where
  "on_device d = no_note\<lparr>nt_Target := deviceTarget d\<rparr>"

text \<open>Waking the autofill service, which \<open>kickAutofill\<close> does, changes nothing here.\<close>

definition formDevice :: "request \<Rightarrow> device" where
  "formDevice r = no_device\<lparr>dev_Name := rq_Form r ''name'', dev_Kind := rq_Form r ''kind'', dev_Notes := rq_Form r ''notes'',
     dev_Icon := rq_Form r ''icon'', dev_Source := ''manual'', dev_Vendor := rq_Form r ''vendor'',
     dev_Model := rq_Form r ''model'', dev_Function := rq_Form r ''function'',
     dev_ParentDeviceID := (if rq_Form r ''parent_device_id'' = [] then None else atoi (rq_Form r ''parent_device_id''))\<rparr>"

definition handleDeviceCreate :: "request \<Rightarrow> 's handler" where
  "handleDeviceCreate r = (let dev = formDevice r; n = on_device_named (dev_Name dev); tags = parseTags (rq_Form r ''tags'');
       refuse = (\<lambda>status msg. renderDeviceForm status ((submittedDeviceForm r dev False)\<lparr>fm_Error := msg\<rparr>) n) in
     if \<not> TagNamesFit tags then refuse 400 tagNameMsg
     else bindA (attempt (checkNewDevice dev (rq_Form r ''mac'') (rq_Form r ''ip'') (int_value (rq_Form r ''subnet_id'')))) (\<lambda>x.
       case x of
         Inl _ \<Rightarrow> ret (serverError, n)
       | Inr (Inl msg) \<Rightarrow> refuse 400 msg
       | Inr (Inr nd) \<Rightarrow>
           bindA (attempt (CreateDeviceWithIface (nd_dev nd) (nd_mac nd) (nd_subnetID nd) (nd_ip nd) ''static'')) (\<lambda>y. case y of
             Inl e \<Rightarrow> (case writeFailure e macTakenMsg parentMissingMsg of
                 Some (status, msg) \<Rightarrow> refuse status msg | None \<Rightarrow> ret (serverError, n))
           | Inr i \<Rightarrow> bindA (attempt (SetDeviceTags i tags)) (\<lambda>z. case z of
                 Inl _ \<Rightarrow> ret (serverError, n)
               | Inr _ \<Rightarrow> ret (redirectAfterForm r (device_url i) ''Device created'', n)))))"

text \<open>The device with what the form says of it: a kind or a name it may not have is passed over.\<close>

definition edited :: "request \<Rightarrow> device \<Rightarrow> device" where
  "edited r d = d\<lparr>
     dev_Kind := (if rq_Form r ''kind'' \<in> set validKinds then rq_Form r ''kind'' else dev_Kind d),
     dev_Name := (let name = trim_space (rq_Form r ''name'') in if name \<noteq> [] then name else dev_Name d),
     dev_Notes := rq_Form r ''notes'', dev_Icon := rq_Form r ''icon'', dev_Vendor := rq_Form r ''vendor'',
     dev_Model := rq_Form r ''model'', dev_Function := rq_Form r ''function'',
     dev_ParentDeviceID := (if rq_Form r ''parent_device_id'' = [] then None
       else case atoi (rq_Form r ''parent_device_id'') of
         Some p \<Rightarrow> if p \<noteq> dev_ID d then Some p else dev_ParentDeviceID d
       | None \<Rightarrow> dev_ParentDeviceID d)\<rparr>"

definition handleDeviceUpdate :: "string \<Rightarrow> request \<Rightarrow> 's handler" where
  "handleDeviceUpdate pid r = devicePage pid (\<lambda>d0. let n = on_device d0; d = edited r d0; tags = parseTags (rq_Form r ''tags'');
       refuse = (\<lambda>status msg. renderDeviceForm status ((submittedDeviceForm r d True)\<lparr>fm_Error := msg\<rparr>) n) in
     if \<not> TagNamesFit tags then refuse 400 tagNameMsg
     else bindA (attempt (UpdateDevice d)) (\<lambda>x. case x of
         Inl e \<Rightarrow> (case writeFailure e deviceConflictMsg parentMissingMsg of
             Some (status, msg) \<Rightarrow> refuse status msg | None \<Rightarrow> ret (serverError, n))
       | Inr _ \<Rightarrow> bindA (attempt (SetDeviceTags (dev_ID d) tags)) (\<lambda>y. case y of
             Inl _ \<Rightarrow> ret (serverError, n)
           | Inr _ \<Rightarrow> ret (redirectAfterForm r (''/devices/'' @ pid) ''Changes saved'', n))))"

section \<open>The API\<close>

text \<open>\<open>apiDeviceCreate\<close>, the body of POST /api/devices.\<close>

record apiDeviceCreate =
  in_Name :: string
  in_Kind :: string
  in_Notes :: string
  in_Vendor :: string
  in_Model :: string
  in_Function :: string
  in_Icon :: string
  in_ParentID :: "int option"
  in_Tags :: "string list"
  in_MAC :: string
  in_IP :: string
  in_SubnetID :: int

text \<open>
  What encoding/json makes of a body into the type the handler gives it, unknown fields refused; and a
  JSON value kept raw.
\<close>

datatype 'a decoded = Decoded 'a | TooBig | Malformed string

datatype json = JNull | JStr string | JInt int | JArr "json list" | JOther

text \<open>\<open>media\<close> is the media type of the request, as \<open>mime.ParseMediaType\<close> gives it.\<close>

definition decodeJSONBody :: "string \<Rightarrow> 'a decoded \<Rightarrow> nat \<times> string + 'a" where
  "decodeJSONBody media body = (if media \<noteq> ''application/json'' then Inl (415, ''send the body as application/json'')
     else (case body of
         Decoded x \<Rightarrow> Inr x
       | TooBig \<Rightarrow> Inl (413, ''request body too large'')
       | Malformed e \<Rightarrow> Inl (400, ''malformed JSON: '' @ e)))"

definition apiDeviceByID :: "int \<Rightarrow> ('s db_scheme, device_view option) act" where
  "apiDeviceByID i = bindA ListDevices (\<lambda>rows. ret (List.find (\<lambda>r. dev_ID r = i) rows))"

definition writeDevice :: "int \<Rightarrow> nat \<Rightarrow> auditRecord \<Rightarrow> 's handler" where
  "writeDevice i status n = bindA (attempt (apiDeviceByID i)) (\<lambda>x. case x of
     Inl _ \<Rightarrow> ret (serverError, n)
   | Inr None \<Rightarrow> ret (ApiError 404 ''device not found'', n)
   | Inr (Some _) \<Rightarrow> ret (ApiDevice status i, n))"

definition apiDevice :: "apiDeviceCreate \<Rightarrow> device" where
  "apiDevice b = no_device\<lparr>dev_Name := in_Name b, dev_Kind := in_Kind b, dev_Notes := in_Notes b, dev_Icon := in_Icon b,
     dev_Source := ''manual'', dev_Vendor := in_Vendor b, dev_Model := in_Model b, dev_Function := in_Function b,
     dev_ParentDeviceID := in_ParentID b\<rparr>"

definition handleAPIDeviceCreate :: "string \<Rightarrow> apiDeviceCreate decoded \<Rightarrow> 's handler" where
  "handleAPIDeviceCreate media body = (case decodeJSONBody media body of
     Inl (status, msg) \<Rightarrow> answer (ApiError status msg)
   | Inr b \<Rightarrow> (let n = on_device_named (in_Name b) in
       if \<not> TagNamesFit (in_Tags b) then ret (ApiError 400 tagNameMsg, n)
       else bindA (attempt (if in_SubnetID b = 0 \<and> trim_space (in_IP b) \<noteq> [] then subnetContaining (in_IP b)
                            else ret (in_SubnetID b))) (\<lambda>w. case w of
           Inl _ \<Rightarrow> ret (serverError, n)
         | Inr subnetID \<Rightarrow> bindA (attempt (checkNewDevice (apiDevice b) (in_MAC b) (in_IP b) subnetID)) (\<lambda>x. case x of
             Inl _ \<Rightarrow> ret (serverError, n)
           | Inr (Inl msg) \<Rightarrow> ret (ApiError 400 (if msg = chooseSubnetMsg
                 then ''no configured subnet contains '' @ trim_space (in_IP b) @ ''; pass subnet_id'' else msg), n)
           | Inr (Inr nd) \<Rightarrow>
               bindA (attempt (CreateDeviceWithIface (nd_dev nd) (nd_mac nd) (nd_subnetID nd) (nd_ip nd) ''static'')) (\<lambda>y. case y of
                 Inl e \<Rightarrow> (case writeFailure e macTakenMsg parentMissingMsg of
                     Some (status, msg) \<Rightarrow> ret (ApiError status msg, n) | None \<Rightarrow> ret (serverError, n))
               | Inr i \<Rightarrow> bindA (attempt (SetDeviceTags i (in_Tags b))) (\<lambda>z. case z of
                     Inl _ \<Rightarrow> ret (serverError, n)
                   | Inr _ \<Rightarrow> writeDevice i 201 n))))))"

definition apiDeviceID :: "string \<Rightarrow> (device \<Rightarrow> 's handler) \<Rightarrow> 's handler" where
  "apiDeviceID pid k = (case atoi pid of
     None \<Rightarrow> answer (ApiError 404 ''device not found'')
   | Some i \<Rightarrow> bindA (attempt (GetDevice i)) (\<lambda>x. case x of
       Inl e \<Rightarrow> answer (if e = ErrNoRows then ApiError 404 ''device not found'' else serverError)
     | Inr d \<Rightarrow> k d))"

definition patchable :: "string list" where
  "patchable = [''name'', ''kind'', ''notes'', ''vendor'', ''model'', ''function'', ''icon'', ''parent_device_id'', ''tags'']"

text \<open>\<open>strconv.Quote\<close> of printable text.\<close>

definition quote :: "string \<Rightarrow> string" where
  "quote s = CHR 0x22 # concat (map (\<lambda>c. if c = CHR 0x22 \<or> c = CHR 0x5C then [CHR 0x5C, c] else [c]) s) @ [CHR 0x22]"

text \<open>
  The fields of a PATCH body, in the order the range over the map visits them. The texts are read in
  one order of those the range over their map may take, which decides the message at most.
\<close>

type_synonym patch = "(string \<times> json) list"

definition patch_str :: "patch \<Rightarrow> string \<Rightarrow> string \<Rightarrow> string + string" where
  "patch_str body key cur = (case map_of body key of
     None \<Rightarrow> Inr cur | Some (JStr v) \<Rightarrow> Inr v | Some _ \<Rightarrow> Inl (key @ '' must be a string''))"

definition patch_parent :: "patch \<Rightarrow> device \<Rightarrow> string + int option" where
  "patch_parent body d = (case map_of body ''parent_device_id'' of
     None \<Rightarrow> Inr (dev_ParentDeviceID d)
   | Some JNull \<Rightarrow> Inr None
   | Some (JInt i) \<Rightarrow>
       if i < - (2 ^ 63) \<or> 2 ^ 63 \<le> i then Inl ''parent_device_id must be a device id or null''
       else if i = dev_ID d then Inl ''a device cannot be its own parent'' else Inr (Some i)
   | Some _ \<Rightarrow> Inl ''parent_device_id must be a device id or null'')"

fun json_strings :: "json list \<Rightarrow> string list option" where
  "json_strings [] = Some []"
| "json_strings (JStr v # vs) = map_option ((#) v) (json_strings vs)"
| "json_strings (JNull # vs) = map_option ((#) []) (json_strings vs)"
| "json_strings (_ # vs) = None"

text \<open>No tags to set, or the new ones.\<close>

definition patch_tags :: "patch \<Rightarrow> string + string list option" where
  "patch_tags body = (case map_of body ''tags'' of
     None \<Rightarrow> Inr None
   | Some v \<Rightarrow> (case (case v of JNull \<Rightarrow> Some [] | JArr vs \<Rightarrow> json_strings vs | _ \<Rightarrow> None) of
       None \<Rightarrow> Inl ''tags must be a list of strings''
     | Some tags \<Rightarrow> if TagNamesFit tags then Inr (Some tags) else Inl tagNameMsg))"

definition bind_msg :: "string + 'a \<Rightarrow> ('a \<Rightarrow> string + 'b) \<Rightarrow> string + 'b" where
  "bind_msg x k = (case x of Inl e \<Rightarrow> Inl e | Inr a \<Rightarrow> k a)"

definition patched :: "patch \<Rightarrow> device \<Rightarrow> string + device \<times> string list option" where
  "patched body d = (case List.find (\<lambda>(k, _). k \<notin> set patchable) body of
     Some (k, _) \<Rightarrow> Inl (''unknown or read-only field '' @ quote k)
   | None \<Rightarrow>
     bind_msg (patch_str body ''name'' (dev_Name d)) (\<lambda>name. bind_msg (patch_str body ''kind'' (dev_Kind d)) (\<lambda>kind.
     bind_msg (patch_str body ''notes'' (dev_Notes d)) (\<lambda>notes. bind_msg (patch_str body ''vendor'' (dev_Vendor d)) (\<lambda>vendor.
     bind_msg (patch_str body ''model'' (dev_Model d)) (\<lambda>model. bind_msg (patch_str body ''function'' (dev_Function d)) (\<lambda>func.
     bind_msg (patch_str body ''icon'' (dev_Icon d)) (\<lambda>icon.
       if trim_space name = [] then Inl ''name required''
       else if kind \<notin> set validKinds then Inl ''bad kind''
       else bind_msg (patch_parent body d) (\<lambda>parent. bind_msg (patch_tags body) (\<lambda>tags.
         Inr (d\<lparr>dev_Name := trim_space name, dev_Kind := kind, dev_Notes := notes, dev_Vendor := vendor, dev_Model := model,
                dev_Function := func, dev_Icon := icon, dev_ParentDeviceID := parent\<rparr>, tags)))))))))))"

definition handleAPIDeviceUpdate :: "string \<Rightarrow> string \<Rightarrow> patch decoded \<Rightarrow> 's handler" where
  "handleAPIDeviceUpdate pid media body = apiDeviceID pid (\<lambda>d0. let n = on_device d0 in
     case decodeJSONBody media body of
       Inl (status, msg) \<Rightarrow> ret (ApiError status msg, n)
     | Inr b \<Rightarrow> (case patched b d0 of
         Inl msg \<Rightarrow> ret (ApiError 400 msg, n)
       | Inr (d, tags) \<Rightarrow> bindA (attempt (UpdateDevice d)) (\<lambda>x. case x of
           Inl e \<Rightarrow> (case writeFailure e deviceConflictMsg parentMissingMsg of
               Some (status, msg) \<Rightarrow> ret (ApiError status msg, n) | None \<Rightarrow> ret (serverError, n))
         | Inr _ \<Rightarrow> bindA (attempt (case tags of None \<Rightarrow> ret () | Some names \<Rightarrow> SetDeviceTags (dev_ID d) names)) (\<lambda>y. case y of
               Inl _ \<Rightarrow> ret (serverError, n)
             | Inr _ \<Rightarrow> writeDevice (dev_ID d) 200 n))))"

definition handleAPIDeviceDelete :: "string \<Rightarrow> 's handler" where
  "handleAPIDeviceDelete pid = apiDeviceID pid (\<lambda>d. bindA (attempt (DeleteDevice (dev_ID d))) (\<lambda>x. case x of
     Inl _ \<Rightarrow> ret (serverError, on_device d) | Inr _ \<Rightarrow> ret (ApiDone 204, on_device d)))"

section \<open>The device page\<close>

definition handleDeviceApprove :: "string \<Rightarrow> request \<Rightarrow> 's handler" where
  "handleDeviceApprove pid r = devicePage pid (\<lambda>d. orFail (SetDeviceReviewed (dev_ID d) True) (\<lambda>_.
     answer (Flash (localNext (rq_Form r ''next'') ''/devices'') ''Device approved'')))"

definition handleDeviceDelete :: "string \<Rightarrow> 's handler" where
  "handleDeviceDelete pid = (case atoi pid of
     None \<Rightarrow> answer notFound
   | Some i \<Rightarrow> bindA (attempt (GetDevice i)) (\<lambda>x.
       let n = (case x of Inl _ \<Rightarrow> no_note | Inr d \<Rightarrow> on_device d) in
       bindA (attempt (DeleteDevice i)) (\<lambda>y. case y of
         Inl _ \<Rightarrow> ret (serverError, n) | Inr _ \<Rightarrow> ret (Flash ''/devices'' ''Device deleted'', n))))"

definition handleDeviceAlert :: "string \<Rightarrow> request \<Rightarrow> 's handler" where
  "handleDeviceAlert pid r = (case atoi pid of
     None \<Rightarrow> answer notFound
   | Some i \<Rightarrow> bindA (attempt (DeviceAlert i)) (\<lambda>x. case x of
       Inl e \<Rightarrow> answer (if e = ErrNoRows then notFound else serverError)
     | Inr _ \<Rightarrow> (let on = (rq_Form r ''alert_offline'' = ''1'') in
         orFail (SetDeviceAlertOffline i on) (\<lambda>_.
           answer (Flash (''/devices/'' @ pid) (if on then ''Offline alerts turned on'' else ''Offline alerts turned off''))))))"

text \<open>Host, path and raw query of the referring page, \<open>None\<close> when \<open>url.Parse\<close> refuses it.\<close>

definition deviceBackLink :: "string \<Rightarrow> (string \<times> string \<times> string) option \<Rightarrow> ('s db_scheme, string \<times> string) act" where
  "deviceBackLink host ref = (let list = (''/devices'', ''Devices'') in
     case ref of
       None \<Rightarrow> ret list
     | Some (h, p, q) \<Rightarrow>
         if h \<noteq> host then ret list
         else if p = ''/devices'' then ret (''/devices'' @ (if q \<noteq> [] then ''?'' @ q else []), ''Devices'')
         else if p = ''/'' then ret (''/'', ''Dashboard'')
         else if p = ''/events'' then ret (''/events'', ''Events'')
         else if p = ''/subnets'' then ret (''/subnets'', ''Subnets'')
         else (case cut_prefix ''/subnets/'' p of
             None \<Rightarrow> ret list
           | Some sid \<Rightarrow> (case atoi sid of
               None \<Rightarrow> ret list
             | Some i \<Rightarrow> bindA (attempt (GetSubnet i)) (\<lambda>x. case x of
                 Inl _ \<Rightarrow> ret list
               | Inr sn \<Rightarrow> ret (''/subnets/'' @ string_of_int i, sn_Name sn)))))"

section \<open>Links, fields, waking and scanning a device\<close>

definition handleLinkAdd :: "string \<Rightarrow> request \<Rightarrow> 's handler" where
  "handleLinkAdd pid r = (let label = trim_space (rq_Form r ''label''); url = trim_space (rq_Form r ''url'') in
     if label \<noteq> [] \<and> url \<noteq> []
     then orFail (AddLink (int_value pid) label url) (\<lambda>_. answer (Flash (''/devices/'' @ pid) ''Link added''))
     else answer (Redirect (''/devices/'' @ pid)))"

definition handleLinkDelete :: "string \<Rightarrow> request \<Rightarrow> 's handler" where
  "handleLinkDelete pid r = orFail (DeleteLink (int_value pid)) (\<lambda>_.
     answer (Flash (''/devices/'' @ rq_Form r ''device_id'') ''Link deleted''))"

definition handleFieldSet :: "string \<Rightarrow> request \<Rightarrow> 's handler" where
  "handleFieldSet pid r = (let key = trim_space (rq_Form r ''key'') in
     if key \<noteq> []
     then orFail (SetCustomField (int_value pid) key (rq_Form r ''value'')) (\<lambda>_. answer (Flash (''/devices/'' @ pid) ''Field saved''))
     else answer (Redirect (''/devices/'' @ pid)))"

definition handleFieldDelete :: "string \<Rightarrow> request \<Rightarrow> 's handler" where
  "handleFieldDelete pid r = orFail (DeleteCustomField (int_value pid) (rq_Form r ''key'')) (\<lambda>_.
     answer (Flash (''/devices/'' @ pid) ''Field deleted''))"

fun prefixes_of :: "ip_row list \<Rightarrow> ('s db_scheme, cidr list) act" where
  "prefixes_of [] = ret []"
| "prefixes_of (a # ips) = bindA (GetSubnet (ip_SubnetID a)) (\<lambda>sn. bindA (prefixes_of ips) (\<lambda>ps.
     ret (case parse_prefix (sn_CIDR sn) of Some p \<Rightarrow> p # ps | None \<Rightarrow> ps)))"

definition wolTargets :: "int \<Rightarrow> ('s db_scheme, string list) act" where
  "wolTargets ifc = bindA (ListIPs ifc) (\<lambda>ips. bindA (prefixes_of ips) (\<lambda>ps. ret (Targets ps)))"

definition HostsOf :: "string list \<Rightarrow> string" where
  "HostsOf addrs = join '', '' (map (\<lambda>a. case split_host a of None \<Rightarrow> a | Some h \<Rightarrow> h) addrs)"

text \<open>\<open>send\<close> is the network: what sending a device's packet to an address answers.\<close>

definition handleWOL :: "string \<Rightarrow> request \<Rightarrow> (string \<Rightarrow> string \<Rightarrow> error option) \<Rightarrow> 's handler" where
  "handleWOL pid r send = devicePage pid (\<lambda>d. orFail (ListIfaces (dev_ID d)) (\<lambda>ifaces.
     case List.find (\<lambda>f. \<not> no_mac f) ifaces of
       None \<Rightarrow> answer (Failure 400 ''this device has no MAC address, so it cannot be woken'')
     | Some f \<Rightarrow> (let mac = the (if_MAC f) in
         orFail (wolTargets (if_ID f)) (\<lambda>targets. case SendAll mac targets (send mac) of
           Inl _ \<Rightarrow> answer serverError
         | Inr sent \<Rightarrow>
             if isHTMX r then answer (Toast (''Wake on LAN sent to '' @ mac @ '' via '' @ HostsOf sent))
             else answer (Flash (''/devices/'' @ pid) (''Wake on LAN sent to '' @ mac))))))"

definition portScanToast :: "string \<Rightarrow> nat \<Rightarrow> string" where
  "portScanToast ip n = (if n = 0 then ''Ports scanned on '' @ ip @ '': none open''
     else ''Ports scanned on '' @ ip @ '': '' @ string_of_nat n @ '' open'')"

text \<open>
  \<open>conns\<close> says which ports of an address answer; \<open>af\<close> is a pass of the autofill service over the
  device, where there is one: its error is only logged.
\<close>

definition handlePortScan :: "string \<Rightarrow> (string \<Rightarrow> int \<Rightarrow> bool) \<Rightarrow> (int \<Rightarrow> ('s web_scheme, error option) act) option \<Rightarrow>
    time \<Rightarrow> 's handler" where
  "handlePortScan pid conns af now = devicePage pid (\<lambda>d. orFail (ListIfaces (dev_ID d)) (\<lambda>ifaces.
     case ifaces of
       [] \<Rightarrow> answer (Failure 400 ''this device has no network interface, so there is nothing to scan; add a MAC or IP address first'')
     | f # _ \<Rightarrow> orFail (ListIPs (if_ID f)) (\<lambda>ips. case ips of
         [] \<Rightarrow> answer (Failure 400 ''this device has no IP address, so its ports cannot be scanned; add an IP address first'')
       | a # _ \<Rightarrow> (let found = map (\<lambda>p. (p, ServiceGuess p)) (PortScan (conns (ip_IP a)) CommonPorts) in
           orFail (ReplaceOpenPorts (if_ID f) ''tcp'' found (rfc3339 now)) (\<lambda>_.
             thenA (case af of None \<Rightarrow> ret () | Some run \<Rightarrow> logged (run (dev_ID d)))
               (answer (Flash (''/devices/'' @ pid) (portScanToast (ip_IP a) (length found)))))))))"

definition handleDeviceIPKind :: "string \<Rightarrow> request \<Rightarrow> 's handler" where
  "handleDeviceIPKind pid r = (case atoi pid of
     None \<Rightarrow> answer notFound
   | Some _ \<Rightarrow> (case atoi (rq_Form r ''subnet_id'') of
       None \<Rightarrow> answer (Failure 400 ''that subnet does not exist; reload the page and try again'')
     | Some sn \<Rightarrow> (let kind = rq_Form r ''kind'' in
         if kind \<noteq> ''static'' \<and> kind \<noteq> ''dhcp'' then answer (Failure 400 ''choose static or DHCP'')
         else orFail (SetIPKind sn (rq_Form r ''ip'') kind) (\<lambda>_. answer (Page ''lease kind'')))))"

section \<open>What the check lets through\<close>

lemma kinds_agree: "set validKinds = set device_kinds"
  by (auto simp: validKinds_def device_kinds_def)

definition in_subnet :: "subnet list \<Rightarrow> int \<Rightarrow> string \<Rightarrow> bool" where
  "in_subnet subnets sid ip \<longleftrightarrow> (\<exists>sn \<in> set subnets. sn_ID sn = sid \<and>
     (\<exists>p a. parse_prefix (sn_CIDR sn) = Some p \<and> contains p a \<and> ip = addr_string a))"

lemma in_subnetI:
  "sn \<in> set subnets \<Longrightarrow> parse_prefix (sn_CIDR sn) = Some p \<Longrightarrow> contains p a \<Longrightarrow> in_subnet subnets (sn_ID sn) (addr_string a)"
  by (auto simp: in_subnet_def)

text \<open>A device that may be created: named, of a kind there is, its addresses in normal form.\<close>

definition fit_device :: "subnet list \<Rightarrow> int \<Rightarrow> newDevice \<Rightarrow> bool" where
  "fit_device subnets sid nd \<longleftrightarrow> dev_Kind (nd_dev nd) \<in> set device_kinds \<and> dev_Name (nd_dev nd) \<noteq> [] \<and>
     (case nd_mac nd of None \<Rightarrow> True | Some m \<Rightarrow> mac_re m) \<and>
     (if nd_subnetID nd = 0 then nd_ip nd = [] else nd_subnetID nd = sid \<and> in_subnet subnets sid (nd_ip nd))"

lemma normMAC_form: "normMAC s = Some m \<Longrightarrow> mac_re m"
  unfolding normMAC_def by (auto dest: parse_mac_less intro: mac_string_form split: option.splits if_splits)

lemma checkNewDevice_fits:
  "wp (checkNewDevice dev mac ip sid) (\<lambda>x s'. tabs s' = tabs s \<and> (case x of
     Inr (Inr nd) \<Rightarrow> fit_device (t_subnet (tabs s)) sid nd \<and> nd_dev nd = dev\<lparr>dev_Name := trim_space (dev_Name dev)\<rparr> \<and>
       nd_mac nd = (if trim_space mac = [] then None else normMAC (trim_space mac)) | _ \<Rightarrow> True)) s"
proof -
  have get: "wp (GetSubnet sid) (\<lambda>x s'. tabs s' = tabs s \<and> (case x of Inl _ \<Rightarrow> True
      | Inr sn \<Rightarrow> sn \<in> set (t_subnet (tabs s)) \<and> sn_ID sn = sid)) s"
    unfolding GetSubnet_def by (rule wp_query_row) (auto dest!: find_SomeD)
  show ?thesis
    unfolding checkNewDevice_def Let_def wp_simps
    by (auto simp: wp_simps fit_device_def kinds_agree normMAC_form in_subnetI split: option.splits sum.splits intro!: wp_mono [OF get])
qed

text \<open>
  C25: What the check lets through is fit to be stored: a kind there is, a name, a hardware address in
  the stored form or none, and an address only together with a subnet that holds it. It changes nothing.
\<close>

theorem checkNewDevice_sound:
  "case checkNewDevice dev mac ip sid s of
     (Inr (Inr nd), s') \<Rightarrow> tabs s' = tabs s \<and> fit_device (t_subnet (tabs s)) sid nd
   | (_, s') \<Rightarrow> tabs s' = tabs s"
  using checkNewDevice_fits [of dev mac ip sid s]
  by (auto simp: wp_def split: prod.splits sum.splits)

section \<open>The form and the API create the same\<close>

lemma read_only: "keeps (\<lambda>s'. tabs s' = t) m \<Longrightarrow> tabs s = t \<Longrightarrow> tabs (snd (m s)) = t"
  by (rule keepsD)

lemma suggest_reads [pres_intros]: "keeps (\<lambda>s. J (tabs s)) (deviceFormSuggest f)"
  unfolding deviceFormSuggest_def DistinctDeviceValues_def ListHints_def by (intro pres_intros)

lemma form_reads [pres_intros]: "keeps (\<lambda>s. J (tabs s)) (renderDeviceForm st f n)"
  unfolding renderDeviceForm_def deviceFormLists_def ListSubnets_def ListDevices_def ListTags_def by (intro pres_intros)

lemma write_reads [pres_intros]: "keeps (\<lambda>s. J (tabs s)) (writeDevice i st n)"
  unfolding writeDevice_def apiDeviceByID_def ListDevices_def by (intro pres_intros)

lemma form_reads_only [simp]: "tabs (snd (renderDeviceForm st f n s)) = tabs s"
  by (rule read_only [OF form_reads [where J = "\<lambda>t. t = tabs s"]]) simp

lemma write_reads_only [simp]: "tabs (snd (writeDevice i st n s)) = tabs s"
  by (rule read_only [OF write_reads [where J = "\<lambda>t. t = tabs s"]]) simp

lemma bind_same:
  assumes "\<And>x s'. m s = (x, s') \<Longrightarrow> tabs (snd (k x s')) = tabs (snd (l x s'))"
  shows "tabs (snd (bindA (attempt m) k s)) = tabs (snd (bindA (attempt m) l s))"
  using assms by (auto simp: bindA_def attempt_def split: prod.splits)

text \<open>The body that says what a form says.\<close>

definition body_of :: "request \<Rightarrow> apiDeviceCreate" where
  "body_of r = \<lparr>in_Name = rq_Form r ''name'', in_Kind = rq_Form r ''kind'', in_Notes = rq_Form r ''notes'',
     in_Vendor = rq_Form r ''vendor'', in_Model = rq_Form r ''model'', in_Function = rq_Form r ''function'',
     in_Icon = rq_Form r ''icon'', in_ParentID = dev_ParentDeviceID (formDevice r), in_Tags = parseTags (rq_Form r ''tags''),
     in_MAC = rq_Form r ''mac'', in_IP = rq_Form r ''ip'', in_SubnetID = int_value (rq_Form r ''subnet_id'')\<rparr>"

lemma same_device: "apiDevice (body_of r) = formDevice r"
  by (simp add: apiDevice_def body_of_def formDevice_def no_device_def)

text \<open>
  C26: A device written through the API and the same device sent by the form leave the database the
  same, refused or not and whatever statement fails, so a script can put in nothing that a person
  could not. An address without a subnet is the exception: the API looks for one, the form asks.
\<close>

theorem form_and_api_create_alike:
  "if int_value (rq_Form r ''subnet_id'') = 0 \<and> trim_space (rq_Form r ''ip'') \<noteq> [] then True
   else tabs (snd (handleDeviceCreate r s)) = tabs (snd (handleAPIDeviceCreate ''application/json'' (Decoded (body_of r)) s))"
proof (cases "int_value (rq_Form r ''subnet_id'') = 0 \<and> trim_space (rq_Form r ''ip'') \<noteq> []")
  case False
  have sel: "in_Name (body_of r) = dev_Name (formDevice r)" "in_Tags (body_of r) = parseTags (rq_Form r ''tags'')"
    "in_MAC (body_of r) = rq_Form r ''mac''" "in_IP (body_of r) = rq_Form r ''ip''"
    "in_SubnetID (body_of r) = int_value (rq_Form r ''subnet_id'')"
    by (simp_all add: body_of_def formDevice_def)
  have skip: "bindA (attempt (ret v)) k = k (Inr v)" for v :: int and k :: "error + int \<Rightarrow> ('a web_scheme, response \<times> auditRecord) act"
    by (simp add: bindA_def attempt_def ret_def fun_eq_iff)
  show ?thesis using False
    unfolding handleDeviceCreate_def handleAPIDeviceCreate_def decodeJSONBody_def Let_def
    by (auto simp: sel same_device skip intro!: bind_same split: sum.splits option.splits)
qed simp

section \<open>A PATCH changes what it names\<close>

definition patch_names :: "patch \<Rightarrow> string \<Rightarrow> string \<Rightarrow> string \<Rightarrow> bool" where
  "patch_names b key old new \<longleftrightarrow> (case map_of b key of None \<Rightarrow> new = old | Some (JStr v) \<Rightarrow> new = v | _ \<Rightarrow> False)"

definition named_parent :: "patch \<Rightarrow> int \<Rightarrow> int option \<Rightarrow> int option \<Rightarrow> bool" where
  "named_parent b i old new \<longleftrightarrow> (case map_of b ''parent_device_id'' of
     None \<Rightarrow> new = old | Some JNull \<Rightarrow> new = None | Some (JInt p) \<Rightarrow> new = Some p \<and> p \<noteq> i | _ \<Rightarrow> False)"

text \<open>The row after a PATCH: what the body names, trimmed names, and that somebody has reviewed it.\<close>

definition only_named :: "patch \<Rightarrow> device_row \<Rightarrow> device_row \<Rightarrow> bool" where
  "only_named b r r' \<longleftrightarrow> fst ` set b \<subseteq> set patchable \<and>
     (\<exists>name. patch_names b ''name'' (dev_Name r) name \<and> dev_Name r' = trim_space name) \<and> dev_Name r' \<noteq> [] \<and>
     patch_names b ''kind'' (dev_Kind r) (dev_Kind r') \<and> dev_Kind r' \<in> set validKinds \<and>
     patch_names b ''notes'' (dev_Notes r) (dev_Notes r') \<and> patch_names b ''vendor'' (dev_Vendor r) (dev_Vendor r') \<and>
     patch_names b ''model'' (dev_Model r) (dev_Model r') \<and> patch_names b ''function'' (dev_Function r) (dev_Function r') \<and>
     patch_names b ''icon'' (dev_Icon r) (dev_Icon r') \<and>
     named_parent b (dev_ID r) (dev_ParentDeviceID r) (dev_ParentDeviceID r') \<and>
     r' = r\<lparr>dev_Name := dev_Name r', dev_Kind := dev_Kind r', dev_Notes := dev_Notes r', dev_Vendor := dev_Vendor r',
            dev_Model := dev_Model r', dev_Function := dev_Function r', dev_Icon := dev_Icon r',
            dev_ParentDeviceID := dev_ParentDeviceID r', dev_Reviewed := True\<rparr>"

lemma patch_str_named: "patch_str b key old = Inr v \<Longrightarrow> patch_names b key old v"
  by (auto simp: patch_str_def patch_names_def split: option.splits json.splits)

lemma patch_parent_named: "patch_parent b d = Inr p \<Longrightarrow> named_parent b (dev_ID d) (dev_ParentDeviceID d) p"
  by (auto simp: patch_parent_def named_parent_def split: option.splits json.splits if_splits)

lemma bind_msg_Inr: "bind_msg x k = Inr b \<longleftrightarrow> (\<exists>a. x = Inr a \<and> k a = Inr b)"
  by (auto simp: bind_msg_def split: sum.splits)

lemma scan_simps:
  "dev_ID (scanDevice r) = dev_ID r" "dev_Name (scanDevice r) = dev_Name r" "dev_Kind (scanDevice r) = dev_Kind r"
  "dev_Notes (scanDevice r) = dev_Notes r" "dev_Vendor (scanDevice r) = dev_Vendor r" "dev_Source (scanDevice r) = dev_Source r"
  "dev_ParentDeviceID (scanDevice r) = dev_ParentDeviceID r" "dev_ProxmoxVMID (scanDevice r) = dev_ProxmoxVMID r"
  "dev_WGPubKey (scanDevice r) = dev_WGPubKey r" "dev_Icon (scanDevice r) = dev_Icon r" "dev_Model (scanDevice r) = dev_Model r"
  "dev_Function (scanDevice r) = dev_Function r"
  by (simp_all add: scanDevice_def device.defs)

lemma patched_only_named:
  assumes "patched b (scanDevice r) = Inr (d, tags)"
  shows "dev_ID d = dev_ID r \<and> only_named b r (updated_device_row d r)"
proof -
  have keys: "fst ` set b \<subseteq> set patchable" using assms
    by (auto simp: patched_def find_None_iff split: option.splits)
  from assms show ?thesis
    by (auto simp: patched_def bind_msg_Inr only_named_def keys scan_simps updated_device_row_def
        dest!: patch_str_named patch_parent_named split: option.splits if_splits)
qed

lemma update_device_rows:
  "wp (UpdateDevice d) (\<lambda>x s'. t_device (tabs s') = t_device (tabs s) \<or>
     t_device (tabs s') = upd_where (\<lambda>r. dev_ID r = dev_ID d) (updated_device_row d) (t_device (tabs s))) s"
  unfolding UpdateDevice_def by (rule wp_stmt) (auto split: if_splits)

lemma tags_keep_devices:
  "keeps (\<lambda>s. J (t_device (tabs s))) (SetDeviceTags i names)"
proof -
  have J: "keeps (\<lambda>s. (\<lambda>t. J (t_device t)) (tabs s)) (SetDeviceTags i names)"
    unfolding SetDeviceTags_def DeviceTags_def findOrCreateTagOn_def Let_def
    by (intro pres_intros keeps_stmt [where J = "\<lambda>t. J (t_device t)"] keeps_exec [where J = "\<lambda>t. J (t_device t)"]
          keeps_query_row [where J = "\<lambda>t. J (t_device t)"] keeps_query [where J = "\<lambda>t. J (t_device t)"]
          keeps_withTx [where J = "\<lambda>t. J (t_device t)"])
      (auto simp: del_device_tag_def ins_device_tag_def ins_tag_new_def ins_tag_def Let_def split: if_splits sum.splits)
  then show ?thesis .
qed

lemma patch_rows:
  assumes "distinct (map dev_ID rows)" and "r0 \<in> set rows" and "patched b (scanDevice r0) = Inr (d, tags)"
  shows "list_all2 (\<lambda>r r'. r' = r \<or> dev_ID r0 = dev_ID r \<and> only_named b r r') rows
    (upd_where (\<lambda>r. dev_ID r = dev_ID d) (updated_device_row d) rows)"
proof -
  note d = patched_only_named [OF assms(3)]
  have "r = r0" if "r \<in> set rows" "dev_ID r = dev_ID d" for r
    using that assms(1,2) d by (auto simp: distinct_map dest: inj_onD)
  then show ?thesis using d by (auto simp: upd_where_def list_all2_map2 list_all2_same)
qed


text \<open>A scanned host is given a note: it keeps its kind and its model, and counts as reviewed from then on.\<close>

definition scanned :: device_row where
  "scanned = \<lparr>dev_ID = 3, dev_Name = ''unknown-aa'', dev_Kind = ''other'', dev_Notes = [], dev_Vendor = ''Acme'', dev_Source = ''scan'',
     dev_ParentDeviceID = None, dev_ProxmoxVMID = None, dev_WGPubKey = None, dev_Icon = [], dev_Reviewed = False,
     dev_Model = ''M1'', dev_Function = [], dev_UpstreamMissingSince = None, dev_AlertOffline = False\<rparr>"

definition device_web :: web where
  "device_web = new_web (no_tables\<lparr>t_device := [scanned, scanned\<lparr>dev_ID := 4, dev_Name := ''nas''\<rparr>]\<rparr>) []"


end
