(* ===== verification/Csv.thy ===== *)
theory Csv
  imports GoStr
begin

text \<open>
  Go's encoding/csv as the export and the import use it: a writer with its defaults, and a reader that
  trims leading space and takes records of any length. Text is bytes; only ASCII space counts as space.
\<close>

abbreviation NL :: char where "NL \<equiv> CHR 0x0A"
abbreviation CR :: char where "CR \<equiv> CHR 0x0D"
abbreviation QUOTE :: char where "QUOTE \<equiv> CHR 0x22"

section \<open>Writing\<close>

definition fieldNeedsQuotes :: "string \<Rightarrow> bool" where
  "fieldNeedsQuotes f \<longleftrightarrow> f \<noteq> [] \<and>
     (f = [CHR 0x5C, CHR ''.''] \<or> list_ex (\<lambda>c. c \<in> {CHR '','', QUOTE, CR, NL}) f \<or> is_space (hd f))"

definition write_field :: "string \<Rightarrow> string" where
  "write_field f = (if fieldNeedsQuotes f
     then QUOTE # concat (map (\<lambda>c. if c = QUOTE then [QUOTE, QUOTE] else [c]) f) @ [QUOTE] else f)"

definition write_record :: "string list \<Rightarrow> string" where
  "write_record fs = join '','' (map write_field fs) @ [NL]"

section \<open>Reading\<close>

text \<open>\<open>readLine\<close>: a line may end in CR LF, and a CR before the end of the file is dropped.\<close>

fun unix_lines :: "string \<Rightarrow> string" where
  "unix_lines [] = []"
| "unix_lines [c] = (if c = CR then [] else [c])"
| "unix_lines (c # d # s) = (if c = CR \<and> d = NL then NL # unix_lines s else c # unix_lines (d # s))"

text \<open>The rest of a quoted field: its text and what follows the closing quote.\<close>

fun quoted :: "string \<Rightarrow> string \<Rightarrow> (string \<times> string) option" where
  "quoted acc [] = None"
| "quoted acc [c] = (if c = QUOTE then Some (rev acc, []) else None)"
| "quoted acc (c # d # s) = (if c \<noteq> QUOTE then quoted (c # acc) (d # s)
     else if d = QUOTE then quoted (QUOTE # acc) s else Some (rev acc, d # s))"

definition field_end :: "char \<Rightarrow> bool" where "field_end c \<longleftrightarrow> c = CHR '','' \<or> c = NL"

text \<open>One field, and what follows it: none where the reader would report an error.\<close>

definition read_field :: "string \<Rightarrow> (string \<times> string) option" where
  "read_field s0 = (let s = dropWhile (\<lambda>c. is_space c \<and> c \<noteq> NL) s0 in
     case s of
       c # r \<Rightarrow> if c = QUOTE
         then (case quoted [] r of
             None \<Rightarrow> None
           | Some (f, rest) \<Rightarrow> if rest = [] \<or> field_end (hd rest) then Some (f, rest) else None)
         else (let f = takeWhile (\<lambda>c. \<not> field_end c) s in
             if QUOTE \<in> set f then None else Some (f, drop (length f) s))
     | [] \<Rightarrow> Some ([], []))"

lemma quoted_shorter: "quoted acc s = Some (f, r) \<Longrightarrow> length r < length s"
  by (induction acc s arbitrary: f r rule: quoted.induct) (force split: if_splits)+

lemma read_field_shorter:
  assumes "read_field s = Some (f, r)"
  shows "length r \<le> length s"
proof -
  let ?s = "dropWhile (\<lambda>c. is_space c \<and> c \<noteq> NL) s"
  have "length r \<le> length ?s"
  proof (cases ?s)
    case (Cons c t)
    with assms show ?thesis
      by (auto simp: read_field_def Let_def Cons dest!: quoted_shorter split: if_splits option.splits)
  qed (use assms in \<open>simp add: read_field_def Let_def del: dropWhile_eq_Nil_conv\<close>)
  then show ?thesis using length_dropWhile_le [of "\<lambda>c. is_space c \<and> c \<noteq> NL" s] by linarith
qed

text \<open>A record: its fields and what follows its line.\<close>

function read_record :: "string \<Rightarrow> (string list \<times> string) option" where
  "read_record s = (case read_field s of
     None \<Rightarrow> None
   | Some (f, []) \<Rightarrow> Some ([f], [])
   | Some (f, c # r) \<Rightarrow> if c = NL then Some ([f], r)
       else (case read_record r of None \<Rightarrow> None | Some (fs, r') \<Rightarrow> Some (f # fs, r')))"
  by pat_completeness auto
termination
  by (relation "measure length") (auto dest: read_field_shorter)

declare read_record.simps [simp del]

text \<open>
  \<open>Read\<close>, with the number of the line it stands at: empty lines are passed over, and \<open>Eof\<close> is
  \<open>io.EOF\<close>. A record stands on the line of its first field.
\<close>

datatype read = Eof | Bad | Record nat "string list" nat string

definition newlines :: "string \<Rightarrow> nat" where
  "newlines s = length (filter (\<lambda>c. c = NL) s)"

definition csv_read :: "nat \<Rightarrow> string \<Rightarrow> read" where
  "csv_read line s0 = (let s = dropWhile (\<lambda>c. c = NL) s0; at' = line + (length s0 - length s) in
     if s = [] then Eof
     else (case read_record s of
         None \<Rightarrow> Bad
       | Some (fs, r) \<Rightarrow> Record at' fs (at' + (newlines s - newlines r)) r))"

lemma read_record_le: "read_record s = Some (fs, r) \<Longrightarrow> length r \<le> length s - 1"
proof (induction s arbitrary: fs r rule: read_record.induct)
  case (1 s)
  from "1.prems" obtain f t where f: "read_field s = Some (f, t)"
    by (subst (asm) read_record.simps) (auto split: option.splits)
  show ?case
  proof (cases t)
    case Nil
    with "1.prems" f show ?thesis by (subst (asm) read_record.simps) auto
  next
    case (Cons c t')
    have len: "length t' \<le> length s - 1" using read_field_shorter [OF f] Cons by simp
    show ?thesis
    proof (cases "c = NL")
      case True
      then show ?thesis using "1.prems" f Cons len by (subst (asm) read_record.simps) auto
    next
      case False
      with "1.prems" f Cons obtain gs where "read_record t' = Some (gs, r)"
        by (subst (asm) read_record.simps) (auto split: option.splits)
      from "1.IH" [OF f _ Cons False this] len show ?thesis by simp
    qed
  qed
qed

lemma read_record_shorter: "read_record s = Some (fs, r) \<Longrightarrow> s \<noteq> [] \<Longrightarrow> length r < length s"
  using read_record_le [of s fs r] by (cases s) auto

section \<open>What is written is read back\<close>

lemma quoted_back:
  assumes "r = [] \<or> hd r \<noteq> QUOTE"
  shows "quoted acc (concat (map (\<lambda>c. if c = QUOTE then [QUOTE, QUOTE] else [c]) f) @ QUOTE # r) = Some (rev acc @ f, r)"
  using assms
proof (induction f arbitrary: acc)
  case Nil
  then show ?case by (cases r) auto
next
  case (Cons c f)
  let ?g = "\<lambda>c. if c = QUOTE then [QUOTE, QUOTE] else [c]"
  have ne: "concat (map ?g f) @ QUOTE # r \<noteq> []" by simp
  then obtain d s where ds: "concat (map ?g f) @ QUOTE # r = d # s" by (cases "concat (map ?g f) @ QUOTE # r") auto
  show ?case
  proof (cases "c = QUOTE")
    case True
    then show ?thesis using Cons by (simp add: Cons.IH [of "QUOTE # acc"])
  next
    case False
    then have "quoted acc (concat (map ?g (c # f)) @ QUOTE # r) = quoted (c # acc) (concat (map ?g f) @ QUOTE # r)"
      by (simp add: ds)
    then show ?thesis using Cons by simp
  qed
qed

lemma read_field_back:
  assumes "r \<noteq> []" and "field_end (hd r)"
  shows "read_field (write_field f @ r) = Some (f, r)"
proof (cases "fieldNeedsQuotes f")
  case True
  have "\<not> is_space QUOTE" by (simp add: is_space_def less_eq_char_def)
  moreover have "hd r \<noteq> QUOTE" using assms(2) by (auto simp: field_end_def)
  ultimately show ?thesis using assms quoted_back [of r "[]" f]
    by (simp add: read_field_def write_field_def True Let_def)
next
  case False
  obtain c r' where r: "r = c # r'" "field_end c" using assms by (cases r) auto
  have plain: "\<forall>c \<in> set f. \<not> field_end c \<and> c \<noteq> QUOTE" and hd: "f \<noteq> [] \<Longrightarrow> \<not> is_space (hd f)"
    using False by (auto simp: fieldNeedsQuotes_def list_ex_iff field_end_def)
  have c: "\<not> (is_space c \<and> c \<noteq> NL)" "c \<noteq> QUOTE" using r(2) by (auto simp: field_end_def is_space_def less_eq_char_def)
  have drop: "dropWhile (\<lambda>c. is_space c \<and> c \<noteq> NL) (f @ r) = f @ r"
    using hd c by (cases f) (auto simp: r)
  have take: "takeWhile (\<lambda>c. \<not> field_end c) (f @ r) = f"
    using plain r by (simp add: takeWhile_append2)
  obtain c0 s0 where fr: "f @ r = c0 # s0" "c0 \<noteq> QUOTE" using plain c r by (cases f) auto
  have "QUOTE \<notin> set f" using plain by auto
  then show ?thesis
    using drop take unfolding read_field_def write_field_def Let_def
    by (simp add: False fr) (metis append_eq_conv_conj fr(1))
qed

lemma read_record_back:
  "fs \<noteq> [] \<Longrightarrow> read_record (join '','' (map write_field fs) @ NL # r) = Some (fs, r)"
proof (induction fs)
  case (Cons f fs)
  show ?case
  proof (cases fs)
    case Nil
    then show ?thesis
      by (subst read_record.simps) (simp add: read_field_back field_end_def)
  next
    case (Cons g gs)
    then have "join '','' (map write_field (f # fs)) @ NL # r = write_field f @ CHR '','' # join '','' (map write_field fs) @ NL # r"
      by simp
    then show ?thesis using Cons.IH Cons
      by (subst read_record.simps) (simp add: read_field_back field_end_def)
  qed
qed simp

end
