(* ===== verification/Web_Import.thy ===== *)
theory Web_Import
  imports Web_Devices Csv Store_Upstream
begin

text \<open>
  internal/web/export.go and import.go: the inventory as CSV, and devices created and completed from a
  CSV file, after a preview.
\<close>

section \<open>Export\<close>

record exportIface =
  xe_MAC :: "string option"
  xe_Hostname :: "string option"
  xe_IPs :: "export_ip list"

record exportDevice =
  xd_ID :: int
  xd_Name :: string
  xd_Kind :: string
  xd_Source :: string
  xd_Vendor :: string
  xd_Model :: string
  xd_Function :: string
  xd_Notes :: string
  xd_Tags :: "string list"
  xd_Online :: bool
  xd_LastSeen :: "stamp option"
  xd_Ifaces :: "exportIface list"

definition export_row :: "(int \<rightharpoonup> export_iface list) \<Rightarrow> device_view \<Rightarrow> exportDevice" where
  "export_row ifaces v = \<lparr>xd_ID = dev_ID v, xd_Name = dev_Name v, xd_Kind = dev_Kind v, xd_Source = dev_Source v,
     xd_Vendor = dev_Vendor v, xd_Model = dev_Model v, xd_Function = dev_Function v, xd_Notes = dev_Notes v,
     xd_Tags = dv_TagNames v, xd_Online = dv_Online v, xd_LastSeen = dv_LastSeen v,
     xd_Ifaces = map (\<lambda>f. \<lparr>xe_MAC = xi_MAC f, xe_Hostname = xi_Hostname f, xe_IPs = xi_IPs f\<rparr>)
       (case ifaces (dev_ID v) of None \<Rightarrow> [] | Some fs \<Rightarrow> fs)\<rparr>"

definition exportDevices :: "('s db_scheme, exportDevice list) act" where
  "exportDevices = bindA ListDevices (\<lambda>rows. bindA ListExportIfaces (\<lambda>ifaces. ret (map (export_row ifaces) rows)))"

definition csvHeader :: "string list" where
  "csvHeader = [''id'', ''name'', ''kind'', ''source'', ''mac'', ''ips'', ''tags'',
     ''notes'', ''vendor'', ''model'', ''function'', ''online'', ''last_seen'']"

definition csvListSep :: string where "csvListSep = '';''"

text \<open>The characters a spreadsheet takes for the start of a formula.\<close>

definition formula_char :: "char \<Rightarrow> bool" where
  "formula_char c \<longleftrightarrow> c \<in> {CHR ''='', CHR ''+'', CHR ''-'', CHR ''@'', CHR 0x09, CR}"

abbreviation APOSTROPHE :: char where "APOSTROPHE \<equiv> CHR 0x27"

definition csvCell :: "string \<Rightarrow> string" where
  "csvCell v = (if v \<noteq> [] \<and> formula_char (hd v) then APOSTROPHE # v else v)"

definition export_record :: "(stamp \<Rightarrow> string) \<Rightarrow> exportDevice \<Rightarrow> string list" where
  "export_record fmt d = map csvCell
     [string_of_int (xd_ID d), xd_Name d, xd_Kind d, xd_Source d,
      join csvListSep (List.map_filter xe_MAC (xd_Ifaces d)),
      join csvListSep (map xp_IP (concat (map xe_IPs (xd_Ifaces d)))),
      join csvListSep (xd_Tags d), xd_Notes d, xd_Vendor d, xd_Model d, xd_Function d,
      (if xd_Online d then ''true'' else ''false''),
      (case xd_LastSeen d of None \<Rightarrow> [] | Some t \<Rightarrow> fmt t)]"

definition export_csv :: "(stamp \<Rightarrow> string) \<Rightarrow> exportDevice list \<Rightarrow> string" where
  "export_csv fmt devs = concat (map write_record (csvHeader # map (export_record fmt) devs))"

definition exportFilename :: "string \<Rightarrow> string \<Rightarrow> string" where
  "exportFilename today ext = ''netis-devices-'' @ today @ ''.'' @ ext"

text \<open>\<open>today\<close> is today's date and \<open>fmt\<close> writes a timestamp of the database.\<close>

definition handleExportCSV :: "(stamp \<Rightarrow> string) \<Rightarrow> string \<Rightarrow> 's handler" where
  "handleExportCSV fmt today = orFail exportDevices (\<lambda>devs. answer (Download (exportFilename today ''csv'') (export_csv fmt devs)))"

section \<open>Reading an import\<close>

definition maxImportRows :: nat where "maxImportRows = 10000"

record importRow =
  im_line :: nat
  im_mac :: string
  im_rawMAC :: string
  im_extraMACs :: bool
  im_name :: string
  im_kind :: string
  im_ip :: string
  im_tags :: "string list"
  im_notes :: string
  im_vendor :: string
  im_model :: string
  im_function :: string

definition columnAliases :: "(string \<times> string) list" where
  "columnAliases = [(''mac'', ''mac''), (''macs'', ''mac''), (''mac address'', ''mac''),
     (''name'', ''name''), (''kind'', ''kind''),
     (''ip'', ''ip''), (''ips'', ''ip''), (''ip address'', ''ip''),
     (''tags'', ''tags''), (''notes'', ''notes''), (''vendor'', ''vendor''),
     (''model'', ''model''), (''function'', ''function'')]"

definition uncell :: "string \<Rightarrow> string" where
  "uncell v0 = (let v = trim_space v0 in
     if 1 < length v \<and> hd v = APOSTROPHE \<and> formula_char (v ! 1) then tl v else v)"

text \<open>The empty fields \<open>FieldsFunc\<close> drops are among those dropped for being blank.\<close>

definition splitList :: "string \<Rightarrow> string list" where
  "splitList v = filter (\<lambda>p. p \<noteq> [])
     (map trim_space (split_on CHR '';'' (map (\<lambda>c. if c = CHR '','' then CHR '';'' else c) v)))"

definition columns_of :: "string list \<Rightarrow> (string \<times> nat) list" where
  "columns_of header = fold (\<lambda>(i, h) col. case map_of columnAliases (to_lower (trim_space h)) of
       None \<Rightarrow> col
     | Some c \<Rightarrow> if map_of col c = None then col @ [(c, i)] else col)
     (enumerate 0 header) []"

definition cell :: "(string \<times> nat) list \<Rightarrow> string list \<Rightarrow> string \<Rightarrow> string" where
  "cell col rec c = (case map_of col c of None \<Rightarrow> [] | Some i \<Rightarrow> if i < length rec then uncell (rec ! i) else [])"

definition import_row :: "(string \<times> nat) list \<Rightarrow> nat \<Rightarrow> string list \<Rightarrow> importRow" where
  "import_row col line rec = (let get = cell col rec; ms = splitList (get ''mac''); ips = splitList (get ''ip'') in
     \<lparr>im_line = line,
      im_mac = (case ms of [] \<Rightarrow> [] | m # _ \<Rightarrow> (case normMAC m of None \<Rightarrow> [] | Some x \<Rightarrow> x)),
      im_rawMAC = (case ms of [] \<Rightarrow> [] | m # _ \<Rightarrow> m),
      im_extraMACs = (1 < length ms),
      im_name = get ''name'', im_kind = to_lower (get ''kind''),
      im_ip = (case ips of [] \<Rightarrow> [] | a # _ \<Rightarrow> a),
      im_tags = splitList (get ''tags''), im_notes = get ''notes'', im_vendor = get ''vendor'',
      im_model = get ''model'', im_function = get ''function''\<rparr>)"

text \<open>What the reader of encoding/csv says of a broken file is left out of the message.\<close>

definition not_csv :: string where "not_csv = ''not a CSV file''"

lemma csv_read_shorter: "csv_read n s = Record l fs m r \<Longrightarrow> length r < length s"
proof -
  assume "csv_read n s = Record l fs m r"
  then have "length r < length (dropWhile (\<lambda>c. c = NL) s)"
    by (auto simp: csv_read_def Let_def dest: read_record_shorter split: if_splits option.splits)
  then show ?thesis using length_dropWhile_le [of "\<lambda>c. c = NL" s] by linarith
qed

function parse_rows :: "(string \<times> nat) list \<Rightarrow> nat \<Rightarrow> string \<Rightarrow> importRow list \<Rightarrow> string + importRow list" where
  "parse_rows col line s rows = (case csv_read line s of
     Eof \<Rightarrow> Inr rows
   | Bad \<Rightarrow> Inl not_csv
   | Record at' rec next r \<Rightarrow>
       if trim_space (concat rec) = [] then parse_rows col next r rows
       else if length rows = maxImportRows
       then Inl (''more than '' @ string_of_nat maxImportRows @ '' rows; split the file'')
       else parse_rows col next r (rows @ [import_row col at' rec]))"
  by pat_completeness auto
termination
  by (relation "measure (\<lambda>(_, _, s, _). length s)") (auto dest: csv_read_shorter)

declare parse_rows.simps [simp del]

definition BOM :: string where "BOM = [CHR 0xEF, CHR 0xBB, CHR 0xBF]"

definition parseImport :: "string \<Rightarrow> string + importRow list" where
  "parseImport data0 = (let data = unix_lines (case cut_prefix BOM data0 of Some d \<Rightarrow> d | None \<Rightarrow> data0) in
     case csv_read 1 data of
       Eof \<Rightarrow> Inl ''the file is empty''
     | Bad \<Rightarrow> Inl not_csv
     | Record _ header next r \<Rightarrow> (let col = columns_of header in
         if map_of col ''mac'' = None then Inl ''the header has no mac column; devices are matched by MAC address''
         else parse_rows col next r []))"

section \<open>Planning\<close>

record importPlan =
  pl_row :: importRow
  pl_action :: string
  pl_deviceID :: int
  pl_name :: string
  pl_changes :: "string list"
  pl_err :: string
  pl_nd :: newDevice

definition no_newDevice :: newDevice where
  "no_newDevice = \<lparr>nd_dev = no_device, nd_mac = None, nd_subnetID = 0, nd_ip = []\<rparr>"

definition plan_of :: "importRow \<Rightarrow> importPlan" where
  "plan_of row = \<lparr>pl_row = row, pl_action = [], pl_deviceID = 0, pl_name = [], pl_changes = [], pl_err = [], pl_nd = no_newDevice\<rparr>"

definition arrow :: string where
  "arrow = '' '' @ [CHR 0xE2, CHR 0x86, CHR 0x92] @ '' ''"

text \<open>What is wrong with a row by itself; \<open>seen\<close> has the line of every MAC taken so far.\<close>

definition row_error :: "(string \<times> nat) list \<Rightarrow> importRow \<Rightarrow> string option" where
  "row_error seen row =
     (if im_rawMAC row = [] then Some ''no MAC address''
      else if im_mac row = [] then Some (''invalid MAC address '' @ quote (im_rawMAC row))
      else (case map_of seen (im_mac row) of
          Some n \<Rightarrow> Some (''MAC also on line '' @ string_of_nat n)
        | None \<Rightarrow>
            if im_kind row \<noteq> [] \<and> im_kind row \<notin> set validKinds then Some (''unknown kind '' @ quote (im_kind row))
            else if \<not> TagNamesFit (im_tags row) then Some tagNameMsg
            else None))"

definition row_device :: "importRow \<Rightarrow> device" where
  "row_device row = no_device\<lparr>dev_Name := im_name row, dev_Kind := (if im_kind row = [] then ''other'' else im_kind row),
     dev_Notes := im_notes row, dev_Source := ''manual'', dev_Vendor := im_vendor row, dev_Model := im_model row,
     dev_Function := im_function row\<rparr>"

definition planCreate :: "importPlan \<Rightarrow> ('s db_scheme, importPlan) act" where
  "planCreate p = (let row = pl_row p in
     bindA (if im_ip row \<noteq> [] then subnetContaining (im_ip row) else ret 0) (\<lambda>subnetID.
     bindA (checkNewDevice (row_device row) (im_mac row) (im_ip row) subnetID) (\<lambda>x. case x of
       Inl msg \<Rightarrow> ret (p\<lparr>pl_action := ''error'',
         pl_err := (if msg = chooseSubnetMsg then ''no configured subnet contains '' @ im_ip row
                    else if msg = ''name required'' then ''new device needs a name'' else msg)\<rparr>)
     | Inr nd \<Rightarrow> ret (p\<lparr>pl_action := ''create'', pl_nd := nd, pl_name := dev_Name (nd_dev nd),
         pl_changes := pl_changes p @ (if nd_ip nd \<noteq> [] then [''IP '' @ nd_ip nd] else []) @
           (if im_tags row \<noteq> [] then [''tags '' @ join '', '' (im_tags row)] else [])\<rparr>))))"

definition renames :: "importRow \<Rightarrow> device \<Rightarrow> string list" where
  "renames row d = (if ImportMayRename d
     then (if im_name row \<noteq> [] \<and> im_name row \<noteq> dev_Name d then [''name'' @ arrow @ im_name row] else []) @
          (if im_kind row \<noteq> [] \<and> im_kind row \<noteq> dev_Kind d then [''kind'' @ arrow @ im_kind row] else [])
     else [])"

definition fills :: "importRow \<Rightarrow> device \<Rightarrow> string list" where
  "fills row d = concat (map (\<lambda>(label, have, offer). if have = [] \<and> offer \<noteq> [] then [label @ arrow @ offer] else [])
     [(''notes'', dev_Notes d, im_notes row), (''vendor'', dev_Vendor d, im_vendor row),
      (''model'', dev_Model d, im_model row), (''function'', dev_Function d, im_function row)])"

definition new_tags :: "string list \<Rightarrow> tag list \<Rightarrow> string list" where
  "new_tags tags have = rev (fold (\<lambda>t out. if t \<in> tag_Name ` set have \<or> t \<in> set out then out else t # out) tags [])"

definition planUpdate :: "importPlan \<Rightarrow> int \<Rightarrow> ('s db_scheme, importPlan) act" where
  "planUpdate p deviceID = bindA (GetDevice deviceID) (\<lambda>d. let row = pl_row p in
     bindA (if im_tags row \<noteq> [] then bindA (DeviceTags (dev_ID d)) (\<lambda>have. ret (new_tags (im_tags row) have)) else ret [])
     (\<lambda>add. let changes = pl_changes p @ renames row d @ fills row d @
              (if add \<noteq> [] then [''add tags '' @ join '', '' add] else []) in
       ret (p\<lparr>pl_deviceID := dev_ID d, pl_name := dev_Name d, pl_changes := changes,
              pl_action := (if changes = [] then ''unchanged'' else ''update'')\<rparr>)))"

definition plan_row :: "importRow \<Rightarrow> ('s db_scheme, importPlan) act" where
  "plan_row row = bindA (FindIfaceByMAC (im_mac row)) (\<lambda>found.
     bindA (case found of Some f \<Rightarrow> planUpdate (plan_of row) (if_DeviceID f) | None \<Rightarrow> planCreate (plan_of row)) (\<lambda>p.
     ret (if im_extraMACs row \<and> pl_action p \<noteq> ''error''
          then p\<lparr>pl_changes := pl_changes p @ [''only the first MAC is used'']\<rparr> else p)))"

definition planImport :: "importRow list \<Rightarrow> ('s db_scheme, importPlan list) act" where
  "planImport rows = bindA (foldA (\<lambda>row (seen, plans). case row_error seen row of
       Some e \<Rightarrow> ret (seen, plans @ [(plan_of row)\<lparr>pl_action := ''error'', pl_err := e\<rparr>])
     | None \<Rightarrow> bindA (plan_row row) (\<lambda>p. ret ((im_mac row, im_line row) # seen, plans @ [p])))
     rows ([], [])) (\<lambda>(seen, plans). ret plans)"

section \<open>Carrying it out\<close>

definition fill_of :: "importRow \<Rightarrow> device_fill" where
  "fill_of row = \<lparr>fl_Name = im_name row, fl_Kind = im_kind row, fl_Notes = im_notes row, fl_Vendor = im_vendor row,
     fl_Model = im_model row, fl_Function = im_function row\<rparr>"

definition apply_plan :: "importPlan \<Rightarrow> ('s db_scheme, importPlan) act" where
  "apply_plan p = (let nd = pl_nd p in
     if pl_action p = ''create''
     then bindA (attempt (CreateDeviceWithIface (nd_dev nd) (nd_mac nd) (nd_subnetID nd) (nd_ip nd) ''static'')) (\<lambda>x. case x of
         Inl e \<Rightarrow> (case writeFailure e macTakenMsg [] of
             Some (_, msg) \<Rightarrow> ret (p\<lparr>pl_action := ''error'', pl_err := msg\<rparr>)
           | None \<Rightarrow> fail e)
       | Inr i \<Rightarrow> thenA (SetDeviceTags i (im_tags (pl_row p))) (ret (p\<lparr>pl_deviceID := i\<rparr>)))
     else if pl_action p = ''update''
     then thenA (FillDevice (pl_deviceID p) (fill_of (pl_row p)))
            (thenA (AddDeviceTags (pl_deviceID p) (im_tags (pl_row p))) (ret p))
     else ret p)"

definition applyImport :: "importPlan list \<Rightarrow> ('s db_scheme, importPlan list) act" where
  "applyImport plans = foldA (\<lambda>p out. bindA (apply_plan p) (\<lambda>q. ret (out @ [q]))) plans []"

definition importDetail :: "importPlan \<Rightarrow> string" where
  "importDetail p = (if pl_err p \<noteq> [] then pl_err p else join ''; '' (pl_changes p))"

definition import_line :: "importPlan \<Rightarrow> nat \<times> string \<times> string \<times> string" where
  "import_line p = (let row = pl_row p in
     (im_line row, (if im_mac row = [] then im_rawMAC row else im_mac row), pl_action p, importDetail p))"

text \<open>The upload, where there is one, or the text the preview posts back.\<close>

definition import_data :: "string option \<Rightarrow> request \<Rightarrow> string" where
  "import_data file r = (case file of
     Some b \<Rightarrow> if trim_space b \<noteq> [] then b else rq_Form r ''csv'' | None \<Rightarrow> rq_Form r ''csv'')"

text \<open>\<open>file\<close> is the uploaded file: none, its text, or a failure to read it.\<close>

definition handleImport :: "(error + string) option \<Rightarrow> request \<Rightarrow> 's handler" where
  "handleImport file r = (case file of
     Some (Inl _) \<Rightarrow> answer serverError
   | _ \<Rightarrow> (let data = import_data (case file of Some (Inr b) \<Rightarrow> Some b | _ \<Rightarrow> None) r in
       if trim_space data = [] then answer (ImportPage 400 ''choose a CSV file to import'' [])
       else (case parseImport data of
         Inl e \<Rightarrow> answer (ImportPage 400 e [])
       | Inr rows \<Rightarrow> orFail (planImport rows) (\<lambda>plans.
           let n = (\<lambda>what. no_note\<lparr>nt_Detail := what @ string_of_nat (length plans) @ '' rows''\<rparr>) in
           if rq_Form r ''commit'' = ''1''
           then bindA (attempt (applyImport plans)) (\<lambda>x. case x of
               Inl _ \<Rightarrow> ret (serverError, n ''applied '')
             | Inr done \<Rightarrow> ret (ImportPage 200 [] (map import_line done), n ''applied ''))
           else ret (ImportPage 200 [] (map import_line plans), n ''preview, '')))))"

section \<open>A preview changes nothing\<close>

lemma check_reads [pres_intros]: "keeps (\<lambda>s. J (tabs s)) (checkNewDevice dev mac ip sid)"
  unfolding checkNewDevice_def GetSubnet_def by (intro pres_intros)

lemma plan_reads [pres_intros]: "keeps (\<lambda>s. J (tabs s)) (planImport rows)"
  unfolding planImport_def plan_row_def planUpdate_def planCreate_def FindIfaceByMAC_def GetDevice_def DeviceTags_def
    subnetContaining_def ListSubnets_def Let_def
  by (intro pres_intros)

text \<open>
  C28: Until it is committed an import writes nothing, whatever the file says.
\<close>

theorem preview_changes_nothing:
  "if rq_Form r ''commit'' = ''1'' then True else tabs (snd (handleImport file r s)) = tabs s"
proof (cases "rq_Form r ''commit'' = ''1''")
  case False
  have "keeps (\<lambda>s'. tabs s' = tabs s) (handleImport file r)"
    unfolding handleImport_def orFail_def answer_def Let_def if_not_P [OF False]
    by (intro pres_intros plan_reads [where J = "\<lambda>t. t = tabs s"])
  from keepsD [OF this, of s] False show ?thesis by simp
qed simp

section \<open>An import takes nothing away\<close>

definition filled_in :: "string \<Rightarrow> string \<Rightarrow> bool" where
  "filled_in old new \<longleftrightarrow> old = [] \<or> new = old"

text \<open>A device after an import: what it had it has, and only a scan's own guess is replaced.\<close>

definition enriched :: "device_row \<Rightarrow> device_row \<Rightarrow> bool" where
  "enriched d d' \<longleftrightarrow>
     filled_in (dev_Notes d) (dev_Notes d') \<and> filled_in (dev_Vendor d) (dev_Vendor d') \<and>
     filled_in (dev_Model d) (dev_Model d') \<and> filled_in (dev_Function d) (dev_Function d') \<and>
     (if ImportMayRename d then True else dev_Name d' = dev_Name d \<and> dev_Kind d' = dev_Kind d) \<and>
     d' = d\<lparr>dev_Name := dev_Name d', dev_Kind := dev_Kind d', dev_Notes := dev_Notes d', dev_Vendor := dev_Vendor d',
            dev_Model := dev_Model d', dev_Function := dev_Function d'\<rparr>"

definition keeps_all :: "tables \<Rightarrow> tables \<Rightarrow> bool" where
  "keeps_all t t' \<longleftrightarrow>
     list_all2 enriched (t_device t) (take (length (t_device t)) (t_device t')) \<and>
     prefix (t_iface t) (t_iface t') \<and> prefix (t_ip t) (t_ip t') \<and> prefix (t_tag t) (t_tag t') \<and>
     (\<forall>(d, g) \<in> set (t_device_tag t). d \<in> set (dev_ids t) \<longrightarrow> (d, g) \<in> set (t_device_tag t')) \<and>
     t' = t\<lparr>t_device := t_device t', t_iface := t_iface t', t_ip := t_ip t', t_tag := t_tag t', t_device_tag := t_device_tag t'\<rparr>"

lemma filled_in_trans: "filled_in a b \<Longrightarrow> filled_in b c \<Longrightarrow> filled_in a c"
  by (auto simp: filled_in_def)

lemma enriched_refl [simp]: "enriched d d"
  by (simp add: enriched_def filled_in_def)

lemma enriched_cols:
  assumes "enriched d d'"
  shows "dev_ID d' = dev_ID d" "dev_Source d' = dev_Source d" "dev_Reviewed d' = dev_Reviewed d"
  using assms by (cases d, cases d', simp add: enriched_def)+

lemma enriched_trans: "enriched a b \<Longrightarrow> enriched b c \<Longrightarrow> enriched a c"
  by (cases a, cases b, cases c)
    (auto simp: enriched_def ImportMayRename_def split: if_splits elim: filled_in_trans)

lemma filled_enriched: "enriched d (filled f d)"
  by (cases d) (auto simp: enriched_def filled_def filled_in_def ImportMayRename_def)

lemma keeps_all_refl: "keeps_all t t"
  by (auto simp: keeps_all_def list_all2_same)

lemma take_upd_where: "take n (upd_where P f xs) = upd_where P f (take n xs)"
  by (simp add: upd_where_def take_map)

lemma enriched_again:
  "list_all2 enriched xs ys \<Longrightarrow> list_all2 enriched xs (upd_where P (filled f) ys)"
  by (auto simp: upd_where_def list_all2_conv_all_nth intro: enriched_trans [OF _ filled_enriched])

lemma keeps_fill: "keeps_all t0 t \<Longrightarrow> keeps_all t0 (t\<lparr>t_device := upd_where P (filled f) (t_device t)\<rparr>)"
  by (cases t0, cases t) (auto simp: keeps_all_def take_upd_where enriched_again)

lemma keeps_longer:
  assumes "keeps_all t0 t" and "length (t_device t0) \<le> length (t_device t)"
  shows "keeps_all t0 (t\<lparr>t_device := t_device t @ ds, t_iface := t_iface t @ fs, t_ip := t_ip t @ as\<rparr>)"
  using assms by (cases t0, cases t) (auto simp: keeps_all_def)

lemma keeps_length: "keeps_all t0 t \<Longrightarrow> length (t_device t0) \<le> length (t_device t)"
  by (auto simp: keeps_all_def dest: list_all2_lengthD)

lemma keeps_ids: "keeps_all t0 t \<Longrightarrow> set (dev_ids t0) \<subseteq> set (dev_ids t)"
proof -
  assume "keeps_all t0 t"
  then have "list_all2 enriched (t_device t0) (take (length (t_device t0)) (t_device t))" by (simp add: keeps_all_def)
  then have "list_all2 (\<lambda>d d'. dev_ID d = dev_ID d') (t_device t0) (take (length (t_device t0)) (t_device t))"
    by (rule list_all2_mono) (simp add: enriched_cols)
  then have "map dev_ID (t_device t0) = map dev_ID (take (length (t_device t0)) (t_device t))"
    by (simp add: list_all2_map1 list_all2_map2 list_all2_eq)
  then show ?thesis unfolding dev_ids_def by (metis set_map set_take_subset image_mono)
qed

lemma keeps_tag_edit:
  assumes "keeps_all t0 t"
  shows "keeps_all t0 (t\<lparr>t_device_tag := t_device_tag t @ xs\<rparr>)" "keeps_all t0 (t\<lparr>t_tag := t_tag t @ gs\<rparr>)"
    "i \<notin> set (dev_ids t0) \<Longrightarrow> keeps_all t0 (t\<lparr>t_device_tag := del_where (\<lambda>x. x = (i, g)) (t_device_tag t)\<rparr>)"
  using assms by (cases t0, cases t, auto simp: keeps_all_def del_where_def)+

lemma device_creation:
  fixes s s' :: "'s db_scheme"
  assumes "CreateDeviceWithIface d mac sid ip kind s = (Inr i, s')"
  shows "i \<notin> set (dev_ids (tabs s)) \<and> (\<exists>ds. t_device (tabs s') = t_device (tabs s) @ ds) \<and>
    (\<exists>fs. t_iface (tabs s') = t_iface (tabs s) @ fs) \<and> (\<exists>as. t_ip (tabs s') = t_ip (tabs s) @ as) \<and>
    tabs s' = (tabs s)\<lparr>t_device := t_device (tabs s'), t_iface := t_iface (tabs s'), t_ip := t_ip (tabs s')\<rparr>"
  using assms unfolding CreateDeviceWithIface_def insertDeviceOn_def
  by (auto elim!: withTx_InrE bindA_InrE dest!: stmt_InrD ins_deviceD ins_ifaceD ins_ipD split: if_splits)

lemma create_keeps:
  fixes s s' :: "'s db_scheme"
  assumes k: "keeps_all t0 (tabs s)" and run: "CreateDeviceWithIface d mac sid ip kind s = (x, s')"
  shows "keeps_all t0 (tabs s') \<and> (case x of Inl _ \<Rightarrow> True | Inr i \<Rightarrow> i \<notin> set (dev_ids t0))"
proof (cases x)
  case (Inl e)
  then have "tabs s' = tabs s" using run withTx_InlD unfolding CreateDeviceWithIface_def by blast
  with Inl k show ?thesis by simp
next
  case (Inr i)
  from device_creation [OF run [unfolded Inr]] obtain ds fs as where new: "i \<notin> set (dev_ids (tabs s))"
    and "tabs s' = (tabs s)\<lparr>t_device := t_device (tabs s) @ ds, t_iface := t_iface (tabs s) @ fs, t_ip := t_ip (tabs s) @ as\<rparr>"
    by auto
  then show ?thesis using keeps_longer [OF k keeps_length [OF k]] keeps_ids [OF k] Inr by auto
qed

lemma keeps_new_tag:
  "keeps_all t0 t \<Longrightarrow> keeps_all t0 (snd (ins_tag_new n c t))"
  by (auto simp: ins_tag_new_def ins_tag_def Let_def keeps_tag_edit split: sum.splits if_splits)

lemma tagging_keeps:
  shows "keeps (\<lambda>s. keeps_all t0 (tabs s)) (findOrCreateTagOn n)"
    "keeps (\<lambda>s. keeps_all t0 (tabs s)) (stmt (ins_device_tag d g))"
    "i \<notin> set (dev_ids t0) \<Longrightarrow> keeps (\<lambda>s. keeps_all t0 (tabs s)) (exec (del_device_tag i g))"
    "keeps (\<lambda>s. keeps_all t0 (tabs s)) (FillDevice d f)"
  unfolding findOrCreateTagOn_def FillDevice_def
  by (intro pres_intros keeps_stmt keeps_exec;
    auto simp: keeps_new_tag keeps_tag_edit keeps_fill ins_device_tag_def del_device_tag_def split: if_splits)+

lemma tags_added_keep:
  "keeps (\<lambda>s. keeps_all t0 (tabs s)) (AddDeviceTags d ns)"
  unfolding AddDeviceTags_def Let_def by (intro pres_intros tagging_keeps)

lemma tags_set_keep:
  "i \<notin> set (dev_ids t0) \<Longrightarrow> keeps (\<lambda>s. keeps_all t0 (tabs s)) (SetDeviceTags i ns)"
  unfolding SetDeviceTags_def DeviceTags_def Let_def by (intro pres_intros tagging_keeps)

lemma plan_keeps:
  "keeps (\<lambda>s. keeps_all t0 (tabs s)) (apply_plan p)"
proof (rule keepsI)
  fix s :: "'a db_scheme" assume k: "keeps_all t0 (tabs s)"
  let ?mk = "CreateDeviceWithIface (nd_dev (pl_nd p)) (nd_mac (pl_nd p)) (nd_subnetID (pl_nd p)) (nd_ip (pl_nd p)) ''static''
    :: ('a db_scheme, int) act"
  obtain x s1 where mk: "?mk s = (x, s1)" by (cases "?mk s")
  note made = create_keeps [OF k mk]
  have "keeps_all t0 (tabs (snd ((case x of
         Inl e \<Rightarrow> (case writeFailure e macTakenMsg [] of
             Some (_, msg) \<Rightarrow> ret (p\<lparr>pl_action := ''error'', pl_err := msg\<rparr>)
           | None \<Rightarrow> fail e)
       | Inr i \<Rightarrow> thenA (SetDeviceTags i (im_tags (pl_row p))) (ret (p\<lparr>pl_deviceID := i\<rparr>))) s1)))"
  proof (cases x)
    case (Inr i)
    have "keeps (\<lambda>s :: 'a db_scheme. keeps_all t0 (tabs s)) (thenA (SetDeviceTags i (im_tags (pl_row p))) (ret (p\<lparr>pl_deviceID := i\<rparr>)))"
      using made Inr by (intro pres_intros tags_set_keep) simp
    from keepsD [OF this] made Inr show ?thesis by simp
  qed (use made in \<open>auto split: option.splits\<close>)
  moreover have "keeps (\<lambda>s :: 'a db_scheme. keeps_all t0 (tabs s)) (thenA (FillDevice (pl_deviceID p) (fill_of (pl_row p)))
            (thenA (AddDeviceTags (pl_deviceID p) (im_tags (pl_row p))) (ret p)))"
    by (intro pres_intros tagging_keeps tags_added_keep)
  ultimately show "keeps_all t0 (tabs (snd (apply_plan p s)))"
    using keepsD k mk by (auto simp: apply_plan_def Let_def bindA_def attempt_def)
qed

text \<open>
  C29: An import takes nothing away. Whatever the file and however the statements fault: every device
  keeps what it had, save the name and kind of one a scan found and nobody has reviewed; every
  interface, address, tag and tagging is still there.
\<close>

theorem import_never_clobbers:
  "keeps_all (tabs s) (tabs (snd (handleImport file r s)))"
proof -
  have "keeps (\<lambda>s'. keeps_all (tabs s) (tabs s')) (handleImport file r)"
    unfolding handleImport_def orFail_def answer_def applyImport_def Let_def by (intro pres_intros plan_keeps)
  from keepsD [OF this keeps_all_refl] show ?thesis .
qed

end
