(* ===== verification/Text_Facts.thy ===== *)
theory Text_Facts
  imports GoStr
begin

text \<open>
  Facts about the functions of strings and strconv that several components share: what trimming leaves
  alone, lists joined and split again, and numbers written and read back.
\<close>

section \<open>Trimming\<close>

lemma trim_space_length: "length (trim_space v) \<le> length (dropWhile is_space v)"
  unfolding trim_space_def trim_left_def trim_right_def
  by (metis length_dropWhile_le length_rev)

lemma trim_space_ends: "trim_space v = v \<longleftrightarrow> v = [] \<or> (\<not> is_space (hd v) \<and> \<not> is_space (last v))"
proof
  assume same: "trim_space v = v"
  have first: "\<not> is_space (hd v)" if "v \<noteq> []"
  proof
    assume "is_space (hd v)"
    then have "length (dropWhile is_space v) < length v"
      using that length_dropWhile_le [of is_space "tl v"] by (cases v) auto
    with trim_space_length [of v] same show False by simp
  qed
  have "\<not> is_space (last v)" if "v \<noteq> []"
  proof
    assume sp: "is_space (last v)"
    have "dropWhile is_space v = v" using first that by (cases v) auto
    then have "rev (dropWhile is_space (rev v)) = v"
      using same by (simp add: trim_space_def trim_left_def trim_right_def)
    moreover have "length (dropWhile is_space (rev v)) < length (rev v)"
      using that sp length_dropWhile_le [of is_space "tl (rev v)"] by (cases v rule: rev_cases) auto
    ultimately show False by (metis length_rev less_irrefl)
  qed
  with first show "v = [] \<or> (\<not> is_space (hd v) \<and> \<not> is_space (last v))" by blast
next
  assume ends: "v = [] \<or> (\<not> is_space (hd v) \<and> \<not> is_space (last v))"
  have stay: "dropWhile is_space xs = xs" if "xs = [] \<or> \<not> is_space (hd xs)" for xs
    using that by (cases xs) auto
  have "dropWhile is_space v = v" by (rule stay) (use ends in blast)
  moreover have "dropWhile is_space (rev v) = rev v" by (rule stay) (use ends in \<open>auto simp: hd_rev\<close>)
  ultimately show "trim_space v = v"
    by (simp only: trim_space_def trim_left_def trim_right_def rev_rev_ident)
qed

lemma trim_trim: "trim_space (trim_space s) = trim_space s"
proof (cases "trim_space s = []")
  case False
  let ?l = "dropWhile is_space s"
  have t: "trim_space s = rev (dropWhile is_space (rev ?l))" by (simp add: trim_space_def trim_left_def trim_right_def)
  have ne: "dropWhile is_space (rev ?l) \<noteq> []" using False t by auto
  have "last (trim_space s) = hd (dropWhile is_space (rev ?l))" by (simp add: t last_rev)
  then have "\<not> is_space (last (trim_space s))" using hd_dropWhile [OF ne] by simp
  moreover have l: "?l \<noteq> []" using ne by (metis dropWhile.simps(1) rev.simps(1))
  have "\<exists>zs. ?l = trim_space s @ zs"
    using takeWhile_dropWhile_id [of is_space "rev ?l"] unfolding t by (metis rev_append rev_rev_ident)
  then have "hd (trim_space s) = hd ?l" using False by (metis hd_append2)
  then have "\<not> is_space (hd (trim_space s))" using hd_dropWhile [OF l] by simp
  ultimately show ?thesis by (simp add: trim_space_ends)
qed (simp add: trim_space_ends)

section \<open>Joining and splitting\<close>

lemma split_join: "vs \<noteq> [] \<Longrightarrow> \<forall>v \<in> set vs. c \<notin> set v \<Longrightarrow> split_on c (join [c] vs) = vs"
proof (induction vs)
  case (Cons v vs)
  then show ?case by (cases vs) (auto simp: split_on_no_sep split_on_append)
qed simp

lemma join_chars_in: "c \<in> set (join sep vs) \<Longrightarrow> c \<in> set sep \<or> (\<exists>v \<in> set vs. c \<in> set v)"
  by (induction sep vs rule: join.induct) auto

lemma cut_here: "c \<notin> set s \<Longrightarrow> cut c (s @ c # t) = (s, t, True)"
  by (induction s) (auto simp: cut_def)

section \<open>Numbers\<close>

lemma string_of_int_chars: "c \<in> set (string_of_int i) \<Longrightarrow> is_digit c \<or> c = CHR ''-''"
  by (auto simp: string_of_int_def string_of_nat_chars split: if_splits)

lemma atoi_bound: "atoi s = Some i \<Longrightarrow> i < 2 ^ 63"
  by (auto simp: atoi_def Let_def split: option.splits if_splits prod.splits)

lemma atoi_back: "0 \<le> i \<Longrightarrow> i < 2 ^ 63 \<Longrightarrow> atoi (string_of_int i) = Some i"
proof -
  assume i: "0 \<le> i" "i < 2 ^ 63"
  obtain c cs where s: "string_of_nat (nat i) = c # cs" by (cases "string_of_nat (nat i)") auto
  then have "is_digit c" using string_of_nat_chars [of c "nat i"] by simp
  moreover have "\<not> is_digit CHR ''-''" "\<not> is_digit CHR ''+''" by code_simp+
  ultimately have "c \<noteq> CHR ''-''" "c \<noteq> CHR ''+''" by auto
  moreover have "parse_nat (c # cs) = Some (nat i)" using parse_nat_string_of_nat [of "nat i"] s by simp
  ultimately show ?thesis using i s by (simp add: atoi_def string_of_int_def)
qed

lemma string_of_int_inj: "string_of_int i = string_of_int j \<longleftrightarrow> i = j"
proof -
  let ?undo = "\<lambda>s. if hd s = CHR ''-'' then - int (the (parse_nat (tl s))) else int (the (parse_nat s))"
  have "?undo (string_of_int i) = i" for i
  proof (cases "i < 0")
    case False
    have "\<not> is_digit CHR ''-''" by code_simp
    moreover have "hd (string_of_nat (nat i)) \<in> set (string_of_nat (nat i))" by simp
    ultimately have "hd (string_of_nat (nat i)) \<noteq> CHR ''-''" using string_of_nat_chars by metis
    with False show ?thesis by (simp add: string_of_int_def)
  qed (simp add: string_of_int_def)
  then show ?thesis by metis
qed

end
