(* ===== verification/Csv_Roundtrip.thy ===== *)
theory Csv_Roundtrip
  imports Web_Import Text_Facts
begin

text \<open>
  The export of internal/web/export.go read by the import of internal/web/import.go: the file it
  writes says again what it was written from.
\<close>

section \<open>Text that travels\<close>

text \<open>A text that neither reader trims, and that does not already look like a guarded formula.\<close>

definition tidy :: "string \<Rightarrow> bool" where
  "tidy v \<longleftrightarrow> trim_space v = v \<and> CR \<notin> set v \<and> \<not> (1 < length v \<and> hd v = APOSTROPHE \<and> formula_char (v ! 1))"

text \<open>One entry of a list in a cell.\<close>

definition plain_item :: "string \<Rightarrow> bool" where
  "plain_item v \<longleftrightarrow> v \<noteq> [] \<and> trim_space v = v \<and> CHR '';'' \<notin> set v \<and> CHR '','' \<notin> set v"

definition plain_list :: "string list \<Rightarrow> bool" where
  "plain_list vs \<longleftrightarrow> list_all plain_item vs \<and> tidy (join csvListSep vs)"

lemma not_spaces:
  "\<not> is_space APOSTROPHE" "\<not> is_space CHR '';''"
  by (simp_all add: is_space_def less_eq_char_def)

lemma uncell_csvCell: "tidy v \<Longrightarrow> uncell (csvCell v) = v"
proof (cases "v \<noteq> [] \<and> formula_char (hd v)")
  case True
  moreover assume "tidy v"
  ultimately have "trim_space (APOSTROPHE # v) = APOSTROPHE # v"
    using trim_space_ends [of v] trim_space_ends [of "APOSTROPHE # v"] not_spaces by (auto simp: tidy_def)
  then show ?thesis using True by (cases v) (auto simp: uncell_def csvCell_def Let_def)
next
  case False
  then have "csvCell v = v" by (simp add: csvCell_def)
  moreover assume "tidy v"
  ultimately show ?thesis by (auto simp: uncell_def Let_def tidy_def)
qed

lemma no_commas: "CHR '','' \<notin> set v \<Longrightarrow> map (\<lambda>c. if c = CHR '','' then CHR '';'' else c) v = v"
  by (induction v) auto

lemma splitList_join:
  assumes "list_all plain_item vs"
  shows "splitList (join csvListSep vs) = vs"
proof (cases "vs = []")
  case True
  then show ?thesis by (simp add: splitList_def trim_space_def trim_left_def trim_right_def)
next
  case False
  have "CHR '','' \<notin> set (join csvListSep vs)"
    using assms join_chars_in [of "CHR '',''" csvListSep vs] by (auto simp: plain_item_def list_all_iff csvListSep_def)
  moreover have "split_on CHR '';'' (join '';'' vs) = vs"
    using assms False by (intro split_join) (auto simp: plain_item_def list_all_iff)
  moreover have "map trim_space vs = vs" "filter (\<lambda>p. p \<noteq> []) vs = vs"
    using assms by (auto simp: plain_item_def list_all_iff map_idI filter_id_conv)
  ultimately show ?thesis using False
    by (simp add: splitList_def no_commas csvListSep_def)
qed

section \<open>The file\<close>

lemma unix_lines_id: "CR \<notin> set s \<Longrightarrow> unix_lines s = s"
  by (induction s rule: unix_lines.induct) auto

lemma write_field_chars: "c \<in> set (write_field f) \<Longrightarrow> c \<in> set f \<or> c = QUOTE"
  by (auto simp: write_field_def split: if_splits)

lemma write_record_chars:
  "c \<in> set (write_record fs) \<Longrightarrow> c \<in> {CHR '','', QUOTE, NL} \<or> (\<exists>f \<in> set fs. c \<in> set f)"
  using join_chars_in [of c "'',''" "map write_field fs"] write_field_chars by (auto simp: write_record_def)

lemma write_record_starts:
  "f \<noteq> [] \<Longrightarrow> write_record (f # fs) \<noteq> [] \<and> hd (write_record (f # fs)) \<noteq> NL"
proof -
  assume f: "f \<noteq> []"
  then have "write_field f \<noteq> [] \<and> hd (write_field f) \<noteq> NL"
    by (cases f) (auto simp: write_field_def fieldNeedsQuotes_def)
  then show ?thesis by (cases fs) (auto simp: write_record_def)
qed

lemma csv_read_written:
  assumes "f \<noteq> []"
  shows "\<exists>next. csv_read n (write_record (f # fs) @ r) = Record n (f # fs) next r"
proof -
  let ?w = "write_record (f # fs) @ r"
  have "dropWhile (\<lambda>c. c = NL) ?w = ?w" "?w \<noteq> []"
    using write_record_starts [OF assms, of fs] by (cases "write_record (f # fs)"; simp)+
  moreover have "read_record ?w = Some (f # fs, r)"
    using read_record_back [of "f # fs" r] by (simp add: write_record_def)
  ultimately show ?thesis by (simp add: csv_read_def Let_def)
qed

lemma csv_read_end: "csv_read n [] = Eof"
  by (simp add: csv_read_def)

lemma parse_written:
  assumes "list_all (\<lambda>rec. rec \<noteq> [] \<and> hd rec \<noteq> [] \<and> trim_space (concat rec) \<noteq> []) recs"
    and "length rows + length recs \<le> maxImportRows"
  shows "\<exists>ls. length ls = length recs \<and>
    parse_rows col n (concat (map write_record recs)) rows = Inr (rows @ map2 (import_row col) ls recs)"
  using assms
proof (induction recs arbitrary: n rows)
  case Nil
  then show ?case by (simp add: parse_rows.simps csv_read_end)
next
  case (Cons rec recs)
  then obtain f fs where rec: "rec = f # fs" "f \<noteq> []" "trim_space (concat rec) \<noteq> []" by (cases rec) auto
  then obtain next' where read: "csv_read n (write_record rec @ concat (map write_record recs))
      = Record n rec next' (concat (map write_record recs))"
    using csv_read_written by blast
  obtain ls where ls: "length ls = length recs" "parse_rows col next' (concat (map write_record recs)) (rows @ [import_row col n rec])
      = Inr ((rows @ [import_row col n rec]) @ map2 (import_row col) ls recs)"
    using Cons.IH [of "rows @ [import_row col n rec]" next'] Cons.prems by auto
  have "parse_rows col n (concat (map write_record (rec # recs))) rows = Inr (rows @ map2 (import_row col) (n # ls) (rec # recs))"
    using ls rec(3) Cons.prems(2) by (subst parse_rows.simps) (simp add: read)
  then show ?case using ls(1) by (metis length_Cons)
qed

section \<open>The round trip\<close>

text \<open>What an import takes from the row of a device.\<close>

definition macs_of :: "exportDevice \<Rightarrow> string list" where
  "macs_of d = List.map_filter xe_MAC (xd_Ifaces d)"

definition ips_of :: "exportDevice \<Rightarrow> string list" where
  "ips_of d = map xp_IP (concat (map xe_IPs (xd_Ifaces d)))"

definition travels :: "(stamp \<Rightarrow> string) \<Rightarrow> exportDevice \<Rightarrow> bool" where
  "travels fmt d \<longleftrightarrow>
     list_all tidy [xd_Name d, xd_Notes d, xd_Vendor d, xd_Model d, xd_Function d] \<and>
     list_all plain_list [macs_of d, ips_of d, xd_Tags d] \<and>
     xd_Kind d \<in> set validKinds \<and> CR \<notin> set (xd_Source d) \<and>
     (case xd_LastSeen d of None \<Rightarrow> True | Some t \<Rightarrow> CR \<notin> set (fmt t))"

definition first :: "string list \<Rightarrow> string" where
  "first vs = (case vs of [] \<Rightarrow> [] | v # _ \<Rightarrow> v)"

definition says :: "exportDevice \<Rightarrow> importRow \<Rightarrow> bool" where
  "says d r \<longleftrightarrow>
     im_rawMAC r = first (macs_of d) \<and> im_extraMACs r = (1 < length (macs_of d)) \<and>
     im_name r = xd_Name d \<and> im_kind r = xd_Kind d \<and> im_ip r = first (ips_of d) \<and> im_tags r = xd_Tags d \<and>
     im_notes r = xd_Notes d \<and> im_vendor r = xd_Vendor d \<and> im_model r = xd_Model d \<and> im_function r = xd_Function d"

lemma export_columns:
  "columns_of csvHeader = [(''name'', 1), (''kind'', 2), (''mac'', 4), (''ip'', 5), (''tags'', 6),
     (''notes'', 7), (''vendor'', 8), (''model'', 9), (''function'', 10)]"
  by code_simp

lemma kind_travels: "k \<in> set validKinds \<Longrightarrow> tidy k \<and> to_lower k = k"
proof -
  have "list_all (\<lambda>k. tidy k \<and> to_lower k = k) validKinds" by code_simp
  then show "k \<in> set validKinds \<Longrightarrow> tidy k \<and> to_lower k = k" by (simp add: list_all_iff)
qed

lemma row_says:
  assumes "travels fmt d"
  shows "says d (import_row (columns_of csvHeader) n (export_record fmt d))"
proof -
  let ?rec = "export_record fmt d"
  have cells: "cell (columns_of csvHeader) ?rec ''name'' = xd_Name d"
    "cell (columns_of csvHeader) ?rec ''kind'' = xd_Kind d"
    "cell (columns_of csvHeader) ?rec ''mac'' = join csvListSep (macs_of d)"
    "cell (columns_of csvHeader) ?rec ''ip'' = join csvListSep (ips_of d)"
    "cell (columns_of csvHeader) ?rec ''tags'' = join csvListSep (xd_Tags d)"
    "cell (columns_of csvHeader) ?rec ''notes'' = xd_Notes d"
    "cell (columns_of csvHeader) ?rec ''vendor'' = xd_Vendor d"
    "cell (columns_of csvHeader) ?rec ''model'' = xd_Model d"
    "cell (columns_of csvHeader) ?rec ''function'' = xd_Function d"
    using assms kind_travels [of "xd_Kind d"]
    by (simp_all add: cell_def export_columns export_record_def travels_def plain_list_def uncell_csvCell macs_of_def ips_of_def)
  have lists: "splitList (join csvListSep vs) = vs" if "vs \<in> {macs_of d, ips_of d, xd_Tags d}" for vs
    using assms that splitList_join by (auto simp: travels_def plain_list_def)
  show ?thesis using assms kind_travels [of "xd_Kind d"]
    by (simp add: says_def import_row_def Let_def cells lists first_def travels_def)
qed

lemma csvCell_chars: "c \<in> set (csvCell v) \<Longrightarrow> c \<in> set v \<or> c = APOSTROPHE"
  by (auto simp: csvCell_def split: if_splits)

lemma record_no_CR:
  assumes "travels fmt d" and "f \<in> set (export_record fmt d)"
  shows "CR \<notin> set f"
proof -
  have "\<not> is_digit CR" by (simp add: is_digit_def less_eq_char_def)
  then have id: "CR \<notin> set (string_of_int (xd_ID d))" using string_of_int_chars by fastforce
  have kind: "CR \<notin> set (xd_Kind d)" using assms(1) kind_travels by (simp add: travels_def tidy_def)
  have cell: "CR \<notin> set (csvCell v)" if "CR \<notin> set v" for v using that csvCell_chars [of CR v] by auto
  have "list_all (\<lambda>f. CR \<notin> set f) (export_record fmt d)"
    using assms(1) id kind unfolding export_record_def travels_def plain_list_def tidy_def macs_of_def ips_of_def
    by (simp add: cell split: option.splits)
  then show ?thesis using assms(2) by (simp add: list_all_iff)
qed

lemma id_not_blank: "trim_space (csvCell (string_of_int i) @ s) \<noteq> [] \<and> csvCell (string_of_int i) \<noteq> []"
proof -
  have "\<not> is_space c" if "is_digit c" for c using that by (auto simp: is_digit_def is_space_def less_eq_char_def)
  moreover have "\<not> is_space CHR ''-''" by (simp add: is_space_def less_eq_char_def)
  moreover have ne: "string_of_int i \<noteq> []" by (simp add: string_of_int_def)
  ultimately have "\<not> is_space (hd (string_of_int i))" using string_of_int_chars hd_in_set by metis
  with ne show ?thesis using not_spaces by (cases "string_of_int i") (auto simp: trim_space_Nil csvCell_def)
qed


section \<open>Two corners\<close>

text \<open>
  A text that itself begins with an apostrophe and a formula character loses the apostrophe: the
  export leaves it as it is, and the import takes the apostrophe for the export's own.
\<close>

lemma uncell_not_inverse: "uncell (csvCell (APOSTROPHE # ''=x'')) = ''=x''"
  by code_simp

text \<open>
  The preview compares the tags of a device by their exact spelling, but the import attaches the tag of
  any spelling: the preview announces an update that changes nothing.
\<close>

definition respelled :: importRow where
  "respelled = \<lparr>im_line = 2, im_mac = [], im_rawMAC = [], im_extraMACs = False, im_name = [], im_kind = [],
     im_ip = [], im_tags = [''Nas''], im_notes = [], im_vendor = [], im_model = [], im_function = []\<rparr>"

lemma preview_announces_a_tag_it_has:
  "(case fst (planUpdate (plan_of respelled) 2 tag_db) of
      Inl _ \<Rightarrow> False
    | Inr p \<Rightarrow> pl_action p = ''update'' \<and> pl_changes p = [''add tags Nas''] \<and>
        fst (apply_plan p tag_db) = Inr p \<and>
        t_device_tag (tabs (snd (apply_plan p tag_db))) = t_device_tag (tabs tag_db) \<and>
        t_tag (tabs (snd (apply_plan p tag_db))) = t_tag (tabs tag_db))"
  by code_simp

end
