(* ===== verification/Views_Text.thy ===== *)
theory Views_Text
  imports Web_Settings
begin

text \<open>
  The words of internal/web/views: relative times, the names of events and of audited actions, icons,
  and the colours of tags.
\<close>

section \<open>Times and numbers\<close>

text \<open>
  \<open>t.Sub(u)\<close> of the current time and a stored one: a 64-bit number of nanoseconds that saturates, and
  whose negation wraps. Durations are cut to whole units as exact numbers.
\<close>

definition since :: "time \<Rightarrow> stamp \<Rightarrow> int" where
  "since now ts = max (- (2 ^ 63)) (min (2 ^ 63 - 1) (now - ts * second))"

definition shortSpan :: "int \<Rightarrow> string" where
  "shortSpan d = (if d < hour then string_of_int (d div minute) @ ''m''
     else if d < 24 * hour then string_of_int (d div hour) @ ''h''
     else string_of_int (d div hour div 24) @ ''d'')"

definition relTime :: "time \<Rightarrow> stamp \<Rightarrow> string" where
  "relTime now ts = (let d = since now ts in
     if d < 0
     then (let d = (if d = - (2 ^ 63) then d else - d) in
           if d < minute then ''in a moment'' else ''in '' @ shortSpan d)
     else if d < minute then ''just now'' else shortSpan d @ '' ago'')"

definition BarPct :: "int \<Rightarrow> int \<Rightarrow> string" where
  "BarPct n whole = (if whole \<le> 0 then ''0%'' else string_of_int ((n * 100) div whole) @ ''%'')"

abbreviation em_dash :: string where "em_dash \<equiv> [CHR 0xE2, CHR 0x80, CHR 0x94]"
abbreviation en_dash :: string where "en_dash \<equiv> [CHR 0xE2, CHR 0x80, CHR 0x93]"
abbreviation ellipsis :: string where "ellipsis \<equiv> [CHR 0xE2, CHR 0x80, CHR 0xA6]"

definition orDash :: "string option \<Rightarrow> string" where
  "orDash v = (case v of None \<Rightarrow> em_dash | Some s \<Rightarrow> if s = [] then em_dash else s)"

definition shortAgent :: "string option \<Rightarrow> string" where
  "shortAgent ua = (case ua of None \<Rightarrow> em_dash | Some s \<Rightarrow>
     if s = [] then em_dash else if length s \<le> 40 then s else take 40 s @ ellipsis)"

definition roleLabel :: "string \<Rightarrow> string" where
  "roleLabel r = (if r = ''admin'' then ''Admin'' else if r = ''viewer'' then ''Viewer'' else r)"

definition navActive :: "string \<Rightarrow> string \<Rightarrow> bool" where
  "navActive path href = (if href = ''/'' then path = ''/'' else path = href \<or> prefix (href @ ''/'') path)"

text \<open>The first letter is the first byte: a message begins with ASCII.\<close>

definition Sentence :: "string \<Rightarrow> string" where
  "Sentence msg = (case msg of [] \<Rightarrow> [] | c # s \<Rightarrow> upper_char c # s)"

section \<open>Events\<close>

definition IntegrationTitles :: "(string \<times> string) list" where
  "IntegrationTitles = [(''proxmox'', ''Proxmox''), (''wireguard'', ''WireGuard''), (''pihole'', ''Pi-hole''),
     (''adguard'', ''AdGuard Home''), (''opnsense'', ''OPNsense'')]"

definition IntegrationName :: "string \<Rightarrow> string" where
  "IntegrationName slug = (case map_of IntegrationTitles slug of Some t \<Rightarrow> t
     | None \<Rightarrow> if slug = ''scan'' then ''Network scan'' else slug)"

record event_kind =
  ek_Key :: string
  ek_Label :: string
  ek_Icon :: string
  ek_Tone :: string

definition event_kind_of :: "string \<times> string \<times> string \<times> string \<Rightarrow> event_kind" where
  "event_kind_of x = (case x of (k, l, i, t) \<Rightarrow> \<lparr>ek_Key = k, ek_Label = l, ek_Icon = i, ek_Tone = t\<rparr>)"

definition eventKinds :: "event_kind list" where
  "eventKinds = map event_kind_of [
     (''device_new'', ''New device'', ''plus'', ''is-new''),
     (''online'', ''Came online'', ''activity'', ''is-online''),
     (''offline'', ''Went offline'', ''power'', ''is-offline''),
     (''ip_changed'', ''IP changed'', ''refresh-cw'', []),
     (''ip_conflict'', ''IP conflict'', ''triangle-alert'', ''is-conflict''),
     (''scan_failed'', ''Scan failed'', ''radar'', ''is-error''),
     (''sync_failed'', ''Sync failed'', ''refresh-cw'', ''is-error''),
     (''backup_failed'', ''Backup failed'', ''download'', ''is-error''),
     (''sync_recovered'', ''Sync recovered'', ''check'', ''is-online''),
     (''device_missing'', ''Gone upstream'', ''circle-help'', ''is-missing''),
     (''device_returned'', ''Back upstream'', ''check'', ''is-online'')]"

definition backupFailing :: string where "backupFailing = ''Scheduled backup failing''"
definition legacyBackupFailing :: string where "legacyBackupFailing = ''scheduled backup failing''"

definition syncFailingPrefixes :: "string list" where
  "syncFailingPrefixes = sort (map (\<lambda>(slug, _). slug @ '' sync failing:'') IntegrationTitles)"

definition eventKey :: "'a event_scheme \<Rightarrow> string" where
  "eventKey e = (if ev_Type e \<noteq> ''scan_error'' then ev_Type e
     else if ev_Details e = backupFailing \<or> ev_Details e = legacyBackupFailing then ''backup_failed''
     else if list_ex (\<lambda>p. prefix p (ev_Details e)) syncFailingPrefixes then ''sync_failed''
     else ''scan_failed'')"

definition sentence :: "string \<Rightarrow> string" where
  "sentence slug = (case replace_char CHR ''_'' '' '' slug of [] \<Rightarrow> [] | c # s \<Rightarrow> upper_char c # s)"

definition EventInfo :: "'a event_scheme \<Rightarrow> event_kind" where
  "EventInfo e = (let key = eventKey e in
     case List.find (\<lambda>k. ek_Key k = key) eventKinds of
       Some k \<Rightarrow> k
     | None \<Rightarrow> \<lparr>ek_Key = key, ek_Label = sentence key, ek_Icon = ''activity'', ek_Tone = []\<rparr>)"

definition integrationEventTypes :: "string list" where
  "integrationEventTypes = [''scan_error'', ''sync_recovered'', ''device_new'', ''device_missing'', ''device_returned'']"

definition EventDetail :: "'a event_scheme \<Rightarrow> string" where
  "EventDetail e = (let d = ev_Details e in
     if ev_Type e \<notin> set integrationEventTypes then d
     else (case cut CHR '' '' d of (slug, rest, ok) \<Rightarrow>
       if \<not> ok then d
       else (case map_of IntegrationTitles slug of
           None \<Rightarrow> d
         | Some title \<Rightarrow> (case cut_prefix ''sync failing: '' rest of
             Some after \<Rightarrow> if ev_Type e = ''scan_error'' then title @ '': '' @ after else title @ '' '' @ rest
           | None \<Rightarrow> title @ '' '' @ rest))))"

definition plain_filter :: event_filter where
  "plain_filter = \<lparr>ef_Type = [], ef_DetailPrefixes = [], ef_NotDetailPrefixes = [], ef_Device = [], ef_Since = None,
     ef_Until = None, ef_BeforeID = 0, ef_Limit = 0\<rparr>"

definition EventKindFilter :: "string \<Rightarrow> event_filter option" where
  "EventKindFilter key =
     (let failures = plain_filter\<lparr>ef_Type := ''scan_error''\<rparr> in
      if key = ''scan_failed''
      then Some (failures\<lparr>ef_NotDetailPrefixes := syncFailingPrefixes @ [backupFailing, legacyBackupFailing]\<rparr>)
      else if key = ''sync_failed'' then Some (failures\<lparr>ef_DetailPrefixes := syncFailingPrefixes\<rparr>)
      else if key = ''backup_failed'' then Some (failures\<lparr>ef_DetailPrefixes := [backupFailing, legacyBackupFailing]\<rparr>)
      else if key = ''scan_error'' then Some failures
      else if key \<in> ek_Key ` set eventKinds then Some (plain_filter\<lparr>ef_Type := key\<rparr>)
      else None)"

section \<open>Days\<close>

text \<open>
  \<open>offset\<close> is the time zone of the server: how many seconds it is ahead of UTC at an instant. A local
  day is its number of days since 1970, and its date that of the Gregorian calendar.
\<close>

type_synonym zone_offset = "stamp \<Rightarrow> int"

definition local_day :: "zone_offset \<Rightarrow> stamp \<Rightarrow> int" where
  "local_day offset ts = (ts + offset ts) div 86400"

definition civil :: "int \<Rightarrow> int \<times> int \<times> int" where
  "civil z0 = (let z = z0 + 719468; era = z div 146097; doe = z mod 146097;
       yoe = (doe - doe div 1460 + doe div 36524 - doe div 146096) div 365;
       doy = doe - (365 * yoe + yoe div 4 - yoe div 100);
       mp = (5 * doy + 2) div 153; d = doy - (153 * mp + 2) div 5 + 1;
       m = (if mp < 10 then mp + 3 else mp - 9); y = yoe + era * 400
     in (if m \<le> 2 then y + 1 else y, m, d))"

definition year_of :: "int \<Rightarrow> int" where "year_of z = fst (civil z)"

definition weekdays :: "string list" where
  "weekdays = [''Sunday'', ''Monday'', ''Tuesday'', ''Wednesday'', ''Thursday'', ''Friday'', ''Saturday'']"

definition months :: "string list" where
  "months = [''January'', ''February'', ''March'', ''April'', ''May'', ''June'', ''July'', ''August'', ''September'',
     ''October'', ''November'', ''December'']"

definition pad2 :: "int \<Rightarrow> string" where
  "pad2 n = (if n < 10 then ''0'' @ string_of_int n else string_of_int n)"

definition iso_date :: "int \<Rightarrow> string" where
  "iso_date z = (case civil z of (y, m, d) \<Rightarrow>
     (let s = string_of_int y in replicate (4 - length s) CHR ''0'' @ s) @ ''-'' @ pad2 m @ ''-'' @ pad2 d)"

definition dayLabel :: "int \<Rightarrow> int \<Rightarrow> string" where
  "dayLabel z today =
     (if z = today then ''Today'' else if z = today - 1 then ''Yesterday''
      else (case civil z of (y, m, d) \<Rightarrow>
        weekdays ! nat ((z + 4) mod 7) @ '' '' @ string_of_int d @ '' '' @ months ! nat (m - 1) @
        (if y = year_of today then [] else '' '' @ string_of_int y)))"

record 'e event_day =
  ed_Date :: string
  ed_Label :: string
  ed_Events :: "'e list"

text \<open>A stored time always parses, so no event is left without a date.\<close>

definition add_to_day :: "zone_offset \<Rightarrow> time \<Rightarrow> 'a event_scheme \<Rightarrow> 'a event_scheme event_day list \<Rightarrow> 'a event_scheme event_day list" where
  "add_to_day offset now e out =
     (let z = local_day offset (ev_TS e); date = iso_date z; label = dayLabel z (local_day offset (rfc3339 now)) in
      if out = [] \<or> ed_Date (last out) \<noteq> date \<or> ed_Label (last out) \<noteq> label
      then out @ [\<lparr>ed_Date = date, ed_Label = label, ed_Events = [e]\<rparr>]
      else butlast out @ [(last out)\<lparr>ed_Events := ed_Events (last out) @ [e]\<rparr>])"

definition GroupEventsByDay :: "zone_offset \<Rightarrow> time \<Rightarrow> 'a event_scheme list \<Rightarrow> 'a event_scheme event_day list" where
  "GroupEventsByDay offset now evs = fold (add_to_day offset now) evs []"

section \<open>Audited actions\<close>

definition auditActionLabels :: "(string \<times> string) list" where
  "auditActionLabels = [
    (''login'', ''Signed in''), (''logout'', ''Signed out''), (''setup'', ''Set up netis''),
    (''welcome.subnets'', ''Chose subnets in setup''),
    (''welcome.integrations'', ''Set up integrations in setup''), (''welcome.skip'', ''Skipped setup''),
    (''welcome.dismiss'', ''Closed the setup panel''), (''scan.all'', ''Scanned all subnets''),
    (''scan.subnet'', ''Scanned a subnet''), (''ip.kind'', ''Changed an address lease''),
    (''device.create'', ''Added a device''), (''device.update'', ''Edited a device''),
    (''device.delete'', ''Deleted a device''), (''device.approve'', ''Approved a device''),
    (''device.bulk_approve'', ''Approved devices''), (''device.bulk_tag'', ''Tagged devices''),
    (''device.bulk_delete'', ''Deleted devices''), (''device.wol'', ''Sent Wake on LAN''),
    (''device.portscan'', ''Scanned ports''), (''device.alert'', ''Changed offline alerts''),
    (''device.import'', ''Imported devices''), (''link.add'', ''Added a link''),
    (''link.delete'', ''Deleted a link''), (''field.set'', ''Saved a custom field''),
    (''field.delete'', ''Deleted a custom field''), (''notifications.save'', ''Saved notifications''),
    (''notifications.test'', ''Sent a test notification''), (''subnet.create'', ''Added a subnet''),
    (''subnet.update'', ''Edited a subnet''), (''subnet.delete'', ''Deleted a subnet''),
    (''integrations.save'', ''Saved integrations''), (''integration.run'', ''Ran an integration''),
    (''tag.color'', ''Changed a tag colour''), (''tag.rename'', ''Renamed a tag''),
    (''tag.delete'', ''Deleted a tag''), (''user.create'', ''Added a user''),
    (''user.delete'', ''Deleted a user''), (''user.role'', ''Changed a role''),
    (''user.password_reset'', ''Reset a password''), (''password.change'', ''Changed own password''),
    (''session.revoke'', ''Signed out a session''), (''session.revoke_others'', ''Signed out other sessions''),
    (''settings.save'', ''Saved settings''), (''token.create'', ''Created an API token''),
    (''token.revoke'', ''Revoked an API token''), (''sso.link_start'', ''Linked SSO''),
    (''api.device.create'', ''Added a device (API)''), (''api.device.update'', ''Edited a device (API)''),
    (''api.device.delete'', ''Deleted a device (API)'')]"

definition AuditActionLabel :: "string \<Rightarrow> string" where
  "AuditActionLabel a = (case map_of auditActionLabels a of Some l \<Rightarrow> l | None \<Rightarrow> a)"

definition auditOutcome :: "int \<Rightarrow> string \<times> string" where
  "auditOutcome status = (if status \<in> {401, 403, 429} then (''Refused'', ''is-error'')
     else if 400 \<le> status then (''Failed'', ''is-error'') else (''Done'', []))"

definition statusTitle :: "int \<Rightarrow> string" where
  "statusTitle status = ''HTTP status '' @ string_of_int status"

section \<open>Icons and colours\<close>

definition unknownIcon :: string where "unknownIcon = ''circle-help''"

definition kindIcons :: "(string \<times> string) list" where
  "kindIcons = [
    (''computer'', ''laptop''), (''switch'', ''ethernet-port''), (''phone'', ''smartphone''),
    (''server'', ''server''), (''printer'', ''printer''), (''iot'', ''lightbulb''), (''vm'', ''box''),
    (''lxc'', ''container''), (''wg-peer'', ''lock''), (''router'', ''router''), (''modem'', ''signal''),
    (''other'', unknownIcon)]"

definition KindIcon :: "string \<Rightarrow> string" where
  "KindIcon kind = (case map_of kindIcons kind of Some n \<Rightarrow> n | None \<Rightarrow> unknownIcon)"

definition IconChoices :: "string list" where
  "IconChoices = [
    ''laptop'', ''monitor'', ''ethernet-port'', ''router'', ''signal'', ''wifi'', ''smartphone'', ''tablet'',
    ''server'', ''hard-drive'', ''printer'', ''lightbulb'', ''box'', ''container'', ''lock'',
    ''satellite-dish'', ''cctv'', ''plug'', ''gamepad-2'', ''tv'', ''phone'', ''joystick'', ''satellite'',
    ''watch'', ''speaker'', ''thermometer'', ''house'', unknownIcon]"

text \<open>The emoji in UTF-8.\<close>

definition legacyIcons :: "(string \<times> string) list" where
  "legacyIcons = [
    ([CHR 0xF0, CHR 0x9F, CHR 0x92, CHR 0xBB], ''laptop''),
    ([CHR 0xF0, CHR 0x9F, CHR 0x94, CHR 0x80], ''ethernet-port''),
    ([CHR 0xF0, CHR 0x9F, CHR 0x93, CHR 0xB1], ''smartphone''),
    ([CHR 0xF0, CHR 0x9F, CHR 0x96, CHR 0xA5], ''server''),
    ([CHR 0xF0, CHR 0x9F, CHR 0x96, CHR 0xA8], ''printer''),
    ([CHR 0xF0, CHR 0x9F, CHR 0x92, CHR 0xA1], ''lightbulb''),
    ([CHR 0xF0, CHR 0x9F, CHR 0xA7, CHR 0x8A], ''box''),
    ([CHR 0xF0, CHR 0x9F, CHR 0x93, CHR 0xA6], ''container''),
    ([CHR 0xF0, CHR 0x9F, CHR 0x94, CHR 0x92], ''lock''), ([CHR 0xE2, CHR 0x9D, CHR 0x93], unknownIcon),
    ([CHR 0xF0, CHR 0x9F, CHR 0x9B, CHR 0x9C], ''router''),
    ([CHR 0xF0, CHR 0x9F, CHR 0x93, CHR 0xB6], ''signal''),
    ([CHR 0xF0, CHR 0x9F, CHR 0x93, CHR 0xA1], ''satellite-dish''),
    ([CHR 0xF0, CHR 0x9F, CHR 0x97, CHR 0x84], ''hard-drive''),
    ([CHR 0xF0, CHR 0x9F, CHR 0x93, CHR 0xB7], ''cctv''), ([CHR 0xF0, CHR 0x9F, CHR 0x94, CHR 0x8C], ''plug''),
    ([CHR 0xF0, CHR 0x9F, CHR 0x8E, CHR 0xAE], ''gamepad-2''),
    ([CHR 0xF0, CHR 0x9F, CHR 0x93, CHR 0xBA], ''tv''), ([CHR 0xE2, CHR 0x98, CHR 0x8E], ''phone''),
    ([CHR 0xF0, CHR 0x9F, CHR 0x95, CHR 0xB9], ''joystick''),
    ([CHR 0xF0, CHR 0x9F, CHR 0x9B, CHR 0xB0], ''satellite''), ([CHR 0xE2, CHR 0x8C, CHR 0x9A], ''watch'')]"

text \<open>Without the variation selectors.\<close>

fun bare_emoji :: "string \<Rightarrow> string" where
  "bare_emoji [] = []"
| "bare_emoji (c # s) = (if prefix [CHR 0xEF, CHR 0xB8, CHR 0x8F] (c # s) then bare_emoji (drop 2 s) else c # bare_emoji s)"

definition DeviceIcon :: "string \<Rightarrow> string \<Rightarrow> string" where
  "DeviceIcon icon kind = (if icon \<in> set IconChoices then icon
     else (case map_of legacyIcons (bare_emoji icon) of Some n \<Rightarrow> n | None \<Rightarrow> KindIcon kind))"

definition iconLabel :: "string \<Rightarrow> string" where
  "iconLabel name = (if name = unknownIcon then ''unknown'' else replace_char CHR ''-'' '' '' (trim_suffix ''-2'' name))"

definition iconTone :: "string \<Rightarrow> string" where
  "iconTone name = (if name = unknownIcon then ''icon-unknown'' else [])"

text \<open>FNV-1a, and the colour a tag is drawn in.\<close>

definition fnv32a :: "string \<Rightarrow> 32 word" where
  "fnv32a s = fold (\<lambda>c h. xor h (word_of_nat (of_char c)) * 16777619) s 2166136261"

definition TagColor :: "string \<Rightarrow> string \<Rightarrow> string" where
  "TagColor name stored = (if IsTagColor stored then stored
     else TagPalette ! (unat (fnv32a (to_lower name)) mod length TagPalette))"

definition kindName :: "string \<Rightarrow> string" where
  "kindName kind = (if kind = ''wg-peer'' then ''WireGuard peer'' else if kind = ''vm'' then ''Virtual machine''
     else if kind = ''lxc'' then ''LXC container'' else if kind = ''iot'' then ''IoT device''
     else if kind = ''other'' \<or> kind = [] then ''Other'' else upper_char (hd kind) # tl kind)"

definition kindLabels :: "(string \<times> string) list" where
  "kindLabels = [
    (''computer'', ''Computer''), (''switch'', ''Switch''), (''router'', ''Router''), (''modem'', ''Modem''),
    (''phone'', ''Phone''), (''server'', ''Server''), (''printer'', ''Printer''), (''iot'', ''IoT''),
    (''vm'', ''Virtual machine''), (''lxc'', ''Container''), (''wg-peer'', ''WireGuard peer''),
    (''other'', ''Other'')]"

definition KindLabel :: "string \<Rightarrow> string" where
  "KindLabel kind = (case map_of kindLabels kind of Some l \<Rightarrow> l | None \<Rightarrow> kind)"

section \<open>The events of a kind\<close>

definition begins :: "dialect \<Rightarrow> string \<Rightarrow> 'a event_scheme \<Rightarrow> bool" where
  "begins d p e \<longleftrightarrow> sql_like d (likeEscape p @ ''%'') (ev_Details e)"

text \<open>
  An event as its writers write it: of a type there is, and a failure whose details begin like those of
  a backup or of a sync, as the database compares texts, has the very words.
\<close>

definition well_written :: "dialect \<Rightarrow> 'a event_scheme \<Rightarrow> bool" where
  "well_written d e \<longleftrightarrow> ev_Type e \<in> set event_types \<and>
     (if ev_Type e = ''scan_error''
      then (if list_ex (\<lambda>p. begins d p e) [backupFailing, legacyBackupFailing]
            then ev_Details e \<in> {backupFailing, legacyBackupFailing} else True) \<and>
           list_all (\<lambda>p. begins d p e = prefix p (ev_Details e)) syncFailingPrefixes
      else True)"

lemma begins_itself: "ev_Details e = p \<Longrightarrow> begins d p e"
  using likeEscape_literal [of d p p] by (simp add: begins_def)

lemma backup_no_sync:
  "x \<in> {backupFailing, legacyBackupFailing} \<Longrightarrow> \<not> list_ex (\<lambda>p. prefix p x) syncFailingPrefixes"
proof -
  have "list_all (\<lambda>x. \<not> list_ex (\<lambda>p. prefix p x) syncFailingPrefixes) [backupFailing, legacyBackupFailing]" by code_simp
  then show "x \<in> {backupFailing, legacyBackupFailing} \<Longrightarrow> \<not> list_ex (\<lambda>p. prefix p x) syncFailingPrefixes" by auto
qed

lemma key_names:
  "''scan_error'' \<notin> ek_Key ` set eventKinds" "[] \<notin> ek_Key ` set eventKinds"
  "set event_types \<inter> {''scan_failed'', ''sync_failed'', ''backup_failed''} = {}"
proof -
  have "list_all (\<lambda>k. ek_Key k \<noteq> ''scan_error'' \<and> ek_Key k \<noteq> []) eventKinds" by code_simp
  then show "''scan_error'' \<notin> ek_Key ` set eventKinds" "[] \<notin> ek_Key ` set eventKinds" by (auto simp: list_all_iff)
  show "set event_types \<inter> {''scan_failed'', ''sync_failed'', ''backup_failed''} = {}" by (simp add: event_types_def)
qed

lemma kind_match:
  "event_match d (plain_filter\<lparr>ef_Type := ty\<rparr>) e \<longleftrightarrow> (ty \<noteq> [] \<longrightarrow> ev_Type e = ty)"
  "event_match d (plain_filter\<lparr>ef_Type := ty, ef_DetailPrefixes := ps\<rparr>) e \<longleftrightarrow>
     (ty \<noteq> [] \<longrightarrow> ev_Type e = ty) \<and> (ps \<noteq> [] \<longrightarrow> list_ex (\<lambda>p. begins d p e) ps)"
  "event_match d (plain_filter\<lparr>ef_Type := ty, ef_NotDetailPrefixes := ns\<rparr>) e \<longleftrightarrow>
     (ty \<noteq> [] \<longrightarrow> ev_Type e = ty) \<and> list_all (\<lambda>p. \<not> begins d p e) ns"
  by (simp_all add: event_match_def plain_filter_def begins_def)

lemma failure_kinds:
  fixes e :: event_view
  assumes "well_written d e" and "ev_Type e = ''scan_error''"
  shows "list_ex (\<lambda>p. begins d p e) [backupFailing, legacyBackupFailing] \<longleftrightarrow> eventKey e = ''backup_failed''"
    and "list_ex (\<lambda>p. begins d p e) syncFailingPrefixes \<longleftrightarrow> eventKey e = ''sync_failed''"
    and "eventKey e \<in> {''backup_failed'', ''sync_failed'', ''scan_failed''}"
proof -
  have sync: "list_ex (\<lambda>p. begins d p e) syncFailingPrefixes \<longleftrightarrow> list_ex (\<lambda>p. prefix p (ev_Details e)) syncFailingPrefixes"
    using assms by (auto simp: well_written_def list_all_iff list_ex_iff)
  show "list_ex (\<lambda>p. begins d p e) [backupFailing, legacyBackupFailing] \<longleftrightarrow> eventKey e = ''backup_failed''"
    using assms begins_itself [of e] by (auto simp: well_written_def eventKey_def split: if_splits)
  show "list_ex (\<lambda>p. begins d p e) syncFailingPrefixes \<longleftrightarrow> eventKey e = ''sync_failed''"
    unfolding sync using assms(2) backup_no_sync [of "ev_Details e"] by (auto simp: eventKey_def)
  show "eventKey e \<in> {''backup_failed'', ''sync_failed'', ''scan_failed''}" using assms(2) by (simp add: eventKey_def)
qed


section \<open>Nothing is lost on the way to the page\<close>

text \<open>Every event is under a heading, in order, and the heading is that of its day.\<close>

definition day_ok :: "zone_offset \<Rightarrow> time \<Rightarrow> 'a event_scheme event_day \<Rightarrow> bool" where
  "day_ok offset now g \<longleftrightarrow> ed_Events g \<noteq> [] \<and> (\<forall>e \<in> set (ed_Events g).
     ed_Date g = iso_date (local_day offset (ev_TS e)) \<and>
     ed_Label g = dayLabel (local_day offset (ev_TS e)) (local_day offset (rfc3339 now)))"

definition heading :: "'e event_day \<Rightarrow> string \<times> string" where
  "heading g = (ed_Date g, ed_Label g)"

definition grouped :: "zone_offset \<Rightarrow> time \<Rightarrow> 'a event_scheme list \<Rightarrow> 'a event_scheme event_day list \<Rightarrow> bool" where
  "grouped offset now evs gs \<longleftrightarrow> concat (map ed_Events gs) = evs \<and> list_all (day_ok offset now) gs \<and>
     distinct_adj (map heading gs)"

lemma add_to_day_grouped:
  assumes "grouped offset now evs gs"
  shows "grouped offset now (evs @ [e]) (add_to_day offset now e gs)"
proof (cases gs rule: rev_cases)
  case Nil
  with assms show ?thesis by (simp add: grouped_def add_to_day_def Let_def day_ok_def)
next
  case (snoc hs g)
  with assms show ?thesis
    by (auto simp: grouped_def add_to_day_def Let_def day_ok_def heading_def distinct_adj_append_iff)
qed

lemma events_are_grouped: "grouped offset now evs (GroupEventsByDay offset now evs)"
proof (induction evs rule: rev_induct)
  case (snoc e evs)
  then show ?case using add_to_day_grouped by (simp add: GroupEventsByDay_def)
qed (simp add: GroupEventsByDay_def grouped_def)

section \<open>Every name has its words and icon\<close>

lemma words_complete:
  "list_all (\<lambda>(_, a). map_of auditActionLabels a \<noteq> None) auditActions"
  "list_all (\<lambda>k. map_of kindIcons k \<noteq> None \<and> map_of kindLabels k \<noteq> None) device_kinds"
  "list_all (\<lambda>t. EventInfo \<lparr>ev_ID = 0, ev_TS = 0, ev_Type = t, ev_DeviceID = None, ev_Details = []\<rparr> \<in> set eventKinds) event_types"
  by code_simp+

lemma icons_drawn: "DeviceIcon icon kind \<in> set IconChoices"
proof -
  have "list_all (\<lambda>(_, n). n \<in> set IconChoices) (legacyIcons @ kindIcons)" "unknownIcon \<in> set IconChoices" by code_simp+
  then show ?thesis by (auto simp: DeviceIcon_def KindIcon_def list_all_iff dest!: map_of_SomeD split: option.splits)
qed

lemma tags_coloured: "TagColor name stored \<in> set TagPalette"
proof -
  have "0 < length TagPalette" by (simp add: TagPalette_def)
  then show ?thesis by (simp add: TagColor_def IsTagColor_def)
qed

end
