(* ===== verification/Web_List.thy ===== *)
theory Web_List
  imports Web_Devices Views_Text Text_Facts
begin

text \<open>
  internal/web/devices_list.go and views/device_filter.go: the devices page. Its filter as a link, what
  the filter lets through, the order of the rows, and the addresses two devices hold.
\<close>

section \<open>Query strings\<close>

text \<open>\<open>url.Values\<close>, each key once.\<close>

type_synonym url_values = "(string \<times> string list) list"

definition getq :: "url_values \<Rightarrow> string \<Rightarrow> string" where
  "getq v k = (case map_of v k of Some (x # _) \<Rightarrow> x | _ \<Rightarrow> [])"

definition setq :: "string \<Rightarrow> string \<Rightarrow> url_values \<Rightarrow> url_values" where
  "setq k x v = AList.update k [x] v"

definition unreserved :: "char \<Rightarrow> bool" where
  "unreserved c \<longleftrightarrow> (CHR ''a'' \<le> c \<and> c \<le> CHR ''z'') \<or> (CHR ''A'' \<le> c \<and> c \<le> CHR ''Z'') \<or> is_digit c \<or>
     c \<in> {CHR ''-'', CHR ''_'', CHR ''.'', CHR ''~''}"

definition hex_upper :: "nat \<Rightarrow> char" where
  "hex_upper n = (if n < 10 then char_of (48 + n) else char_of (55 + n))"

definition escape_char :: "char \<Rightarrow> string" where
  "escape_char c = (if unreserved c then [c] else if c = CHR '' '' then ''+''
     else [CHR ''%'', hex_upper (of_char c div 16), hex_upper (of_char c mod 16)])"

definition QueryEscape :: "string \<Rightarrow> string" where
  "QueryEscape s = concat (map escape_char s)"

fun QueryUnescape :: "string \<Rightarrow> string option" where
  "QueryUnescape [] = Some []"
| "QueryUnescape (c # s) =
     (if c = CHR ''%''
      then (case s of
          a # b # r \<Rightarrow> (case (hex_val a, hex_val b) of
              (Some x, Some y) \<Rightarrow> map_option ((#) (char_of (16 * x + y))) (QueryUnescape r)
            | _ \<Rightarrow> None)
        | _ \<Rightarrow> None)
      else map_option ((#) (if c = CHR ''+'' then CHR '' '' else c)) (QueryUnescape s))"

text \<open>\<open>Values.Encode\<close>: by key.\<close>

definition Encode :: "url_values \<Rightarrow> string" where
  "Encode v = join ''&'' (concat (map (\<lambda>(k, xs). map (\<lambda>x. QueryEscape k @ ''='' @ QueryEscape x) xs) (sort_key fst v)))"

section \<open>The filter\<close>

record DeviceFilter =
  df_Q :: string
  df_Status :: string
  df_Kind :: string
  df_Tag :: string
  df_Subnet :: int
  df_New :: bool
  df_PrivateMAC :: bool
  df_Missing :: bool

definition set_text :: "string \<Rightarrow> string \<Rightarrow> url_values \<Rightarrow> url_values" where
  "set_text k x v = (if x \<noteq> [] then setq k x v else v)"

definition set_flag :: "string \<Rightarrow> bool \<Rightarrow> url_values \<Rightarrow> url_values" where
  "set_flag k on v = (if on then setq k ''1'' v else v)"

definition Values :: "DeviceFilter \<Rightarrow> url_values" where
  "Values f = set_flag ''missing'' (df_Missing f) (set_flag ''private'' (df_PrivateMAC f) (set_flag ''new'' (df_New f)
     (set_text ''tag'' (df_Tag f) ((if 0 < df_Subnet f then setq ''subnet'' (string_of_int (df_Subnet f)) else id)
     (set_text ''kind'' (df_Kind f) (set_text ''status'' (df_Status f) (set_text ''q'' (df_Q f) [])))))))"

definition Active :: "DeviceFilter \<Rightarrow> bool" where
  "Active f \<longleftrightarrow> 0 < length (Values f)"

definition Count :: "DeviceFilter \<Rightarrow> int" where
  "Count f = int (length (Values f)) - (if df_Q f \<noteq> [] then 1 else 0)"

definition parseDeviceFilter :: "url_values \<Rightarrow> DeviceFilter" where
  "parseDeviceFilter q = \<lparr>
     df_Q = trim_space (getq q ''q''),
     df_Status = (let st = getq q ''status'' in if st = ''online'' \<or> st = ''offline'' then st else []),
     df_Kind = (let k = getq q ''kind'' in if k \<in> set validKinds then k else []),
     df_Tag = trim_space (getq q ''tag''),
     df_Subnet = (case atoi (getq q ''subnet'') of Some i \<Rightarrow> if 0 < i then i else 0 | None \<Rightarrow> 0),
     df_New = (getq q ''new'' = ''1''),
     df_PrivateMAC = (getq q ''private'' = ''1''),
     df_Missing = (getq q ''missing'' = ''1'')\<rparr>"

definition clearTagHref :: "url_values \<Rightarrow> string" where
  "clearTagHref q = (let v = AList.delete ''tag'' q in if v = [] then ''/devices'' else ''/devices?'' @ Encode v)"

definition deviceMatches :: "device_view \<Rightarrow> DeviceFilter \<Rightarrow> bool" where
  "deviceMatches row f \<longleftrightarrow>
     \<not> (df_Status f = ''online'' \<and> \<not> dv_Online row \<or> df_Status f = ''offline'' \<and> dv_Online row \<or>
        df_Kind f \<noteq> [] \<and> dev_Kind row \<noteq> df_Kind f \<or> df_New f \<and> dev_Reviewed row \<or>
        df_PrivateMAC f \<and> \<not> AnyPrivate (dv_MACs row) \<or> df_Missing f \<and> dev_UpstreamMissingSince row = None) \<and>
     \<not> (0 < df_Subnet f \<and> \<not> list_ex (\<lambda>ip. ii_SubnetID ip = df_Subnet f) (dv_IPs row)) \<and>
     \<not> (df_Tag f \<noteq> [] \<and> \<not> list_ex (\<lambda>t. equal_fold t (df_Tag f)) (dv_TagNames row))"

definition applyDeviceFilter :: "device_view list \<Rightarrow> DeviceFilter \<Rightarrow> device_view list" where
  "applyDeviceFilter rows f = filter (\<lambda>row. deviceMatches row f) rows"

definition haystack :: "device_view \<Rightarrow> string" where
  "haystack row = to_lower (dev_Name row @ '' '' @ join '' '' (map ii_IP (dv_IPs row)) @ '' '' @
     join '' '' (dv_MACs row) @ '' '' @ join '' '' (dv_TagNames row) @ '' '' @
     dev_Vendor row @ '' '' @ dev_Model row @ '' '' @ dev_Function row)"

definition filterDevices :: "device_view list \<Rightarrow> string \<Rightarrow> device_view list" where
  "filterDevices rows q0 = (let q = to_lower (trim_space q0) in
     if q = [] then rows else filter (\<lambda>row. contains_str q (haystack row)) rows)"

section \<open>Conflicts\<close>

definition ConflictKey :: "int \<Rightarrow> string \<Rightarrow> string" where
  "ConflictKey sid ip = string_of_int sid @ ''|'' @ ip"

text \<open>The keys of a row's addresses, and who was met holding a key first.\<close>

definition conflict_step :: "int \<Rightarrow> string \<Rightarrow> (string \<rightharpoonup> int) \<times> string set \<Rightarrow> (string \<rightharpoonup> int) \<times> string set" where
  "conflict_step i k acc = (case acc of (holders, out) \<Rightarrow> (case holders k of
     Some j \<Rightarrow> if j \<noteq> i then (holders, insert k out) else (holders, out)
   | None \<Rightarrow> (holders(k \<mapsto> i), out)))"

definition held_keys :: "device_view list \<Rightarrow> (int \<times> string) list" where
  "held_keys rows = concat (map (\<lambda>row. map (\<lambda>ip. (dev_ID row, ConflictKey (ii_SubnetID ip) (ii_IP ip))) (dv_IPs row)) rows)"

definition ipConflicts :: "device_view list \<Rightarrow> string set" where
  "ipConflicts rows = snd (fold (\<lambda>(i, k). conflict_step i k) (held_keys rows) (Map.empty, {}))"

section \<open>The order of the rows\<close>

definition lowestIP :: "device_view \<Rightarrow> addr option" where
  "lowestIP row = fold (\<lambda>ip best. case parse_addr (ii_IP ip) of
       None \<Rightarrow> best
     | Some a \<Rightarrow> (case best of None \<Rightarrow> Some a | Some b \<Rightarrow> if addr_less a b then Some a else best)) (dv_IPs row) None"

text \<open>Stored times compare as the instants they are; never seen is the least.\<close>

definition row_less :: "string \<Rightarrow> device_view \<Rightarrow> device_view \<Rightarrow> bool" where
  "row_less key a b \<longleftrightarrow>
     (if key = ''name'' then to_lower (dev_Name a) < to_lower (dev_Name b)
      else if key = ''kind'' then dev_Kind a < dev_Kind b
      else if key = ''status'' then dv_Online a \<and> \<not> dv_Online b
      else if key = ''seen'' then (case (dv_LastSeen a, dv_LastSeen b) of
          (Some s, Some t) \<Rightarrow> t < s | (Some _, None) \<Rightarrow> True | _ \<Rightarrow> False)
      else (case (lowestIP a, lowestIP b) of
          (Some x, Some y) \<Rightarrow> addr_less x y | (Some _, None) \<Rightarrow> True | _ \<Rightarrow> False))"

definition row_before :: "string \<Rightarrow> string \<Rightarrow> device_view \<Rightarrow> device_view \<Rightarrow> bool" where
  "row_before key dir a b = (if dir = ''desc'' then row_less key b a else row_less key a b)"

definition sortDeviceRows :: "device_view list \<Rightarrow> string \<Rightarrow> string \<Rightarrow> device_view list" where
  "sortDeviceRows rows key dir = stable_sort (row_before key dir) rows"

definition parseDeviceSort :: "url_values \<Rightarrow> string \<times> string" where
  "parseDeviceSort q =
     (let key = getq q ''sort''; dir = getq q ''dir'' in
      (if key \<in> {''ip'', ''name'', ''status'', ''kind'', ''seen''} then key else ''ip'',
       if dir \<noteq> ''desc'' then ''asc'' else dir))"

section \<open>Links of the table\<close>

definition nextDir :: "string \<Rightarrow> string \<Rightarrow> string \<Rightarrow> string" where
  "nextDir col curSort curDir = (if curSort = col \<and> curDir = ''asc'' then ''desc'' else ''asc'')"

record deviceTableOpts =
  dt_Base :: string
  dt_Keep :: url_values
  dt_Sort :: string
  dt_Dir :: string

definition sortLink :: "deviceTableOpts \<Rightarrow> string \<Rightarrow> string" where
  "sortLink o' col = dt_Base o' @ ''?'' @
     Encode (setq ''dir'' (nextDir col (dt_Sort o') (dt_Dir o')) (setq ''sort'' col (dt_Keep o')))"

definition ariaSort :: "deviceTableOpts \<Rightarrow> string \<Rightarrow> string" where
  "ariaSort o' col = (if dt_Sort o' \<noteq> col then ''none'' else if dt_Dir o' = ''desc'' then ''descending'' else ''ascending'')"

definition deviceCount :: "nat \<Rightarrow> string" where
  "deviceCount n = (if n = 1 then ''1 device'' else string_of_nat n @ '' devices'')"

definition subnetLabel :: "subnet \<Rightarrow> string" where
  "subnetLabel sn = (if sn_Name sn = [] then sn_CIDR sn else sn_Name sn @ '' '' @ [CHR 0xC2, CHR 0xB7] @ '' '' @ sn_CIDR sn)"

section \<open>The page\<close>

definition maxDeviceRows :: nat where "maxDeviceRows = 2000"

record DeviceListPage =
  dp_Rows :: "device_view list"
  dp_Filter :: DeviceFilter
  dp_Sort :: string
  dp_Dir :: string
  dp_Explicit :: bool
  dp_Matched :: nat
  dp_All :: nat
  dp_Subnets :: "subnet list"
  dp_Tags :: "string list"
  dp_TagColors :: "string \<rightharpoonup> string"
  dp_ClearTagHref :: string
  dp_Conflicts :: "string set"

definition Grouped :: "DeviceListPage \<Rightarrow> bool" where
  "Grouped p \<longleftrightarrow> \<not> dp_Explicit p"

text \<open>A page's data, or the answer given instead of the page.\<close>

type_synonym ('s, 'p) paged = "('s web_scheme, response + 'p) act"

definition page_of :: "string \<Rightarrow> ('s, 'p) paged \<Rightarrow> 's handler" where
  "page_of name m = bindA m (\<lambda>x. answer (case x of Inl resp \<Rightarrow> resp | Inr _ \<Rightarrow> Page name))"

definition or_fail :: "('s web_scheme, 'a) act \<Rightarrow> ('a \<Rightarrow> ('s, 'p) paged) \<Rightarrow> ('s, 'p) paged" where
  "or_fail m k = bindA (attempt m) (\<lambda>x. case x of Inl _ \<Rightarrow> ret (Inl serverError) | Inr a \<Rightarrow> k a)"

definition hasEmptyParams :: "url_values \<Rightarrow> bool" where
  "hasEmptyParams v = list_ex (\<lambda>(_, xs). xs = [] \<or> hd xs = []) v"

definition list_page :: "url_values \<Rightarrow> device_view list \<Rightarrow> subnet list \<Rightarrow> tag list \<Rightarrow> DeviceListPage" where
  "list_page q all subnets tags =
     (let f = parseDeviceFilter q; (key, dir) = parseDeviceSort q;
          rows = sortDeviceRows (applyDeviceFilter (filterDevices all (df_Q f)) f) key dir in
      \<lparr>dp_Rows = take maxDeviceRows rows, dp_Filter = f, dp_Sort = key, dp_Dir = dir,
       dp_Explicit = (getq q ''sort'' \<noteq> []), dp_Matched = length rows, dp_All = length all, dp_Subnets = subnets,
       dp_Tags = map tag_Name tags,
       dp_TagColors = fold (\<lambda>t m. m(tag_Name t \<mapsto> tag_Color t)) tags Map.empty,
       dp_ClearTagHref = (if df_Tag f \<noteq> [] then clearTagHref q else []), dp_Conflicts = ipConflicts all\<rparr>)"

definition handleDeviceList :: "url_values \<Rightarrow> request \<Rightarrow> ('s, DeviceListPage) paged" where
  "handleDeviceList q r =
     (if \<not> isHTMX r \<and> hasEmptyParams q
      then (let v = filter (\<lambda>(_, xs). xs \<noteq> [] \<and> hd xs \<noteq> []) q in
        ret (Inl (Redirect (if v = [] then ''/devices'' else ''/devices?'' @ Encode v))))
      else or_fail ListDevices (\<lambda>rows. or_fail ListSubnets (\<lambda>subnets. or_fail ListTags (\<lambda>tags.
        ret (Inr (list_page q rows subnets tags))))))"

section \<open>A link to a filtered list\<close>

text \<open>\<open>URL.Query\<close> of a query string: a pair that does not read, or has a semicolon, is left out.\<close>

definition add_query :: "string \<Rightarrow> url_values \<Rightarrow> url_values" where
  "add_query p v = (if p = [] \<or> CHR '';'' \<in> set p then v
     else (case cut CHR ''='' p of (k, x, _) \<Rightarrow> (case (QueryUnescape k, QueryUnescape x) of
         (Some k, Some x) \<Rightarrow> AList.update k ((case map_of v k of None \<Rightarrow> [] | Some xs \<Rightarrow> xs) @ [x]) v
       | _ \<Rightarrow> v)))"

definition parse_query :: "string \<Rightarrow> url_values" where
  "parse_query s = fold add_query (split_on CHR ''&'' s) []"

lemma hex_upper_back: "n < 16 \<Longrightarrow> hex_val (hex_upper n) = Some n"
proof -
  have "list_all (\<lambda>n. hex_val (hex_upper n) = Some n) [0..<16]" by code_simp
  then show "n < 16 \<Longrightarrow> hex_val (hex_upper n) = Some n" by (simp add: list_all_iff)
qed

lemma unescape_char: "QueryUnescape (escape_char c @ s) = map_option ((#) c) (QueryUnescape s)"
proof -
  have plain: "\<not> unreserved CHR ''%''" "\<not> unreserved CHR ''+''" by code_simp+
  consider "unreserved c" | "\<not> unreserved c" "c = CHR '' ''" | "\<not> unreserved c" "c \<noteq> CHR '' ''" by blast
  then show ?thesis
  proof cases
    case 1
    with plain have "c \<noteq> CHR ''%''" "c \<noteq> CHR ''+''" by auto
    with 1 show ?thesis by (simp add: escape_char_def)
  next
    case 2
    then show ?thesis by (simp add: escape_char_def)
  next
    case 3
    define x y where "x = of_char c div (16 :: nat)" and "y = of_char c mod (16 :: nat)"
    have "x < 16" "y < 16" "char_of (16 * x + y) = c" by (simp_all add: x_def y_def less_mult_imp_div_less)
    then have "QueryUnescape ([CHR ''%'', hex_upper x, hex_upper y] @ s) = map_option ((#) c) (QueryUnescape s)"
      by (simp add: hex_upper_back)
    with 3 show ?thesis by (simp add: escape_char_def x_def y_def)
  qed
qed

lemma unescape_escape: "QueryUnescape (QueryEscape s) = Some s"
  by (induction s) (simp_all add: QueryEscape_def unescape_char)

definition separator :: "char \<Rightarrow> bool" where
  "separator c \<longleftrightarrow> c \<in> {CHR ''&'', CHR ''='', CHR '';''}"

lemma escape_no_separator: "c \<in> set (QueryEscape s) \<Longrightarrow> \<not> separator c"
proof -
  have hex: "list_all (\<lambda>n. \<not> separator (hex_upper n)) [0..<16]" by code_simp
  have plain: "\<not> unreserved CHR ''&''" "\<not> unreserved CHR ''=''" "\<not> unreserved CHR '';''" by code_simp+
  have "of_char x div 16 < (16 :: nat)" "of_char x mod 16 < (16 :: nat)" for x :: char
    by (simp_all add: less_mult_imp_div_less)
  with hex have digits: "\<not> separator (hex_upper (of_char x div 16))" "\<not> separator (hex_upper (of_char x mod 16))" for x
    by (simp_all add: list_all_iff)
  have "\<forall>c \<in> set (escape_char x). \<not> separator c" for x
  proof (cases "unreserved x")
    case True
    with plain show ?thesis by (auto simp: escape_char_def separator_def)
  next
    case False
    then show ?thesis using digits [of x] by (simp add: escape_char_def) (simp add: separator_def)
  qed
  then show "c \<in> set (QueryEscape s) \<Longrightarrow> \<not> separator c" by (auto simp: QueryEscape_def)
qed

definition pair_text :: "string \<times> string \<Rightarrow> string" where
  "pair_text p = QueryEscape (fst p) @ ''='' @ QueryEscape (snd p)"

lemma add_pair:
  assumes "k \<notin> fst ` set v"
  shows "add_query (pair_text (k, x)) v = v @ [(k, [x])]"
proof -
  have no: "CHR ''='' \<notin> set (QueryEscape k)" "CHR '';'' \<notin> set (QueryEscape k)" "CHR '';'' \<notin> set (QueryEscape x)"
    using escape_no_separator by (auto simp: separator_def)
  then have "cut CHR ''='' (pair_text (k, x)) = (QueryEscape k, QueryEscape x, True)"
    by (simp add: pair_text_def cut_here)
  moreover have "map_of v k = None" using assms by (simp add: map_of_eq_None_iff)
  moreover have "AList.update k [x] v = v @ [(k, [x])]" using assms by (simp add: AList_update_new)
  ultimately show ?thesis using no by (simp add: add_query_def unescape_escape) (simp add: pair_text_def)
qed

lemma add_pairs:
  assumes "distinct (map fst ps)" and "fst ` set ps \<inter> fst ` set v = {}"
  shows "fold add_query (map pair_text ps) v = v @ map (\<lambda>(k, x). (k, [x])) ps"
  using assms
proof (induction ps arbitrary: v)
  case (Cons p ps)
  then show ?case by (cases p) (auto simp: add_pair)
qed simp

text \<open>Keys with one value each.\<close>

definition single :: "url_values \<Rightarrow> bool" where
  "single v \<longleftrightarrow> distinct (map fst v) \<and> list_all (\<lambda>(_, xs). length xs = 1) v"

lemma parse_Encode:
  assumes "single v"
  shows "parse_query (Encode v) = sort_key fst v"
proof -
  define ps where "ps = map (\<lambda>(k, xs). (k, hd xs)) (sort_key fst v)"
  have one: "(k, xs) \<in> set v \<Longrightarrow> \<exists>x. xs = [x]" for k xs
    using assms by (auto simp: single_def list_all_iff length_Suc_conv)
  have "concat (map (\<lambda>(k, xs). map (\<lambda>x. QueryEscape k @ ''='' @ QueryEscape x) xs) (sort_key fst v)) = map pair_text ps"
  proof -
    have "concat (map (\<lambda>(k, xs). map (\<lambda>x. QueryEscape k @ ''='' @ QueryEscape x) xs) vs) =
        map pair_text (map (\<lambda>(k, xs). (k, hd xs)) vs)" if "set vs \<subseteq> set v" for vs
      using that by (induction vs) (force simp: pair_text_def dest: one)+
    then show ?thesis by (simp add: ps_def)
  qed
  then have enc: "Encode v = join ''&'' (map pair_text ps)" by (simp add: Encode_def)
  have no: "\<forall>t \<in> set (map pair_text ps). CHR ''&'' \<notin> set t"
    using escape_no_separator by (auto simp: pair_text_def separator_def)
  have keys: "map fst ps = map fst (sort_key fst v)" by (auto simp: ps_def)
  then have dist: "distinct (map fst ps)" using assms by (simp add: single_def distinct_map)
  have "parse_query (Encode v) = fold add_query (map pair_text ps) []"
  proof (cases "ps = []")
    case True
    then show ?thesis by (simp add: enc parse_query_def add_query_def)
  next
    case False
    then show ?thesis by (simp add: enc parse_query_def split_join [OF _ no])
  qed
  also have "\<dots> = map (\<lambda>(k, x). (k, [x])) ps" using add_pairs [OF dist] by simp
  also have "\<dots> = sort_key fst v"
    using one by (force simp: ps_def intro!: map_idI)
  finally show ?thesis .
qed

lemma update_single: "single v \<Longrightarrow> single (setq k x v)"
proof -
  assume v: "single v"
  have "\<forall>(_, xs) \<in> set (AList.update k [x] v). length xs = 1"
    using v AList_update_subset [of k "[x]" v] by (auto simp: single_def list_all_iff)
  with v show ?thesis by (auto simp: single_def setq_def list_all_iff intro: distinct_update)
qed

lemma Values_single: "single (Values f)"
proof -
  have t: "single v \<Longrightarrow> single (set_text k x v)" and g: "single v \<Longrightarrow> single (set_flag k on v)" for k x on v
    by (simp_all add: set_text_def set_flag_def update_single)
  have "single []" by (simp add: single_def)
  then show ?thesis unfolding Values_def by (intro g t) (auto intro!: t update_single)
qed

lemma getq_sorted: "distinct (map fst v) \<Longrightarrow> getq (sort_key fst v) k = getq v k"
proof -
  assume "distinct (map fst v)"
  then have "map_of (sort_key fst v) k = map_of v k"
    by (metis map_of_inject_set distinct_map set_sort distinct_sort inj_on_cong)
  then show ?thesis by (simp add: getq_def)
qed

lemma getq_set:
  "getq (setq j x v) k = (if j = k then x else getq v k)"
  "getq (set_text j x v) k = (if j = k \<and> x \<noteq> [] then x else getq v k)"
  "getq (set_flag j on v) k = (if j = k \<and> on then ''1'' else getq v k)"
  "getq [] k = []"
  by (simp_all add: getq_def setq_def set_text_def set_flag_def update_conv)

text \<open>A filter as the page reads it from an address.\<close>

definition normal_filter :: "DeviceFilter \<Rightarrow> bool" where
  "normal_filter f \<longleftrightarrow> trim_space (df_Q f) = df_Q f \<and> trim_space (df_Tag f) = df_Tag f \<and>
     df_Status f \<in> {[], ''online'', ''offline''} \<and> df_Kind f \<in> insert [] (set validKinds) \<and>
     0 \<le> df_Subnet f \<and> df_Subnet f < 2 ^ 63"

lemma parsed_normal: "normal_filter (parseDeviceFilter q)"
  using atoi_bound [of "getq q ''subnet''"]
  by (auto simp: normal_filter_def parseDeviceFilter_def trim_trim Let_def split: option.splits)

lemma Values_back: "normal_filter f \<Longrightarrow> getq v = getq (Values f) \<Longrightarrow> parseDeviceFilter v = f"
proof -
  assume f: "normal_filter f" and v: "getq v = getq (Values f)"
  have q: "getq (Values f) ''q'' = df_Q f" "getq (Values f) ''status'' = df_Status f" "getq (Values f) ''kind'' = df_Kind f"
    "getq (Values f) ''tag'' = df_Tag f" "getq (Values f) ''subnet'' = (if 0 < df_Subnet f then string_of_int (df_Subnet f) else [])"
    "getq (Values f) ''new'' = (if df_New f then ''1'' else [])" "getq (Values f) ''private'' = (if df_PrivateMAC f then ''1'' else [])"
    "getq (Values f) ''missing'' = (if df_Missing f then ''1'' else [])"
    by (simp_all add: Values_def getq_set)
  have "atoi [] = None" by code_simp
  then have "df_Subnet (parseDeviceFilter v) = df_Subnet f"
    using f atoi_back [of "df_Subnet f"] by (simp add: parseDeviceFilter_def v q normal_filter_def)
  moreover have "df_Status (parseDeviceFilter v) = df_Status f" "df_Kind (parseDeviceFilter v) = df_Kind f"
    using f by (auto simp: parseDeviceFilter_def v q normal_filter_def Let_def)
  moreover have "df_Q (parseDeviceFilter v) = df_Q f" "df_Tag (parseDeviceFilter v) = df_Tag f"
    "df_New (parseDeviceFilter v) = df_New f" "df_PrivateMAC (parseDeviceFilter v) = df_PrivateMAC f"
    "df_Missing (parseDeviceFilter v) = df_Missing f"
    using f by (simp_all add: parseDeviceFilter_def v q normal_filter_def)
  ultimately show ?thesis by simp
qed

text \<open>
  C33: A filtered list is a link: the address made of the filter in effect, whatever the address that
  was asked for, opens the same filter, through the escapes of a query string and back.
\<close>

theorem filter_link_roundtrip:
  "parseDeviceFilter (parse_query (Encode (Values (parseDeviceFilter q)))) = parseDeviceFilter q"
proof (rule Values_back [OF parsed_normal])
  let ?v = "Values (parseDeviceFilter q)"
  have "getq (sort_key fst ?v) k = getq ?v k" for k
    using Values_single by (intro getq_sorted) (simp add: single_def)
  then show "getq (parse_query (Encode ?v)) = getq ?v" unfolding parse_Encode [OF Values_single] by blast
qed

section \<open>Who shares an address\<close>

lemma ConflictKey_inj: "ConflictKey s a = ConflictKey t b \<longleftrightarrow> s = t \<and> a = b"
proof
  assume eq: "ConflictKey s a = ConflictKey t b"
  have no: "CHR ''|'' \<notin> set (string_of_int i)" for i
  proof -
    have "\<not> is_digit CHR ''|''" by code_simp
    then show ?thesis using string_of_int_chars by blast
  qed
  have "cut CHR ''|'' (ConflictKey s a) = cut CHR ''|'' (ConflictKey t b)" using eq by simp
  then have "string_of_int s = string_of_int t \<and> a = b"
    unfolding ConflictKey_def append_Cons append_Nil cut_here [OF no] by simp
  then show "s = t \<and> a = b" by (simp add: string_of_int_inj)
qed simp

lemma conflict_fold:
  "(let (holders, out) = fold (\<lambda>(i, k). conflict_step i k) ks (Map.empty, {}) in
     (\<forall>k. case holders k of None \<Rightarrow> k \<notin> snd ` set ks | Some i \<Rightarrow> (i, k) \<in> set ks) \<and>
     out = {k. \<exists>i j. i \<noteq> j \<and> (i, k) \<in> set ks \<and> (j, k) \<in> set ks})"
proof (induction ks rule: rev_induct)
  case (snoc x ks)
  obtain i k where x: "x = (i, k)" by (cases x)
  obtain holders out where f: "fold (\<lambda>(i, k). conflict_step i k) ks (Map.empty, {}) = (holders, out)"
    by (cases "fold (\<lambda>(i, k). conflict_step i k) ks (Map.empty, {})")
  have h: "case holders j of None \<Rightarrow> j \<notin> snd ` set ks | Some i \<Rightarrow> (i, j) \<in> set ks" for j
    using snoc f by simp
  have o': "out = {k. \<exists>i j. i \<noteq> j \<and> (i, k) \<in> set ks \<and> (j, k) \<in> set ks}"
    using snoc f by simp
  have run: "fold (\<lambda>(i, k). conflict_step i k) (ks @ [x]) (Map.empty, {}) = conflict_step i k (holders, out)"
    by (simp add: f x)
  show ?case
  proof (cases "holders k")
    case None
    with h [of k] have new: "k \<notin> snd ` set ks" by simp
    have "\<forall>j. case (holders(k \<mapsto> i)) j of None \<Rightarrow> j \<notin> snd ` set (ks @ [x]) | Some i \<Rightarrow> (i, j) \<in> set (ks @ [x])"
    proof
      fix j show "case (holders(k \<mapsto> i)) j of None \<Rightarrow> j \<notin> snd ` set (ks @ [x]) | Some i \<Rightarrow> (i, j) \<in> set (ks @ [x])"
        using h [of j] by (cases "holders j") (auto simp: x)
    qed
    moreover have "out = {k'. \<exists>i j. i \<noteq> j \<and> (i, k') \<in> set (ks @ [x]) \<and> (j, k') \<in> set (ks @ [x])}"
      using new unfolding o' x by force
    moreover have "conflict_step i k (holders, out) = (holders(k \<mapsto> i), out)" using None by (simp add: conflict_step_def)
    ultimately show ?thesis unfolding run by simp
  next
    case (Some l)
    with h [of k] have l: "(l, k) \<in> set ks" by simp
    have "\<forall>j. case holders j of None \<Rightarrow> j \<notin> snd ` set (ks @ [x]) | Some i \<Rightarrow> (i, j) \<in> set (ks @ [x])"
    proof
      fix j show "case holders j of None \<Rightarrow> j \<notin> snd ` set (ks @ [x]) | Some i \<Rightarrow> (i, j) \<in> set (ks @ [x])"
        using h [of j] Some by (cases "holders j") (auto simp: x)
    qed
    moreover have "(if l \<noteq> i then insert k out else out) =
        {k'. \<exists>i j. i \<noteq> j \<and> (i, k') \<in> set (ks @ [x]) \<and> (j, k') \<in> set (ks @ [x])}"
      using l unfolding o' x by auto
    moreover have "conflict_step i k (holders, out) = (holders, if l \<noteq> i then insert k out else out)"
      using Some by (simp add: conflict_step_def)
    ultimately show ?thesis unfolding run by simp
  qed
qed simp

text \<open>A device holds an address in a subnet.\<close>

definition holds :: "device_view \<Rightarrow> int \<Rightarrow> string \<Rightarrow> bool" where
  "holds row sid ip \<longleftrightarrow> (\<exists>x \<in> set (dv_IPs row). ii_SubnetID x = sid \<and> ii_IP x = ip)"

text \<open>
  The conflict marks are exact: an address of a subnet is marked just when two different devices
  hold it there.
\<close>

theorem conflicts_exact:
  "ConflictKey sid ip \<in> ipConflicts rows \<longleftrightarrow>
     (\<exists>a \<in> set rows. \<exists>b \<in> set rows. dev_ID a \<noteq> dev_ID b \<and> holds a sid ip \<and> holds b sid ip)"
proof -
  have held: "(i, ConflictKey sid ip) \<in> set (held_keys rows) \<longleftrightarrow> (\<exists>a \<in> set rows. dev_ID a = i \<and> holds a sid ip)" for i
  proof -
    have "(i, ConflictKey sid ip) \<in> set (held_keys rows) \<longleftrightarrow>
        (\<exists>a \<in> set rows. \<exists>x \<in> set (dv_IPs a). dev_ID a = i \<and> ConflictKey (ii_SubnetID x) (ii_IP x) = ConflictKey sid ip)"
      by (simp add: held_keys_def image_iff) metis
    then show ?thesis unfolding ConflictKey_inj holds_def by blast
  qed
  have "ipConflicts rows = {k. \<exists>i j. i \<noteq> j \<and> (i, k) \<in> set (held_keys rows) \<and> (j, k) \<in> set (held_keys rows)}"
    using conflict_fold [of "held_keys rows"] by (auto simp: ipConflicts_def case_prod_beta)
  then show ?thesis by (simp add: held) blast
qed

section \<open>The rows of a page\<close>

lemma insert_by_mset: "mset (insert_by lt x ys) = add_mset x (mset ys)"
  by (induction ys) auto

lemma set_insert_by: "set (insert_by lt x ys) = insert x (set ys)"
  by (induction ys) auto

lemma stable_sort_mset: "mset (stable_sort lt xs) = mset xs"
  unfolding stable_sort_def by (induction xs) (simp_all add: insert_by_mset)

text \<open>A strict order whose ties are transitive.\<close>

definition weak_order :: "('a \<Rightarrow> 'a \<Rightarrow> bool) \<Rightarrow> bool" where
  "weak_order lt \<longleftrightarrow> (\<forall>a b. lt a b \<longrightarrow> \<not> lt b a) \<and> (\<forall>a b c. \<not> lt a b \<longrightarrow> \<not> lt b c \<longrightarrow> \<not> lt a c)"

definition tied :: "('a \<Rightarrow> 'a \<Rightarrow> bool) \<Rightarrow> 'a \<Rightarrow> 'a \<Rightarrow> bool" where
  "tied lt a b \<longleftrightarrow> \<not> lt a b \<and> \<not> lt b a"

lemma insert_by_sorted:
  assumes "weak_order lt" and "sorted_wrt (\<lambda>a b. \<not> lt b a) ys"
  shows "sorted_wrt (\<lambda>a b. \<not> lt b a) (insert_by lt x ys)"
  using assms(2)
proof (induction ys)
  case (Cons y ys)
  have weak: "\<not> lt b a" if "lt a b" for a b using that assms(1) unfolding weak_order_def by blast
  have trans: "\<not> lt a c" if "\<not> lt a b" "\<not> lt b c" for a b c using that assms(1) unfolding weak_order_def by blast
  note set_insert_by [of lt x ys]
  moreover have "\<forall>z \<in> set ys. \<not> lt z x" if "\<not> lt y x" using that trans Cons.prems by auto
  ultimately show ?case using Cons weak [of y x] by (cases "lt y x") auto
qed simp

lemma insert_by_stable:
  assumes "weak_order lt"
  shows "filter (tied lt z) (insert_by lt x ys) = filter (tied lt z) (x # ys)"
proof (induction ys)
  case (Cons y ys)
  show ?case
  proof (cases "lt y x")
    case True
    then have "\<not> (tied lt z x \<and> tied lt z y)" using assms unfolding weak_order_def tied_def by blast
    with True Cons show ?thesis by (auto simp: tied_def)
  qed simp
qed simp

lemma stable_sort_sorted: "weak_order lt \<Longrightarrow> sorted_wrt (\<lambda>a b. \<not> lt b a) (stable_sort lt xs)"
  unfolding stable_sort_def by (induction xs) (simp_all add: insert_by_sorted)

lemma stable_sort_stable: "weak_order lt \<Longrightarrow> filter (tied lt z) (stable_sort lt xs) = filter (tied lt z) xs"
  unfolding stable_sort_def by (induction xs) (simp_all add: insert_by_stable)

lemma weak_order_key: "(\<And>a b. lt a b \<longleftrightarrow> f a < f b) \<Longrightarrow> weak_order lt \<and> weak_order (\<lambda>a b. lt b a)"
  for f :: "'a \<Rightarrow> 'k::linorder"
  by (auto simp: weak_order_def)

lemma row_less_weak: "weak_order (row_less key) \<and> weak_order (\<lambda>a b. row_less key b a)"
proof -
  consider "key = ''name''" | "key = ''kind''" | "key = ''status''" | "key = ''seen''"
    | "key \<notin> {''name'', ''kind'', ''status'', ''seen''}" by auto
  then show ?thesis
  proof cases
    case 1
    then show ?thesis by (intro weak_order_key [where f = "\<lambda>r. to_lower (dev_Name r)"]) (simp add: row_less_def)
  next
    case 2
    then show ?thesis by (intro weak_order_key [where f = dev_Kind]) (simp add: row_less_def)
  next
    case 3
    then show ?thesis by (intro weak_order_key [where f = "\<lambda>r. \<not> dv_Online r"]) (auto simp: row_less_def)
  next
    case 4
    let ?f = "\<lambda>r :: device_view. (case dv_LastSeen r of None \<Rightarrow> (1 :: nat, 0 :: int) | Some t \<Rightarrow> (0, - t))"
    from 4 show ?thesis
      by (intro weak_order_key [where f = ?f]) (auto simp: row_less_def less_prod_def' split: option.splits)
  next
    case 5
    let ?f = "\<lambda>r :: device_view. (case lowestIP r of None \<Rightarrow> (1 :: nat, 0, 0, []) | Some a \<Rightarrow> (0, bit_len a, addr_num a, zone a))"
    from 5 show ?thesis
      by (intro weak_order_key [where f = ?f]) (auto simp: row_less_def less_prod_def' addr_less_def split: option.splits)
  qed
qed

lemma row_before_weak: "weak_order (row_before key dir)"
  using row_less_weak [of key] by (cases "dir = ''desc''") (simp_all add: row_before_def [abs_def])

text \<open>What the filter asks of a device.\<close>

definition wanted :: "DeviceFilter \<Rightarrow> device_view \<Rightarrow> bool" where
  "wanted f row \<longleftrightarrow> deviceMatches row f \<and> contains_str (to_lower (df_Q f)) (haystack row)"

lemma contains_nothing: "contains_str [] s"
  by (cases s) auto

lemma filtered_wanted: "trim_space (df_Q f) = df_Q f \<Longrightarrow> applyDeviceFilter (filterDevices rows (df_Q f)) f = filter (wanted f) rows"
  by (auto simp: applyDeviceFilter_def filterDevices_def Let_def wanted_def contains_nothing to_lower_def intro!: filter_cong)


end
