(* ===== verification/Web_Audit.thy ===== *)
theory Web_Audit
  imports Web_List
begin

text \<open>
  internal/web/audit.go, the reading side: a page of the audit log for the settings page, and the
  targets of its entries brought up to date. What was recorded names a device by its name and id; the
  page shows the name the device has now, or that it is gone.
\<close>

section \<open>Targets\<close>

definition int64_max :: int where "int64_max = 2 ^ 63 - 1"

text \<open>
  The value \<open>ParseInt(s, 10, 64)\<close> returns beside its error: nothing is 0, too much is the nearest
  number there is.
\<close>

definition parse_int_value :: "string \<Rightarrow> int" where
  "parse_int_value s = (case atoi s of
     Some i \<Rightarrow> i
   | None \<Rightarrow> (case s of
       [] \<Rightarrow> 0
     | c # cs \<Rightarrow>
         if c = CHR ''-'' then (if parse_nat cs = None then 0 else - int64_max - 1)
         else if c = CHR ''+'' then (if parse_nat cs = None then 0 else int64_max)
         else if parse_nat s = None then 0 else int64_max))"

definition all_digits :: "string \<Rightarrow> bool" where
  "all_digits s \<longleftrightarrow> s \<noteq> [] \<and> list_all is_digit s"

text \<open>A word, a blank and a number: \<open>auditDeviceByID\<close> and \<open>auditSubnetByID\<close>.\<close>

definition by_id :: "string \<Rightarrow> string \<Rightarrow> int option" where
  "by_id noun s = (case cut_prefix (noun @ '' '') s of
     Some ds \<Rightarrow> if all_digits ds then Some (parse_int_value ds) else None
   | None \<Rightarrow> None)"

text \<open>
  \<open>auditDeviceNamed\<close>: what is before the last \<open>(#\<close>, digits and a bracket, on one line. The
  digits are those the text ends with, so no other reading fits.
\<close>

definition auditDeviceNamed :: "string \<Rightarrow> (string \<times> int) option" where
  "auditDeviceNamed s = (case cut_prefix ''device '' s of
     None \<Rightarrow> None
   | Some u \<Rightarrow> if u = [] \<or> last u \<noteq> CHR '')'' then None
       else (let w = rev (butlast u); ds = rev (takeWhile is_digit w) in
         case cut_prefix ''#( '' (dropWhile is_digit w) of
           None \<Rightarrow> None
         | Some nm \<Rightarrow> if ds = [] \<or> nm = [] \<or> CHR 0x0A \<in> set nm then None else Some (rev nm, parse_int_value ds)))"

datatype audited_thing = ADevice int "string option" | ASubnet int | AOther

definition audited :: "audit_entry \<Rightarrow> audited_thing" where
  "audited e = (case by_id ''device'' (au_Target e) of
     Some i \<Rightarrow> ADevice i None
   | None \<Rightarrow> (case auditDeviceNamed (au_Target e) of
       Some (name, i) \<Rightarrow> ADevice i (Some name)
     | None \<Rightarrow> (case by_id ''subnet'' (au_Target e) of Some i \<Rightarrow> ASubnet i | None \<Rightarrow> AOther)))"

record AuditTarget =
  at_Text :: string
  at_Href :: string

definition device_now :: "(int \<times> string) list \<Rightarrow> int \<Rightarrow> string option \<Rightarrow> AuditTarget" where
  "device_now names i snap = (case map_of (rev names) i of
     Some name \<Rightarrow> \<lparr>at_Text = name, at_Href = ''/devices/'' @ string_of_int i\<rparr>
   | None \<Rightarrow> (case snap of
       Some name \<Rightarrow> \<lparr>at_Text = ''deleted device '' @ name, at_Href = []\<rparr>
     | None \<Rightarrow> \<lparr>at_Text = ''deleted device'', at_Href = []\<rparr>))"

definition subnet_now :: "subnet list \<Rightarrow> int \<Rightarrow> AuditTarget" where
  "subnet_now subnets i = (case find (\<lambda>sn. sn_ID sn = i) (rev subnets) of
     Some sn \<Rightarrow> \<lparr>at_Text = ''subnet '' @ sn_Name sn, at_Href = ''/subnets/'' @ string_of_int i\<rparr>
   | None \<Rightarrow> \<lparr>at_Text = ''deleted subnet'', at_Href = []\<rparr>)"

definition entry_target :: "(int \<times> string) list \<Rightarrow> subnet list \<Rightarrow> audit_entry \<Rightarrow> AuditTarget option" where
  "entry_target names subnets e = (case audited e of
     ADevice i snap \<Rightarrow> Some (device_now names i snap)
   | ASubnet i \<Rightarrow> Some (subnet_now subnets i)
   | AOther \<Rightarrow> None)"

definition dev_ids_of :: "audit_entry list \<Rightarrow> int list" where
  "dev_ids_of es = remdups (List.map_filter (\<lambda>e. case audited e of ADevice i _ \<Rightarrow> Some i | _ \<Rightarrow> None) es)"

definition names_subnet :: "audit_entry \<Rightarrow> bool" where
  "names_subnet e = (case audited e of ASubnet _ \<Rightarrow> True | _ \<Rightarrow> False)"

definition auditTargets :: "audit_entry list \<Rightarrow> ('s db_scheme, int \<rightharpoonup> AuditTarget) act" where
  "auditTargets es =
     bindA (if dev_ids_of es = [] then ret [] else DeviceNames (dev_ids_of es)) (\<lambda>names.
     bindA (if list_ex names_subnet es then ListSubnets else ret []) (\<lambda>subnets.
     ret (map_of (List.map_filter (\<lambda>e. map_option (Pair (au_ID e)) (entry_target names subnets e)) es))))"

section \<open>A page of the log\<close>

definition auditPageSize :: int where "auditPageSize = 50"

record AuditData =
  ad_Entries :: "audit_entry list"
  ad_More :: bool
  ad_Paged :: bool
  ad_User :: string
  ad_Action :: string
  ad_Users :: "string list"
  ad_Actions :: "string list"
  ad_Targets :: "int \<rightharpoonup> AuditTarget"

definition no_audit :: AuditData where
  "no_audit = \<lparr>ad_Entries = [], ad_More = False, ad_Paged = False, ad_User = [], ad_Action = [],
     ad_Users = [], ad_Actions = [], ad_Targets = Map.empty\<rparr>"

definition auditData :: "url_values \<Rightarrow> ('s db_scheme, AuditData) act" where
  "auditData q = (let before = parse_int_value (getq q ''before'') in
     bindA (ListAudit \<lparr>lf_Username = getq q ''user'', lf_Action = getq q ''action'', lf_BeforeID = before,
                       lf_Limit = auditPageSize\<rparr>) (\<lambda>(es, older).
     bindA (auditTargets es) (\<lambda>targets.
     bindA AuditFacets (\<lambda>(us, as).
     ret \<lparr>ad_Entries = es, ad_More = older, ad_Paged = (0 < before), ad_User = getq q ''user'',
          ad_Action = getq q ''action'', ad_Users = us, ad_Actions = as, ad_Targets = targets\<rparr>))))"

section \<open>What was recorded is found again\<close>

lemma atoi_digits: "0 \<le> i \<Longrightarrow> i \<le> int64_max \<Longrightarrow> parse_int_value (string_of_int i) = i"
  by (simp add: parse_int_value_def atoi_back int64_max_def)

lemma string_of_int_digits: "0 \<le> i \<Longrightarrow> all_digits (string_of_int i)"
  by (auto simp: all_digits_def string_of_int_def list_all_iff string_of_nat_chars)

lemma take_digits: "list_all is_digit ds \<Longrightarrow> \<not> is_digit c \<Longrightarrow>
    takeWhile is_digit (rev ds @ c # w) = rev ds \<and> dropWhile is_digit (rev ds @ c # w) = c # w"
  by (simp add: list_all_iff takeWhile_append dropWhile_append)

lemma cut_prefix_append: "cut_prefix p (p @ s) = Some s"
  by (simp add: cut_prefix_def)

lemma named_back:
  assumes "all_digits ds" "nm \<noteq> []" "CHR 0x0A \<notin> set nm"
  shows "auditDeviceNamed (''device '' @ nm @ '' (#'' @ ds @ '')'') = Some (nm, parse_int_value ds)"
proof -
  let ?u = "nm @ '' (#'' @ ds @ '')''"
  have w: "rev (butlast ?u) = rev ds @ CHR ''#'' # ''( '' @ rev nm" by (simp add: butlast_append)
  have hash: "\<not> is_digit CHR ''#''" by code_simp
  from take_digits [of ds, OF _ hash] assms(1)
  have t: "takeWhile is_digit (rev (butlast ?u)) = rev ds" "dropWhile is_digit (rev (butlast ?u)) = ''#( '' @ rev nm"
    unfolding w all_digits_def by simp_all
  have u: "?u \<noteq> []" "last ?u = CHR '')''" by simp_all
  show ?thesis
    unfolding auditDeviceNamed_def cut_prefix_append option.case Let_def t
    using u assms by (simp add: all_digits_def)
qed

lemma not_by_id:
  assumes "CHR '')'' \<in> set s"
  shows "by_id noun s = None \<or> CHR '')'' \<in> set noun"
proof -
  have "\<not> is_digit CHR '')''" by code_simp
  then show ?thesis using assms set_append [of "noun @ '' ''" "drop (length noun + 1) s"]
    by (auto simp: by_id_def cut_prefix_def all_digits_def list_all_iff prefix_def split: if_splits)
qed

lemma deviceTarget_found:
  assumes "dev_Name d \<noteq> []" "CHR 0x0A \<notin> set (dev_Name d)" "0 \<le> dev_ID d" "dev_ID d \<le> int64_max"
    and "au_Target e = deviceTarget d"
  shows "audited e = ADevice (dev_ID d) (Some (dev_Name d))"
  using not_by_id [of "deviceTarget d" "''device''"]
    named_back [OF string_of_int_digits [OF assms(3)] assms(1,2)] atoi_digits [OF assms(3,4)] assms(5)
  by (simp add: audited_def deviceTarget_def)

lemma pattern_found:
  assumes "0 \<le> i" "i \<le> int64_max"
  shows "by_id noun (noun @ '' '' @ string_of_int i) = Some i"
  using cut_prefix_append [of "noun @ '' ''" "string_of_int i"] string_of_int_digits [OF assms(1)] atoi_digits [OF assms]
  by (simp add: by_id_def)

definition shown_device :: "tables \<Rightarrow> device \<Rightarrow> AuditTarget" where
  "shown_device t d = (case find (\<lambda>x. dev_ID x = dev_ID d) (t_device t) of
     Some x \<Rightarrow> \<lparr>at_Text = dev_Name x, at_Href = ''/devices/'' @ string_of_int (dev_ID d)\<rparr>
   | None \<Rightarrow> \<lparr>at_Text = ''deleted device '' @ dev_Name d, at_Href = []\<rparr>)"

definition namable :: "device \<Rightarrow> bool" where
  "namable d \<longleftrightarrow> dev_Name d \<noteq> [] \<and> CHR 0x0A \<notin> set (dev_Name d) \<and> 0 \<le> dev_ID d \<and> dev_ID d \<le> int64_max"

lemma map_of_rev: "distinct (map fst xs) \<Longrightarrow> map_of (rev xs) = map_of xs"
  by (subst map_of_inject_set) (simp_all add: rev_map [symmetric])

lemma map_of_rows: "i \<in> X \<Longrightarrow> map_of (map (\<lambda>d. (dev_ID d, dev_Name d)) (filter (\<lambda>d. dev_ID d \<in> X) rows)) i =
    map_option dev_Name (find (\<lambda>x. dev_ID x = i) rows)"
  by (induction rows) auto

lemma DeviceNames_shows:
  assumes "distinct (map dev_ID (t_device (tabs s)))" "dev_ID d \<in> set ids"
  shows "wp (DeviceNames ids) (\<lambda>x s'. tabs s' = tabs s \<and>
    (case x of Inl _ \<Rightarrow> True | Inr names \<Rightarrow> device_now names (dev_ID d) (Some (dev_Name d)) = shown_device (tabs s) d)) s"
proof -
  let ?rows = "filter (\<lambda>x. dev_ID x \<in> set ids) (t_device (tabs s))"
  have "distinct (map fst (map (\<lambda>x. (dev_ID x, dev_Name x)) ?rows))"
    using assms(1) by (simp add: o_def distinct_map_filter)
  from map_of_rev [OF this] map_of_rows [OF assms(2), of "t_device (tabs s)"]
  have "device_now (map (\<lambda>x. (dev_ID x, dev_Name x)) ?rows) (dev_ID d) (Some (dev_Name d)) = shown_device (tabs s) d"
    by (simp add: device_now_def shown_device_def split: option.split)
  moreover have "ids \<noteq> []" using assms(2) by auto
  ultimately show ?thesis unfolding DeviceNames_def by (auto simp: wp_simps intro!: wp_query)
qed

lemma entry_listed:
  assumes "e \<in> set es" "distinct (map au_ID es)"
  shows "map_of (List.map_filter (\<lambda>e. map_option (Pair (au_ID e)) (f e)) es) (au_ID e) = f e"
  using assms
proof (induction es)
  case (Cons x es)
  have "map_of (List.map_filter (\<lambda>e. map_option (Pair (au_ID e)) (f e)) es) k = None" if "k \<notin> set (map au_ID es)" for k
    using that by (induction es) (auto simp: List.map_filter_simps split: option.split)
  moreover have "e \<in> set es \<Longrightarrow> au_ID e \<noteq> au_ID x" using Cons.prems(2) by (metis distinct.simps(2) image_eqI list.simps(9) set_map)
  ultimately show ?case using Cons by (auto simp: List.map_filter_simps split: option.split)
qed simp

text \<open>
  What the audit log recorded of a device, whatever its name is made of, is shown as the name that
  device has now, with a link to it, or with the name it had as deleted; never as another device.
\<close>

theorem audit_shows_the_device:
  "if e \<in> set es \<and> distinct (map au_ID es) \<and> distinct (map dev_ID (t_device (tabs s))) \<and> namable d \<and> au_Target e = deviceTarget d
   then case auditTargets es s of
       (Inl _, _) \<Rightarrow> True
     | (Inr targets, s') \<Rightarrow> tabs s' = tabs s \<and> targets (au_ID e) = Some (shown_device (tabs s) d)
   else True"
proof (cases "e \<in> set es \<and> distinct (map au_ID es) \<and> distinct (map dev_ID (t_device (tabs s))) \<and> namable d \<and> au_Target e = deviceTarget d")
  case True
  then have a: "audited e = ADevice (dev_ID d) (Some (dev_Name d))" and e: "e \<in> set es" "distinct (map au_ID es)"
    using deviceTarget_found [of d e] by (simp_all add: namable_def)
  then have i: "dev_ID d \<in> set (dev_ids_of es)" by (force simp: dev_ids_of_def List.map_filter_def)
  then have some: "dev_ids_of es \<noteq> []" by auto
  note listed = entry_listed [OF e]
  have "wp (auditTargets es) (\<lambda>x s'. case x of Inl _ \<Rightarrow> True
      | Inr targets \<Rightarrow> tabs s' = tabs s \<and> targets (au_ID e) = Some (shown_device (tabs s) d)) s"
    unfolding auditTargets_def wp_simps if_not_P [OF some]
    by (rule wp_mono [OF DeviceNames_shows [OF _ i]])
      (use True in \<open>auto simp: wp_simps ListSubnets_def listed entry_target_def a intro!: wp_query split: sum.splits\<close>)
  then show ?thesis using True by (auto simp: wp_def split: sum.splits prod.splits)
next
  case False
  show ?thesis unfolding if_not_P [OF False] by blast
qed

end
