(* ===== verification/Page_Rules.thy ===== *)
theory Page_Rules
  imports Action_Rules
begin

text \<open>
  Pages only read: rules for actions that leave the tables alone and whose answer, when they have one,
  is a function of what the tables hold.
\<close>

section \<open>Reading\<close>

definition reads :: "tables \<Rightarrow> ('s db_scheme, 'a) act \<Rightarrow> ('a \<Rightarrow> bool) \<Rightarrow> bool" where
  "reads t m P \<longleftrightarrow> (\<forall>s. tabs s = t \<longrightarrow> wp m (\<lambda>x s'. tabs s' = t \<and> (case x of Inl _ \<Rightarrow> True | Inr a \<Rightarrow> P a)) s)"

named_theorems reading \<open>what reading actions answer\<close>

lemma readsD: "reads (tabs s) m P \<Longrightarrow> case m s of (Inl _, s') \<Rightarrow> tabs s' = tabs s | (Inr a, s') \<Rightarrow> tabs s' = tabs s \<and> P a"
proof -
  assume "reads (tabs s) m P"
  then have "wp m (\<lambda>x s'. tabs s' = tabs s \<and> (case x of Inl _ \<Rightarrow> True | Inr a \<Rightarrow> P a)) s" by (simp add: reads_def)
  then show ?thesis by (cases "m s"; cases "fst (m s)") (simp_all add: wp_def)
qed

lemma reads_mono: "reads t m P \<Longrightarrow> (\<And>a. P a \<Longrightarrow> Q a) \<Longrightarrow> reads t m Q"
  unfolding reads_def by (intro allI impI, erule allE, erule (1) impE, erule wp_mono) (auto split: sum.splits)

lemma reads_ret [reading]: "P a \<Longrightarrow> reads t (ret a) P"
  by (simp add: reads_def wp_simps)

lemma reads_pair: "P a \<Longrightarrow> reads t (Pair (Inr a)) P"
  by (simp add: reads_def wp_def)

lemma reads_fail [reading]: "reads t (fail e) P"
  by (simp add: reads_def wp_simps)

lemma reads_bind:
  assumes "reads t m P" and "\<And>a. P a \<Longrightarrow> reads t (k a) Q"
  shows "reads t (bindA m k) Q"
  unfolding reads_def wp_bind
proof (intro allI impI)
  fix s :: "'a db_scheme" assume s: "tabs s = t"
  show "wp m (\<lambda>x s'. case x of Inl e \<Rightarrow> tabs s' = t \<and> (case Inl e of Inl _ \<Rightarrow> True | Inr a \<Rightarrow> Q a)
      | Inr a \<Rightarrow> wp (k a) (\<lambda>x s'. tabs s' = t \<and> (case x of Inl _ \<Rightarrow> True | Inr a \<Rightarrow> Q a)) s') s"
    by (rule wp_mono [OF assms(1) [unfolded reads_def, rule_format, OF s]])
      (use assms(2) in \<open>auto simp: reads_def split: sum.splits\<close>)
qed

lemma reads_attempt: "reads t m P \<Longrightarrow> reads t (attempt m) (\<lambda>x. case x of Inl _ \<Rightarrow> True | Inr a \<Rightarrow> P a)"
  unfolding reads_def wp_attempt by simp

lemma reads_query: "P (f t) \<Longrightarrow> reads t (query f) P"
  unfolding reads_def by (auto intro!: wp_query)

lemma reads_row: "(\<And>a. f t = Some a \<Longrightarrow> P a) \<Longrightarrow> reads t (query_row f) P"
  unfolding reads_def by (auto intro!: wp_query_row)

lemma reads_find: "P (f t) \<Longrightarrow> reads t (find_row f) P"
  unfolding reads_def by (auto intro!: wp_find)

lemma reads_if [reading]: "(b \<Longrightarrow> reads t m P) \<Longrightarrow> (\<not> b \<Longrightarrow> reads t n P) \<Longrightarrow> reads t (if b then m else n) P"
  by simp

text \<open>What keeps every property of the tables reads.\<close>

lemma keeps_reads: "(\<And>J. keeps (\<lambda>s. J (tabs s)) m) \<Longrightarrow> reads t m (\<lambda>_. True)"
proof -
  assume k: "\<And>J. keeps (\<lambda>s. J (tabs s)) m"
  have "keeps (\<lambda>s. tabs s = t) m" by (rule k [of "\<lambda>x. x = t"])
  then show ?thesis by (auto simp: reads_def wp_def keeps_def split: prod.splits sum.splits)
qed

lemma reads_foldA:
  assumes "P [] b0" and "\<And>xs x b. P xs b \<Longrightarrow> reads t (f x b) (P (xs @ [x]))"
  shows "reads t (foldA f ys b0) (P ys)"
proof -
  have "reads t (foldA f zs b) (P (xs @ zs))" if "P xs b" for xs zs b
    using that
  proof (induction zs arbitrary: xs b)
    case (Cons z zs)
    have "reads t (foldA f zs c) (P (xs @ z # zs))" if "P (xs @ [z]) c" for c
      using Cons.IH [OF that] by simp
    then show ?case unfolding foldA.simps by (rule reads_bind [OF assms(2) [OF Cons.prems]])
  qed (simp add: reads_ret)
  from this [OF assms(1), of ys] show ?thesis by simp
qed

section \<open>Settings\<close>

lemma reads_setting: "reads t (GetSetting cr k) (\<lambda>_. True)"
  by (rule keeps_reads) (rule keeps_setting)

end
