(* ===== verification/Web_Config.thy ===== *)
theory Web_Config
  imports Web_Audit Web_Settings Notify_Service Sync_WireGuard Page_Rules
begin

text \<open>
  internal/web/settings.go, settings_integrations.go, notifications.go and integrations_run.go: the
  pages of the settings with what each of them shows to whom, and the forms that write settings. What
  the network interfaces of the host, the random source and \<open>url.Parse\<close> answer are arguments; build
  information and uptime are left out.
\<close>

section \<open>Which page\<close>

definition adminSettings :: "string list" where
  "adminSettings = [''network'', ''integrations'', ''notifications'', ''tags'', ''users'', ''audit'', ''system'']"

definition legacySettingsTabs :: "(string \<times> string) list" where
  "legacySettingsTabs = [(''subnets'', ''network''), (''general'', ''network''), (''integrations'', ''integrations''),
     (''users'', ''users''), (''notifications'', ''notifications''), (''audit'', ''audit''), (''about'', ''system''),
     (''tokens'', ''tokens'')]"

definition handleSettingsPage :: "user option \<Rightarrow> url_values \<Rightarrow> 's handler" where
  "handleSettingsPage me q0 = (let tab = getq q0 ''tab''; q = AList.delete ''tab'' q0;
       dest = (case map_of legacySettingsTabs tab of
           None \<Rightarrow> ''/settings/account''
         | Some page \<Rightarrow> if page \<notin> set adminSettings \<or> isAdmin me then ''/settings/'' @ page
             else if tab = ''subnets'' then ''/subnets'' else ''/settings/account'') in
     answer (Redirect (if q \<noteq> [] \<and> dest = ''/settings/audit'' then dest @ ''?'' @ Encode q else dest)))"

section \<open>Settings of the integrations\<close>

definition settingsKeys :: "string list" where
  "settingsKeys = [
     ''proxmox_url'', ''proxmox_token_id'', ''proxmox_secret'', ''proxmox_insecure'',
     ''wg_ssh_addr'', ''wg_ssh_user'', ''wg_ssh_key_path'', ''wg_ssh_known_hosts'', ''wg_iface'',
     ''pihole_url'', ''pihole_password'', ''pihole_insecure'',
     ''adguard_url'', ''adguard_user'', ''adguard_password'', ''adguard_insecure'',
     ''opnsense_url'', ''opnsense_key'', ''opnsense_secret'', ''opnsense_insecure'']"

definition formSecrets :: "string list" where
  "formSecrets = [''proxmox_secret'', ''pihole_password'', ''adguard_password'', ''opnsense_secret'']"

definition integration_prefixes :: "(string \<times> string) list" where
  "integration_prefixes = [(''proxmox'', ''proxmox_''), (''wireguard'', ''wg_''), (''pihole'', ''pihole_''),
     (''adguard'', ''adguard_''), (''opnsense'', ''opnsense_'')]"

definition integrationKeys :: "string \<Rightarrow> string list" where
  "integrationKeys name = (case map_of integration_prefixes name of
     None \<Rightarrow> [] | Some p \<Rightarrow> filter (prefix p) settingsKeys)"

text \<open>What the form's value is stored as: a checkbox is 1 or empty.\<close>

definition form_setting :: "string \<Rightarrow> string \<Rightarrow> string" where
  "form_setting k v = (if suffix ''_insecure'' k then (if v = ''on'' then ''1'' else []) else v)"

definition save_key :: "server \<Rightarrow> (string \<Rightarrow> string option) \<Rightarrow> request \<Rightarrow> string \<Rightarrow> ('s db_scheme, unit) act" where
  "save_key sv rand r k = (let v = rq_Form r k in
     if k \<in> set formSecrets \<and> v = [] then ret ()
     else SetSetting (sv_crypter sv) (rand k) k (form_setting k v))"

text \<open>\<open>strconv.Quote\<close> of text whose runes beyond ASCII are printable.\<close>

definition quote_char :: "char \<Rightarrow> string" where
  "quote_char c = (case map_of [(CHR 0x22, CHR 0x22), (CHR 0x5C, CHR 0x5C), (CHR 0x07, CHR ''a''), (CHR 0x08, CHR ''b''),
       (CHR 0x0C, CHR ''f''), (CHR 0x0A, CHR ''n''), (CHR 0x0D, CHR ''r''), (CHR 0x09, CHR ''t''), (CHR 0x0B, CHR ''v'')] c of
     Some d \<Rightarrow> [CHR 0x5C, d]
   | None \<Rightarrow> if c < CHR 0x20 \<or> c = CHR 0x7F
       then CHR 0x5C # ''x'' @ [hex_digit (of_char c div 16), hex_digit (of_char c mod 16)] else [c])"

definition Quote :: "string \<Rightarrow> string" where
  "Quote s = CHR 0x22 # concat (map quote_char s) @ [CHR 0x22]"

text \<open>The keys a form saves, or why it is refused (\<open>badInput\<close>).\<close>

definition form_keys :: "request \<Rightarrow> string + string list" where
  "form_keys r = (let name = rq_Form r ''integration''; ifn = rq_Form r ''wg_iface'' in
     if name \<noteq> [] \<and> integrationKeys name = [] then Inl (''unknown integration '' @ Quote name)
     else (case (if ifn = [] then None else ValidIface ifn) of
         Some e \<Rightarrow> Inl (error_text e)
       | None \<Rightarrow> Inr (if name = [] then settingsKeys else integrationKeys name)))"

definition saveIntegrationSettings :: "server \<Rightarrow> (string \<Rightarrow> string option) \<Rightarrow> request \<Rightarrow> ('s db_scheme, string option) act" where
  "saveIntegrationSettings sv rand r = (case form_keys r of
     Inl msg \<Rightarrow> ret (Some msg)
   | Inr keys \<Rightarrow> thenA (forA keys (save_key sv rand r)) (ret None))"

definition handleIntegrationsSave :: "server \<Rightarrow> (string \<Rightarrow> string option) \<Rightarrow> request \<Rightarrow> 's handler" where
  "handleIntegrationsSave sv rand r = orFail (saveIntegrationSettings sv rand r) (\<lambda>bad. case bad of
     Some msg \<Rightarrow> answer (SettingsError ''integrations'' 400 msg)
   | None \<Rightarrow> (let name = rq_Form r ''integration'' in
       answer (Redirect (''/settings/integrations'' @ (if integrationKeys name \<noteq> [] then ''#integration-'' @ name else [])))))"

text \<open>\<open>integrationValues\<close> and \<open>configuredIntegrations\<close> of welcome.go.\<close>

definition read_settings :: "server \<Rightarrow> string list \<Rightarrow> ('s db_scheme, (string \<times> string) list) act" where
  "read_settings sv keys = foldA (\<lambda>k out. bindA (GetSetting (sv_crypter sv) k) (\<lambda>v. ret (out @ [(k, v)]))) keys []"

definition value_of :: "(string \<times> string) list \<Rightarrow> string \<Rightarrow> string" where
  "value_of vs k = (case map_of vs k of None \<Rightarrow> [] | Some v \<Rightarrow> v)"

definition shownKeys :: "string list" where
  "shownKeys = filter (\<lambda>k. k \<notin> set formSecrets) settingsKeys"

definition configuredIntegrations :: "(string \<times> string) list \<Rightarrow> (string \<times> bool) list" where
  "configuredIntegrations vs = [(''proxmox'', value_of vs ''proxmox_url'' \<noteq> []), (''wireguard'', value_of vs ''wg_ssh_addr'' \<noteq> []),
     (''pihole'', value_of vs ''pihole_url'' \<noteq> []), (''adguard'', value_of vs ''adguard_url'' \<noteq> []),
     (''opnsense'', value_of vs ''opnsense_url'' \<noteq> [])]"

definition integrationValues :: "server \<Rightarrow> ('s db_scheme, (string \<times> string) list \<times> (string \<times> bool) list) act" where
  "integrationValues sv = bindA (read_settings sv shownKeys) (\<lambda>vs. ret (vs, configuredIntegrations vs))"

definition middot :: string where "middot = [CHR 0xC2, CHR 0xB7]"

text \<open>A run on demand; \<open>run_err\<close> is what the runner answers, none for no runner at all.\<close>

datatype run_answer = NoRunner | RunBusy | Ran "error option"

definition after_run :: "string \<Rightarrow> error option \<Rightarrow> integration_status option \<Rightarrow> string" where
  "after_run title run_err st = (case st of
     None \<Rightarrow> if run_err \<noteq> None then title @ '' is not set up yet; configure it first'' else title @ '' ran''
   | Some x \<Rightarrow> title @ (if is_OK x then '' ran and is connected'' else '' ran and is failing'') @
       (if is_Detail x \<noteq> [] then '' '' @ middot @ '' '' @ is_Detail x else []))"

definition handleIntegrationRun :: "run_answer \<Rightarrow> string \<Rightarrow> 's handler" where
  "handleIntegrationRun answered name = (case map_of IntegrationTitles name of
     None \<Rightarrow> answer (Failure 400 ''netis has no integration by that name'')
   | Some title \<Rightarrow> (case answered of
       NoRunner \<Rightarrow> answer (Toast ''Integrations cannot be run from here on this server'')
     | RunBusy \<Rightarrow> answer (Toast (title @ '' is already running; wait for it to finish''))
     | Ran e \<Rightarrow> bindA (attempt ListIntegrationStatus) (\<lambda>x.
         answer (Toast (after_run title e (case x of Inl _ \<Rightarrow> None | Inr sts \<Rightarrow> find (\<lambda>st. is_Name st = name) sts))))))"

section \<open>General settings\<close>

definition retentionLabels :: "(string \<times> string) list" where
  "retentionLabels = [(''event_retention_days'', ''event history''), (''availability_retention_days'', ''availability history''),
     (''audit_retention_days'', ''audit log'')]"

text \<open>
  One field of the form: left alone when it is not there, refused when it is not fit, and else stored
  before the fields after it are looked at.
\<close>

definition set_then :: "server \<Rightarrow> (string \<Rightarrow> string option) \<Rightarrow> string \<Rightarrow> string \<Rightarrow> 's handler \<Rightarrow> 's handler" where
  "set_then sv rand k v after = orFail (SetSetting (sv_crypter sv) (rand k) k v) (\<lambda>_. after)"

definition choice_field :: "server \<Rightarrow> (string \<Rightarrow> string option) \<Rightarrow> request \<Rightarrow> string \<Rightarrow> string \<Rightarrow> string list \<Rightarrow> string \<Rightarrow> 's handler \<Rightarrow> 's handler" where
  "choice_field sv rand r tab k vals msg after = (let v = rq_Form r k in
     if v = [] then after
     else if v \<notin> set vals then answer (SettingsError tab 400 msg)
     else set_then sv rand k v after)"

definition number_field :: "server \<Rightarrow> (string \<Rightarrow> string option) \<Rightarrow> request \<Rightarrow> string \<Rightarrow> string \<Rightarrow> bool \<Rightarrow> int \<Rightarrow> int option \<Rightarrow> string \<Rightarrow> 's handler \<Rightarrow> 's handler" where
  "number_field sv rand r tab k needed lo hi msg after = (let v = rq_Form r k in
     if v = [] \<and> \<not> needed then after
     else (case atoi v of
         None \<Rightarrow> answer (SettingsError tab 400 msg)
       | Some n \<Rightarrow> if n < lo \<or> (case hi of None \<Rightarrow> False | Some h \<Rightarrow> h < n) then answer (SettingsError tab 400 msg)
           else set_then sv rand k (string_of_int n) after))"

definition retention_field :: "server \<Rightarrow> (string \<Rightarrow> string option) \<Rightarrow> request \<Rightarrow> string \<Rightarrow> string \<times> string \<Rightarrow> 's handler \<Rightarrow> 's handler" where
  "retention_field sv rand r tab kl after =
     number_field sv rand r tab (fst kl) False 0 None (snd kl @ '' must be a whole number of days, 0 or more'') after"

definition general_tab :: "request \<Rightarrow> string" where
  "general_tab r = (if rq_Form r ''section'' = ''system'' then ''system'' else ''network'')"

text \<open>Turning autofill on or off wakes its service too, which no answer shows.\<close>

definition handleGeneralSave :: "server \<Rightarrow> (string \<Rightarrow> string option) \<Rightarrow> request \<Rightarrow> 's handler" where
  "handleGeneralSave sv rand r = (let tab = general_tab r in
     number_field sv rand r tab ''offline_after'' (tab = ''network'') 1 (Some 10) ''Offline after must be a whole number from 1 to 10''
     (number_field sv rand r tab ''default_scan_interval_sec'' False 30 None
        ''the scan interval must be a whole number of seconds, 30 or more''
     (choice_field sv rand r tab ''default_subnet_kind'' [''lan'', ''wireguard'', ''proxmox-bridge''] ''choose a subnet kind from the list''
     (choice_field sv rand r tab ''default_scan_enabled'' [''on'', ''off''] ''choose whether new subnets are scanned: On or Off''
     (choice_field sv rand r tab ''presence_fallback'' [''on'', ''off''] ''choose a presence fallback from the list''
     (choice_field sv rand r tab ''autofill_enabled'' [''on'', ''off''] ''choose whether netis fills in device details: On or Off''
     (foldr (retention_field sv rand r tab) retentionLabels
       (answer (Redirect (''/settings/'' @ tab))))))))))"

section \<open>Notifications\<close>

definition url_keys :: "string list" where
  "url_keys = [''notify_base_url'', ''notify_webhook_url'', ''notify_ntfy_url'']"

definition credential_keys :: "string list" where
  "credential_keys = [''notify_webhook_auth'', ''notify_ntfy_token'']"

definition first_bad_url :: "(string \<Rightarrow> (string \<times> string) option) \<Rightarrow> request \<Rightarrow> error option" where
  "first_bad_url parse r = (case List.map_filter (\<lambda>k. ValidURL parse (trim_space (rq_Form r k))) url_keys of
     [] \<Rightarrow> None | e # _ \<Rightarrow> Some e)"

definition save_credential :: "server \<Rightarrow> (string \<Rightarrow> string option) \<Rightarrow> request \<Rightarrow> string \<Rightarrow> ('s db_scheme, unit) act" where
  "save_credential sv rand r k = (let v = trim_space (rq_Form r k) in
     if rq_Form r (k @ ''_clear'') = ''on'' then SetSetting (sv_crypter sv) (rand k) k []
     else if v = [] then ret ()
     else SetSetting (sv_crypter sv) (rand k) k v)"

definition group_value :: "request \<Rightarrow> string \<Rightarrow> string" where
  "group_value r k = (if rq_Form r k = ''on'' then ''1'' else ''0'')"

text \<open>The URLs are stored in the random order of a Go map, \<open>order\<close>.\<close>

definition handleNotificationsSave :: "server \<Rightarrow> (string \<Rightarrow> (string \<times> string) option) \<Rightarrow> (string \<Rightarrow> string option) \<Rightarrow> string list \<Rightarrow> request \<Rightarrow> 's handler" where
  "handleNotificationsSave sv parse rand order r = (case first_bad_url parse r of
     Some e \<Rightarrow> answer (SettingsError ''notifications'' 400 (error_text e))
   | None \<Rightarrow>
       orFail (forA order (\<lambda>k. SetSetting (sv_crypter sv) (rand k) k (trim_space (rq_Form r k)))) (\<lambda>_.
       orFail (forA credential_keys (save_credential sv rand r)) (\<lambda>_.
       orFail (forA (map gr_Key Groups) (\<lambda>k. SetSetting (sv_crypter sv) (rand k) k (group_value r k))) (\<lambda>_.
       answer (Redirect ''/settings/notifications'')))))"

definition one_line :: "string \<Rightarrow> string" where
  "one_line s = replace_char CHR 0x0A ''; '' s"

definition send_error_text :: "string \<times> send_error \<Rightarrow> string" where
  "send_error_text x = fst x @ '': '' @ (case snd x of Permanent m \<Rightarrow> m | Transient m \<Rightarrow> m)"

definition handleNotificationsTest :: "http_env \<Rightarrow> server \<Rightarrow> time \<Rightarrow> 's handler" where
  "handleNotificationsTest h sv now = bindA (attempt (SendTest h (sv_crypter sv) now)) (\<lambda>x. answer (Toast (case x of
     Inl e \<Rightarrow> ''Test notification failed: '' @ one_line (error_text e)
   | Inr [] \<Rightarrow> ''Test notification sent''
   | Inr errs \<Rightarrow> ''Test notification failed: '' @ one_line (join [CHR 0x0A] (map send_error_text errs)))))"

record NotifyGroup =
  ng_Key :: string
  ng_Label :: string
  ng_Help :: string
  ng_On :: bool

record NotifyData =
  nd_BaseURL :: string
  nd_WebhookURL :: string
  nd_NtfyURL :: string
  nd_HasWebhookAuth :: bool
  nd_HasNtfyToken :: bool
  nd_Groups :: "NotifyGroup list"

definition no_notify :: NotifyData where
  "no_notify = \<lparr>nd_BaseURL = [], nd_WebhookURL = [], nd_NtfyURL = [], nd_HasWebhookAuth = False, nd_HasNtfyToken = False, nd_Groups = []\<rparr>"

definition notifyData :: "server \<Rightarrow> ('s db_scheme, NotifyData) act" where
  "notifyData sv = bindA (LoadConfig (sv_crypter sv)) (\<lambda>c. ret
     \<lparr>nd_BaseURL = co_BaseURL c, nd_WebhookURL = co_WebhookURL c, nd_NtfyURL = co_NtfyURL c,
      nd_HasWebhookAuth = (co_WebhookAuth c \<noteq> []), nd_HasNtfyToken = (co_NtfyToken c \<noteq> []),
      nd_Groups = map (\<lambda>g. \<lparr>ng_Key = gr_Key g, ng_Label = gr_Label g, ng_Help = gr_Help g, ng_On = (gr_Key g \<notin> set (co_Off c))\<rparr>) Groups\<rparr>)"

section \<open>What a page shows\<close>

record BackupStatus =
  bs_LastAttempt :: "stamp option"
  bs_OK :: bool
  bs_LastSuccess :: "stamp option"
  bs_File :: string

record BackupView =
  bv_Failed :: bool
  bv_At :: "stamp option"
  bv_File :: string
  bv_Note :: string

definition backup_note :: "string \<Rightarrow> BackupView" where
  "backup_note n = \<lparr>bv_Failed = False, bv_At = None, bv_File = [], bv_Note = n\<rparr>"

definition backupSummary :: "bool \<Rightarrow> BackupStatus option \<Rightarrow> BackupView" where
  "backupSummary postgres backups = (case backups of
     Some st \<Rightarrow>
       if bs_LastAttempt st \<noteq> None \<and> \<not> bs_OK st then \<lparr>bv_Failed = True, bv_At = bs_LastAttempt st, bv_File = [], bv_Note = []\<rparr>
       else if bs_LastSuccess st = None then backup_note ''None yet''
       else \<lparr>bv_Failed = False, bv_At = bs_LastSuccess st, bv_File = bs_File st, bv_Note = []\<rparr>
   | None \<Rightarrow> if postgres then backup_note ''Not available on Postgres; back up with pg_dump''
       else backup_note ''Off; set NETIS_BACKUP_DIR to turn it on'')"

text \<open>What the settings pages know of the world around them.\<close>

record surroundings =
  su_Detected :: "(string \<times> string) list option"
  su_Postgres :: bool
  su_Backups :: "BackupStatus option"
  su_Now :: time

record SettingsData =
  sd_Subnets :: "subnet list"
  sd_Users :: "user list"
  sd_Values :: "(string \<times> string) list"
  sd_Configured :: "(string \<times> bool) list"
  sd_Sessions :: "session_row list"
  sd_CurrentSessionID :: string
  sd_CurrentUserID :: int
  sd_ActiveTab :: string
  sd_Detected :: "(string \<times> string) list"
  sd_Statuses :: "string \<rightharpoonup> integration_status"
  sd_Tokens :: "token_row list"
  sd_SSO :: "bool \<times> bool"
  sd_Notify :: NotifyData
  sd_Tags :: "(tag \<times> nat) list"
  sd_Audit :: AuditData
  sd_Backup :: BackupView

definition generalKeys :: "string list" where
  "generalKeys = [''default_scan_interval_sec'', ''default_subnet_kind'', ''default_scan_enabled'', ''event_retention_days'',
     ''availability_retention_days'', ''audit_retention_days'', ''presence_fallback'', ''autofill_enabled'']"

definition settings_tab :: "user option \<Rightarrow> string \<Rightarrow> string" where
  "settings_tab me tab = (if tab \<in> {''account'', ''sessions'', ''tokens''} then tab
     else if tab \<in> set adminSettings \<and> isAdmin me then tab else ''account'')"

definition new_detected :: "surroundings \<Rightarrow> string \<Rightarrow> subnet list \<Rightarrow> (string \<times> string) list" where
  "new_detected su tab subnets = (case su_Detected su of
     None \<Rightarrow> []
   | Some ds \<Rightarrow> if tab = ''network'' then filter (\<lambda>d. fst d \<notin> sn_CIDR ` set subnets) ds else [])"

definition my_id :: "user option \<Rightarrow> int" where
  "my_id me = (case me of None \<Rightarrow> 0 | Some u \<Rightarrow> us_ID u)"

text \<open>Loaded on its own page only.\<close>

definition on_tab :: "bool \<Rightarrow> 'a \<Rightarrow> ('s, 'a) act \<Rightarrow> ('s, 'a) act" where
  "on_tab b none m = (if b then m else ret none)"

definition settingsData :: "server \<Rightarrow> surroundings \<Rightarrow> user option \<Rightarrow> request \<Rightarrow> url_values \<Rightarrow> string \<Rightarrow> ('s db_scheme, SettingsData) act" where
  "settingsData sv su me r q tab0 = (let admin = isAdmin me; tab = settings_tab me tab0 in
     bindA ListSubnets (\<lambda>subnets.
     bindA (on_tab admin [] ListUsers) (\<lambda>users.
     bindA (read_settings sv (shownKeys @ ''offline_after'' # generalKeys)) (\<lambda>vs.
     bindA (on_tab (tab = ''sessions'') [] (ListSessionsForUser (my_id me) (su_Now su))) (\<lambda>sessions.
     bindA (on_tab (tab = ''account'' \<and> sv_oidc sv \<noteq> None) False (OIDCLinked (my_id me))) (\<lambda>linked.
     bindA (on_tab (tab = ''tokens'') [] (ListAPITokens (if admin then 0 else my_id me))) (\<lambda>tokens.
     bindA (on_tab (tab = ''integrations'') [] ListIntegrationStatus) (\<lambda>sts.
     bindA (on_tab (tab = ''notifications'') no_notify (notifyData sv)) (\<lambda>notify.
     bindA (on_tab (tab = ''tags'') [] ListTagsWithCounts) (\<lambda>tags.
     bindA (on_tab (tab = ''audit'') no_audit (auditData q)) (\<lambda>audit.
     ret \<lparr>sd_Subnets = subnets, sd_Users = users, sd_Values = (if admin then vs else []),
          sd_Configured = configuredIntegrations vs, sd_Sessions = sessions,
          sd_CurrentSessionID = (case (tab = ''sessions'', rq_Cookie r) of (True, Some c) \<Rightarrow> SessionID (sv_hash sv) c | _ \<Rightarrow> []),
          sd_CurrentUserID = my_id me, sd_ActiveTab = tab, sd_Detected = new_detected su tab subnets,
          sd_Statuses = map_of (rev (map (\<lambda>st. (is_Name st, st)) sts)), sd_Tokens = tokens,
          sd_SSO = (tab = ''account'' \<and> sv_oidc sv \<noteq> None, linked), sd_Notify = notify, sd_Tags = tags, sd_Audit = audit,
          sd_Backup = backupSummary (su_Postgres su) (su_Backups su)\<rparr>)))))))))))"

definition handleSettingsSection :: "server \<Rightarrow> surroundings \<Rightarrow> string \<Rightarrow> user option \<Rightarrow> request \<Rightarrow> url_values \<Rightarrow> ('s, SettingsData) paged" where
  "handleSettingsSection sv su tab me r q = or_fail (settingsData sv su me r q tab) (\<lambda>d. ret (Inr d))"

section \<open>What the pages keep to themselves\<close>

text \<open>Nothing of others, and none of the configuration.\<close>

definition own_page :: "tables \<Rightarrow> user option \<Rightarrow> SettingsData \<Rightarrow> bool" where
  "own_page t me d \<longleftrightarrow> sd_Users d = [] \<and> sd_Values d = [] \<and> sd_ActiveTab d \<in> {''account'', ''sessions'', ''tokens''} \<and>
     sd_Detected d = [] \<and> sd_Statuses d = Map.empty \<and> sd_Notify d = no_notify \<and> sd_Tags d = [] \<and> sd_Audit d = no_audit \<and>
     set (sd_Sessions d) \<subseteq> session_view ` {x \<in> set (t_session t). se_UserID x = my_id me} \<and>
     (\<forall>k. k \<in> set (sd_Tokens d) \<longrightarrow> tr_UserID k = my_id me)"

lemma reads_on_tab: "(b \<Longrightarrow> reads t m P) \<Longrightarrow> reads t (on_tab b none m) (\<lambda>a. if b then P a else a = none)"
  by (auto simp: on_tab_def intro: reads_ret)

lemma read_settings_keys: "reads t (read_settings sv keys) (\<lambda>vs. map fst vs = keys)"
  unfolding read_settings_def
  by (rule reads_foldA) (auto intro!: reads_bind [OF reads_setting] reads_pair)

lemma notify_reads: "reads t (notifyData sv) (\<lambda>_. True)"
  unfolding notifyData_def LoadConfig_def get_setting_def
  by (rule keeps_reads) (intro pres_intros)

lemma audit_reads: "reads t (auditData q) (\<lambda>_. True)"
  unfolding auditData_def auditTargets_def ListAudit_def AuditFacets_def distinctAudit_def DeviceNames_def ListSubnets_def
    Let_def case_prod_beta
  by (rule keeps_reads) (intro pres_intros)

lemma lists_read:
  "reads t ListSubnets (\<lambda>_. True)" "reads t ListUsers (\<lambda>_. True)" "reads t (OIDCLinked i) (\<lambda>_. True)"
  "reads t ListIntegrationStatus (\<lambda>_. True)" "reads t ListTagsWithCounts (\<lambda>_. True)"
  "reads t (ListSessionsForUser i now) (\<lambda>xs. set xs \<subseteq> session_view ` {x \<in> set (t_session t). se_UserID x = i})"
  "reads t (ListAPITokens i) (\<lambda>xs. i \<noteq> 0 \<longrightarrow> (\<forall>k. k \<in> set xs \<longrightarrow> tr_UserID k = i))"
  unfolding ListSubnets_def ListUsers_def OIDCLinked_def ListIntegrationStatus_def ListTagsWithCounts_def
    ListSessionsForUser_def ListAPITokens_def
  by (auto intro!: reads_query reads_ret reads_bind [OF reads_query, where P = "\<lambda>_. True"] simp: order_by_def List.map_filter_def token_view_def)

lemma shown_no_secret: "set (shownKeys @ ''offline_after'' # generalKeys) \<inter> set (formSecrets @ credential_keys) = {}"
  by code_simp

lemma viewer_tab: "\<not> isAdmin me \<Longrightarrow> settings_tab me tab \<in> {''account'', ''sessions'', ''tokens''}"
  by (auto simp: settings_tab_def)


end
