(* ===== verification/Settings_Facts.thy ===== *)
theory Settings_Facts
  imports Web_Config
begin

text \<open>
  What the forms of the settings pages write: the settings as a map, which of them each form replaces
  and with what, also when it fails half way, and that no form makes a setting unfit.
\<close>

section \<open>The settings as a map\<close>

definition settings_of :: "tables \<Rightarrow> string \<rightharpoonup> string" where
  "settings_of t = (\<lambda>k. find_setting k t)"

lemma settings_put: "settings_of (snd (put_setting k v t)) = (settings_of t)(k \<mapsto> v)"
proof
  fix j
  have "map_of (upd_where (\<lambda>x. fst x = k) (\<lambda>x. (k, v)) xs) j = map_of xs j" if "j \<noteq> k" for xs
    using that by (induction xs) (auto simp: upd_where_def)
  moreover have "map_of (xs @ [(k, v)]) j = map_of xs j" if "j \<noteq> k" for xs
    using that by (simp add: map_add_def split: option.split)
  ultimately have "find_setting j (snd (put_setting k v t)) = find_setting j t" if "j \<noteq> k"
    using that by (simp add: find_setting_def put_setting_def)
  then show "settings_of (snd (put_setting k v t)) j = ((settings_of t)(k \<mapsto> v)) j"
    using find_put_setting [of k v t] by (simp add: settings_of_def)
qed

text \<open>What is stored for a value, none when no random bytes are to be had for its seal.\<close>

definition stored_as :: "server \<Rightarrow> (string \<Rightarrow> string option) \<Rightarrow> string \<Rightarrow> string \<Rightarrow> string option" where
  "stored_as sv rand k v = (case (if v \<noteq> [] \<and> isSecretSetting k then sv_crypter sv else None) of
     None \<Rightarrow> Some v | Some c \<Rightarrow> seal c (rand k) k v)"

text \<open>Nothing but the settings changes, and of them just what \<open>m\<close> says.\<close>

definition saved :: "(string \<rightharpoonup> string) \<Rightarrow> tables \<Rightarrow> tables \<Rightarrow> bool" where
  "saved m t t' \<longleftrightarrow> (\<exists>ss. t' = t\<lparr>t_setting := ss\<rparr>) \<and> settings_of t' = settings_of t ++ m"

text \<open>A step that stores what \<open>w\<close> has for its key, or nothing.\<close>

definition saves :: "(string \<rightharpoonup> string) \<Rightarrow> string \<Rightarrow> ('s db_scheme, unit) act \<Rightarrow> bool" where
  "saves w k m \<longleftrightarrow> (\<forall>s. wp m (\<lambda>x s'. case x of Inl _ \<Rightarrow> tabs s' = tabs s | Inr _ \<Rightarrow> saved (w |` {k}) (tabs s) (tabs s')) s)"

lemma saved_refl: "saved Map.empty t t"
  by (auto simp: saved_def intro: exI [of _ "t_setting t"])

lemma saved_put: "saved [k \<mapsto> v] t (snd (put_setting k v t))"
  by (auto simp: saved_def settings_put) (auto simp: put_setting_def)

lemma restrict_here: "w |` {k} = (case w k of None \<Rightarrow> Map.empty | Some v \<Rightarrow> [k \<mapsto> v])"
  by (auto simp: restrict_map_def fun_eq_iff split: option.split)

lemma saved_trans: "saved m t t1 \<Longrightarrow> saved n t1 t2 \<Longrightarrow> saved (m ++ n) t t2"
  by (auto simp: saved_def)

lemma saves_nothing: "w k = None \<Longrightarrow> saves w k (ret ())"
  using saved_refl by (auto simp: saves_def wp_ret restrict_here)

lemma SetSetting_wp:
  assumes "\<And>e fs. Q (Inl e) (s\<lparr>faults := fs\<rparr>)"
    and "\<And>w fs. stored_as sv rand k v = Some w \<Longrightarrow> Q (Inr ()) (s\<lparr>faults := fs, tabs := snd (put_setting k w (tabs s))\<rparr>)"
  shows "wp (SetSetting (sv_crypter sv) (rand k) k v) Q s"
proof -
  have put: "wp (thenA (exec (put_setting k w)) (ret ())) Q s" if "stored_as sv rand k v = Some w" for w
    unfolding wp_simps by (rule wp_exec) (use assms that in auto)
  have same: "s\<lparr>faults := faults s\<rparr> = s" by simp
  show ?thesis
    using put assms(1) [of _ "faults s"]
    unfolding SetSetting_def stored_as_def same by (auto simp: wp_fail split: option.splits)
qed

lemma saves_setting: "(\<And>x. stored_as sv rand k v = Some x \<Longrightarrow> w k = Some x) \<Longrightarrow> saves w k (SetSetting (sv_crypter sv) (rand k) k v)"
  unfolding saves_def
  by (intro allI SetSetting_wp) (auto simp: restrict_here saved_put)

lemma forA_saves:
  assumes "\<And>k. saves w k (f k)"
  shows "wp (forA keys f) (\<lambda>x s'. case x of
      Inl _ \<Rightarrow> \<exists>K \<subseteq> set keys. saved (w |` K) (tabs s) (tabs s') | Inr _ \<Rightarrow> saved (w |` set keys) (tabs s) (tabs s')) s"
proof (induction keys arbitrary: s)
  case Nil
  show ?case unfolding forA.simps wp_ret by (simp add: saved_refl)
next
  case (Cons k keys)
  have join: "saved (w |` insert k K) t t2" if "saved (w |` {k}) t t1" "saved (w |` K) t1 t2" for t t1 t2 K
  proof -
    have "w |` {k} ++ w |` K = w |` insert k K" by (auto simp: restrict_map_def map_add_def fun_eq_iff split: option.splits)
    then show ?thesis using saved_trans [OF that] by simp
  qed
  have none: "\<exists>K \<subseteq> insert k (set keys). saved (w |` K) t t" for t
    using saved_refl by (intro exI [of _ "{}"]) (simp add: restrict_map_def)
  let ?Q = "\<lambda>x s'. case x of Inl _ \<Rightarrow> \<exists>K \<subseteq> set (k # keys). saved (w |` K) (tabs s) (tabs s')
      | Inr _ \<Rightarrow> saved (w |` set (k # keys)) (tabs s) (tabs s')"
  have rest: "wp (forA keys f) ?Q s1" if "saved (w |` {k}) (tabs s) (tabs s1)" for s1
    by (rule wp_mono [OF Cons.IH]) (use join [OF that] in \<open>auto split: sum.splits intro: exI [of _ "insert k _"]\<close>)
  show ?case unfolding forA.simps wp_simps
  proof (rule wp_mono [OF assms [of k, unfolded saves_def, rule_format, of s]], goal_cases)
    case (1 x s1)
    then show ?case using none rest [of s1] by (cases x) simp_all
  qed
qed

section \<open>The integrations' form\<close>

text \<open>
  What a form that is accepted stores: of the integration it names, or of all when it names none, each
  field, a secret only when it is filled in.
\<close>

definition form_map :: "server \<Rightarrow> (string \<Rightarrow> string option) \<Rightarrow> request \<Rightarrow> string \<rightharpoonup> string" where
  "form_map sv rand r k =
     (if k \<in> set formSecrets \<and> rq_Form r k = [] then None else stored_as sv rand k (form_setting k (rq_Form r k)))"

lemma save_key_saves: "saves (form_map sv rand r) k (save_key sv rand r k)"
  unfolding save_key_def Let_def by (auto intro: saves_nothing saves_setting simp: form_map_def)


section \<open>No form makes a setting unfit\<close>

definition number_in :: "int \<Rightarrow> int option \<Rightarrow> string \<Rightarrow> bool" where
  "number_in lo hi v = (case atoi v of None \<Rightarrow> False
     | Some n \<Rightarrow> lo \<le> n \<and> (case hi of None \<Rightarrow> True | Some h \<Rightarrow> n \<le> h))"

text \<open>What the readers of a setting take for granted.\<close>

definition setting_fits :: "(string \<Rightarrow> (string \<times> string) option) \<Rightarrow> string \<Rightarrow> string \<Rightarrow> bool" where
  "setting_fits parse k v \<longleftrightarrow>
     (if k = ''offline_after'' then number_in 1 (Some 10) v
      else if k = ''default_scan_interval_sec'' then number_in 30 None v
      else if k = ''default_subnet_kind'' then v \<in> set subnet_kinds
      else if k \<in> {''default_scan_enabled'', ''presence_fallback'', ''autofill_enabled''} then v \<in> {''on'', ''off''}
      else if k \<in> fst ` set retentionLabels then number_in 0 None v
      else if k \<in> set url_keys then ValidURL parse v = None
      else if k \<in> gr_Key ` set Groups then v \<in> {''0'', ''1''}
      else if k = ''wg_iface'' then v = [] \<or> ValidIface v = None
      else if suffix ''_insecure'' k then v \<in> {[], ''1''}
      else True)"

definition settings_fit :: "(string \<Rightarrow> (string \<times> string) option) \<Rightarrow> tables \<Rightarrow> bool" where
  "settings_fit parse t \<longleftrightarrow> (\<forall>k v. settings_of t k = Some v \<longrightarrow> setting_fits parse k v)"

definition constrained_keys :: "string list" where
  "constrained_keys = [''offline_after'', ''default_scan_interval_sec'', ''default_subnet_kind'', ''default_scan_enabled'',
     ''presence_fallback'', ''autofill_enabled'', ''wg_iface''] @ map fst retentionLabels @ url_keys @ map gr_Key Groups"

definition free_key :: "string \<Rightarrow> bool" where
  "free_key k \<longleftrightarrow> k \<notin> set constrained_keys \<and> \<not> suffix ''_insecure'' k"

lemma free_fits: "free_key k \<Longrightarrow> setting_fits parse k v"
  by (auto simp: free_key_def constrained_keys_def setting_fits_def)

lemma stored_fits:
  assumes "setting_fits parse k v" and "stored_as sv rand k v = Some w"
  shows "setting_fits parse k w"
proof (cases "isSecretSetting k")
  case True
  have "list_all free_key SecretSettings" by code_simp
  then have "free_key k" using True by (auto simp: isSecretSetting_def list_ex_iff list_all_iff)
  then show ?thesis by (rule free_fits)
qed (use assms in \<open>simp add: stored_as_def\<close>)

lemma SetSetting_fit:
  fixes sv :: server
  assumes "setting_fits parse k v"
  shows "keeps (\<lambda>s. settings_fit parse (tabs s)) (SetSetting (sv_crypter sv) (rand k) k v)"
proof (rule keepsI)
  fix s :: "'a db_scheme" assume s: "settings_fit parse (tabs s)"
  have "wp (SetSetting (sv_crypter sv) (rand k) k v) (\<lambda>x s'. settings_fit parse (tabs s')) s"
    by (rule SetSetting_wp) (use s stored_fits [OF assms] in \<open>auto simp: settings_fit_def settings_put\<close>)
  then show "settings_fit parse (tabs (snd (SetSetting (sv_crypter sv) (rand k) k v s)))"
    by (simp add: wp_def split: prod.splits)
qed

lemma number_stored: "(\<And>v. number_in lo hi v \<Longrightarrow> setting_fits parse k v) \<Longrightarrow> atoi v = Some n \<Longrightarrow> 0 \<le> lo \<Longrightarrow> lo \<le> n \<Longrightarrow> (case hi of None \<Rightarrow> True | Some h \<Rightarrow> n \<le> h) \<Longrightarrow> setting_fits parse k (string_of_int n)"
  using atoi_bound [of v n] by (simp add: number_in_def atoi_back)

lemma set_then_fit [intro]:
  "setting_fits parse k v \<Longrightarrow> keeps (\<lambda>s. settings_fit parse (tabs s)) after \<Longrightarrow>
     keeps (\<lambda>s. settings_fit parse (tabs s)) (set_then sv rand k v after)"
  unfolding set_then_def orFail_def answer_def by (intro pres_intros SetSetting_fit)

lemma choice_fit:
  assumes "\<And>v. v \<in> set vals \<Longrightarrow> setting_fits parse k v" and "keeps (\<lambda>s. settings_fit parse (tabs s)) after"
  shows "keeps (\<lambda>s. settings_fit parse (tabs s)) (choice_field sv rand r tab k vals msg after)"
  unfolding choice_field_def answer_def Let_def using assms by (auto intro!: pres_intros set_then_fit)

lemma number_fit:
  assumes "\<And>v. number_in lo hi v \<Longrightarrow> setting_fits parse k v" "0 \<le> lo" and "keeps (\<lambda>s. settings_fit parse (tabs s)) after"
  shows "keeps (\<lambda>s. settings_fit parse (tabs s)) (number_field sv rand r tab k needed lo hi msg after)"
  unfolding number_field_def answer_def Let_def using assms
  by (auto intro!: pres_intros set_then_fit number_stored [where lo = lo and hi = hi] split: option.splits)

lemma general_fit: "keeps (\<lambda>s. settings_fit parse (tabs s)) (handleGeneralSave sv rand r)"
  unfolding handleGeneralSave_def Let_def retentionLabels_def retention_field_def foldr.simps o_apply fst_conv snd_conv id_apply
  by (intro number_fit choice_fit pres_intros) (auto simp: setting_fits_def subnet_kinds_def retentionLabels_def answer_def intro: pres_intros)

lemma form_setting_fits:
  assumes "form_keys r = Inr keys" "k \<in> set keys"
  shows "setting_fits parse k (form_setting k (rq_Form r k))"
proof -
  have k: "k \<in> set settingsKeys" and iface: "rq_Form r ''wg_iface'' = [] \<or> ValidIface (rq_Form r ''wg_iface'') = None"
    using assms by (auto simp: form_keys_def Let_def integrationKeys_def split: if_splits option.splits)
  have "list_all (\<lambda>k. k = ''wg_iface'' \<or> suffix ''_insecure'' k \<or> free_key k) settingsKeys" by code_simp
  then consider "k = ''wg_iface''" | "suffix ''_insecure'' k" | "free_key k" using k by (auto simp: list_all_iff)
  then show ?thesis
  proof cases
    case 1
    have "form_setting k v = v" for v unfolding 1 form_setting_def by code_simp
    moreover have "setting_fits parse k v \<longleftrightarrow> v = [] \<or> ValidIface v = None" for v
      unfolding 1 setting_fits_def retentionLabels_def url_keys_def Groups_def by simp
    ultimately show ?thesis using iface by (simp add: 1)
  next
    case 2
    have "list_all (\<lambda>k. \<not> suffix ''_insecure'' k) constrained_keys" by code_simp
    then have "k \<notin> set constrained_keys" using 2 by (auto simp: list_all_iff)
    then show ?thesis using 2 by (auto simp: constrained_keys_def setting_fits_def form_setting_def)
  qed (rule free_fits)
qed

lemma integrations_fit: "keeps (\<lambda>s. settings_fit parse (tabs s)) (handleIntegrationsSave sv rand r)"
proof -
  have "keeps (\<lambda>s. settings_fit parse (tabs s)) (forA keys (save_key sv rand r))" if "form_keys r = Inr keys" for keys
    by (rule keeps_forA_set) (auto simp: save_key_def Let_def intro!: pres_intros SetSetting_fit form_setting_fits [OF that])
  then have save: "keeps (\<lambda>s. settings_fit parse (tabs s)) (saveIntegrationSettings sv rand r)"
    by (cases "form_keys r") (auto simp: saveIntegrationSettings_def intro!: keeps_then keeps_ret)
  show ?thesis unfolding handleIntegrationsSave_def orFail_def answer_def
    by (intro pres_intros save)
qed

definition general_names :: "string list" where
  "general_names = [''offline_after'', ''default_scan_interval_sec'', ''default_subnet_kind'', ''default_scan_enabled'',
     ''presence_fallback'', ''autofill_enabled''] @ map fst retentionLabels"

lemma url_fits: "k \<in> set url_keys \<Longrightarrow> setting_fits parse k v \<longleftrightarrow> ValidURL parse v = None"
proof -
  assume k: "k \<in> set url_keys"
  have "list_all (\<lambda>k. k \<notin> set general_names) url_keys" by code_simp
  then have "k \<notin> set general_names" using k by (simp add: list_all_iff)
  then show ?thesis using k by (simp add: general_names_def setting_fits_def)
qed

lemma group_fits: "k \<in> set (map gr_Key Groups) \<Longrightarrow> setting_fits parse k v \<longleftrightarrow> v \<in> {''0'', ''1''}"
proof -
  assume k: "k \<in> set (map gr_Key Groups)"
  have "list_all (\<lambda>k. k \<notin> set (general_names @ url_keys)) (map gr_Key Groups)" by code_simp
  then have "k \<notin> set (general_names @ url_keys)" using k unfolding list_all_iff by blast
  moreover have "k \<in> gr_Key ` set Groups" using k by (simp only: set_map)
  ultimately show ?thesis by (simp add: general_names_def setting_fits_def)
qed

lemma bad_url_found:
  assumes "first_bad_url parse r = None" "k \<in> set url_keys"
  shows "setting_fits parse k (trim_space (rq_Form r k))"
proof -
  have "ValidURL parse (trim_space (rq_Form r k)) = None"
    using assms by (auto simp: first_bad_url_def List.map_filter_def filter_empty_conv split: list.splits)
  then show ?thesis by (simp add: url_fits [OF assms(2)])
qed

lemma notifications_fit:
  assumes "set order = set url_keys"
  shows "keeps (\<lambda>s. settings_fit parse (tabs s)) (handleNotificationsSave sv parse rand order r)"
proof (cases "first_bad_url parse r")
  case None
  have "list_all free_key credential_keys" by code_simp
  then have cred: "keeps (\<lambda>s. settings_fit parse (tabs s)) (forA credential_keys (save_credential sv rand r))"
    by (intro keeps_forA_set) (auto simp: save_credential_def Let_def list_all_iff intro!: pres_intros SetSetting_fit free_fits)
  have grp: "keeps (\<lambda>s. settings_fit parse (tabs s)) (forA (map gr_Key Groups) (\<lambda>k. SetSetting (sv_crypter sv) (rand k) k (group_value r k)))"
    by (intro keeps_forA_set SetSetting_fit) (simp only: group_fits, simp add: group_value_def)
  have urls: "keeps (\<lambda>s. settings_fit parse (tabs s)) (forA order (\<lambda>k. SetSetting (sv_crypter sv) (rand k) k (trim_space (rq_Form r k))))"
    by (intro keeps_forA_set SetSetting_fit bad_url_found [OF None]) (use assms in simp)
  show ?thesis unfolding handleNotificationsSave_def None option.case orFail_def answer_def
    by (intro keeps_bind keeps_sum keeps_attempt keeps_ret cred grp urls)
qed (auto simp: handleNotificationsSave_def answer_def intro: pres_intros)

text \<open>
  C37: Whatever is posted to the settings forms, and whatever fails on the way, the settings stay fit to
  be read: numbers within their bounds, choices among those there are, URLs of http, an interface name
  a shell takes as one word.
\<close>

theorem settings_stay_fit:
  "if settings_fit parse (tabs s) \<and> set order = set url_keys
   then list_all (\<lambda>m. settings_fit parse (tabs (snd (m s))))
     [handleGeneralSave sv rand r, handleIntegrationsSave sv rand r, handleNotificationsSave sv parse rand order r]
   else True"
  using keepsD [OF general_fit, of parse s sv rand r] keepsD [OF integrations_fit, of parse s sv rand r]
    keepsD [OF notifications_fit, of order parse s sv rand r] by simp

text \<open>
  The general form stores a field before it looks at the next: a form that is refused for its scan
  interval has changed the setting before it.
\<close>

definition half_good_form :: request where
  "half_good_form = visitor ''/settings/general'' [(''offline_after'', ''5''), (''default_scan_interval_sec'', ''10'')]"

lemma refused_form_half_saved:
  "let (x, s') = handleGeneralSave sample_server (\<lambda>_. None) half_good_form (new_web no_tables [])
   in (case x of Inr (SettingsError tab n msg, _) \<Rightarrow> n = 400 | _ \<Rightarrow> False) \<and> t_setting (tabs s') = [(''offline_after'', ''5'')]"
  by code_simp

end
