(* ===== verification/Web_Grid.thy ===== *)
theory Web_Grid
  imports Web_List Scan_Scheduler
begin

text \<open>
  internal/web/grid.go and views/grid_layout.go: the page of a subnet, a square for each address, its
  counts and free ranges, its panels and rows, and the scans asked for from it.
\<close>

section \<open>The squares\<close>

record GridCell =
  gc_IP :: string
  gc_State :: string
  gc_DeviceID :: int
  gc_Title :: string
  gc_Kind :: string
  gc_Name :: string
  gc_MAC :: string
  gc_Seen :: string
  gc_Claims :: nat

definition free_cell :: "string \<Rightarrow> GridCell" where
  "free_cell ip = \<lparr>gc_IP = ip, gc_State = ''free'', gc_DeviceID = 0, gc_Title = ip, gc_Kind = [], gc_Name = [],
     gc_MAC = [], gc_Seen = [], gc_Claims = 0\<rparr>"

definition edge_cell :: "string \<Rightarrow> bool \<Rightarrow> GridCell" where
  "edge_cell ip first = (free_cell ip)\<lparr>gc_State := ''edge'',
     gc_Title := ip @ '' '' @ em_dash @ (if first then '' network address'' else '' broadcast address'')\<rparr>"

definition occupied_cell :: "time \<Rightarrow> string \<Rightarrow> occupant \<Rightarrow> GridCell" where
  "occupied_cell now ip oc =
     (let title = trim_space (ip @ '' '' @ em_dash @ '' '' @ oc_DeviceName oc @ '' '' @ oc_MAC oc);
          seen = (case oc_LastSeen oc of None \<Rightarrow> [] | Some t \<Rightarrow> relTime now t) in
      \<lparr>gc_IP = ip,
       gc_State = (if 1 < oc_Count oc then ''conflict'' else if \<not> oc_EverSeen oc then ''reserved''
                   else if oc_Online oc then ''online'' else ''offline''),
       gc_DeviceID = oc_DeviceID oc,
       gc_Title = (case oc_LastSeen oc of None \<Rightarrow> title | Some _ \<Rightarrow> title @ '' last seen '' @ seen),
       gc_Kind = oc_Kind oc, gc_Name = oc_DeviceName oc, gc_MAC = oc_MAC oc, gc_Seen = seen, gc_Claims = oc_Count oc\<rparr>)"

definition grid_cell :: "time \<Rightarrow> subnet \<Rightarrow> (string \<rightharpoonup> occupant) \<Rightarrow> bool \<Rightarrow> nat \<Rightarrow> nat \<times> string \<Rightarrow> GridCell" where
  "grid_cell now sn occ hasEdges n x = (case x of (i, ip) \<Rightarrow>
     if hasEdges \<and> (i = 0 \<or> i = n - 1) then edge_cell ip (i = 0)
     else (case occ ip of
         Some oc \<Rightarrow> occupied_cell now ip oc
       | None \<Rightarrow> (case parse_addr ip of
           Some a \<Rightarrow> if InDHCPPool sn a then (free_cell ip)\<lparr>gc_State := ''pool''\<rparr> else free_cell ip
         | None \<Rightarrow> free_cell ip)))"

definition has_edges :: "cidr \<Rightarrow> bool" where
  "has_edges p \<longleftrightarrow> is4 (pfx_addr (masked p)) \<and> pfx_bits (masked p) < 31"

definition gridCells :: "time \<Rightarrow> subnet \<Rightarrow> ('s db_scheme, GridCell list) act" where
  "gridCells now sn = bindA (SubnetOccupancy (sn_ID sn)) (\<lambda>occ.
     case AllIPs (sn_CIDR sn) of
       Inl e \<Rightarrow> fail e
     | Inr ips \<Rightarrow> (case parse_prefix (sn_CIDR sn) of
         None \<Rightarrow> fail (ErrMsg ''netip.ParsePrefix'')
       | Some p \<Rightarrow> ret (map (grid_cell now sn occ (has_edges p) (length ips)) (enumerate 0 ips))))"

section \<open>Counting\<close>

record GridStats =
  gs_Online :: nat
  gs_Offline :: nat
  gs_Unseen :: nat
  gs_Conflict :: nat
  gs_Free :: nat
  gs_Pool :: nat
  gs_Static :: nat
  gs_DHCP :: nat

definition no_stats :: GridStats where
  "no_stats = \<lparr>gs_Online = 0, gs_Offline = 0, gs_Unseen = 0, gs_Conflict = 0, gs_Free = 0, gs_Pool = 0,
     gs_Static = 0, gs_DHCP = 0\<rparr>"

definition count_state :: "GridCell \<Rightarrow> GridStats \<Rightarrow> GridStats" where
  "count_state c st =
     (if gc_State c = ''online'' then st\<lparr>gs_Online := gs_Online st + 1\<rparr>
      else if gc_State c = ''offline'' then st\<lparr>gs_Offline := gs_Offline st + 1\<rparr>
      else if gc_State c = ''reserved'' then st\<lparr>gs_Unseen := gs_Unseen st + 1\<rparr>
      else if gc_State c = ''conflict'' then st\<lparr>gs_Conflict := gs_Conflict st + 1\<rparr>
      else if gc_State c = ''free'' then st\<lparr>gs_Free := gs_Free st + 1\<rparr>
      else if gc_State c = ''pool'' then st\<lparr>gs_Pool := gs_Pool st + 1\<rparr> else st)"

definition count_kind :: "GridCell \<Rightarrow> GridStats \<Rightarrow> GridStats" where
  "count_kind c st =
     (if gc_Kind c = ''static'' then st\<lparr>gs_Static := gs_Static st + 1\<rparr>
      else if gc_Kind c = ''dhcp'' then st\<lparr>gs_DHCP := gs_DHCP st + 1\<rparr> else st)"

definition gridStats :: "GridCell list \<Rightarrow> GridStats" where
  "gridStats cells = fold (\<lambda>c st. count_kind c (count_state c st)) cells no_stats"

definition is_free :: "GridCell \<Rightarrow> bool" where
  "is_free c \<longleftrightarrow> gc_State c = ''free''"

definition nextFree :: "GridCell list \<Rightarrow> string" where
  "nextFree cells = (case find is_free cells of Some c \<Rightarrow> gc_IP c | None \<Rightarrow> [])"

record FreeRange =
  fr_Start :: string
  fr_End :: string
  fr_N :: nat

definition run_range :: "GridCell list \<Rightarrow> FreeRange" where
  "run_range cs = \<lparr>fr_Start = gc_IP (hd cs), fr_End = gc_IP (last cs), fr_N = length cs\<rparr>"

text \<open>The loop: a square that is not free is passed over, a free one starts a run.\<close>

function freeRanges :: "GridCell list \<Rightarrow> FreeRange list" where
  "freeRanges [] = []"
| "freeRanges (c # cs) = (if \<not> is_free c then freeRanges cs
     else run_range (c # takeWhile is_free cs) # freeRanges (dropWhile is_free cs))"
  by pat_completeness auto
termination
  by (relation "measure length") (auto simp: le_imp_less_Suc length_dropWhile_le)

definition freeRangesShown :: nat where "freeRangesShown = 6"

definition indexOf :: "FreeRange list \<Rightarrow> FreeRange \<Rightarrow> int" where
  "indexOf rs r = (case find (\<lambda>(_, x). fr_Start x = fr_Start r) (enumerate 0 rs) of Some (i, _) \<Rightarrow> int i | None \<Rightarrow> -1)"

definition shownRanges :: "FreeRange list \<Rightarrow> FreeRange list" where
  "shownRanges rs = stable_sort (\<lambda>a b. indexOf rs a < indexOf rs b)
     (take freeRangesShown (stable_sort (\<lambda>a b. fr_N b < fr_N a) rs))"

section \<open>Labels\<close>

definition octet :: "u32 \<Rightarrow> nat \<Rightarrow> nat" where "octet a i = octets a ! i"

definition short_ip :: "string \<Rightarrow> string" where
  "short_ip ip = (case parse_addr ip of Some (V4 a) \<Rightarrow> ''.'' @ string_of_nat (octet a 3) | _ \<Rightarrow> ip)"

definition rangeLabel :: "FreeRange \<Rightarrow> string" where
  "rangeLabel r =
     (if (case (parse_addr (fr_Start r), parse_addr (fr_End r)) of
            (Some (V4 a), Some (V4 b)) \<Rightarrow> octet a 2 = octet b 2 \<and> octet a 1 = octet b 1 | _ \<Rightarrow> False)
      then (if fr_N r = 1 then short_ip (fr_Start r) else short_ip (fr_Start r) @ en_dash @ short_ip (fr_End r))
      else if fr_N r = 1 then fr_Start r else fr_Start r @ '' '' @ en_dash @ '' '' @ fr_End r)"

definition rangeAria :: "FreeRange \<Rightarrow> string" where
  "rangeAria r = (if fr_N r = 1 then fr_Start r @ '', 1 free address''
     else fr_Start r @ '' to '' @ fr_End r @ '', '' @ string_of_nat (fr_N r) @ '' free addresses'')"

definition cellWords :: "(string \<times> string) list" where
  "cellWords = [(''online'', ''Online''), (''offline'', ''Offline''), (''reserved'', ''Not seen yet''),
     (''conflict'', ''IP conflict''), (''free'', ''Free''), (''pool'', ''Free, in DHCP pool''), (''edge'', ''Not assignable'')]"

definition cellTone :: "string \<Rightarrow> string" where
  "cellTone st = (if st = ''online'' then ''is-online'' else if st = ''reserved'' then ''is-reserved''
     else if st = ''conflict'' then ''is-conflict'' else if st = ''offline'' then ''is-offline'' else [])"

definition subnetKindLabels :: "(string \<times> string) list" where
  "subnetKindLabels = [(''lan'', ''LAN''), (''wireguard'', ''WireGuard''), (''proxmox-bridge'', ''Proxmox bridge'')]"

definition subnetKindLabel :: "string \<Rightarrow> string" where
  "subnetKindLabel kind = (case map_of subnetKindLabels kind of Some l \<Rightarrow> l | None \<Rightarrow> kind)"

definition leaseLabel :: "string \<Rightarrow> string" where
  "leaseLabel kind = (if kind = ''static'' then ''Static'' else if kind = ''dhcp'' then ''DHCP'' else kind)"

section \<open>Panels\<close>

definition portsPerRow :: nat where "portsPerRow = 16"
definition rowsPerSection :: nat where "rowsPerSection = 16"

record PortRow =
  pr_Label :: string
  pr_Cells :: "GridCell list"

record PortSection =
  ps_Label :: string
  ps_Rows :: "PortRow list"

definition portRowLabel :: "string \<Rightarrow> bool \<Rightarrow> string" where
  "portRowLabel ip wide = (case parse_addr ip of
     None \<Rightarrow> ip
   | Some (V4 a) \<Rightarrow> if wide then string_of_nat (octet a 2) @ ''.'' @ string_of_nat (octet a 3)
       else ''.'' @ string_of_nat (octet a 3)
   | Some (V6 a _) \<Rightarrow> '':'' @ hex_of_nat (unat a mod 65536))"

text \<open>A list cut into pieces of a size, the last one maybe shorter.\<close>

function chunks :: "nat \<Rightarrow> 'a list \<Rightarrow> 'a list list" where
  "chunks k xs = (if xs = [] \<or> k = 0 then [] else take k xs # chunks k (drop k xs))"
  by pat_completeness auto
termination by (relation "measure (\<lambda>(k, xs). length xs)") auto

declare chunks.simps [simp del]

definition port_row :: "bool \<Rightarrow> GridCell list \<Rightarrow> PortRow" where
  "port_row wide cs = \<lparr>pr_Label = portRowLabel (gc_IP (hd cs)) wide, pr_Cells = cs\<rparr>"

definition portSections :: "GridCell list \<Rightarrow> PortSection list" where
  "portSections cells = (let wide = portsPerRow * rowsPerSection < length cells in
     map (\<lambda>cs. \<lparr>ps_Label = (if wide then gc_IP (hd cs) @ '' '' @ en_dash @ '' '' @ gc_IP (last cs) else []),
                ps_Rows = map (port_row wide) (chunks portsPerRow cs)\<rparr>)
       (chunks (portsPerRow * rowsPerSection) cells))"

definition portColumns :: "GridCell list \<Rightarrow> nat" where
  "portColumns cells = min (length cells) portsPerRow"

definition miniPitch :: nat where "miniPitch = 5"

definition miniPorts :: "GridCell list \<Rightarrow> (nat \<times> nat \<times> string) list" where
  "miniPorts cells = map (\<lambda>(i, c). ((i mod portsPerRow) * miniPitch, (i div portsPerRow) * miniPitch, gc_State c)) (enumerate 0 cells)"

definition miniViewBox :: "GridCell list \<Rightarrow> string" where
  "miniViewBox cells = (let rows = (length cells + portsPerRow - 1) div portsPerRow in
     ''0 0 '' @ string_of_int (int (portColumns cells * miniPitch) - 1) @ '' '' @ string_of_int (int (rows * miniPitch) - 1))"

record portCard =
  cd_Name :: string
  cd_MAC :: string
  cd_Seen :: string
  cd_Claims :: nat

definition portCards :: "GridCell list \<Rightarrow> string \<rightharpoonup> portCard" where
  "portCards cells = fold (\<lambda>c m. if gc_DeviceID c = 0 then m
     else m(gc_IP c \<mapsto> \<lparr>cd_Name = gc_Name c, cd_MAC = gc_MAC c, cd_Seen = gc_Seen c,
                        cd_Claims = (if 1 < gc_Claims c then gc_Claims c else 0)\<rparr>)) cells Map.empty"

section \<open>The pages\<close>

definition subnetFromPath :: "string \<Rightarrow> (subnet \<Rightarrow> ('s, 'p) paged) \<Rightarrow> ('s, 'p) paged" where
  "subnetFromPath pid k = (case atoi pid of
     None \<Rightarrow> ret (Inl notFound)
   | Some i \<Rightarrow> bindA (attempt (GetSubnet i)) (\<lambda>x. case x of Inl _ \<Rightarrow> ret (Inl notFound) | Inr sn \<Rightarrow> k sn))"

definition devicesInSubnet :: "int \<Rightarrow> ('s db_scheme, device_view list) act" where
  "devicesInSubnet sid = bindA ListDevices (\<lambda>all. bindA (ListSubnetIfaceIPs sid) (\<lambda>links.
     ret (filter (\<lambda>d. dev_ID d \<in> si_DeviceID ` set links) all)))"

record ScanState =
  sc_Subnet :: subnet
  sc_Queued :: bool
  sc_Running :: bool
  sc_LastDone :: "stamp option"
  sc_LastOK :: bool

text \<open>The scheduler, where there is one.\<close>

definition scanState :: "sched option \<Rightarrow> subnet \<Rightarrow> ScanState" where
  "scanState trig sn = (case trig of
     None \<Rightarrow> \<lparr>sc_Subnet = sn, sc_Queued = False, sc_Running = False, sc_LastDone = None, sc_LastOK = False\<rparr>
   | Some sd \<Rightarrow> let x = Status (sn_ID sn) sd in
       \<lparr>sc_Subnet = sn, sc_Queued = ss_Queued x, sc_Running = ss_Running x,
        sc_LastDone = map_option rfc3339 (ss_LastDone x), sc_LastOK = ss_LastOK x\<rparr>)"

record CellInfo =
  ci_IP :: string
  ci_State :: string
  ci_Edge :: string
  ci_Claims :: "ip_claim list"

definition cellInfo :: "subnet \<Rightarrow> GridCell list \<Rightarrow> string \<Rightarrow> ('s db_scheme, CellInfo option) act" where
  "cellInfo sn cells ip = (case find (\<lambda>(i, c). gc_IP c = ip) (enumerate 0 cells) of
     None \<Rightarrow> ret None
   | Some (i, c) \<Rightarrow> (let info = \<lparr>ci_IP = ip, ci_State = gc_State c, ci_Edge = [], ci_Claims = []\<rparr> in
       if gc_State c = ''edge''
       then ret (Some (info\<lparr>ci_Edge := (if 0 < i then ''broadcast address'' else ''network address'')\<rparr>))
       else if 0 < gc_DeviceID c
       then bindA (IPClaims (sn_ID sn) ip) (\<lambda>claims. ret (Some (info\<lparr>ci_Claims := claims\<rparr>)))
       else ret (Some info)))"

record GridPageData =
  gp_Subnet :: subnet
  gp_Cells :: "GridCell list"
  gp_Stats :: GridStats
  gp_NextFree :: string
  gp_Free :: "FreeRange list"
  gp_Scan :: ScanState
  gp_Devices :: "device_view list"
  gp_Sort :: string
  gp_Dir :: string
  gp_Selected :: "CellInfo option"

definition gridPageData :: "time \<Rightarrow> sched option \<Rightarrow> subnet \<Rightarrow> string \<Rightarrow> ('s db_scheme, GridPageData) act" where
  "gridPageData now trig sn selected = bindA (gridCells now sn) (\<lambda>cells.
     let d = \<lparr>gp_Subnet = sn, gp_Cells = cells, gp_Stats = gridStats cells, gp_NextFree = nextFree cells,
              gp_Free = freeRanges cells, gp_Scan = scanState trig sn, gp_Devices = [], gp_Sort = [], gp_Dir = [],
              gp_Selected = None\<rparr> in
     if selected \<noteq> [] then bindA (cellInfo sn cells selected) (\<lambda>info. ret (d\<lparr>gp_Selected := info\<rparr>)) else ret d)"

definition gridError :: "error \<Rightarrow> response" where
  "gridError e = (case e of ErrTooLarge _ _ \<Rightarrow> Failure 400 (error_text e) | _ \<Rightarrow> serverError)"

definition or_grid_error :: "('s web_scheme, 'a) act \<Rightarrow> ('a \<Rightarrow> ('s, 'p) paged) \<Rightarrow> ('s, 'p) paged" where
  "or_grid_error m k = bindA (attempt m) (\<lambda>x. case x of Inl e \<Rightarrow> ret (Inl (gridError e)) | Inr a \<Rightarrow> k a)"

definition renderGridPage :: "time \<Rightarrow> sched option \<Rightarrow> url_values \<Rightarrow> subnet \<Rightarrow> string \<Rightarrow> ('s, GridPageData) paged" where
  "renderGridPage now trig q sn selected = or_grid_error (gridPageData now trig sn selected) (\<lambda>d.
     or_fail (devicesInSubnet (sn_ID sn)) (\<lambda>devs. case parseDeviceSort q of (key, dir) \<Rightarrow>
       ret (Inr (d\<lparr>gp_Devices := sortDeviceRows devs key dir, gp_Sort := key, gp_Dir := dir\<rparr>))))"

definition handleSubnetPage :: "time \<Rightarrow> sched option \<Rightarrow> url_values \<Rightarrow> string \<Rightarrow> ('s, GridPageData) paged" where
  "handleSubnetPage now trig q pid = subnetFromPath pid (\<lambda>sn. renderGridPage now trig q sn (getq q ''ip''))"

definition handleGridFrag :: "time \<Rightarrow> sched option \<Rightarrow> string \<Rightarrow> ('s, GridPageData) paged" where
  "handleGridFrag now trig pid = subnetFromPath pid (\<lambda>sn. or_grid_error (gridPageData now trig sn []) (\<lambda>d. ret (Inr d)))"

text \<open>The panel of an address alone, or the whole page with it open.\<close>

definition handleCellDetail :: "time \<Rightarrow> sched option \<Rightarrow> url_values \<Rightarrow> string \<Rightarrow> request \<Rightarrow> ('s, CellInfo + GridPageData) paged" where
  "handleCellDetail now trig q pid r = subnetFromPath pid (\<lambda>sn. let ip = getq q ''ip'' in
     if \<not> isHTMX r
     then bindA (renderGridPage now trig q sn ip) (\<lambda>x. ret (map_sum id Inr x))
     else or_grid_error (gridCells now sn) (\<lambda>cells. or_fail (cellInfo sn cells ip) (\<lambda>info. case info of
         None \<Rightarrow> ret (Inl notFound) | Some i \<Rightarrow> ret (Inr (Inl i)))))"

definition handleCellKind :: "string \<Rightarrow> request \<Rightarrow> 's handler" where
  "handleCellKind pid r = page_of [] (subnetFromPath pid (\<lambda>sn. let ip = rq_Form r ''ip''; kind = rq_Form r ''kind'' in
     if kind \<noteq> ''static'' \<and> kind \<noteq> ''dhcp'' then ret (Inl (Failure 400 ''choose static, DHCP or free for this address''))
     else or_fail (SetIPKind (sn_ID sn) ip kind) (\<lambda>_.
       ret (Inl (Toast (ip @ '' is now '' @ (if kind = ''dhcp'' then ''DHCP'' else ''static'')))) ::
         ('s web_scheme, response + unit) act)))"

definition MiniPanelMax :: nat where "MiniPanelMax = portsPerRow * rowsPerSection"

record SubnetSummary =
  su_Subnet :: subnet
  su_Stats :: GridStats
  su_Hosts :: nat
  su_Cells :: "GridCell list"
  su_Scan :: ScanState

text \<open>A subnet too large to draw is listed without counts.\<close>

definition summarise :: "time \<Rightarrow> sched option \<Rightarrow> subnet \<Rightarrow> ('s db_scheme, SubnetSummary) act" where
  "summarise now trig sn = (let sum = \<lparr>su_Subnet = sn, su_Stats = no_stats, su_Hosts = 0, su_Cells = [], su_Scan = scanState trig sn\<rparr> in
     bindA (attempt (gridCells now sn)) (\<lambda>x. case x of
       Inl e \<Rightarrow> (case e of ErrTooLarge _ _ \<Rightarrow> ret sum | _ \<Rightarrow> fail e)
     | Inr cells \<Rightarrow> ret (sum\<lparr>su_Stats := gridStats cells,
         su_Hosts := (case HostIPs (sn_CIDR sn) of Inr hosts \<Rightarrow> length hosts | Inl _ \<Rightarrow> 0),
         su_Cells := (if length cells \<le> MiniPanelMax then cells else [])\<rparr>)))"

definition handleSubnetsIndex :: "time \<Rightarrow> sched option \<Rightarrow> ('s, SubnetSummary list) paged" where
  "handleSubnetsIndex now trig = or_fail ListSubnets (\<lambda>subnets.
     or_fail (foldA (\<lambda>sn out. bindA (summarise now trig sn) (\<lambda>x. ret (out @ [x]))) subnets []) (\<lambda>out. ret (Inr out)))"

section \<open>Asking for a scan\<close>

text \<open>The scheduler is asked in turn; what it answers and what becomes of it.\<close>

definition ask :: "sched option \<Rightarrow> int \<Rightarrow> bool \<times> sched option" where
  "ask trig i = (case trig of None \<Rightarrow> (True, None) | Some sd \<Rightarrow> (case Trigger i sd of (ok, sd') \<Rightarrow> (ok, Some sd')))"

definition handleScanNow :: "sched option \<Rightarrow> string \<Rightarrow> ('s web_scheme, response \<times> sched option) act" where
  "handleScanNow trig pid = (case atoi pid of
     None \<Rightarrow> ret (notFound, trig)
   | Some i \<Rightarrow> bindA (attempt (GetSubnet i)) (\<lambda>x. case x of
       Inl _ \<Rightarrow> ret (notFound, trig)
     | Inr sn \<Rightarrow>
         if sn_Kind sn = ''wireguard''
         then ret (Toast (sn_CIDR sn @ '' is a WireGuard subnet: netis reads its peers from the server instead of scanning it''), trig)
         else (case ask trig (sn_ID sn) of (ok, trig') \<Rightarrow>
           ret (Toast (if ok then ''Scan started for '' @ sn_CIDR sn else sn_CIDR sn @ '' is already being scanned''), trig'))))"

definition ask_all :: "subnet list \<Rightarrow> sched option \<Rightarrow> nat \<times> nat \<times> sched option" where
  "ask_all subnets trig = fold (\<lambda>sn (queued, skipped, trig).
     if sn_Kind sn = ''wireguard'' then (queued, skipped, trig)
     else (case ask trig (sn_ID sn) of (ok, trig') \<Rightarrow> if ok then (queued + 1, skipped, trig') else (queued, skipped + 1, trig')))
     subnets (0, 0, trig)"

definition scan_all_toast :: "nat \<Rightarrow> nat \<Rightarrow> string" where
  "scan_all_toast queued skipped =
     (if skipped = 0 then ''Scan started for all subnets''
      else if queued = 0 then ''Every subnet is already being scanned''
      else ''Scan started for '' @ string_of_nat queued @ '' of '' @ string_of_nat (queued + skipped) @
        '' subnets; the rest were already running'')"

definition handleScanAll :: "sched option \<Rightarrow> ('s web_scheme, response \<times> sched option) act" where
  "handleScanAll trig = bindA (attempt ListSubnets) (\<lambda>x. case x of
     Inl _ \<Rightarrow> ret (serverError, trig)
   | Inr subnets \<Rightarrow> (case (if trig = None then (0, 0, None) else ask_all subnets trig) of
       (queued, skipped, trig') \<Rightarrow> ret (Toast (scan_all_toast queued skipped), trig')))"

section \<open>The free ranges\<close>

text \<open>Gaps and runs in turn, a gap at both ends.\<close>

fun woven :: "'a list list \<Rightarrow> 'a list list \<Rightarrow> 'a list" where
  "woven (g # gs) (r # rs) = g @ r @ woven gs rs"
| "woven (g # gs) [] = g"
| "woven [] rs = []"

definition free_runs :: "GridCell list \<Rightarrow> GridCell list list \<Rightarrow> GridCell list list \<Rightarrow> bool" where
  "free_runs cells gaps runs \<longleftrightarrow> length gaps = Suc (length runs) \<and> cells = woven gaps runs \<and>
     (\<forall>r \<in> set runs. r \<noteq> [] \<and> (\<forall>c \<in> set r. is_free c)) \<and>
     (\<forall>g \<in> set gaps. \<forall>c \<in> set g. \<not> is_free c) \<and> (\<forall>g \<in> set (butlast (tl gaps)). g \<noteq> [])"

lemma free_runs_busy:
  assumes "free_runs cs gaps runs" and "\<not> is_free c"
  shows "\<exists>gaps. free_runs (c # cs) gaps runs"
proof -
  obtain g gs where g: "gaps = g # gs" using assms(1) by (cases gaps) (auto simp: free_runs_def)
  have "c # woven (g # gs) runs = woven ((c # g) # gs) runs" by (cases runs) auto
  with assms g have "free_runs (c # cs) ((c # g) # gs) runs" by (auto simp: free_runs_def)
  then show ?thesis by blast
qed

lemma free_runs_free:
  assumes "free_runs cs gaps runs" and "r \<noteq> []" and "\<forall>c \<in> set r. is_free c" and "cs = [] \<or> \<not> is_free (hd cs)"
  shows "free_runs (r @ cs) ([] # gaps) (r # runs)"
proof -
  obtain g gs where g: "gaps = g # gs" using assms(1) by (cases gaps) (auto simp: free_runs_def)
  have "\<forall>g \<in> set (butlast gaps). g \<noteq> []"
  proof (cases runs)
    case Nil
    then show ?thesis using assms(1) g by (simp add: free_runs_def)
  next
    case (Cons r' rs)
    then have cs: "cs = g @ r' @ woven gs rs" "r' \<noteq> []" "is_free (hd r')"
      using assms(1) g by (auto simp: free_runs_def)
    then have "g \<noteq> []" using assms(4) by (cases g) auto
    with assms(1) g show ?thesis by (auto simp: free_runs_def)
  qed
  with assms show ?thesis by (auto simp: free_runs_def)
qed

lemma freeRanges_runs: "\<exists>gaps runs. free_runs cells gaps runs \<and> freeRanges cells = map run_range runs"
proof (induction cells rule: freeRanges.induct)
  case 1
  have "free_runs [] [[]] []" by (simp add: free_runs_def)
  then show ?case by (metis freeRanges.simps(1) list.simps(8))
next
  case (2 c cs)
  show ?case
  proof (cases "is_free c")
    case False
    with 2 free_runs_busy show ?thesis by (metis freeRanges.simps(2))
  next
    case True
    let ?r = "c # takeWhile is_free cs"
    from 2(2) True obtain gaps runs where i: "free_runs (dropWhile is_free cs) gaps runs"
      "freeRanges (dropWhile is_free cs) = map run_range runs" by blast
    have all: "\<forall>c \<in> set ?r. is_free c" using True by (auto dest: set_takeWhileD)
    have head: "dropWhile is_free cs = [] \<or> \<not> is_free (hd (dropWhile is_free cs))"
      using hd_dropWhile [of is_free cs] by blast
    have "free_runs (?r @ dropWhile is_free cs) ([] # gaps) (?r # runs)"
      by (rule free_runs_free [OF i(1) _ all head]) simp
    moreover have "freeRanges (c # cs) = map run_range (?r # runs)" using True i(2) by simp
    ultimately show ?thesis by (metis append_Cons takeWhile_dropWhile_id)
  qed
qed

lemma nextFree_first: "nextFree cells = (case freeRanges cells of [] \<Rightarrow> [] | r # _ \<Rightarrow> fr_Start r)"
  by (induction cells rule: freeRanges.induct) (auto simp: nextFree_def run_range_def)

lemma stats_free: "gs_Free (gridStats cells) = length (filter is_free cells)"
proof -
  have "gs_Free (fold (\<lambda>c st. count_kind c (count_state c st)) cells st) = gs_Free st + length (filter is_free cells)" for st
    by (induction cells arbitrary: st) (auto simp: count_state_def count_kind_def is_free_def)
  then show ?thesis by (simp add: gridStats_def no_stats_def)
qed

lemma free_in_runs: "free_runs cells gaps runs \<Longrightarrow> length (filter is_free cells) = sum_list (map length runs)"
proof -
  have "length gaps = Suc (length runs) \<Longrightarrow> (\<forall>r \<in> set runs. \<forall>c \<in> set r. is_free c) \<Longrightarrow>
      (\<forall>g \<in> set gaps. \<forall>c \<in> set g. \<not> is_free c) \<Longrightarrow> length (filter is_free (woven gaps runs)) = sum_list (map length runs)"
    by (induction gaps runs rule: woven.induct) (auto simp: filter_empty_conv)
  then show "free_runs cells gaps runs \<Longrightarrow> length (filter is_free cells) = sum_list (map length runs)"
    by (simp add: free_runs_def)
qed

text \<open>
  The free ranges are the free addresses: they are the maximal runs of free squares, in address order,
  they count together as many as the page says are free, and the next free address is the start of the first.
\<close>

theorem free_ranges_exact:
  "\<exists>gaps runs. free_runs cells gaps runs \<and> freeRanges cells = map run_range runs \<and>
     sum_list (map fr_N (freeRanges cells)) = gs_Free (gridStats cells) \<and>
     nextFree cells = (case runs of [] \<Rightarrow> [] | r # _ \<Rightarrow> gc_IP (hd r))"
proof -
  obtain gaps runs where r: "free_runs cells gaps runs" "freeRanges cells = map run_range runs"
    using freeRanges_runs by blast
  have "sum_list (map fr_N (freeRanges cells)) = gs_Free (gridStats cells)"
    using free_in_runs [OF r(1)] by (simp add: r(2) stats_free run_range_def o_def)
  moreover have "nextFree cells = (case runs of [] \<Rightarrow> [] | r # _ \<Rightarrow> gc_IP (hd r))"
    by (simp add: nextFree_first r(2) run_range_def split: list.split)
  ultimately show ?thesis using r by blast
qed

section \<open>What a square shows\<close>

definition claimants :: "tables \<Rightarrow> int \<Rightarrow> string \<Rightarrow> int set" where
  "claimants t sid ip = ip_IfaceID ` {a \<in> set (t_ip t). ip_SubnetID a = sid \<and> ip_IP a = ip \<and> join_row t a \<noteq> None}"

definition presence :: "tables \<Rightarrow> int \<Rightarrow> string" where
  "presence t i = (case status_row_of i t of
     None \<Rightarrow> ''reserved''
   | Some x \<Rightarrow> if st_FirstSeen x = None then ''reserved'' else if st_Online x then ''online'' else ''offline'')"

definition unclaimed_state :: "subnet \<Rightarrow> string \<Rightarrow> string" where
  "unclaimed_state sn ip = (case parse_addr ip of
     Some a \<Rightarrow> if InDHCPPool sn a then ''pool'' else ''free'' | None \<Rightarrow> ''free'')"

text \<open>The state of a square, from the assignments and the status rows.\<close>

definition square_state :: "tables \<Rightarrow> subnet \<Rightarrow> bool \<Rightarrow> string \<Rightarrow> string \<Rightarrow> bool" where
  "square_state t sn edge ip st \<longleftrightarrow> (let held = claimants t (sn_ID sn) ip in
     if edge then st = ''edge''
     else if held = {} then st = unclaimed_state sn ip
     else if 1 < card held then st = ''conflict''
     else (\<exists>i. held = {i} \<and> st = presence t i))"

lemma occ_fold:
  "case foldl occ_step (Map.empty, \<lambda>_. {}) rows of (out, ifs) \<Rightarrow>
     ifs ip = {i. \<exists>oc. (ip, i, oc) \<in> set rows} \<and>
     (case out ip of None \<Rightarrow> ip \<notin> fst ` set rows | Some oc \<Rightarrow> \<exists>i. (ip, i, oc) \<in> set rows)"
proof (induction rows rule: rev_induct)
  case (snoc x rows)
  obtain j k oc where x: "x = (j, k, oc)" by (cases x)
  obtain out ifs where f: "foldl occ_step (Map.empty, \<lambda>_. {}) rows = (out, ifs)"
    by (cases "foldl occ_step (Map.empty, \<lambda>_. {}) rows")
  from snoc f have i: "ifs ip = {i. \<exists>oc. (ip, i, oc) \<in> set rows}"
    and o': "case out ip of None \<Rightarrow> ip \<notin> fst ` set rows | Some oc \<Rightarrow> \<exists>i. (ip, i, oc) \<in> set rows" by auto
  have run: "foldl occ_step (Map.empty, \<lambda>_. {}) (rows @ [x]) =
      ((if out j = None then out(j \<mapsto> oc) else out), ifs(j := insert k (ifs j)))"
    by (simp add: f x occ_step_def)
  show ?case unfolding run
    using i o' by (cases "j = ip"; cases "out ip") (auto simp: x)
qed simp

lemma occ_row:
  "(ip, i, oc) \<in> set (occ_rows sid t) \<longleftrightarrow>
     (\<exists>a r. a \<in> set (t_ip t) \<and> ip_SubnetID a = sid \<and> ip_IP a = ip \<and> join_row t a = Some r \<and> i = if_ID (fst r) \<and> oc = occupant_of a r)"
  by (auto simp: occ_rows_def set_map_filter_option split: if_splits)

lemma join_iface: "join_row t a = Some r \<Longrightarrow> if_ID (fst r) = ip_IfaceID a"
  by (auto simp: join_row_def find_iface_def dest!: find_SomeD split: option.splits)

lemma claimed: "(\<exists>oc. (ip, i, oc) \<in> set (occ_rows sid t)) \<longleftrightarrow> i \<in> claimants t sid ip"
proof -
  have "(\<exists>oc. (ip, i, oc) \<in> set (occ_rows sid t)) \<longleftrightarrow>
      (\<exists>a r. a \<in> set (t_ip t) \<and> ip_SubnetID a = sid \<and> ip_IP a = ip \<and> join_row t a = Some r \<and> i = ip_IfaceID a)"
    unfolding occ_row using join_iface [of t] by metis
  then show ?thesis by (auto simp: claimants_def)
qed

text \<open>Who is shown for an address: none or one of those who claim it, and how many do.\<close>

lemma occupancy:
  fixes s :: "'s db_scheme"
  assumes "SubnetOccupancy sid s = (Inr occ, s')"
  shows "case occ ip of None \<Rightarrow> claimants (tabs s) sid ip = {}
    | Some oc \<Rightarrow> oc_Count oc = card (claimants (tabs s) sid ip) \<and>
        (\<exists>i oc'. (ip, i, oc') \<in> set (occ_rows sid (tabs s)) \<and> oc = oc'\<lparr>oc_Count := oc_Count oc\<rparr>)"
proof -
  let ?rows = "occ_rows sid (tabs s)"
  obtain out ifs where f: "foldl occ_step (Map.empty, \<lambda>_. {}) ?rows = (out, ifs)"
    by (cases "foldl occ_step (Map.empty, \<lambda>_. {}) ?rows")
  have occ: "occ = (\<lambda>ip. map_option (\<lambda>oc. oc\<lparr>oc_Count := card (ifs ip)\<rparr>) (out ip))"
    using assms f by (auto simp: SubnetOccupancy_def query_def elim!: bindA_InrE dest!: stmt_InrD)
  have "ifs ip = claimants (tabs s) sid ip"
    using occ_fold [of ip ?rows] f claimed [of ip _ sid "tabs s"] by auto
  moreover have "case out ip of None \<Rightarrow> ip \<notin> fst ` set ?rows | Some oc \<Rightarrow> \<exists>i. (ip, i, oc) \<in> set ?rows"
    using occ_fold [of ip ?rows] f by simp
  ultimately show ?thesis using claimed [of ip _ sid "tabs s"]
    by (cases "out ip") (force simp: occ image_iff)+
qed

lemma presence_row:
  "(ip, i, oc) \<in> set (occ_rows sid t) \<Longrightarrow>
   presence t i = (if \<not> oc_EverSeen oc then ''reserved'' else if oc_Online oc then ''online'' else ''offline'')"
proof -
  assume "(ip, i, oc) \<in> set (occ_rows sid t)"
  then obtain a r where r: "join_row t a = Some r" "i = if_ID (fst r)" "oc = occupant_of a r" unfolding occ_row by blast
  obtain f d st where fds: "r = (f, d, st)" by (cases r)
  have "st = status_row_of i t" using r fds by (auto simp: join_row_def split: option.splits)
  then show ?thesis using r fds by (simp add: presence_def occupant_of_def split: option.split)
qed

lemma grid_cell_state:
  fixes s :: "'s db_scheme"
  assumes occ: "SubnetOccupancy (sn_ID sn) s = (Inr occ, s')"
  shows "gc_IP (grid_cell now sn occ edges n (i, ip)) = ip \<and>
    square_state (tabs s) sn (edges \<and> (i = 0 \<or> i = n - 1)) ip (gc_State (grid_cell now sn occ edges n (i, ip)))"
proof (cases "edges \<and> (i = 0 \<or> i = n - 1)")
  case True
  then show ?thesis by (simp add: grid_cell_def edge_cell_def free_cell_def square_state_def)
next
  case False
  note o' = occupancy [OF occ, of ip]
  show ?thesis
  proof (cases "occ ip")
    case None
    with o' False show ?thesis
      by (auto simp: grid_cell_def free_cell_def square_state_def unclaimed_state_def split: option.splits)
  next
    case (Some oc)
    with o' obtain k oc' where row: "(ip, k, oc') \<in> set (occ_rows (sn_ID sn) (tabs s))" "oc = oc'\<lparr>oc_Count := oc_Count oc\<rparr>"
      and n: "oc_Count oc = card (claimants (tabs s) (sn_ID sn) ip)" by auto
    have seen: "oc_EverSeen oc = oc_EverSeen oc'" "oc_Online oc = oc_Online oc'" using row(2) by (cases oc; cases oc'; simp)+
    have held: "k \<in> claimants (tabs s) (sn_ID sn) ip" using row(1) claimed by blast
    have "finite (claimants (tabs s) (sn_ID sn) ip)" by (simp add: claimants_def)
    then have one: "claimants (tabs s) (sn_ID sn) ip = {k}" if "\<not> 1 < card (claimants (tabs s) (sn_ID sn) ip)"
      using that held card_le_Suc0_iff_eq [of "claimants (tabs s) (sn_ID sn) ip"] by auto
    have cell: "grid_cell now sn occ edges n (i, ip) = occupied_cell now ip oc"
      unfolding grid_cell_def prod.case Some option.case using False by (simp only: if_False)
    have st: "gc_State (occupied_cell now ip oc) = (if 1 < card (claimants (tabs s) (sn_ID sn) ip) then ''conflict'' else presence (tabs s) k)"
      by (simp add: occupied_cell_def Let_def n presence_row [OF row(1)] seen)
    have "square_state (tabs s) sn False ip (gc_State (occupied_cell now ip oc))"
      using held one unfolding st square_state_def Let_def by auto
    moreover have "gc_IP (occupied_cell now ip oc) = ip" by (simp add: occupied_cell_def Let_def)
    ultimately show ?thesis unfolding cell eq_False [THEN iffD2, OF False] by blast
  qed
qed


section \<open>Panels leave nothing out\<close>

lemma concat_chunks: "0 < k \<Longrightarrow> concat (chunks k xs) = xs"
  by (induction k xs rule: chunks.induct) (subst chunks.simps, auto)

lemma chunks_size: "c \<in> set (chunks k xs) \<Longrightarrow> c \<noteq> [] \<and> length c \<le> k"
  by (induction k xs rule: chunks.induct) (subst (asm) chunks.simps, auto split: if_splits)

lemma panels_complete:
  "concat (map (\<lambda>sec. concat (map pr_Cells (ps_Rows sec))) (portSections cells)) = cells"
  "sec \<in> set (portSections cells) \<Longrightarrow> row \<in> set (ps_Rows sec) \<Longrightarrow> pr_Cells row \<noteq> [] \<and> length (pr_Cells row) \<le> portsPerRow"
proof -
  show "concat (map (\<lambda>sec. concat (map pr_Cells (ps_Rows sec))) (portSections cells)) = cells"
    by (simp add: portSections_def Let_def o_def port_row_def concat_chunks portsPerRow_def rowsPerSection_def)
  show "sec \<in> set (portSections cells) \<Longrightarrow> row \<in> set (ps_Rows sec) \<Longrightarrow> pr_Cells row \<noteq> [] \<and> length (pr_Cells row) \<le> portsPerRow"
    by (auto simp: portSections_def Let_def port_row_def dest!: chunks_size)
qed

end
