(* ===== verification/Web_Api.thy ===== *)
theory Web_Api
  imports Web_Grid Page_Rules
begin

text \<open>
  internal/web/api.go, search.go, metrics.go and eventspage.go, with freeSummary of dashboard.go: what
  is read of the inventory by programs, the command palette and the event log's page. An answer is the
  data that is encoded as JSON; the metrics are text. Build information is an argument.
\<close>

section \<open>Devices, subnets, events\<close>

record apiIP =
  ai_IP :: string
  ai_Kind :: string

record api_device =
  ad_ID :: int
  ad_Name :: string
  ad_Kind :: string
  ad_Source :: string
  ad_Vendor :: string
  ad_Model :: string
  ad_Function :: string
  ad_Notes :: string
  ad_Icon :: string
  ad_Reviewed :: bool
  ad_Online :: bool
  ad_LastSeen :: "stamp option"
  ad_IPs :: "apiIP list"
  ad_MACs :: "string list"
  ad_PrivateMAC :: bool
  ad_Tags :: "string list"
  ad_ParentID :: "int option"
  ad_VMID :: "int option"

definition toAPIDevice :: "device_view \<Rightarrow> api_device" where
  "toAPIDevice row = \<lparr>ad_ID = dev_ID row, ad_Name = dev_Name row, ad_Kind = dev_Kind row, ad_Source = dev_Source row,
     ad_Vendor = dev_Vendor row, ad_Model = dev_Model row, ad_Function = dev_Function row, ad_Notes = dev_Notes row,
     ad_Icon = dev_Icon row, ad_Reviewed = dev_Reviewed row, ad_Online = dv_Online row, ad_LastSeen = dv_LastSeen row,
     ad_IPs = map (\<lambda>ip. \<lparr>ai_IP = ii_IP ip, ai_Kind = ii_Kind ip\<rparr>) (dv_IPs row), ad_MACs = dv_MACs row,
     ad_PrivateMAC = AnyPrivate (dv_MACs row), ad_Tags = dv_TagNames row, ad_ParentID = dev_ParentDeviceID row,
     ad_VMID = dev_ProxmoxVMID row\<rparr>"

definition handleAPIDevices :: "('s, api_device list) paged" where
  "handleAPIDevices = or_fail ListDevices (\<lambda>rows. ret (Inr (map toAPIDevice rows)))"

text \<open>The device itself is found as for the writes of the API.\<close>

definition handleAPIDevice :: "string \<Rightarrow> ('s, api_device) paged" where
  "handleAPIDevice pid = (case atoi pid of
     None \<Rightarrow> ret (Inl notFound)
   | Some i \<Rightarrow> or_fail (apiDeviceByID i) (\<lambda>d. case d of
       None \<Rightarrow> ret (Inl notFound) | Some row \<Rightarrow> ret (Inr (toAPIDevice row))))"

text \<open>A subnet is answered with the fields its row has.\<close>

definition handleAPISubnets :: "('s, subnet list) paged" where
  "handleAPISubnets = or_fail ListSubnets (\<lambda>subnets. ret (Inr subnets))"

definition apiEventLimit :: int where "apiEventLimit = 1000"

definition handleAPIEvents :: "url_values \<Rightarrow> ('s, event list) paged" where
  "handleAPIEvents q = (let v = getq q ''limit'';
       n = (if v = [] then Some 100 else (case atoi v of
              None \<Rightarrow> None | Some n \<Rightarrow> if n < 1 then None else Some (min n apiEventLimit))) in
     case n of
       None \<Rightarrow> ret (Inl (Failure 400 ''limit must be a positive integer''))
     | Some k \<Rightarrow> or_fail (ListEvents k) (\<lambda>evs. ret (Inr (map event.truncate evs))))"

record apiStatus =
  as_Postgres :: bool
  as_Devices :: nat
  as_DevicesOnline :: nat
  as_Subnets :: nat
  as_Integrations :: "(string \<times> stamp \<times> bool \<times> string) list"

definition handleAPIStatus :: "bool \<Rightarrow> ('s, apiStatus) paged" where
  "handleAPIStatus postgres = or_fail ListDevices (\<lambda>rows. or_fail ListSubnets (\<lambda>subnets. or_fail ListIntegrationStatus (\<lambda>sts.
     ret (Inr \<lparr>as_Postgres = postgres, as_Devices = length rows, as_DevicesOnline = length (filter dv_Online rows),
       as_Subnets = length subnets,
       as_Integrations = map (\<lambda>st. (is_Name st, is_LastRun st, is_OK st, is_Detail st)) sts\<rparr>))))"

section \<open>Free addresses\<close>

record subnet_free =
  sf_SubnetID :: int
  sf_CIDR :: string
  sf_Next :: string
  sf_Free :: nat
  sf_PoolFree :: nat
  sf_Ranges :: "FreeRange list"

definition free_answer :: "subnet \<Rightarrow> GridCell list \<Rightarrow> subnet_free" where
  "free_answer sn cells = \<lparr>sf_SubnetID = sn_ID sn, sf_CIDR = sn_CIDR sn, sf_Next = nextFree cells,
     sf_Free = gs_Free (gridStats cells), sf_PoolFree = gs_Pool (gridStats cells),
     sf_Ranges = stable_sort (\<lambda>a b. fr_N b < fr_N a) (freeRanges cells)\<rparr>"

definition handleAPISubnetFree :: "time \<Rightarrow> string \<Rightarrow> ('s, subnet_free) paged" where
  "handleAPISubnetFree now pid = (case atoi pid of
     None \<Rightarrow> ret (Inl notFound)
   | Some i \<Rightarrow> bindA (attempt (GetSubnet i)) (\<lambda>x. case x of
       Inl e \<Rightarrow> ret (Inl (if e = ErrNoRows then notFound else serverError))
     | Inr sn \<Rightarrow> or_fail (gridCells now sn) (\<lambda>cells. ret (Inr (free_answer sn cells)))))"

text \<open>The dashboard and the palette count for themselves, over the hosts of the subnet.\<close>

definition free_step :: "subnet \<Rightarrow> (string \<rightharpoonup> occupant) \<Rightarrow> string \<Rightarrow> string \<times> nat \<times> nat \<Rightarrow> string \<times> nat \<times> nat" where
  "free_step sn occ ip acc = (case acc of (nxt, free, pool) \<Rightarrow>
     if occ ip \<noteq> None then acc
     else if (case parse_addr ip of Some a \<Rightarrow> InDHCPPool sn a | None \<Rightarrow> False) then (nxt, free, pool + 1)
     else (if nxt = [] then ip else nxt, free + 1, pool))"

definition freeSummary :: "subnet \<Rightarrow> string list \<Rightarrow> (string \<rightharpoonup> occupant) \<Rightarrow> string \<times> nat \<times> nat" where
  "freeSummary sn hosts occ = fold (free_step sn occ) hosts ([], 0, 0)"

section \<open>The command palette\<close>

definition searchLimit :: nat where "searchLimit = 8"

record searchDevice =
  se_ID :: int
  se_Name :: string
  se_DevIP :: string
  se_MAC :: string
  se_Icon :: string
  se_Online :: bool

record searchFree =
  fs_SubnetID :: int
  fs_Name :: string
  fs_CIDR :: string
  fs_IP :: string
  fs_Free :: nat

record searchResult =
  sr_Devices :: "searchDevice list"
  sr_Subnets :: "(int \<times> string \<times> string) list"
  sr_Free :: "searchFree list"

definition freeQuery :: "string \<Rightarrow> string option" where
  "freeQuery q = (case GoStr.fields (to_lower q) of
     w # ws \<Rightarrow> if w = ''free'' then Some (join '' '' ws) else None | [] \<Rightarrow> None)"

definition palette_device :: "device_view \<Rightarrow> searchDevice" where
  "palette_device row = \<lparr>se_ID = dev_ID row, se_Name = dev_Name row,
     se_DevIP = (case lowestIP row of None \<Rightarrow> [] | Some a \<Rightarrow> addr_string a),
     se_MAC = (case dv_MACs row of [] \<Rightarrow> [] | m # _ \<Rightarrow> m),
     se_Icon = DeviceIcon (dev_Icon row) (dev_Kind row), se_Online = dv_Online row\<rparr>"

definition subnet_text :: "subnet \<Rightarrow> string" where
  "subnet_text sn = to_lower (sn_Name sn @ '' '' @ sn_CIDR sn)"

text \<open>Up to the limit; a subnet whose hosts cannot be listed, or with none free, is passed over.\<close>

fun search_free :: "string \<Rightarrow> subnet list \<Rightarrow> nat \<Rightarrow> ('s db_scheme, searchFree list) act" where
  "search_free q [] room = ret []"
| "search_free q (sn # subnets) room =
     (if room = 0 then ret []
      else if q \<noteq> [] \<and> \<not> contains_str q (subnet_text sn) then search_free q subnets room
      else (case HostIPs (sn_CIDR sn) of
          Inl _ \<Rightarrow> search_free q subnets room
        | Inr hosts \<Rightarrow> bindA (SubnetOccupancy (sn_ID sn)) (\<lambda>occ. case freeSummary sn hosts occ of (nxt, n, _) \<Rightarrow>
            if nxt = [] then search_free q subnets room
            else bindA (search_free q subnets (room - 1)) (\<lambda>out.
              ret (\<lparr>fs_SubnetID = sn_ID sn, fs_Name = sn_Name sn, fs_CIDR = sn_CIDR sn, fs_IP = nxt, fs_Free = n\<rparr> # out)))))"

definition no_result :: searchResult where
  "no_result = \<lparr>sr_Devices = [], sr_Subnets = [], sr_Free = []\<rparr>"

definition search_devices :: "string \<Rightarrow> device_view list \<Rightarrow> searchDevice list" where
  "search_devices q rows = map palette_device (take searchLimit (sortDeviceRows (filterDevices rows q) ''name'' ''asc''))"

definition search_subnets :: "string \<Rightarrow> subnet list \<Rightarrow> (int \<times> string \<times> string) list" where
  "search_subnets q subnets = map (\<lambda>sn. (sn_ID sn, sn_Name sn, sn_CIDR sn))
     (take searchLimit (filter (\<lambda>sn. contains_str (to_lower q) (subnet_text sn)) subnets))"

definition handleSearch :: "url_values \<Rightarrow> ('s, searchResult) paged" where
  "handleSearch v = (let q = trim_space (getq v ''q'') in
     if q = [] then ret (Inr no_result)
     else (case freeQuery q of
         Some part \<Rightarrow> or_fail (bindA ListSubnets (\<lambda>subnets. search_free part subnets searchLimit)) (\<lambda>free.
           ret (Inr (no_result\<lparr>sr_Free := free\<rparr>)))
       | None \<Rightarrow> or_fail ListDevices (\<lambda>rows. or_fail ListSubnets (\<lambda>subnets.
           ret (Inr (no_result\<lparr>sr_Devices := search_devices q rows, sr_Subnets := search_subnets q subnets\<rparr>))))))"

section \<open>Metrics\<close>

text \<open>A label's value: a backslash, a quote and a line feed are escaped.\<close>

definition prom_char :: "char \<Rightarrow> string" where
  "prom_char c = (if c = CHR 0x5C then [CHR 0x5C, CHR 0x5C] else if c = CHR 0x22 then [CHR 0x5C, CHR 0x22]
     else if c = CHR 0x0A then [CHR 0x5C, CHR ''n''] else [c])"

definition promLabelValue :: "string \<Rightarrow> string" where
  "promLabelValue v = concat (map prom_char v)"

definition prom_label :: "string \<times> string \<Rightarrow> string" where
  "prom_label kv = fst kv @ ''='' @ [CHR 0x22] @ promLabelValue (snd kv) @ [CHR 0x22]"

definition prom_labels :: "(string \<times> string) list \<Rightarrow> string" where
  "prom_labels kvs = (if kvs = [] then [] else ''{'' @ join '','' (map prom_label kvs) @ ''}'')"

definition nl :: string where "nl = [CHR 0x0A]"

definition metric_head :: "string \<Rightarrow> string \<Rightarrow> string \<Rightarrow> string" where
  "metric_head name help typ = ''# HELP '' @ name @ '' '' @ help @ nl @ ''# TYPE '' @ name @ '' '' @ typ @ nl"

text \<open>Every value is a whole number, printed without exponent.\<close>

definition metric_line :: "string \<Rightarrow> (string \<times> string) list \<Rightarrow> int \<Rightarrow> string" where
  "metric_line name labels v = name @ prom_labels labels @ '' '' @ string_of_int v @ nl"

definition writeMetric :: "string \<Rightarrow> string \<Rightarrow> string \<Rightarrow> (string \<times> string) list \<Rightarrow> int \<Rightarrow> string" where
  "writeMetric name help typ labels v = metric_head name help typ @ metric_line name labels v"

definition int_of_bool :: "bool \<Rightarrow> int" where "int_of_bool b = (if b then 1 else 0)"

text \<open>What the build and the backups tell: three names, the start, and the last backup.\<close>

record metrics_world =
  mw_Version :: string
  mw_Commit :: string
  mw_Build :: string
  mw_Start :: stamp
  mw_Backups :: "(stamp option \<times> bool) option"

definition metrics_text :: "metrics_world \<Rightarrow> device_view list \<Rightarrow> subnet list \<Rightarrow> integration_status list \<Rightarrow> string" where
  "metrics_text w rows subnets sts =
     writeMetric ''netis_build_info'' ''Build identity of the running binary; always 1.'' ''gauge''
       [(''version'', mw_Version w), (''commit'', mw_Commit w), (''build'', mw_Build w)] 1 @
     writeMetric ''netis_start_time_seconds'' ''Unix time the process started.'' ''gauge'' [] (mw_Start w) @
     writeMetric ''netis_devices'' ''Devices in the inventory.'' ''gauge'' [] (int (length rows)) @
     writeMetric ''netis_devices_online'' ''Devices currently seen as online.'' ''gauge'' [] (int (length (filter dv_Online rows))) @
     writeMetric ''netis_subnets'' ''Configured subnets.'' ''gauge'' [] (int (length subnets)) @
     metric_head ''netis_subnet_scan_enabled'' ''Whether periodic scanning is enabled for a subnet.'' ''gauge'' @
     concat (map (\<lambda>sn. metric_line ''netis_subnet_scan_enabled''
       [(''cidr'', sn_CIDR sn), (''name'', sn_Name sn), (''kind'', sn_Kind sn)] (int_of_bool (sn_ScanEnabled sn))) subnets) @
     metric_head ''netis_integration_last_run_seconds'' ''Unix time an integration or the scanner last ran.'' ''gauge'' @
     concat (map (\<lambda>st. metric_line ''netis_integration_last_run_seconds'' [(''name'', is_Name st)] (is_LastRun st)) sts) @
     metric_head ''netis_integration_last_ok'' ''Whether an integration's last run succeeded.'' ''gauge'' @
     concat (map (\<lambda>st. metric_line ''netis_integration_last_ok'' [(''name'', is_Name st)] (int_of_bool (is_OK st))) sts) @
     (case mw_Backups w of
        None \<Rightarrow> []
      | Some (last_success, good) \<Rightarrow>
          writeMetric ''netis_last_backup_timestamp_seconds'' ''Unix time the newest scheduled backup was written; 0 if none.''
            ''gauge'' [] (case last_success of None \<Rightarrow> 0 | Some ts \<Rightarrow> ts) @
          writeMetric ''netis_last_backup_success'' ''Whether the last scheduled backup succeeded.'' ''gauge'' [] (int_of_bool good))"

definition metricsAuthorized :: "server \<Rightarrow> user option \<Rightarrow> request \<Rightarrow> bool" where
  "metricsAuthorized sv me r \<longleftrightarrow>
     (sv_metricsToken sv \<noteq> [] \<and> tokenFromRequest r \<noteq> [] \<and> tokenFromRequest r = sv_metricsToken sv) \<or> me \<noteq> None"

definition handleMetrics :: "server \<Rightarrow> metrics_world \<Rightarrow> user option \<Rightarrow> request \<Rightarrow> ('s, string) paged" where
  "handleMetrics sv w me r =
     (if \<not> metricsAuthorized sv me r then ret (Inl unauthorized)
      else or_fail ListDevices (\<lambda>rows. or_fail ListSubnets (\<lambda>subnets. or_fail ListIntegrationStatus (\<lambda>sts.
        ret (Inr (metrics_text w rows subnets sts))))))"

section \<open>The event log's page\<close>

definition eventsPageSize :: int where "eventsPageSize = 50"

definition leap_year :: "int \<Rightarrow> bool" where
  "leap_year y \<longleftrightarrow> y mod 4 = 0 \<and> (y mod 100 \<noteq> 0 \<or> y mod 400 = 0)"

definition days_in :: "int \<Rightarrow> int \<Rightarrow> int" where
  "days_in y m = (if m = 2 then (if leap_year y then 29 else 28) else if m \<in> {4, 6, 9, 11} then 30 else 31)"

definition day_number :: "int \<Rightarrow> int \<Rightarrow> int \<Rightarrow> int" where
  "day_number y0 m d = (let y = (if m \<le> 2 then y0 - 1 else y0); era = y div 400; yoe = y mod 400;
     doy = (153 * (if 2 < m then m - 3 else m + 9) + 2) div 5 + d - 1;
     doe = yoe * 365 + yoe div 4 - yoe div 100 + doy in era * 146097 + doe - 719468)"

text \<open>\<open>time.Parse\<close> of \<open>2006-01-02\<close>: four, two and two digits, a day there is.\<close>

definition parse_date :: "string \<Rightarrow> int option" where
  "parse_date v = (if length v = 10 \<and> v ! 4 = CHR ''-'' \<and> v ! 7 = CHR ''-'' \<and>
        list_all is_digit (take 4 v @ take 2 (drop 5 v) @ drop 8 v)
     then (case (parse_nat (take 4 v), parse_nat (take 2 (drop 5 v)), parse_nat (drop 8 v)) of
         (Some y, Some m, Some d) \<Rightarrow>
           if 1 \<le> m \<and> m \<le> 12 \<and> 1 \<le> d \<and> int d \<le> days_in (int y) (int m) then Some (day_number (int y) (int m) (int d)) else None
       | _ \<Rightarrow> None)
     else None)"

text \<open>\<open>midnight\<close> is when a day of the server's time zone starts.\<close>

definition eventDayBound :: "(int \<Rightarrow> stamp) \<Rightarrow> string \<Rightarrow> int \<Rightarrow> stamp option" where
  "eventDayBound midnight v days = map_option (\<lambda>z. midnight (z + days)) (parse_date v)"

record EventsPageData =
  ep_Kind :: string
  ep_Device :: string
  ep_From :: string
  ep_To :: string
  ep_BeforeID :: int
  ep_Older :: int
  ep_Days :: "event_view event_day list"

definition page_filter :: "(int \<Rightarrow> stamp) \<Rightarrow> url_values \<Rightarrow> event_filter" where
  "page_filter midnight q =
     (case EventKindFilter (getq q ''type'') of None \<Rightarrow> plain_filter | Some f \<Rightarrow> f)
       \<lparr>ef_Device := trim_space (getq q ''device''), ef_Since := eventDayBound midnight (getq q ''from'') 0,
        ef_Until := eventDayBound midnight (getq q ''to'') 1,
        ef_BeforeID := (case atoi (getq q ''before'') of Some n \<Rightarrow> if 0 < n then n else 0 | None \<Rightarrow> 0),
        ef_Limit := eventsPageSize\<rparr>"

definition handleEventsPage :: "dialect \<Rightarrow> (int \<Rightarrow> stamp) \<Rightarrow> zone_offset \<Rightarrow> time \<Rightarrow> url_values \<Rightarrow> ('s, EventsPageData) paged" where
  "handleEventsPage d midnight offset now q = (let f = page_filter midnight q in
     or_fail (ListEventsFiltered d f) (\<lambda>(evs, older).
       ret (Inr \<lparr>ep_Kind = (if EventKindFilter (getq q ''type'') = None then [] else getq q ''type''),
         ep_Device = ef_Device f,
         ep_From = (if ef_Since f = None then [] else getq q ''from''),
         ep_To = (if ef_Until f = None then [] else getq q ''to''),
         ep_BeforeID = ef_BeforeID f,
         ep_Older = (if older \<and> evs \<noteq> [] then ev_ID (last evs) else 0),
         ep_Days = GroupEventsByDay offset now evs\<rparr>)))"

section \<open>Two ways to count agree\<close>

definition claimed_state :: "occupant \<Rightarrow> string" where
  "claimed_state oc = (if 1 < oc_Count oc then ''conflict'' else if \<not> oc_EverSeen oc then ''reserved''
     else if oc_Online oc then ''online'' else ''offline'')"

definition host_state :: "subnet \<Rightarrow> (string \<rightharpoonup> occupant) \<Rightarrow> string \<Rightarrow> string" where
  "host_state sn occ ip = (case occ ip of Some oc \<Rightarrow> claimed_state oc | None \<Rightarrow> unclaimed_state sn ip)"

lemma claimed_busy: "claimed_state oc \<noteq> ''free'' \<and> claimed_state oc \<noteq> ''pool''"
  by (simp add: claimed_state_def)

lemma unclaimed_two: "unclaimed_state sn ip = ''free'' \<or> unclaimed_state sn ip = ''pool''"
  by (auto simp: unclaimed_state_def split: option.split)

lemma summary_closed:
  "freeSummary sn hosts occ =
     (case filter (\<lambda>ip. host_state sn occ ip = ''free'') hosts of [] \<Rightarrow> [] | ip # _ \<Rightarrow> ip,
      length (filter (\<lambda>ip. host_state sn occ ip = ''free'') hosts),
      length (filter (\<lambda>ip. host_state sn occ ip = ''pool'') hosts))"
  if "[] \<notin> set hosts"
proof -
  have "fold (free_step sn occ) hosts (nxt, free, pool) =
      (if nxt \<noteq> [] then nxt else (case filter (\<lambda>ip. host_state sn occ ip = ''free'') hosts of [] \<Rightarrow> [] | ip # _ \<Rightarrow> ip),
       free + length (filter (\<lambda>ip. host_state sn occ ip = ''free'') hosts),
       pool + length (filter (\<lambda>ip. host_state sn occ ip = ''pool'') hosts))" for nxt free pool
    using that
  proof (induction hosts arbitrary: nxt free pool)
    case (Cons ip hosts)
    have step: "free_step sn occ ip (nxt, free, pool) =
        (if host_state sn occ ip = ''free'' then (if nxt = [] then ip else nxt, free + 1, pool)
         else if host_state sn occ ip = ''pool'' then (nxt, free, pool + 1) else (nxt, free, pool))"
      using claimed_busy
      by (auto simp: free_step_def host_state_def unclaimed_state_def split: option.splits)
    have "ip \<noteq> []" "[] \<notin> set hosts" using Cons.prems by auto
    then show ?case by (simp add: step Cons.IH)
  qed simp
  then show ?thesis by (simp add: freeSummary_def)
qed

lemma stats_pool: "gs_Pool (gridStats cells) = length (filter (\<lambda>c. gc_State c = ''pool'') cells)"
proof -
  have "gs_Pool (fold (\<lambda>c st. count_kind c (count_state c st)) cells st) = gs_Pool st + length (filter (\<lambda>c. gc_State c = ''pool'') cells)" for st
    by (induction cells arbitrary: st) (auto simp: count_state_def count_kind_def)
  then show ?thesis by (simp add: gridStats_def no_stats_def)
qed

text \<open>The squares that are no edges are the hosts.\<close>

lemma inner_cell:
  assumes "\<not> (edges \<and> (i = 0 \<or> i = n - 1))"
  shows "gc_State (grid_cell now sn occ edges n (i, ip)) = host_state sn occ ip"
    "gc_IP (grid_cell now sn occ edges n (i, ip)) = ip"
  using assms by (auto simp: grid_cell_def occupied_cell_def free_cell_def host_state_def claimed_state_def
      unclaimed_state_def Let_def split: option.split)

lemma inner_cells:
  assumes "\<And>j. i \<le> j \<Longrightarrow> j < i + length ips \<Longrightarrow> \<not> (edges \<and> (j = 0 \<or> j = n - 1))"
  shows "map (\<lambda>c. (gc_IP c, gc_State c)) (map (grid_cell now sn occ edges n) (enumerate i ips)) = map (\<lambda>ip. (ip, host_state sn occ ip)) ips"
  using assms
proof (induction ips arbitrary: i)
  case (Cons ip ips)
  show ?case using inner_cell [OF Cons.prems [of i], of now sn occ ip] Cons.IH [of "Suc i"] Cons.prems by simp
qed simp

definition count_cells :: "(string \<times> string) list \<Rightarrow> string \<times> nat \<times> nat" where
  "count_cells xs = (case filter (\<lambda>x. snd x = ''free'') xs of [] \<Rightarrow> [] | x # _ \<Rightarrow> fst x,
     length (filter (\<lambda>x. snd x = ''free'') xs), length (filter (\<lambda>x. snd x = ''pool'') xs))"

lemma count_grid: "(nextFree cells, gs_Free (gridStats cells), gs_Pool (gridStats cells)) = count_cells (map (\<lambda>c. (gc_IP c, gc_State c)) cells)"
proof -
  have "find P xs = (case filter P xs of [] \<Rightarrow> None | x # _ \<Rightarrow> Some x)" for P and xs :: "GridCell list"
    by (induction xs) auto
  moreover have "is_free = (\<lambda>c. gc_State c = ''free'')" by (simp add: fun_eq_iff is_free_def)
  ultimately show ?thesis
    by (simp add: nextFree_def count_cells_def stats_free stats_pool filter_map o_def split: list.split)
qed

lemma count_hosts: "[] \<notin> set hosts \<Longrightarrow> freeSummary sn hosts occ = count_cells (map (\<lambda>ip. (ip, host_state sn occ ip)) hosts)"
  by (auto simp: summary_closed count_cells_def filter_map o_def split: list.splits)

lemma count_edges: "count_cells ((a, ''edge'') # xs @ [(b, ''edge'')]) = count_cells xs"
  by (simp add: count_cells_def)

lemma addr_string_some: "addr_string a \<noteq> []"
proof -
  have two: "join sep (map f xs) \<noteq> []" if "sep \<noteq> []" "1 < length xs" for sep and f :: "'a \<Rightarrow> string" and xs
    using that by (cases xs; cases "tl xs") auto
  show ?thesis
    using two [of "''.''" "octets w" string_of_nat for w] two [of "'':''" "groups w" hex_of_nat for w]
    by (auto simp: addr_string_def v4_string_def v6_string_def octets_def groups_def Let_def split: addr.split option.split)
qed

lemma AllIPs_shape:
  assumes "AllIPs c = Inr ips" "parse_prefix c = Some p"
  shows "[] \<notin> set ips" "length ips = 2 ^ host_bits p"
  using assms addr_string_some [symmetric] by (auto simp: AllIPs_eq block_nums_def algebra_simps split: if_splits)

text \<open>
  C38: The dashboard and the command palette, which count free addresses over the hosts of a subnet, and
  the subnet's page and the API, which count the squares of its grid, give the same next free address
  and the same numbers, of free addresses and of free ones in the pool.
\<close>

theorem free_counts_agree:
  "case (gridCells now sn s, HostIPs (sn_CIDR sn), SubnetOccupancy (sn_ID sn) s) of
     ((Inr cells, _), Inr hosts, (Inr occ, _)) \<Rightarrow>
       freeSummary sn hosts occ = (sf_Next (free_answer sn cells), sf_Free (free_answer sn cells), sf_PoolFree (free_answer sn cells))
   | ((Inr cells, _), _, _) \<Rightarrow> False
   | _ \<Rightarrow> True"
proof (cases "gridCells now sn s")
  case (Pair x s')
  show ?thesis
  proof (cases x)
    case (Inr cells)
    obtain occ s1 where occ: "SubnetOccupancy (sn_ID sn) s = (Inr occ, s1)"
      and rest: "(case AllIPs (sn_CIDR sn) of Inl e \<Rightarrow> fail e
        | Inr ips \<Rightarrow> (case parse_prefix (sn_CIDR sn) of None \<Rightarrow> fail (ErrMsg ''netip.ParsePrefix'')
          | Some p \<Rightarrow> ret (map (grid_cell now sn occ (has_edges p) (length ips)) (enumerate 0 ips)))) s1 = (Inr cells, s')"
      using Pair Inr unfolding gridCells_def by (auto elim: bindA_InrE)
    then obtain ips p where ok: "AllIPs (sn_CIDR sn) = Inr ips" "parse_prefix (sn_CIDR sn) = Some p"
      and cells: "cells = map (grid_cell now sn occ (has_edges p) (length ips)) (enumerate 0 ips)"
      by (auto split: sum.splits option.splits)
    note shape = AllIPs_shape [OF ok]
    show ?thesis
    proof (cases "has_edges p")
      case False
      then have hosts: "HostIPs (sn_CIDR sn) = Inr ips" by (auto simp: HostIPs_def ok has_edges_def)
      have "map (\<lambda>c. (gc_IP c, gc_State c)) cells = map (\<lambda>ip. (ip, host_state sn occ ip)) ips"
        unfolding cells by (rule inner_cells) (simp add: False)
      then show ?thesis unfolding Pair Inr hosts occ
        using count_grid [of cells] count_hosts [OF shape(1), of sn occ] by (simp add: free_answer_def)
    next
      case True
      then have "1 < host_bits p" by (auto simp: has_edges_def host_bits_def masked_simps) (cases "pfx_addr p"; auto)
      then have "(2::nat) ^ 1 < 2 ^ host_bits p" by (intro power_strict_increasing) simp_all
      then have n: "2 < length ips" using shape(2) by simp
      define a b mid where "a = hd ips" and "b = last ips" and "mid = butlast (tl ips)"
      have ips: "ips = a # mid @ [b]"
        using n by (cases ips) (auto simp: a_def b_def mid_def)
      have hosts: "HostIPs (sn_CIDR sn) = Inr mid" using True n by (simp add: HostIPs_def ok has_edges_def mid_def)
      have inner: "map (\<lambda>c. (gc_IP c, gc_State c)) (map (grid_cell now sn occ True (length ips)) (enumerate 1 mid)) =
          map (\<lambda>ip. (ip, host_state sn occ ip)) mid"
        by (rule inner_cells) (auto simp: ips)
      have edge: "gc_IP (grid_cell now sn occ True m (i, ip)) = ip \<and> gc_State (grid_cell now sn occ True m (i, ip)) = ''edge''"
        if "i = 0 \<or> i = m - 1" for m i ip
        using that by (auto simp: grid_cell_def edge_cell_def free_cell_def)
      have "map (\<lambda>c. (gc_IP c, gc_State c)) cells =
          (a, ''edge'') # map (\<lambda>ip. (ip, host_state sn occ ip)) mid @ [(b, ''edge'')]"
        using inner edge by (simp add: cells True ips enumerate_append_eq)
      moreover have "[] \<notin> set mid" using shape(1) by (simp add: ips)
      ultimately show ?thesis unfolding Pair Inr hosts occ
        using count_grid [of cells] count_hosts [of mid sn occ] by (simp add: free_answer_def count_edges)
    qed
  qed (simp add: Pair)
qed

section \<open>A label's value stays inside its quotes\<close>

fun prom_unescape :: "string \<Rightarrow> (string \<times> string) option" where
  "prom_unescape [] = None"
| "prom_unescape (c # s) =
     (if c = CHR 0x22 then Some ([], s)
      else if c = CHR 0x0A then None
      else if c = CHR 0x5C then (case s of
          [] \<Rightarrow> None
        | d # r \<Rightarrow> (if d = CHR ''n'' then map_option (map_prod ((#) (CHR 0x0A)) id) (prom_unescape r)
                else if d = CHR 0x5C \<or> d = CHR 0x22 then map_option (map_prod ((#) d) id) (prom_unescape r) else None))
      else map_option (map_prod ((#) c) id) (prom_unescape s))"

text \<open>
  Whatever a subnet or an integration is called, a reader of the metrics that takes a label's value up to
  the first quote that is not escaped reads the name itself, and goes on where the value ends.
\<close>

theorem metric_label_roundtrip: "prom_unescape (promLabelValue v @ CHR 0x22 # more_text) = Some (v, more_text)"
proof (induction v)
  case (Cons c v)
  have "promLabelValue (c # v) = prom_char c @ promLabelValue v" by (simp add: promLabelValue_def)
  then show ?case using Cons by (simp add: prom_char_def)
qed (simp add: promLabelValue_def)

end
