(* ===== verification/Web_Home.thy ===== *)
theory Web_Home
  imports Web_Api Web_Config
begin

text \<open>
  internal/web/welcome.go and dashboard.go: the first-run flow with what it writes, and what the
  dashboard shows of health, of what needs attention, and of a setup that is not finished.
\<close>

section \<open>Subnets of the flow\<close>

text \<open>What netis found on this host, less what it has.\<close>

definition availableDetected :: "surroundings \<Rightarrow> ('s db_scheme, (string \<times> string) list) act" where
  "availableDetected su = (case su_Detected su of
     None \<Rightarrow> ret []
   | Some ds \<Rightarrow> bindA (attempt ListSubnets) (\<lambda>x. case x of
       Inl _ \<Rightarrow> ret [] | Inr subnets \<Rightarrow> ret (filter (\<lambda>d. fst d \<notin> sn_CIDR ` set subnets) ds)))"

definition size_ok :: "string \<Rightarrow> bool" where
  "size_ok c = (case CheckSubnetSize c of Inl _ \<Rightarrow> False | Inr _ \<Rightarrow> True)"

definition hostCount :: "string \<Rightarrow> nat" where
  "hostCount c = (case parse_prefix c of
     None \<Rightarrow> 0
   | Some p \<Rightarrow> if \<not> size_ok c then 0
       else (let n = 2 ^ (bit_len (pfx_addr p) - pfx_bits p) in if is4 (pfx_addr p) \<and> 2 < n then n - 2 else n))"

record DetectedSubnet =
  dt_CIDR :: string
  dt_Iface :: string
  dt_Hosts :: nat
  dt_Checked :: bool

record WelcomeNetworkData =
  wn_Existing :: "subnet list"
  wn_Detected :: "DetectedSubnet list"
  wn_Manual :: string
  wn_Error :: string

definition welcomeNetwork :: "surroundings \<Rightarrow> ('s db_scheme, WelcomeNetworkData) act" where
  "welcomeNetwork su = bindA ListSubnets (\<lambda>subnets. bindA (availableDetected su) (\<lambda>ds.
     ret \<lparr>wn_Existing = subnets,
          wn_Detected = map (\<lambda>(c, ifn). \<lparr>dt_CIDR = c, dt_Iface = ifn, dt_Hosts = hostCount c, dt_Checked = size_ok c\<rparr>) ds,
          wn_Manual = [], wn_Error = []\<rparr>))"

definition handleWelcome :: "surroundings \<Rightarrow> ('s, WelcomeNetworkData) paged" where
  "handleWelcome su = or_fail (welcomeNetwork su) (\<lambda>d. ret (Inr d))"

text \<open>A subnet that was picked or typed, or what is wrong with it.\<close>

definition detectedSubnet :: "string \<Rightarrow> string \<Rightarrow> string + subnet" where
  "detectedSubnet c0 ifn = (let c = trim_space c0 in case parse_prefix c of
     None \<Rightarrow> Inl (Quote c @ '' is not a subnet. Write it as an address and a prefix length, like 192.168.1.0/24.'')
   | Some p \<Rightarrow> (case CheckSubnetSize c of
       Inl (ErrTooLarge x n) \<Rightarrow> Inl (''That range is too large to scan. Use /'' @ string_of_nat n @ '' or narrower.'')
     | Inl e \<Rightarrow> Inl (error_text e)
     | Inr _ \<Rightarrow> Inr \<lparr>sn_ID = 0, sn_CIDR = prefix_string (masked p),
         sn_Name = (if ifn = [] then prefix_string (masked p) else ifn), sn_VLANID = None, sn_Kind = ''lan'',
         sn_ScanEnabled = True, sn_ScanIntervalSec = 120, sn_DHCPStart = [], sn_DHCPEnd = [], sn_DHCPPoolSource = []\<rparr>))"

definition picked :: "string \<Rightarrow> string \<times> string" where
  "picked v = (case cut CHR ''|'' v of (c, ifn, _) \<Rightarrow> (c, ifn))"

text \<open>Everything is checked first; the values of the field \<open>subnet\<close> are an argument.\<close>

definition wanted_subnets :: "string list \<Rightarrow> request \<Rightarrow> string + subnet list" where
  "wanted_subnets vals r = (let m = trim_space (rq_Form r ''manual_cidr'');
       entries = map picked vals @ (if m = [] then [] else [(m, [])]) in
     foldr (\<lambda>(c, ifn) out. case detectedSubnet c ifn of
         Inl msg \<Rightarrow> Inl msg
       | Inr sn \<Rightarrow> (case out of Inl msg \<Rightarrow> Inl msg | Inr sns \<Rightarrow> Inr (sn # sns))) entries (Inr []))"

definition create_new :: "subnet \<Rightarrow> ('s db_scheme, unit) act" where
  "create_new sn = bindA (attempt (CreateSubnet sn)) (\<lambda>x. case x of
     Inl e \<Rightarrow> if e = ErrUnique then ret () else fail e | Inr _ \<Rightarrow> ret ())"

definition welcomeNetworkError :: "surroundings \<Rightarrow> string list \<Rightarrow> request \<Rightarrow> string \<Rightarrow> ('s, WelcomeNetworkData) paged" where
  "welcomeNetworkError su vals r msg = or_fail (welcomeNetwork su) (\<lambda>d.
     ret (Inr (d\<lparr>wn_Detected := map (\<lambda>x. x\<lparr>dt_Checked := (dt_CIDR x \<in> (fst \<circ> picked) ` set vals)\<rparr>) (wn_Detected d),
                wn_Manual := trim_space (rq_Form r ''manual_cidr''), wn_Error := msg\<rparr>)))"

definition handleWelcomeSubnets :: "surroundings \<Rightarrow> string list option \<Rightarrow> request \<Rightarrow> ('s, WelcomeNetworkData) paged" where
  "handleWelcomeSubnets su vals r = (case vals of
     None \<Rightarrow> ret (Inl (Failure 400 ''the form could not be read; reload the page and try again''))
   | Some vs \<Rightarrow> (case wanted_subnets vs r of
       Inl msg \<Rightarrow> welcomeNetworkError su vs r msg
     | Inr sns \<Rightarrow> or_fail (forA sns create_new) (\<lambda>_. ret (Inl (Redirect ''/welcome/integrations'')))))"

section \<open>Integrations and the end of the flow\<close>

record WelcomeServicesData =
  ws_Values :: "(string \<times> string) list"
  ws_Configured :: "(string \<times> bool) list"
  ws_Error :: string

definition services_page :: "server \<Rightarrow> string \<Rightarrow> ('s, WelcomeServicesData) paged" where
  "services_page sv msg = or_fail (integrationValues sv) (\<lambda>(vs, conf).
     ret (Inr \<lparr>ws_Values = vs, ws_Configured = conf, ws_Error = msg\<rparr>))"

definition handleWelcomeIntegrationsPage :: "server \<Rightarrow> ('s, WelcomeServicesData) paged" where
  "handleWelcomeIntegrationsPage sv = services_page sv []"

text \<open>Settings are written in the random order of a Go map, \<open>order\<close>.\<close>

definition put_all :: "server \<Rightarrow> (string \<times> string) list \<Rightarrow> ('s db_scheme, unit) act" where
  "put_all sv kvs = forA kvs (\<lambda>(k, v). SetSetting (sv_crypter sv) None k v)"

text \<open>The scans it asks for change the scheduler, which is handed on.\<close>

definition handleWelcomeIntegrations ::
    "server \<Rightarrow> (string \<Rightarrow> string option) \<Rightarrow> sched option \<Rightarrow> bool \<Rightarrow> request \<Rightarrow>
     ('s web_scheme, (response + WelcomeServicesData) \<times> sched option) act" where
  "handleWelcomeIntegrations sv rand trig swap r = bindA (attempt (saveIntegrationSettings sv rand r)) (\<lambda>x. case x of
     Inl _ \<Rightarrow> ret (Inl serverError, trig)
   | Inr (Some msg) \<Rightarrow> bindA (services_page sv msg) (\<lambda>p. ret (p, trig))
   | Inr None \<Rightarrow> bindA (attempt ListSubnets) (\<lambda>y. case y of
       Inl _ \<Rightarrow> ret (Inl serverError, trig)
     | Inr subnets \<Rightarrow>
         (let trig' = snd (snd (ask_all subnets trig));
              kvs = [(''onboarded'', ''1''), (''setup_skipped'', [])] in
          bindA (attempt (put_all sv (if swap then rev kvs else kvs))) (\<lambda>z.
            ret (Inl (case z of Inl _ \<Rightarrow> serverError | Inr _ \<Rightarrow> Redirect ''/welcome/done''), trig')))))"

record WelcomeProgress =
  wp_Devices :: nat
  wp_Subnets :: "ScanState list"

definition welcomeProgress :: "sched option \<Rightarrow> ('s db_scheme, WelcomeProgress) act" where
  "welcomeProgress trig = bindA ListSubnets (\<lambda>subnets. bindA ListDevices (\<lambda>devs.
     ret \<lparr>wp_Devices = length devs,
          wp_Subnets = map (scanState trig) (filter (\<lambda>sn. sn_Kind sn \<noteq> ''wireguard'') subnets)\<rparr>))"

text \<open>The services just connected, of which the page offers a run.\<close>

definition handleWelcomeDone :: "server \<Rightarrow> sched option \<Rightarrow> ('s, WelcomeProgress \<times> string list) paged" where
  "handleWelcomeDone sv trig = or_fail (welcomeProgress trig) (\<lambda>p. or_fail (integrationValues sv) (\<lambda>(_, conf).
     ret (Inr (p, map fst (filter snd conf)))))"

definition handleWelcomeProgress :: "sched option \<Rightarrow> ('s, WelcomeProgress) paged" where
  "handleWelcomeProgress trig = or_fail (welcomeProgress trig) (\<lambda>p. ret (Inr p))"

definition handleWelcomeSkip :: "server \<Rightarrow> (string \<times> string) list \<Rightarrow> 's handler" where
  "handleWelcomeSkip sv order = orFail (put_all sv order) (\<lambda>_. answer (Redirect ''/''))"

definition skip_settings :: "(string \<times> string) list" where
  "skip_settings = [(''onboarded'', ''1''), (''setup_skipped'', ''1''), (''setup_dismissed'', [])]"

definition handleSetupDismiss :: "server \<Rightarrow> 's handler" where
  "handleSetupDismiss sv = orFail (put_all sv [(''setup_dismissed'', ''1'')]) (\<lambda>_. answer (Redirect ''/''))"

record SetupStatus =
  st_NoSubnets :: bool
  st_NoScan :: bool
  st_Scanning :: bool
  st_NoIntegrations :: bool

definition setup_of :: "sched option \<Rightarrow> subnet list \<Rightarrow> integration_status list \<Rightarrow> (string \<times> bool) list \<Rightarrow> SetupStatus option" where
  "setup_of trig subnets sts conf =
     (let swept = filter (\<lambda>sn. sn_Kind sn \<noteq> ''wireguard'') subnets;
          none = (subnets = []);
          unscanned = (swept \<noteq> [] \<and> \<not> list_ex (\<lambda>st. is_Name st = ''scan'') sts);
          bare = \<not> list_ex snd conf in
      if \<not> none \<and> \<not> unscanned \<and> \<not> bare then None
      else Some \<lparr>st_NoSubnets = none, st_NoScan = unscanned,
        st_Scanning = list_ex (\<lambda>sn. let x = scanState trig sn in sc_Queued x \<or> sc_Running x) swept, st_NoIntegrations = bare\<rparr>)"

definition setupStatus :: "server \<Rightarrow> sched option \<Rightarrow> user option \<Rightarrow> subnet list \<Rightarrow> ('s db_scheme, SetupStatus option) act" where
  "setupStatus sv trig me subnets =
     (if \<not> isAdmin me then ret None
      else bindA (GetSetting (sv_crypter sv) ''setup_dismissed'') (\<lambda>dismissed.
        if dismissed = ''1'' then ret None
        else bindA (GetSetting (sv_crypter sv) ''setup_skipped'') (\<lambda>skipped.
          if skipped \<noteq> ''1'' \<and> subnets \<noteq> [] then ret None
          else bindA (if subnets = [] then ret [] else ListIntegrationStatus) (\<lambda>sts.
            bindA (integrationValues sv) (\<lambda>(_, conf). ret (setup_of trig subnets sts conf))))))"

section \<open>The dashboard\<close>

text \<open>The occupied addresses of a subnet, listed.\<close>

definition OccupancyList :: "int \<Rightarrow> ('s db_scheme, (string \<times> occupant) list) act" where
  "OccupancyList sid = bindA (query (occ_rows sid)) (\<lambda>rows.
     case foldl occ_step (Map.empty, \<lambda>_. {}) rows of (out, ifs) \<Rightarrow>
       ret (List.map_filter (\<lambda>ip. map_option (\<lambda>oc. (ip, oc\<lparr>oc_Count := card (ifs ip)\<rparr>)) (out ip)) (remdups (map fst rows))))"

record DashRow =
  dr_Subnet :: subnet
  dr_Used :: nat
  dr_Hosts :: nat
  dr_NextFree :: string
  dr_Free :: nat
  dr_Pool :: nat
  dr_Online :: nat
  dr_Unseen :: nat
  dr_Offline :: nat
  dr_Reserved :: nat

definition count_if :: "('a \<Rightarrow> bool) \<Rightarrow> 'a list \<Rightarrow> nat" where
  "count_if P xs = length (filter P xs)"

definition dash_row :: "subnet \<Rightarrow> (string \<times> occupant) list \<Rightarrow> DashRow" where
  "dash_row sn occ = (let hosts = (case HostIPs (sn_CIDR sn) of Inr hs \<Rightarrow> hs | Inl _ \<Rightarrow> []); os = map snd occ in
     case freeSummary sn hosts (map_of occ) of (nxt, free, pool) \<Rightarrow>
       \<lparr>dr_Subnet = sn, dr_Used = length occ, dr_Hosts = length hosts, dr_NextFree = nxt, dr_Free = free, dr_Pool = pool,
        dr_Online = count_if oc_Online os, dr_Unseen = count_if (\<lambda>x. \<not> oc_Online x \<and> \<not> oc_EverSeen x) os,
        dr_Offline = count_if (\<lambda>x. \<not> oc_Online x \<and> oc_EverSeen x) os, dr_Reserved = count_if (\<lambda>x. oc_Kind x = ''static'') os\<rparr>)"

definition row_conflicts :: "subnet \<Rightarrow> (string \<times> occupant) list \<Rightarrow> (string \<times> subnet) list" where
  "row_conflicts sn occ = map (\<lambda>(ip, _). (ip, sn)) (filter (\<lambda>(_, oc). 1 < oc_Count oc) occ)"

definition subnetRows :: "('s db_scheme, DashRow list \<times> (string \<times> subnet) list) act" where
  "subnetRows = bindA ListSubnets (\<lambda>subnets.
     foldA (\<lambda>sn (rows, conflicts). bindA (OccupancyList (sn_ID sn)) (\<lambda>occ.
       ret (rows @ [dash_row sn occ], conflicts @ row_conflicts sn occ))) subnets ([], []))"

datatype attention_kind = AttConflict | AttIntegration | AttOffline | AttNew | AttUpstream

record AttentionItem =
  at_Kind :: attention_kind
  at_Title :: string
  at_Link :: string
  at_Detail :: string
  at_IP :: string
  at_DeviceID :: int
  at_Since :: "stamp option"
  at_Integration :: string

definition attention :: "attention_kind \<Rightarrow> string \<Rightarrow> string \<Rightarrow> string \<Rightarrow> AttentionItem" where
  "attention k title href det = \<lparr>at_Kind = k, at_Title = title, at_Link = href, at_Detail = det, at_IP = [],
     at_DeviceID = 0, at_Since = None, at_Integration = []\<rparr>"

definition dashNewLimit :: nat where "dashNewLimit = 5"
definition dashEventLimit :: int where "dashEventLimit = 12"

definition device_href :: "device_view \<Rightarrow> string" where
  "device_href d = ''/devices/'' @ string_of_int (dev_ID d)"

definition new_item :: "device_view \<Rightarrow> AttentionItem" where
  "new_item d = (attention AttNew (dev_Name d) (device_href d) (dev_Vendor d))\<lparr>at_DeviceID := dev_ID d,
     at_IP := (case dv_IPs d of [] \<Rightarrow> [] | ip # _ \<Rightarrow> if ii_IP ip \<noteq> dev_Name d then ii_IP ip else [])\<rparr>"

definition offline_item :: "device_view \<Rightarrow> AttentionItem" where
  "offline_item d = (attention AttOffline (dev_Name d) (device_href d)
     (if dv_LastSeen d = None then ''Never seen'' else ''Last seen''))\<lparr>at_Since := dv_LastSeen d\<rparr>"

definition upstream_item :: "device_view \<Rightarrow> AttentionItem" where
  "upstream_item d = (attention AttUpstream (dev_Name d) (device_href d)
     (''No longer listed '' @ (case map_of IntegrationTitles (dev_Source d) of Some t \<Rightarrow> ''in '' @ t | None \<Rightarrow> ''upstream'') @
      '' since''))\<lparr>at_Since := dev_UpstreamMissingSince d\<rparr>"

definition conflict_item :: "string \<times> subnet \<Rightarrow> AttentionItem" where
  "conflict_item x = (case x of (ip, sn) \<Rightarrow> attention AttConflict (ip @ '' is claimed by more than one device'')
     (''/subnets/'' @ string_of_int (sn_ID sn) @ ''?ip='' @ QueryEscape ip) (''In '' @ sn_Name sn))"

text \<open>The first byte in upper case; one that is no character alone becomes the replacement character.\<close>

definition failureDetail :: "string \<Rightarrow> string" where
  "failureDetail d = (case d of
     [] \<Rightarrow> ''Last run failed''
   | c # cs \<Rightarrow> (if c < CHR 0x80 then [upper_char c] else [CHR 0xEF, CHR 0xBF, CHR 0xBD]) @ cs)"

definition failing_item :: "bool \<Rightarrow> integration_status \<Rightarrow> AttentionItem" where
  "failing_item admin st = (let known = (map_of IntegrationTitles (is_Name st) \<noteq> None) in
     (attention AttIntegration (IntegrationName (is_Name st) @ '' is failing'')
       (if \<not> admin then [] else if known then ''/settings/integrations'' else ''/settings/network'') (failureDetail (is_Detail st)))
       \<lparr>at_Since := Some (is_LastRun st), at_Integration := (if known then is_Name st else [])\<rparr>)"

definition unscanned :: "subnet list \<Rightarrow> integration_status list \<Rightarrow> bool" where
  "unscanned subnets sts \<longleftrightarrow> subnets = [] \<or>
     (\<not> list_ex (\<lambda>st. is_Name st = ''scan'') sts \<and> list_ex (\<lambda>sn. sn_Kind sn \<noteq> ''wireguard'') subnets)"

record DashboardData =
  dd_Online :: nat
  dd_Offline :: nat
  dd_New :: nat
  dd_MoreNew :: nat
  dd_Conflicts :: nat
  dd_ConflictHref :: string
  dd_Failing :: nat
  dd_Rows :: "DashRow list"
  dd_Setup :: "SetupStatus option"
  dd_Integrations :: "integration_status list"
  dd_Unscanned :: bool
  dd_Attention :: "AttentionItem list"
  dd_Days :: "event_view event_day list"

text \<open>Conflicts are listed by address; the order of the subnets with the same one is left open by Go's sort.\<close>

definition dashboard_of :: "zone_offset \<Rightarrow> time \<Rightarrow> bool \<Rightarrow> device_view list \<Rightarrow> int list \<Rightarrow> DashRow list \<Rightarrow> (string \<times> subnet) list \<Rightarrow>
    SetupStatus option \<Rightarrow> integration_status list \<Rightarrow> event_view list \<Rightarrow> DashboardData" where
  "dashboard_of offset now admin devs alerting rows found setup sts evs =
     (let conflicts = map conflict_item (stable_sort (\<lambda>a b. fst a < fst b) found);
          fresh = filter (\<lambda>d. \<not> dev_Reviewed d) devs;
          failing = filter (\<lambda>st. \<not> is_OK st) sts in
      \<lparr>dd_Online = count_if dv_Online devs, dd_Offline = count_if (\<lambda>d. \<not> dv_Online d) devs, dd_New = length fresh,
       dd_MoreNew = length fresh - dashNewLimit, dd_Conflicts = length conflicts,
       dd_ConflictHref = (case conflicts of [c] \<Rightarrow> at_Link c | _ \<Rightarrow> ''#attention''), dd_Failing = length failing,
       dd_Rows = rows, dd_Setup = setup, dd_Integrations = sts, dd_Unscanned = unscanned (map dr_Subnet rows) sts,
       dd_Attention = conflicts @ map (failing_item admin) failing @
         map offline_item (filter (\<lambda>d. \<not> dv_Online d \<and> dev_ID d \<in> set alerting) devs) @
         map new_item (take dashNewLimit fresh) @
         map upstream_item (filter (\<lambda>d. dev_UpstreamMissingSince d \<noteq> None) devs),
       dd_Days = GroupEventsByDay offset now evs\<rparr>)"

definition assembleDashboard :: "server \<Rightarrow> sched option \<Rightarrow> zone_offset \<Rightarrow> time \<Rightarrow> user option \<Rightarrow> ('s db_scheme, DashboardData) act" where
  "assembleDashboard sv trig offset now me =
     bindA ListDevices (\<lambda>devs. bindA AlertOfflineDeviceIDs (\<lambda>alerting. bindA subnetRows (\<lambda>(rows, found).
     bindA (setupStatus sv trig me (map dr_Subnet rows)) (\<lambda>setup. bindA ListIntegrationStatus (\<lambda>sts.
     bindA (ListEvents dashEventLimit) (\<lambda>evs.
       ret (dashboard_of offset now (isAdmin me) devs alerting rows found setup sts evs)))))))"

definition handleDashboard :: "server \<Rightarrow> sched option \<Rightarrow> zone_offset \<Rightarrow> time \<Rightarrow> user option \<Rightarrow> ('s, DashboardData) paged" where
  "handleDashboard sv trig offset now me = or_fail (assembleDashboard sv trig offset now me) (\<lambda>d. ret (Inr d))"

text \<open>The dashboard's body alone, fetched again when something changes.\<close>

definition handleDashboardWidgets :: "server \<Rightarrow> sched option \<Rightarrow> zone_offset \<Rightarrow> time \<Rightarrow> user option \<Rightarrow> ('s, DashboardData) paged" where
  "handleDashboardWidgets sv trig offset now me = or_fail (assembleDashboard sv trig offset now me) (\<lambda>d. ret (Inr d))"

end
