(* ===== verification/Home_Facts.thy ===== *)
theory Home_Facts
  imports Web_Home
begin

text \<open>
  The first-run flow creates only subnets that are fit to be scanned, and all of those asked for or, when
  one entry is wrong, none; the numbers of the dashboard are those of the tables.
\<close>

section \<open>Subnets of the flow\<close>

definition fit_subnet :: "subnet \<Rightarrow> bool" where
  "fit_subnet sn \<longleftrightarrow> (\<exists>p. sn_CIDR sn = prefix_string (masked p) \<and> bit_len (pfx_addr p) - pfx_bits p \<le> 16) \<and>
     sn_Kind sn = ''lan'' \<and> sn_ScanEnabled sn \<and> sn_ScanIntervalSec sn = 120"

lemma detectedSubnet_fit: "detectedSubnet c ifn = Inr sn \<Longrightarrow> fit_subnet sn"
  by (auto simp: detectedSubnet_def fit_subnet_def CheckSubnetSize_def Let_def split: option.splits sum.splits error.splits if_splits)

lemma fit_numbered: "fit_subnet (sn\<lparr>sn_ID := i\<rparr>) = fit_subnet sn"
  by (simp add: fit_subnet_def)

lemma wanted_fit: "wanted_subnets vals r = Inr sns \<Longrightarrow> list_all fit_subnet sns"
proof -
  have "foldr (\<lambda>(c, ifn) out. case detectedSubnet c ifn of Inl msg \<Rightarrow> Inl msg
       | Inr sn \<Rightarrow> (case out of Inl msg \<Rightarrow> Inl msg | Inr sns \<Rightarrow> Inr (sn # sns))) entries (Inr []) = Inr sns \<Longrightarrow> list_all fit_subnet sns"
    for entries sns
    by (induction entries arbitrary: sns) (auto dest: detectedSubnet_fit split: sum.splits prod.splits)
  then show "wanted_subnets vals r = Inr sns \<Longrightarrow> list_all fit_subnet sns" unfolding wanted_subnets_def Let_def .
qed

text \<open>Rows are added to the subnets, each one asked for.\<close>

definition added :: "subnet list \<Rightarrow> tables \<Rightarrow> tables \<Rightarrow> bool" where
  "added sns t t' \<longleftrightarrow> (\<exists>new. t' = t\<lparr>t_subnet := t_subnet t @ new\<rparr> \<and>
     (\<forall>x. x \<in> set new \<longrightarrow> (\<exists>sn i. sn \<in> set sns \<and> x = sn\<lparr>sn_ID := i\<rparr>)))"

lemma added_refl: "added sns t t"
  by (auto simp: added_def intro: exI [of _ "[]"])

lemma added_trans: "added sns t t1 \<Longrightarrow> added sns t1 t2 \<Longrightarrow> added sns t t2"
  unfolding added_def by (elim exE conjE, hypsubst) (auto intro!: exI [of _ "_ @ _"])

lemma added_mono: "added sns t t' \<Longrightarrow> set sns \<subseteq> set sns' \<Longrightarrow> added sns' t t'"
  unfolding added_def by blast

definition cidrs :: "tables \<Rightarrow> string set" where "cidrs t = sn_CIDR ` set (t_subnet t)"

lemma added_cidrs: "added sns t t' \<Longrightarrow> cidrs t \<subseteq> cidrs t'"
  by (auto simp: added_def cidrs_def)

lemma create_new_wp:
  "wp (create_new sn) (\<lambda>x s'. added [sn] (tabs s) (tabs s') \<and> (case x of Inl _ \<Rightarrow> True | Inr _ \<Rightarrow> sn_CIDR sn \<in> cidrs (tabs s'))) s"
proof -
  have dup: "ins_subnet sn t = Inl ErrUnique \<Longrightarrow> sn_CIDR sn \<in> cidrs t" for t
    by (auto simp: ins_subnet_def cidrs_def Let_def split: if_splits)
  have ins: "ins_subnet sn t = Inr (i, t') \<Longrightarrow> added [sn] t t' \<and> sn_CIDR sn \<in> cidrs t'" for t i t'
    by (auto simp: ins_subnet_def added_def cidrs_def Let_def split: if_splits intro!: exI [of _ "[sn\<lparr>sn_ID := next_id (sn_ids t)\<rparr>]"])
  have "wp (CreateSubnet sn) (\<lambda>x s'. added [sn] (tabs s) (tabs s') \<and>
      (case x of Inl e \<Rightarrow> e = ErrUnique \<longrightarrow> sn_CIDR sn \<in> cidrs (tabs s') | Inr _ \<Rightarrow> sn_CIDR sn \<in> cidrs (tabs s'))) s"
    unfolding CreateSubnet_def wp_def stmt_def Let_def
    using dup [of "tabs s"] ins [of "tabs s"] added_refl by (auto split: sum.splits)
  then show ?thesis unfolding create_new_def wp_simps
    by (rule wp_mono) (auto simp: wp_ret wp_fail split: sum.splits)
qed

lemma create_all_wp:
  "wp (forA sns create_new) (\<lambda>x s'. added sns (tabs s) (tabs s') \<and>
     (case x of Inl _ \<Rightarrow> True | Inr _ \<Rightarrow> sn_CIDR ` set sns \<subseteq> cidrs (tabs s'))) s"
proof (induction sns arbitrary: s)
  case Nil
  show ?case unfolding forA.simps wp_ret by (simp add: added_refl)
next
  case (Cons sn sns)
  have rest: "wp (forA sns create_new) (\<lambda>x s'. added (sn # sns) (tabs s) (tabs s') \<and>
     (case x of Inl _ \<Rightarrow> True | Inr _ \<Rightarrow> sn_CIDR ` set (sn # sns) \<subseteq> cidrs (tabs s'))) s1"
    if "added [sn] (tabs s) (tabs s1)" "sn_CIDR sn \<in> cidrs (tabs s1)" for s1 :: "'a db_scheme"
  proof (rule wp_mono [OF Cons.IH], goal_cases)
    case (1 x s2)
    then have "added (sn # sns) (tabs s) (tabs s1)" "added (sn # sns) (tabs s1) (tabs s2)"
      using that(1) by (auto intro: added_mono)
    then have "added (sn # sns) (tabs s) (tabs s2)" by (rule added_trans)
    then show ?case using 1 that(2) added_cidrs [of sns "tabs s1" "tabs s2"] by (auto split: sum.splits)
  qed
  show ?case unfolding forA.simps wp_simps
  proof (rule wp_mono [OF create_new_wp], goal_cases)
    case (1 x s1)
    then show ?case using rest [of s1] by (cases x) (auto intro: added_mono)
  qed
qed

lemma welcome_reads: "reads t (welcomeNetwork su) (\<lambda>_. True)"
  unfolding welcomeNetwork_def availableDetected_def ListSubnets_def case_prod_beta
  by (rule keeps_reads) (intro pres_intros)


section \<open>The dashboard's numbers\<close>

lemma occ_list:
  fixes t :: tables and sid :: int
  defines "rows \<equiv> occ_rows sid t"
  assumes "foldl occ_step (Map.empty, \<lambda>_. {}) rows = (out, ifs)"
  shows "map fst (List.map_filter (\<lambda>ip. map_option (\<lambda>oc. (ip, oc\<lparr>oc_Count := card (ifs ip)\<rparr>)) (out ip)) (remdups (map fst rows))) = remdups (map fst rows)"
    "ifs ip = claimants t sid ip"
proof -
  have o': "case out ip of None \<Rightarrow> ip \<notin> fst ` set rows | Some oc \<Rightarrow> \<exists>i. (ip, i, oc) \<in> set rows" for ip
    using occ_fold [of ip rows] assms(2) by simp
  show "ifs ip = claimants t sid ip"
    using occ_fold [of ip rows] assms(2) claimed [of ip _ sid t] by (auto simp: rows_def)
  have "map fst (List.map_filter (\<lambda>ip. map_option (\<lambda>oc. (ip, oc\<lparr>oc_Count := card (ifs ip)\<rparr>)) (out ip)) xs) = xs"
    if "set xs \<subseteq> fst ` set rows" for xs
    using that
  proof (induction xs)
    case (Cons ip xs)
    then show ?case using o' [of ip] by (auto simp: List.map_filter_simps split: option.splits)
  qed (simp add: List.map_filter_simps)
  then show "map fst (List.map_filter (\<lambda>ip. map_option (\<lambda>oc. (ip, oc\<lparr>oc_Count := card (ifs ip)\<rparr>)) (out ip)) (remdups (map fst rows))) = remdups (map fst rows)"
    by simp
qed


definition held_ips :: "tables \<Rightarrow> int \<Rightarrow> string set" where
  "held_ips t sid = {ip. claimants t sid ip \<noteq> {}}"

definition contested :: "tables \<Rightarrow> int \<Rightarrow> string set" where
  "contested t sid = {ip. 1 < card (claimants t sid ip)}"

lemma held_rows: "fst ` set (occ_rows sid t) = held_ips t sid"
  using claimed [of _ _ sid t] by (force simp: held_ips_def image_iff)

lemma OccupancyList_reads:
  "reads t (OccupancyList sid) (\<lambda>occ. distinct (map fst occ) \<and> fst ` set occ = held_ips t sid \<and>
     (\<forall>ip oc. (ip, oc) \<in> set occ \<longrightarrow> oc_Count oc = card (claimants t sid ip)))"
  unfolding OccupancyList_def
proof (rule reads_bind [OF reads_query [where P = "\<lambda>rows. rows = occ_rows sid t"]])
  fix rows assume rows: "rows = occ_rows sid t"
  obtain out ifs where f: "foldl occ_step (Map.empty, \<lambda>_. {}) rows = (out, ifs)"
    by (cases "foldl occ_step (Map.empty, \<lambda>_. {}) rows")
  let ?occ = "List.map_filter (\<lambda>ip. map_option (\<lambda>oc. (ip, oc\<lparr>oc_Count := card (ifs ip)\<rparr>)) (out ip)) (remdups (map fst rows))"
  note listed = occ_list [OF f [unfolded rows]]
  have fst: "map fst ?occ = remdups (map fst rows)" using listed(1) by (simp add: rows)
  have count: "oc_Count oc = card (claimants t sid ip)" if "(ip, oc) \<in> set ?occ" for ip oc
    using that listed(2) by (auto simp: List.map_filter_def)
  have "distinct (map fst ?occ)" "set (map fst ?occ) = held_ips t sid"
    unfolding fst using held_rows [of sid t] by (simp_all add: rows)
  then show "reads t (case foldl occ_step (Map.empty, \<lambda>_. {}) rows of (out, ifs) \<Rightarrow>
       ret (List.map_filter (\<lambda>ip. map_option (\<lambda>oc. (ip, oc\<lparr>oc_Count := card (ifs ip)\<rparr>)) (out ip)) (remdups (map fst rows))))
     (\<lambda>occ. distinct (map fst occ) \<and> fst ` set occ = held_ips t sid \<and>
     (\<forall>ip oc. (ip, oc) \<in> set occ \<longrightarrow> oc_Count oc = card (claimants t sid ip)))"
    unfolding f prod.case using count by (intro reads_ret) auto
qed simp

text \<open>A row's numbers, from the assignments of its subnet.\<close>

definition row_right :: "tables \<Rightarrow> DashRow \<Rightarrow> bool" where
  "row_right t r \<longleftrightarrow> dr_Used r = card (held_ips t (sn_ID (dr_Subnet r))) \<and>
     dr_Online r + dr_Unseen r + dr_Offline r = dr_Used r"

lemma three_ways: "length (filter P xs) + length (filter (\<lambda>x. \<not> P x \<and> Q x) xs) + length (filter (\<lambda>x. \<not> P x \<and> \<not> Q x) xs) = length xs"
  by (induction xs) auto

lemma dash_row_right:
  assumes "distinct (map fst occ)" "fst ` set occ = held_ips t (sn_ID sn)"
  shows "dr_Subnet (dash_row sn occ) = sn" "row_right t (dash_row sn occ)"
proof -
  have "length occ = card (held_ips t (sn_ID sn))"
    using distinct_card [OF assms(1)] assms(2) by simp
  then show "dr_Subnet (dash_row sn occ) = sn" "row_right t (dash_row sn occ)"
    using three_ways [of oc_Online "map snd occ" "\<lambda>x. \<not> oc_EverSeen x"]
    by (simp_all add: dash_row_def row_right_def count_if_def Let_def split: prod.splits)
qed

lemma row_conflicts_count:
  assumes "distinct (map fst occ)" "fst ` set occ = held_ips t (sn_ID sn)"
    and "\<forall>ip oc. (ip, oc) \<in> set occ \<longrightarrow> oc_Count oc = card (claimants t (sn_ID sn) ip)"
  shows "length (row_conflicts sn occ) = card (contested t (sn_ID sn))"
proof -
  have "contested t (sn_ID sn) = fst ` set (filter (\<lambda>(_, oc). 1 < oc_Count oc) occ)"
  proof -
    have "ip \<in> fst ` set occ" if "1 < card (claimants t (sn_ID sn) ip)" for ip
      using that assms(2) by (auto simp: held_ips_def)
    then show ?thesis using assms(3) by (force simp: contested_def)
  qed
  moreover have "distinct (map fst (filter (\<lambda>(_, oc). 1 < oc_Count oc) occ))" using assms(1) by (simp add: distinct_map_filter)
  ultimately show ?thesis using distinct_card [of "map fst (filter (\<lambda>(_, oc). 1 < oc_Count oc) occ)"]
    by (simp add: row_conflicts_def)
qed

lemma subnetRows_reads:
  "reads t subnetRows (\<lambda>(rows, found). map dr_Subnet rows = sortSubnets (t_subnet t) \<and> list_all (row_right t) rows \<and>
     length found = sum_list (map (\<lambda>sn. card (contested t (sn_ID sn))) (t_subnet t)))"
proof -
  define P where "P = (\<lambda>passed (acc :: DashRow list \<times> (string \<times> subnet) list). map dr_Subnet (fst acc) = passed \<and>
     list_all (row_right t) (fst acc) \<and> length (snd acc) = sum_list (map (\<lambda>sn. card (contested t (sn_ID sn))) passed))"
  define f :: "subnet \<Rightarrow> DashRow list \<times> (string \<times> subnet) list \<Rightarrow> ('a db_scheme, DashRow list \<times> (string \<times> subnet) list) act"
    where "f = (\<lambda>sn (rows, conflicts). bindA (OccupancyList (sn_ID sn)) (\<lambda>occ.
       ret (rows @ [dash_row sn occ], conflicts @ row_conflicts sn occ)))"
  have step: "reads t (f sn acc) (P (passed @ [sn]))" if "P passed acc" for passed acc sn
  proof (cases acc)
    case (Pair rows conflicts)
    have "reads t (bindA (OccupancyList (sn_ID sn)) (\<lambda>occ. ret (rows @ [dash_row sn occ], conflicts @ row_conflicts sn occ))) (P (passed @ [sn]))"
    proof (intro reads_bind [OF OccupancyList_reads] reads_ret, goal_cases)
      case (1 occ)
      then show ?case using that dash_row_right [of occ t sn] row_conflicts_count [of occ t sn] by (simp add: P_def Pair)
    qed
    then show ?thesis by (simp only: f_def Pair prod.case)
  qed
  have sum: "sum_list (map (\<lambda>sn. card (contested t (sn_ID sn))) (sortSubnets xs)) = sum_list (map (\<lambda>sn. card (contested t (sn_ID sn))) xs)" for xs
    unfolding sortSubnets_def by (simp add: stable_sort_mset flip: sum_mset_sum_list)
  have start: "P [] ([], [])" by (simp add: P_def)
  have "reads t (foldA f xs ([], [])) (P xs)" for xs
    by (rule reads_foldA [of P, OF start step])
  note fold = this
  have list: "reads t ListSubnets (\<lambda>x. x = sortSubnets (t_subnet t))"
    unfolding ListSubnets_def
    by (rule reads_bind [OF reads_query [where P = "\<lambda>x. x = t_subnet t"]]) (auto intro: reads_ret)
  show ?thesis unfolding subnetRows_def f_def [symmetric]
  proof (rule reads_bind [OF list], goal_cases)
    case (1 subnets)
    from fold [of subnets] show ?case
      by (rule reads_mono) (auto simp: P_def 1 sum)
  qed
qed

lemma ListDevices_counts:
  "reads t ListDevices (\<lambda>devs. mset (map dev_Reviewed devs) = mset (map dev_Reviewed (t_device t)))"
proof -
  have same: "mset (map dev_Reviewed (map scanDevice (order_by dev_Name xs))) = mset (map dev_Reviewed xs)" for xs
    by (simp add: order_by_def scanDevice_def device.defs o_def)
  have view: "dev_Reviewed (view_of macs ips sts tags d) = dev_Reviewed d" for macs ips sts tags d
    by (simp add: view_of_def device.defs)
  show ?thesis unfolding ListDevices_def
    by (rule reads_bind [OF reads_query [where P = "\<lambda>x. x = map scanDevice (order_by dev_Name (t_device t))"]])
      (use same [of "t_device t"] in \<open>auto intro!: reads_ret reads_if reads_bind [OF reads_query [where P = "\<lambda>_. True"]] simp: view multiset.map_comp o_def\<close>)
qed

definition many :: "('a \<Rightarrow> bool) \<Rightarrow> 'a list \<Rightarrow> nat" where
  "many P xs = length (filter P xs)"

lemma many_mset: "mset (map f xs) = mset (map g ys) \<Longrightarrow> many (\<lambda>x. P (f x)) xs = many (\<lambda>y. P (g y)) ys"
proof -
  assume "mset (map f xs) = mset (map g ys)"
  then have "size (filter_mset P (mset (map f xs))) = size (filter_mset P (mset (map g ys)))" by (simp only:)
  then have "length (filter P (map f xs)) = length (filter P (map g ys))" by (simp only: mset_filter [symmetric] size_mset)
  then show ?thesis by (simp add: many_def filter_map o_def)
qed


end
