(* ===== verification/Spec2Isabelle.thy ===== *)
theory Spec2Isabelle
  imports Scan_Seen Autofill_Service Autofill_Probe Scan_Scheduler Notify_Service Sync_WireGuard
    Sync_Proxmox Sync_DHCP Csv_Roundtrip Settings_Facts Home_Facts
begin

text \<open>A verification development for netis.\<close>

end
